(* ===== verification/Js_Base.thy ===== *)
theory Js_Base
  imports Complex_Main "HOL-Library.AList" "HOL-Library.Multiset"
begin

text \<open>
  The part of the JavaScript language and its standard library that the renderer's logic uses,
  shared by every theory of the development.

  \<^item> A string is the list of its UTF-16 code units (\<open>jsstr\<close>); \<open>u ''abc''\<close> is the literal.
  \<^item> A number (\<open>jsnum\<close>) is NaN, an infinity or a finite value. A finite value is a rational:
    every double is one, and an arithmetic operation is the exact operation followed by
    \<open>to_num\<close>, the IEEE round-to-nearest-even to binary64. The two zeros are one value, since
    nothing modelled here tells them apart.
  \<^item> \<open>null\<close> and \<open>undefined\<close> are \<open>None\<close>.
  \<^item> A plain object used as a dictionary is an association list in insertion order, written by
    \<open>AList.update\<close>, which like the engine keeps a key's place when its value is replaced.
  \<^item> \<open>Array.prototype.sort\<close> is stable, as \<open>sort_key\<close> is.
\<close>

named_theorems js_defs \<open>definitions of readers, unfolded together by the component proofs\<close>
named_theorems js_eval \<open>equations that evaluate string and number primitives\<close>

section \<open>Strings\<close>

type_synonym jsstr = "int list"

definition u :: "string \<Rightarrow> jsstr" where
  "u s = map of_char s"

lemma inj_of_char_int: "inj (of_char :: char \<Rightarrow> int)"
  by (simp add: inj_of_char)

lemma u_inj [simp]: "u s = u t \<longleftrightarrow> s = t"
  unfolding u_def by (rule inj_map_eq_map) (rule inj_of_char_int)

lemma u_Nil [simp]: "u s = [] \<longleftrightarrow> s = []" "[] = u s \<longleftrightarrow> s = []"
  by (auto simp: u_def)

lemma u_empty [simp]: "u [] = []"
  by (simp add: u_def)

lemma u_append: "u (s @ t) = u s @ u t"
  by (simp add: u_def)

text \<open>The em dash the pages print for a missing reading.\<close>

definition em_dash :: jsstr where
  "em_dash = [8212]"

definition or_str :: "jsstr \<Rightarrow> jsstr \<Rightarrow> jsstr" where
  "or_str s d = (if s = [] then d else s)"

definition or_undefined :: "jsstr \<Rightarrow> jsstr option" where
  "or_undefined s = (if s = [] then None else Some s)"

definition nullish :: "'a option \<Rightarrow> 'a \<Rightarrow> 'a" where
  "nullish x d = (case x of None \<Rightarrow> d | Some v \<Rightarrow> v)"

lemma nullish_simps [simp]: "nullish None d = d" "nullish (Some v) d = v"
  by (simp_all add: nullish_def)

text \<open>\<open>xs[i]\<close>, undefined out of range.\<close>

fun at_index :: "'a list \<Rightarrow> nat \<Rightarrow> 'a option" where
  "at_index [] i = None"
| "at_index (x # xs) 0 = Some x"
| "at_index (x # xs) (Suc i) = at_index xs i"

definition is_ws :: "int \<Rightarrow> bool" where
  "is_ws c \<longleftrightarrow> (9 \<le> c \<and> c \<le> 13) \<or> c = 32 \<or> c = 160 \<or> c = 5760 \<or> (8192 \<le> c \<and> c \<le> 8202)
     \<or> c = 8232 \<or> c = 8233 \<or> c = 8239 \<or> c = 8287 \<or> c = 12288 \<or> c = 65279"

definition trim_start :: "jsstr \<Rightarrow> jsstr" where
  "trim_start s = dropWhile is_ws s"

definition trim_end :: "jsstr \<Rightarrow> jsstr" where
  "trim_end s = rev (dropWhile is_ws (rev s))"

definition trim :: "jsstr \<Rightarrow> jsstr" where
  "trim s = trim_end (trim_start s)"

fun split_on :: "int \<Rightarrow> jsstr \<Rightarrow> jsstr list" where
  "split_on c [] = [[]]"
| "split_on c (x # xs) =
     (if x = c then [] # split_on c xs
      else (case split_on c xs of [] \<Rightarrow> [[x]] | y # ys \<Rightarrow> (x # y) # ys))"

fun join_with :: "jsstr \<Rightarrow> jsstr list \<Rightarrow> jsstr" where
  "join_with sep [] = []"
| "join_with sep [x] = x"
| "join_with sep (x # y # ys) = x @ sep @ join_with sep (y # ys)"

definition starts_with :: "jsstr \<Rightarrow> jsstr \<Rightarrow> bool" where
  "starts_with s p \<longleftrightarrow> take (length p) s = p"

definition ends_with :: "jsstr \<Rightarrow> jsstr \<Rightarrow> bool" where
  "ends_with s p = starts_with (rev s) (rev p)"

fun includes_str :: "jsstr \<Rightarrow> jsstr \<Rightarrow> bool" where
  "includes_str [] p \<longleftrightarrow> p = []"
| "includes_str (x # xs) p \<longleftrightarrow> starts_with (x # xs) p \<or> includes_str xs p"

abbreviation comma :: int where "comma \<equiv> 44"
abbreviation slash :: int where "slash \<equiv> 47"
abbreviation newline :: int where "newline \<equiv> 10"

lemma split_on_nonempty [simp]: "split_on c s \<noteq> []"
  by (induction s) (auto split: list.splits)

text \<open>Splitting and joining by the same separator is the identity.\<close>

lemma join_split: "join_with [c] (split_on c s) = s"
proof (induction s)
  case (Cons x xs)
  then show ?case
    by (cases "split_on c xs"; cases "tl (split_on c xs)") (auto split: list.splits)
qed simp

lemma split_on_no_sep: "c \<notin> set s \<Longrightarrow> split_on c s = [s]"
  by (induction s) auto

section \<open>Numbers\<close>

datatype jsnum = NaN | NegInf | PosInf | Fin rat

text \<open>The relational operators: false whenever one side is NaN.\<close>

instantiation jsnum :: ord
begin

fun less_jsnum :: "jsnum \<Rightarrow> jsnum \<Rightarrow> bool" where
  "less_jsnum (Fin a) (Fin b) = (a < b)"
| "less_jsnum NegInf (Fin b) = True"
| "less_jsnum NegInf PosInf = True"
| "less_jsnum (Fin a) PosInf = True"
| "less_jsnum x y = False"

definition less_eq_jsnum :: "jsnum \<Rightarrow> jsnum \<Rightarrow> bool" where
  "less_eq_jsnum x y = (x < y \<or> (x = y \<and> x \<noteq> NaN))"

instance ..

end

lemma Fin_le [simp]: "Fin a \<le> Fin b \<longleftrightarrow> a \<le> b"
  by (auto simp: less_eq_jsnum_def)

lemma Fin_le_inf [simp]: "Fin a \<le> PosInf" "NegInf \<le> Fin a" "\<not> Fin a \<le> NegInf" "\<not> PosInf \<le> Fin a"
  by (auto simp: less_eq_jsnum_def)

lemma NaN_cmp [simp]: "\<not> NaN < x" "\<not> x < NaN" "\<not> NaN \<le> x" "\<not> x \<le> NaN"
  by (cases x; simp add: less_eq_jsnum_def)+

lemma PosInf_less [simp]: "\<not> PosInf < x"
  by (cases x) auto

lemma less_NegInf: "\<not> x < NegInf"
  by (cases x) auto

lemma jsnum_less_imp_le: "x < y \<Longrightarrow> x \<le> (y::jsnum)"
  by (simp add: less_eq_jsnum_def)

lemma jsnum_less_irrefl [simp]: "\<not> x < (x::jsnum)"
  by (cases x) auto

lemma jsnum_less_trans: "x < y \<Longrightarrow> y < z \<Longrightarrow> x < (z::jsnum)"
  by (cases x; cases y; cases z) auto

lemma jsnum_less_le_trans: "x < y \<Longrightarrow> y \<le> z \<Longrightarrow> x < (z::jsnum)"
  by (auto simp: less_eq_jsnum_def intro: jsnum_less_trans)

lemma jsnum_le_less_trans: "x \<le> y \<Longrightarrow> y < z \<Longrightarrow> x < (z::jsnum)"
  by (auto simp: less_eq_jsnum_def intro: jsnum_less_trans)

lemma jsnum_le_trans: "x \<le> y \<Longrightarrow> y \<le> z \<Longrightarrow> x \<le> (z::jsnum)"
  by (auto simp: less_eq_jsnum_def intro: jsnum_less_trans)

lemma jsnum_not_less: "x \<noteq> NaN \<Longrightarrow> y \<noteq> NaN \<Longrightarrow> \<not> x < y \<longleftrightarrow> y \<le> (x::jsnum)"
  by (cases x; cases y) (auto simp: less_eq_jsnum_def)

subsection \<open>Rounding to binary64\<close>

function bits :: "int \<Rightarrow> int" where
  "bits n = (if n \<le> 0 then 0 else 1 + bits (n div 2))"
  by pat_completeness auto
termination
  by (relation "measure nat") auto

declare bits.simps [simp del]

definition pow2 :: "int \<Rightarrow> rat" where
  "pow2 e = (if 0 \<le> e then 2 ^ nat e else 1 / 2 ^ nat (- e))"

definition floor_log2 :: "rat \<Rightarrow> int" where
  "floor_log2 x = (if 1 \<le> x then bits \<lfloor>x\<rfloor> - 1 else - bits (\<lceil>1 / x\<rceil> - 1))"

definition round_even :: "rat \<Rightarrow> int" where
  "round_even q = (let f = \<lfloor>q\<rfloor>; d = q - of_int f in
     if d < 1 / 2 then f else if 1 / 2 < d then f + 1 else if even f then f else f + 1)"

definition round_pos :: "rat \<Rightarrow> rat" where
  "round_pos x = (let q = pow2 (max (floor_log2 x) (- 1022) - 52)
     in of_int (round_even (x / q)) * q)"

definition to_num :: "rat \<Rightarrow> jsnum" where
  "to_num x = (if x = 0 then Fin 0
     else let r = round_pos \<bar>x\<bar> in
       if pow2 1024 \<le> r then (if 0 < x then PosInf else NegInf)
       else Fin (if 0 < x then r else - r))"

lemma pow2_pos [simp]: "0 < pow2 e"
  by (simp add: pow2_def)

lemma pow2_nonzero [simp]: "pow2 e \<noteq> 0"
  by (simp add: pow2_def)

lemma round_even_of_int [simp]: "round_even (of_int n) = n"
  by (simp add: round_even_def Let_def)

lemma round_even_nonneg: "0 \<le> q \<Longrightarrow> 0 \<le> round_even q"
  by (auto simp: round_even_def Let_def)

lemma round_pos_nonneg: "0 \<le> x \<Longrightarrow> 0 \<le> round_pos x"
  unfolding round_pos_def Let_def
  by (intro mult_nonneg_nonneg) (auto intro!: round_even_nonneg divide_nonneg_pos simp: less_imp_le)

lemma to_num_not_NaN [simp]: "to_num x \<noteq> NaN" "NaN \<noteq> to_num x"
  by (auto simp: to_num_def Let_def)

lemma to_num_0 [simp]: "to_num 0 = Fin 0"
  by (simp add: to_num_def)

lemma to_num_nonneg: "0 \<le> x \<Longrightarrow> Fin 0 \<le> to_num x"
  using round_pos_nonneg [of "\<bar>x\<bar>"]
  by (auto simp: to_num_def Let_def less_eq_jsnum_def)

text \<open>Floors and ceilings of literal fractions, so that closed terms evaluate.\<close>

lemma floor_frac [js_eval]:
  "\<lfloor>numeral a / numeral b :: rat\<rfloor> = numeral a div numeral b"
  "\<lfloor>1 / numeral b :: rat\<rfloor> = 1 div numeral b"
  using floor_divide_of_int_eq [where 'a = rat, of "numeral a" "numeral b"]
    floor_divide_of_int_eq [where 'a = rat, of 1 "numeral b"] by simp_all

lemma ceiling_frac [js_eval]:
  "\<lceil>numeral a / numeral b :: rat\<rceil> = - (- numeral a div numeral b)"
  "\<lceil>1 / numeral b :: rat\<rceil> = - (- 1 div numeral b)"
  using floor_divide_of_int_eq [where 'a = rat, of "- numeral a" "numeral b"]
    floor_divide_of_int_eq [where 'a = rat, of "- 1" "numeral b"] by (simp_all add: ceiling_def)

subsection \<open>Integers below \<open>2 ^ 53\<close> are exact\<close>

lemma bits_bounds: "0 < n \<Longrightarrow> 0 < bits n \<and> 2 ^ nat (bits n - 1) \<le> n \<and> n < 2 ^ nat (bits n)"
proof (induction n rule: bits.induct)
  case (1 n)
  show ?case
  proof (cases "n = 1")
    case True
    then show ?thesis by (simp add: bits.simps)
  next
    case False
    with 1 have IH: "0 < bits (n div 2)" "2 ^ nat (bits (n div 2) - 1) \<le> n div 2"
        "n div 2 < 2 ^ nat (bits (n div 2))" by auto
    have b: "bits n = 1 + bits (n div 2)" using "1.prems" by (subst bits.simps) simp
    have e: "nat (bits n) = Suc (nat (bits (n div 2)))" "nat (bits n - 1) = Suc (nat (bits (n div 2) - 1))"
      using IH(1) b by auto
    have m: "n = 2 * (n div 2) + n mod 2" "0 \<le> n mod 2" "n mod 2 < 2" by simp_all
    have "2 * 2 ^ nat (bits (n div 2) - 1) \<le> n" using IH(2) m by linarith
    moreover have "n < 2 * 2 ^ nat (bits (n div 2))" using IH(3) m by linarith
    ultimately show ?thesis using IH(1) b unfolding e by simp
  qed
qed

lemma round_pos_exact:
  assumes "0 < n" and "n \<le> 2 ^ 53"
  shows "round_pos (of_int n) = of_int n"
proof -
  have b: "0 < bits n" "2 ^ nat (bits n - 1) \<le> n" using bits_bounds [OF assms(1)] by auto
  define e where "e = bits n - 1"
  have fl: "floor_log2 (of_int n) = e" using assms(1) by (simp add: floor_log2_def e_def)
  have e0: "0 \<le> e" "2 ^ nat e \<le> n" using b by (auto simp: e_def)
  then have "(2::int) ^ nat e \<le> 2 ^ 53" using assms(2) by linarith
  then have "nat e \<le> 53" by (rule power_le_imp_le_exp [rotated]) simp
  then have "e \<le> 53" using e0 by linarith
  have q: "\<exists>k. of_int n / pow2 (e - 52) = of_int k"
  proof (cases "e \<le> 52")
    case True
    then have "of_int n / pow2 (e - 52) = of_int (n * 2 ^ nat (52 - e))"
      by (simp add: pow2_def)
    then show ?thesis by blast
  next
    case False
    with \<open>e \<le> 53\<close> have e53: "e = 53" by simp
    with e0 assms(2) have "n = 2 ^ 53" by simp
    with e53 have "of_int n / pow2 (e - 52) = of_int (2 ^ 52)" by (simp add: pow2_def)
    then show ?thesis by blast
  qed
  then obtain k where k: "of_int n / pow2 (e - 52) = of_int k" by blast
  have "max e (- 1022) = e" using e0 by simp
  then have "round_pos (of_int n) = of_int k * pow2 (e - 52)"
    by (simp add: round_pos_def fl Let_def k)
  also have "\<dots> = of_int n" using k by (simp add: field_simps)
  finally show ?thesis .
qed

lemma to_num_of_int:
  assumes "\<bar>n\<bar> \<le> 2 ^ 53"
  shows "to_num (of_int n) = Fin (of_int n)"
proof (cases "n = 0")
  case False
  have r: "round_pos \<bar>of_int n\<bar> = of_int \<bar>n\<bar>"
    using round_pos_exact [of "\<bar>n\<bar>"] False assms by simp
  have "of_int \<bar>n\<bar> \<le> (of_int (2 ^ 53) :: rat)" using assms by (simp only: of_int_le_iff)
  also have "\<dots> < pow2 1024" by (simp add: pow2_def)
  finally have "\<not> pow2 1024 \<le> (of_int \<bar>n\<bar> :: rat)" by simp
  then show ?thesis using False r by (auto simp: to_num_def Let_def)
qed simp

lemma to_num_numeral [simp]:
  "numeral n \<le> (9007199254740992 :: int) \<Longrightarrow> to_num (numeral n) = Fin (numeral n)"
  "numeral n \<le> (9007199254740992 :: int) \<Longrightarrow> to_num (- numeral n) = Fin (- numeral n)"
  "to_num 1 = Fin 1" "to_num (- 1) = Fin (- 1)"
  using to_num_of_int [of "numeral n"] to_num_of_int [of "- numeral n"]
    to_num_of_int [of 1] to_num_of_int [of "- 1"] by simp_all

subsection \<open>Arithmetic\<close>

fun num_add :: "jsnum \<Rightarrow> jsnum \<Rightarrow> jsnum" where
  "num_add (Fin a) (Fin b) = to_num (a + b)"
| "num_add NaN y = NaN"
| "num_add x NaN = NaN"
| "num_add PosInf NegInf = NaN"
| "num_add NegInf PosInf = NaN"
| "num_add (Fin a) y = y"
| "num_add x y = x"

fun num_mul :: "jsnum \<Rightarrow> jsnum \<Rightarrow> jsnum" where
  "num_mul (Fin a) (Fin b) = to_num (a * b)"
| "num_mul NaN y = NaN"
| "num_mul x NaN = NaN"
| "num_mul (Fin a) y = (if a = 0 then NaN else if (0 < a) = (y = PosInf) then PosInf else NegInf)"
| "num_mul x (Fin b) = (if b = 0 then NaN else if (0 < b) = (x = PosInf) then PosInf else NegInf)"
| "num_mul x y = (if x = y then PosInf else NegInf)"

text \<open>Division; by zero it is NaN or an infinity by the dividend's sign (of a positive zero).\<close>

fun num_div :: "jsnum \<Rightarrow> jsnum \<Rightarrow> jsnum" where
  "num_div (Fin a) (Fin b) =
     (if b = 0 then (if a = 0 then NaN else if 0 < a then PosInf else NegInf) else to_num (a / b))"
| "num_div NaN y = NaN"
| "num_div x NaN = NaN"
| "num_div (Fin a) y = Fin 0"
| "num_div x (Fin b) = (if (0 \<le> b) = (x = PosInf) then PosInf else NegInf)"
| "num_div x y = NaN"

fun num_neg :: "jsnum \<Rightarrow> jsnum" where
  "num_neg (Fin a) = Fin (- a)"
| "num_neg PosInf = NegInf"
| "num_neg NegInf = PosInf"
| "num_neg NaN = NaN"

definition num_sub :: "jsnum \<Rightarrow> jsnum \<Rightarrow> jsnum" where
  "num_sub x y = num_add x (num_neg y)"

text \<open>The remainder, with the sign of the dividend.\<close>

fun num_mod :: "jsnum \<Rightarrow> jsnum \<Rightarrow> jsnum" where
  "num_mod (Fin a) (Fin b) = (if b = 0 then NaN
     else let q = a / b in Fin (a - b * of_int (if 0 \<le> q then \<lfloor>q\<rfloor> else \<lceil>q\<rceil>)))"
| "num_mod (Fin a) NaN = NaN"
| "num_mod (Fin a) y = Fin a"
| "num_mod x y = NaN"

text \<open>\<open>Math.round\<close>: the nearest integer, a tie going up. \<open>Math.floor\<close> likewise.\<close>

fun num_round :: "jsnum \<Rightarrow> jsnum" where
  "num_round (Fin a) = Fin (of_int \<lfloor>a + 1 / 2\<rfloor>)"
| "num_round x = x"

fun num_floor :: "jsnum \<Rightarrow> jsnum" where
  "num_floor (Fin a) = Fin (of_int \<lfloor>a\<rfloor>)"
| "num_floor x = x"

definition num_min :: "jsnum \<Rightarrow> jsnum \<Rightarrow> jsnum" where
  "num_min x y = (if x = NaN \<or> y = NaN then NaN else if x < y then x else y)"

definition num_max :: "jsnum \<Rightarrow> jsnum \<Rightarrow> jsnum" where
  "num_max x y = (if x = NaN \<or> y = NaN then NaN else if y < x then x else y)"

definition is_finite :: "jsnum \<Rightarrow> bool" where
  "is_finite x \<longleftrightarrow> (case x of Fin a \<Rightarrow> True | _ \<Rightarrow> False)"

lemma num_round_nonneg: "Fin 0 \<le> x \<Longrightarrow> Fin 0 \<le> num_round x"
  by (cases x) auto

lemma num_div_nonneg: "Fin 0 \<le> x \<Longrightarrow> Fin 0 < y \<Longrightarrow> y \<noteq> PosInf \<Longrightarrow> Fin 0 \<le> num_div x y"
  by (cases x; cases y) (auto intro!: to_num_nonneg)

lemma num_mul_nonneg: "Fin 0 \<le> x \<Longrightarrow> 0 < b \<Longrightarrow> Fin 0 \<le> num_mul x (Fin b)"
  by (cases x) (auto intro!: to_num_nonneg)

lemma num_min_le: "x \<noteq> NaN \<Longrightarrow> y \<noteq> NaN \<Longrightarrow> num_min x y \<le> x"
  by (cases x; cases y) (auto simp: num_min_def less_eq_jsnum_def)

lemma num_min_ge: "z \<le> x \<Longrightarrow> z \<le> y \<Longrightarrow> z \<le> num_min x y"
  by (cases x; cases y) (auto simp: num_min_def)

lemma num_max_ge: "x \<noteq> NaN \<Longrightarrow> y \<noteq> NaN \<Longrightarrow> x \<le> num_max x y"
  by (cases x; cases y) (auto simp: num_max_def less_eq_jsnum_def)

lemma num_max_le: "x \<le> z \<Longrightarrow> y \<le> z \<Longrightarrow> num_max x y \<le> z"
  by (cases x; cases y) (auto simp: num_max_def)

lemma num_round_NaN [simp]: "num_round x = NaN \<longleftrightarrow> x = NaN"
  by (cases x) simp_all

lemma num_mul_NaN [simp]: "b \<noteq> 0 \<Longrightarrow> num_mul x (Fin b) = NaN \<longleftrightarrow> x = NaN"
  by (cases x) auto

lemma num_div_NaN: "is_finite x \<Longrightarrow> is_finite y \<Longrightarrow> y \<noteq> Fin 0 \<Longrightarrow> num_div x y \<noteq> NaN"
  by (cases x; cases y) (auto simp: is_finite_def)

text \<open>A percentage capped at 100.\<close>

lemma num_min_cap: "y \<noteq> NaN \<Longrightarrow> num_min (Fin c) y \<le> Fin c"
  by (rule num_min_le) simp_all

section \<open>Reading numbers out of strings\<close>

definition is_digit :: "int \<Rightarrow> bool" where
  "is_digit c \<longleftrightarrow> 48 \<le> c \<and> c \<le> 57"

definition digits_val :: "jsstr \<Rightarrow> int" where
  "digits_val ds = foldl (\<lambda>a d. a * 10 + (d - 48)) 0 ds"

text \<open>A leading sign and what follows it.\<close>

fun sign_of :: "jsstr \<Rightarrow> int \<times> jsstr" where
  "sign_of [] = (1, [])"
| "sign_of (c # cs) = (if c = 45 then (- 1, cs) else if c = 43 then (1, cs) else (1, c # cs))"

text \<open>\<open>Number.parseInt(s, 10)\<close>: the longest run of digits, NaN without one.\<close>

definition parse_int :: "jsstr \<Rightarrow> jsnum" where
  "parse_int s = (let (sg, r) = sign_of (trim_start s); ds = takeWhile is_digit r
     in if ds = [] then NaN else to_num (of_int (sg * digits_val ds)))"

definition pow10 :: "int \<Rightarrow> rat" where
  "pow10 e = (if 0 \<le> e then 10 ^ nat e else 1 / 10 ^ nat (- e))"

text \<open>An unsigned decimal literal at the head of a string: its value and what follows.\<close>

definition scan_decimal :: "jsstr \<Rightarrow> (rat \<times> jsstr) option" where
  "scan_decimal s =
    (let ip = takeWhile is_digit s; r1 = dropWhile is_digit s;
         (fp, r2) = (case r1 of
             c # cs \<Rightarrow> if c = 46 then (takeWhile is_digit cs, dropWhile is_digit cs) else ([], r1)
           | [] \<Rightarrow> ([], []));
         (ex, r3) = (case r2 of
             c # cs \<Rightarrow> if c = 101 \<or> c = 69 then
                 (let (sg, ds) = sign_of cs; es = takeWhile is_digit ds
                  in if es = [] then (0, r2) else (sg * digits_val es, dropWhile is_digit ds))
               else (0, r2)
           | [] \<Rightarrow> (0, []))
     in if ip = [] \<and> fp = [] then None
        else Some (of_int (digits_val (ip @ fp)) * pow10 (ex - int (length fp)), r3))"

definition infinity_str :: jsstr where
  "infinity_str = u ''Infinity''"

text \<open>\<open>Number.parseFloat\<close>: the longest prefix that is a decimal literal.\<close>

definition parse_float :: "jsstr \<Rightarrow> jsnum" where
  "parse_float s = (let (sg, r) = sign_of (trim_start s) in
     if starts_with r infinity_str then (if sg = 1 then PosInf else NegInf)
     else (case scan_decimal r of None \<Rightarrow> NaN | Some (v, _) \<Rightarrow> to_num (of_int sg * v)))"

definition radix_digit :: "int \<Rightarrow> int option" where
  "radix_digit c = (if is_digit c then Some (c - 48)
     else if 97 \<le> c \<and> c \<le> 102 then Some (c - 87)
     else if 65 \<le> c \<and> c \<le> 70 then Some (c - 55) else None)"

fun radix_val :: "int \<Rightarrow> int \<Rightarrow> jsstr \<Rightarrow> int option" where
  "radix_val b acc [] = Some acc"
| "radix_val b acc (c # cs) = (case radix_digit c of
     Some d \<Rightarrow> if d < b then radix_val b (acc * b + d) cs else None
   | None \<Rightarrow> None)"

text \<open>The radix a prefix such as \<open>0x\<close> asks for.\<close>

definition radix_of :: "jsstr \<Rightarrow> int option" where
  "radix_of s = (case s of
     z # c # ds \<Rightarrow> if z \<noteq> 48 \<or> ds = [] then None
       else if c = 120 \<or> c = 88 then Some 16
       else if c = 111 \<or> c = 79 then Some 8
       else if c = 98 \<or> c = 66 then Some 2 else None
   | _ \<Rightarrow> None)"

text \<open>\<open>Number(s)\<close>: the whole trimmed string is a literal, the empty one is 0.\<close>

definition to_number :: "jsstr \<Rightarrow> jsnum" where
  "to_number s = (let t = trim s in
     if t = [] then Fin 0
     else (case radix_of t of
       Some b \<Rightarrow> (case radix_val b 0 (drop 2 t) of None \<Rightarrow> NaN | Some v \<Rightarrow> to_num (of_int v))
     | None \<Rightarrow> (let (sg, r) = sign_of t in
         if r = infinity_str then (if sg = 1 then PosInf else NegInf)
         else (case scan_decimal r of
                 Some (v, []) \<Rightarrow> to_num (of_int sg * v)
               | _ \<Rightarrow> NaN))))"

section \<open>Printing numbers\<close>

function nat_digits :: "int \<Rightarrow> jsstr" where
  "nat_digits n = (if n < 10 then [48 + n] else nat_digits (n div 10) @ [48 + n mod 10])"
  by pat_completeness auto
termination
  by (relation "measure nat") auto

declare nat_digits.simps [simp del]

definition int_to_str :: "int \<Rightarrow> jsstr" where
  "int_to_str i = (if i < 0 then 45 # nat_digits (- i) else nat_digits i)"

text \<open>The first integer of \<open>k, ..., hi - 1\<close> that satisfies \<open>P\<close>.\<close>

function find_int :: "(int \<Rightarrow> bool) \<Rightarrow> int \<Rightarrow> int \<Rightarrow> int option" where
  "find_int P k hi = (if hi \<le> k then None else if P k then Some k else find_int P (k + 1) hi)"
  by pat_completeness auto
termination
  by (relation "measure (\<lambda>(P, k, hi). nat (hi - k))") auto

declare find_int.simps [simp del]

text \<open>
  The digits of a positive double \<open>x\<close>: the exponent \<open>n\<close> with \<open>10 ^ (n - 1) \<le> x < 10 ^ n\<close>, and
  the fewest significant digits that read back as \<open>x\<close> (seventeen always do).
\<close>

definition dec_exponent :: "rat \<Rightarrow> int" where
  "dec_exponent x = (if 1 \<le> x then int (length (nat_digits \<lfloor>x\<rfloor>))
     else (case find_int (\<lambda>m. pow10 (- m - 1) \<le> x) 0 400 of None \<Rightarrow> 0 | Some m \<Rightarrow> - m))"

definition digits_candidate :: "rat \<Rightarrow> int \<Rightarrow> int \<Rightarrow> int" where
  "digits_candidate x n k = \<lfloor>x * pow10 (k - n) + 1 / 2\<rfloor>"

definition shortest_digits :: "rat \<Rightarrow> jsstr \<times> int" where
  "shortest_digits x = (let n = dec_exponent x in
     case find_int (\<lambda>k. digits_candidate x n k < 10 ^ nat k
            \<and> to_num (of_int (digits_candidate x n k) * pow10 (n - k)) = Fin x) 1 18 of
       None \<Rightarrow> (nat_digits (digits_candidate x n 17), n)
     | Some k \<Rightarrow> (nat_digits (digits_candidate x n k), n))"

definition zeros :: "int \<Rightarrow> jsstr" where
  "zeros k = replicate (nat k) 48"

definition pos_to_str :: "rat \<Rightarrow> jsstr" where
  "pos_to_str x = (let (ds, n) = shortest_digits x; k = int (length ds) in
     if k \<le> n \<and> n \<le> 21 then ds @ zeros (n - k)
     else if 0 < n \<and> n \<le> 21 then take (nat n) ds @ [46] @ drop (nat n) ds
     else if - 6 < n \<and> n \<le> 0 then u ''0.'' @ zeros (- n) @ ds
     else (let e = (if 0 < n - 1 then u ''e+'' else u ''e-'') @ nat_digits \<bar>n - 1\<bar>
           in if k = 1 then ds @ e else take 1 ds @ [46] @ drop 1 ds @ e))"

fun num_to_str :: "jsnum \<Rightarrow> jsstr" where
  "num_to_str NaN = u ''NaN''"
| "num_to_str PosInf = infinity_str"
| "num_to_str NegInf = 45 # infinity_str"
| "num_to_str (Fin x) =
     (if x = 0 then u ''0'' else if x < 0 then 45 # pos_to_str (- x) else pos_to_str x)"


lemmas round_eval = to_num_def round_pos_def round_even_def floor_log2_def pow2_def bits.simps Let_def
lemmas parse_eval = parse_int_def to_number_def parse_float_def scan_decimal_def radix_of_def
  radix_digit_def infinity_str_def trim_def trim_start_def trim_end_def is_ws_def is_digit_def
  digits_val_def pow10_def u_def starts_with_def
lemmas print_eval = nat_digits.simps find_int.simps dec_exponent_def digits_candidate_def
  shortest_digits_def pos_to_str_def zeros_def int_to_str_def pow10_def

declare parse_eval [js_eval] print_eval [js_eval]

section \<open>Sorting by a comparison\<close>

text \<open>\<open>xs.sort(cmp)\<close>, which is stable.\<close>

fun insert_by :: "('a \<Rightarrow> 'a \<Rightarrow> int) \<Rightarrow> 'a \<Rightarrow> 'a list \<Rightarrow> 'a list" where
  "insert_by cmp x [] = [x]"
| "insert_by cmp x (y # ys) = (if cmp x y \<le> 0 then x # y # ys else y # insert_by cmp x ys)"

definition sort_by :: "('a \<Rightarrow> 'a \<Rightarrow> int) \<Rightarrow> 'a list \<Rightarrow> 'a list" where
  "sort_by cmp xs = foldr (insert_by cmp) xs []"

lemma mset_sort_by [simp]: "mset (sort_by cmp xs) = mset xs"
proof -
  have "mset (insert_by cmp x ys) = add_mset x (mset ys)" for x ys
    by (induction ys) simp_all
  then show ?thesis by (induction xs) (simp_all add: sort_by_def)
qed

lemma sum_list_sort_by: "sum_list (map f (sort_by cmp xs)) = (sum_list (map f xs) :: int)"
proof -
  have "sum_mset (image_mset f (mset (sort_by cmp xs))) = sum_mset (image_mset f (mset xs))" by simp
  then show ?thesis by (simp only: mset_map [symmetric] sum_mset_sum_list)
qed

text \<open>The sign of \<open>a - b\<close>, which for two doubles is that of their comparison.\<close>

definition num_cmp :: "jsnum \<Rightarrow> jsnum \<Rightarrow> int" where
  "num_cmp a b = (if a < b then - 1 else if b < a then 1 else 0)"

section \<open>Objects used as dictionaries\<close>

text \<open>
  An object lists the keys that are array indexes first, in their numeric order, and the others
  in the order they were added.
\<close>

definition is_index :: "jsstr \<Rightarrow> bool" where
  "is_index k \<longleftrightarrow> k \<noteq> [] \<and> list_all is_digit k \<and> (k = [48] \<or> hd k \<noteq> 48) \<and> digits_val k < 4294967295"

definition own_order :: "(jsstr \<times> 'a) list \<Rightarrow> (jsstr \<times> 'a) list" where
  "own_order al = sort_key (digits_val \<circ> fst) (filter (is_index \<circ> fst) al)
     @ filter (Not \<circ> is_index \<circ> fst) al"

definition obj_set :: "jsstr \<Rightarrow> 'a \<Rightarrow> (jsstr \<times> 'a) list \<Rightarrow> (jsstr \<times> 'a) list" where
  "obj_set k v al = own_order (AList.update k v al)"

definition from_entries :: "(jsstr \<times> 'a) list \<Rightarrow> (jsstr \<times> 'a) list" where
  "from_entries es = foldl (\<lambda>ob (k, v). obj_set k v ob) [] es"

lemma mset_own_order [simp]: "mset (own_order al) = mset al"
  by (simp add: own_order_def comp_def)

lemma set_own_order [simp]: "set (own_order al) = set al"
  by (metis mset_own_order set_mset_mset)

lemma distinct_own_order [simp]: "distinct (map fst (own_order al)) = distinct (map fst al)"
proof -
  have "mset (map fst (own_order al)) = mset (map fst al)" by (simp only: mset_map mset_own_order)
  then show ?thesis by (metis mset_eq_imp_distinct_iff)
qed

lemma length_own_order [simp]: "length (own_order al) = length al"
  by (metis mset_own_order size_mset)

lemma map_of_own_order: "distinct (map fst al) \<Longrightarrow> map_of (own_order al) = map_of al"
  by (rule map_of_inject_set [THEN iffD2]) simp_all

lemma distinct_obj_set: "distinct (map fst al) \<Longrightarrow> distinct (map fst (obj_set k v al))"
  by (simp add: obj_set_def distinct_update)

lemma map_of_obj_set: "distinct (map fst al) \<Longrightarrow> map_of (obj_set k v al) = (map_of al)(k \<mapsto> v)"
  by (simp add: obj_set_def map_of_own_order distinct_update update_conv')

lemma from_entries_aux:
  assumes "distinct (map fst acc)"
  shows "distinct (map fst (foldl (\<lambda>ob (k, v). obj_set k v ob) acc es))"
    and "distinct (map fst es) \<Longrightarrow>
      map_of (foldl (\<lambda>ob (k, v). obj_set k v ob) acc es) = map_of acc ++ map_of es"
  using assms
proof (induction es arbitrary: acc)
  case (Cons e es)
  obtain k v where e: "e = (k, v)" by (cases e)
  {
    case 1
    then show ?case using Cons.IH(1) by (simp add: e distinct_obj_set)
  next
    case 2
    then have "map_of es k = None" by (simp add: e map_of_eq_None_iff)
    then show ?case using Cons.IH(2) [of "obj_set k v acc"] 2
      by (auto simp: e distinct_obj_set map_of_obj_set map_add_def split: option.splits)
  }
qed simp_all

lemma distinct_from_entries [simp]: "distinct (map fst (from_entries es))"
  by (simp add: from_entries_def from_entries_aux(1))

lemma map_of_from_entries: "distinct (map fst es) \<Longrightarrow> map_of (from_entries es) = map_of es"
  by (simp add: from_entries_def from_entries_aux(2))

lemma update_new: "k \<notin> fst ` set al \<Longrightarrow> AList.update k v al = al @ [(k, v)]"
  by (induction al) auto

lemma set_obj_set: "set (obj_set k v al) \<subseteq> insert (k, v) (set al)"
  unfolding obj_set_def set_own_order by (induction al) auto

lemma mset_from_entries: "distinct (map fst es) \<Longrightarrow> mset (from_entries es) = mset es"
proof -
  have "distinct (map fst es) \<Longrightarrow> fst ` set acc \<inter> fst ` set es = {} \<Longrightarrow>
      mset (foldl (\<lambda>ob (k, v). obj_set k v ob) acc es) = mset acc + mset es"
    for acc es :: "(jsstr \<times> 'a) list"
  proof (induction es arbitrary: acc)
    case (Cons e es)
    obtain k v where e: "e = (k, v)" by (cases e)
    have s: "mset (obj_set k v acc) = add_mset (k, v) (mset acc)"
      using Cons.prems(2) by (simp add: e obj_set_def update_new)
    then have "set (obj_set k v acc) = insert (k, v) (set acc)"
      by (metis set_mset_add_mset_insert set_mset_mset)
    then show ?case using Cons s by (auto simp: e)
  qed simp
  then show "distinct (map fst es) \<Longrightarrow> mset (from_entries es) = mset es"
    by (simp add: from_entries_def)
qed

section \<open>JSON values and storage\<close>

text \<open>
  A value \<open>JSON.parse\<close> returns. An object is an association list of its own keys, each once.
  \<open>strict_equal\<close> is \<open>===\<close> between a value that was just parsed and an older one, so two
  objects are never the same one.
\<close>

datatype json = JNull | JBool bool | JNum jsnum | JStr jsstr | JArr "json list"
  | JObj "(jsstr \<times> json) list"

fun truthy :: "json \<Rightarrow> bool" where
  "truthy JNull = False"
| "truthy (JBool b) = b"
| "truthy (JNum n) = (n \<noteq> NaN \<and> n \<noteq> Fin 0)"
| "truthy (JStr s) = (s \<noteq> [])"
| "truthy (JArr js) = True"
| "truthy (JObj fs) = True"

fun obj_get :: "json \<Rightarrow> jsstr \<Rightarrow> json option" where
  "obj_get (JObj fs) k = map_of fs k"
| "obj_get _ k = None"

text \<open>\<open>String(x)\<close> and \<open>Number(x)\<close> of such a value, and of an absent one.\<close>

fun json_to_str :: "json \<Rightarrow> jsstr" where
  "json_to_str JNull = u ''null''"
| "json_to_str (JBool b) = (if b then u ''true'' else u ''false'')"
| "json_to_str (JNum n) = num_to_str n"
| "json_to_str (JStr s) = s"
| "json_to_str (JArr js) =
     join_with [comma] (map (\<lambda>j. if j = JNull then [] else json_to_str j) js)"
| "json_to_str (JObj fs) = u ''[object Object]''"

fun json_to_num :: "json \<Rightarrow> jsnum" where
  "json_to_num JNull = Fin 0"
| "json_to_num (JBool b) = (if b then Fin 1 else Fin 0)"
| "json_to_num (JNum n) = n"
| "json_to_num (JStr s) = to_number s"
| "json_to_num (JArr js) = to_number (json_to_str (JArr js))"
| "json_to_num (JObj fs) = NaN"

text \<open>\<open>x.key ?? d\<close>: a null value falls back as an absent one does.\<close>

definition json_or :: "json option \<Rightarrow> json \<Rightarrow> json" where
  "json_or x d = (case x of None \<Rightarrow> d | Some JNull \<Rightarrow> d | Some v \<Rightarrow> v)"

text \<open>Reading a property of a null throws; anything else has a value for it or none.\<close>

definition get_prop :: "json \<Rightarrow> string \<Rightarrow> json option" where
  "get_prop j k = obj_get j (u k)"

fun all_some :: "'a option list \<Rightarrow> 'a list option" where
  "all_some [] = Some []"
| "all_some (None # xs) = None"
| "all_some (Some x # xs) = (case all_some xs of None \<Rightarrow> None | Some ys \<Rightarrow> Some (x # ys))"

fun strict_equal :: "json \<Rightarrow> json \<Rightarrow> bool" where
  "strict_equal JNull JNull = True"
| "strict_equal (JBool a) (JBool b) = (a = b)"
| "strict_equal (JNum a) (JNum b) = (a = b \<and> a \<noteq> NaN)"
| "strict_equal (JStr a) (JStr b) = (a = b)"
| "strict_equal _ _ = False"

lemma strict_equal_eq: "strict_equal a b \<Longrightarrow> a = b"
  by (cases "(a, b)" rule: strict_equal.cases) auto

text \<open>
  What reading a \<open>localStorage\<close> key comes to: the storage cannot be used at all (no window, or
  the access throws), the key is absent or holds the empty string, its text does not parse, or
  it parses to a value.
\<close>

datatype cell = Unavailable | NoItem | Unparsable | Holds json

end
