(* ===== verification/Broker_Model.thy ===== *)
theory Broker_Model
  imports Js_Base
begin

text \<open>
  The data the Go side hands the renderer (\<open>internal/model/models.ts\<close> of the bindings): the
  broker families, the rows of the cluster, destination, subscription and client listings, and
  the enumerations they use. A field the modelled code never reads keeps its place in the
  record. A number is a \<open>jsnum\<close>, since the bindings promise no more than \<open>number\<close>; the
  attributes a driver attaches to a row are an association list from name to string.
\<close>

section \<open>Families and states\<close>

datatype MQKind =
    KindRocketMQ | KindKafka | KindRabbitMQ | KindPulsar | KindActiveMQ | KindRedisStream
  | KindNATS | KindNSQ | KindMQTT | KindSQS | KindGooglePubSub | KindAzureServiceBus
  | KindKinesis | KindIBMMQ | KindSolace | KindZero

datatype NodeStatus = NodeZero | NodeOnline | NodeWarning | NodeOffline | NodeUnknown

datatype SubscriptionStatus =
    SubscriptionZero | SubscriptionOnline | SubscriptionWarning | SubscriptionOffline

datatype ConnectionStatus = StatusZero | StatusOnline | StatusOffline

text \<open>The strings the enumerations stand for, where the code prints or reads one.\<close>

fun kind_str :: "MQKind \<Rightarrow> jsstr" where
  "kind_str KindRocketMQ = u ''rocketmq''"
| "kind_str KindKafka = u ''kafka''"
| "kind_str KindRabbitMQ = u ''rabbitmq''"
| "kind_str KindPulsar = u ''pulsar''"
| "kind_str KindActiveMQ = u ''activemq''"
| "kind_str KindRedisStream = u ''redis-stream''"
| "kind_str KindNATS = u ''nats''"
| "kind_str KindNSQ = u ''nsq''"
| "kind_str KindMQTT = u ''mqtt''"
| "kind_str KindSQS = u ''sqs''"
| "kind_str KindGooglePubSub = u ''google-pubsub''"
| "kind_str KindAzureServiceBus = u ''azure-servicebus''"
| "kind_str KindKinesis = u ''kinesis''"
| "kind_str KindIBMMQ = u ''ibmmq''"
| "kind_str KindSolace = u ''solace''"
| "kind_str KindZero = []"

definition all_kinds :: "MQKind list" where
  "all_kinds = [KindRocketMQ, KindKafka, KindRabbitMQ, KindPulsar, KindActiveMQ, KindRedisStream,
     KindNATS, KindNSQ, KindMQTT, KindSQS, KindGooglePubSub, KindAzureServiceBus, KindKinesis,
     KindIBMMQ, KindSolace, KindZero]"

lemma set_all_kinds [simp]: "k \<in> set all_kinds"
  by (cases k) (simp_all add: all_kinds_def)

section \<open>Rows\<close>

type_synonym attributes = "(jsstr \<times> jsstr) list"

record DestinationRef =
  ref_namespace :: jsstr
  ref_name :: jsstr

record SubscriptionRef =
  sref_namespace :: jsstr
  sref_name :: jsstr

record Node =
  node_id :: jsnum
  node_name :: jsstr
  node_address :: jsstr
  node_cluster :: jsstr
  node_version :: jsstr
  node_status :: NodeStatus
  node_rateIn :: jsnum
  node_rateOut :: jsnum
  node_diskUsage :: jsnum
  node_lastSeen :: jsstr
  node_tpsHistoryTimestamps :: "jsnum list option"
  node_tpsInHistory :: "jsnum list option"
  node_tpsOutHistory :: "jsnum list option"
  node_attributes :: attributes

record Destination =
  dest_id :: jsnum
  dest_ref :: DestinationRef
  dest_partitions :: jsnum
  dest_subscribers :: jsnum
  dest_depth :: jsnum
  dest_rateIn :: jsnum
  dest_rateOut :: jsnum
  dest_lastUpdated :: jsstr
  dest_attributes :: attributes

record Subscription =
  sub_id :: jsnum
  sub_ref :: SubscriptionRef
  sub_status :: SubscriptionStatus
  sub_members :: jsnum
  sub_destinations :: jsnum
  sub_backlog :: jsnum
  sub_rateOut :: jsnum
  sub_lastUpdated :: jsstr
  sub_attributes :: attributes

record ClientConnection =
  conn_name :: jsstr
  conn_clientName :: jsstr
  conn_namespace :: jsstr
  conn_user :: jsstr
  conn_node :: jsstr
  conn_peerHost :: jsstr
  conn_peerPort :: jsnum
  conn_protocol :: jsstr
  conn_state :: jsstr
  conn_channels :: jsnum
  conn_tls :: bool
  conn_cipher :: jsstr
  conn_heartbeatSec :: jsnum
  conn_recvBytes :: jsnum
  conn_sendBytes :: jsnum
  conn_recvByteRate :: jsnum
  conn_sendByteRate :: jsnum
  conn_connectedAtMs :: jsnum
  conn_blockedBy :: jsstr
  conn_attributes :: attributes

section \<open>Reading an attribute\<close>

text \<open>
  The two ways the readers fall back: \<open>attributes[key] ?? ""\<close>, and a number that is absent when
  the attribute is missing or empty or does not parse.
\<close>

definition attr_str :: "attributes \<Rightarrow> string \<Rightarrow> jsstr" where
  "attr_str a k = nullish (map_of a (u k)) []"

definition attr_flag :: "attributes \<Rightarrow> string \<Rightarrow> bool" where
  "attr_flag a k \<longleftrightarrow> map_of a (u k) = Some (u ''true'')"

lemma attr_str_Nil [simp]: "attr_str [] k = []"
  by (simp add: attr_str_def)

lemma attr_str_absent [simp]:
  "map_of a (u k) = None \<Longrightarrow> attr_str a k = []" "map_of a (u k) = Some s \<Longrightarrow> attr_str a k = s"
  by (simp_all add: attr_str_def)

lemma attr_flag_Nil [simp]: "\<not> attr_flag [] k"
  by (simp add: attr_flag_def)

text \<open>
  The common ends of a numeric reader: a result that is NaN is no reading, or counts as a
  fallback.
\<close>

definition or_null :: "jsnum \<Rightarrow> jsnum option" where
  "or_null value = (if value = NaN then None else Some value)"

definition or_fallback :: "jsnum \<Rightarrow> jsnum \<Rightarrow> jsnum" where
  "or_fallback value d = (if value = NaN then d else value)"

definition split_list :: "jsstr \<Rightarrow> jsstr list" where
  "split_list raw = (if raw = [] then [] else split_on comma raw)"

text \<open>
  The later readers all start from the same text, absent when it is missing or empty, and read
  it as an integer, a decimal or a whole literal. \<open>metric\<close> reads the canonical fields, where a
  negative number is the sentinel of a figure that was not reported.
\<close>

definition text_attr :: "attributes \<Rightarrow> string \<Rightarrow> jsstr option" where
  "text_attr a k = (case map_of a (u k) of None \<Rightarrow> None
     | Some value \<Rightarrow> if value = [] then None else Some value)"

definition int_reading :: "jsstr option \<Rightarrow> jsnum option" where
  "int_reading raw = (case raw of None \<Rightarrow> None | Some s \<Rightarrow> or_null (parse_int s))"

definition float_reading :: "jsstr option \<Rightarrow> jsnum option" where
  "float_reading raw = (case raw of None \<Rightarrow> None | Some s \<Rightarrow> or_null (parse_float s))"

definition finite_reading :: "jsstr option \<Rightarrow> jsnum option" where
  "finite_reading raw = (case raw of None \<Rightarrow> None
     | Some s \<Rightarrow> let parsed = to_number s in if is_finite parsed then Some parsed else None)"

definition bool_reading :: "jsstr option \<Rightarrow> bool option" where
  "bool_reading raw = map_option (\<lambda>s. s = u ''true'') raw"

definition metric :: "jsnum \<Rightarrow> jsnum option" where
  "metric value = (if value < Fin 0 then None else Some value)"

lemma text_attr_absent [simp]:
  "map_of a (u k) = None \<Longrightarrow> text_attr a k = None"
  "map_of a (u k) = Some [] \<Longrightarrow> text_attr a k = None"
  by (simp_all add: text_attr_def)

lemma reading_None [simp]:
  "int_reading None = None" "float_reading None = None" "finite_reading None = None"
  "bool_reading None = None"
  by (simp_all add: int_reading_def float_reading_def finite_reading_def bool_reading_def)

lemma or_null_SomeD: "or_null v = Some n \<Longrightarrow> n = v \<and> n \<noteq> NaN"
  by (auto simp: or_null_def split: if_splits)

lemma reading_not_NaN:
  "int_reading raw = Some n \<Longrightarrow> n \<noteq> NaN"
  "float_reading raw = Some n \<Longrightarrow> n \<noteq> NaN"
  "finite_reading raw = Some n \<Longrightarrow> n \<noteq> NaN"
  by (auto simp: int_reading_def float_reading_def finite_reading_def is_finite_def Let_def
      split: option.splits if_splits dest: or_null_SomeD)

lemma or_fallback_not_NaN: "d \<noteq> NaN \<Longrightarrow> or_fallback v d \<noteq> NaN"
  by (simp add: or_fallback_def)

lemma or_fallback_NaN [simp]: "or_fallback NaN d = d"
  by (simp add: or_fallback_def)

lemma parse_int_Nil [simp]: "parse_int [] = NaN"
  by (simp add: parse_int_def trim_start_def)

lemma parse_float_Nil [simp]: "parse_float [] = NaN"
  by (simp add: parse_float_def trim_start_def starts_with_def infinity_str_def u_def scan_decimal_def)

lemma split_list_join: "join_with [comma] (split_list raw) = raw"
  by (simp add: split_list_def join_split)

record ClusterOverview =
  co_name :: jsstr
  co_totalNodes :: jsnum
  co_onlineNodes :: jsnum
  co_destinations :: jsnum
  co_subscriptions :: jsnum
  co_avgDiskUsage :: jsnum
  co_attributes :: attributes

section \<open>The contracts of a numeric reader\<close>

text \<open>
  Every family reads numbers out of attribute strings, each with its own parser and its own
  filter. There are two kinds. One gives null when there is nothing to read; what the boards
  and the rules rely on is that a missing attribute and an empty one are no reading, and that a
  reading is never NaN, so that a comparison with a threshold means what it says. The other
  falls back to a number.
\<close>

locale numeric_reader =
  fixes attrs :: "'r \<Rightarrow> attributes"
    and reader :: "'r \<Rightarrow> string \<Rightarrow> jsnum option"
  assumes absent: "map_of (attrs r) (u k) = None \<Longrightarrow> reader r k = None"
    and empty: "map_of (attrs r) (u k) = Some [] \<Longrightarrow> reader r k = None"
    and a_number: "reader r k = Some n \<Longrightarrow> n \<noteq> NaN"
begin

lemma reading_present: "reader r k = Some n \<Longrightarrow> \<exists>s. map_of (attrs r) (u k) = Some s \<and> s \<noteq> []"
  using absent [of r k] empty [of r k] by (cases "map_of (attrs r) (u k)") auto

lemma reading_compares: "reader r k = Some n \<Longrightarrow> t \<noteq> NaN \<Longrightarrow> n < t \<or> t \<le> n"
  using jsnum_not_less [of n t] a_number by auto

lemma defaulted_not_NaN: "d \<noteq> NaN \<Longrightarrow> nullish (reader r k) d \<noteq> NaN"
  using a_number by (cases "reader r k") auto

end

locale counting_reader =
  fixes attrs :: "'r \<Rightarrow> attributes"
    and reader :: "'r \<Rightarrow> string \<Rightarrow> jsnum"
    and fallback :: jsnum
  assumes absent: "map_of (attrs r) (u k) = None \<Longrightarrow> reader r k = fallback"
    and a_number: "reader r k \<noteq> NaN"
begin

lemma count_compares: "t \<noteq> NaN \<Longrightarrow> reader r k < t \<or> t \<le> reader r k"
  using jsnum_not_less a_number by blast

lemma nothing_attached: "attrs r = [] \<Longrightarrow> reader r k = fallback"
  by (simp add: absent)

end

end
