(* ===== verification/Alert_Rules.thy ===== *)
theory Alert_Rules
  imports Broker_Model
begin

text \<open>
  The alert switches (\<open>lib/alertRules.ts\<close>): the rules, which of them each family can raise,
  which families' sweeps must fetch a destination listing, and the store of preferences that
  the alerts page and the notification centre share.
\<close>

section \<open>The rules\<close>

datatype AlertRuleKey =
    brokerOffline | groupOffline | groupLag | diskUsage | dlqGrowth | resourceAlarm
  | nodePartition | memoryUsage | queueBacklog | queueNoConsumer | flowControl
  | partitionUnderReplicated | partitionOffline | partitionLeaderless | subscriptionBlocked
  | streamNoLeader | streamUnderReplicated | slowConsumer | deliveryPaused | topicUnsubscribed
  | subscriptionOrphaned | subscriptionUnroutable | entityDisabled | streamNotActive
  | consumerNotActive | transmissionBacklog | deadMsgQueueMissing

definition ALERT_RULE_KEYS :: "AlertRuleKey list" where
  "ALERT_RULE_KEYS = [brokerOffline, streamNoLeader, deliveryPaused, topicUnsubscribed,
     subscriptionOrphaned, subscriptionUnroutable, entityDisabled, streamNotActive,
     consumerNotActive, transmissionBacklog, deadMsgQueueMissing, subscriptionBlocked,
     resourceAlarm, nodePartition, partitionLeaderless, partitionOffline,
     partitionUnderReplicated, streamUnderReplicated, groupOffline, queueNoConsumer, groupLag,
     queueBacklog, diskUsage, memoryUsage, flowControl, slowConsumer, dlqGrowth]"

text \<open>The spelling of a rule: its member of the string union, the key it is stored under.\<close>

fun rule_str :: "AlertRuleKey \<Rightarrow> jsstr" where
  "rule_str brokerOffline = u ''brokerOffline''"
| "rule_str groupOffline = u ''groupOffline''"
| "rule_str groupLag = u ''groupLag''"
| "rule_str diskUsage = u ''diskUsage''"
| "rule_str dlqGrowth = u ''dlqGrowth''"
| "rule_str resourceAlarm = u ''resourceAlarm''"
| "rule_str nodePartition = u ''nodePartition''"
| "rule_str memoryUsage = u ''memoryUsage''"
| "rule_str queueBacklog = u ''queueBacklog''"
| "rule_str queueNoConsumer = u ''queueNoConsumer''"
| "rule_str flowControl = u ''flowControl''"
| "rule_str partitionUnderReplicated = u ''partitionUnderReplicated''"
| "rule_str partitionOffline = u ''partitionOffline''"
| "rule_str partitionLeaderless = u ''partitionLeaderless''"
| "rule_str subscriptionBlocked = u ''subscriptionBlocked''"
| "rule_str streamNoLeader = u ''streamNoLeader''"
| "rule_str streamUnderReplicated = u ''streamUnderReplicated''"
| "rule_str slowConsumer = u ''slowConsumer''"
| "rule_str deliveryPaused = u ''deliveryPaused''"
| "rule_str topicUnsubscribed = u ''topicUnsubscribed''"
| "rule_str subscriptionOrphaned = u ''subscriptionOrphaned''"
| "rule_str subscriptionUnroutable = u ''subscriptionUnroutable''"
| "rule_str entityDisabled = u ''entityDisabled''"
| "rule_str streamNotActive = u ''streamNotActive''"
| "rule_str consumerNotActive = u ''consumerNotActive''"
| "rule_str transmissionBacklog = u ''transmissionBacklog''"
| "rule_str deadMsgQueueMissing = u ''deadMsgQueueMissing''"

lemma set_ALERT_RULE_KEYS [simp]: "k \<in> set ALERT_RULE_KEYS"
  by (cases k) (simp_all add: ALERT_RULE_KEYS_def)

lemma distinct_ALERT_RULE_KEYS: "distinct ALERT_RULE_KEYS"
  by (simp add: ALERT_RULE_KEYS_def)

lemma rule_str_inj [simp]: "rule_str a = rule_str b \<longleftrightarrow> a = b"
proof -
  have "distinct (map rule_str ALERT_RULE_KEYS)" by (simp add: ALERT_RULE_KEYS_def)
  then have "inj_on rule_str (set ALERT_RULE_KEYS)" by (simp add: distinct_map)
  then show ?thesis by (meson inj_onD set_ALERT_RULE_KEYS)
qed

section \<open>Which rules a family raises\<close>

fun RULES_BY_KIND :: "MQKind \<Rightarrow> AlertRuleKey list option" where
  "RULES_BY_KIND KindKafka = Some [brokerOffline, partitionLeaderless, partitionOffline,
     partitionUnderReplicated, groupOffline, groupLag]"
| "RULES_BY_KIND KindPulsar = Some [subscriptionBlocked, groupOffline, groupLag, memoryUsage]"
| "RULES_BY_KIND KindActiveMQ =
     Some [queueNoConsumer, queueBacklog, diskUsage, memoryUsage, dlqGrowth]"
| "RULES_BY_KIND KindRabbitMQ = Some [brokerOffline, resourceAlarm, nodePartition,
     queueNoConsumer, queueBacklog, diskUsage, memoryUsage, flowControl]"
| "RULES_BY_KIND KindNATS =
     Some [streamNoLeader, groupOffline, streamUnderReplicated, groupLag, slowConsumer]"
| "RULES_BY_KIND KindRedisStream =
     Some [brokerOffline, resourceAlarm, memoryUsage, groupOffline, groupLag]"
| "RULES_BY_KIND KindNSQ = Some [deliveryPaused, groupOffline, queueNoConsumer, groupLag]"
| "RULES_BY_KIND KindSQS = Some [dlqGrowth, queueBacklog]"
| "RULES_BY_KIND KindGooglePubSub = Some [topicUnsubscribed, subscriptionOrphaned]"
| "RULES_BY_KIND KindAzureServiceBus =
     Some [topicUnsubscribed, subscriptionUnroutable, entityDisabled, dlqGrowth]"
| "RULES_BY_KIND KindKinesis = Some [streamNotActive, consumerNotActive]"
| "RULES_BY_KIND KindIBMMQ =
     Some [transmissionBacklog, entityDisabled, queueNoConsumer, queueBacklog, dlqGrowth]"
| "RULES_BY_KIND KindSolace = Some [deadMsgQueueMissing, entityDisabled, queueNoConsumer,
     queueBacklog, dlqGrowth, diskUsage]"
| "RULES_BY_KIND KindRocketMQ = None"
| "RULES_BY_KIND KindMQTT = None"
| "RULES_BY_KIND KindZero = None"

definition ROCKETMQ_RULES :: "AlertRuleKey list" where
  "ROCKETMQ_RULES = [brokerOffline, groupOffline, groupLag, diskUsage, dlqGrowth]"

definition rulesFor :: "MQKind option \<Rightarrow> AlertRuleKey list" where
  "rulesFor kind = (case kind of
     None \<Rightarrow> ALERT_RULE_KEYS
   | Some k \<Rightarrow> nullish (RULES_BY_KIND k) ROCKETMQ_RULES)"

definition DESTINATION_RULES :: "AlertRuleKey list" where
  "DESTINATION_RULES = [deliveryPaused, topicUnsubscribed, entityDisabled, streamNotActive,
     transmissionBacklog, deadMsgQueueMissing, queueNoConsumer, queueBacklog, dlqGrowth,
     partitionLeaderless, partitionOffline, partitionUnderReplicated, streamNoLeader,
     streamUnderReplicated]"

text \<open>\<open>Object.keys(RULES_BY_KIND)\<close>: the keys of the table in the order it writes them.\<close>

definition KINDS_WITH_OWN_RULES :: "MQKind list" where
  "KINDS_WITH_OWN_RULES = filter (\<lambda>k. RULES_BY_KIND k \<noteq> None)
     [KindKafka, KindPulsar, KindActiveMQ, KindRabbitMQ, KindNATS, KindRedisStream, KindNSQ,
      KindSQS, KindGooglePubSub, KindAzureServiceBus, KindKinesis, KindIBMMQ, KindSolace]"

definition KINDS_NEEDING_DESTINATIONS :: "MQKind list" where
  "KINDS_NEEDING_DESTINATIONS = [KindRabbitMQ, KindKafka, KindNATS, KindActiveMQ, KindNSQ,
     KindSQS, KindGooglePubSub, KindAzureServiceBus, KindKinesis, KindIBMMQ, KindSolace]"

lemma KINDS_WITH_OWN_RULES_iff: "k \<in> set KINDS_WITH_OWN_RULES \<longleftrightarrow> RULES_BY_KIND k \<noteq> None"
  by (cases k) (simp_all add: KINDS_WITH_OWN_RULES_def)

lemma rulesFor_distinct: "distinct (rulesFor kind)"
proof (cases kind)
  case (Some k)
  then show ?thesis by (cases k) (simp_all add: rulesFor_def ROCKETMQ_RULES_def)
qed (simp add: rulesFor_def distinct_ALERT_RULE_KEYS)

section \<open>The preferences\<close>

text \<open>
  A rule's switch is whatever the stored object holds under its name: the cast in \<open>read\<close>
  checks nothing, and the rules test it for truth.
\<close>

type_synonym AlertRulePrefs = "AlertRuleKey \<Rightarrow> json"

definition DEFAULT_ALERT_RULES :: AlertRulePrefs where
  "DEFAULT_ALERT_RULES = (\<lambda>_. JBool True)"

definition enabled :: "AlertRulePrefs \<Rightarrow> AlertRuleKey \<Rightarrow> bool" where
  "enabled rules key = truthy (rules key)"

text \<open>\<open>{...DEFAULT_ALERT_RULES, ...parsed}\<close>\<close>

definition spread_prefs :: "json \<Rightarrow> AlertRulePrefs" where
  "spread_prefs parsed = (\<lambda>key. nullish (obj_get parsed (rule_str key)) (DEFAULT_ALERT_RULES key))"

definition read_rules :: "cell \<Rightarrow> AlertRulePrefs" where
  "read_rules c = (case c of Holds j \<Rightarrow> spread_prefs j | _ \<Rightarrow> DEFAULT_ALERT_RULES)"

definition same_rules :: "AlertRulePrefs \<Rightarrow> AlertRulePrefs \<Rightarrow> bool" where
  "same_rules left right = (\<forall>key \<in> set ALERT_RULE_KEYS. strict_equal (left key) (right key))"

text \<open>
  The module's state: the snapshot with the identity of its object, the next unused identity,
  the listeners in the order they subscribed, the storage cell and whether a write to it throws,
  and the listeners called so far.
\<close>

record rule_store =
  rs_current :: "nat \<times> AlertRulePrefs"
  rs_next :: nat
  rs_listeners :: "nat list"
  rs_storage :: cell
  rs_full :: bool
  rs_called :: "nat list"

definition getAlertRules :: "rule_store \<Rightarrow> nat \<times> AlertRulePrefs" where
  "getAlertRules s = rs_current s"

text \<open>A \<open>Set\<close> keeps the order its members were added in and a second \<open>add\<close> changes nothing.\<close>

definition subscribeAlertRules :: "nat \<Rightarrow> rule_store \<Rightarrow> rule_store" where
  "subscribeAlertRules l s = s\<lparr>rs_listeners :=
     (if l \<in> set (rs_listeners s) then rs_listeners s else rs_listeners s @ [l])\<rparr>"

definition unsubscribeAlertRules :: "nat \<Rightarrow> rule_store \<Rightarrow> rule_store" where
  "unsubscribeAlertRules l s = s\<lparr>rs_listeners := remove1 l (rs_listeners s)\<rparr>"

definition loadAlertRules :: "rule_store \<Rightarrow> rule_store \<times> (nat \<times> AlertRulePrefs)" where
  "loadAlertRules s =
    (let fresh = read_rules (rs_storage s);
         s' = (if same_rules fresh (snd (rs_current s)) then s
               else s\<lparr>rs_current := (rs_next s, fresh), rs_next := Suc (rs_next s)\<rparr>)
     in (s', rs_current s'))"

text \<open>\<open>JSON.stringify(rules)\<close>, as what a later read parses it to.\<close>

definition stringify_prefs :: "AlertRulePrefs \<Rightarrow> json" where
  "stringify_prefs rules = JObj (map (\<lambda>key. (rule_str key, rules key)) ALERT_RULE_KEYS)"

definition saveAlertRules :: "nat \<times> AlertRulePrefs \<Rightarrow> rule_store \<Rightarrow> rule_store" where
  "saveAlertRules rules s = s\<lparr>rs_current := rules,
     rs_storage := (if rs_full s then rs_storage s else Holds (stringify_prefs (snd rules))),
     rs_called := rs_called s @ rs_listeners s\<rparr>"

lemma map_of_map_inj:
  "x \<in> set xs \<Longrightarrow> inj_on f (set xs) \<Longrightarrow> map_of (map (\<lambda>k. (f k, g k)) xs) (f x) = Some (g x)"
  by (induction xs) (auto simp: inj_on_def)

lemma spread_stringify [simp]: "spread_prefs (stringify_prefs rules) = rules"
  by (rule ext) (simp add: spread_prefs_def stringify_prefs_def map_of_map_inj inj_on_def)

lemma same_rules_eq: "same_rules a b \<Longrightarrow> a = b"
  by (rule ext) (auto simp: same_rules_def intro: strict_equal_eq)

lemma same_rules_bools:
  assumes "\<And>key. \<exists>b. a key = JBool b"
  shows "same_rules a a"
proof -
  have "strict_equal (a key) (a key)" for key using assms [of key] by auto
  then show ?thesis by (simp add: same_rules_def)
qed

section \<open>The properties of the store\<close>

text \<open>
  Rules that were saved are read back from storage, reloading them keeps the very snapshot
  saved, and every listener is told once.
\<close>

lemma saved_rules_come_back:
  assumes "list_all (\<lambda>key. snd rules key \<in> {JBool True, JBool False}) ALERT_RULE_KEYS" and "\<not> rs_full s"
  shows "read_rules (rs_storage (saveAlertRules rules s)) = snd rules
    \<and> loadAlertRules (saveAlertRules rules s) = (saveAlertRules rules s, rules)
    \<and> rs_called (saveAlertRules rules s) = rs_called s @ rs_listeners s"
proof -
  have b: "\<exists>b. snd rules key = JBool b" for key
    using assms(1) by (force simp: list_all_iff)
  have "read_rules (rs_storage (saveAlertRules rules s)) = snd rules"
    using assms(2) by (simp add: saveAlertRules_def read_rules_def)
  then show ?thesis
    using same_rules_bools [OF b] by (simp add: loadAlertRules_def) (simp add: saveAlertRules_def)
qed

text \<open>
  Reloading yields what storage holds and is stable: a second reload returns the same
  snapshot object, and the object is replaced only when the rules differ.
\<close>

lemma reload_keeps_snapshot:
  assumes "loadAlertRules s = (s', snapshot)"
    and "list_all (\<lambda>key. read_rules (rs_storage s) key \<in> {JBool True, JBool False}) ALERT_RULE_KEYS"
  shows "snd snapshot = read_rules (rs_storage s) \<and> loadAlertRules s' = (s', snapshot)
    \<and> (snapshot = rs_current s \<longleftrightarrow> snd (rs_current s) = read_rules (rs_storage s))"
proof -
  define fresh where "fresh = read_rules (rs_storage s)"
  have "\<exists>b. fresh key = JBool b" for key
    using assms(2) by (force simp: list_all_iff fresh_def)
  then have self: "same_rules fresh fresh" by (rule same_rules_bools)
  show ?thesis
  proof (cases "same_rules fresh (snd (rs_current s))")
    case True
    then have e: "loadAlertRules s = (s, rs_current s)" by (simp add: loadAlertRules_def fresh_def)
    then have "s' = s" "snapshot = rs_current s" using assms(1) by simp_all
    then show ?thesis using e same_rules_eq [OF True] by (simp add: fresh_def)
  next
    case False
    then have "loadAlertRules s = (s\<lparr>rs_current := (rs_next s, fresh), rs_next := Suc (rs_next s)\<rparr>, (rs_next s, fresh))"
      by (simp add: loadAlertRules_def fresh_def Let_def)
    then have s': "s' = s\<lparr>rs_current := (rs_next s, fresh), rs_next := Suc (rs_next s)\<rparr>"
      "snapshot = (rs_next s, fresh)" using assms(1) by simp_all
    have "fresh \<noteq> snd (rs_current s)" using False self by auto
    moreover from this have "snapshot \<noteq> rs_current s" by (metis s'(2) snd_conv)
    moreover have "loadAlertRules s' = (s', snapshot)"
      using self by (simp add: loadAlertRules_def s' fresh_def Let_def)
    ultimately show ?thesis by (auto simp: s'(2) fresh_def)
  qed
qed

definition sample_store :: rule_store where
  "sample_store = \<lparr>rs_current = (0, DEFAULT_ALERT_RULES), rs_next = 1, rs_listeners = [4], rs_storage = NoItem,
     rs_full = False, rs_called = []\<rparr>"

end
