(* ===== verification/Alert_Family.thy ===== *)
theory Alert_Family
  imports Alert_Rules
begin

text \<open>
  What the fifteen rule sets share (\<open>lib/alertDerive.ts\<close>): the facts they read, the thresholds,
  the alert they produce, and the contract each of them keeps, stated as locales. Every family
  theory interprets them on its own \<open>derive...Alerts\<close>, and the dispatch and the notification
  centre rest on what the locales promise. The sweep that gathers the facts
  (\<open>hooks/useAlertCenter.tsx\<close>) is here too, since the contract says what it may leave out.
\<close>

section \<open>Facts, thresholds and alerts\<close>

datatype AlertSeverity = Crit | Warn | Info

fun severityWeight :: "AlertSeverity \<Rightarrow> int" where
  "severityWeight Crit = 3"
| "severityWeight Warn = 2"
| "severityWeight Info = 1"

text \<open>Severities in the order of their weight, so that the library's lemmas on order apply.\<close>

instantiation AlertSeverity :: linorder
begin

definition less_eq_AlertSeverity :: "AlertSeverity \<Rightarrow> AlertSeverity \<Rightarrow> bool" where
  "less_eq_AlertSeverity x y \<longleftrightarrow> severityWeight x \<le> severityWeight y"

definition less_AlertSeverity :: "AlertSeverity \<Rightarrow> AlertSeverity \<Rightarrow> bool" where
  "less_AlertSeverity x y \<longleftrightarrow> severityWeight x < severityWeight y"

instance
proof
  fix x y z :: AlertSeverity
  show "(x < y) = (x \<le> y \<and> \<not> y \<le> x)"
    by (auto simp: less_eq_AlertSeverity_def less_AlertSeverity_def)
  show "x \<le> x" by (simp add: less_eq_AlertSeverity_def)
  show "x \<le> y \<Longrightarrow> y \<le> z \<Longrightarrow> x \<le> z" by (simp add: less_eq_AlertSeverity_def)
  show "x \<le> y \<Longrightarrow> y \<le> x \<Longrightarrow> x = y"
    by (cases x; cases y) (simp_all add: less_eq_AlertSeverity_def)
  show "x \<le> y \<or> y \<le> x" by (auto simp: less_eq_AlertSeverity_def)
qed

end

record AlertFacts =
  nodes :: "Node list"
  consumerGroups :: "Subscription list"
  destinations :: "Destination list"
  connections :: "ClientConnection list"

record AlertThresholds =
  lag :: jsnum
  disk :: jsnum

datatype pval = PStr jsstr | PNum jsnum

record DerivedAlert =
  al_key :: jsstr
  al_rule :: AlertRuleKey
  al_severity :: AlertSeverity
  al_params :: "(jsstr \<times> pval) list"
  al_since :: "jsstr option"

definition alert :: "jsstr \<Rightarrow> AlertRuleKey \<Rightarrow> AlertSeverity \<Rightarrow> (string \<times> pval) list \<Rightarrow> DerivedAlert" where
  "alert key rule sev params = \<lparr>al_key = key, al_rule = rule, al_severity = sev,
     al_params = map (\<lambda>(k, v). (u k, v)) params, al_since = None\<rparr>"

lemma alert_simps [simp]:
  "al_key (alert k r s p) = k" "al_rule (alert k r s p) = r" "al_severity (alert k r s p) = s"
  "al_params (alert k r s p) = map (\<lambda>(k, v). (u k, v)) p" "al_since (alert k r s p) = None"
  by (simp_all add: alert_def)

definition NO_FACTS :: AlertFacts where
  "NO_FACTS = \<lparr>nodes = [], consumerGroups = [], destinations = [], connections = []\<rparr>"

lemma NO_FACTS_simps [simp]:
  "nodes NO_FACTS = []" "consumerGroups NO_FACTS = []" "destinations NO_FACTS = []"
  "connections NO_FACTS = []"
  by (simp_all add: NO_FACTS_def)

text \<open>The shapes the rules are written in: \<open>if (b) out.push(a)\<close>, \<open>if (r != null) ...\<close> and a
  loop that pushes.\<close>

definition push_if :: "bool \<Rightarrow> 'a \<Rightarrow> 'a list" where
  "push_if b a = (if b then [a] else [])"

definition if_some :: "'a option \<Rightarrow> ('a \<Rightarrow> 'b list) \<Rightarrow> 'b list" where
  "if_some r body = (case r of None \<Rightarrow> [] | Some v \<Rightarrow> body v)"

definition for_each :: "'a list \<Rightarrow> ('a \<Rightarrow> 'b list) \<Rightarrow> 'b list" where
  "for_each xs body = concat (map body xs)"

lemma set_push_if [simp]: "x \<in> set (push_if b a) \<longleftrightarrow> b \<and> x = a"
  by (auto simp: push_if_def)

lemma push_if_simps [simp]: "push_if True a = [a]" "push_if False a = []"
  by (simp_all add: push_if_def)

lemma set_if_some [simp]: "x \<in> set (if_some r body) \<longleftrightarrow> (\<exists>v. r = Some v \<and> x \<in> set (body v))"
  by (cases r) (simp_all add: if_some_def)

lemma if_some_simps [simp]: "if_some None body = []" "if_some (Some v) body = body v"
  by (simp_all add: if_some_def)

lemma set_for_each [simp]: "y \<in> set (for_each xs body) \<longleftrightarrow> (\<exists>x \<in> set xs. y \<in> set (body x))"
  by (simp add: for_each_def)

lemma in_set_if [simp]:
  "x \<in> set (if b then xs else ys) \<longleftrightarrow> b \<and> x \<in> set xs \<or> \<not> b \<and> x \<in> set ys"
  by simp

lemma for_each_simps [simp]:
  "for_each [] body = []" "for_each (x # xs) body = body x @ for_each xs body"
  by (simp_all add: for_each_def)

lemma for_each_cong [cong]:
  "xs = ys \<Longrightarrow> (\<And>x. x \<in> set ys \<Longrightarrow> b x = c x) \<Longrightarrow> for_each xs b = for_each ys c"
  by (auto simp: for_each_def intro!: arg_cong [where f = concat])

section \<open>The sweep of one connection\<close>

record Connection =
  prof_id :: int
  prof_name :: jsstr
  prof_kind :: MQKind
  prof_status :: ConnectionStatus

text \<open>
  The four requests of a sweep reach the Go side, so what they answer is a parameter: a request
  rejects, or answers a value. The cluster view may be null, and its list may hold nulls.
\<close>

datatype 'a reply = Rejected | Answered 'a

record replies =
  re_cluster :: "Node option list reply"
  re_groups :: "Subscription list reply"
  re_topics :: "Destination list reply"
  re_clients :: "ClientConnection list reply"

fun catch_empty :: "'a list reply \<Rightarrow> 'a list" where
  "catch_empty Rejected = []"
| "catch_empty (Answered xs) = xs"

fun present :: "'a option list \<Rightarrow> 'a list" where
  "present [] = []"
| "present (None # xs) = present xs"
| "present (Some x # xs) = x # present xs"

definition sweepConnection :: "Connection \<Rightarrow> replies \<Rightarrow> int \<times> AlertFacts option" where
  "sweepConnection profile re =
    (if prof_status profile \<noteq> StatusOnline then (prof_id profile, Some NO_FACTS)
     else
       let rabbit = (prof_kind profile = KindRabbitMQ);
           needsDestinations = (prof_kind profile \<in> set KINDS_NEEDING_DESTINATIONS);
           groups = (if rabbit then [] else catch_empty (re_groups re));
           dests = (if needsDestinations then catch_empty (re_topics re) else []);
           conns = (if rabbit then catch_empty (re_clients re) else [])
       in case re_cluster re of
            Rejected \<Rightarrow> (prof_id profile, None)
          | Answered ns \<Rightarrow> (prof_id profile,
              Some \<lparr>nodes = present ns, consumerGroups = groups, destinations = dests,
                   connections = conns\<rparr>))"

text \<open>What a sweep of an online connection keeps of the facts a broker has.\<close>

definition sweep_facts :: "MQKind \<Rightarrow> AlertFacts \<Rightarrow> AlertFacts" where
  "sweep_facts kind f = \<lparr>nodes = nodes f,
     consumerGroups = (if kind = KindRabbitMQ then [] else consumerGroups f),
     destinations = (if kind \<in> set KINDS_NEEDING_DESTINATIONS then destinations f else []),
     connections = (if kind = KindRabbitMQ then connections f else [])\<rparr>"

lemma sweep_facts_simps [simp]:
  "nodes (sweep_facts k f) = nodes f"
  "consumerGroups (sweep_facts k f) = (if k = KindRabbitMQ then [] else consumerGroups f)"
  "destinations (sweep_facts k f) =
     (if k \<in> set KINDS_NEEDING_DESTINATIONS then destinations f else [])"
  "connections (sweep_facts k f) = (if k = KindRabbitMQ then connections f else [])"
  by (simp_all add: sweep_facts_def)

lemma sweepConnection_answered:
  assumes "prof_status profile = StatusOnline"
    and "re_cluster re = Answered (map Some (nodes f))"
    and "re_groups re = Answered (consumerGroups f)"
    and "re_topics re = Answered (destinations f)"
    and "re_clients re = Answered (connections f)"
  shows "sweepConnection profile re = (prof_id profile, Some (sweep_facts (prof_kind profile) f))"
proof -
  have "present (map Some xs) = xs" for xs :: "Node list" by (induction xs) simp_all
  then show ?thesis using assms by (simp add: sweepConnection_def sweep_facts_def Let_def)
qed

section \<open>The words of an alert\<close>

text \<open>
  The placeholders of the sentence each rule is worded with, \<open>alerts.detail\<close> of
  \<open>i18n/locales/en.json\<close>. A placeholder the parameters do not bind is printed raw.
\<close>

fun detail_params :: "AlertRuleKey \<Rightarrow> string list" where
  "detail_params brokerOffline = [''broker'', ''address'']"
| "detail_params groupOffline = [''group'', ''lag'']"
| "detail_params groupLag = [''group'', ''lag'', ''threshold'']"
| "detail_params diskUsage = [''broker'', ''usage'', ''threshold'']"
| "detail_params dlqGrowth = [''group'', ''count'']"
| "detail_params resourceAlarm = [''broker'', ''resource'']"
| "detail_params nodePartition = [''broker'', ''peers'']"
| "detail_params memoryUsage = [''broker'', ''usage'', ''threshold'']"
| "detail_params queueBacklog = [''queue'', ''lag'', ''threshold'']"
| "detail_params queueNoConsumer = [''queue'', ''lag'']"
| "detail_params flowControl = [''count'', ''peer'']"
| "detail_params partitionUnderReplicated = [''topic'', ''count'']"
| "detail_params partitionOffline = [''topic'', ''count'']"
| "detail_params partitionLeaderless = [''topic'', ''count'']"
| "detail_params subscriptionBlocked = [''subscription'', ''unacked'']"
| "detail_params streamNoLeader = [''stream'', ''replicas'']"
| "detail_params streamUnderReplicated = [''stream'', ''replicas'']"
| "detail_params slowConsumer = [''broker'', ''count'']"
| "detail_params deliveryPaused = [''target'', ''lag'']"
| "detail_params topicUnsubscribed = [''topic'']"
| "detail_params subscriptionOrphaned = [''subscription'']"
| "detail_params subscriptionUnroutable = [''subscription'']"
| "detail_params entityDisabled = [''entity'', ''status'']"
| "detail_params streamNotActive = [''stream'', ''status'']"
| "detail_params consumerNotActive = [''consumer'', ''stream'', ''status'']"
| "detail_params transmissionBacklog = [''queue'', ''count'']"
| "detail_params deadMsgQueueMissing = [''queue'', ''target'']"

definition worded :: "DerivedAlert \<Rightarrow> bool" where
  "worded a \<longleftrightarrow> (\<forall>p \<in> set (detail_params (al_rule a)). u p \<in> fst ` set (al_params a))"

lemma worded_alert [simp]:
  "worded (alert k r s ps) \<longleftrightarrow> set (detail_params r) \<subseteq> fst ` set ps"
proof -
  have "u p \<in> fst ` (\<lambda>(k, v). (u k, v)) ` set ps \<longleftrightarrow> p \<in> fst ` set ps" for p
    by force
  then show ?thesis by (auto simp: worded_def)
qed

lemma worded_since [simp]: "worded (a\<lparr>al_since := x\<rparr>) = worded a"
  by (simp add: worded_def)

section \<open>Rows for examples\<close>

definition sample_node :: Node where
  "sample_node = \<lparr>node_id = Fin 1, node_name = u ''a'', node_address = [], node_cluster = [], node_version = [],
     node_status = NodeOffline, node_rateIn = Fin 0, node_rateOut = Fin 0, node_diskUsage = Fin 0,
     node_lastSeen = [], node_tpsHistoryTimestamps = None,
     node_tpsInHistory = None, node_tpsOutHistory = None, node_attributes = []\<rparr>"

definition sample_destination :: "string \<Rightarrow> jsnum \<Rightarrow> (string \<times> string) list \<Rightarrow> Destination" where
  "sample_destination name consumers attrs = \<lparr>dest_id = Fin 1,
     dest_ref = \<lparr>ref_namespace = [], ref_name = u name\<rparr>, dest_partitions = Fin 1,
     dest_subscribers = consumers, dest_depth = Fin 7, dest_rateIn = Fin 0, dest_rateOut = Fin 0,
     dest_lastUpdated = [], dest_attributes = map (\<lambda>(k, v). (u k, u v)) attrs\<rparr>"

definition sample_subscription :: "string \<Rightarrow> (string \<times> string) list \<Rightarrow> Subscription" where
  "sample_subscription name attrs = \<lparr>sub_id = Fin 1,
     sub_ref = \<lparr>sref_namespace = u ''t'', sref_name = u name\<rparr>, sub_status = SubscriptionOnline, sub_members = Fin 1,
     sub_destinations = Fin 1, sub_backlog = Fin 7, sub_rateOut = Fin 0, sub_lastUpdated = [],
     sub_attributes = map (\<lambda>(k, v). (u k, u v)) attrs\<rparr>"

definition sample_server :: "(string \<times> string) list \<Rightarrow> Node" where
  "sample_server attrs = \<lparr>node_id = Fin 1, node_name = u ''a'', node_address = [], node_cluster = [], node_version = [],
     node_status = NodeOnline, node_rateIn = Fin 0, node_rateOut = Fin 0, node_diskUsage = Fin 0,
     node_lastSeen = [], node_tpsHistoryTimestamps = None,
     node_tpsInHistory = None, node_tpsOutHistory = None, node_attributes = map (\<lambda>(k, v). (u k, u v)) attrs\<rparr>"

lemma sample_attrs [simp]:
  "dest_attributes (sample_destination name c attrs) = map (\<lambda>(k, v). (u k, u v)) attrs"
  "sub_attributes (sample_subscription name attrs) = map (\<lambda>(k, v). (u k, u v)) attrs"
  "node_attributes (sample_server attrs) = map (\<lambda>(k, v). (u k, u v)) attrs"
  "ref_name (dest_ref (sample_destination name c attrs)) = u name"
  "sref_name (sub_ref (sample_subscription name attrs)) = u name"
  "sref_namespace (sub_ref (sample_subscription name attrs)) = u ''t''"
  "dest_depth (sample_destination name c attrs) = Fin 7"
  "dest_subscribers (sample_destination name c attrs) = c"
  "sub_backlog (sample_subscription name attrs) = Fin 7"
  by (simp_all add: sample_destination_def sample_subscription_def sample_server_def)

lemma map_of_sample: "map_of (map (\<lambda>(k, v). (u k, u v)) attrs) (u k) = map_option u (map_of attrs k)"
  by (induction attrs) auto

lemma all_rules_on [simp]: "enabled DEFAULT_ALERT_RULES r"
  by (simp add: enabled_def DEFAULT_ALERT_RULES_def)

lemma parse_literals:
  "parse_int (u ''2'') = Fin 2" "parse_int (u ''3'') = Fin 3" "to_number (u ''2'') = Fin 2"
  by (simp_all add: js_eval)

section \<open>The contract of a rule set\<close>

type_synonym derivation = "AlertFacts \<Rightarrow> AlertRulePrefs \<Rightarrow> AlertThresholds \<Rightarrow> DerivedAlert list"

text \<open>Only rules that are switched on speak, and an empty snapshot says nothing.\<close>

locale alert_family =
  fixes derive :: derivation
  assumes only_enabled: "a \<in> set (derive f rules th) \<Longrightarrow> enabled rules (al_rule a)"
    and quiet: "derive NO_FACTS rules th = []"
begin

lemma all_off_quiet: "(\<And>k. \<not> enabled rules k) \<Longrightarrow> derive f rules th = []"
  using only_enabled by (metis list.set_intros(1) neq_Nil_conv)

end

text \<open>Every alert is of a rule the alerts page offers a switch for on this family.\<close>

locale declared_family = alert_family +
  fixes kind :: MQKind
  assumes declared: "a \<in> set (derive f rules th) \<Longrightarrow> al_rule a \<in> set (rulesFor (Some kind))"
begin

lemma switched_off_quiet:
  assumes "\<And>k. k \<in> set (rulesFor (Some kind)) \<Longrightarrow> \<not> enabled rules k"
  shows "derive f rules th = []"
  using only_enabled declared assms by (metis list.set_intros(1) neq_Nil_conv)

end

text \<open>The sweep fetches everything the rules read.\<close>

locale swept_family = alert_family +
  fixes kind :: MQKind
  assumes swept: "derive (sweep_facts kind f) rules th = derive f rules th"
begin

lemma sweep_derives:
  assumes "prof_status profile = StatusOnline" and "prof_kind profile = kind"
    and "re_cluster re = Answered (map Some (nodes f))"
    and "re_groups re = Answered (consumerGroups f)"
    and "re_topics re = Answered (destinations f)"
    and "re_clients re = Answered (connections f)"
  shows "\<exists>g. sweepConnection profile re = (prof_id profile, Some g) \<and>
    derive g rules th = derive f rules th"
  using sweepConnection_answered [OF assms(1) assms(3-6)] assms(2) swept by simp

end

text \<open>A lag threshold of zero turns the backlog rules off.\<close>

locale thresholded_family = alert_family +
  assumes no_backlog: "lag th = Fin 0 \<Longrightarrow> a \<in> set (derive f rules th) \<Longrightarrow>
    al_rule a \<noteq> groupLag \<and> al_rule a \<noteq> queueBacklog"

text \<open>Every placeholder of the alert's sentence is bound.\<close>

locale worded_family = alert_family +
  assumes all_worded: "a \<in> set (derive f rules th) \<Longrightarrow> worded a"

end
