(* ===== verification/Js_Text.thy ===== *)
theory Js_Text
  imports Js_Base
begin

text \<open>
  More of the language's library, over \<open>Js_Base\<close>: the laws of \<open>trim\<close>, a number printed and read
  back, and the few shapes of regular expression the forms test with.
\<close>

section \<open>Trimming\<close>

lemma dropWhile_idle: "dropWhile P s = s \<longleftrightarrow> s = [] \<or> \<not> P (hd s)"
proof (cases s)
  case (Cons x xs)
  have "length (dropWhile P xs) \<le> length xs" by (rule length_dropWhile_le)
  then have "dropWhile P xs \<noteq> x # xs" by (metis impossible_Cons)
  then show ?thesis by (simp add: Cons)
qed simp

text \<open>Trimming what a predicate calls white space, in JavaScript's sense or in Go's.\<close>

definition trim_by :: "(int \<Rightarrow> bool) \<Rightarrow> jsstr \<Rightarrow> jsstr" where
  "trim_by P s = rev (dropWhile P (rev (dropWhile P s)))"

lemma trim_by_is_ws: "trim s = trim_by is_ws s"
  by (simp add: trim_def trim_start_def trim_end_def trim_by_def)

lemma trim_by_ends: "trim_by P s = [] \<or> (\<not> P (hd (trim_by P s)) \<and> \<not> P (last (trim_by P s)))"
proof (cases "trim_by P s = []")
  case False
  let ?t = "dropWhile P s" and ?r = "dropWhile P (rev (dropWhile P s))"
  have t: "?r \<noteq> []" using False by (simp add: trim_by_def)
  then have t': "?t \<noteq> []" by (metis dropWhile.simps(1) rev.simps(1))
  obtain pre where "rev ?t = pre @ ?r" by (metis takeWhile_dropWhile_id)
  then have "?t = rev ?r @ rev pre" by (metis rev_append rev_rev_ident)
  then have "hd ?t = hd (rev ?r)" using t by (metis hd_append2 rev_is_Nil_conv)
  moreover have "\<not> P (hd ?t)" "\<not> P (hd ?r)" using hd_dropWhile [OF t] hd_dropWhile [OF t'] by simp_all
  ultimately show ?thesis using t by (simp add: trim_by_def last_rev)
qed simp

lemma trim_by_idle: "s = [] \<or> (\<not> P (hd s) \<and> \<not> P (last s)) \<Longrightarrow> trim_by P s = s"
  by (cases "s = []") (simp_all add: trim_by_def dropWhile_idle [THEN iffD2] hd_rev)

lemma trim_by_twice [simp]: "trim_by P (trim_by P s) = trim_by P s"
  by (rule trim_by_idle) (rule trim_by_ends)

lemma set_trim_by: "set (trim_by P s) \<subseteq> set s"
  unfolding trim_by_def set_rev by (auto dest!: set_dropWhileD)

lemma trim_trim [simp]: "trim (trim s) = trim s"
  by (simp add: trim_by_is_ws)

lemma trim_Nil [simp]: "trim [] = []"
  by (simp add: trim_def trim_start_def trim_end_def)

lemma trim_nonblank: "trim s \<noteq> [] \<Longrightarrow> \<not> is_ws (hd (trim s)) \<and> \<not> is_ws (last (trim s))"
  using trim_by_ends [of is_ws s] by (simp add: trim_by_is_ws)

lemma trim_idle: "s = [] \<or> (\<not> is_ws (hd s) \<and> \<not> is_ws (last s)) \<Longrightarrow> trim s = s"
  by (simp add: trim_by_is_ws trim_by_idle)

lemma trim_empty_iff: "trim s = [] \<longleftrightarrow> (\<forall>c \<in> set s. is_ws c)"
  by (auto simp: trim_def trim_start_def trim_end_def dropWhile_eq_Nil_conv dest: set_dropWhileD)
    (metis dropWhile_eq_Nil_conv hd_dropWhile list.set_sel(1))

text \<open>Go's \<open>unicode.IsSpace\<close> and \<open>strings.TrimSpace\<close>: a byte order mark stays, a next-line character goes.\<close>

definition go_space :: "int \<Rightarrow> bool" where
  "go_space c \<longleftrightarrow> (is_ws c \<and> c \<noteq> 65279) \<or> c = 133"

definition TrimSpace :: "jsstr \<Rightarrow> jsstr" where
  "TrimSpace s = trim_by go_space s"

lemma TrimSpace_twice [simp]: "TrimSpace (TrimSpace s) = TrimSpace s"
  by (simp add: TrimSpace_def)

section \<open>Splitting\<close>

text \<open>The parts of a string between the characters a predicate picks out.\<close>

fun split_when :: "(int \<Rightarrow> bool) \<Rightarrow> jsstr \<Rightarrow> jsstr list" where
  "split_when P [] = [[]]"
| "split_when P (x # xs) = (if P x then [] # split_when P xs
     else (x # hd (split_when P xs)) # tl (split_when P xs))"

lemma split_when_nonempty [simp]: "split_when P s \<noteq> []"
  by (cases s) auto

lemma split_when_parts: "w \<in> set (split_when P s) \<Longrightarrow> c \<in> set w \<Longrightarrow> \<not> P c"
proof (induction s arbitrary: w)
  case (Cons x xs)
  show ?case
  proof (cases "P x")
    case True
    then show ?thesis using Cons by auto
  next
    case False
    have "hd (split_when P xs) \<in> set (split_when P xs)" by simp
    moreover have "tl (split_when P xs) = [] \<or> set (tl (split_when P xs)) \<subseteq> set (split_when P xs)"
      by (metis set_subset_Cons list.collapse split_when_nonempty)
    ultimately show ?thesis using Cons False by fastforce
  qed
qed simp

lemma split_when_word: "(\<And>c. c \<in> set w \<Longrightarrow> \<not> P c) \<Longrightarrow> split_when P w = [w]"
  by (induction w) auto

lemma split_when_append: "(\<And>c. c \<in> set w \<Longrightarrow> \<not> P c) \<Longrightarrow> P x \<Longrightarrow> split_when P (w @ x # s) = w # split_when P s"
  by (induction w) auto

text \<open>Words joined by one separator split into themselves.\<close>

lemma split_when_join:
  assumes "\<And>w c. w \<in> set ws \<Longrightarrow> c \<in> set w \<Longrightarrow> \<not> P c" and "P x" and "ws \<noteq> []"
  shows "split_when P (join_with [x] ws) = ws"
  using assms
proof (induction ws rule: induct_list012)
  case (3 w v ws)
  then have "split_when P (join_with [x] (v # ws)) = v # ws" by auto
  moreover have "split_when P (w @ x # join_with [x] (v # ws)) = w # split_when P (join_with [x] (v # ws))"
    by (rule split_when_append) (use 3 in auto)
  ultimately show ?case by simp
qed (simp_all add: split_when_word)

lemma split_on_when: "split_on c s = split_when (\<lambda>x. x = c) s"
  by (induction s) (auto split: list.split)

lemma split_on_join:
  "(\<And>w. w \<in> set ws \<Longrightarrow> c \<notin> set w) \<Longrightarrow> ws \<noteq> [] \<Longrightarrow> split_on c (join_with [c] ws) = ws"
  unfolding split_on_when by (rule split_when_join) auto

section \<open>Integers, printed and read back\<close>

lemma digits_val_snoc: "digits_val (ds @ [c]) = digits_val ds * 10 + (c - 48)"
  by (simp add: digits_val_def)

lemma digits_val_zeros: "digits_val (ds @ replicate n 48) = digits_val ds * 10 ^ n"
proof (induction n arbitrary: ds)
  case (Suc n)
  have "digits_val (ds @ replicate (Suc n) 48) = digits_val ((ds @ [48]) @ replicate n 48)" by simp
  also have "\<dots> = digits_val (ds @ [48]) * 10 ^ n" by (rule Suc)
  finally show ?case by (simp add: digits_val_snoc)
qed simp

lemma nat_digits_facts:
  "0 \<le> n \<Longrightarrow> digits_val (nat_digits n) = n \<and> (\<forall>c \<in> set (nat_digits n). is_digit c) \<and> nat_digits n \<noteq> []
     \<and> n < 10 ^ length (nat_digits n) \<and> (0 < n \<longrightarrow> 10 ^ (length (nat_digits n) - 1) \<le> n)"
proof (induction n rule: nat_digits.induct)
  case (1 n)
  show ?case
  proof (cases "n < 10")
    case True
    then show ?thesis using "1.prems" by (subst (1 2 3 4 5) nat_digits.simps) (auto simp: digits_val_def is_digit_def)
  next
    case False
    let ?d = "nat_digits (n div 10)"
    have IH: "digits_val ?d = n div 10" "\<forall>c \<in> set ?d. is_digit c" "?d \<noteq> []"
        "n div 10 < 10 ^ length ?d" "10 ^ (length ?d - 1) \<le> n div 10"
      using "1.IH" False "1.prems" by auto
    have e: "nat_digits n = ?d @ [48 + n mod 10]" using False by (subst nat_digits.simps) simp
    have m: "n = 10 * (n div 10) + n mod 10" "0 \<le> n mod 10" "n mod 10 < 10" by simp_all
    have "n < 10 * 10 ^ length ?d" using IH(4) m by linarith
    moreover have "10 * 10 ^ (length ?d - 1) \<le> n" using IH(5) m by linarith
    moreover have "10 * (10 :: int) ^ (length ?d - 1) = 10 ^ length ?d"
      using IH(3) by (cases ?d) simp_all
    moreover have "is_digit (48 + n mod 10)" using m by (simp add: is_digit_def)
    ultimately show ?thesis using IH m unfolding e by (auto simp: digits_val_snoc)
  qed
qed

lemma takeWhile_digits: "(\<And>c. c \<in> set ds \<Longrightarrow> is_digit c) \<Longrightarrow> takeWhile is_digit ds = ds"
  by (simp add: takeWhile_eq_all_conv)

lemma digit_plain: "is_digit c \<Longrightarrow> \<not> is_ws c \<and> c \<noteq> 45 \<and> c \<noteq> 43"
  by (auto simp: is_digit_def is_ws_def)

lemma parse_int_digits:
  assumes "ds \<noteq> []" and "\<And>c. c \<in> set ds \<Longrightarrow> is_digit c"
  shows "parse_int ds = to_num (of_int (digits_val ds))"
proof -
  obtain c cs where ds: "ds = c # cs" using assms(1) by (cases ds) auto
  have "\<not> is_ws c" "c \<noteq> 45" "c \<noteq> 43" using digit_plain assms(2) ds by auto
  then have "trim_start ds = ds" "sign_of ds = (1, ds)" by (simp_all add: trim_start_def ds)
  then show ?thesis using assms(1) by (simp add: parse_int_def takeWhile_digits [OF assms(2)])
qed

lemma find_int_least:
  "find_int P k hi = Some m \<Longrightarrow> P m \<and> k \<le> m \<and> m < hi"
  "k \<le> j \<Longrightarrow> j < hi \<Longrightarrow> P j \<Longrightarrow> \<exists>m. find_int P k hi = Some m \<and> m \<le> j"
proof (induction P k hi rule: find_int.induct)
  case (1 P k hi)
  {
    case 1
    then show ?case using "1.IH"(1) by (subst (asm) find_int.simps) (fastforce split: if_splits)
  next
    case 2
    show ?case
    proof (cases "P k")
      case True
      then show ?thesis using 2 by (subst find_int.simps) auto
    next
      case False
      then have "k + 1 \<le> j" using 2 by (cases "j = k") auto
      then have "\<exists>m. find_int P (k + 1) hi = Some m \<and> m \<le> j" using "1.IH"(2) False 2 by simp
      then show ?thesis using False 2 by (subst find_int.simps) simp
    qed
  }
qed

text \<open>
  An integer of at most fifteen digits prints as its digits: some count of digits no longer
  than the integer part reads back as the number, and what is printed is that candidate.
\<close>

lemma digits_candidate_integer:
  assumes "0 < i" and n: "n = int (length (nat_digits i))"
  shows "digits_candidate (of_int i) n n = i" "i < 10 ^ nat n"
proof -
  show "digits_candidate (of_int i) n n = i"
    by (simp add: digits_candidate_def pow10_def floor_eq_iff)
  show "i < 10 ^ nat n" using nat_digits_facts [of i] assms by simp
qed

lemma digits_candidate_long:
  assumes "0 < i" and n: "n = int (length (nat_digits i))" and "1 \<le> k" "k \<le> n"
  shows "10 ^ nat (k - 1) \<le> digits_candidate (of_int i) n k"
proof -
  have "10 ^ nat (n - 1) \<le> i" using nat_digits_facts [of i] assms by (simp add: nat_diff_distrib)
  then have "(of_int (10 ^ nat (n - 1)) :: rat) \<le> of_int i" by (simp only: of_int_le_iff)
  then have "(10 :: rat) ^ nat (n - 1) * pow10 (k - n) \<le> of_int i * pow10 (k - n)"
    by (intro mult_right_mono) (simp_all add: pow10_def)
  moreover have "(10 :: rat) ^ nat (n - 1) * pow10 (k - n) = 10 ^ nat (k - 1)"
  proof -
    have "nat (n - 1) = nat (k - 1) + nat (n - k)" using assms by simp
    then have "(10 :: rat) ^ nat (n - 1) = 10 ^ nat (k - 1) * 10 ^ nat (n - k)" by (simp only: power_add)
    then show ?thesis using assms by (cases "k = n") (auto simp: pow10_def)
  qed
  ultimately have "(of_int (10 ^ nat (k - 1)) :: rat) \<le> of_int i * pow10 (k - n) + 1 / 2" by simp
  then show ?thesis unfolding digits_candidate_def by (simp only: le_floor_iff)
qed

lemma num_to_str_digits:
  assumes "0 \<le> i" and "i < 10 ^ 15"
  shows "num_to_str (Fin (of_int i)) \<noteq> [] \<and> list_all is_digit (num_to_str (Fin (of_int i)))
     \<and> digits_val (num_to_str (Fin (of_int i))) = i"
proof (cases "i = 0")
  case True
  then show ?thesis by (simp add: js_eval u_def is_digit_def digits_val_def)
next
  case False
  define n where "n = int (length (nat_digits i))"
  have i: "0 < i" using False assms by simp
  have exact: "to_num (of_int i) = Fin (of_int i)" using assms by (intro to_num_of_int) simp
  have len: "1 \<le> n" "n \<le> 15"
  proof -
    show "1 \<le> n" using nat_digits_facts [of i] i by (cases "nat_digits i") (auto simp: n_def)
    have "nat (n - 1) = length (nat_digits i) - 1" by (simp add: n_def)
    then have "(10 :: int) ^ nat (n - 1) < 10 ^ 15" using nat_digits_facts [of i] i assms by simp
    then have "nat (n - 1) < 15" by (rule power_less_imp_less_exp [rotated]) simp
    then show "n \<le> 15" using \<open>1 \<le> n\<close> by linarith
  qed
  let ?P = "\<lambda>k. digits_candidate (of_int i) n k < 10 ^ nat k
      \<and> to_num (of_int (digits_candidate (of_int i) n k) * pow10 (n - k)) = Fin (of_int i)"
  have "?P n" using digits_candidate_integer [OF i n_def] exact by (simp add: pow10_def)
  then obtain k where k: "find_int ?P 1 18 = Some k" "k \<le> n"
    using find_int_least(2) [of 1 n 18 ?P] len by auto
  then have P: "?P k" "1 \<le> k" using find_int_least(1) [OF k(1)] by auto
  define c where "c = digits_candidate (of_int i) n k"
  have c: "10 ^ nat (k - 1) \<le> c" "c < 10 ^ nat k"
    using digits_candidate_long [OF i n_def P(2) k(2)] P(1) by (simp_all add: c_def)
  have c0: "0 < c" using c(1) by (rule less_le_trans [rotated]) simp
  have lk: "int (length (nat_digits c)) = k"
  proof -
    have f: "c < 10 ^ length (nat_digits c)" "10 ^ (length (nat_digits c) - 1) \<le> c"
      using nat_digits_facts [of c] c0 by auto
    have "(10 :: int) ^ (length (nat_digits c) - 1) < 10 ^ nat k" "10 ^ nat (k - 1) < (10 :: int) ^ length (nat_digits c)"
      using f c by (blast intro: le_less_trans)+
    then have "length (nat_digits c) - 1 < nat k" "nat (k - 1) < length (nat_digits c)" by simp_all
    then show ?thesis using P(2) by linarith
  qed
  have dec: "dec_exponent (of_int i) = n" using i by (simp add: dec_exponent_def n_def)
  have str: "num_to_str (Fin (of_int i)) = nat_digits c @ zeros (n - k)"
    using i len k lk by (simp add: pos_to_str_def shortest_digits_def dec k(1) c_def)
  have val: "digits_val (nat_digits c @ zeros (n - k)) = c * 10 ^ nat (n - k)"
    using nat_digits_facts [of c] c0 by (simp add: zeros_def digits_val_zeros)
  have "c * 10 ^ nat (n - k) = i"
  proof -
    have n15: "nat k + nat (n - k) \<le> 15" using len k(2) P(2) by linarith
    have "c * 10 ^ nat (n - k) < 10 ^ nat k * 10 ^ nat (n - k)" using c(2) by simp
    also have "\<dots> \<le> 10 ^ 15" unfolding power_add [symmetric] using n15 by (intro power_increasing) simp_all
    finally have "\<bar>c * 10 ^ nat (n - k)\<bar> \<le> 2 ^ 53" using c0 by (simp add: abs_mult)
    from to_num_of_int [OF this] have "to_num (of_int c * pow10 (n - k)) = Fin (of_int (c * 10 ^ nat (n - k)))"
      using k(2) by (simp add: pow10_def)
    then have "(of_int (c * 10 ^ nat (n - k)) :: rat) = of_int i" using P(1) by (simp add: c_def)
    then show ?thesis by (simp only: of_int_eq_iff)
  qed
  then show ?thesis
    unfolding str val using nat_digits_facts [of c] c0 by (auto simp: list_all_iff zeros_def is_digit_def)
qed

lemma parse_int_num_to_str:
  assumes "0 \<le> i" and "i < 10 ^ 15"
  shows "parse_int (num_to_str (Fin (of_int i))) = Fin (of_int i)"
proof -
  have "\<bar>i\<bar> \<le> 2 ^ 53" using assms by simp
  then show ?thesis
    using num_to_str_digits [OF assms] to_num_of_int [of i] parse_int_digits [of "num_to_str (Fin (of_int i))"]
    by (simp add: list_all_iff)
qed

section \<open>Regular expressions\<close>

definition is_alpha :: "int \<Rightarrow> bool" where
  "is_alpha c \<longleftrightarrow> (65 \<le> c \<and> c \<le> 90) \<or> (97 \<le> c \<and> c \<le> 122)"

text \<open>\<open>\w\<close>\<close>

definition is_word :: "int \<Rightarrow> bool" where
  "is_word c \<longleftrightarrow> is_alpha c \<or> is_digit c \<or> c = 95"

text \<open>
  The letters of a pattern with the flag \<open>i\<close>: without the flag \<open>u\<close> only the ASCII letters match
  an ASCII letter of either case.
\<close>

definition ascii_lower :: "int \<Rightarrow> int" where
  "ascii_lower c = (if 65 \<le> c \<and> c \<le> 90 then c + 32 else c)"

text \<open>\<open>/^https?:\/\//i\<close>\<close>

definition has_http_scheme :: "jsstr \<Rightarrow> bool" where
  "has_http_scheme s \<longleftrightarrow> starts_with (map ascii_lower s) (u ''http://'') \<or> starts_with (map ascii_lower s) (u ''https://'')"

text \<open>\<open>/^[a-z][a-z0-9+.-]*:\/\//i\<close>; the class does not hold the colon, so the run it takes is the longest.\<close>

definition is_scheme_char :: "int \<Rightarrow> bool" where
  "is_scheme_char c \<longleftrightarrow> is_alpha c \<or> is_digit c \<or> c = 43 \<or> c = 46 \<or> c = 45"

definition has_scheme :: "jsstr \<Rightarrow> bool" where
  "has_scheme s = (case s of [] \<Rightarrow> False
     | c # cs \<Rightarrow> is_alpha c \<and> starts_with (dropWhile is_scheme_char cs) (u ''://''))"

lemmas regex_eval = is_alpha_def is_word_def ascii_lower_def has_http_scheme_def is_scheme_char_def has_scheme_def

end
