(* ===== verification/Alert_Center.thy ===== *)
theory Alert_Center
  imports Alert_Family Js_Text
begin

text \<open>
  The notification centre's memory: the merge of one round of observations into the records
  (\<open>lib/alertCenter.ts\<close>) and the two read actions over it (\<open>hooks/useAlertCenter.tsx\<close>). A
  time is a number of milliseconds, an integer; a dictionary of records is an association list
  in insertion order, which a record id with its colon always keeps.

  The merge is refined by \<open>merge_abs\<close>, which says what becomes of one id without the loops:
  the properties of the root theory read the records through it.
\<close>

section \<open>Records\<close>

definition RESOLVED_RETENTION_MS :: int where
  "RESOLVED_RETENTION_MS = 30 * 60000"

record AlertRecord =
  rec_id :: jsstr
  rec_connectionId :: int
  rec_ruleKey :: AlertRuleKey
  rec_severity :: AlertSeverity
  rec_params :: "(jsstr \<times> pval) list"
  rec_since :: "jsstr option"
  rec_firstSeen :: int
  rec_lastSeen :: int
  rec_resolvedAt :: "int option"
  rec_read :: bool

type_synonym records = "(jsstr \<times> AlertRecord) list"

definition recordId :: "int \<Rightarrow> jsstr \<Rightarrow> jsstr" where
  "recordId connectionId key = int_to_str connectionId @ u '':'' @ key"

section \<open>The merge\<close>

text \<open>Carry forward, dropping deleted connections and expired recoveries.\<close>

definition carried :: "int set \<Rightarrow> int \<Rightarrow> AlertRecord \<Rightarrow> bool" where
  "carried known now r \<longleftrightarrow> rec_connectionId r \<in> known \<and>
     (case rec_resolvedAt r of None \<Rightarrow> True | Some t \<Rightarrow> \<not> now - t > RESOLVED_RETENTION_MS)"

fun carry_forward :: "int set \<Rightarrow> int \<Rightarrow> AlertRecord list \<Rightarrow> records \<Rightarrow> records" where
  "carry_forward known now [] rs = rs"
| "carry_forward known now (r # rest) rs = carry_forward known now rest
     (if carried known now r then AList.update (rec_id r) r rs else rs)"

text \<open>\<open>{...before, ...shape}\<close> for an alert still firing, and the record of a new one.\<close>

definition still_firing :: "int \<Rightarrow> int \<Rightarrow> DerivedAlert \<Rightarrow> AlertRecord \<Rightarrow> AlertRecord" where
  "still_firing c now d before = before\<lparr>rec_id := recordId c (al_key d), rec_connectionId := c,
     rec_ruleKey := al_rule d, rec_severity := al_severity d, rec_params := al_params d,
     rec_since := al_since d, rec_lastSeen := now\<rparr>"

definition newly_firing :: "int \<Rightarrow> int \<Rightarrow> DerivedAlert \<Rightarrow> bool \<Rightarrow> AlertRecord" where
  "newly_firing c now d seen = \<lparr>rec_id = recordId c (al_key d), rec_connectionId = c,
     rec_ruleKey = al_rule d, rec_severity = al_severity d, rec_params = al_params d,
     rec_since = al_since d, rec_firstSeen = now, rec_lastSeen = now, rec_resolvedAt = None,
     rec_read = seen\<rparr>"

text \<open>The body of the loop over one connection's alerts.\<close>

definition observe_alert ::
    "jsstr set \<Rightarrow> int \<Rightarrow> int \<Rightarrow> DerivedAlert \<Rightarrow> records \<times> AlertRecord list \<Rightarrow> records \<times> AlertRecord list" where
  "observe_alert read now c d st =
    (case st of (rs, fired) \<Rightarrow>
      let rid = recordId c (al_key d) in
      case map_of rs rid of
        Some before \<Rightarrow>
          if rec_resolvedAt before = None then (AList.update rid (still_firing c now d before) rs, fired)
          else let r = newly_firing c now d False in (AList.update rid r rs, fired @ [r])
      | None \<Rightarrow>
          let r = newly_firing c now d (rid \<in> read) in
          (AList.update rid r rs, if \<not> rec_read r then fired @ [r] else fired))"

fun observe_alerts ::
    "jsstr set \<Rightarrow> int \<Rightarrow> int \<Rightarrow> DerivedAlert list \<Rightarrow> records \<times> AlertRecord list \<Rightarrow> records \<times> AlertRecord list" where
  "observe_alerts read now c [] st = st"
| "observe_alerts read now c (d # ds) st = observe_alerts read now c ds (observe_alert read now c d st)"

text \<open>Anything this connection was firing and no longer is has recovered.\<close>

definition recovers :: "int \<Rightarrow> jsstr list \<Rightarrow> AlertRecord \<Rightarrow> bool" where
  "recovers c stillFiring r \<longleftrightarrow>
     rec_connectionId r = c \<and> rec_resolvedAt r = None \<and> rec_id r \<notin> set stillFiring"

fun resolve_missing :: "int \<Rightarrow> int \<Rightarrow> jsstr list \<Rightarrow> AlertRecord list \<Rightarrow> records \<Rightarrow> records" where
  "resolve_missing c now stillFiring [] rs = rs"
| "resolve_missing c now stillFiring (r # rest) rs = resolve_missing c now stillFiring rest
     (if recovers c stillFiring r then AList.update (rec_id r) (r\<lparr>rec_resolvedAt := Some now\<rparr>) rs else rs)"

definition observe_connection ::
    "jsstr set \<Rightarrow> int \<Rightarrow> int \<times> DerivedAlert list \<Rightarrow> records \<times> AlertRecord list \<Rightarrow> records \<times> AlertRecord list" where
  "observe_connection read now obs st =
    (case obs of (c, alerts) \<Rightarrow>
      let stillFiring = map (\<lambda>d. recordId c (al_key d)) alerts;
          (rs, fired) = observe_alerts read now c alerts st
      in (resolve_missing c now stillFiring (map snd rs) rs, fired))"

fun observe_all ::
    "jsstr set \<Rightarrow> int \<Rightarrow> (int \<times> DerivedAlert list) list \<Rightarrow> records \<times> AlertRecord list \<Rightarrow> records \<times> AlertRecord list" where
  "observe_all read now [] st = st"
| "observe_all read now (ob # rest) st = observe_all read now rest (observe_connection read now ob st)"

definition mergeAlerts ::
    "records \<Rightarrow> (int \<times> DerivedAlert list) list \<Rightarrow> int set \<Rightarrow> jsstr set \<Rightarrow> int \<Rightarrow> records \<times> AlertRecord list" where
  "mergeAlerts previous observed known read now =
     observe_all read now observed (carry_forward known now (map snd previous) [], [])"

definition unreadCount :: "records \<Rightarrow> nat" where
  "unreadCount rs = length (filter (\<lambda>r. \<not> rec_read r \<and> rec_resolvedAt r = None) (map snd rs))"

section \<open>The ids already seen\<close>

definition READ_MEMORY :: nat where
  "READ_MEMORY = 200"

text \<open>A \<open>Set\<close> keeps the order of first insertion.\<close>

definition set_add :: "jsstr \<Rightarrow> jsstr list \<Rightarrow> jsstr list" where
  "set_add x xs = (if x \<in> set xs then xs else xs @ [x])"

fun string_values :: "json list \<Rightarrow> jsstr list" where
  "string_values [] = []"
| "string_values (JStr s # js) = s # string_values js"
| "string_values (_ # js) = string_values js"

definition loadReadIds :: "cell \<Rightarrow> jsstr list" where
  "loadReadIds c = (case c of
     Holds (JArr js) \<Rightarrow> foldl (\<lambda>s x. set_add x s) [] (string_values js) | _ \<Rightarrow> [])"

text \<open>\<open>slice(-200)\<close>: the last two hundred.\<close>

definition slice_last :: "nat \<Rightarrow> 'a list \<Rightarrow> 'a list" where
  "slice_last n xs = drop (length xs - n) xs"

definition saveReadIds :: "jsstr list \<Rightarrow> bool \<Rightarrow> cell \<Rightarrow> cell" where
  "saveReadIds ids full c =
     (if full then c else Holds (JArr (map JStr (slice_last READ_MEMORY ids))))"

section \<open>The read actions\<close>

text \<open>The centre's state: the records, the seen ids, the storage cell and whether it is full.\<close>

record center =
  ce_records :: records
  ce_readIds :: "jsstr list"
  ce_storage :: cell
  ce_full :: bool

fun mark_unread :: "records \<Rightarrow> records \<times> jsstr list \<times> bool \<Rightarrow> records \<times> jsstr list \<times> bool" where
  "mark_unread [] st = st"
| "mark_unread ((k, r) # rest) (next_records, ids, changed) =
     (if rec_read r then mark_unread rest (AList.update k r next_records, ids, changed)
      else mark_unread rest
        (AList.update k (r\<lparr>rec_read := True\<rparr>) next_records, set_add k ids, True))"

definition markAllRead :: "center \<Rightarrow> center" where
  "markAllRead s = (case mark_unread (ce_records s) ([], ce_readIds s, False) of
     (next_records, ids, changed) \<Rightarrow>
       if \<not> changed then s
       else s\<lparr>ce_records := next_records, ce_readIds := ids,
              ce_storage := saveReadIds ids (ce_full s) (ce_storage s)\<rparr>)"

definition markRead :: "jsstr \<Rightarrow> center \<Rightarrow> center" where
  "markRead rid s = (case map_of (ce_records s) rid of
     None \<Rightarrow> s
   | Some r \<Rightarrow> if rec_read r then s
       else let ids = set_add rid (ce_readIds s) in
         s\<lparr>ce_records := AList.update rid (r\<lparr>rec_read := True\<rparr>) (ce_records s), ce_readIds := ids,
           ce_storage := saveReadIds ids (ce_full s) (ce_storage s)\<rparr>)"

definition center_merge ::
    "(int \<times> DerivedAlert list) list \<Rightarrow> int set \<Rightarrow> int \<Rightarrow> center \<Rightarrow> center \<times> AlertRecord list" where
  "center_merge observed known now s =
    (let (merged, fired) = mergeAlerts (ce_records s) observed known (set (ce_readIds s)) now
     in (s\<lparr>ce_records := merged\<rparr>, fired))"

section \<open>Ids and connections\<close>

lemma nat_digits_range: "c \<in> set (nat_digits n) \<Longrightarrow> 0 \<le> n \<Longrightarrow> 48 \<le> c \<and> c \<le> 57"
  using nat_digits_facts [of n] by (auto simp: is_digit_def)

lemma digits_val_nat_digits: "0 \<le> n \<Longrightarrow> digits_val (nat_digits n) = n"
  using nat_digits_facts by blast

lemma int_to_str_no_colon: "58 \<notin> set (int_to_str i)"
  using nat_digits_range [of 58 "- i"] nat_digits_range [of 58 i] by (auto simp: int_to_str_def)

lemma int_to_str_inj: "int_to_str i = int_to_str j \<longleftrightarrow> i = j"
proof
  assume e: "int_to_str i = int_to_str j"
  have minus: "45 # ds \<noteq> nat_digits n" if "0 \<le> n" for ds n
  proof
    assume "45 # ds = nat_digits n"
    then have "45 \<in> set (nat_digits n)" by (metis list.set_intros(1))
    with nat_digits_range [OF this that] show False by simp
  qed
  show "i = j"
  proof (cases "i < 0")
    case True
    have "j < 0"
    proof (rule ccontr)
      assume "\<not> j < 0"
      with e True have "45 # nat_digits (- i) = nat_digits j" by (simp add: int_to_str_def)
      with minus [of j] \<open>\<not> j < 0\<close> show False by simp
    qed
    with e True have "nat_digits (- i) = nat_digits (- j)" by (simp add: int_to_str_def)
    then have "digits_val (nat_digits (- i)) = digits_val (nat_digits (- j))" by (rule arg_cong)
    then have "- i = - j" using True \<open>j < 0\<close>
      by (simp only: digits_val_nat_digits neg_0_le_iff_le less_imp_le)
    then show ?thesis by simp
  next
    case False
    have "\<not> j < 0"
    proof
      assume "j < 0"
      with e False have "45 # nat_digits (- j) = nat_digits i" by (simp add: int_to_str_def)
      with minus [of i] False show False by simp
    qed
    with e False have "nat_digits i = nat_digits j" by (simp add: int_to_str_def)
    then have "digits_val (nat_digits i) = digits_val (nat_digits j)" by (rule arg_cong)
    then show ?thesis using False \<open>\<not> j < 0\<close> by (simp only: digits_val_nat_digits not_less)
  qed
qed simp

lemma append_sep_inj:
  "x \<notin> set xs \<Longrightarrow> x \<notin> set ys \<Longrightarrow> xs @ x # zs = ys @ x # ws \<longleftrightarrow> xs = ys \<and> zs = ws"
proof (induction xs arbitrary: ys)
  case Nil
  then show ?case by (cases ys) auto
next
  case (Cons a xs)
  then show ?case by (cases ys) auto
qed

text \<open>An id belongs to one connection and one key.\<close>

lemma recordId_inj [simp]: "recordId c k = recordId c' k' \<longleftrightarrow> c = c' \<and> k = k'"
  using append_sep_inj [of 58 "int_to_str c" "int_to_str c'" k k']
  by (simp add: recordId_def u_def int_to_str_no_colon int_to_str_inj)

definition belongs :: "int \<Rightarrow> jsstr \<Rightarrow> bool" where
  "belongs c rid \<longleftrightarrow> starts_with rid (int_to_str c @ u '':'')"

lemma belongs_iff: "belongs c rid \<longleftrightarrow> (\<exists>key. rid = recordId c key)"
proof
  assume "belongs c rid"
  then have "rid = recordId c (drop (length (int_to_str c @ u '':'')) rid)"
    unfolding belongs_def starts_with_def recordId_def by (metis append.assoc append_take_drop_id)
  then show "\<exists>key. rid = recordId c key" ..
qed (auto simp: belongs_def starts_with_def recordId_def)

lemma belongs_recordId [simp]: "belongs c (recordId c' k) \<longleftrightarrow> c = c'"
  by (auto simp: belongs_iff)

lemma belongs_unique: "belongs c rid \<Longrightarrow> belongs c' rid \<Longrightarrow> c = c'"
  by (auto simp: belongs_iff)

section \<open>Well-formed records\<close>

text \<open>
  Every record is kept under its own id, once, and its id is one of its connection's. Every
  operation keeps this.
\<close>

definition good_record :: "AlertRecord \<Rightarrow> bool" where
  "good_record r \<longleftrightarrow> belongs (rec_connectionId r) (rec_id r)"

definition wf_records :: "records \<Rightarrow> bool" where
  "wf_records rs \<longleftrightarrow> distinct (map fst rs) \<and>
     (\<forall>(k, r) \<in> set rs. k = rec_id r \<and> good_record r)"

lemma wf_records_Nil [simp]: "wf_records []"
  by (simp add: wf_records_def)

lemma wf_records_distinct: "wf_records rs \<Longrightarrow> distinct (map fst rs)"
  by (simp add: wf_records_def)

lemma wf_records_map_of:
  "wf_records rs \<Longrightarrow> map_of rs rid = Some r \<Longrightarrow> rec_id r = rid \<and> belongs (rec_connectionId r) rid"
  by (drule map_of_SomeD) (auto simp: wf_records_def good_record_def)

lemma wf_records_mem:
  assumes "wf_records rs"
  shows "r \<in> snd ` set rs \<longleftrightarrow> map_of rs (rec_id r) = Some r"
proof
  assume "r \<in> snd ` set rs"
  then obtain k where k: "(k, r) \<in> set rs" by auto
  then have "k = rec_id r" using assms by (auto simp: wf_records_def)
  with k show "map_of rs (rec_id r) = Some r"
    using assms by (simp add: wf_records_distinct)
next
  assume "map_of rs (rec_id r) = Some r"
  then show "r \<in> snd ` set rs" by (force dest: map_of_SomeD)
qed

lemma set_update_subset: "set (AList.update k v al) \<subseteq> insert (k, v) (set al)"
  by (induction al) auto

lemma wf_records_update:
  assumes "wf_records rs" and "good_record r" and "rec_id r = rid"
  shows "wf_records (AList.update rid r rs)"
proof -
  have "distinct (map fst (AList.update rid r rs))"
    using assms(1) by (intro distinct_update) (simp add: wf_records_def)
  moreover have "k = rec_id q \<and> good_record q" if "(k, q) \<in> set (AList.update rid r rs)" for k q
  proof -
    have "(k, q) = (rid, r) \<or> (k, q) \<in> set rs" using that set_update_subset [of rid r rs] by auto
    then show ?thesis using assms by (auto simp: wf_records_def)
  qed
  ultimately show ?thesis by (auto simp: wf_records_def)
qed

section \<open>The specification of the merge\<close>

text \<open>What an alert makes of the record it had, and whether it is announced.\<close>

definition fire_abs :: "jsstr set \<Rightarrow> int \<Rightarrow> int \<Rightarrow> DerivedAlert \<Rightarrow> AlertRecord option \<Rightarrow> AlertRecord" where
  "fire_abs read now c d before = (case before of
     None \<Rightarrow> newly_firing c now d (recordId c (al_key d) \<in> read)
   | Some b \<Rightarrow> if rec_resolvedAt b = None then still_firing c now d b
       else newly_firing c now d False)"

definition announced_abs ::
    "jsstr set \<Rightarrow> int \<Rightarrow> int \<Rightarrow> (jsstr \<Rightarrow> AlertRecord option) \<Rightarrow> DerivedAlert \<Rightarrow> AlertRecord list" where
  "announced_abs read now c m d = (let before = m (recordId c (al_key d)); r = fire_abs read now c d before in
     push_if (\<not> rec_read r \<and> (case before of None \<Rightarrow> True | Some b \<Rightarrow> rec_resolvedAt b \<noteq> None)) r)"

text \<open>
  Of the alerts under one id the first decides the episode, the others only reshape its record, and only
  the first can be announced.
\<close>

definition observe_abs ::
    "jsstr set \<Rightarrow> int \<Rightarrow> int \<Rightarrow> DerivedAlert list \<Rightarrow> jsstr \<Rightarrow> AlertRecord option \<Rightarrow> AlertRecord option" where
  "observe_abs read now c alerts rid before =
    (case filter (\<lambda>d. recordId c (al_key d) = rid) alerts of
       d # others \<Rightarrow> Some (fold (still_firing c now) others (fire_abs read now c d before))
     | [] \<Rightarrow> map_option (\<lambda>r. if rec_connectionId r = c \<and> rec_resolvedAt r = None
         then r\<lparr>rec_resolvedAt := Some now\<rparr> else r) before)"

fun first_of_keys :: "jsstr set \<Rightarrow> DerivedAlert list \<Rightarrow> DerivedAlert list" where
  "first_of_keys seen [] = []"
| "first_of_keys seen (d # ds) =
     (if al_key d \<in> seen then first_of_keys seen ds else d # first_of_keys (insert (al_key d) seen) ds)"

definition carried_abs :: "records \<Rightarrow> int set \<Rightarrow> int \<Rightarrow> jsstr \<Rightarrow> AlertRecord option" where
  "carried_abs previous known now rid = (case map_of previous rid of
     None \<Rightarrow> None | Some r \<Rightarrow> if carried known now r then Some r else None)"

definition merge_abs ::
    "records \<Rightarrow> (int \<times> DerivedAlert list) list \<Rightarrow> int set \<Rightarrow> jsstr set \<Rightarrow> int \<Rightarrow> jsstr \<Rightarrow> AlertRecord option" where
  "merge_abs previous observed known read now rid =
    (let before = carried_abs previous known now rid in
     case find (\<lambda>(c, alerts). belongs c rid) observed of
       None \<Rightarrow> before
     | Some (c, alerts) \<Rightarrow> observe_abs read now c alerts rid before)"

definition fired_abs ::
    "records \<Rightarrow> (int \<times> DerivedAlert list) list \<Rightarrow> int set \<Rightarrow> jsstr set \<Rightarrow> int \<Rightarrow> AlertRecord list" where
  "fired_abs previous observed known read now =
     for_each observed (\<lambda>(c, alerts).
       for_each (first_of_keys {} alerts) (announced_abs read now c (carried_abs previous known now)))"

text \<open>
  An observation round: each connection once, and no two alerts of one connection under one
  key.
\<close>

definition wf_observed :: "(int \<times> DerivedAlert list) list \<Rightarrow> bool" where
  "wf_observed observed \<longleftrightarrow> distinct (map fst observed) \<and>
     (\<forall>(c, alerts) \<in> set observed. distinct (map al_key alerts))"

section \<open>Carrying forward\<close>

lemma carry_lookup:
  assumes "wf_records previous"
  shows "map_of (carry_forward known now (map snd previous) rs) rid =
    (case map_of previous rid of None \<Rightarrow> map_of rs rid
     | Some r \<Rightarrow> if carried known now r then Some r else map_of rs rid)"
  using assms
proof (induction previous arbitrary: rs)
  case (Cons p ps)
  obtain k r where p: "p = (k, r)" by (cases p)
  have k: "k = rec_id r" "k \<notin> fst ` set ps" "wf_records ps"
    using Cons.prems by (auto simp: p wf_records_def)
  then have "map_of ps k = None" by (simp add: map_of_eq_None_iff)
  then show ?case
    using Cons.IH [OF k(3)] k(1) by (auto simp: p update_conv' split: option.splits)
qed simp

lemma carry_wf: "wf_records previous \<Longrightarrow> wf_records rs \<Longrightarrow>
   wf_records (carry_forward known now (map snd previous) rs)"
proof (induction previous arbitrary: rs)
  case (Cons p ps)
  obtain k r where p: "p = (k, r)" by (cases p)
  have "wf_records ps" "good_record r" using Cons.prems(1) by (auto simp: p wf_records_def)
  then show ?case using Cons.IH Cons.prems(2) by (auto simp: p wf_records_update)
qed simp

section \<open>Observing one connection\<close>

lemma observe_alert_eq:
  "observe_alert read now c d (rs, fired) =
     (AList.update (recordId c (al_key d)) (fire_abs read now c d (map_of rs (recordId c (al_key d)))) rs,
      fired @ announced_abs read now c (map_of rs) d)"
  by (auto simp: observe_alert_def fire_abs_def announced_abs_def newly_firing_def push_if_def
      Let_def split: option.splits)

lemma fire_abs_simps [simp]:
  "rec_id (fire_abs read now c d b) = recordId c (al_key d)"
  "rec_connectionId (fire_abs read now c d b) = c"
  "rec_resolvedAt (fire_abs read now c d b) = None"
  "rec_lastSeen (fire_abs read now c d b) = now"
  "rec_ruleKey (fire_abs read now c d b) = al_rule d"
  "rec_severity (fire_abs read now c d b) = al_severity d"
  "rec_params (fire_abs read now c d b) = al_params d"
  by (simp_all add: fire_abs_def still_firing_def newly_firing_def split: option.splits)

lemma good_fire_abs [simp]: "good_record (fire_abs read now c d b)"
  by (simp add: good_record_def)

lemma observe_alerts_wf:
  "wf_records rs \<Longrightarrow> wf_records (fst (observe_alerts read now c ds (rs, fired)))"
  by (induction ds arbitrary: rs fired) (simp_all add: observe_alert_eq wf_records_update)

lemma announced_abs_cong:
  "m (recordId c (al_key d)) = m' (recordId c (al_key d)) \<Longrightarrow>
   announced_abs read now c m d = announced_abs read now c m' d"
  by (simp add: announced_abs_def)

lemma observe_alerts_lookup:
  "map_of (fst (observe_alerts read now c ds (rs, fired))) rid =
     (case filter (\<lambda>d. recordId c (al_key d) = rid) ds of [] \<Rightarrow> map_of rs rid
      | d # others \<Rightarrow> Some (fold (still_firing c now) others (fire_abs read now c d (map_of rs rid))))"
proof (induction ds arbitrary: rs fired)
  case (Cons d ds)
  have again: "fire_abs read now c e (Some (fire_abs read now c d b)) = still_firing c now e (fire_abs read now c d b)" for e b
    by (simp add: fire_abs_def [of read now c e])
  show ?case
    using Cons again by (cases "filter (\<lambda>d. recordId c (al_key d) = rid) ds") (auto simp: observe_alert_eq update_conv')
qed simp

lemma observe_alerts_announced:
  assumes "\<And>k. k \<in> seen \<Longrightarrow> \<exists>b. map_of rs (recordId c k) = Some b \<and> rec_resolvedAt b = None"
    and "\<And>k. k \<notin> seen \<Longrightarrow> map_of rs (recordId c k) = m (recordId c k)"
  shows "snd (observe_alerts read now c ds (rs, fired)) = fired @ for_each (first_of_keys seen ds) (announced_abs read now c m)"
  using assms
proof (induction ds arbitrary: rs fired seen)
  case (Cons d ds)
  define rs' where "rs' = AList.update (recordId c (al_key d)) (fire_abs read now c d (map_of rs (recordId c (al_key d)))) rs"
  have l: "map_of rs' (recordId c k) = (if k = al_key d then Some (fire_abs read now c d (map_of rs (recordId c (al_key d))))
      else map_of rs (recordId c k))" for k
    by (simp add: rs'_def update_conv')
  have IH: "snd (observe_alerts read now c ds (rs', fired')) =
      fired' @ for_each (first_of_keys (insert (al_key d) seen) ds) (announced_abs read now c m)" for fired'
    using Cons.prems by (intro Cons.IH) (auto simp: l)
  show ?case
  proof (cases "al_key d \<in> seen")
    case True
    then have "announced_abs read now c (map_of rs) d = []"
      using Cons.prems(1) [OF True] by (auto simp: announced_abs_def Let_def)
    moreover have "insert (al_key d) seen = seen" using True by blast
    ultimately show ?thesis using IH [of fired] True by (simp add: observe_alert_eq rs'_def)
  next
    case False
    then have "announced_abs read now c (map_of rs) d = announced_abs read now c m d"
      using Cons.prems(2) by (intro announced_abs_cong) simp
    then show ?thesis using IH [of "fired @ announced_abs read now c m d"] False by (simp add: observe_alert_eq rs'_def)
  qed
qed simp

lemma resolve_wf:
  "wf_records rs \<Longrightarrow> \<forall>r \<in> set vs. good_record r \<Longrightarrow> wf_records (resolve_missing c now still vs rs)"
  by (induction vs arbitrary: rs) (simp_all add: wf_records_update good_record_def)

lemma resolve_lookup:
  assumes "distinct (map rec_id vs)" and "\<forall>r \<in> set vs. map_of rs (rec_id r) = Some r"
  shows "map_of (resolve_missing c now still vs rs) rid = (case map_of rs rid of None \<Rightarrow> None
     | Some r \<Rightarrow> if r \<in> set vs \<and> rec_id r = rid \<and> recovers c still r
         then Some (r\<lparr>rec_resolvedAt := Some now\<rparr>) else Some r)"
  using assms
proof (induction vs arbitrary: rs)
  case (Cons v vs)
  define rs' where "rs' = (if recovers c still v
    then AList.update (rec_id v) (v\<lparr>rec_resolvedAt := Some now\<rparr>) rs else rs)"
  have ne: "rec_id r \<noteq> rec_id v" if "r \<in> set vs" for r
    using Cons.prems(1) that by (auto simp: image_iff)
  have IH: "map_of (resolve_missing c now still vs rs') rid = (case map_of rs' rid of None \<Rightarrow> None
     | Some r \<Rightarrow> if r \<in> set vs \<and> rec_id r = rid \<and> recovers c still r
         then Some (r\<lparr>rec_resolvedAt := Some now\<rparr>) else Some r)"
    using Cons ne by (intro Cons.IH) (auto simp: rs'_def update_conv')
  show ?case
  proof (cases "rid = rec_id v")
    case True
    then have "map_of rs rid = Some v" using Cons.prems(2) by simp
    then show ?thesis using IH True ne
      by (auto simp: rs'_def [symmetric] rs'_def update_conv' recovers_def)
  next
    case False
    then have "map_of rs' rid = map_of rs rid" by (simp add: rs'_def update_conv')
    then show ?thesis using IH False by (auto simp: rs'_def [symmetric] split: option.splits)
  qed
qed (auto split: option.splits)

lemma wf_records_values:
  assumes "wf_records rs"
  shows "distinct (map rec_id (map snd rs))" "\<forall>r \<in> set (map snd rs). map_of rs (rec_id r) = Some r"
    "\<forall>r \<in> set (map snd rs). good_record r"
proof -
  have "map rec_id (map snd rs) = map fst rs" using assms by (auto simp: wf_records_def)
  then show "distinct (map rec_id (map snd rs))" using wf_records_distinct [OF assms] by (simp only:)
  show "\<forall>r \<in> set (map snd rs). map_of rs (rec_id r) = Some r"
    using wf_records_mem [OF assms] by simp
  show "\<forall>r \<in> set (map snd rs). good_record r" using assms by (auto simp: wf_records_def)
qed

lemma observe_connection_wf:
  "wf_records rs \<Longrightarrow> wf_records (fst (observe_connection read now (c, ds) (rs, fired)))"
  using observe_alerts_wf [of rs read now c ds fired]
    wf_records_values(3) [of "fst (observe_alerts read now c ds (rs, fired))"]
  by (cases "observe_alerts read now c ds (rs, fired)")
    (auto simp: observe_connection_def intro!: resolve_wf)

lemma observe_connection_lookup:
  assumes "wf_records rs"
  shows "map_of (fst (observe_connection read now (c, ds) (rs, fired))) rid =
    observe_abs read now c ds rid (map_of rs rid)"
proof -
  define rs' where "rs' = fst (observe_alerts read now c ds (rs, fired))"
  define still where "still = map (\<lambda>d. recordId c (al_key d)) ds"
  have wf: "wf_records rs'" using assms by (simp add: rs'_def observe_alerts_wf)
  have e: "fst (observe_connection read now (c, ds) (rs, fired))
      = resolve_missing c now still (map snd rs') rs'"
    by (simp add: observe_connection_def rs'_def still_def Let_def split: prod.splits)
  have l: "map_of rs' rid = (case filter (\<lambda>d. recordId c (al_key d) = rid) ds of [] \<Rightarrow> map_of rs rid
      | d # others \<Rightarrow> Some (fold (still_firing c now) others (fire_abs read now c d (map_of rs rid))))"
    unfolding rs'_def by (rule observe_alerts_lookup)
  have mem: "r \<in> set (map snd rs') \<and> rec_id r = rid" if "map_of rs' rid = Some r" for r
    using that wf_records_map_of [OF wf that] wf_records_mem [OF wf, of r] by simp
  have st: "rid \<in> set still \<longleftrightarrow> filter (\<lambda>d. recordId c (al_key d) = rid) ds \<noteq> []"
    by (auto simp: still_def filter_empty_conv)
  have "map_of (resolve_missing c now still (map snd rs') rs') rid = map_option
      (\<lambda>r. if recovers c still r then r\<lparr>rec_resolvedAt := Some now\<rparr> else r) (map_of rs' rid)"
    using resolve_lookup [OF wf_records_values(1,2) [OF wf], of c now still rid] mem
    by (auto split: option.splits)
  also have "\<dots> = observe_abs read now c ds rid (map_of rs rid)"
  proof (cases "filter (\<lambda>d. recordId c (al_key d) = rid) ds")
    case Nil
    then have "\<not> rid \<in> set still" using st by simp
    then show ?thesis using Nil l mem
      by (cases "map_of rs rid") (auto simp: observe_abs_def recovers_def)
  next
    case (Cons d others)
    then have "rid \<in> set still" using st by simp
    then show ?thesis using Cons l mem by (auto simp: observe_abs_def recovers_def)
  qed
  finally show ?thesis by (simp add: e)
qed

lemma observe_connection_fired:
  "snd (observe_connection read now (c, ds) (rs, fired)) =
     fired @ for_each (first_of_keys {} ds) (announced_abs read now c (map_of rs))"
  using observe_alerts_announced [of "{}" rs c "map_of rs" read now ds fired]
  by (cases "observe_alerts read now c ds (rs, fired)") (simp add: observe_connection_def)

lemma observe_abs_foreign:
  assumes "\<not> belongs c rid" and "\<And>r. before = Some r \<Longrightarrow> belongs (rec_connectionId r) rid"
  shows "observe_abs read now c ds rid before = before"
proof -
  have "filter (\<lambda>d. recordId c (al_key d) = rid) ds = []"
    using assms(1) by (auto simp: filter_empty_conv)
  then show ?thesis using assms by (cases before) (auto simp: observe_abs_def)
qed

section \<open>The whole round\<close>

lemma observe_all_wf:
  "wf_records (fst st) \<Longrightarrow> wf_records (fst (observe_all read now obs st))"
proof (induction obs arbitrary: st)
  case (Cons ob obs)
  obtain c ds where ob: "ob = (c, ds)" by (cases ob)
  obtain rs fired where st: "st = (rs, fired)" by (cases st)
  show ?case using Cons observe_connection_wf [of rs read now c ds fired] by (simp add: ob st)
qed simp

lemma observe_all_lookup:
  assumes "wf_records rs" and "distinct (map fst obs)"
  shows "map_of (fst (observe_all read now obs (rs, fired))) rid =
      (case find (\<lambda>(c, alerts). belongs c rid) obs of None \<Rightarrow> map_of rs rid
       | Some (c, alerts) \<Rightarrow> observe_abs read now c alerts rid (map_of rs rid))"
    and "snd (observe_all read now obs (rs, fired)) =
      fired @ for_each obs (\<lambda>(c, alerts). for_each (first_of_keys {} alerts) (announced_abs read now c (map_of rs)))"
proof -
  have "map_of (fst (observe_all read now obs (rs, fired))) rid =
      (case find (\<lambda>(c, alerts). belongs c rid) obs of None \<Rightarrow> map_of rs rid
       | Some (c, alerts) \<Rightarrow> observe_abs read now c alerts rid (map_of rs rid))
    \<and> snd (observe_all read now obs (rs, fired)) =
      fired @ for_each obs (\<lambda>(c, alerts). for_each (first_of_keys {} alerts) (announced_abs read now c (map_of rs)))"
    using assms
  proof (induction obs arbitrary: rs fired)
    case (Cons ob obs)
    obtain c ds where ob: "ob = (c, ds)" by (cases ob)
    have d: "distinct (map fst obs)" "c \<notin> fst ` set obs" using Cons.prems(2) by (auto simp: ob)
    obtain rs' fired' where st: "observe_connection read now (c, ds) (rs, fired) = (rs', fired')"
      by (cases "observe_connection read now (c, ds) (rs, fired)")
    have wf: "wf_records rs'"
      using observe_connection_wf [OF Cons.prems(1), of read now c ds fired] by (simp add: st)
    have l: "map_of rs' i = observe_abs read now c ds i (map_of rs i)" for i
      using observe_connection_lookup [OF Cons.prems(1), of read now c ds fired i] by (simp add: st)
    have f: "fired' = fired @ for_each (first_of_keys {} ds) (announced_abs read now c (map_of rs))"
      using observe_connection_fired [of read now c ds rs fired] by (simp add: st)
    have other: "map_of rs' i = map_of rs i" if "\<not> belongs c i" for i
      unfolding l using that wf_records_map_of [OF Cons.prems(1)]
      by (intro observe_abs_foreign) auto
    have nf: "find (\<lambda>(c, alerts). belongs c rid) obs = None" if "belongs c rid"
      using d(2) that by (force simp: find_None_iff dest: belongs_unique)
    have an: "announced_abs read now c' (map_of rs') a = announced_abs read now c' (map_of rs) a"
      if "(c', as) \<in> set obs" for c' as a
      using d(2) that by (intro announced_abs_cong other) force
    have an': "for_each obs (\<lambda>(c, alerts). for_each (first_of_keys {} alerts) (announced_abs read now c (map_of rs')))
      = for_each obs (\<lambda>(c, alerts). for_each (first_of_keys {} alerts) (announced_abs read now c (map_of rs)))"
      by (intro for_each_cong refl) (auto simp: an intro!: for_each_cong)
    have IH: "map_of (fst (observe_all read now obs (rs', fired'))) rid =
      (case find (\<lambda>(c, alerts). belongs c rid) obs of None \<Rightarrow> map_of rs' rid
       | Some (c, alerts) \<Rightarrow> observe_abs read now c alerts rid (map_of rs' rid))"
      "snd (observe_all read now obs (rs', fired')) =
      fired' @ for_each obs (\<lambda>(c, alerts). for_each (first_of_keys {} alerts) (announced_abs read now c (map_of rs')))"
      using Cons.IH [OF wf d(1)] by blast+
    show ?case
    proof (cases "belongs c rid")
      case True
      then show ?thesis using IH nf l [of rid] by (simp add: ob st f an')
    next
      case False
      then show ?thesis using IH other [OF False] by (simp add: ob st f an' split: option.splits)
    qed
  qed simp
  then show "map_of (fst (observe_all read now obs (rs, fired))) rid =
      (case find (\<lambda>(c, alerts). belongs c rid) obs of None \<Rightarrow> map_of rs rid
       | Some (c, alerts) \<Rightarrow> observe_abs read now c alerts rid (map_of rs rid))"
    and "snd (observe_all read now obs (rs, fired)) =
      fired @ for_each obs (\<lambda>(c, alerts). for_each (first_of_keys {} alerts) (announced_abs read now c (map_of rs)))"
    by blast+
qed

text \<open>The merge keeps the records well-formed and implements the specification.\<close>

lemma mergeAlerts_wf:
  "wf_records previous \<Longrightarrow> wf_records (fst (mergeAlerts previous observed known read now))"
  unfolding mergeAlerts_def by (intro observe_all_wf) (simp add: carry_wf)

lemma mergeAlerts_refines:
  assumes "wf_records previous" and "distinct (map fst observed)"
  shows "map_of (fst (mergeAlerts previous observed known read now)) rid =
      merge_abs previous observed known read now rid"
    and "snd (mergeAlerts previous observed known read now) =
      fired_abs previous observed known read now"
proof -
  define rs where "rs = carry_forward known now (map snd previous) []"
  have wf: "wf_records rs" unfolding rs_def by (rule carry_wf [OF assms(1) wf_records_Nil])
  have l: "map_of rs = carried_abs previous known now"
    by (rule ext) (simp add: rs_def carry_lookup [OF assms(1)] carried_abs_def split: option.splits)
  show "map_of (fst (mergeAlerts previous observed known read now)) rid =
      merge_abs previous observed known read now rid"
    using observe_all_lookup(1) [OF wf assms(2), of read now "[]" rid]
    by (simp add: mergeAlerts_def rs_def [symmetric] merge_abs_def l Let_def split: option.splits)
  show "snd (mergeAlerts previous observed known read now) =
      fired_abs previous observed known read now"
    using observe_all_lookup(2) [OF wf assms(2), of read now "[]"]
    by (simp add: mergeAlerts_def rs_def [symmetric] fired_abs_def l)
qed

text \<open>With each key once, an alert is the only one of its id and each alert may be announced.\<close>

lemma wf_observed_once: "wf_observed observed \<Longrightarrow> distinct (map fst observed)"
  by (simp add: wf_observed_def)

lemma first_of_keys_sub: "set (first_of_keys seen ds) \<subseteq> set ds"
  by (induction seen ds rule: first_of_keys.induct) auto

lemma first_of_keys_distinct: "distinct (map al_key ds) \<Longrightarrow> al_key ` set ds \<inter> seen = {} \<Longrightarrow> first_of_keys seen ds = ds"
  by (induction seen ds rule: first_of_keys.induct) auto

lemma fired_abs_once:
  assumes "wf_observed observed"
  shows "fired_abs previous observed known read now = for_each observed (\<lambda>(c, alerts).
    for_each alerts (announced_abs read now c (carried_abs previous known now)))"
  unfolding fired_abs_def using assms
  by (intro for_each_cong refl) (auto simp: wf_observed_def first_of_keys_distinct)

lemma filter_distinct_find:
  "distinct (map al_key ds) \<Longrightarrow> filter (\<lambda>d. recordId c (al_key d) = rid) ds
     = (case find (\<lambda>d. recordId c (al_key d) = rid) ds of None \<Rightarrow> [] | Some d \<Rightarrow> [d])"
proof (induction ds)
  case (Cons d ds)
  then have "filter (\<lambda>e. recordId c (al_key e) = recordId c (al_key d)) ds = []"
    by (auto simp: filter_empty_conv image_iff)
  then show ?case using Cons by auto
qed simp

lemma observe_abs_once:
  "distinct (map al_key alerts) \<Longrightarrow> observe_abs read now c alerts rid before =
    (case find (\<lambda>d. recordId c (al_key d) = rid) alerts of
       Some d \<Rightarrow> Some (fire_abs read now c d before)
     | None \<Rightarrow> map_option (\<lambda>r. if rec_connectionId r = c \<and> rec_resolvedAt r = None
         then r\<lparr>rec_resolvedAt := Some now\<rparr> else r) before)"
  by (simp add: observe_abs_def filter_distinct_find split: option.splits)

text \<open>What the specification says of one id, by whose it is.\<close>

lemma find_belongs:
  assumes "distinct (map fst observed)" and "(c, alerts) \<in> set observed" and "belongs c rid"
  shows "find (\<lambda>(c, alerts). belongs c rid) observed = Some (c, alerts)"
  using assms
proof (induction observed)
  case (Cons ob obs)
  obtain c' as where ob: "ob = (c', as)" by (cases ob)
  have "c' = c \<Longrightarrow> as = alerts"
    using Cons.prems(1,2) by (force simp: ob)
  then show ?case using Cons by (auto simp: ob dest: belongs_unique)
qed simp

lemma find_not_observed:
  "belongs c rid \<Longrightarrow> c \<notin> fst ` set observed \<Longrightarrow> find (\<lambda>(c, alerts). belongs c rid) observed = None"
  by (force simp: find_None_iff dest: belongs_unique)

lemma merge_abs_observed:
  "distinct (map fst observed) \<Longrightarrow> (c, alerts) \<in> set observed \<Longrightarrow> belongs c rid \<Longrightarrow>
   merge_abs previous observed known read now rid =
     observe_abs read now c alerts rid (carried_abs previous known now rid)"
  by (simp add: merge_abs_def find_belongs)

lemma merge_abs_unobserved:
  "belongs c rid \<Longrightarrow> c \<notin> fst ` set observed \<Longrightarrow>
   merge_abs previous observed known read now rid = carried_abs previous known now rid"
  by (simp add: merge_abs_def find_not_observed)

lemma carried_abs_SomeD:
  "carried_abs previous known now rid = Some r \<Longrightarrow>
   map_of previous rid = Some r \<and> carried known now r"
  by (simp add: carried_abs_def split: option.splits if_splits)

lemma find_alert:
  assumes "distinct (map al_key alerts)" and "d \<in> set alerts"
  shows "find (\<lambda>e. recordId c (al_key e) = recordId c (al_key d)) alerts = Some d"
  using assms by (induction alerts) (auto simp: image_iff)

section \<open>The read actions\<close>

lemma set_add_set [simp]: "set (set_add x xs) = insert x (set xs)"
  by (auto simp: set_add_def)

lemma distinct_set_add [simp]: "distinct (set_add x xs) = distinct xs"
  by (simp add: set_add_def)

lemma length_slice_last: "length (slice_last n xs) = min n (length xs)"
  by (simp add: slice_last_def)

lemma string_values_map [simp]: "string_values (map JStr xs) = xs"
  by (induction xs) simp_all

lemma foldl_set_add: "distinct (s @ xs) \<Longrightarrow> foldl (\<lambda>s x. set_add x s) s xs = s @ xs"
  by (induction xs arbitrary: s) (auto simp: set_add_def)

lemma load_save_ids:
  "distinct ids \<Longrightarrow> loadReadIds (saveReadIds ids False c) = slice_last READ_MEMORY ids"
  by (simp add: saveReadIds_def loadReadIds_def foldl_set_add slice_last_def)

lemma mark_unread_lookup:
  assumes "distinct (map fst rs)"
  shows "map_of (fst (mark_unread rs (acc, ids, ch))) rid = (case map_of rs rid of
      None \<Rightarrow> map_of acc rid | Some r \<Rightarrow> Some (r\<lparr>rec_read := True\<rparr>))"
  using assms
proof (induction rs arbitrary: acc ids ch)
  case (Cons p ps)
  obtain k r where p: "p = (k, r)" by (cases p)
  have "map_of ps k = None" using Cons.prems by (simp add: p map_of_eq_None_iff)
  moreover have "r\<lparr>rec_read := True\<rparr> = r" if "rec_read r" using that by simp
  ultimately show ?case using Cons by (auto simp: p update_conv' split: option.splits)
qed simp

lemma mark_unread_changed:
  "snd (snd (mark_unread rs (acc, ids, ch))) \<longleftrightarrow> ch \<or> (\<exists>r \<in> snd ` set rs. \<not> rec_read r)"
proof (induction rs arbitrary: acc ids ch)
  case (Cons p ps)
  then show ?case by (cases p) auto
qed simp

lemma mark_unread_ids:
  "set (fst (snd (mark_unread rs (acc, ids, ch)))) =
     set ids \<union> {k. \<exists>r. (k, r) \<in> set rs \<and> \<not> rec_read r}"
proof (induction rs arbitrary: acc ids ch)
  case (Cons p ps)
  then show ?case by (cases p) auto
qed simp

lemma mark_unread_wf:
  "wf_records rs \<Longrightarrow> wf_records acc \<Longrightarrow> wf_records (fst (mark_unread rs (acc, ids, ch)))"
proof (induction rs arbitrary: acc ids ch)
  case (Cons p ps)
  obtain k r where p: "p = (k, r)" by (cases p)
  have "wf_records ps" "k = rec_id r" "good_record r" using Cons.prems(1) by (auto simp: p wf_records_def)
  then show ?case
    using Cons.IH Cons.prems(2) by (auto simp: p wf_records_update good_record_def)
qed simp

lemma unreadCount_zero:
  "unreadCount rs = 0 \<longleftrightarrow> (\<forall>r \<in> snd ` set rs. rec_read r \<or> rec_resolvedAt r \<noteq> None)"
  by (auto simp: unreadCount_def filter_empty_conv)

definition wf_center :: "center \<Rightarrow> bool" where
  "wf_center s \<longleftrightarrow> wf_records (ce_records s) \<and> distinct (ce_readIds s)"

section \<open>The properties of the merge\<close>

lemma merged_lookup_observed:
  assumes "wf_records previous" "distinct (map fst observed)" "(c, alerts) \<in> set observed"
  shows "map_of (fst (mergeAlerts previous observed known read now)) (recordId c key) =
    observe_abs read now c alerts (recordId c key) (carried_abs previous known now (recordId c key))"
  using assms by (simp add: mergeAlerts_refines(1) merge_abs_observed)

lemma merged_lookup_alert:
  assumes "wf_records previous" "wf_observed observed" "(c, alerts) \<in> set observed" "d \<in> set alerts"
  shows "map_of (fst (mergeAlerts previous observed known read now)) (recordId c (al_key d)) =
    Some (fire_abs read now c d (carried_abs previous known now (recordId c (al_key d))))"
proof -
  have "distinct (map al_key alerts)" using assms(2,3) by (auto simp: wf_observed_def)
  then show ?thesis
    using merged_lookup_observed [OF assms(1) wf_observed_once [OF assms(2)] assms(3), of known read now "al_key d"] find_alert [OF _ assms(4), of c]
    by (simp add: observe_abs_once)
qed

lemma merged_record:
  assumes "wf_records previous" "r \<in> snd ` set (fst (mergeAlerts previous observed known read now))"
  shows "map_of (fst (mergeAlerts previous observed known read now)) (rec_id r) = Some r"
    and "belongs (rec_connectionId r) (rec_id r)"
proof -
  have wf: "wf_records (fst (mergeAlerts previous observed known read now))"
    by (rule mergeAlerts_wf [OF assms(1)])
  show m: "map_of (fst (mergeAlerts previous observed known read now)) (rec_id r) = Some r"
    using wf_records_mem [OF wf, of r] assms(2) by simp
  show "belongs (rec_connectionId r) (rec_id r)" using wf_records_map_of [OF wf m] by simp
qed

lemma fold_still_firing [simp]:
  "rec_resolvedAt (fold (still_firing c now) ds r) = rec_resolvedAt r"
  "rec_read (fold (still_firing c now) ds r) = rec_read r"
  "rec_firstSeen (fold (still_firing c now) ds r) = rec_firstSeen r"
  by (induction ds arbitrary: r) (simp_all add: still_firing_def)

lemma firing_iff_alert:
  assumes "wf_records previous" "distinct (map fst observed)" "(c, alerts) \<in> set observed"
  shows "(\<exists>r. map_of (fst (mergeAlerts previous observed known read now)) (recordId c key) = Some r
      \<and> rec_resolvedAt r = None) \<longleftrightarrow> key \<in> al_key ` set alerts"
proof (cases "filter (\<lambda>d. recordId c (al_key d) = recordId c key) alerts")
  case Nil
  then have "key \<notin> al_key ` set alerts" by (auto simp: filter_empty_conv)
  moreover have "map_of previous (recordId c key) = Some r \<Longrightarrow> rec_connectionId r = c" for r
    using wf_records_map_of [OF assms(1), of "recordId c key" r] by simp
  ultimately show ?thesis
    using merged_lookup_observed [OF assms, of known read now key] Nil
    by (auto simp: observe_abs_def dest: carried_abs_SomeD)
next
  case (Cons d others)
  then have "d \<in> set (filter (\<lambda>d. recordId c (al_key d) = recordId c key) alerts)" by simp
  then have "key \<in> al_key ` set alerts" by auto
  then show ?thesis
    using merged_lookup_observed [OF assms, of known read now key] Cons by (simp add: observe_abs_def)
qed

text \<open>
  C3: After a merge from well-kept records of a round that observes each connection once, the records of an
  observed connection that are still firing are exactly the alerts its rules raised in this round, no more
  and no fewer.
\<close>

theorem merge_resolves_exactly:
  assumes "wf_records previous" and "distinct (map fst observed)" and "(c, alerts) \<in> set observed"
  shows "rec_id ` {r \<in> snd ` set (fst (mergeAlerts previous observed known read now)).
      rec_connectionId r = c \<and> rec_resolvedAt r = None} = (\<lambda>d. recordId c (al_key d)) ` set alerts"
    (is "?L = ?R")
proof
  show "?L \<subseteq> ?R"
  proof
    fix rid assume "rid \<in> ?L"
    then obtain r where r: "r \<in> snd ` set (fst (mergeAlerts previous observed known read now))"
      "rec_connectionId r = c" "rec_resolvedAt r = None" "rid = rec_id r" by blast
    obtain key where "rec_id r = recordId c key"
      using merged_record(2) [OF assms(1) r(1)] r(2) by (auto simp: belongs_iff)
    then show "rid \<in> ?R"
      using firing_iff_alert [OF assms, of known read now key] merged_record(1) [OF assms(1) r(1)] r(3,4)
      by auto
  qed
  show "?R \<subseteq> ?L"
  proof
    fix rid assume "rid \<in> ?R"
    then obtain d where d: "d \<in> set alerts" "rid = recordId c (al_key d)" by blast
    obtain r where m: "map_of (fst (mergeAlerts previous observed known read now)) rid = Some r" "rec_resolvedAt r = None"
      using firing_iff_alert [OF assms, of known read now "al_key d"] d by auto
    have e: "rec_id r = rid \<and> rec_connectionId r = c"
      using wf_records_map_of [OF mergeAlerts_wf [OF assms(1)] m(1)] d(2) by simp
    have "r \<in> snd ` set (fst (mergeAlerts previous observed known read now))"
      using m(1) by (force dest: map_of_SomeD)
    then show "rid \<in> ?L" using e m(2) by force
  qed
qed

definition sample_alert :: "string \<Rightarrow> DerivedAlert" where
  "sample_alert k = alert (u k) brokerOffline Crit [(''broker'', PStr (u k))]"

definition sample_record :: "string \<Rightarrow> bool \<Rightarrow> int option \<Rightarrow> AlertRecord" where
  "sample_record k seen gone = (newly_firing 1 0 (sample_alert k) seen)\<lparr>rec_resolvedAt := gone\<rparr>"

definition sample_records :: records where
  "sample_records = [(recordId 1 (u ''a''), sample_record ''a'' True None),
     (recordId 1 (u ''b''), sample_record ''b'' False None),
     (recordId 1 (u ''c''), sample_record ''c'' True (Some 10))]"

definition sample_observed :: "(int \<times> DerivedAlert list) list" where
  "sample_observed = [(1, [sample_alert ''a'', sample_alert ''c'', sample_alert ''d'']), (2, [])]"

lemma sample_wf: "wf_records sample_records" "wf_observed sample_observed"
  by (simp_all add: wf_records_def sample_records_def sample_record_def sample_alert_def
      newly_firing_def good_record_def wf_observed_def sample_observed_def u_def)

lemma sample_in: "(1, [sample_alert ''a'', sample_alert ''c'', sample_alert ''d'']) \<in> set sample_observed"
  by (simp add: sample_observed_def)

theorem merge_resolves_exactly_witness:
  "rec_id ` {r \<in> snd ` set (fst (mergeAlerts sample_records sample_observed {1, 2} {} 20)).
      rec_connectionId r = 1 \<and> rec_resolvedAt r = None} =
    (\<lambda>d. recordId 1 (al_key d)) ` set [sample_alert ''a'', sample_alert ''c'', sample_alert ''d'']"
  by (rule merge_resolves_exactly [OF sample_wf(1) wf_observed_once [OF sample_wf(2)] sample_in])

text \<open>
  C4: What one alert makes of its record, merged into well-kept records in a round that observes each
  connection once and gives no two alerts of one connection the same key. Firing without a break keeps the time it was first
  seen and its read mark; firing again after a recovery starts a new, unread episode; firing
  with nothing carried over starts one that is read only if this id was acknowledged before.
\<close>

theorem merge_episode:
  assumes "wf_records previous" and "wf_observed observed" and "(c, alerts) \<in> set observed"
    and "d \<in> set alerts" and "before = map_of previous (recordId c (al_key d))"
  shows "\<exists>r. map_of (fst (mergeAlerts previous observed known read now)) (recordId c (al_key d)) = Some r
    \<and> rec_severity r = al_severity d \<and> rec_params r = al_params d
    \<and> rec_lastSeen r = now \<and> rec_resolvedAt r = None
    \<and> (case before of
         None \<Rightarrow> rec_firstSeen r = now \<and> (rec_read r \<longleftrightarrow> recordId c (al_key d) \<in> read)
       | Some b \<Rightarrow> if \<not> carried known now b then
             rec_firstSeen r = now \<and> (rec_read r \<longleftrightarrow> recordId c (al_key d) \<in> read)
           else if rec_resolvedAt b = None then
             rec_firstSeen r = rec_firstSeen b \<and> rec_read r = rec_read b
           else rec_firstSeen r = now \<and> \<not> rec_read r)"
  using merged_lookup_alert [OF assms(1-4), of known read now] assms(5)
  by (auto simp: carried_abs_def fire_abs_def newly_firing_def still_firing_def split: option.splits)

theorem merge_episode_witness:
  "\<exists>r. map_of (fst (mergeAlerts sample_records sample_observed {1, 2} {} 20)) (recordId 1 (u ''c'')) = Some r
    \<and> rec_firstSeen r = 20 \<and> \<not> rec_read r"
  using merge_episode [OF sample_wf sample_in, where d = "sample_alert ''c''" and known = "{1, 2}"
      and read = "{}" and now = 20, OF _ refl]
  by (auto simp: sample_records_def sample_record_def sample_alert_def newly_firing_def u_def carried_def
      RESOLVED_RETENTION_MS_def)

lemma fired_connection:
  assumes "r \<in> set (fired_abs previous observed known read now)"
  shows "rec_connectionId r \<in> fst ` set observed"
  using assms first_of_keys_sub by (force simp: fired_abs_def announced_abs_def Let_def)

text \<open>
  A connection the round did not observe keeps its records as they were: each one that is
  of an open connection and has not been recovered for more than half an hour, and nothing
  else; and nothing of it is announced.
\<close>

lemma merge_unobserved:
  assumes "wf_records previous" and "wf_observed observed" and "c \<notin> fst ` set observed"
  shows "map_of (fst (mergeAlerts previous observed known read now)) (recordId c key) =
      (case map_of previous (recordId c key) of None \<Rightarrow> None
       | Some r \<Rightarrow> if c \<in> known \<and> (\<forall>t. rec_resolvedAt r = Some t \<longrightarrow> now \<le> t + RESOLVED_RETENTION_MS)
           then Some r else None)
    \<and> (\<forall>r \<in> set (snd (mergeAlerts previous observed known read now)). rec_connectionId r \<noteq> c)"
proof -
  have "belongs c (recordId c key)" by simp
  then have "map_of (fst (mergeAlerts previous observed known read now)) (recordId c key) =
      carried_abs previous known now (recordId c key)"
    using assms by (simp add: mergeAlerts_refines(1) wf_observed_once merge_abs_unobserved)
  moreover have "map_of previous (recordId c key) = Some r \<Longrightarrow> rec_connectionId r = c" for r
    using wf_records_map_of [OF assms(1), of "recordId c key" r] by simp
  moreover have "rec_connectionId r \<noteq> c"
    if "r \<in> set (snd (mergeAlerts previous observed known read now))" for r
    using fired_connection [of r previous observed known read now] that assms
    by (auto simp: mergeAlerts_refines(2) wf_observed_once)
  ultimately show ?thesis
    by (auto simp: carried_abs_def carried_def split: option.splits)
qed

lemma fold_still_last: "ds \<noteq> [] \<Longrightarrow> fold (still_firing c t) ds r = still_firing c t (last ds) r"
proof (induction ds arbitrary: r)
  case (Cons d ds)
  then show ?case by (cases ds) (simp_all add: still_firing_def)
qed simp

lemma still_firing_again:
  "still_firing c later d (fire_abs read now c d b) = (fire_abs read now c d b)\<lparr>rec_lastSeen := later\<rparr>"
  "still_firing c later d (still_firing c now d r) = (still_firing c now d r)\<lparr>rec_lastSeen := later\<rparr>"
  by (auto simp: fire_abs_def still_firing_def newly_firing_def split: option.splits)

lemma fold_still_again:
  "fold (still_firing c later) (d # others) (fold (still_firing c now) others (fire_abs read now c d b))
   = (fold (still_firing c now) others (fire_abs read now c d b))\<lparr>rec_lastSeen := later\<rparr>"
proof (cases "others = []")
  case False
  have "still_firing c later (last others) (still_firing c later d r) = still_firing c later (last others) r" for r
    by (simp add: still_firing_def)
  then show ?thesis using False by (simp add: fold_still_last still_firing_again(2))
qed (simp add: still_firing_again(1))

text \<open>
  C17: A round seen again announces nothing, at whatever later time and whatever was read since, and of the
  records of the alerts firing only the time they were last seen moves - in a round that observes each
  connection once and only connections that are known (a connection observed but not among the
  profiles is announced again in every round: \<open>unknown_connection_announced\<close>).
\<close>

theorem merge_again_quiet:
  assumes "wf_records previous" and "distinct (map fst observed)" and "fst ` set observed \<subseteq> known"
    and "once = fst (mergeAlerts previous observed known read now)"
    and "again = mergeAlerts once observed known read' later"
  shows "snd again = [] \<and>
    (\<forall>(c, alerts) \<in> set observed. \<forall>d \<in> set alerts. \<exists>r. map_of once (recordId c (al_key d)) = Some r
       \<and> map_of (fst again) (recordId c (al_key d)) = Some (r\<lparr>rec_lastSeen := later\<rparr>))"
proof -
  have wf: "wf_records once" unfolding assms(4) by (rule mergeAlerts_wf [OF assms(1)])
  have firing: "\<exists>r b e others. map_of once (recordId c (al_key d)) = Some r
      \<and> filter (\<lambda>e. recordId c (al_key e) = recordId c (al_key d)) alerts = e # others
      \<and> r = fold (still_firing c now) others (fire_abs read now c e b)
      \<and> carried_abs once known later (recordId c (al_key d)) = Some r"
    if ob: "(c, alerts) \<in> set observed" "d \<in> set alerts" for c alerts d
  proof -
    have "filter (\<lambda>e. recordId c (al_key e) = recordId c (al_key d)) alerts \<noteq> []"
      using ob(2) by (auto simp: filter_empty_conv)
    then obtain e others where f: "filter (\<lambda>e. recordId c (al_key e) = recordId c (al_key d)) alerts = e # others"
      by (auto simp: neq_Nil_conv)
    have m: "map_of once (recordId c (al_key d)) = Some (fold (still_firing c now) others
        (fire_abs read now c e (carried_abs previous known now (recordId c (al_key d)))))"
      using merged_lookup_observed [OF assms(1,2) ob(1), of known read now "al_key d"] f
      by (simp add: assms(4) observe_abs_def)
    have "c \<in> known" using ob(1) assms(3) by force
    then show ?thesis
      using m f wf_records_map_of [OF wf m] by (auto simp: carried_abs_def carried_def)
  qed
  have "announced_abs read' later c (carried_abs once known later) d = []"
    if "(c, alerts) \<in> set observed" "d \<in> set alerts" for c alerts d
    using firing [OF that] by (auto simp: announced_abs_def Let_def)
  then have "fired_abs once observed known read' later = []"
    using first_of_keys_sub by (force simp: fired_abs_def for_each_def)
  moreover have "\<exists>r. map_of once (recordId c (al_key d)) = Some r
       \<and> map_of (fst again) (recordId c (al_key d)) = Some (r\<lparr>rec_lastSeen := later\<rparr>)"
    if ob: "(c, alerts) \<in> set observed" "d \<in> set alerts" for c alerts d
  proof -
    obtain r b e others where r: "map_of once (recordId c (al_key d)) = Some r"
      "filter (\<lambda>e. recordId c (al_key e) = recordId c (al_key d)) alerts = e # others"
      "r = fold (still_firing c now) others (fire_abs read now c e b)"
      "carried_abs once known later (recordId c (al_key d)) = Some r" using firing [OF ob] by blast
    have "fire_abs read' later c e (Some r) = still_firing c later e r" using r(3) by (simp add: fire_abs_def [of read'])
    then have "map_of (fst again) (recordId c (al_key d)) = Some (fold (still_firing c later) (e # others) r)"
      using merged_lookup_observed [OF wf assms(2) ob(1), of known read' later "al_key d"] r(2,4)
      by (simp add: assms(5) observe_abs_def)
    then show ?thesis using r(1) fold_still_again [of c later e others now read b] by (simp add: r(3))
  qed
  ultimately show ?thesis
    using mergeAlerts_refines(2) [OF wf assms(2)] by (auto simp: assms(5))
qed

theorem merge_again_quiet_witness:
  "snd (mergeAlerts (fst (mergeAlerts sample_records sample_observed {1, 2} {} 20))
     sample_observed {1, 2} {} 90000) = []"
  using merge_again_quiet [OF sample_wf(1) wf_observed_once [OF sample_wf(2)] _ refl refl, where known = "{1, 2}" and read = "{}" and now = 20
      and read' = "{}" and later = 90000]
  by (simp add: sample_observed_def)

lemma fired_merged:
  assumes "wf_records previous" and "wf_observed observed"
    and "r \<in> set (snd (mergeAlerts previous observed known read now))"
  shows "map_of (fst (mergeAlerts previous observed known read now)) (rec_id r) = Some r
    \<and> rec_resolvedAt r = None \<and> \<not> rec_read r
    \<and> (\<forall>b. carried_abs previous known now (rec_id r) = Some b \<longrightarrow> rec_resolvedAt b \<noteq> None)"
proof -
  obtain c alerts d where o: "(c, alerts) \<in> set observed" "d \<in> set alerts"
    and a: "r \<in> set (announced_abs read now c (carried_abs previous known now) d)"
    using assms(3) by (auto simp: mergeAlerts_refines(2) [OF assms(1) wf_observed_once [OF assms(2)]] fired_abs_once [OF assms(2)])
  then have "r = fire_abs read now c d (carried_abs previous known now (recordId c (al_key d)))"
    by (simp add: announced_abs_def Let_def)
  then show ?thesis
    using a merged_lookup_alert [OF assms(1,2) o, of known read now]
    by (auto simp: announced_abs_def Let_def split: option.splits)
qed

text \<open>
  The merge announces exactly the unread records that are firing now and were not firing in
  the state carried into the round.
\<close>

lemma announced_exactly:
  assumes "wf_records previous" and "wf_observed observed"
    and "merged = fst (mergeAlerts previous observed known read now)"
  shows "set (snd (mergeAlerts previous observed known read now)) =
    {r \<in> snd ` set merged. rec_resolvedAt r = None \<and> \<not> rec_read r
       \<and> \<not> (\<exists>b. map_of previous (rec_id r) = Some b \<and> carried known now b \<and> rec_resolvedAt b = None)}"
    (is "?L = ?R")
proof
  show "?L \<subseteq> ?R"
    using fired_merged [OF assms(1,2), of _ known read now]
    by (force simp: assms(3) carried_abs_def dest: map_of_SomeD split: option.splits if_splits)
  show "?R \<subseteq> ?L"
  proof
    fix r assume R: "r \<in> ?R"
    define c where "c = rec_connectionId r"
    have m: "map_of merged (rec_id r) = Some r" and "belongs c (rec_id r)"
      using R merged_record [OF assms(1), of r observed known read now] by (auto simp: assms(3) c_def)
    then obtain key where key: "rec_id r = recordId c key" by (auto simp: belongs_iff)
    have "c \<in> fst ` set observed"
    proof (rule ccontr)
      assume "c \<notin> fst ` set observed"
      then have "carried_abs previous known now (rec_id r) = Some r"
        using m key by (simp add: assms(1,2,3) mergeAlerts_refines(1) wf_observed_once merge_abs_unobserved)
      then show False using R by (auto dest: carried_abs_SomeD)
    qed
    then obtain alerts where o: "(c, alerts) \<in> set observed" by force
    have "key \<in> al_key ` set alerts"
      using firing_iff_alert [OF assms(1) wf_observed_once [OF assms(2)] o, of known read now key] m R key by (auto simp: assms(3))
    then obtain d where d: "d \<in> set alerts" "key = al_key d" by blast
    have r: "r = fire_abs read now c d (carried_abs previous known now (recordId c (al_key d)))"
      using merged_lookup_alert [OF assms(1,2) o d(1), of known read now] m key d(2) by (simp add: assms(3))
    have "r \<in> set (announced_abs read now c (carried_abs previous known now) d)"
      using r R key d(2) by (auto simp: announced_abs_def Let_def dest: carried_abs_SomeD split: option.splits)
    then show "r \<in> ?L"
      using o d(1) by (force simp: mergeAlerts_refines(2) [OF assms(1) wf_observed_once [OF assms(2)]] fired_abs_once [OF assms(2)])
  qed
qed

text \<open>
  C2: From records kept each once under its own id (as every merge leaves them) and for a round that observes
  each connection at most once, the merge, with its loops over an evolving dictionary, computes what
  the specification says id by id: each record of the result is the one \<open>merge_abs\<close> names,
  the announcements are \<open>fired_abs\<close>, in order, and the result is kept the same way. Alerts
  of one connection may share a key - two RabbitMQ queues may - and then the first decides the episode and
  the announcement, and the last the wording.
\<close>

theorem merge_refines_spec:
  assumes "wf_records previous" and "distinct (map fst observed)"
  shows "map_of (fst (mergeAlerts previous observed known read now)) = merge_abs previous observed known read now
    \<and> snd (mergeAlerts previous observed known read now) = fired_abs previous observed known read now
    \<and> wf_records (fst (mergeAlerts previous observed known read now))"
  using mergeAlerts_refines [OF assms] mergeAlerts_wf [OF assms(1)] by auto

theorem merge_refines_spec_witness:
  "map_of (fst (mergeAlerts sample_records [(1, [sample_alert ''c'', sample_alert ''c''])] {1, 2} {} 20)) =
     merge_abs sample_records [(1, [sample_alert ''c'', sample_alert ''c''])] {1, 2} {} 20"
  using merge_refines_spec [OF sample_wf(1), of "[(1, [sample_alert ''c'', sample_alert ''c''])]" "{1, 2}" "{}" 20] by simp

end
