(* ===== verification/RabbitMQ_Alerts.thy ===== *)
theory RabbitMQ_Alerts
  imports Alert_Family
begin

text \<open>
  RabbitMQ: the readers of a node and of a queue (\<open>mq/rabbitmq/nodes.ts\<close>, \<open>destinations.ts\<close>)
  and the rules over them (\<open>mq/rabbitmq/alerts.ts\<close>), with the shape of what a queue can raise.
\<close>

section \<open>Nodes\<close>

definition rabbit_node_attr :: "Node \<Rightarrow> string \<Rightarrow> jsstr" where
  "rabbit_node_attr n k = attr_str (node_attributes n) k"

definition rabbit_node_count :: "Node \<Rightarrow> string \<Rightarrow> jsnum" where
  "rabbit_node_count n k = or_fallback (parse_int (rabbit_node_attr n k)) (Fin 0)"

definition rabbit_nodeName :: "Node \<Rightarrow> jsstr" where
  "rabbit_nodeName n = node_name n"

definition rabbit_memoryUsed :: "Node \<Rightarrow> jsnum" where
  "rabbit_memoryUsed n = rabbit_node_count n ''memoryUsed''"

definition rabbit_memoryLimit :: "Node \<Rightarrow> jsnum" where
  "rabbit_memoryLimit n = rabbit_node_count n ''memoryLimit''"

definition rabbit_memoryAlarm :: "Node \<Rightarrow> bool" where
  "rabbit_memoryAlarm n \<longleftrightarrow> rabbit_node_attr n ''memoryAlarm'' = u ''true''"

definition rabbit_diskFree :: "Node \<Rightarrow> jsnum" where
  "rabbit_diskFree n = rabbit_node_count n ''diskFree''"

definition rabbit_diskFreeLimit :: "Node \<Rightarrow> jsnum" where
  "rabbit_diskFreeLimit n = rabbit_node_count n ''diskFreeLimit''"

definition rabbit_diskFreeAlarm :: "Node \<Rightarrow> bool" where
  "rabbit_diskFreeAlarm n \<longleftrightarrow> rabbit_node_attr n ''diskFreeAlarm'' = u ''true''"

definition rabbit_partitions :: "Node \<Rightarrow> jsstr list" where
  "rabbit_partitions n = split_list (rabbit_node_attr n ''partitions'')"

definition rabbit_memoryUsage :: "Node \<Rightarrow> jsnum option" where
  "rabbit_memoryUsage n = (let limit = rabbit_memoryLimit n in
     if limit \<le> Fin 0 then None
     else Some (num_min (Fin 100)
       (num_round (num_mul (num_div (rabbit_memoryUsed n) limit) (Fin 100)))))"

definition rabbit_diskHeadroomUsage :: "Node \<Rightarrow> jsnum option" where
  "rabbit_diskHeadroomUsage n = (let limit = rabbit_diskFreeLimit n; free = rabbit_diskFree n in
     if limit \<le> Fin 0 \<or> free \<le> Fin 0 then None
     else Some (num_max (Fin 0) (num_min (Fin 100)
       (num_round (num_mul (num_div limit free) (Fin 100))))))"

section \<open>Queues\<close>

definition rabbit_dest_attr :: "Destination \<Rightarrow> string \<Rightarrow> jsstr" where
  "rabbit_dest_attr d k = attr_str (dest_attributes d) k"

definition rabbit_dest_count :: "Destination \<Rightarrow> string \<Rightarrow> jsnum" where
  "rabbit_dest_count d k = or_fallback (parse_int (rabbit_dest_attr d k)) (Fin 0)"

definition rabbit_vhost :: "Destination \<Rightarrow> jsstr" where
  "rabbit_vhost d = ref_namespace (dest_ref d)"

definition rabbit_queueType :: "Destination \<Rightarrow> jsstr" where
  "rabbit_queueType d = or_str (rabbit_dest_attr d ''queueType'') (u ''classic'')"

definition rabbit_messagesReady :: "Destination \<Rightarrow> jsnum" where
  "rabbit_messagesReady d = rabbit_dest_count d ''messagesReady''"

definition rabbit_messagesUnacknowledged :: "Destination \<Rightarrow> jsnum" where
  "rabbit_messagesUnacknowledged d = rabbit_dest_count d ''messagesUnacknowledged''"

definition rabbit_members :: "Destination \<Rightarrow> jsstr list" where
  "rabbit_members d = split_list (rabbit_dest_attr d ''members'')"

definition rabbit_onlineMembers :: "Destination \<Rightarrow> jsstr list" where
  "rabbit_onlineMembers d = split_list (rabbit_dest_attr d ''onlineMembers'')"

definition rabbit_consumerUtilisation :: "Destination \<Rightarrow> jsnum option" where
  "rabbit_consumerUtilisation d = (let raw = rabbit_dest_attr d ''consumerUtilisation'' in
     if raw = [] then None
     else or_null (parse_float raw))"

section \<open>What the readers promise\<close>

interpretation rabbit_node: counting_reader node_attributes rabbit_node_count "Fin 0"
  by unfold_locales (simp_all add: rabbit_node_count_def rabbit_node_attr_def or_fallback_not_NaN)

interpretation rabbit_dest: counting_reader dest_attributes rabbit_dest_count "Fin 0"
  by unfold_locales (simp_all add: rabbit_dest_count_def rabbit_dest_attr_def or_fallback_not_NaN)

section \<open>The rules\<close>

definition rabbit_queueLabel :: "jsstr \<Rightarrow> jsstr \<Rightarrow> jsstr" where
  "rabbit_queueLabel ns name = (if ns = u ''/'' then name else ns @ u ''/'' @ name)"

definition rabbit_alarmKind :: "Node \<Rightarrow> jsstr option" where
  "rabbit_alarmKind n = (let memory = rabbit_memoryAlarm n; dsk = rabbit_diskFreeAlarm n in
     if memory \<and> dsk then Some (u ''both'')
     else if memory then Some (u ''memory'')
     else if dsk then Some (u ''disk'')
     else None)"

definition rabbit_throttled :: "ClientConnection list \<Rightarrow> ClientConnection list" where
  "rabbit_throttled cs = filter (\<lambda>c. conn_state c = u ''flow'' \<or> conn_state c = u ''blocked''
     \<or> conn_state c = u ''blocking'') cs"

definition rabbit_watermark :: "Node \<Rightarrow> AlertRuleKey \<Rightarrow> jsstr \<Rightarrow> jsnum \<Rightarrow> jsnum \<Rightarrow> DerivedAlert" where
  "rabbit_watermark n rule prefix usage diskThreshold =
     (alert (prefix @ rabbit_nodeName n) rule
       (if num_min (Fin 100) (num_add diskThreshold (Fin 15)) \<le> usage then Crit else Warn)
       [(''broker'', PStr (rabbit_nodeName n)), (''usage'', PNum usage),
        (''threshold'', PNum diskThreshold)])
     \<lparr>al_since := or_undefined (node_lastSeen n)\<rparr>"

text \<open>The body of the loop over the nodes: \<open>continue\<close> ends it early.\<close>

definition rabbit_node_alerts :: "AlertRulePrefs \<Rightarrow> jsnum \<Rightarrow> Node \<Rightarrow> DerivedAlert list" where
  "rabbit_node_alerts rules diskThreshold n =
    (let since = or_undefined (node_lastSeen n) in
     if enabled rules brokerOffline \<and> node_status n = NodeOffline then
       [(alert (u ''node-off-'' @ rabbit_nodeName n) brokerOffline Crit
          [(''broker'', PStr (rabbit_nodeName n)),
           (''address'', PStr (or_str (node_address n) em_dash))])\<lparr>al_since := since\<rparr>]
     else
       if_some (rabbit_alarmKind n) (\<lambda>alarm. push_if (enabled rules resourceAlarm)
            ((alert (u ''alarm-'' @ rabbit_nodeName n @ u ''-'' @ alarm) resourceAlarm Crit
               [(''broker'', PStr (rabbit_nodeName n)), (''resource'', PStr alarm)])
             \<lparr>al_since := since\<rparr>))
       @ (let lost = rabbit_partitions n in
          push_if (enabled rules nodePartition \<and> lost \<noteq> [])
            ((alert (u ''partition-'' @ rabbit_nodeName n) nodePartition Crit
               [(''broker'', PStr (rabbit_nodeName n)),
                (''peers'', PStr (join_with (u '', '') lost)),
                (''count'', PNum (Fin (of_nat (length lost))))])\<lparr>al_since := since\<rparr>))
       @ (if diskThreshold \<le> Fin 0 then []
          else
            (if enabled rules diskUsage \<and> \<not> rabbit_diskFreeAlarm n then
               if_some (rabbit_diskHeadroomUsage n) (\<lambda>headroom.
                 push_if (diskThreshold \<le> headroom)
                   (rabbit_watermark n diskUsage (u ''disk-'') headroom diskThreshold))
             else [])
            @ (if enabled rules memoryUsage \<and> \<not> rabbit_memoryAlarm n then
               if_some (rabbit_memoryUsage n) (\<lambda>usage.
                 push_if (diskThreshold \<le> usage)
                   (rabbit_watermark n memoryUsage (u ''memory-'') usage diskThreshold))
               else [])))"

definition rabbit_queue_alerts :: "AlertRulePrefs \<Rightarrow> jsnum \<Rightarrow> Destination \<Rightarrow> DerivedAlert list" where
  "rabbit_queue_alerts rules lagThreshold q =
    (let ready = rabbit_messagesReady q;
         depth = num_add ready (rabbit_messagesUnacknowledged q);
         consumers = dest_subscribers q;
         label = rabbit_queueLabel (rabbit_vhost q) (ref_name (dest_ref q))
     in if enabled rules queueNoConsumer \<and> consumers = Fin 0 \<and> lagThreshold < ready then
          [alert (u ''queue-idle-'' @ label) queueNoConsumer Crit
             [(''queue'', PStr label), (''lag'', PNum ready)]]
        else push_if (enabled rules queueBacklog \<and> lagThreshold < depth)
          (alert (u ''queue-backlog-'' @ label) queueBacklog Warn
             [(''queue'', PStr label), (''lag'', PNum depth), (''threshold'', PNum lagThreshold)]))"

definition rabbit_flow_alerts :: "AlertRulePrefs \<Rightarrow> ClientConnection list \<Rightarrow> DerivedAlert list" where
  "rabbit_flow_alerts rules cs =
    (if enabled rules flowControl then
       (let slowed = rabbit_throttled cs in
        if_some (at_index slowed 0) (\<lambda>first.
          [alert (u ''flow-control'') flowControl Warn
             [(''count'', PNum (Fin (of_nat (length slowed)))),
              (''peer'', PStr (or_str (conn_peerHost first) (conn_name first)))]]))
     else [])"

definition deriveRabbitMQAlerts :: derivation where
  "deriveRabbitMQAlerts facts rules th =
     for_each (nodes facts) (rabbit_node_alerts rules (disk th))
     @ (if Fin 0 < lag th then for_each (destinations facts) (rabbit_queue_alerts rules (lag th))
        else [])
     @ rabbit_flow_alerts rules (connections facts)"

lemmas rabbit_alert_defs = rabbit_node_alerts_def rabbit_queue_alerts_def rabbit_flow_alerts_def
  rabbit_watermark_def Let_def

section \<open>The contract\<close>

lemma rabbit_node_alert_cases:
  assumes "a \<in> set (rabbit_node_alerts rules d n)"
  shows "enabled rules (al_rule a)
    \<and> al_rule a \<in> {brokerOffline, resourceAlarm, nodePartition, diskUsage, memoryUsage} \<and> worded a"
  using assms by (auto simp: rabbit_alert_defs)

lemma rabbit_queue_alert_cases:
  assumes "a \<in> set (rabbit_queue_alerts rules l q)"
  shows "enabled rules (al_rule a) \<and> al_rule a \<in> {queueNoConsumer, queueBacklog} \<and> worded a"
  using assms by (auto simp: rabbit_alert_defs)

lemma rabbit_flow_alert_cases:
  assumes "a \<in> set (rabbit_flow_alerts rules cs)"
  shows "enabled rules (al_rule a) \<and> al_rule a = flowControl \<and> worded a"
  using assms by (auto simp: rabbit_alert_defs)

lemma rabbit_alert_cases:
  assumes "a \<in> set (deriveRabbitMQAlerts f rules th)"
  obtains n where "n \<in> set (nodes f)" "a \<in> set (rabbit_node_alerts rules (disk th) n)"
  | q where "Fin 0 < lag th" "q \<in> set (destinations f)" "a \<in> set (rabbit_queue_alerts rules (lag th) q)"
  | "a \<in> set (rabbit_flow_alerts rules (connections f))"
  using assms by (auto simp: deriveRabbitMQAlerts_def split: if_splits)

lemma rabbit_alert_sound:
  assumes "a \<in> set (deriveRabbitMQAlerts f rules th)"
  shows "enabled rules (al_rule a) \<and> al_rule a \<in> set (rulesFor (Some KindRabbitMQ)) \<and> worded a"
  using assms
  by (cases rule: rabbit_alert_cases)
     (auto dest!: rabbit_node_alert_cases rabbit_queue_alert_cases rabbit_flow_alert_cases
       simp: rulesFor_def)

interpretation rabbit_rules: alert_family deriveRabbitMQAlerts
  by unfold_locales
    (simp_all add: rabbit_alert_sound deriveRabbitMQAlerts_def rabbit_flow_alerts_def rabbit_throttled_def)

interpretation rabbit_rules: declared_family deriveRabbitMQAlerts KindRabbitMQ
  by unfold_locales (simp add: rabbit_alert_sound)

interpretation rabbit_rules: swept_family deriveRabbitMQAlerts KindRabbitMQ
  by unfold_locales (simp add: deriveRabbitMQAlerts_def KINDS_NEEDING_DESTINATIONS_def)

interpretation rabbit_rules: worded_family deriveRabbitMQAlerts
  by unfold_locales (simp add: rabbit_alert_sound)

interpretation rabbit_rules: thresholded_family deriveRabbitMQAlerts
  by unfold_locales
    (auto elim!: rabbit_alert_cases dest!: rabbit_node_alert_cases rabbit_flow_alert_cases)

section \<open>The properties of the rules\<close>

text \<open>
  One cause, one alert: a queue raises at most one; a node that is offline raises nothing
  else when that rule is on; and a resource whose alarm has tripped is not reported as a
  percentage as well.
\<close>

lemma rabbit_one_cause:
  "length (rabbit_queue_alerts rules l q) \<le> 1
   \<and> {a \<in> set (rabbit_node_alerts rules d n). enabled rules brokerOffline \<and> node_status n = NodeOffline
        \<and> al_rule a \<noteq> brokerOffline} = {}
   \<and> {a \<in> set (rabbit_node_alerts rules d n). rabbit_memoryAlarm n \<and> al_rule a = memoryUsage} = {}
   \<and> {a \<in> set (rabbit_node_alerts rules d n). rabbit_diskFreeAlarm n \<and> al_rule a = diskUsage} = {}"
  by (auto simp: rabbit_alert_defs push_if_def)

end
