(* ===== verification/Kafka_Alerts.thy ===== *)
theory Kafka_Alerts
  imports Alert_Family
begin

text \<open>
  Kafka: the readers of a topic, a consumer group, a broker and a cluster overview
  (\<open>mq/kafka/destinations.ts\<close>, \<open>subscriptions.ts\<close>, \<open>cluster.ts\<close>) and the rules over them
  (\<open>mq/kafka/alerts.ts\<close>).
\<close>

definition UNKNOWN :: jsnum where
  "UNKNOWN = Fin (- 1)"

section \<open>Topics\<close>

definition kafka_dest_attr :: "Destination \<Rightarrow> string \<Rightarrow> jsstr" where
  "kafka_dest_attr t k = attr_str (dest_attributes t) k"

definition kafka_dest_count :: "Destination \<Rightarrow> string \<Rightarrow> jsnum option" where
  "kafka_dest_count t k = (let raw = kafka_dest_attr t k in
     if raw = [] then None else or_null (parse_int raw))"

definition kafka_isInternal :: "Destination \<Rightarrow> bool" where
  "kafka_isInternal t \<longleftrightarrow> kafka_dest_attr t ''internal'' = u ''true''"

definition kafka_replicationFactor :: "Destination \<Rightarrow> jsnum option" where
  "kafka_replicationFactor t = kafka_dest_count t ''replicationFactor''"

definition kafka_minInsyncReplicas :: "Destination \<Rightarrow> jsnum option" where
  "kafka_minInsyncReplicas t = kafka_dest_count t ''minInsyncReplicas''"

definition kafka_underReplicatedPartitions :: "Destination \<Rightarrow> jsnum" where
  "kafka_underReplicatedPartitions t = nullish (kafka_dest_count t ''underReplicatedPartitions'') (Fin 0)"

definition kafka_offlinePartitions :: "Destination \<Rightarrow> jsnum" where
  "kafka_offlinePartitions t = nullish (kafka_dest_count t ''offlinePartitions'') (Fin 0)"

definition kafka_leaderlessPartitions :: "Destination \<Rightarrow> jsnum" where
  "kafka_leaderlessPartitions t = nullish (kafka_dest_count t ''leaderlessPartitions'') (Fin 0)"

definition kafka_readableRecords :: "Destination \<Rightarrow> jsnum option" where
  "kafka_readableRecords t = (if dest_depth t = UNKNOWN then None else Some (dest_depth t))"

definition kafka_topicIsHealthy :: "Destination \<Rightarrow> bool" where
  "kafka_topicIsHealthy t \<longleftrightarrow> kafka_underReplicatedPartitions t = Fin 0
     \<and> kafka_offlinePartitions t = Fin 0 \<and> kafka_leaderlessPartitions t = Fin 0"

text \<open>
  A topic's partitions cross as a JSON object. Reading a row that is null throws, which is
  \<open>None\<close> here; every other shape of row gives defaults.
\<close>

record KafkaPartition =
  kp_partition :: jsnum
  kp_leader :: jsnum
  kp_leaderEpoch :: jsnum
  kp_replicas :: "jsnum list"
  kp_isr :: "jsnum list"
  kp_offlineReplicas :: "jsnum list"
  kp_startOffset :: jsnum
  kp_endOffset :: jsnum
  kp_records :: jsnum
  kp_underReplicated :: bool

definition num_field :: "json \<Rightarrow> string \<Rightarrow> jsnum \<Rightarrow> jsnum" where
  "num_field source k d = json_to_num (json_or (get_prop source k) (JNum d))"

definition str_field :: "json \<Rightarrow> string \<Rightarrow> jsstr" where
  "str_field source k = json_to_str (json_or (get_prop source k) (JStr []))"

definition kafka_numbers :: "json \<Rightarrow> string \<Rightarrow> jsnum list" where
  "kafka_numbers source k = (case get_prop source k of
     Some (JArr vs) \<Rightarrow> map json_to_num vs | _ \<Rightarrow> [])"

definition kafka_partition_row :: "json \<Rightarrow> KafkaPartition option" where
  "kafka_partition_row source = (if source = JNull then None else Some
     \<lparr>kp_partition = num_field source ''partition'' (Fin 0),
      kp_leader = num_field source ''leader'' UNKNOWN,
      kp_leaderEpoch = num_field source ''leaderEpoch'' UNKNOWN,
      kp_replicas = kafka_numbers source ''replicas'',
      kp_isr = kafka_numbers source ''isr'',
      kp_offlineReplicas = kafka_numbers source ''offlineReplicas'',
      kp_startOffset = num_field source ''startOffset'' UNKNOWN,
      kp_endOffset = num_field source ''endOffset'' UNKNOWN,
      kp_records = num_field source ''records'' UNKNOWN,
      kp_underReplicated = (get_prop source ''underReplicated'' = Some (JBool True))\<rparr>)"

definition kafka_partitionsOf :: "json option \<Rightarrow> KafkaPartition list option" where
  "kafka_partitionsOf stats = (case stats of None \<Rightarrow> Some []
     | Some j \<Rightarrow> (case get_prop j ''partitions'' of
         Some (JArr rows) \<Rightarrow> all_some (map kafka_partition_row rows) | _ \<Rightarrow> Some []))"

definition kafka_hasLeader :: "KafkaPartition \<Rightarrow> bool" where
  "kafka_hasLeader p \<longleftrightarrow> Fin 0 \<le> kp_leader p"

section \<open>Consumer groups\<close>

definition kafka_group_attr :: "Subscription \<Rightarrow> string \<Rightarrow> jsstr" where
  "kafka_group_attr g k = attr_str (sub_attributes g) k"

definition kafka_state :: "Subscription \<Rightarrow> jsstr" where
  "kafka_state g = kafka_group_attr g ''state''"

definition kafka_topics :: "Subscription \<Rightarrow> jsstr list" where
  "kafka_topics g = split_list (kafka_group_attr g ''topics'')"

definition kafka_hasMembers :: "Subscription \<Rightarrow> bool" where
  "kafka_hasMembers g \<longleftrightarrow> kafka_group_attr g ''hasMembers'' = u ''true''"

definition kafka_totalLag :: "Subscription \<Rightarrow> jsnum option" where
  "kafka_totalLag g = (if sub_backlog g = UNKNOWN then None else Some (sub_backlog g))"

definition kafka_isEmpty :: "Subscription \<Rightarrow> bool" where
  "kafka_isEmpty g \<longleftrightarrow> kafka_state g = u ''Empty''"

definition kafka_isRebalancing :: "Subscription \<Rightarrow> bool" where
  "kafka_isRebalancing g \<longleftrightarrow> kafka_state g = u ''PreparingRebalance''
     \<or> kafka_state g = u ''CompletingRebalance''"

record KafkaGroupPartition =
  kgp_topic :: jsstr
  kgp_partition :: jsnum
  kgp_member :: jsstr
  kgp_committed :: jsnum
  kgp_start :: jsnum
  kgp_end :: jsnum
  kgp_lag :: jsnum

record KafkaGroupMember =
  kgm_memberId :: jsstr
  kgm_clientId :: jsstr
  kgm_clientHost :: jsstr
  kgm_instanceId :: jsstr
  kgm_assigned :: "jsstr list"

record KafkaGroupDetail =
  kgd_partitions :: "KafkaGroupPartition list"
  kgd_members :: "KafkaGroupMember list"

definition kafka_rows :: "json \<Rightarrow> string \<Rightarrow> json list" where
  "kafka_rows stats k = (case get_prop stats k of Some (JArr rows) \<Rightarrow> rows | _ \<Rightarrow> [])"

definition kafka_group_partition :: "json \<Rightarrow> KafkaGroupPartition option" where
  "kafka_group_partition source = (if source = JNull then None else Some
     \<lparr>kgp_topic = str_field source ''topic'',
      kgp_partition = num_field source ''partition'' (Fin 0),
      kgp_member = str_field source ''member'',
      kgp_committed = num_field source ''committed'' UNKNOWN,
      kgp_start = num_field source ''start'' UNKNOWN,
      kgp_end = num_field source ''end'' UNKNOWN,
      kgp_lag = num_field source ''lag'' UNKNOWN\<rparr>)"

definition kafka_group_member :: "json \<Rightarrow> KafkaGroupMember option" where
  "kafka_group_member source = (if source = JNull then None else Some
     \<lparr>kgm_memberId = str_field source ''memberId'',
      kgm_clientId = str_field source ''clientId'',
      kgm_clientHost = str_field source ''clientHost'',
      kgm_instanceId = str_field source ''instanceId'',
      kgm_assigned = map json_to_str (kafka_rows source ''assigned'')\<rparr>)"

definition kafka_groupDetailOf :: "json option \<Rightarrow> KafkaGroupDetail option" where
  "kafka_groupDetailOf stats = (case stats of
     None \<Rightarrow> Some \<lparr>kgd_partitions = [], kgd_members = []\<rparr>
   | Some j \<Rightarrow>
       (case all_some (map kafka_group_partition (kafka_rows j ''partitions'')) of
          None \<Rightarrow> None
        | Some ps \<Rightarrow>
            (case all_some (map kafka_group_member (kafka_rows j ''members'')) of
               None \<Rightarrow> None
             | Some ms \<Rightarrow> Some \<lparr>kgd_partitions = ps, kgd_members = ms\<rparr>)))"

definition kafka_hasCommitted :: "KafkaGroupPartition \<Rightarrow> bool" where
  "kafka_hasCommitted p \<longleftrightarrow> Fin 0 \<le> kgp_committed p"

section \<open>Brokers and the cluster\<close>

definition kafka_attr :: "attributes \<Rightarrow> string \<Rightarrow> jsstr" where
  "kafka_attr source k = attr_str source k"

definition kafka_count :: "attributes \<Rightarrow> string \<Rightarrow> jsnum option" where
  "kafka_count source k = (let raw = kafka_attr source k in
     if raw = [] then None else or_null (parse_int raw))"

definition kafka_nodeID :: "Node \<Rightarrow> jsstr" where
  "kafka_nodeID n = kafka_attr (node_attributes n) ''nodeId''"

definition kafka_isController :: "Node \<Rightarrow> bool" where
  "kafka_isController n \<longleftrightarrow> kafka_attr (node_attributes n) ''controller'' = u ''true''"

definition kafka_partitionsAreHealthy :: "ClusterOverview \<Rightarrow> bool" where
  "kafka_partitionsAreHealthy overview \<longleftrightarrow>
     list_all (\<lambda>k. kafka_count (co_attributes overview) k = Some (Fin 0))
       [''underReplicatedPartitions'', ''offlinePartitions'', ''leaderlessPartitions'']"

definition kafka_transactionAge :: "jsnum \<Rightarrow> jsnum \<Rightarrow> jsstr" where
  "kafka_transactionAge startedAt now =
    (if startedAt < Fin 0 \<or> now < startedAt then em_dash
     else let seconds = num_floor (num_div (num_sub now startedAt) (Fin 1000)) in
       if seconds < Fin 60 then num_to_str seconds @ u ''s''
       else let minutes = num_floor (num_div seconds (Fin 60)) in
         if minutes < Fin 60 then num_to_str minutes @ u ''m''
         else let hours = num_floor (num_div minutes (Fin 60)) in
           if hours < Fin 24 then
             num_to_str hours @ u ''h '' @ num_to_str (num_mod minutes (Fin 60)) @ u ''m''
           else num_to_str (num_floor (num_div hours (Fin 24))) @ u ''d ''
             @ num_to_str (num_mod hours (Fin 24)) @ u ''h'')"

definition kafka_transactionOverdue :: "bool \<Rightarrow> jsnum \<Rightarrow> jsnum \<Rightarrow> jsnum \<Rightarrow> bool" where
  "kafka_transactionOverdue is_open startedAt timeoutMs now =
    (if \<not> is_open \<or> startedAt < Fin 0 \<or> timeoutMs \<le> Fin 0 then False
     else timeoutMs < num_sub now startedAt)"

interpretation kafka_dest: numeric_reader dest_attributes kafka_dest_count
  by unfold_locales
    (auto simp: kafka_dest_count_def kafka_dest_attr_def Let_def dest: or_null_SomeD split: if_splits)

interpretation kafka_any: numeric_reader "\<lambda>a. a" kafka_count
  by unfold_locales
    (auto simp: kafka_count_def kafka_attr_def Let_def dest: or_null_SomeD split: if_splits)

section \<open>The rules\<close>

definition kafka_brokerLabel :: "Node \<Rightarrow> jsstr" where
  "kafka_brokerLabel n = (let id = kafka_nodeID n in
     if id = [] then node_name n else u ''broker-'' @ id)"

definition kafka_topicLabel :: "Destination \<Rightarrow> jsstr" where
  "kafka_topicLabel t = ref_name (dest_ref t)"

definition kafka_groupLabel :: "Subscription \<Rightarrow> jsstr" where
  "kafka_groupLabel g = sref_name (sub_ref g)"

definition kafka_node_alerts :: "AlertRulePrefs \<Rightarrow> Node \<Rightarrow> DerivedAlert list" where
  "kafka_node_alerts rules n = push_if (enabled rules brokerOffline \<and> node_status n = NodeOffline)
     ((alert (u ''broker-off-'' @ kafka_brokerLabel n) brokerOffline Crit
        [(''broker'', PStr (kafka_brokerLabel n)),
         (''address'', PStr (or_str (node_address n) em_dash)),
         (''role'', PStr (if kafka_isController n then u ''controller'' else u ''broker''))])
      \<lparr>al_since := or_undefined (node_lastSeen n)\<rparr>)"

definition kafka_topic_alert :: "jsstr \<Rightarrow> AlertRuleKey \<Rightarrow> AlertSeverity \<Rightarrow> Destination \<Rightarrow> jsnum \<Rightarrow> DerivedAlert" where
  "kafka_topic_alert prefix rule sev t n = alert (prefix @ kafka_topicLabel t) rule sev
     [(''topic'', PStr (kafka_topicLabel t)), (''count'', PNum n)]"

definition kafka_topic_alerts :: "AlertRulePrefs \<Rightarrow> Destination \<Rightarrow> DerivedAlert list" where
  "kafka_topic_alerts rules t =
    (let leaderless = kafka_leaderlessPartitions t;
         offline = kafka_offlinePartitions t;
         underReplicated = kafka_underReplicatedPartitions t
     in if enabled rules partitionLeaderless \<and> Fin 0 < leaderless then
          [kafka_topic_alert (u ''leaderless-'') partitionLeaderless Crit t leaderless]
        else if enabled rules partitionOffline \<and> Fin 0 < offline then
          [kafka_topic_alert (u ''offline-'') partitionOffline Crit t offline]
        else push_if (enabled rules partitionUnderReplicated \<and> Fin 0 < underReplicated)
          (kafka_topic_alert (u ''urp-'') partitionUnderReplicated Warn t underReplicated))"

definition kafka_group_alerts :: "AlertRulePrefs \<Rightarrow> jsnum \<Rightarrow> Subscription \<Rightarrow> DerivedAlert list" where
  "kafka_group_alerts rules lagThreshold g =
    (let lg = kafka_totalLag g in
     if enabled rules groupOffline \<and> kafka_isEmpty g \<and> \<not> kafka_hasMembers g
        \<and> Fin 0 < nullish lg (Fin 0) then
       [alert (u ''group-empty-'' @ kafka_groupLabel g) groupOffline Crit
          [(''group'', PStr (kafka_groupLabel g)), (''lag'', PNum (nullish lg (Fin 0)))]]
     else if_some lg (\<lambda>n.
       push_if (enabled rules groupLag \<and> Fin 0 < lagThreshold \<and> lagThreshold \<le> n)
         (alert (u ''group-lag-'' @ kafka_groupLabel g) groupLag
            (if num_mul lagThreshold (Fin 5) \<le> n then Crit else Warn)
            [(''group'', PStr (kafka_groupLabel g)), (''lag'', PNum n),
             (''threshold'', PNum lagThreshold)])))"

definition deriveKafkaAlerts :: derivation where
  "deriveKafkaAlerts facts rules th =
     for_each (nodes facts) (kafka_node_alerts rules)
     @ for_each (destinations facts) (kafka_topic_alerts rules)
     @ for_each (consumerGroups facts) (kafka_group_alerts rules (lag th))"

lemmas kafka_alert_defs = kafka_node_alerts_def kafka_topic_alerts_def kafka_topic_alert_def
  kafka_group_alerts_def Let_def

lemma kafka_alert_sound:
  assumes "a \<in> set (deriveKafkaAlerts f rules th)"
  shows "enabled rules (al_rule a) \<and> al_rule a \<in> set (rulesFor (Some KindKafka)) \<and> worded a"
  using assms by (auto simp: deriveKafkaAlerts_def kafka_alert_defs rulesFor_def)

interpretation kafka_rules: alert_family deriveKafkaAlerts
  by unfold_locales (simp_all add: kafka_alert_sound deriveKafkaAlerts_def)

interpretation kafka_rules: declared_family deriveKafkaAlerts KindKafka
  by unfold_locales (simp add: kafka_alert_sound)

interpretation kafka_rules: swept_family deriveKafkaAlerts KindKafka
  by unfold_locales (simp add: deriveKafkaAlerts_def KINDS_NEEDING_DESTINATIONS_def)

interpretation kafka_rules: worded_family deriveKafkaAlerts
  by unfold_locales (simp add: kafka_alert_sound)

interpretation kafka_rules: thresholded_family deriveKafkaAlerts
  by unfold_locales (auto simp: deriveKafkaAlerts_def kafka_alert_defs)

section \<open>What a topic raises\<close>

text \<open>One alert at most, of the worst thing that is wrong with it.\<close>

lemma kafka_topic_alerts_length: "length (kafka_topic_alerts rules t) \<le> 1"
  by (simp add: kafka_topic_alerts_def push_if_def Let_def)

lemma kafka_healthy_topic: "kafka_topicIsHealthy t \<Longrightarrow> kafka_topic_alerts rules t = []"
  by (simp add: kafka_topic_alerts_def kafka_topicIsHealthy_def Let_def)

section \<open>The properties of the rules\<close>

lemma kafka_topic_alerts_cases:
  assumes "enabled rules partitionLeaderless" "enabled rules partitionOffline" "enabled rules partitionUnderReplicated"
  shows "kafka_topic_alerts rules t =
    (if Fin 0 < kafka_leaderlessPartitions t then
       [kafka_topic_alert (u ''leaderless-'') partitionLeaderless Crit t (kafka_leaderlessPartitions t)]
     else if Fin 0 < kafka_offlinePartitions t then
       [kafka_topic_alert (u ''offline-'') partitionOffline Crit t (kafka_offlinePartitions t)]
     else if Fin 0 < kafka_underReplicatedPartitions t then
       [kafka_topic_alert (u ''urp-'') partitionUnderReplicated Warn t (kafka_underReplicatedPartitions t)]
     else [])"
  using assms by (simp add: kafka_topic_alerts_def Let_def push_if_def)

text \<open>
  With its rules on, a topic raises an alert exactly when the topics board calls it
  unhealthy, never more than one, and a critical one exactly when partitions are offline or
  without a leader.
\<close>

lemma kafka_alert_iff_unhealthy:
  assumes "enabled rules partitionLeaderless" "enabled rules partitionOffline" "enabled rules partitionUnderReplicated"
    and "Fin 0 \<le> kafka_leaderlessPartitions t" "Fin 0 \<le> kafka_offlinePartitions t"
    and "Fin 0 \<le> kafka_underReplicatedPartitions t"
  shows "(kafka_topicIsHealthy t \<longleftrightarrow> kafka_topic_alerts rules t = [])
    \<and> length (kafka_topic_alerts rules t) \<le> 1
    \<and> (map al_severity (kafka_topic_alerts rules t) = [Crit] \<longleftrightarrow>
         kafka_leaderlessPartitions t \<noteq> Fin 0 \<or> kafka_offlinePartitions t \<noteq> Fin 0)"
proof -
  have pos: "Fin 0 < x \<longleftrightarrow> x \<noteq> Fin 0" if "Fin 0 \<le> x" for x :: jsnum
    using that by (auto simp: less_eq_jsnum_def)
  show ?thesis
    by (simp add: kafka_topic_alerts_cases [OF assms(1-3)] pos [OF assms(4)] pos [OF assms(5)] pos [OF assms(6)]
        kafka_topicIsHealthy_def kafka_topic_alert_def)
qed

end
