(* ===== verification/RocketMQ_Alerts.thy ===== *)
theory RocketMQ_Alerts
  imports Alert_Family
begin

text \<open>
  RocketMQ: the readers of a broker, a consumer group and a topic (\<open>mq/rocketmq/nodes.ts\<close>,
  \<open>subscriptions.ts\<close>, \<open>destinations.ts\<close>) and the rules over them (\<open>mq/rocketmq/alerts.ts\<close>),
  which are also the rules of every family without its own.
\<close>

section \<open>Brokers\<close>

definition rocket_node_attr :: "Node \<Rightarrow> string \<Rightarrow> jsstr" where
  "rocket_node_attr n k = attr_str (node_attributes n) k"

definition rocket_node_numeric :: "Node \<Rightarrow> string \<Rightarrow> jsnum \<Rightarrow> jsnum" where
  "rocket_node_numeric n k fallback = or_fallback (parse_int (rocket_node_attr n k)) fallback"

definition rocket_brokerName :: "Node \<Rightarrow> jsstr" where
  "rocket_brokerName n = node_name n"

definition rocket_brokerId :: "Node \<Rightarrow> jsnum" where
  "rocket_brokerId n = rocket_node_numeric n ''brokerId'' (Fin 0)"

definition rocket_role :: "Node \<Rightarrow> jsstr" where
  "rocket_role n = or_str (rocket_node_attr n ''role'') (u ''MASTER'')"

definition rocket_msgInToday :: "Node \<Rightarrow> jsnum" where
  "rocket_msgInToday n = rocket_node_numeric n ''msgInToday'' (Fin 0)"

definition rocket_msgOutToday :: "Node \<Rightarrow> jsnum" where
  "rocket_msgOutToday n = rocket_node_numeric n ''msgOutToday'' (Fin 0)"

definition rocket_commitLogDiskUsage :: "Node \<Rightarrow> jsnum" where
  "rocket_commitLogDiskUsage n = node_diskUsage n"

definition rocket_consumeQueueDiskUsage :: "Node \<Rightarrow> jsnum" where
  "rocket_consumeQueueDiskUsage n = rocket_node_numeric n ''consumeQueueDiskUsage'' (Fin (- 1))"

section \<open>Consumer groups\<close>

definition rocket_group_attr :: "Subscription \<Rightarrow> string \<Rightarrow> jsstr" where
  "rocket_group_attr s k = attr_str (sub_attributes s) k"

definition rocket_group_numeric :: "Subscription \<Rightarrow> string \<Rightarrow> jsnum" where
  "rocket_group_numeric s k = or_fallback (parse_int (rocket_group_attr s k)) (Fin 0)"

definition rocket_groupName :: "Subscription \<Rightarrow> jsstr" where
  "rocket_groupName s = sref_name (sub_ref s)"

definition rocket_consumeMode :: "Subscription \<Rightarrow> jsstr option" where
  "rocket_consumeMode s = or_undefined (rocket_group_attr s ''consumeMode'')"

definition rocket_broadcastEnabled :: "Subscription \<Rightarrow> bool" where
  "rocket_broadcastEnabled s \<longleftrightarrow> rocket_group_attr s ''broadcastEnabled'' = u ''true''"

definition rocket_maxRetry :: "Subscription \<Rightarrow> jsnum" where
  "rocket_maxRetry s = rocket_group_numeric s ''maxRetry''"

definition rocket_dlqCount :: "Subscription \<Rightarrow> jsnum" where
  "rocket_dlqCount s = rocket_group_numeric s ''dlq''"

section \<open>Topics\<close>

definition rocket_dest_attr :: "Destination \<Rightarrow> string \<Rightarrow> jsstr" where
  "rocket_dest_attr d k = attr_str (dest_attributes d) k"

definition rocket_dest_numeric :: "Destination \<Rightarrow> string \<Rightarrow> jsnum" where
  "rocket_dest_numeric d k = or_fallback (parse_int (rocket_dest_attr d k)) (Fin (- 1))"

definition rocket_topicName :: "Destination \<Rightarrow> jsstr" where
  "rocket_topicName d = ref_name (dest_ref d)"

definition rocket_perm :: "Destination \<Rightarrow> jsstr" where
  "rocket_perm d = or_str (rocket_dest_attr d ''perm'') (u ''RW'')"

definition rocket_messageType :: "Destination \<Rightarrow> jsstr" where
  "rocket_messageType d = or_str (rocket_dest_attr d ''messageType'') (u ''Normal'')"

datatype TopicKind = TopicNormal | TopicFIFO | TopicDelay | TopicRetry | TopicDLQ

definition RETRY_PREFIXES :: "jsstr list" where
  "RETRY_PREFIXES = [u ''%RETRY%'', u ''RETRY%'']"

definition DLQ_PREFIXES :: "jsstr list" where
  "DLQ_PREFIXES = [u ''%DLQ%'', u ''DLQ%'']"

definition rocket_topicKind :: "Destination \<Rightarrow> TopicKind" where
  "rocket_topicKind d = (let name = rocket_topicName d; type = rocket_messageType d in
     if list_ex (starts_with name) RETRY_PREFIXES then TopicRetry
     else if list_ex (starts_with name) DLQ_PREFIXES then TopicDLQ
     else if type = u ''FIFO'' then TopicFIFO
     else if type = u ''Delay'' then TopicDelay
     else TopicNormal)"

definition rocket_destinationSpecAttributes :: "jsstr \<Rightarrow> jsnum \<Rightarrow> jsnum \<Rightarrow> jsstr \<Rightarrow> attributes" where
  "rocket_destinationSpecAttributes brokerAddr readQueue writeQueue perm =
     [(u ''brokerAddr'', brokerAddr), (u ''readQueue'', num_to_str readQueue),
      (u ''writeQueue'', num_to_str writeQueue), (u ''perm'', perm)]"

interpretation rocket_node: counting_reader node_attributes "\<lambda>n k. rocket_node_numeric n k (Fin 0)" "Fin 0"
  by unfold_locales (simp_all add: rocket_node_numeric_def rocket_node_attr_def or_fallback_not_NaN)

interpretation rocket_group: counting_reader sub_attributes rocket_group_numeric "Fin 0"
  by unfold_locales (simp_all add: rocket_group_numeric_def rocket_group_attr_def or_fallback_not_NaN)

interpretation rocket_dest: counting_reader dest_attributes rocket_dest_numeric "Fin (- 1)"
  by unfold_locales (simp_all add: rocket_dest_numeric_def rocket_dest_attr_def or_fallback_not_NaN)

section \<open>The rules\<close>

definition rocket_brokerLabel :: "Node \<Rightarrow> jsstr" where
  "rocket_brokerLabel n = (let ordinal = rocket_brokerId n in
     if ordinal \<noteq> Fin 0 then rocket_brokerName n @ u ''-'' @ num_to_str ordinal
     else rocket_brokerName n)"

definition rocket_offline_alerts :: "Node \<Rightarrow> DerivedAlert list" where
  "rocket_offline_alerts n = push_if (node_status n = NodeOffline)
     ((alert (u ''broker-off-'' @ rocket_brokerName n @ u ''-'' @ num_to_str (rocket_brokerId n))
        brokerOffline Crit
        [(''broker'', PStr (rocket_brokerLabel n)),
         (''address'', PStr (or_str (node_address n) em_dash))])
      \<lparr>al_since := or_undefined (node_lastSeen n)\<rparr>)"

definition rocket_group_alerts :: "AlertRulePrefs \<Rightarrow> jsnum \<Rightarrow> Subscription \<Rightarrow> DerivedAlert list" where
  "rocket_group_alerts rules lagThreshold g =
    (let lg = sub_backlog g; since = or_undefined (sub_lastUpdated g); dead = rocket_dlqCount g in
     (if Fin 0 < lagThreshold \<and> enabled rules groupOffline \<and> sub_status g = SubscriptionOffline
         \<and> lagThreshold < lg \<and> sub_members g = Fin 0 then
        [(alert (u ''group-off-'' @ rocket_groupName g) groupOffline Crit
            [(''group'', PStr (rocket_groupName g)), (''lag'', PNum lg)])\<lparr>al_since := since\<rparr>]
      else push_if (Fin 0 < lagThreshold \<and> enabled rules groupLag \<and> lagThreshold < lg)
        ((alert (u ''group-lag-'' @ rocket_groupName g) groupLag Warn
            [(''group'', PStr (rocket_groupName g)), (''lag'', PNum lg),
             (''threshold'', PNum lagThreshold)])\<lparr>al_since := since\<rparr>))
     @ push_if (enabled rules dlqGrowth \<and> Fin 0 < dead)
        (alert (u ''dlq-'' @ rocket_groupName g) dlqGrowth Info
           [(''group'', PStr (rocket_groupName g)), (''count'', PNum dead)]))"

text \<open>\<open>continue\<close> when \<open>usage < threshold\<close>, so that a usage that is NaN raises the alert.\<close>

definition rocket_disk_alerts :: "jsnum \<Rightarrow> Node \<Rightarrow> DerivedAlert list" where
  "rocket_disk_alerts diskThreshold n =
    (let usage = rocket_commitLogDiskUsage n in
     push_if (\<not> usage < diskThreshold)
      ((alert (u ''disk-'' @ rocket_brokerName n @ u ''-'' @ num_to_str (rocket_brokerId n)) diskUsage
          (if num_min (Fin 100) (num_add diskThreshold (Fin 15)) \<le> usage then Crit else Warn)
          [(''broker'', PStr (rocket_brokerLabel n)), (''usage'', PNum (num_round usage)),
           (''threshold'', PNum diskThreshold)])
       \<lparr>al_since := or_undefined (node_lastSeen n)\<rparr>))"

definition deriveRocketMQAlerts :: derivation where
  "deriveRocketMQAlerts facts rules th =
     (if enabled rules brokerOffline then for_each (nodes facts) rocket_offline_alerts else [])
     @ for_each (consumerGroups facts) (rocket_group_alerts rules (lag th))
     @ (if enabled rules diskUsage \<and> Fin 0 < disk th
        then for_each (nodes facts) (rocket_disk_alerts (disk th)) else [])"

lemmas rocket_alert_defs = rocket_offline_alerts_def rocket_group_alerts_def
  rocket_disk_alerts_def Let_def

lemma rocket_alert_sound:
  assumes "a \<in> set (deriveRocketMQAlerts f rules th)"
  shows "enabled rules (al_rule a) \<and> al_rule a \<in> set ROCKETMQ_RULES \<and> worded a"
  using assms by (auto simp: deriveRocketMQAlerts_def rocket_alert_defs ROCKETMQ_RULES_def)

interpretation rocket_rules: alert_family deriveRocketMQAlerts
  by unfold_locales (simp_all add: rocket_alert_sound deriveRocketMQAlerts_def)

interpretation rocket_rules: declared_family deriveRocketMQAlerts KindRocketMQ
  by unfold_locales (simp add: rocket_alert_sound rulesFor_def)

interpretation rocket_rules: swept_family deriveRocketMQAlerts KindRocketMQ
  by unfold_locales (simp add: deriveRocketMQAlerts_def)

interpretation rocket_rules: worded_family deriveRocketMQAlerts
  by unfold_locales (simp add: rocket_alert_sound)

interpretation rocket_rules: thresholded_family deriveRocketMQAlerts
  by unfold_locales (auto simp: deriveRocketMQAlerts_def rocket_alert_defs)

end
