(* ===== verification/MQTT_Alerts.thy ===== *)
theory MQTT_Alerts
  imports Alert_Family
begin

text \<open>
  MQTT: the readers of a client session and of the broker statistics (\<open>mq/mqtt/clients.ts\<close>,
  \<open>cluster.ts\<close>), the topic tree (\<open>destinations.ts\<close>) and the rules (\<open>alerts.ts\<close>). The
  comparison of two labels is the parameter \<open>cmp\<close>: \<open>localeCompare\<close> depends on the locale.

  The rules keep less of the contract than the other families' do. They read client
  connections, which the sweep does not fetch for this family, they raise two rules that the
  family's list of switches does not name, and a lag threshold of zero does not turn them off;
  the root theory states each of the three.
\<close>

section \<open>Client sessions\<close>

definition mqtt_attr :: "attributes \<Rightarrow> string \<Rightarrow> jsstr" where
  "mqtt_attr source k = attr_str source k"

definition mqtt_count :: "attributes \<Rightarrow> string \<Rightarrow> jsnum option" where
  "mqtt_count source k = (let raw = mqtt_attr source k in
     if raw = [] then None else or_null (parse_int raw))"

record MqttClientSession =
  ms_connected :: bool
  ms_durable :: bool
  ms_cleanStart :: bool
  ms_sessionExpirySec :: "jsnum option"
  ms_subscriptions :: "jsnum option"
  ms_inflight :: "jsnum option"
  ms_queued :: "jsnum option"
  ms_queueDropped :: "jsnum option"
  ms_listener :: jsstr
  ms_disconnectedAt :: jsstr

definition mqtt_clientSession :: "ClientConnection \<Rightarrow> MqttClientSession" where
  "mqtt_clientSession c = (let a = conn_attributes c in
     \<lparr>ms_connected = (conn_state c = u ''connected''),
      ms_durable = (mqtt_attr a ''durable'' = u ''true''),
      ms_cleanStart = (mqtt_attr a ''cleanStart'' = u ''true''),
      ms_sessionExpirySec = mqtt_count a ''sessionExpiry'',
      ms_subscriptions = mqtt_count a ''subscriptions'',
      ms_inflight = mqtt_count a ''inflight'',
      ms_queued = mqtt_count a ''queued'',
      ms_queueDropped = mqtt_count a ''queueDropped'',
      ms_listener = mqtt_attr a ''listener'',
      ms_disconnectedAt = mqtt_attr a ''disconnectedAt''\<rparr>)"

definition mqtt_isOrphanedSession :: "ClientConnection \<Rightarrow> bool" where
  "mqtt_isOrphanedSession c = (let session = mqtt_clientSession c in
     \<not> ms_connected session \<and> ms_durable session)"

interpretation mqtt_any: numeric_reader "\<lambda>a. a" mqtt_count
  by unfold_locales
    (auto simp: mqtt_count_def mqtt_attr_def Let_def dest: or_null_SomeD split: if_splits)

section \<open>Broker statistics\<close>

record MqttBrokerStats =
  mb_version :: jsstr
  mb_uptimeSeconds :: "jsnum option"
  mb_clientsConnected :: "jsnum option"
  mb_clientsTotal :: "jsnum option"
  mb_clientsMaximum :: "jsnum option"
  mb_subscriptions :: "jsnum option"
  mb_sharedSubscriptions :: "jsnum option"
  mb_retained :: "jsnum option"
  mb_messagesReceived :: "jsnum option"
  mb_messagesSent :: "jsnum option"
  mb_messagesDropped :: "jsnum option"
  mb_bytesReceived :: "jsnum option"
  mb_bytesSent :: "jsnum option"
  mb_heapBytes :: "jsnum option"
  mb_topics :: "jsnum option"

definition mqtt_brokerStats :: "ClusterOverview \<Rightarrow> MqttBrokerStats" where
  "mqtt_brokerStats overview = (let a = co_attributes overview in
     \<lparr>mb_version = mqtt_attr a ''brokerVersion'',
      mb_uptimeSeconds = mqtt_count a ''uptimeSeconds'',
      mb_clientsConnected = mqtt_count a ''clientsConnected'',
      mb_clientsTotal = mqtt_count a ''clientsTotal'',
      mb_clientsMaximum = mqtt_count a ''clientsMaximum'',
      mb_subscriptions =
        (if Fin 0 \<le> co_subscriptions overview then Some (co_subscriptions overview) else None),
      mb_sharedSubscriptions = mqtt_count a ''sharedSubscriptions'',
      mb_retained = mqtt_count a ''retainedCount'',
      mb_messagesReceived = mqtt_count a ''messagesReceived'',
      mb_messagesSent = mqtt_count a ''messagesSent'',
      mb_messagesDropped = mqtt_count a ''messagesDropped'',
      mb_bytesReceived = mqtt_count a ''bytesReceived'',
      mb_bytesSent = mqtt_count a ''bytesSent'',
      mb_heapBytes = mqtt_count a ''heapCurrent'',
      mb_topics =
        (if Fin 0 \<le> co_destinations overview then Some (co_destinations overview) else None)\<rparr>)"

text \<open>The raw status topics: one per line, the value after the first tab.\<close>

definition mqtt_sysTopics :: "ClusterOverview \<Rightarrow> (jsstr \<times> jsstr) list" where
  "mqtt_sysTopics overview = (let raw = mqtt_attr (co_attributes overview) ''sysTopics'' in
     if raw = [] then []
     else map (\<lambda>line. if 9 \<notin> set line then (line, [])
                else (takeWhile (\<lambda>c. c \<noteq> 9) line, tl (dropWhile (\<lambda>c. c \<noteq> 9) line)))
       (filter (\<lambda>line. line \<noteq> []) (split_on newline raw)))"

record MqttNodeDetail =
  mn_role :: jsstr
  mn_edition :: jsstr
  mn_connections :: "jsnum option"
  mn_liveConnections :: "jsnum option"
  mn_sessions :: "jsnum option"
  mn_memoryUsed :: jsstr
  mn_memoryTotal :: jsstr
  mn_load1 :: jsstr
  mn_uptimeSeconds :: "jsnum option"

definition mqtt_nodeDetail :: "Node \<Rightarrow> MqttNodeDetail" where
  "mqtt_nodeDetail n = (let a = node_attributes n in
     \<lparr>mn_role = mqtt_attr a ''nodeRole'',
      mn_edition = mqtt_attr a ''nodeEdition'',
      mn_connections = mqtt_count a ''nodeConnections'',
      mn_liveConnections = mqtt_count a ''nodeLiveConnections'',
      mn_sessions = mqtt_count a ''nodeSessions'',
      mn_memoryUsed = mqtt_attr a ''memoryUsed'',
      mn_memoryTotal = mqtt_attr a ''memoryTotal'',
      mn_load1 = mqtt_attr a ''load1'',
      mn_uptimeSeconds = mqtt_count a ''uptimeSeconds''\<rparr>)"

definition mqtt_formatUptimeSeconds :: "jsnum option \<Rightarrow> jsstr" where
  "mqtt_formatUptimeSeconds s = (case s of None \<Rightarrow> em_dash | Some seconds \<Rightarrow>
     if seconds < Fin 0 then em_dash
     else let days = num_floor (num_div seconds (Fin 86400));
              hours = num_floor (num_div (num_mod seconds (Fin 86400)) (Fin 3600));
              minutes = num_floor (num_div (num_mod seconds (Fin 3600)) (Fin 60))
       in if Fin 0 < days then num_to_str days @ u ''d '' @ num_to_str hours @ u ''h''
          else if Fin 0 < hours then num_to_str hours @ u ''h '' @ num_to_str minutes @ u ''m''
          else if Fin 0 < minutes then num_to_str minutes @ u ''m''
          else num_to_str seconds @ u ''s'')"

section \<open>The topic tree\<close>

record MqttTopic =
  mt_name :: jsstr
  mt_source :: jsstr
  mt_retainedBytes :: "jsnum option"
  mt_qos :: "jsnum option"
  mt_levels :: "jsstr list"

definition mqtt_topic :: "Destination \<Rightarrow> MqttTopic" where
  "mqtt_topic d = (let name = ref_name (dest_ref d) in
     \<lparr>mt_name = name,
      mt_source = mqtt_attr (dest_attributes d) ''source'',
      mt_retainedBytes = or_null (parse_int (mqtt_attr (dest_attributes d) ''retainedBytes'')),
      mt_qos = or_null (parse_int (mqtt_attr (dest_attributes d) ''qos'')),
      mt_levels = split_on slash name\<rparr>)"

datatype TopicNode =
  TopicNode (tn_label: jsstr) (tn_path: jsstr) (tn_children: "TopicNode list")
    (tn_topic: "MqttTopic option") (tn_total: int)

text \<open>
  One leaf's walk down the tree. \<open>path\<close> is the path walked so far, none before the first level;
  at each level the node with the label is visited, or pushed at the end when there is none.
\<close>

definition tn_join :: "jsstr option \<Rightarrow> jsstr \<Rightarrow> jsstr" where
  "tn_join path label = (case path of None \<Rightarrow> label | Some p \<Rightarrow> p @ u ''/'' @ label)"

function tn_put :: "jsstr option \<Rightarrow> jsstr list \<Rightarrow> MqttTopic \<Rightarrow> TopicNode list \<Rightarrow> TopicNode list" where
  "tn_put path [] leaf level = level"
| "tn_put path (label # rest) leaf [] =
     [TopicNode label (tn_join path label) (tn_put (Some (tn_join path label)) rest leaf [])
        (if rest = [] then Some leaf else None) 1]"
| "tn_put path (label # rest) leaf (n # ns) =
     (if tn_label n = label then
        TopicNode (tn_label n) (tn_path n)
          (tn_put (Some (tn_join path label)) rest leaf (tn_children n))
          (if rest = [] then Some leaf else tn_topic n) (tn_total n + 1) # ns
      else n # tn_put path (label # rest) leaf ns)"
  by pat_completeness auto
termination
  by (relation "measures [\<lambda>(p, ls, l, ns). length ls, \<lambda>(p, ls, l, ns). length ns]") auto

text \<open>Sorting by label, level by level.\<close>

fun tn_sort :: "(jsstr \<Rightarrow> jsstr \<Rightarrow> int) \<Rightarrow> TopicNode \<Rightarrow> TopicNode" where
  "tn_sort cmp (TopicNode label path children topic n) =
     TopicNode label path
       (sort_by (\<lambda>a b. cmp (tn_label a) (tn_label b)) (map (tn_sort cmp) children)) topic n"

definition mqtt_topicTree :: "(jsstr \<Rightarrow> jsstr \<Rightarrow> int) \<Rightarrow> MqttTopic list \<Rightarrow> TopicNode list" where
  "mqtt_topicTree cmp topics =
    (let roots = foldl (\<lambda>roots leaf. tn_put None (mt_levels leaf) leaf roots) [] topics
     in sort_by (\<lambda>a b. cmp (tn_label a) (tn_label b)) (map (tn_sort cmp) roots))"

lemma tn_sort_label [simp]: "tn_label (tn_sort cmp n) = tn_label n"
  by (cases n) simp

lemma tn_sort_total [simp]: "tn_total (tn_sort cmp n) = tn_total n"
  by (cases n) simp

lemma tn_put_total:
  "levels \<noteq> [] \<Longrightarrow> sum_list (map tn_total (tn_put path levels leaf level))
     = sum_list (map tn_total level) + 1"
  by (induction path levels leaf level rule: tn_put.induct) auto

lemma tn_put_labels:
  "levels \<noteq> [] \<Longrightarrow> tn_label ` set (tn_put path levels leaf level)
     = insert (hd levels) (tn_label ` set level)"
  by (induction path levels leaf level rule: tn_put.induct) auto

lemma tn_put_distinct:
  "distinct (map tn_label level) \<Longrightarrow> distinct (map tn_label (tn_put path levels leaf level))"
proof (induction path levels leaf level rule: tn_put.induct)
  case (3 path label rest leaf n ns)
  then show ?case
    using tn_put_labels [of "label # rest" path leaf ns] by auto
qed simp_all

lemma tn_roots_total:
  assumes "\<And>t. t \<in> set topics \<Longrightarrow> mt_levels t \<noteq> []"
  shows "sum_list (map tn_total (foldl (\<lambda>roots leaf. tn_put None (mt_levels leaf) leaf roots) roots topics))
    = sum_list (map tn_total roots) + int (length topics)"
  using assms by (induction topics arbitrary: roots) (simp_all add: tn_put_total)

section \<open>The rules\<close>

definition mqtt_sessionLabel :: "ClientConnection \<Rightarrow> jsstr" where
  "mqtt_sessionLabel c = conn_name c"

definition mqtt_node_alerts :: "AlertRulePrefs \<Rightarrow> Node \<Rightarrow> DerivedAlert list" where
  "mqtt_node_alerts rules n = push_if (enabled rules brokerOffline \<and> node_status n = NodeOffline)
     ((alert (u ''broker-off-'' @ node_name n) brokerOffline Crit
        [(''broker'', PStr (node_name n)), (''address'', PStr (or_str (node_address n) em_dash)),
         (''role'', PStr (u ''broker''))])
      \<lparr>al_since := or_undefined (node_lastSeen n)\<rparr>)"

definition mqtt_session_alerts :: "AlertRulePrefs \<Rightarrow> jsnum \<Rightarrow> ClientConnection \<Rightarrow> DerivedAlert list" where
  "mqtt_session_alerts rules lagThreshold c =
    (let session = mqtt_clientSession c;
         queued = nullish (ms_queued session) (Fin 0);
         dropped = nullish (ms_queueDropped session) (Fin 0);
         label = mqtt_sessionLabel c
     in (if enabled rules queueNoConsumer \<and> mqtt_isOrphanedSession c \<and> lagThreshold < queued then
           [alert (u ''session-idle-'' @ label) queueNoConsumer Crit
              [(''queue'', PStr label), (''lag'', PNum queued)]]
         else push_if (enabled rules queueBacklog \<and> lagThreshold < queued)
           (alert (u ''session-backlog-'' @ label) queueBacklog Warn
              [(''queue'', PStr label), (''lag'', PNum queued), (''threshold'', PNum lagThreshold)]))
        @ push_if (enabled rules queueBacklog \<and> Fin 0 < dropped)
           (alert (u ''session-dropped-'' @ label) queueBacklog Crit
              [(''queue'', PStr label), (''lag'', PNum dropped), (''threshold'', PNum (Fin 0))]))"

definition deriveMqttAlerts :: derivation where
  "deriveMqttAlerts facts rules th =
     for_each (nodes facts) (mqtt_node_alerts rules)
     @ for_each (connections facts) (mqtt_session_alerts rules (lag th))"

lemmas mqtt_alert_defs = mqtt_node_alerts_def mqtt_session_alerts_def Let_def

lemma mqtt_alert_sound:
  assumes "a \<in> set (deriveMqttAlerts f rules th)"
  shows "enabled rules (al_rule a) \<and> al_rule a \<in> {brokerOffline, queueNoConsumer, queueBacklog}
    \<and> worded a"
  using assms by (auto simp: deriveMqttAlerts_def mqtt_alert_defs)

interpretation mqtt_rules: alert_family deriveMqttAlerts
  by unfold_locales (simp_all add: mqtt_alert_sound deriveMqttAlerts_def)

interpretation mqtt_rules: worded_family deriveMqttAlerts
  by unfold_locales (simp add: mqtt_alert_sound)

text \<open>What the sweep leaves of the rules: the nodes.\<close>

lemma mqtt_swept_nodes_only:
  assumes "a \<in> set (deriveMqttAlerts (sweep_facts KindMQTT f) rules th)"
  shows "al_rule a = brokerOffline"
  using assms by (auto simp: deriveMqttAlerts_def mqtt_node_alerts_def)

section \<open>The properties of the topic tree\<close>

fun topic_at :: "jsstr list \<Rightarrow> TopicNode list \<Rightarrow> MqttTopic option" where
  "topic_at [] ns = None"
| "topic_at (label # rest) ns = (case find (\<lambda>n. tn_label n = label) ns of None \<Rightarrow> None
     | Some n \<Rightarrow> if rest = [] then tn_topic n else topic_at rest (tn_children n))"

lemma topic_at_Nil [simp]: "topic_at ls [] = None"
  by (cases ls) simp_all

lemma topic_at_put:
  "levels \<noteq> [] \<Longrightarrow> topic_at ls (tn_put path levels leaf level) =
     (if ls = levels then Some leaf else topic_at ls level)"
proof (induction path levels leaf level arbitrary: ls rule: tn_put.induct)
  case (2 path label rest leaf)
  show ?case
  proof (cases ls)
    case (Cons l ls')
    then show ?thesis using 2(1) [of ls'] by (cases "rest = []") auto
  qed simp
next
  case (3 path label rest leaf n ns)
  show ?case
  proof (cases ls)
    case (Cons l ls')
    show ?thesis
    proof (cases "tn_label n = label")
      case True
      then show ?thesis using 3(1) [OF True, of ls'] Cons by (cases "rest = []") auto
    next
      case False
      then show ?thesis using 3(2) [OF False, of ls] 3(2) [OF False, of "l # ls'"] Cons 
        by (cases "l = tn_label n") auto
    qed
  qed simp
qed simp

fun tn_wf :: "TopicNode \<Rightarrow> bool" where
  "tn_wf (TopicNode label path children topic n) \<longleftrightarrow>
     distinct (map tn_label children) \<and> list_all tn_wf children"

lemma tn_put_wf:
  "distinct (map tn_label level) \<Longrightarrow> list_all tn_wf level \<Longrightarrow> list_all tn_wf (tn_put path levels leaf level)"
proof (induction path levels leaf level rule: tn_put.induct)
  case (2 path label rest leaf)
  then show ?case using tn_put_distinct [of "[]"] by simp
next
  case (3 path label rest leaf n ns)
  then show ?case using tn_put_distinct [of "tn_children n"] by (cases n) auto
qed simp

lemma find_label_perm:
  assumes "mset ms = mset ns" and "distinct (map tn_label ns)"
  shows "find (\<lambda>n. tn_label n = l) ms = find (\<lambda>n. tn_label n = l) ns"
proof -
  have s: "set ms = set ns" by (rule mset_eq_setD [OF assms(1)])
  have inj: "x = y" if "x \<in> set ns" "y \<in> set ns" "tn_label x = tn_label y" for x y
    using assms(2) that by (auto simp: distinct_map dest: inj_onD)
  show ?thesis
  proof (cases "find (\<lambda>n. tn_label n = l) ns")
    case None
    then have "find (\<lambda>n. tn_label n = l) ms = None" using s by (simp add: find_None_iff)
    then show ?thesis using None by simp
  next
    case (Some x)
    then have x: "x \<in> set ns" "tn_label x = l" by (auto simp: find_Some_iff)
    then have "find (\<lambda>n. tn_label n = l) ms \<noteq> None" using s by (auto simp: find_None_iff)
    then obtain y where y: "find (\<lambda>n. tn_label n = l) ms = Some y" by blast
    then have "y \<in> set ms" "tn_label y = l" by (auto simp: find_Some_iff)
    then have "y = x" using inj [of y x] x s by simp
    then show ?thesis using Some y by simp
  qed
qed

lemma find_map_sort: "find (\<lambda>n. tn_label n = l) (map (tn_sort cmp) ns) =
   map_option (tn_sort cmp) (find (\<lambda>n. tn_label n = l) ns)"
  by (induction ns) simp_all

lemma topic_at_sorted:
  "distinct (map tn_label ns) \<Longrightarrow> list_all tn_wf ns \<Longrightarrow>
   topic_at ls (sort_by c (map (tn_sort cmp) ns)) = topic_at ls ns"
proof (induction ls arbitrary: ns c)
  case (Cons l ls)
  have d: "distinct (map tn_label (map (tn_sort cmp) ns))"
    using Cons.prems(1) by (simp add: comp_def)
  have f: "find (\<lambda>n. tn_label n = l) (sort_by c (map (tn_sort cmp) ns)) =
      map_option (tn_sort cmp) (find (\<lambda>n. tn_label n = l) ns)"
    using find_label_perm [OF mset_sort_by d] by (simp add: find_map_sort)
  show ?case
  proof (cases "find (\<lambda>n. tn_label n = l) ns")
    case None
    then show ?thesis using f by simp
  next
    case (Some n)
    then have "tn_wf n" using Cons.prems(2) by (auto simp: find_Some_iff list_all_length)
    then show ?thesis using f Some Cons.IH [of "tn_children n"] by (cases n) simp
  qed
qed simp

lemma tn_roots_wf:
  assumes "\<And>t. t \<in> set topics \<Longrightarrow> mt_levels t \<noteq> []"
    and "distinct (map tn_label roots)" and "list_all tn_wf roots"
  shows "distinct (map tn_label (foldl (\<lambda>roots leaf. tn_put None (mt_levels leaf) leaf roots) roots topics))
    \<and> list_all tn_wf (foldl (\<lambda>roots leaf. tn_put None (mt_levels leaf) leaf roots) roots topics)"
  using assms by (induction topics arbitrary: roots) (simp_all add: tn_put_distinct tn_put_wf)

lemma topic_at_roots:
  assumes "\<And>t. t \<in> set topics \<Longrightarrow> mt_levels t \<noteq> []" and "distinct (map mt_levels topics)"
  shows "topic_at ls (foldl (\<lambda>roots leaf. tn_put None (mt_levels leaf) leaf roots) roots topics) =
    (case find (\<lambda>t. mt_levels t = ls) topics of Some t \<Rightarrow> Some t | None \<Rightarrow> topic_at ls roots)"
  using assms
proof (induction topics arbitrary: roots)
  case (Cons t topics)
  have n: "find (\<lambda>t'. mt_levels t' = mt_levels t) topics = None"
    using Cons.prems(2) by (auto simp: find_None_iff image_iff)
  show ?case using Cons n by (auto simp: topic_at_put split: option.splits)
qed simp

lemma mqtt_levels: "mt_levels (mqtt_topic d) = split_on slash (ref_name (dest_ref d))"
  by (simp add: mqtt_topic_def Let_def)

lemma split_on_inj: "split_on c s = split_on c t \<longleftrightarrow> s = t"
  by (metis join_split)

text \<open>
  C39: The topic tree loses nothing and invents nothing: walking the levels of a name finds the
  leaf of that name or nothing when there is none, the totals at the top add up to the number
  of topics, and no label stands twice at the top. The names of the topics listed are distinct.
\<close>

theorem topic_tree_complete:
  assumes "distinct (map (\<lambda>d. ref_name (dest_ref d)) ds)"
    and "tree = mqtt_topicTree cmp (map mqtt_topic ds)"
  shows "(\<forall>name. topic_at (split_on slash name) tree =
       map_option mqtt_topic (find (\<lambda>d. ref_name (dest_ref d) = name) ds))
    \<and> sum_list (map tn_total tree) = int (length ds) \<and> distinct (map tn_label tree)"
proof -
  define topics where "topics = map mqtt_topic ds"
  define roots where "roots = foldl (\<lambda>roots leaf. tn_put None (mt_levels leaf) leaf roots) [] topics"
  have ne: "mt_levels t \<noteq> []" if "t \<in> set topics" for t
    using that by (auto simp: topics_def mqtt_levels)
  have wf: "distinct (map tn_label roots)" "list_all tn_wf roots"
    using tn_roots_wf [of topics "[]"] ne by (simp_all add: roots_def)
  have tree: "tree = sort_by (\<lambda>a b. cmp (tn_label a) (tn_label b)) (map (tn_sort cmp) roots)"
    by (simp add: assms(2) mqtt_topicTree_def roots_def topics_def)
  have dl: "distinct (map mt_levels topics)"
    using assms(1) by (simp add: topics_def comp_def mqtt_levels distinct_map inj_on_def split_on_inj)
  have fnd: "find (\<lambda>t. mt_levels t = split_on slash name) (map mqtt_topic xs) =
      map_option mqtt_topic (find (\<lambda>d. ref_name (dest_ref d) = name) xs)" for name xs
    by (induction xs) (simp_all add: mqtt_levels split_on_inj)
  have "topic_at (split_on slash name) tree = map_option mqtt_topic (find (\<lambda>d. ref_name (dest_ref d) = name) ds)" for name
    using topic_at_roots [OF ne dl, of "split_on slash name" "[]"]
    by (simp add: tree topic_at_sorted [OF wf] roots_def [symmetric])
      (simp add: topics_def fnd split: option.splits)
  moreover have "sum_list (map tn_total tree) = int (length ds)"
    using tn_roots_total [OF ne, of topics "[]"]
    by (simp add: tree sum_list_sort_by comp_def roots_def topics_def)
  moreover have "mset (map tn_label tree) = mset (map tn_label roots)"
    by (simp only: tree mset_map mset_sort_by) (simp add: image_mset.compositionality comp_def)
  then have "distinct (map tn_label tree)" using wf(1) by (metis mset_eq_imp_distinct_iff)
  ultimately show ?thesis by blast
qed

theorem topic_tree_complete_witness:
  "sum_list (map tn_total (mqtt_topicTree (\<lambda>_ _. 0) (map mqtt_topic
      [sample_destination ''a/b'' (Fin 0) [], sample_destination ''a'' (Fin 0) []]))) = 2"
  using topic_tree_complete [of "[sample_destination ''a/b'' (Fin 0) [], sample_destination ''a'' (Fin 0) []]" _ "\<lambda>_ _. 0"]
  by simp

end
