(* ===== verification/Pulsar_Alerts.thy ===== *)
theory Pulsar_Alerts
  imports Alert_Family
begin

text \<open>
  Pulsar: the readers of a broker, a subscription and a topic (\<open>mq/pulsar/attributes.ts\<close>,
  \<open>cluster.ts\<close>, \<open>subscriptions.ts\<close>, \<open>destinations.ts\<close>), the name checks, and the rules
  (\<open>alerts.ts\<close>).
\<close>

definition pulsar_attr :: "attributes \<Rightarrow> string \<Rightarrow> jsstr" where
  "pulsar_attr source k = attr_str source k"

definition pulsar_count :: "attributes \<Rightarrow> string \<Rightarrow> jsnum option" where
  "pulsar_count source k = (let raw = pulsar_attr source k in
     if raw = [] then None else or_null (parse_int raw))"

interpretation pulsar_any: numeric_reader "\<lambda>a. a" pulsar_count
  by unfold_locales
    (auto simp: pulsar_count_def pulsar_attr_def Let_def dest: or_null_SomeD split: if_splits)

section \<open>Brokers\<close>

definition pulsar_isLeader :: "Node \<Rightarrow> bool" where
  "pulsar_isLeader n \<longleftrightarrow> pulsar_attr (node_attributes n) ''pulsarLeader'' = u ''true''"

definition pulsar_memoryPercent :: "Node \<Rightarrow> jsnum option" where
  "pulsar_memoryPercent n = pulsar_count (node_attributes n) ''pulsarMemoryPercent''"

definition pulsar_directMemoryPercent :: "Node \<Rightarrow> jsnum option" where
  "pulsar_directMemoryPercent n = pulsar_count (node_attributes n) ''pulsarDirectMemoryPercent''"

definition pulsar_isDescribed :: "Node \<Rightarrow> bool" where
  "pulsar_isDescribed n \<longleftrightarrow> pulsar_attr (node_attributes n) ''pulsarBrokerVersion'' \<noteq> []"

section \<open>Subscriptions\<close>

definition pulsar_topicOf :: "Subscription \<Rightarrow> jsstr" where
  "pulsar_topicOf s = or_str (sref_namespace (sub_ref s))
     (pulsar_attr (sub_attributes s) ''pulsarSubscriptionTopic'')"

text \<open>The part after the last slash; splitting never gives an empty list.\<close>

definition pulsar_shortTopicOf :: "Subscription \<Rightarrow> jsstr" where
  "pulsar_shortTopicOf s = last (split_on slash (pulsar_topicOf s))"

definition pulsar_isBlocked :: "Subscription \<Rightarrow> bool" where
  "pulsar_isBlocked s \<longleftrightarrow> pulsar_attr (sub_attributes s) ''pulsarSubscriptionBlocked'' = u ''true''"

definition pulsar_isDurable :: "Subscription \<Rightarrow> bool" where
  "pulsar_isDurable s \<longleftrightarrow> pulsar_attr (sub_attributes s) ''pulsarSubscriptionDurable'' \<noteq> u ''false''"

definition pulsar_unackedCount :: "Subscription \<Rightarrow> jsnum option" where
  "pulsar_unackedCount s = pulsar_count (sub_attributes s) ''pulsarSubscriptionUnacked''"

section \<open>Names\<close>

text \<open>
  The validators return the key of a translated message, or null for a name the broker takes.
  The translation function is the parameter \<open>t\<close>.
\<close>

definition pulsar_validateSubscriptionName :: "jsstr \<Rightarrow> (jsstr \<Rightarrow> jsstr) \<Rightarrow> jsstr option" where
  "pulsar_validateSubscriptionName name t = (let trimmed = trim name in
     if trimmed = [] then Some (t (u ''board.consumers.pulsar.nameRequired''))
     else if list_ex (\<lambda>c. is_ws c \<or> c = slash) trimmed
       then Some (t (u ''board.consumers.pulsar.nameInvalid''))
     else None)"

text \<open>\<open>/-partition-\d+$/\<close>: the trailing digits, at least one, after the literal.\<close>

definition pulsar_partition_suffix :: "jsstr \<Rightarrow> bool" where
  "pulsar_partition_suffix s = (let r = rev s; ds = takeWhile is_digit r in
     ds \<noteq> [] \<and> starts_with (dropWhile is_digit r) (rev (u ''-partition-'')))"

definition pulsar_validateTopicName :: "jsstr \<Rightarrow> (jsstr \<Rightarrow> jsstr) \<Rightarrow> jsstr option" where
  "pulsar_validateTopicName name t = (let trimmed = trim name in
     if trimmed = [] then Some (t (u ''board.topics.pulsar.nameRequired''))
     else if includes_str trimmed (u ''://'') then Some (t (u ''board.topics.pulsar.nameScheme''))
     else if starts_with trimmed (u ''/'') \<or> ends_with trimmed (u ''/'')
       then Some (t (u ''board.topics.pulsar.nameSlash''))
     else if pulsar_partition_suffix trimmed
       then Some (t (u ''board.topics.pulsar.namePartitionSuffix''))
     else None)"

text \<open>A partition count, or \<open>None\<close> for the error. Only the number's own spelling is accepted.\<close>

definition pulsar_parsePartitions :: "jsstr \<Rightarrow> jsnum option" where
  "pulsar_parsePartitions raw = (let trimmed = trim raw in
     if trimmed = [] then Some (Fin 0)
     else let value = parse_int trimmed in
       if value = NaN \<or> value < Fin 0 \<or> num_to_str value \<noteq> trimmed then None else Some value)"

definition pulsar_isPersistent :: "Destination \<Rightarrow> bool" where
  "pulsar_isPersistent d \<longleftrightarrow> pulsar_attr (dest_attributes d) ''pulsarPersistent'' \<noteq> u ''false''"

definition pulsar_topicURL :: "Destination \<Rightarrow> jsstr" where
  "pulsar_topicURL d = (if pulsar_isPersistent d then u ''persistent'' else u ''non-persistent'')
     @ u ''://'' @ ref_namespace (dest_ref d) @ u ''/'' @ ref_name (dest_ref d)"

lemma pulsar_parsed_partitions:
  "pulsar_parsePartitions raw = Some v \<Longrightarrow> trim raw \<noteq> [] \<Longrightarrow> num_to_str v = trim raw \<and> Fin 0 \<le> v"
  using jsnum_not_less [of v "Fin 0"]
  by (auto simp: pulsar_parsePartitions_def Let_def split: if_splits)

section \<open>The rules\<close>

definition pulsar_subscriptionLabel :: "Subscription \<Rightarrow> jsstr" where
  "pulsar_subscriptionLabel s = pulsar_shortTopicOf s @ u ''/'' @ sref_name (sub_ref s)"

definition pulsar_sub_alerts :: "AlertRulePrefs \<Rightarrow> jsnum \<Rightarrow> Subscription \<Rightarrow> DerivedAlert list" where
  "pulsar_sub_alerts rules lagThreshold s =
    (let label = pulsar_subscriptionLabel s; since = or_undefined (sub_lastUpdated s);
         backlog = sub_backlog s
     in if enabled rules subscriptionBlocked \<and> pulsar_isBlocked s then
          [(alert (u ''sub-blocked-'' @ label) subscriptionBlocked Crit
             [(''subscription'', PStr label),
              (''unacked'', PNum (nullish (pulsar_unackedCount s) (Fin 0)))])\<lparr>al_since := since\<rparr>]
        else if enabled rules groupOffline \<and> sub_members s = Fin 0 \<and> Fin 0 < backlog then
          [(alert (u ''sub-idle-'' @ label) groupOffline Warn
             [(''group'', PStr label), (''lag'', PNum backlog)])\<lparr>al_since := since\<rparr>]
        else push_if (enabled rules groupLag \<and> Fin 0 < lagThreshold \<and> Fin 0 < sub_members s
               \<and> lagThreshold \<le> backlog)
          ((alert (u ''sub-lag-'' @ label) groupLag Warn
             [(''group'', PStr label), (''lag'', PNum backlog), (''threshold'', PNum lagThreshold)])
           \<lparr>al_since := since\<rparr>))"

definition pulsar_worstMemory :: "Node \<Rightarrow> jsnum option" where
  "pulsar_worstMemory n = (let heap = pulsar_memoryPercent n; direct = pulsar_directMemoryPercent n in
     if heap = None \<and> direct = None then None
     else Some (num_max (nullish heap (Fin 0)) (nullish direct (Fin 0))))"

definition pulsar_node_alerts :: "jsnum \<Rightarrow> Node \<Rightarrow> DerivedAlert list" where
  "pulsar_node_alerts diskThreshold n = if_some (pulsar_worstMemory n) (\<lambda>worst.
     push_if (diskThreshold \<le> worst)
       ((alert (u ''mem-'' @ node_address n) memoryUsage (if Fin 95 \<le> worst then Crit else Warn)
          [(''broker'', PStr (node_address n)), (''usage'', PNum worst),
           (''threshold'', PNum diskThreshold)])
        \<lparr>al_since := or_undefined (node_lastSeen n)\<rparr>))"

definition derivePulsarAlerts :: derivation where
  "derivePulsarAlerts facts rules th =
     for_each (consumerGroups facts) (pulsar_sub_alerts rules (lag th))
     @ (if enabled rules memoryUsage \<and> Fin 0 < disk th
        then for_each (nodes facts) (pulsar_node_alerts (disk th)) else [])"

lemmas pulsar_alert_defs = pulsar_sub_alerts_def pulsar_node_alerts_def Let_def

lemma pulsar_alert_sound:
  assumes "a \<in> set (derivePulsarAlerts f rules th)"
  shows "enabled rules (al_rule a) \<and> al_rule a \<in> set (rulesFor (Some KindPulsar)) \<and> worded a"
  using assms by (auto simp: derivePulsarAlerts_def pulsar_alert_defs rulesFor_def)

interpretation pulsar_rules: alert_family derivePulsarAlerts
  by unfold_locales (simp_all add: pulsar_alert_sound derivePulsarAlerts_def)

interpretation pulsar_rules: declared_family derivePulsarAlerts KindPulsar
  by unfold_locales (simp add: pulsar_alert_sound)

interpretation pulsar_rules: swept_family derivePulsarAlerts KindPulsar
  by unfold_locales (simp add: derivePulsarAlerts_def)

interpretation pulsar_rules: worded_family derivePulsarAlerts
  by unfold_locales (simp add: pulsar_alert_sound)

interpretation pulsar_rules: thresholded_family derivePulsarAlerts
  by unfold_locales (auto simp: derivePulsarAlerts_def pulsar_alert_defs)

end
