(* ===== verification/Redis_Alerts.thy ===== *)
theory Redis_Alerts
  imports Alert_Family
begin

text \<open>
  Redis Streams: the readers of a server, a consumer group and a stream (\<open>mq/redis/nodes.ts\<close>,
  \<open>subscriptions.ts\<close>, \<open>destinations.ts\<close>) and the rules (\<open>alerts.ts\<close>). The rules name the
  server \<open>node\<close> in their parameters, where the sentences of the rules they raise ask for
  \<open>broker\<close>, so this family does not keep the contract on words; the root theory states it.
\<close>

section \<open>Servers\<close>

definition redis_attr :: "attributes \<Rightarrow> string \<Rightarrow> jsstr option" where
  "redis_attr a k = text_attr a k"

definition redis_node_number :: "Node \<Rightarrow> string \<Rightarrow> jsnum option" where
  "redis_node_number n k = finite_reading (redis_attr (node_attributes n) k)"

definition redis_usedMemoryBytes :: "Node \<Rightarrow> jsnum option" where
  "redis_usedMemoryBytes n = redis_node_number n ''usedMemory''"

definition redis_maxMemoryBytes :: "Node \<Rightarrow> jsnum option" where
  "redis_maxMemoryBytes n = (case redis_node_number n ''maxMemory'' of None \<Rightarrow> None
     | Some value \<Rightarrow> if value = Fin 0 then None else Some value)"

definition redis_memoryUsagePercent :: "Node \<Rightarrow> jsnum option" where
  "redis_memoryUsagePercent n = (case (redis_usedMemoryBytes n, redis_maxMemoryBytes n) of
     (Some used, Some mx) \<Rightarrow>
        Some (num_min (Fin 100) (num_round (num_mul (num_div used mx) (Fin 100))))
   | _ \<Rightarrow> None)"

definition redis_hitRatePercent :: "Node \<Rightarrow> jsnum option" where
  "redis_hitRatePercent n =
    (case (redis_node_number n ''keyspaceHits'', redis_node_number n ''keyspaceMisses'') of
       (Some hits, Some misses) \<Rightarrow> (let total = num_add hits misses in
          if total = Fin 0 then None
          else Some (num_div (num_round (num_mul (num_div hits total) (Fin 1000))) (Fin 10)))
     | _ \<Rightarrow> None)"

definition redis_lastSaveUnix :: "Node \<Rightarrow> jsnum option" where
  "redis_lastSaveUnix n = (case redis_node_number n ''rdbLastSaveTime'' of None \<Rightarrow> None
     | Some value \<Rightarrow> if value = Fin 0 then None else Some value)"

definition redis_persistenceHealthy :: "Node \<Rightarrow> bool option" where
  "redis_persistenceHealthy n =
    (let snapshot = redis_attr (node_attributes n) ''rdbLastBgsaveStatus'';
         rewrite = redis_attr (node_attributes n) ''aofLastRewriteStatus''
     in if snapshot = None \<and> rewrite = None then None
        else Some (snapshot \<noteq> Some (u ''err'') \<and> rewrite \<noteq> Some (u ''err'')))"

definition redis_assignedSlots :: "ClusterOverview \<Rightarrow> jsnum option" where
  "redis_assignedSlots overview = int_reading (redis_attr (co_attributes overview) ''clusterSlots'')"

definition TOTAL_SLOTS :: jsnum where
  "TOTAL_SLOTS = Fin 16384"

definition redis_slotsIncomplete :: "ClusterOverview \<Rightarrow> bool" where
  "redis_slotsIncomplete overview = (case redis_assignedSlots overview of None \<Rightarrow> False
     | Some assigned \<Rightarrow> assigned < TOTAL_SLOTS)"

definition redis_formatUptime :: "jsnum \<Rightarrow> jsstr" where
  "redis_formatUptime seconds =
    (if seconds < Fin 60 then num_to_str (num_max (Fin 0) (num_round seconds)) @ u ''s''
     else let minutes = num_div seconds (Fin 60) in
       if minutes < Fin 60 then num_to_str (num_round minutes) @ u ''m''
       else let hours = num_div minutes (Fin 60) in
         if hours < Fin 48 then num_to_str (num_round hours) @ u ''h''
         else num_to_str (num_round (num_div hours (Fin 24))) @ u ''d'')"

section \<open>Consumer groups\<close>

definition redis_group_number :: "Subscription \<Rightarrow> string \<Rightarrow> jsnum option" where
  "redis_group_number s k = int_reading (redis_attr (sub_attributes s) k)"

definition redis_groupName :: "Subscription \<Rightarrow> jsstr" where
  "redis_groupName s = sref_name (sub_ref s)"

definition redis_groupStream :: "Subscription \<Rightarrow> jsstr" where
  "redis_groupStream s =
     or_str (sref_namespace (sub_ref s)) (nullish (redis_attr (sub_attributes s) ''stream'') [])"

definition redis_pending :: "Subscription \<Rightarrow> jsnum option" where
  "redis_pending s = redis_group_number s ''pending''"

definition redis_lag :: "Subscription \<Rightarrow> jsnum option" where
  "redis_lag s = (if sub_backlog s = Fin (- 1) then None else Some (sub_backlog s))"

datatype GroupHealth = Consuming | Stalled | Idle

definition redis_health :: "Subscription \<Rightarrow> GroupHealth" where
  "redis_health s = (if Fin 0 < sub_members s then Consuming
     else if Fin 0 < nullish (redis_pending s) (Fin 0) then Stalled else Idle)"

section \<open>Streams\<close>

definition redis_dest_number :: "Destination \<Rightarrow> string \<Rightarrow> jsnum option" where
  "redis_dest_number d k = int_reading (redis_attr (dest_attributes d) k)"

definition redis_groupNames :: "Destination \<Rightarrow> jsstr list" where
  "redis_groupNames d = (case redis_attr (dest_attributes d) ''groupNames'' of None \<Rightarrow> []
     | Some raw \<Rightarrow> filter (\<lambda>name. name \<noteq> []) (split_on comma raw))"

definition redis_trimmedAway :: "Destination \<Rightarrow> jsnum option" where
  "redis_trimmedAway d = (case redis_dest_number d ''entriesAdded'' of None \<Rightarrow> None
     | Some added \<Rightarrow> let dropped = num_sub added (dest_depth d) in
         Some (if Fin 0 < dropped then dropped else Fin 0))"

section \<open>What the readers promise\<close>

interpretation redis_node: numeric_reader node_attributes redis_node_number
  by unfold_locales (auto simp: redis_node_number_def redis_attr_def dest: reading_not_NaN)

interpretation redis_group: numeric_reader sub_attributes redis_group_number
  by unfold_locales (auto simp: redis_group_number_def redis_attr_def dest: reading_not_NaN)

interpretation redis_dest: numeric_reader dest_attributes redis_dest_number
  by unfold_locales (auto simp: redis_dest_number_def redis_attr_def dest: reading_not_NaN)

section \<open>The rules\<close>

definition redis_serverLabel :: "Node \<Rightarrow> jsstr" where
  "redis_serverLabel n = (if node_address n = [] then node_name n else node_address n)"

definition redis_groupLabel :: "Subscription \<Rightarrow> jsstr" where
  "redis_groupLabel s = redis_groupStream s @ u '' / '' @ redis_groupName s"

definition redis_node_alerts :: "AlertRulePrefs \<Rightarrow> jsnum \<Rightarrow> Node \<Rightarrow> DerivedAlert list" where
  "redis_node_alerts rules memoryThreshold n =
    (let label = redis_serverLabel n in
     push_if (enabled rules brokerOffline \<and> node_status n = NodeOffline)
       (alert (u ''redis-off-'' @ label) brokerOffline Crit [(''node'', PStr label)])
     @ push_if (enabled rules resourceAlarm \<and> redis_persistenceHealthy n = Some False)
       (alert (u ''redis-save-'' @ label) resourceAlarm Crit [(''node'', PStr label)])
     @ if_some (redis_memoryUsagePercent n) (\<lambda>usage.
         push_if (enabled rules memoryUsage \<and> Fin 0 < memoryThreshold \<and> memoryThreshold \<le> usage)
           (alert (u ''redis-mem-'' @ label) memoryUsage (if Fin 95 \<le> usage then Crit else Warn)
              [(''node'', PStr label), (''usage'', PNum usage)])))"

definition redis_group_alerts :: "AlertRulePrefs \<Rightarrow> jsnum \<Rightarrow> Subscription \<Rightarrow> DerivedAlert list" where
  "redis_group_alerts rules lagThreshold g =
    (let label = redis_groupLabel g in
     push_if (enabled rules groupOffline \<and> redis_health g = Stalled)
       (alert (u ''redis-stalled-'' @ label) groupOffline Warn
          [(''group'', PStr label), (''pending'', PNum (nullish (redis_pending g) (Fin 0)))])
     @ if_some (redis_lag g) (\<lambda>behind.
         push_if (enabled rules groupLag \<and> Fin 0 < lagThreshold \<and> lagThreshold \<le> behind)
           (alert (u ''redis-lag-'' @ label) groupLag Warn
              [(''group'', PStr label), (''lag'', PNum behind)])))"

definition deriveRedisAlerts :: derivation where
  "deriveRedisAlerts facts rules th =
     for_each (nodes facts) (redis_node_alerts rules (disk th))
     @ for_each (consumerGroups facts) (redis_group_alerts rules (lag th))"

lemmas redis_alert_defs = redis_node_alerts_def redis_group_alerts_def Let_def

lemma redis_alert_sound:
  assumes "a \<in> set (deriveRedisAlerts f rules th)"
  shows "enabled rules (al_rule a) \<and> al_rule a \<in> set (rulesFor (Some KindRedisStream))"
  using assms by (auto simp: deriveRedisAlerts_def redis_alert_defs rulesFor_def)

interpretation redis_rules: alert_family deriveRedisAlerts
  by unfold_locales (simp_all add: redis_alert_sound deriveRedisAlerts_def)

interpretation redis_rules: declared_family deriveRedisAlerts KindRedisStream
  by unfold_locales (simp add: redis_alert_sound)

interpretation redis_rules: swept_family deriveRedisAlerts KindRedisStream
  by unfold_locales (simp add: deriveRedisAlerts_def)

interpretation redis_rules: thresholded_family deriveRedisAlerts
  by unfold_locales (auto simp: deriveRedisAlerts_def redis_alert_defs)

text \<open>A memory figure is a share of the server's own cap: never NaN and at most 100.\<close>

lemma redis_node_finite: "redis_node_number n k = Some v \<Longrightarrow> is_finite v"
  by (auto simp: redis_node_number_def finite_reading_def Let_def split: option.splits if_splits)

lemma redis_usage_le_100:
  assumes "redis_memoryUsagePercent n = Some v"
  shows "v \<le> Fin 100"
proof -
  obtain a b where "redis_usedMemoryBytes n = Some a" "redis_maxMemoryBytes n = Some b"
      and v: "v = num_min (Fin 100) (num_round (num_mul (num_div a b) (Fin 100)))"
    using assms by (auto simp: redis_memoryUsagePercent_def split: option.splits)
  then have "is_finite a" "is_finite b" "b \<noteq> Fin 0"
    by (auto simp: redis_usedMemoryBytes_def redis_maxMemoryBytes_def redis_node_finite
        split: option.splits if_splits)
  then show ?thesis unfolding v by (intro num_min_cap) (simp add: num_div_NaN)
qed

end
