(* ===== verification/NATS_Alerts.thy ===== *)
theory NATS_Alerts
  imports Alert_Family
begin

text \<open>
  NATS: the readers of a JetStream stream, a consumer and a server (\<open>mq/nats/destinations.ts\<close>,
  \<open>subscriptions.ts\<close>, \<open>cluster.ts\<close>) and the rules (\<open>alerts.ts\<close>).
\<close>

definition nats_attr :: "attributes \<Rightarrow> string \<Rightarrow> jsstr option" where
  "nats_attr a k = text_attr a k"

text \<open>A comma-separated list with its blanks trimmed and its empty parts dropped.\<close>

definition nats_names :: "jsstr option \<Rightarrow> jsstr list" where
  "nats_names raw = (case raw of None \<Rightarrow> []
     | Some r \<Rightarrow> filter (\<lambda>s. s \<noteq> []) (map trim (split_on comma r)))"

section \<open>Streams\<close>

definition nats_dest_number :: "Destination \<Rightarrow> string \<Rightarrow> jsnum option" where
  "nats_dest_number d k = int_reading (nats_attr (dest_attributes d) k)"

definition nats_streamName :: "Destination \<Rightarrow> jsstr" where
  "nats_streamName d = ref_name (dest_ref d)"

definition nats_subjects :: "Destination \<Rightarrow> jsstr list" where
  "nats_subjects d = nats_names (nats_attr (dest_attributes d) ''subjects'')"

definition nats_replicas :: "Destination \<Rightarrow> jsnum option" where
  "nats_replicas d = nats_dest_number d ''replicas''"

text \<open>A limit of -1 is no limit.\<close>

definition nats_limit :: "Destination \<Rightarrow> string \<Rightarrow> jsnum option" where
  "nats_limit d k = (case nats_dest_number d k of None \<Rightarrow> None
     | Some value \<Rightarrow> if value < Fin 0 then None else Some value)"

definition nats_duration :: "Destination \<Rightarrow> string \<Rightarrow> jsstr option" where
  "nats_duration d k = (case nats_attr (dest_attributes d) k of None \<Rightarrow> None
     | Some raw \<Rightarrow> if raw = u ''0s'' then None else Some raw)"

definition nats_clusterName :: "Destination \<Rightarrow> jsstr option" where
  "nats_clusterName d = nats_attr (dest_attributes d) ''clusterName''"

definition nats_leader :: "Destination \<Rightarrow> jsstr option" where
  "nats_leader d = nats_attr (dest_attributes d) ''leader''"

definition nats_replicaLines :: "Destination \<Rightarrow> jsstr list" where
  "nats_replicaLines d = (case nats_attr (dest_attributes d) ''replicaState'' of None \<Rightarrow> []
     | Some raw \<Rightarrow> filter (\<lambda>l. l \<noteq> []) (split_on newline raw))"

definition nats_replicasHealthy :: "Destination \<Rightarrow> bool option" where
  "nats_replicasHealthy d = (case (nats_dest_number d ''replicasHealthy'', nats_replicas d) of
     (Some healthy, Some tot) \<Rightarrow> if tot \<le> Fin 1 then None else Some (tot \<le> healthy)
   | _ \<Rightarrow> None)"

section \<open>Consumers\<close>

definition nats_sub_number :: "Subscription \<Rightarrow> string \<Rightarrow> jsnum option" where
  "nats_sub_number s k = int_reading (nats_attr (sub_attributes s) k)"

definition nats_consumerName :: "Subscription \<Rightarrow> jsstr" where
  "nats_consumerName s = sref_name (sub_ref s)"

definition nats_streamOf :: "Subscription \<Rightarrow> jsstr" where
  "nats_streamOf s = sref_namespace (sub_ref s)"

definition nats_backlog :: "Subscription \<Rightarrow> jsnum" where
  "nats_backlog s = sub_backlog s"

definition nats_isPush :: "Subscription \<Rightarrow> bool" where
  "nats_isPush s \<longleftrightarrow> nats_attr (sub_attributes s) ''consumerKind'' = Some (u ''push'')"

definition nats_members :: "Subscription \<Rightarrow> jsnum option" where
  "nats_members s = (if sub_members s = Fin (- 1) then None else Some (sub_members s))"

definition nats_maxDeliver :: "Subscription \<Rightarrow> jsnum option" where
  "nats_maxDeliver s = (case nats_sub_number s ''maxDeliver'' of None \<Rightarrow> None
     | Some value \<Rightarrow> if value < Fin 0 then None else Some value)"

definition nats_maxAckPending :: "Subscription \<Rightarrow> jsnum option" where
  "nats_maxAckPending s = (case nats_sub_number s ''maxAckPending'' of None \<Rightarrow> None
     | Some value \<Rightarrow> if value < Fin 0 then None else Some value)"

definition nats_filterSubjects :: "Subscription \<Rightarrow> jsstr list" where
  "nats_filterSubjects s = nats_names (nats_attr (sub_attributes s) ''filterSubject'')"

definition nats_isDurable :: "Subscription \<Rightarrow> bool" where
  "nats_isDurable s \<longleftrightarrow> nats_attr (sub_attributes s) ''durable'' \<noteq> None"

section \<open>Servers\<close>

definition nats_node_number :: "attributes \<Rightarrow> string \<Rightarrow> jsnum option" where
  "nats_node_number a k = float_reading (nats_attr a k)"

definition nats_slowConsumers :: "Node \<Rightarrow> jsnum option" where
  "nats_slowConsumers n = nats_node_number (node_attributes n) ''slowConsumers''"

definition nats_isFromOneServerOnly :: "attributes \<Rightarrow> bool" where
  "nats_isFromOneServerOnly a \<longleftrightarrow> nats_attr a ''readVia'' = Some (u ''monitor'')"

definition nats_hasJetStream :: "Node \<Rightarrow> bool" where
  "nats_hasJetStream n \<longleftrightarrow> nats_attr (node_attributes n) ''jetstreamEnabled'' = Some (u ''true'')"

interpretation nats_dest: numeric_reader dest_attributes nats_dest_number
  by unfold_locales (auto simp: nats_dest_number_def nats_attr_def dest: reading_not_NaN)

interpretation nats_sub: numeric_reader sub_attributes nats_sub_number
  by unfold_locales (auto simp: nats_sub_number_def nats_attr_def dest: reading_not_NaN)

interpretation nats_node: numeric_reader "\<lambda>a. a" nats_node_number
  by unfold_locales (auto simp: nats_node_number_def nats_attr_def dest: reading_not_NaN)

lemma nats_limit_nonneg: "nats_limit d k = Some v \<Longrightarrow> Fin 0 \<le> v"
  using nats_dest.a_number [of d k v] jsnum_not_less [of v "Fin 0"]
  by (auto simp: nats_limit_def split: option.splits if_splits)

lemma nats_names_nonempty: "s \<in> set (nats_names raw) \<Longrightarrow> s \<noteq> []"
  by (auto simp: nats_names_def split: option.splits)

section \<open>The rules\<close>

definition nats_isLeaderless :: "Destination \<Rightarrow> bool" where
  "nats_isLeaderless d = (let name = nats_leader d in name = None \<or> name = Some [])"

definition nats_consumerLabel :: "Subscription \<Rightarrow> jsstr" where
  "nats_consumerLabel s = (let stream = nats_streamOf s in
     if stream = [] then nats_consumerName s else stream @ u ''/'' @ nats_consumerName s)"

definition nats_stream_alerts :: "AlertRulePrefs \<Rightarrow> Destination \<Rightarrow> DerivedAlert list" where
  "nats_stream_alerts rules d =
    (let params = [(''stream'', PStr (nats_streamName d)),
                   (''replicas'', PNum (nullish (nats_replicas d) (Fin 0)))]
     in if enabled rules streamNoLeader \<and> nats_clusterName d \<noteq> None \<and> nats_isLeaderless d then
          [alert (u ''stream-no-leader-'' @ nats_streamName d) streamNoLeader Crit params]
        else push_if (enabled rules streamUnderReplicated \<and> nats_replicasHealthy d = Some False)
          (alert (u ''stream-replicas-'' @ nats_streamName d) streamUnderReplicated Warn params))"

definition nats_consumer_alerts :: "AlertRulePrefs \<Rightarrow> jsnum \<Rightarrow> Subscription \<Rightarrow> DerivedAlert list" where
  "nats_consumer_alerts rules lagThreshold s =
    (let pending = nats_backlog s; label = nats_consumerLabel s in
     if enabled rules groupOffline \<and> nats_isPush s \<and> nats_members s = Some (Fin 0)
        \<and> Fin 0 < pending then
       [alert (u ''consumer-unbound-'' @ label) groupOffline Crit
          [(''group'', PStr label), (''lag'', PNum pending)]]
     else push_if (enabled rules groupLag \<and> Fin 0 < lagThreshold \<and> lagThreshold < pending)
       (alert (u ''consumer-lag-'' @ label) groupLag Warn
          [(''group'', PStr label), (''lag'', PNum pending), (''threshold'', PNum lagThreshold)]))"

definition nats_server_alerts :: "AlertRulePrefs \<Rightarrow> Node \<Rightarrow> DerivedAlert list" where
  "nats_server_alerts rules n =
    (let dropped = nullish (nats_slowConsumers n) (Fin 0) in
     push_if (enabled rules slowConsumer \<and> Fin 0 < dropped)
       (alert (u ''slow-consumer-'' @ node_name n) slowConsumer Warn
          [(''broker'', PStr (node_name n)), (''count'', PNum dropped)]))"

definition deriveNatsAlerts :: derivation where
  "deriveNatsAlerts facts rules th =
     for_each (destinations facts) (nats_stream_alerts rules)
     @ for_each (consumerGroups facts) (nats_consumer_alerts rules (lag th))
     @ for_each (nodes facts) (nats_server_alerts rules)"

lemmas nats_alert_defs = nats_stream_alerts_def nats_consumer_alerts_def nats_server_alerts_def Let_def

lemma nats_alert_sound:
  assumes "a \<in> set (deriveNatsAlerts f rules th)"
  shows "enabled rules (al_rule a) \<and> al_rule a \<in> set (rulesFor (Some KindNATS)) \<and> worded a"
  using assms by (auto simp: deriveNatsAlerts_def nats_alert_defs rulesFor_def)

interpretation nats_rules: alert_family deriveNatsAlerts
  by unfold_locales (simp_all add: nats_alert_sound deriveNatsAlerts_def)

interpretation nats_rules: declared_family deriveNatsAlerts KindNATS
  by unfold_locales (simp add: nats_alert_sound)

interpretation nats_rules: swept_family deriveNatsAlerts KindNATS
  by unfold_locales (simp add: deriveNatsAlerts_def KINDS_NEEDING_DESTINATIONS_def)

interpretation nats_rules: worded_family deriveNatsAlerts
  by unfold_locales (simp add: nats_alert_sound)

interpretation nats_rules: thresholded_family deriveNatsAlerts
  by unfold_locales (auto simp: deriveNatsAlerts_def nats_alert_defs)

text \<open>
  A pull consumer, whose members the server does not count, is never called unattended: it is
  only ever behind.
\<close>

lemma nats_pull_consumer:
  "\<not> nats_isPush s \<Longrightarrow> a \<in> set (nats_consumer_alerts rules l s) \<Longrightarrow> al_rule a = groupLag"
  by (auto simp: nats_consumer_alerts_def Let_def)

end
