(* ===== verification/ActiveMQ_Alerts.thy ===== *)
theory ActiveMQ_Alerts
  imports Alert_Family
begin

text \<open>
  ActiveMQ: the readers of a destination, a broker, a client connection and a subscription
  (\<open>mq/activemq/destinations.ts\<close>, \<open>cluster.ts\<close>, \<open>subscriptions.ts\<close>) and the rules
  (\<open>alerts.ts\<close>).
\<close>

section \<open>Destinations\<close>

record ActiveMQDestination =
  ad_name :: jsstr
  ad_product :: jsstr
  ad_kind :: jsstr
  ad_depth :: "jsnum option"
  ad_subscribers :: "jsnum option"
  ad_consumers :: "jsnum option"
  ad_producers :: "jsnum option"
  ad_enqueued :: "jsnum option"
  ad_dequeued :: "jsnum option"
  ad_dispatched :: "jsnum option"
  ad_expired :: "jsnum option"
  ad_inFlight :: "jsnum option"
  ad_scheduled :: "jsnum option"
  ad_bytes :: "jsnum option"
  ad_memoryPercent :: "jsnum option"
  ad_averageMessageSize :: "jsnum option"
  ad_paused :: "bool option"
  ad_durable :: "bool option"
  ad_internal :: "bool option"
  ad_temporary :: "bool option"
  ad_autoCreated :: "bool option"
  ad_deadLetterAddress :: "jsstr option"
  ad_expiryAddress :: "jsstr option"
  ad_isDeadLetter :: bool
  ad_address :: "jsstr option"
  ad_routingTypes :: "jsstr option"
  ad_filter :: "jsstr option"
  ad_queueCount :: "jsnum option"
  ad_browseCap :: "jsnum option"

definition activemq_text :: "Destination \<Rightarrow> string \<Rightarrow> jsstr option" where
  "activemq_text row k = text_attr (dest_attributes row) k"

definition activemq_number :: "Destination \<Rightarrow> string \<Rightarrow> jsnum option" where
  "activemq_number row k = finite_reading (activemq_text row k)"

definition activemq_bool :: "Destination \<Rightarrow> string \<Rightarrow> bool option" where
  "activemq_bool row k = bool_reading (activemq_text row k)"

definition activemq_destination :: "Destination \<Rightarrow> ActiveMQDestination" where
  "activemq_destination row =
     \<lparr>ad_name = ref_name (dest_ref row),
      ad_product = nullish (activemq_text row ''product'') (u ''classic''),
      ad_kind = nullish (activemq_text row ''kind'') (u ''queue''),
      ad_depth = metric (dest_depth row),
      ad_subscribers = metric (dest_subscribers row),
      ad_consumers = activemq_number row ''consumerCount'',
      ad_producers = activemq_number row ''producerCount'',
      ad_enqueued = activemq_number row ''enqueueCount'',
      ad_dequeued = activemq_number row ''dequeueCount'',
      ad_dispatched = activemq_number row ''dispatchCount'',
      ad_expired = activemq_number row ''expiredCount'',
      ad_inFlight = activemq_number row ''inFlightCount'',
      ad_scheduled = activemq_number row ''scheduledCount'',
      ad_bytes = activemq_number row ''memoryUsage'',
      ad_memoryPercent = activemq_number row ''memoryPercent'',
      ad_averageMessageSize = activemq_number row ''averageMessageSize'',
      ad_paused = activemq_bool row ''paused'',
      ad_durable = activemq_bool row ''durable'',
      ad_internal = activemq_bool row ''internal'',
      ad_temporary = activemq_bool row ''temporary'',
      ad_autoCreated = activemq_bool row ''autoCreated'',
      ad_deadLetterAddress = activemq_text row ''deadLetterAddress'',
      ad_expiryAddress = activemq_text row ''expiryAddress'',
      ad_isDeadLetter = (activemq_bool row ''isDeadLetter'' = Some True),
      ad_address = activemq_text row ''address'',
      ad_routingTypes = activemq_text row ''routingTypes'',
      ad_filter = activemq_text row ''filter'',
      ad_queueCount = activemq_number row ''queueCount'',
      ad_browseCap = activemq_number row ''browseCap''\<rparr>"

definition activemq_browseWillBeCapped :: "ActiveMQDestination \<Rightarrow> bool" where
  "activemq_browseWillBeCapped e = (case (ad_browseCap e, ad_depth e) of
     (Some cap, Some depth) \<Rightarrow> cap < depth | _ \<Rightarrow> False)"

section \<open>Brokers\<close>

record ActiveMQNode =
  an_name :: jsstr
  an_address :: jsstr
  an_version :: jsstr
  an_status :: NodeStatus
  an_product :: jsstr
  an_bridge :: bool
  an_uptime :: "jsstr option"
  an_nodeId :: "jsstr option"
  an_persistent :: "bool option"
  an_dataDirectory :: "jsstr option"
  an_diskUsage :: "jsnum option"
  an_storePercent :: "jsnum option"
  an_tempPercent :: "jsnum option"
  an_memoryPercent :: "jsnum option"
  an_memoryLimit :: "jsnum option"
  an_totalMessages :: "jsnum option"
  an_totalEnqueued :: "jsnum option"
  an_totalDequeued :: "jsnum option"
  an_connections :: "jsnum option"
  an_consumers :: "jsnum option"
  an_producers :: "jsnum option"
  an_acceptors :: "jsstr list option"
  an_clustered :: "bool option"
  an_haPolicy :: "jsstr option"
  an_backup :: "bool option"
  an_journalType :: "jsstr option"
  an_securityEnabled :: "bool option"

definition activemq_nodeText :: "Node \<Rightarrow> string \<Rightarrow> jsstr option" where
  "activemq_nodeText row k = text_attr (node_attributes row) k"

definition activemq_nodeNumber :: "Node \<Rightarrow> string \<Rightarrow> jsnum option" where
  "activemq_nodeNumber row k = finite_reading (activemq_nodeText row k)"

definition activemq_nodeBool :: "Node \<Rightarrow> string \<Rightarrow> bool option" where
  "activemq_nodeBool row k = bool_reading (activemq_nodeText row k)"

definition activemq_node :: "Node \<Rightarrow> ActiveMQNode" where
  "activemq_node row =
     \<lparr>an_name = node_name row,
      an_address = node_address row,
      an_version = node_version row,
      an_status = node_status row,
      an_product = nullish (activemq_nodeText row ''product'') (u ''classic''),
      an_bridge = (activemq_nodeBool row ''bridge'' = Some True),
      an_uptime = activemq_nodeText row ''uptime'',
      an_nodeId = activemq_nodeText row ''nodeId'',
      an_persistent = activemq_nodeBool row ''persistenceEnabled'',
      an_dataDirectory = activemq_nodeText row ''dataDirectory'',
      an_diskUsage = metric (node_diskUsage row),
      an_storePercent = activemq_nodeNumber row ''storePercent'',
      an_tempPercent = activemq_nodeNumber row ''tempPercent'',
      an_memoryPercent = activemq_nodeNumber row ''memoryPercent'',
      an_memoryLimit = activemq_nodeNumber row ''memoryLimit'',
      an_totalMessages = activemq_nodeNumber row ''totalMessages'',
      an_totalEnqueued = activemq_nodeNumber row ''totalEnqueued'',
      an_totalDequeued = activemq_nodeNumber row ''totalDequeued'',
      an_connections = activemq_nodeNumber row ''connections'',
      an_consumers = activemq_nodeNumber row ''consumerCount'',
      an_producers = activemq_nodeNumber row ''producerCount'',
      an_acceptors = map_option (split_on comma) (activemq_nodeText row ''acceptors''),
      an_clustered = activemq_nodeBool row ''clustered'',
      an_haPolicy = activemq_nodeText row ''haPolicy'',
      an_backup = activemq_nodeBool row ''backup'',
      an_journalType = activemq_nodeText row ''journalType'',
      an_securityEnabled = activemq_nodeBool row ''securityEnabled''\<rparr>"

record ActiveMQConnection =
  ac_name :: jsstr
  ac_clientName :: jsstr
  ac_user :: jsstr
  ac_peer :: jsstr
  ac_peerHost :: jsstr
  ac_peerPort :: jsnum
  ac_protocol :: jsstr
  ac_state :: jsstr
  ac_sessions :: jsnum
  ac_product :: jsstr
  ac_connector :: "jsstr option"
  ac_created :: "jsstr option"
  ac_blocked :: "bool option"
  ac_slow :: "bool option"

definition activemq_connection :: "ClientConnection \<Rightarrow> ActiveMQConnection" where
  "activemq_connection row =
    (let text = text_attr (conn_attributes row) in
     \<lparr>ac_name = conn_name row,
      ac_clientName = conn_clientName row,
      ac_user = conn_user row,
      ac_peer = nullish (text ''remoteAddress'')
        (conn_peerHost row @ u '':'' @ num_to_str (conn_peerPort row)),
      ac_peerHost = conn_peerHost row,
      ac_peerPort = conn_peerPort row,
      ac_protocol = conn_protocol row,
      ac_state = conn_state row,
      ac_sessions = (case text ''sessions'' of None \<Rightarrow> conn_channels row | Some s \<Rightarrow> to_number s),
      ac_product = nullish (text ''product'') (u ''classic''),
      ac_connector = text ''connector'',
      ac_created = text ''created'',
      ac_blocked = bool_reading (text ''blocked''),
      ac_slow = bool_reading (text ''slow'')\<rparr>)"

section \<open>Subscriptions\<close>

record ActiveMQSubscription =
  asub_name :: jsstr
  asub_topic :: jsstr
  asub_product :: jsstr
  asub_clientId :: "jsstr option"
  asub_subscriptionName :: "jsstr option"
  asub_backlog :: "jsnum option"
  asub_members :: jsnum
  asub_pendingAck :: "jsnum option"
  asub_dispatched :: "jsnum option"
  asub_consumed :: "jsnum option"
  asub_prefetch :: "jsnum option"
  asub_selector :: "jsstr option"
  asub_durable :: "bool option"
  asub_active :: bool
  asub_slow :: "bool option"
  asub_deadLetterAddress :: "jsstr option"
  asub_status :: SubscriptionStatus

definition activemq_subscription :: "Subscription \<Rightarrow> ActiveMQSubscription" where
  "activemq_subscription row =
    (let text = text_attr (sub_attributes row) in
     \<lparr>asub_name = sref_name (sub_ref row),
      asub_topic = sref_namespace (sub_ref row),
      asub_product = nullish (text ''product'') (u ''classic''),
      asub_clientId = text ''clientId'',
      asub_subscriptionName = text ''subscriptionName'',
      asub_backlog = metric (sub_backlog row),
      asub_members = sub_members row,
      asub_pendingAck = finite_reading (text ''pendingAck''),
      asub_dispatched = finite_reading (text ''dispatched''),
      asub_consumed = finite_reading (text ''consumed''),
      asub_prefetch = finite_reading (text ''prefetchSize''),
      asub_selector = text ''selector'',
      asub_durable = bool_reading (text ''durable''),
      asub_active = (bool_reading (text ''active'') = Some True),
      asub_slow = bool_reading (text ''slowConsumer''),
      asub_deadLetterAddress = text ''deadLetterAddress'',
      asub_status = sub_status row\<rparr>)"

interpretation activemq_dest: numeric_reader dest_attributes activemq_number
  by unfold_locales (auto simp: activemq_number_def activemq_text_def dest: reading_not_NaN)

interpretation activemq_broker: numeric_reader node_attributes activemq_nodeNumber
  by unfold_locales (auto simp: activemq_nodeNumber_def activemq_nodeText_def dest: reading_not_NaN)

section \<open>The rules\<close>

definition MEMORY_WATERMARK :: jsnum where
  "MEMORY_WATERMARK = Fin 90"

definition activemq_queue_alerts :: "AlertRulePrefs \<Rightarrow> jsnum \<Rightarrow> Destination \<Rightarrow> DerivedAlert list" where
  "activemq_queue_alerts rules lagThreshold row =
    (let entry = activemq_destination row; depth = nullish (ad_depth entry) (Fin 0); name = ad_name entry
     in if ad_isDeadLetter entry then
          push_if (enabled rules dlqGrowth \<and> Fin 0 < depth)
            (alert (u ''dlq-'' @ name) dlqGrowth Warn
               [(''group'', PStr name), (''count'', PNum depth)])
        else if ad_kind entry \<noteq> u ''queue'' then []
        else if enabled rules queueNoConsumer \<and> Fin 0 < depth
            \<and> nullish (ad_consumers entry) (Fin 0) = Fin 0 then
          [alert (u ''queue-no-consumer-'' @ name) queueNoConsumer Warn
             [(''queue'', PStr name), (''lag'', PNum depth)]]
        else push_if (enabled rules queueBacklog \<and> Fin 0 < lagThreshold \<and> lagThreshold \<le> depth)
          (alert (u ''queue-backlog-'' @ name) queueBacklog Warn
             [(''queue'', PStr name), (''lag'', PNum depth), (''threshold'', PNum lagThreshold)]))"

definition activemq_node_alerts :: "AlertRulePrefs \<Rightarrow> jsnum \<Rightarrow> Node \<Rightarrow> DerivedAlert list" where
  "activemq_node_alerts rules diskThreshold row =
    (let broker = activemq_node row; name = an_name broker;
         usage = nullish (an_diskUsage broker) (Fin 0);
         memory = nullish (an_memoryPercent broker) (Fin 0)
     in if an_bridge broker then []
        else push_if (enabled rules diskUsage \<and> Fin 0 < diskThreshold \<and> diskThreshold \<le> usage)
          (alert (u ''disk-'' @ name) diskUsage (if Fin 95 \<le> usage then Crit else Warn)
             [(''broker'', PStr name), (''usage'', PNum usage), (''threshold'', PNum diskThreshold)])
        @ push_if (enabled rules memoryUsage \<and> MEMORY_WATERMARK \<le> memory)
          (alert (u ''memory-'' @ name) memoryUsage (if Fin 98 \<le> memory then Crit else Warn)
             [(''broker'', PStr name), (''usage'', PNum memory),
              (''threshold'', PNum MEMORY_WATERMARK)]))"

definition deriveActiveMQAlerts :: derivation where
  "deriveActiveMQAlerts facts rules th =
     for_each (destinations facts) (activemq_queue_alerts rules (lag th))
     @ for_each (nodes facts) (activemq_node_alerts rules (disk th))"

lemmas activemq_alert_defs = activemq_queue_alerts_def activemq_node_alerts_def Let_def

lemma activemq_queue_alert_cases:
  assumes "a \<in> set (activemq_queue_alerts rules l row)"
  shows "enabled rules (al_rule a) \<and> al_rule a \<in> {dlqGrowth, queueNoConsumer, queueBacklog} \<and> worded a
    \<and> (al_rule a = queueBacklog \<longrightarrow> Fin 0 < l)"
  using assms by (auto simp: activemq_queue_alerts_def Let_def)

lemma activemq_node_alert_cases:
  assumes "a \<in> set (activemq_node_alerts rules d row)"
  shows "enabled rules (al_rule a) \<and> al_rule a \<in> {diskUsage, memoryUsage} \<and> worded a"
  using assms by (auto simp: activemq_node_alerts_def Let_def)

lemma activemq_alert_sound:
  assumes "a \<in> set (deriveActiveMQAlerts f rules th)"
  shows "enabled rules (al_rule a) \<and> al_rule a \<in> set (rulesFor (Some KindActiveMQ)) \<and> worded a
    \<and> (al_rule a = queueBacklog \<longrightarrow> Fin 0 < lag th)"
  using assms
  by (auto simp: deriveActiveMQAlerts_def rulesFor_def
      dest!: activemq_queue_alert_cases activemq_node_alert_cases)

interpretation activemq_rules: alert_family deriveActiveMQAlerts
  by unfold_locales (simp_all add: activemq_alert_sound deriveActiveMQAlerts_def)

interpretation activemq_rules: declared_family deriveActiveMQAlerts KindActiveMQ
  by unfold_locales (simp add: activemq_alert_sound)

interpretation activemq_rules: swept_family deriveActiveMQAlerts KindActiveMQ
  by unfold_locales (simp add: deriveActiveMQAlerts_def KINDS_NEEDING_DESTINATIONS_def)

interpretation activemq_rules: worded_family deriveActiveMQAlerts
  by unfold_locales (simp add: activemq_alert_sound)

interpretation activemq_rules: thresholded_family deriveActiveMQAlerts
  by unfold_locales (drule activemq_alert_sound, auto simp: rulesFor_def)

end
