(* ===== verification/NSQ_Alerts.thy ===== *)
theory NSQ_Alerts
  imports Alert_Family
begin

text \<open>
  NSQ: the readers of a channel and a topic (\<open>mq/nsq/subscriptions.ts\<close>, \<open>destinations.ts\<close>) and
  the rules (\<open>alerts.ts\<close>).
\<close>

section \<open>Channels\<close>

record NsqChannel =
  nc_topic :: jsstr
  nc_name :: jsstr
  nc_backlog :: "jsnum option"
  nc_backendDepth :: "jsnum option"
  nc_clients :: jsnum
  nc_inFlight :: "jsnum option"
  nc_deferred :: "jsnum option"
  nc_requeued :: "jsnum option"
  nc_timedOut :: "jsnum option"
  nc_messages :: "jsnum option"
  nc_paused :: bool
  nc_ephemeral :: bool
  nc_nodes :: "jsstr list"

definition nsq_sub_text :: "Subscription \<Rightarrow> string \<Rightarrow> jsstr option" where
  "nsq_sub_text row k = text_attr (sub_attributes row) k"

definition nsq_sub_number :: "Subscription \<Rightarrow> string \<Rightarrow> jsnum option" where
  "nsq_sub_number row k = finite_reading (nsq_sub_text row k)"

definition nsq_channel :: "Subscription \<Rightarrow> NsqChannel" where
  "nsq_channel row =
     \<lparr>nc_topic = nullish (nsq_sub_text row ''topic'') (sref_namespace (sub_ref row)),
      nc_name = sref_name (sub_ref row),
      nc_backlog = metric (sub_backlog row),
      nc_backendDepth = nsq_sub_number row ''backendDepth'',
      nc_clients = sub_members row,
      nc_inFlight = nsq_sub_number row ''inFlight'',
      nc_deferred = nsq_sub_number row ''deferred'',
      nc_requeued = nsq_sub_number row ''requeued'',
      nc_timedOut = nsq_sub_number row ''timedOut'',
      nc_messages = nsq_sub_number row ''messageCount'',
      nc_paused = (nsq_sub_text row ''paused'' = Some (u ''true'')),
      nc_ephemeral = (nsq_sub_text row ''ephemeral'' = Some (u ''true'')),
      nc_nodes = filter (\<lambda>e. e \<noteq> []) (split_on comma (nullish (nsq_sub_text row ''nodes'') []))\<rparr>"

definition nsq_channelKey :: "jsstr \<Rightarrow> jsstr \<Rightarrow> jsstr" where
  "nsq_channelKey tp name = tp @ u ''/'' @ name"

definition nsq_stalledByPause :: "NsqChannel \<Rightarrow> bool" where
  "nsq_stalledByPause entry \<longleftrightarrow> nc_paused entry \<and> Fin 0 < nullish (nc_backlog entry) (Fin 0)"

section \<open>Topics\<close>

record NsqTopic =
  nt_name :: jsstr
  nt_depth :: "jsnum option"
  nt_topicDepth :: "jsnum option"
  nt_channelDepth :: "jsnum option"
  nt_backendDepth :: "jsnum option"
  nt_channels :: "jsstr list"
  nt_messages :: "jsnum option"
  nt_bytes :: "jsnum option"
  nt_inFlight :: "jsnum option"
  nt_deferred :: "jsnum option"
  nt_requeued :: "jsnum option"
  nt_timedOut :: "jsnum option"
  nt_paused :: bool
  nt_ephemeral :: bool
  nt_nodes :: "jsstr list"

definition nsq_dest_text :: "Destination \<Rightarrow> string \<Rightarrow> jsstr option" where
  "nsq_dest_text row k = text_attr (dest_attributes row) k"

definition nsq_dest_number :: "Destination \<Rightarrow> string \<Rightarrow> jsnum option" where
  "nsq_dest_number row k = finite_reading (nsq_dest_text row k)"

definition nsq_dest_list :: "Destination \<Rightarrow> string \<Rightarrow> jsstr list" where
  "nsq_dest_list row k = (case nsq_dest_text row k of None \<Rightarrow> [] | Some v \<Rightarrow> split_on comma v)"

definition nsq_topic :: "Destination \<Rightarrow> NsqTopic" where
  "nsq_topic row =
     \<lparr>nt_name = ref_name (dest_ref row),
      nt_depth = metric (dest_depth row),
      nt_topicDepth = nsq_dest_number row ''topicDepth'',
      nt_channelDepth = nsq_dest_number row ''channelDepth'',
      nt_backendDepth = nsq_dest_number row ''backendDepth'',
      nt_channels = nsq_dest_list row ''channels'',
      nt_messages = nsq_dest_number row ''messageCount'',
      nt_bytes = nsq_dest_number row ''messageBytes'',
      nt_inFlight = nsq_dest_number row ''inFlight'',
      nt_deferred = nsq_dest_number row ''deferred'',
      nt_requeued = nsq_dest_number row ''requeued'',
      nt_timedOut = nsq_dest_number row ''timedOut'',
      nt_paused = (nsq_dest_text row ''paused'' = Some (u ''true'')),
      nt_ephemeral = (nsq_dest_text row ''ephemeral'' = Some (u ''true'')),
      nt_nodes = nsq_dest_list row ''nodes''\<rparr>"

definition nsq_holdingUndelivered :: "NsqTopic \<Rightarrow> bool" where
  "nsq_holdingUndelivered entry = (case nt_topicDepth entry of None \<Rightarrow> False | Some d \<Rightarrow> Fin 0 < d)"

interpretation nsq_sub: numeric_reader sub_attributes nsq_sub_number
  by unfold_locales (auto simp: nsq_sub_number_def nsq_sub_text_def dest: reading_not_NaN)

interpretation nsq_dest: numeric_reader dest_attributes nsq_dest_number
  by unfold_locales (auto simp: nsq_dest_number_def nsq_dest_text_def dest: reading_not_NaN)

section \<open>The rules\<close>

definition nsq_channel_alerts :: "AlertRulePrefs \<Rightarrow> jsnum \<Rightarrow> Subscription \<Rightarrow> DerivedAlert list" where
  "nsq_channel_alerts rules lagThreshold row =
    (let entry = nsq_channel row; name = nsq_channelKey (nc_topic entry) (nc_name entry);
         backlog = nullish (nc_backlog entry) (Fin 0)
     in if enabled rules deliveryPaused \<and> nc_paused entry \<and> Fin 0 < backlog then
          [alert (u ''channel-paused-'' @ name) deliveryPaused Warn
             [(''target'', PStr name), (''lag'', PNum backlog)]]
        else if enabled rules groupOffline \<and> Fin 0 < backlog \<and> nc_clients entry = Fin 0 then
          [alert (u ''channel-no-consumer-'' @ name) groupOffline Warn
             [(''group'', PStr name), (''lag'', PNum backlog)]]
        else push_if (enabled rules groupLag \<and> Fin 0 < lagThreshold \<and> lagThreshold \<le> backlog)
          (alert (u ''channel-lag-'' @ name) groupLag Warn
             [(''group'', PStr name), (''lag'', PNum backlog), (''threshold'', PNum lagThreshold)]))"

definition nsq_topic_alerts :: "AlertRulePrefs \<Rightarrow> Destination \<Rightarrow> DerivedAlert list" where
  "nsq_topic_alerts rules row =
    (let entry = nsq_topic row; held = nullish (nt_topicDepth entry) (Fin 0); name = nt_name entry in
     if enabled rules deliveryPaused \<and> nt_paused entry \<and> Fin 0 < held then
       [alert (u ''topic-paused-'' @ name) deliveryPaused Warn
          [(''target'', PStr name), (''lag'', PNum held)]]
     else push_if (enabled rules queueNoConsumer \<and> Fin 0 < held \<and> nt_channels entry = [])
       (alert (u ''topic-no-channel-'' @ name) queueNoConsumer Warn
          [(''queue'', PStr name), (''lag'', PNum held)]))"

definition deriveNsqAlerts :: derivation where
  "deriveNsqAlerts facts rules th =
     for_each (consumerGroups facts) (nsq_channel_alerts rules (lag th))
     @ for_each (destinations facts) (nsq_topic_alerts rules)"

lemmas nsq_alert_defs = nsq_channel_alerts_def nsq_topic_alerts_def Let_def

lemma nsq_alert_sound:
  assumes "a \<in> set (deriveNsqAlerts f rules th)"
  shows "enabled rules (al_rule a) \<and> al_rule a \<in> set (rulesFor (Some KindNSQ)) \<and> worded a"
  using assms by (auto simp: deriveNsqAlerts_def nsq_alert_defs rulesFor_def)

interpretation nsq_rules: alert_family deriveNsqAlerts
  by unfold_locales (simp_all add: nsq_alert_sound deriveNsqAlerts_def)

interpretation nsq_rules: declared_family deriveNsqAlerts KindNSQ
  by unfold_locales (simp add: nsq_alert_sound)

interpretation nsq_rules: swept_family deriveNsqAlerts KindNSQ
  by unfold_locales (simp add: deriveNsqAlerts_def KINDS_NEEDING_DESTINATIONS_def)

interpretation nsq_rules: worded_family deriveNsqAlerts
  by unfold_locales (simp add: nsq_alert_sound)

interpretation nsq_rules: thresholded_family deriveNsqAlerts
  by unfold_locales (auto simp: deriveNsqAlerts_def nsq_alert_defs)

lemma nsq_paused_channel_alerts:
  assumes "nsq_stalledByPause (nsq_channel row)" and "enabled rules deliveryPaused"
  shows "\<exists>a. nsq_channel_alerts rules l row = [a] \<and> al_rule a = deliveryPaused"
  using assms by (auto simp: nsq_channel_alerts_def nsq_stalledByPause_def Let_def)

section \<open>The properties of the rules\<close>

text \<open>
  A paused channel that holds messages is reported as paused, with its depth, and as
  nothing else.
\<close>

lemma nsq_pause_outranks:
  assumes "nsq_stalledByPause (nsq_channel row)" and "enabled rules deliveryPaused"
  shows "\<exists>a. nsq_channel_alerts rules l row = [a] \<and> al_rule a = deliveryPaused
     \<and> al_params a = [(u ''target'', PStr (nsq_channelKey (nc_topic (nsq_channel row)) (sref_name (sub_ref row)))),
          (u ''lag'', PNum (sub_backlog row))]"
proof -
  have "metric (sub_backlog row) = Some n \<Longrightarrow> n = sub_backlog row" for n
    by (auto simp: metric_def split: if_splits)
  then show ?thesis
  using assms by (cases "metric (sub_backlog row)")
   (auto simp: nsq_channel_alerts_def nsq_stalledByPause_def Let_def nsq_channel_def)
qed

end
