(* ===== verification/SQS_Alerts.thy ===== *)
theory SQS_Alerts
  imports Alert_Family
begin

text \<open>
  Amazon SQS: the reader of a queue (\<open>mq/sqs/destinations.ts\<close>) and the rules (\<open>alerts.ts\<close>). A
  dead-letter queue is one that another queue's redrive policy names.
\<close>

section \<open>Queues\<close>

record SqsQueue =
  sq_name :: jsstr
  sq_url :: "jsstr option"
  sq_arn :: "jsstr option"
  sq_depth :: "jsnum option"
  sq_visible :: "jsnum option"
  sq_inFlight :: "jsnum option"
  sq_delayed :: "jsnum option"
  sq_fifo :: bool
  sq_visibilityTimeoutSec :: "jsnum option"
  sq_delaySec :: "jsnum option"
  sq_retentionSec :: "jsnum option"
  sq_maxMessageBytes :: "jsnum option"
  sq_receiveWaitSec :: "jsnum option"
  sq_createdAtMs :: "jsnum option"
  sq_modifiedAtMs :: "jsnum option"
  sq_deadLetterQueue :: "jsstr option"
  sq_maxReceiveCount :: "jsnum option"
  sq_encrypted :: bool
  sq_contentBasedDeduplication :: "bool option"
  sq_deduplicationScope :: "jsstr option"
  sq_fifoThroughputLimit :: "jsstr option"

definition sqs_text :: "Destination \<Rightarrow> string \<Rightarrow> jsstr option" where
  "sqs_text row k = text_attr (dest_attributes row) k"

definition sqs_number :: "Destination \<Rightarrow> string \<Rightarrow> jsnum option" where
  "sqs_number row k = finite_reading (sqs_text row k)"

definition sqs_millis :: "Destination \<Rightarrow> string \<Rightarrow> jsnum option" where
  "sqs_millis row k = map_option (\<lambda>seconds. num_mul seconds (Fin 1000)) (sqs_number row k)"

definition sqs_flag :: "Destination \<Rightarrow> string \<Rightarrow> bool option" where
  "sqs_flag row k = bool_reading (sqs_text row k)"

definition sqs_queue :: "Destination \<Rightarrow> SqsQueue" where
  "sqs_queue row =
     \<lparr>sq_name = ref_name (dest_ref row),
      sq_url = sqs_text row ''url'',
      sq_arn = sqs_text row ''arn'',
      sq_depth = metric (dest_depth row),
      sq_visible = sqs_number row ''visible'',
      sq_inFlight = sqs_number row ''inFlight'',
      sq_delayed = sqs_number row ''delayed'',
      sq_fifo = (sqs_flag row ''fifo'' = Some True),
      sq_visibilityTimeoutSec = sqs_number row ''visibilityTimeoutSec'',
      sq_delaySec = sqs_number row ''delaySec'',
      sq_retentionSec = sqs_number row ''retentionSec'',
      sq_maxMessageBytes = sqs_number row ''maxMessageBytes'',
      sq_receiveWaitSec = sqs_number row ''receiveWaitSec'',
      sq_createdAtMs = sqs_millis row ''createdAt'',
      sq_modifiedAtMs = sqs_millis row ''modifiedAt'',
      sq_deadLetterQueue = sqs_text row ''deadLetterQueue'',
      sq_maxReceiveCount = sqs_number row ''maxReceiveCount'',
      sq_encrypted = (sqs_flag row ''encrypted'' = Some True),
      sq_contentBasedDeduplication = sqs_flag row ''contentBasedDeduplication'',
      sq_deduplicationScope = sqs_text row ''deduplicationScope'',
      sq_fifoThroughputLimit = sqs_text row ''fifoThroughputLimit''\<rparr>"

definition sqs_stalledInFlight :: "SqsQueue \<Rightarrow> bool" where
  "sqs_stalledInFlight e \<longleftrightarrow> Fin 0 < nullish (sq_inFlight e) (Fin 0)
     \<and> nullish (sq_visible e) (Fin 0) = Fin 0 \<and> nullish (sq_delayed e) (Fin 0) = Fin 0"

interpretation sqs_dest: numeric_reader dest_attributes sqs_number
  by unfold_locales (auto simp: sqs_number_def sqs_text_def dest: reading_not_NaN)

section \<open>The rules\<close>

definition sqs_dead_letter_targets :: "SqsQueue list \<Rightarrow> jsstr list" where
  "sqs_dead_letter_targets queues =
     for_each queues (\<lambda>e. case sq_deadLetterQueue e of None \<Rightarrow> [] | Some q \<Rightarrow> [q])"

definition sqs_queue_alerts :: "AlertRulePrefs \<Rightarrow> jsnum \<Rightarrow> jsstr list \<Rightarrow> SqsQueue \<Rightarrow> DerivedAlert list" where
  "sqs_queue_alerts rules lagThreshold targets entry =
    (let visible = nullish (sq_visible entry) (Fin 0); name = sq_name entry in
     if enabled rules dlqGrowth \<and> name \<in> set targets \<and> Fin 0 < visible then
       [alert (u ''dlq-'' @ name) dlqGrowth Warn [(''group'', PStr name), (''count'', PNum visible)]]
     else push_if (enabled rules queueBacklog \<and> Fin 0 < lagThreshold \<and> lagThreshold \<le> visible)
       (alert (u ''queue-backlog-'' @ name) queueBacklog Warn
          [(''queue'', PStr name), (''lag'', PNum visible), (''threshold'', PNum lagThreshold)]))"

definition deriveSqsAlerts :: derivation where
  "deriveSqsAlerts facts rules th =
    (let queues = map sqs_queue (destinations facts);
         deadLetterTargets = sqs_dead_letter_targets queues
     in for_each queues (sqs_queue_alerts rules (lag th) deadLetterTargets))"

lemma set_sqs_dead_letter_targets:
  "q \<in> set (sqs_dead_letter_targets queues) \<longleftrightarrow> (\<exists>e \<in> set queues. sq_deadLetterQueue e = Some q)"
proof -
  have "q \<in> set (case r of None \<Rightarrow> [] | Some q \<Rightarrow> [q]) \<longleftrightarrow> r = Some q" for r
    by (cases r) auto
  then show ?thesis by (simp add: sqs_dead_letter_targets_def)
qed

lemma sqs_alert_sound:
  assumes "a \<in> set (deriveSqsAlerts f rules th)"
  shows "enabled rules (al_rule a) \<and> al_rule a \<in> set (rulesFor (Some KindSQS)) \<and> worded a"
  using assms by (auto simp: deriveSqsAlerts_def sqs_queue_alerts_def Let_def rulesFor_def)

interpretation sqs_rules: alert_family deriveSqsAlerts
  by unfold_locales (simp_all add: sqs_alert_sound deriveSqsAlerts_def)

interpretation sqs_rules: declared_family deriveSqsAlerts KindSQS
  by unfold_locales (simp add: sqs_alert_sound)

interpretation sqs_rules: swept_family deriveSqsAlerts KindSQS
  by unfold_locales (simp add: deriveSqsAlerts_def KINDS_NEEDING_DESTINATIONS_def)

interpretation sqs_rules: worded_family deriveSqsAlerts
  by unfold_locales (simp add: sqs_alert_sound)

interpretation sqs_rules: thresholded_family deriveSqsAlerts
  by unfold_locales (auto simp: deriveSqsAlerts_def sqs_queue_alerts_def Let_def)

section \<open>The properties of the rules\<close>

text \<open>
  A queue is reported as a growing dead-letter queue exactly when it holds visible
  messages and some queue listed names it in its redrive policy.
\<close>

lemma sqs_dead_letter_exact:
  assumes "enabled rules dlqGrowth"
  shows "{a \<in> set (deriveSqsAlerts f rules th). al_rule a = dlqGrowth \<and> al_key a = u ''dlq-'' @ n} \<noteq> {} \<longleftrightarrow>
    (\<exists>row \<in> set (destinations f). ref_name (dest_ref row) = n
       \<and> (\<exists>v. sqs_number row ''visible'' = Some v \<and> Fin 0 < v)
       \<and> (\<exists>other \<in> set (destinations f). sqs_text other ''deadLetterQueue'' = Some n))"
proof -
  have e: "{a \<in> set (sqs_queue_alerts rules l targets q). al_rule a = dlqGrowth \<and> al_key a = u ''dlq-'' @ n} \<noteq> {}
      \<longleftrightarrow> sq_name q = n \<and> n \<in> set targets \<and> Fin 0 < nullish (sq_visible q) (Fin 0)" for l targets q
    using assms by (auto simp: sqs_queue_alerts_def Let_def)
  have v: "Fin 0 < nullish x (Fin 0) \<longleftrightarrow> (\<exists>v. x = Some v \<and> Fin 0 < v)" for x :: "jsnum option"
    by (cases x) simp_all
  have "{a \<in> set (deriveSqsAlerts f rules th). al_rule a = dlqGrowth \<and> al_key a = u ''dlq-'' @ n} \<noteq> {} \<longleftrightarrow>
    (\<exists>row \<in> set (destinations f). {a \<in> set (sqs_queue_alerts rules (lag th)
       (sqs_dead_letter_targets (map sqs_queue (destinations f))) (sqs_queue row)).
         al_rule a = dlqGrowth \<and> al_key a = u ''dlq-'' @ n} \<noteq> {})"
    by (auto simp: deriveSqsAlerts_def Let_def)
  then show ?thesis
    unfolding e v by (auto simp: set_sqs_dead_letter_targets sqs_queue_def)
qed

end
