(* ===== verification/PubSub_Alerts.thy ===== *)
theory PubSub_Alerts
  imports Alert_Family
begin

text \<open>
  Google Pub/Sub: the readers of a topic and a subscription (\<open>mq/googlepubsub/topics.ts\<close>,
  \<open>subscriptions.ts\<close>) and the rules (\<open>alerts.ts\<close>). The labels are sorted with
  \<open>localeCompare\<close>, whose order depends on the locale: it is the parameter \<open>cmp\<close>.
\<close>

section \<open>Topics\<close>

record PubSubTopic =
  pt_name :: jsstr
  pt_path :: "jsstr option"
  pt_subscribers :: jsnum
  pt_subscriptionNames :: "jsstr list"
  pt_retentionSec :: "jsnum option"
  pt_kmsKey :: "jsstr option"
  pt_schema :: "jsstr option"
  pt_schemaEncoding :: "jsstr option"
  pt_storageRegions :: "jsstr list"
  pt_state :: "jsstr option"
  pt_labels :: "(jsstr \<times> jsstr) list"

definition pubsub_dest_text :: "Destination \<Rightarrow> string \<Rightarrow> jsstr option" where
  "pubsub_dest_text row k = text_attr (dest_attributes row) k"

definition pubsub_dest_number :: "Destination \<Rightarrow> string \<Rightarrow> jsnum option" where
  "pubsub_dest_number row k = finite_reading (pubsub_dest_text row k)"

definition pubsub_dest_list :: "Destination \<Rightarrow> string \<Rightarrow> jsstr list" where
  "pubsub_dest_list row k = (case pubsub_dest_text row k of None \<Rightarrow> []
     | Some value \<Rightarrow> filter (\<lambda>part. part \<noteq> []) (split_on comma value))"

definition pubsub_labels :: "(jsstr \<Rightarrow> jsstr \<Rightarrow> int) \<Rightarrow> attributes \<Rightarrow> (jsstr \<times> jsstr) list" where
  "pubsub_labels cmp a = sort_by (\<lambda>x y. cmp (fst x) (fst y))
     (map (\<lambda>(k, v). (drop (length (u ''label.'')) k, v))
       (filter (\<lambda>(k, v). starts_with k (u ''label.'')) a))"

definition pubsub_topic :: "(jsstr \<Rightarrow> jsstr \<Rightarrow> int) \<Rightarrow> Destination \<Rightarrow> PubSubTopic" where
  "pubsub_topic cmp row =
     \<lparr>pt_name = ref_name (dest_ref row),
      pt_path = pubsub_dest_text row ''path'',
      pt_subscribers = dest_subscribers row,
      pt_subscriptionNames = pubsub_dest_list row ''subscriptionNames'',
      pt_retentionSec = pubsub_dest_number row ''retentionSec'',
      pt_kmsKey = pubsub_dest_text row ''kmsKey'',
      pt_schema = pubsub_dest_text row ''schema'',
      pt_schemaEncoding = pubsub_dest_text row ''schemaEncoding'',
      pt_storageRegions = pubsub_dest_list row ''storageRegions'',
      pt_state = pubsub_dest_text row ''state'',
      pt_labels = pubsub_labels cmp (dest_attributes row)\<rparr>"

definition pubsub_discardsEverything :: "PubSubTopic \<Rightarrow> bool" where
  "pubsub_discardsEverything entry \<longleftrightarrow> pt_subscribers entry = Fin 0"

section \<open>Subscriptions\<close>

record PubSubSubscription =
  ps_name :: jsstr
  ps_path :: "jsstr option"
  ps_topic :: jsstr
  ps_orphaned :: bool
  ps_ackDeadlineSec :: "jsnum option"
  ps_retentionSec :: "jsnum option"
  ps_retainAcked :: bool
  ps_expirationTtlSec :: "jsnum option"
  ps_filter :: "jsstr option"
  ps_ordering :: bool
  ps_exactlyOnce :: bool
  ps_delivery :: jsstr
  ps_pushEndpoint :: "jsstr option"
  ps_deadLetterTopic :: "jsstr option"
  ps_maxDeliveryAttempts :: "jsnum option"
  ps_retryMinBackoffSec :: "jsnum option"
  ps_retryMaxBackoffSec :: "jsnum option"
  ps_detached :: bool
  ps_state :: "jsstr option"
  ps_labels :: "(jsstr \<times> jsstr) list"

definition DELETED_TOPIC :: jsstr where
  "DELETED_TOPIC = u ''_deleted-topic_''"

definition pubsub_sub_text :: "Subscription \<Rightarrow> string \<Rightarrow> jsstr option" where
  "pubsub_sub_text row k = text_attr (sub_attributes row) k"

definition pubsub_sub_number :: "Subscription \<Rightarrow> string \<Rightarrow> jsnum option" where
  "pubsub_sub_number row k = finite_reading (pubsub_sub_text row k)"

definition pubsub_sub_flag :: "Subscription \<Rightarrow> string \<Rightarrow> bool" where
  "pubsub_sub_flag row k \<longleftrightarrow> pubsub_sub_text row k = Some (u ''true'')"

definition pubsub_subscription :: "(jsstr \<Rightarrow> jsstr \<Rightarrow> int) \<Rightarrow> Subscription \<Rightarrow> PubSubSubscription" where
  "pubsub_subscription cmp row = (let topic = nullish (pubsub_sub_text row ''topic'') [] in
     \<lparr>ps_name = sref_name (sub_ref row),
      ps_path = pubsub_sub_text row ''path'',
      ps_topic = topic,
      ps_orphaned = (topic = DELETED_TOPIC),
      ps_ackDeadlineSec = pubsub_sub_number row ''ackDeadlineSec'',
      ps_retentionSec = pubsub_sub_number row ''retentionSec'',
      ps_retainAcked = pubsub_sub_flag row ''retainAcked'',
      ps_expirationTtlSec = pubsub_sub_number row ''expirationTtlSec'',
      ps_filter = pubsub_sub_text row ''filter'',
      ps_ordering = pubsub_sub_flag row ''messageOrdering'',
      ps_exactlyOnce = pubsub_sub_flag row ''exactlyOnce'',
      ps_delivery = nullish (pubsub_sub_text row ''delivery'') (u ''pull''),
      ps_pushEndpoint = pubsub_sub_text row ''pushEndpoint'',
      ps_deadLetterTopic = pubsub_sub_text row ''deadLetterTopic'',
      ps_maxDeliveryAttempts = pubsub_sub_number row ''maxDeliveryAttempts'',
      ps_retryMinBackoffSec = pubsub_sub_number row ''retryMinBackoffSec'',
      ps_retryMaxBackoffSec = pubsub_sub_number row ''retryMaxBackoffSec'',
      ps_detached = pubsub_sub_flag row ''detached'',
      ps_state = pubsub_sub_text row ''state'',
      ps_labels = pubsub_labels cmp (sub_attributes row)\<rparr>)"

definition pubsub_receivesNothing :: "PubSubSubscription \<Rightarrow> bool" where
  "pubsub_receivesNothing entry \<longleftrightarrow> ps_orphaned entry \<or> ps_detached entry"

interpretation pubsub_dest: numeric_reader dest_attributes pubsub_dest_number
  by unfold_locales (auto simp: pubsub_dest_number_def pubsub_dest_text_def dest: reading_not_NaN)

interpretation pubsub_sub: numeric_reader sub_attributes pubsub_sub_number
  by unfold_locales (auto simp: pubsub_sub_number_def pubsub_sub_text_def dest: reading_not_NaN)

section \<open>The rules\<close>

definition pubsub_topic_alerts :: "PubSubTopic \<Rightarrow> DerivedAlert list" where
  "pubsub_topic_alerts entry = push_if (pt_subscribers entry = Fin 0)
     (alert (u ''topic-unsubscribed-'' @ pt_name entry) topicUnsubscribed Warn
        [(''topic'', PStr (pt_name entry))])"

definition pubsub_sub_alerts :: "PubSubSubscription \<Rightarrow> DerivedAlert list" where
  "pubsub_sub_alerts entry = push_if (ps_orphaned entry)
     (alert (u ''subscription-orphaned-'' @ ps_name entry) subscriptionOrphaned Warn
        [(''subscription'', PStr (ps_name entry))])"

definition deriveGooglePubSubAlerts :: "(jsstr \<Rightarrow> jsstr \<Rightarrow> int) \<Rightarrow> derivation" where
  "deriveGooglePubSubAlerts cmp facts rules th =
     (if enabled rules topicUnsubscribed
      then for_each (map (pubsub_topic cmp) (destinations facts)) pubsub_topic_alerts else [])
     @ (if enabled rules subscriptionOrphaned
        then for_each (map (pubsub_subscription cmp) (consumerGroups facts)) pubsub_sub_alerts
        else [])"

lemma pubsub_alert_sound:
  assumes "a \<in> set (deriveGooglePubSubAlerts cmp f rules th)"
  shows "enabled rules (al_rule a) \<and> al_rule a \<in> set (rulesFor (Some KindGooglePubSub)) \<and> worded a"
  using assms
  by (auto simp: deriveGooglePubSubAlerts_def pubsub_topic_alerts_def pubsub_sub_alerts_def rulesFor_def)

interpretation pubsub_rules: alert_family "deriveGooglePubSubAlerts cmp" for cmp
  by unfold_locales (simp_all add: pubsub_alert_sound deriveGooglePubSubAlerts_def)

interpretation pubsub_rules: declared_family "deriveGooglePubSubAlerts cmp" KindGooglePubSub for cmp
  by unfold_locales (simp add: pubsub_alert_sound)

interpretation pubsub_rules: swept_family "deriveGooglePubSubAlerts cmp" KindGooglePubSub for cmp
  by unfold_locales (simp add: deriveGooglePubSubAlerts_def KINDS_NEEDING_DESTINATIONS_def)

interpretation pubsub_rules: worded_family "deriveGooglePubSubAlerts cmp" for cmp
  by unfold_locales (simp add: pubsub_alert_sound)

interpretation pubsub_rules: thresholded_family "deriveGooglePubSubAlerts cmp" for cmp
  by unfold_locales (drule pubsub_alert_sound, auto simp: rulesFor_def)

text \<open>The labels are read and sorted, never looked at: the alerts do not depend on the locale.\<close>

lemma pubsub_alerts_locale_free:
  "deriveGooglePubSubAlerts cmp f rules th = deriveGooglePubSubAlerts cmp' f rules th"
  by (simp add: deriveGooglePubSubAlerts_def for_each_def pubsub_topic_alerts_def
      pubsub_sub_alerts_def pubsub_topic_def pubsub_subscription_def Let_def comp_def)

section \<open>The properties of the rules\<close>

text \<open>
  The Pub/Sub alerts are exactly one for each topic without subscribers, then one for each
  orphaned subscription, in the order of the lists.
\<close>

lemma pubsub_alerts_exact:
  assumes "enabled rules topicUnsubscribed" "enabled rules subscriptionOrphaned"
  shows "map al_key (deriveGooglePubSubAlerts cmp f rules th) =
     map (\<lambda>d. u ''topic-unsubscribed-'' @ ref_name (dest_ref d))
       (filter (\<lambda>d. pubsub_discardsEverything (pubsub_topic cmp d)) (destinations f))
     @ map (\<lambda>s. u ''subscription-orphaned-'' @ sref_name (sub_ref s))
       (filter (\<lambda>s. ps_orphaned (pubsub_subscription cmp s)) (consumerGroups f))"
proof -
  have "map al_key (for_each (map (pubsub_topic cmp) ds) pubsub_topic_alerts) =
     map (\<lambda>d. u ''topic-unsubscribed-'' @ ref_name (dest_ref d))
       (filter (\<lambda>d. pubsub_discardsEverything (pubsub_topic cmp d)) ds)" for ds
    by (induction ds) (simp_all add: pubsub_topic_alerts_def pubsub_discardsEverything_def pubsub_topic_def)
  moreover have "map al_key (for_each (map (pubsub_subscription cmp) ss) pubsub_sub_alerts) =
     map (\<lambda>s. u ''subscription-orphaned-'' @ sref_name (sub_ref s))
       (filter (\<lambda>s. ps_orphaned (pubsub_subscription cmp s)) ss)" for ss
    by (induction ss) (simp_all add: pubsub_sub_alerts_def pubsub_subscription_def Let_def)
  ultimately show ?thesis using assms by (simp add: deriveGooglePubSubAlerts_def)
qed

end
