(* ===== verification/Kinesis_Alerts.thy ===== *)
theory Kinesis_Alerts
  imports Alert_Family
begin

text \<open>
  Amazon Kinesis: the readers of a stream and a registered consumer
  (\<open>mq/kinesis/destinations.ts\<close>, \<open>subscriptions.ts\<close>) and the rules (\<open>alerts.ts\<close>).
\<close>

record KinesisStream =
  ks_name :: jsstr
  ks_arn :: "jsstr option"
  ks_status :: "jsstr option"
  ks_mode :: "jsstr option"
  ks_openShards :: "jsnum option"
  ks_consumers :: "jsnum option"
  ks_retentionHours :: "jsnum option"
  ks_createdAtMs :: "jsnum option"
  ks_encryption :: "jsstr option"
  ks_kmsKeyId :: "jsstr option"
  ks_shardMetrics :: "jsstr list"

definition kinesis_text :: "Destination \<Rightarrow> string \<Rightarrow> jsstr option" where
  "kinesis_text row k = text_attr (dest_attributes row) k"

definition kinesis_number :: "Destination \<Rightarrow> string \<Rightarrow> jsnum option" where
  "kinesis_number row k = finite_reading (kinesis_text row k)"

definition or_else :: "'a option \<Rightarrow> 'a option \<Rightarrow> 'a option" where
  "or_else x y = (case x of None \<Rightarrow> y | Some v \<Rightarrow> Some v)"

definition kinesis_stream :: "Destination \<Rightarrow> KinesisStream" where
  "kinesis_stream row =
     \<lparr>ks_name = ref_name (dest_ref row),
      ks_arn = kinesis_text row ''arn'',
      ks_status = kinesis_text row ''status'',
      ks_mode = kinesis_text row ''streamMode'',
      ks_openShards = or_else (kinesis_number row ''openShards'') (metric (dest_partitions row)),
      ks_consumers = or_else (kinesis_number row ''consumers'') (metric (dest_subscribers row)),
      ks_retentionHours = kinesis_number row ''retentionHours'',
      ks_createdAtMs = kinesis_number row ''createdAt'',
      ks_encryption = kinesis_text row ''encryption'',
      ks_kmsKeyId = kinesis_text row ''kmsKeyId'',
      ks_shardMetrics = (case kinesis_text row ''shardLevelMetrics'' of None \<Rightarrow> []
        | Some metrics \<Rightarrow> split_on comma metrics)\<rparr>"

definition kinesis_stream_settling :: "KinesisStream \<Rightarrow> bool" where
  "kinesis_stream_settling e \<longleftrightarrow> ks_status e \<noteq> None \<and> ks_status e \<noteq> Some (u ''ACTIVE'')"

definition is_integer :: "jsnum \<Rightarrow> bool" where
  "is_integer x = (case x of Fin a \<Rightarrow> a = of_int \<lfloor>a\<rfloor> | _ \<Rightarrow> False)"

definition kinesis_retention :: "jsnum option \<Rightarrow> jsstr option" where
  "kinesis_retention hours = (case hours of None \<Rightarrow> None | Some h \<Rightarrow>
     if h < Fin 24 then Some (num_to_str h @ u ''h'')
     else let days = num_div h (Fin 24) in
       Some (if is_integer days then num_to_str days @ u ''d'' else num_to_str h @ u ''h''))"

record KinesisConsumer =
  kc_name :: jsstr
  kc_stream :: jsstr
  kc_arn :: "jsstr option"
  kc_status :: "jsstr option"
  kc_registeredAtMs :: "jsnum option"

definition kinesis_attribute :: "Subscription \<Rightarrow> string \<Rightarrow> jsstr option" where
  "kinesis_attribute row k = text_attr (sub_attributes row) k"

definition kinesis_consumer :: "Subscription \<Rightarrow> KinesisConsumer" where
  "kinesis_consumer row =
    (let since = kinesis_attribute row ''createdAt'';
         parsed = (case since of None \<Rightarrow> NaN | Some s \<Rightarrow> to_number s)
     in \<lparr>kc_name = sref_name (sub_ref row),
         kc_stream = nullish (kinesis_attribute row ''stream'') (sref_namespace (sub_ref row)),
         kc_arn = kinesis_attribute row ''consumerArn'',
         kc_status = kinesis_attribute row ''consumerStatus'',
         kc_registeredAtMs = (if is_finite parsed then Some parsed else None)\<rparr>)"

definition kinesis_consumer_settling :: "KinesisConsumer \<Rightarrow> bool" where
  "kinesis_consumer_settling e \<longleftrightarrow> kc_status e \<noteq> None \<and> kc_status e \<noteq> Some (u ''ACTIVE'')"

interpretation kinesis_dest: numeric_reader dest_attributes kinesis_number
  by unfold_locales (auto simp: kinesis_number_def kinesis_text_def dest: reading_not_NaN)

section \<open>The rules\<close>

definition kinesis_stream_alerts :: "KinesisStream \<Rightarrow> DerivedAlert list" where
  "kinesis_stream_alerts entry = if_some (ks_status entry) (\<lambda>status.
     push_if (status \<noteq> u ''ACTIVE'')
       (alert (u ''stream-not-active-'' @ ks_name entry) streamNotActive Warn
          [(''stream'', PStr (ks_name entry)), (''status'', PStr status)]))"

definition kinesis_consumer_alerts :: "KinesisConsumer \<Rightarrow> DerivedAlert list" where
  "kinesis_consumer_alerts entry = if_some (kc_status entry) (\<lambda>status.
     push_if (status \<noteq> u ''ACTIVE'')
       (alert (u ''consumer-not-active-'' @ kc_stream entry @ u ''-'' @ kc_name entry)
          consumerNotActive Warn
          [(''consumer'', PStr (kc_name entry)), (''stream'', PStr (kc_stream entry)),
           (''status'', PStr status)]))"

definition deriveKinesisAlerts :: derivation where
  "deriveKinesisAlerts facts rules th =
     (if enabled rules streamNotActive
      then for_each (map kinesis_stream (destinations facts)) kinesis_stream_alerts else [])
     @ (if enabled rules consumerNotActive
        then for_each (map kinesis_consumer (consumerGroups facts)) kinesis_consumer_alerts else [])"

lemma kinesis_alert_sound:
  assumes "a \<in> set (deriveKinesisAlerts f rules th)"
  shows "enabled rules (al_rule a) \<and> al_rule a \<in> set (rulesFor (Some KindKinesis)) \<and> worded a"
  using assms
  by (auto simp: deriveKinesisAlerts_def kinesis_stream_alerts_def kinesis_consumer_alerts_def rulesFor_def)

interpretation kinesis_rules: alert_family deriveKinesisAlerts
  by unfold_locales (simp_all add: kinesis_alert_sound deriveKinesisAlerts_def)

interpretation kinesis_rules: declared_family deriveKinesisAlerts KindKinesis
  by unfold_locales (simp add: kinesis_alert_sound)

interpretation kinesis_rules: swept_family deriveKinesisAlerts KindKinesis
  by unfold_locales (simp add: deriveKinesisAlerts_def KINDS_NEEDING_DESTINATIONS_def)

interpretation kinesis_rules: worded_family deriveKinesisAlerts
  by unfold_locales (simp add: kinesis_alert_sound)

interpretation kinesis_rules: thresholded_family deriveKinesisAlerts
  by unfold_locales (drule kinesis_alert_sound, auto simp: rulesFor_def)

text \<open>The rules and the boards' own test for an object that is changing agree.\<close>

lemma kinesis_stream_alerts_iff: "kinesis_stream_alerts e \<noteq> [] \<longleftrightarrow> kinesis_stream_settling e"
  by (cases "ks_status e")
    (simp_all add: kinesis_stream_alerts_def kinesis_stream_settling_def push_if_def)

lemma kinesis_consumer_alerts_iff: "kinesis_consumer_alerts e \<noteq> [] \<longleftrightarrow> kinesis_consumer_settling e"
  by (cases "kc_status e")
    (simp_all add: kinesis_consumer_alerts_def kinesis_consumer_settling_def push_if_def)

end
