(* ===== verification/ServiceBus_Alerts.thy ===== *)
theory ServiceBus_Alerts
  imports Alert_Family
begin

text \<open>
  Azure Service Bus: the readers of an entity and a subscription
  (\<open>mq/azureservicebus/entities.ts\<close>, \<open>subscriptions.ts\<close>) and the rules (\<open>alerts.ts\<close>).
\<close>

datatype EntityKind = KindQueue | KindTopic

record ServiceBusEntity =
  se_name :: jsstr
  se_kind :: EntityKind
  se_depth :: "jsnum option"
  se_deadLetterCount :: "jsnum option"
  se_scheduledCount :: "jsnum option"
  se_subscribers :: "jsnum option"
  se_subscriptionNames :: "jsstr list"
  se_status :: "jsstr option"
  se_lockDurationSec :: "jsnum option"
  se_maxDeliveryCount :: "jsnum option"
  se_ttlSec :: "jsnum option"
  se_autoDeleteOnIdleSec :: "jsnum option"
  se_maxSizeMb :: "jsnum option"
  se_requiresSession :: bool
  se_requiresDuplicateDetection :: bool
  se_deadLetterOnExpiry :: bool
  se_partitioned :: bool
  se_forwardTo :: "jsstr option"
  se_forwardDeadLettersTo :: "jsstr option"

definition azure_text :: "Destination \<Rightarrow> string \<Rightarrow> jsstr option" where
  "azure_text row k = text_attr (dest_attributes row) k"

definition azure_number :: "Destination \<Rightarrow> string \<Rightarrow> jsnum option" where
  "azure_number row k = finite_reading (azure_text row k)"

definition azure_flag :: "Destination \<Rightarrow> string \<Rightarrow> bool" where
  "azure_flag row k \<longleftrightarrow> azure_text row k = Some (u ''true'')"

definition azure_list :: "Destination \<Rightarrow> string \<Rightarrow> jsstr list" where
  "azure_list row k = (case azure_text row k of None \<Rightarrow> []
     | Some value \<Rightarrow> filter (\<lambda>part. part \<noteq> []) (split_on comma value))"

definition azure_entity :: "Destination \<Rightarrow> ServiceBusEntity" where
  "azure_entity row =
    (let kind = (if azure_text row ''entityType'' = Some (u ''topic'') then KindTopic else KindQueue) in
     \<lparr>se_name = ref_name (dest_ref row),
      se_kind = kind,
      se_depth = (if dest_depth row < Fin 0 then None else Some (dest_depth row)),
      se_deadLetterCount = azure_number row ''deadLetterCount'',
      se_scheduledCount = azure_number row ''scheduledCount'',
      se_subscribers = (if kind = KindTopic then Some (dest_subscribers row) else None),
      se_subscriptionNames = azure_list row ''subscriptionNames'',
      se_status = azure_text row ''status'',
      se_lockDurationSec = azure_number row ''lockDurationSec'',
      se_maxDeliveryCount = azure_number row ''maxDeliveryCount'',
      se_ttlSec = azure_number row ''ttlSec'',
      se_autoDeleteOnIdleSec = azure_number row ''autoDeleteOnIdleSec'',
      se_maxSizeMb = azure_number row ''maxSizeMb'',
      se_requiresSession = azure_flag row ''requiresSession'',
      se_requiresDuplicateDetection = azure_flag row ''requiresDuplicateDetection'',
      se_deadLetterOnExpiry = azure_flag row ''deadLetterOnExpiry'',
      se_partitioned = azure_flag row ''partitioned'',
      se_forwardTo = azure_text row ''forwardTo'',
      se_forwardDeadLettersTo = azure_text row ''forwardDeadLettersTo''\<rparr>)"

definition azure_discardsEverything :: "ServiceBusEntity \<Rightarrow> bool" where
  "azure_discardsEverything row \<longleftrightarrow> se_kind row = KindTopic \<and> se_subscribers row = Some (Fin 0)"

definition azure_isDisabled :: "ServiceBusEntity \<Rightarrow> bool" where
  "azure_isDisabled row \<longleftrightarrow> se_status row \<noteq> None \<and> se_status row \<noteq> Some (u ''Active'')"

record ServiceBusSubscription =
  ss_name :: jsstr
  ss_topic :: jsstr
  ss_backlog :: "jsnum option"
  ss_deadLetterCount :: "jsnum option"
  ss_ruleNames :: "jsstr list"
  ss_status :: "jsstr option"
  ss_lockDurationSec :: "jsnum option"
  ss_maxDeliveryCount :: "jsnum option"
  ss_ttlSec :: "jsnum option"
  ss_autoDeleteOnIdleSec :: "jsnum option"
  ss_requiresSession :: bool
  ss_deadLetterOnExpiry :: bool
  ss_deadLetterOnRuleError :: bool
  ss_forwardTo :: "jsstr option"
  ss_forwardDeadLettersTo :: "jsstr option"

definition azure_sub_text :: "Subscription \<Rightarrow> string \<Rightarrow> jsstr option" where
  "azure_sub_text row k = text_attr (sub_attributes row) k"

definition azure_sub_number :: "Subscription \<Rightarrow> string \<Rightarrow> jsnum option" where
  "azure_sub_number row k = finite_reading (azure_sub_text row k)"

definition azure_sub_flag :: "Subscription \<Rightarrow> string \<Rightarrow> bool" where
  "azure_sub_flag row k \<longleftrightarrow> azure_sub_text row k = Some (u ''true'')"

definition azure_subscription :: "Subscription \<Rightarrow> ServiceBusSubscription" where
  "azure_subscription row =
     \<lparr>ss_name = sref_name (sub_ref row),
      ss_topic = or_str (sref_namespace (sub_ref row)) (nullish (azure_sub_text row ''topic'') []),
      ss_backlog = (if sub_backlog row < Fin 0 then None else Some (sub_backlog row)),
      ss_deadLetterCount = azure_sub_number row ''deadLetterCount'',
      ss_ruleNames = (case azure_sub_text row ''ruleNames'' of None \<Rightarrow> []
        | Some rules \<Rightarrow> filter (\<lambda>part. part \<noteq> []) (split_on comma rules)),
      ss_status = azure_sub_text row ''status'',
      ss_lockDurationSec = azure_sub_number row ''lockDurationSec'',
      ss_maxDeliveryCount = azure_sub_number row ''maxDeliveryCount'',
      ss_ttlSec = azure_sub_number row ''ttlSec'',
      ss_autoDeleteOnIdleSec = azure_sub_number row ''autoDeleteOnIdleSec'',
      ss_requiresSession = azure_sub_flag row ''requiresSession'',
      ss_deadLetterOnExpiry = azure_sub_flag row ''deadLetterOnExpiry'',
      ss_deadLetterOnRuleError = azure_sub_flag row ''deadLetterOnRuleError'',
      ss_forwardTo = azure_sub_text row ''forwardTo'',
      ss_forwardDeadLettersTo = azure_sub_text row ''forwardDeadLettersTo''\<rparr>"

definition azure_receivesNothing :: "ServiceBusSubscription \<Rightarrow> bool" where
  "azure_receivesNothing row \<longleftrightarrow> ss_ruleNames row = []"

interpretation azure_dest: numeric_reader dest_attributes azure_number
  by unfold_locales (auto simp: azure_number_def azure_text_def dest: reading_not_NaN)

interpretation azure_sub: numeric_reader sub_attributes azure_sub_number
  by unfold_locales (auto simp: azure_sub_number_def azure_sub_text_def dest: reading_not_NaN)

section \<open>The rules\<close>

definition azure_disabled_alerts :: "AlertRulePrefs \<Rightarrow> jsstr \<Rightarrow> jsstr option \<Rightarrow> DerivedAlert list" where
  "azure_disabled_alerts rules name st = if_some st (\<lambda>status.
     push_if (enabled rules entityDisabled \<and> status \<noteq> u ''Active'')
       (alert (u ''entity-disabled-'' @ name) entityDisabled Warn
          [(''entity'', PStr name), (''status'', PStr status)]))"

definition azure_dead_letter_alerts :: "AlertRulePrefs \<Rightarrow> jsstr \<Rightarrow> jsnum option \<Rightarrow> DerivedAlert list" where
  "azure_dead_letter_alerts rules name c = if_some c (\<lambda>n.
     push_if (enabled rules dlqGrowth \<and> Fin 0 < n)
       (alert (u ''dlq-'' @ name) dlqGrowth Warn [(''group'', PStr name), (''count'', PNum n)]))"

definition azure_entity_alerts :: "AlertRulePrefs \<Rightarrow> ServiceBusEntity \<Rightarrow> DerivedAlert list" where
  "azure_entity_alerts rules row =
     push_if (enabled rules topicUnsubscribed \<and> se_kind row = KindTopic
         \<and> se_subscribers row = Some (Fin 0))
       (alert (u ''topic-unsubscribed-'' @ se_name row) topicUnsubscribed Warn
          [(''topic'', PStr (se_name row))])
     @ azure_disabled_alerts rules (se_name row) (se_status row)
     @ azure_dead_letter_alerts rules (se_name row) (se_deadLetterCount row)"

definition azure_sub_alerts :: "AlertRulePrefs \<Rightarrow> ServiceBusSubscription \<Rightarrow> DerivedAlert list" where
  "azure_sub_alerts rules row = (let path = ss_topic row @ u ''/'' @ ss_name row in
     push_if (enabled rules subscriptionUnroutable \<and> ss_ruleNames row = [])
       (alert (u ''subscription-unroutable-'' @ path) subscriptionUnroutable Warn
          [(''subscription'', PStr path)])
     @ azure_disabled_alerts rules path (ss_status row)
     @ azure_dead_letter_alerts rules path (ss_deadLetterCount row))"

definition deriveAzureServiceBusAlerts :: derivation where
  "deriveAzureServiceBusAlerts facts rules th =
     for_each (map azure_entity (destinations facts)) (azure_entity_alerts rules)
     @ for_each (map azure_subscription (consumerGroups facts)) (azure_sub_alerts rules)"

lemmas azure_alert_defs = azure_entity_alerts_def azure_sub_alerts_def azure_disabled_alerts_def
  azure_dead_letter_alerts_def Let_def

lemma azure_alert_sound:
  assumes "a \<in> set (deriveAzureServiceBusAlerts f rules th)"
  shows "enabled rules (al_rule a) \<and> al_rule a \<in> set (rulesFor (Some KindAzureServiceBus)) \<and> worded a"
  using assms by (auto simp: deriveAzureServiceBusAlerts_def azure_alert_defs rulesFor_def)

interpretation azure_rules: alert_family deriveAzureServiceBusAlerts
  by unfold_locales (simp_all add: azure_alert_sound deriveAzureServiceBusAlerts_def)

interpretation azure_rules: declared_family deriveAzureServiceBusAlerts KindAzureServiceBus
  by unfold_locales (simp add: azure_alert_sound)

interpretation azure_rules: swept_family deriveAzureServiceBusAlerts KindAzureServiceBus
  by unfold_locales (simp add: deriveAzureServiceBusAlerts_def KINDS_NEEDING_DESTINATIONS_def)

interpretation azure_rules: worded_family deriveAzureServiceBusAlerts
  by unfold_locales (simp add: azure_alert_sound)

interpretation azure_rules: thresholded_family deriveAzureServiceBusAlerts
  by unfold_locales (drule azure_alert_sound, auto simp: rulesFor_def)

lemma azure_unroutable_iff:
  "enabled rules subscriptionUnroutable \<Longrightarrow>
     (\<exists>a \<in> set (azure_sub_alerts rules row). al_rule a = subscriptionUnroutable)
       \<longleftrightarrow> azure_receivesNothing row"
  by (auto simp: azure_alert_defs azure_receivesNothing_def push_if_def if_some_def split: option.splits)

end
