(* ===== verification/IBMMQ_Alerts.thy ===== *)
theory IBMMQ_Alerts
  imports Alert_Family
begin

text \<open>
  IBM MQ: the reader of a queue or topic (\<open>mq/ibmmq/destinations.ts\<close>) and the rules
  (\<open>alerts.ts\<close>).
\<close>

record IbmMqDestination =
  im_name :: jsstr
  im_kind :: jsstr
  im_description :: "jsstr option"
  im_queueType :: "jsstr option"
  im_depth :: "jsnum option"
  im_maxDepth :: "jsnum option"
  im_maxMessageLength :: "jsnum option"
  im_openInput :: "jsnum option"
  im_openOutput :: "jsnum option"
  im_uncommitted :: "jsnum option"
  im_oldestMessageAgeSec :: "jsnum option"
  im_lastPut :: "jsstr option"
  im_lastGet :: "jsstr option"
  im_inhibitGet :: bool
  im_inhibitPut :: bool
  im_transmissionQueue :: bool
  im_backoutQueue :: "jsstr option"
  im_backoutThreshold :: "jsnum option"
  im_cluster :: "jsstr option"
  im_deadLetterQueue :: bool
  im_topicString :: "jsstr option"
  im_topicType :: "jsstr option"
  im_subscribers :: "jsnum option"
  im_altered :: "jsstr option"

definition ibmmq_text :: "Destination \<Rightarrow> string \<Rightarrow> jsstr option" where
  "ibmmq_text row k = text_attr (dest_attributes row) k"

definition ibmmq_number :: "Destination \<Rightarrow> string \<Rightarrow> jsnum option" where
  "ibmmq_number row k = finite_reading (ibmmq_text row k)"

definition ibmmq_flag :: "Destination \<Rightarrow> string \<Rightarrow> bool" where
  "ibmmq_flag row k \<longleftrightarrow> attr_flag (dest_attributes row) k"

definition ibmmq_destination :: "Destination \<Rightarrow> IbmMqDestination" where
  "ibmmq_destination row = (let kind = nullish (ibmmq_text row ''kind'') (u ''queue'') in
     \<lparr>im_name = ref_name (dest_ref row),
      im_kind = kind,
      im_description = ibmmq_text row ''description'',
      im_queueType = (if kind = u ''queue'' then ibmmq_text row ''queueType'' else None),
      im_depth = metric (dest_depth row),
      im_maxDepth = ibmmq_number row ''maxDepth'',
      im_maxMessageLength = ibmmq_number row ''maxMessageLength'',
      im_openInput = ibmmq_number row ''openInput'',
      im_openOutput = ibmmq_number row ''openOutput'',
      im_uncommitted = ibmmq_number row ''uncommitted'',
      im_oldestMessageAgeSec = ibmmq_number row ''oldestMessageAgeSec'',
      im_lastPut = ibmmq_text row ''lastPut'',
      im_lastGet = ibmmq_text row ''lastGet'',
      im_inhibitGet = ibmmq_flag row ''inhibitGet'',
      im_inhibitPut = ibmmq_flag row ''inhibitPut'',
      im_transmissionQueue = ibmmq_flag row ''transmissionQueue'',
      im_backoutQueue = ibmmq_text row ''backoutQueue'',
      im_backoutThreshold = ibmmq_number row ''backoutThreshold'',
      im_cluster = ibmmq_text row ''cluster'',
      im_deadLetterQueue = ibmmq_flag row ''deadLetterQueue'',
      im_topicString = ibmmq_text row ''topicString'',
      im_topicType = ibmmq_text row ''topicType'',
      im_subscribers = (if kind = u ''topic'' then metric (dest_subscribers row) else None),
      im_altered = ibmmq_text row ''altered''\<rparr>)"

definition ibmmq_inhibited :: "IbmMqDestination \<Rightarrow> bool" where
  "ibmmq_inhibited e \<longleftrightarrow> im_inhibitGet e \<or> im_inhibitPut e"

definition ibmmq_fullness :: "IbmMqDestination \<Rightarrow> jsnum option" where
  "ibmmq_fullness e = (case (im_depth e, im_maxDepth e) of
     (Some depth, Some mx) \<Rightarrow> if mx \<le> Fin 0 then None else Some (num_div depth mx)
   | _ \<Rightarrow> None)"

interpretation ibmmq_dest: numeric_reader dest_attributes ibmmq_number
  by unfold_locales (auto simp: ibmmq_number_def ibmmq_text_def dest: reading_not_NaN)

section \<open>The rules\<close>

definition ibmmq_inhibit_status :: "IbmMqDestination \<Rightarrow> jsstr" where
  "ibmmq_inhibit_status e = (if im_inhibitPut e then
       (if im_inhibitGet e then u ''put and get inhibited'' else u ''put inhibited'')
     else u ''get inhibited'')"

definition ibmmq_depth_alerts :: "AlertRulePrefs \<Rightarrow> jsnum \<Rightarrow> IbmMqDestination \<Rightarrow> DerivedAlert list" where
  "ibmmq_depth_alerts rules lagThreshold e =
    (let depth = nullish (im_depth e) (Fin 0); name = im_name e in
     if im_deadLetterQueue e then
       push_if (enabled rules dlqGrowth \<and> Fin 0 < depth)
         (alert (u ''dlq-'' @ name) dlqGrowth Warn [(''group'', PStr name), (''count'', PNum depth)])
     else if enabled rules transmissionBacklog \<and> im_transmissionQueue e \<and> Fin 0 < depth then
       [alert (u ''transmission-'' @ name) transmissionBacklog Warn
          [(''queue'', PStr name), (''count'', PNum depth)]]
     else if enabled rules queueNoConsumer \<and> Fin 0 < depth
         \<and> nullish (im_openInput e) (Fin 0) = Fin 0 then
       [alert (u ''queue-no-consumer-'' @ name) queueNoConsumer Warn
          [(''queue'', PStr name), (''lag'', PNum depth)]]
     else push_if (enabled rules queueBacklog \<and> Fin 0 < lagThreshold \<and> lagThreshold \<le> depth)
       (alert (u ''queue-backlog-'' @ name) queueBacklog Warn
          [(''queue'', PStr name), (''lag'', PNum depth), (''threshold'', PNum lagThreshold)]))"

definition ibmmq_queue_alerts :: "AlertRulePrefs \<Rightarrow> jsnum \<Rightarrow> IbmMqDestination \<Rightarrow> DerivedAlert list" where
  "ibmmq_queue_alerts rules lagThreshold e =
    (if im_kind e \<noteq> u ''queue'' then []
     else push_if (enabled rules entityDisabled \<and> ibmmq_inhibited e)
         (alert (u ''inhibited-'' @ im_name e) entityDisabled Warn
            [(''entity'', PStr (im_name e)), (''status'', PStr (ibmmq_inhibit_status e))])
       @ ibmmq_depth_alerts rules lagThreshold e)"

definition deriveIbmMqAlerts :: derivation where
  "deriveIbmMqAlerts facts rules th =
     for_each (destinations facts) (\<lambda>row. ibmmq_queue_alerts rules (lag th) (ibmmq_destination row))"

lemma ibmmq_depth_alert_cases:
  assumes "a \<in> set (ibmmq_depth_alerts rules l e)"
  shows "enabled rules (al_rule a) \<and> worded a
    \<and> al_rule a \<in> {dlqGrowth, transmissionBacklog, queueNoConsumer, queueBacklog}
    \<and> (al_rule a = queueBacklog \<longrightarrow> Fin 0 < l)"
  using assms by (auto simp: ibmmq_depth_alerts_def Let_def)

lemma ibmmq_depth_alerts_length: "length (ibmmq_depth_alerts rules l e) \<le> 1"
  by (simp add: ibmmq_depth_alerts_def push_if_def Let_def)

lemma ibmmq_alert_sound:
  assumes "a \<in> set (deriveIbmMqAlerts f rules th)"
  shows "enabled rules (al_rule a) \<and> al_rule a \<in> set (rulesFor (Some KindIBMMQ)) \<and> worded a
    \<and> (al_rule a = queueBacklog \<longrightarrow> Fin 0 < lag th)"
  using assms
  by (auto simp: deriveIbmMqAlerts_def ibmmq_queue_alerts_def rulesFor_def
      dest!: ibmmq_depth_alert_cases)

interpretation ibmmq_rules: alert_family deriveIbmMqAlerts
  by unfold_locales (simp_all add: ibmmq_alert_sound deriveIbmMqAlerts_def)

interpretation ibmmq_rules: declared_family deriveIbmMqAlerts KindIBMMQ
  by unfold_locales (simp add: ibmmq_alert_sound)

interpretation ibmmq_rules: swept_family deriveIbmMqAlerts KindIBMMQ
  by unfold_locales (simp add: deriveIbmMqAlerts_def KINDS_NEEDING_DESTINATIONS_def)

interpretation ibmmq_rules: worded_family deriveIbmMqAlerts
  by unfold_locales (simp add: ibmmq_alert_sound)

interpretation ibmmq_rules: thresholded_family deriveIbmMqAlerts
  by unfold_locales (drule ibmmq_alert_sound, auto simp: rulesFor_def)

section \<open>The properties of the rules\<close>

text \<open>
  The queue manager's dead letter queue is reported as growing when it holds anything, and
  as inhibited when it is, and never as a backlog, as unattended or as a transmission queue.
\<close>

lemma ibmmq_dead_letter_rules:
  assumes "im_deadLetterQueue (ibmmq_destination row)" and "enabled rules dlqGrowth"
    and "im_kind (ibmmq_destination row) = u ''queue''"
  shows "map al_rule (ibmmq_queue_alerts rules l (ibmmq_destination row)) =
    (if enabled rules entityDisabled \<and> ibmmq_inhibited (ibmmq_destination row) then [entityDisabled] else [])
    @ (if Fin 0 < nullish (metric (dest_depth row)) (Fin 0) then [dlqGrowth] else [])"
  using assms
  by (auto simp: ibmmq_queue_alerts_def ibmmq_depth_alerts_def Let_def push_if_def ibmmq_destination_def)

end
