(* ===== verification/Solace_Alerts.thy ===== *)
theory Solace_Alerts
  imports Alert_Family
begin

text \<open>
  Solace: the readers of a queue, a broker and an overview (\<open>mq/solace/destinations.ts\<close>,
  \<open>cluster.ts\<close>) and the rules (\<open>alerts.ts\<close>).
\<close>

section \<open>Queues\<close>

record SolaceDestination =
  so_name :: jsstr
  so_depth :: "jsnum option"
  so_boundConsumers :: "jsnum option"
  so_rateIn :: "jsnum option"
  so_rateOut :: "jsnum option"
  so_accessType :: "jsstr option"
  so_permission :: "jsstr option"
  so_owner :: "jsstr option"
  so_durable :: bool
  so_ingressEnabled :: bool
  so_egressEnabled :: bool
  so_spoolUsageBytes :: "jsnum option"
  so_maxSpoolUsageMb :: "jsnum option"
  so_maxMsgSizeBytes :: "jsnum option"
  so_partitionCount :: "jsnum option"
  so_virtualRouter :: "jsstr option"
  so_createdByManagement :: bool
  so_deadMsgQueue :: "jsstr option"
  so_maxRedeliveryCount :: "jsnum option"
  so_respectTtlEnabled :: bool
  so_maxTtlSec :: "jsnum option"
  so_respectDmqEligibleEnabled :: bool
  so_redeliveredMsgCount :: "jsnum option"
  so_unackedMsgCount :: "jsnum option"
  so_ttlExpiredToDmq :: "jsnum option"
  so_redeliveryExceededToDmq :: "jsnum option"
  so_spooledTotal :: "jsnum option"

definition solace_text :: "Destination \<Rightarrow> string \<Rightarrow> jsstr option" where
  "solace_text row k = text_attr (dest_attributes row) k"

definition solace_number :: "Destination \<Rightarrow> string \<Rightarrow> jsnum option" where
  "solace_number row k = finite_reading (solace_text row k)"

definition solace_flag :: "Destination \<Rightarrow> string \<Rightarrow> bool" where
  "solace_flag row k \<longleftrightarrow> attr_flag (dest_attributes row) k"

definition solace_destination :: "Destination \<Rightarrow> SolaceDestination" where
  "solace_destination row =
     \<lparr>so_name = ref_name (dest_ref row),
      so_depth = metric (dest_depth row),
      so_boundConsumers = metric (dest_subscribers row),
      so_rateIn = metric (dest_rateIn row),
      so_rateOut = metric (dest_rateOut row),
      so_accessType = solace_text row ''accessType'',
      so_permission = solace_text row ''permission'',
      so_owner = solace_text row ''owner'',
      so_durable = solace_flag row ''durable'',
      so_ingressEnabled = solace_flag row ''ingressEnabled'',
      so_egressEnabled = solace_flag row ''egressEnabled'',
      so_spoolUsageBytes = solace_number row ''spoolUsageBytes'',
      so_maxSpoolUsageMb = solace_number row ''maxSpoolUsageMb'',
      so_maxMsgSizeBytes = solace_number row ''maxMsgSizeBytes'',
      so_partitionCount = solace_number row ''partitionCount'',
      so_virtualRouter = solace_text row ''virtualRouter'',
      so_createdByManagement = solace_flag row ''createdByManagement'',
      so_deadMsgQueue = solace_text row ''deadMsgQueue'',
      so_maxRedeliveryCount = solace_number row ''maxRedeliveryCount'',
      so_respectTtlEnabled = solace_flag row ''respectTtlEnabled'',
      so_maxTtlSec = solace_number row ''maxTtlSec'',
      so_respectDmqEligibleEnabled = solace_flag row ''respectDmqEligibleEnabled'',
      so_redeliveredMsgCount = solace_number row ''redeliveredMsgCount'',
      so_unackedMsgCount = solace_number row ''txUnackedMsgCount'',
      so_ttlExpiredToDmq = solace_number row ''ttlExpiredToDmqMsgCount'',
      so_redeliveryExceededToDmq = solace_number row ''maxRedeliveryToDmqMsgCount'',
      so_spooledTotal = solace_number row ''spooledMsgCountTotal''\<rparr>"

definition solace_halted :: "SolaceDestination \<Rightarrow> bool" where
  "solace_halted e \<longleftrightarrow> \<not> so_ingressEnabled e \<or> \<not> so_egressEnabled e"

definition solace_fullness :: "SolaceDestination \<Rightarrow> jsnum option" where
  "solace_fullness e = (case (so_spoolUsageBytes e, so_maxSpoolUsageMb e) of
     (Some used, Some mx) \<Rightarrow> if mx \<le> Fin 0 then None
        else Some (num_div used (num_mul (num_mul mx (Fin 1024)) (Fin 1024)))
   | _ \<Rightarrow> None)"

definition solace_hasDeadMsgQueue :: "SolaceDestination \<Rightarrow> bool" where
  "solace_hasDeadMsgQueue e \<longleftrightarrow> so_deadMsgQueue e \<noteq> None \<and> so_deadMsgQueue e \<noteq> Some []"

section \<open>Brokers\<close>

record SolaceBroker =
  sb_address :: jsstr
  sb_version :: "jsstr option"
  sb_msgVpn :: jsstr
  sb_msgVpnState :: "jsstr option"
  sb_online :: bool
  sb_rateIn :: "jsnum option"
  sb_rateOut :: "jsnum option"
  sb_spoolPercent :: "jsnum option"
  sb_spoolUsedBytes :: "jsnum option"
  sb_spoolMaxMb :: "jsnum option"
  sb_brokerSpoolMaxMb :: "jsnum option"
  sb_spoolMsgCount :: "jsnum option"
  sb_maxConnections :: "jsnum option"
  sb_redundancyEnabled :: bool

record SolaceOverview =
  sv_msgVpn :: jsstr
  sv_version :: "jsstr option"
  sv_queues :: "jsnum option"
  sv_topicEndpoints :: "jsnum option"
  sv_clients :: "jsnum option"
  sv_spoolPercent :: "jsnum option"
  sv_spoolUsedBytes :: "jsnum option"
  sv_spoolMaxMb :: "jsnum option"
  sv_spoolMsgCount :: "jsnum option"
  sv_msgVpnState :: "jsstr option"

definition solace_attribute :: "attributes \<Rightarrow> string \<Rightarrow> jsstr option" where
  "solace_attribute a k = text_attr a k"

definition solace_numberAttribute :: "attributes \<Rightarrow> string \<Rightarrow> jsnum option" where
  "solace_numberAttribute a k = finite_reading (solace_attribute a k)"

definition solace_broker :: "Node \<Rightarrow> SolaceBroker" where
  "solace_broker n = (let a = node_attributes n in
     \<lparr>sb_address = node_address n,
      sb_version = or_undefined (node_version n),
      sb_msgVpn = nullish (solace_attribute a ''msgVpn'') (node_cluster n),
      sb_msgVpnState = solace_attribute a ''msgVpnState'',
      sb_online = (node_status n = NodeOnline),
      sb_rateIn = metric (node_rateIn n),
      sb_rateOut = metric (node_rateOut n),
      sb_spoolPercent = metric (node_diskUsage n),
      sb_spoolUsedBytes = solace_numberAttribute a ''spoolUsedBytes'',
      sb_spoolMaxMb = solace_numberAttribute a ''spoolMaxMb'',
      sb_brokerSpoolMaxMb = solace_numberAttribute a ''brokerSpoolMaxMb'',
      sb_spoolMsgCount = solace_numberAttribute a ''spoolMsgCount'',
      sb_maxConnections = solace_numberAttribute a ''maxConnections'',
      sb_redundancyEnabled = attr_flag a ''redundancyEnabled''\<rparr>)"

definition number_or :: "jsnum option \<Rightarrow> jsnum option \<Rightarrow> jsnum option" where
  "number_or x y = (case x of None \<Rightarrow> y | Some v \<Rightarrow> Some v)"

definition solace_overview :: "ClusterOverview \<Rightarrow> SolaceOverview" where
  "solace_overview view = (let a = co_attributes view in
     \<lparr>sv_msgVpn = nullish (solace_attribute a ''msgVpn'') (co_name view),
      sv_version = solace_attribute a ''version'',
      sv_queues = number_or (solace_numberAttribute a ''queueCount'') (metric (co_destinations view)),
      sv_topicEndpoints =
        number_or (solace_numberAttribute a ''topicEndpointCount'') (metric (co_subscriptions view)),
      sv_clients = solace_numberAttribute a ''clientCount'',
      sv_spoolPercent = metric (co_avgDiskUsage view),
      sv_spoolUsedBytes = solace_numberAttribute a ''spoolUsedBytes'',
      sv_spoolMaxMb = solace_numberAttribute a ''spoolMaxMb'',
      sv_spoolMsgCount = solace_numberAttribute a ''spoolMsgCount'',
      sv_msgVpnState = solace_attribute a ''msgVpnState''\<rparr>)"

definition solace_msgVpnServing :: "jsstr option \<Rightarrow> bool" where
  "solace_msgVpnServing state \<longleftrightarrow> state = Some (u ''up'')"

interpretation solace_dest: numeric_reader dest_attributes solace_number
  by unfold_locales (auto simp: solace_number_def solace_text_def dest: reading_not_NaN)

interpretation solace_any: numeric_reader "\<lambda>a. a" solace_numberAttribute
  by unfold_locales (auto simp: solace_numberAttribute_def solace_attribute_def dest: reading_not_NaN)

section \<open>The rules\<close>

definition CRITICAL_SPOOL :: jsnum where
  "CRITICAL_SPOOL = Fin 95"

definition solace_willGiveUp :: "jsnum option \<Rightarrow> bool \<Rightarrow> jsnum option \<Rightarrow> bool" where
  "solace_willGiveUp maxRedeliveryCount respectTtl maxTtlSec =
    (if Fin 0 < nullish maxRedeliveryCount (Fin 0) then True
     else respectTtl \<and> Fin 0 < nullish maxTtlSec (Fin 0))"

definition solace_halt_status :: "SolaceDestination \<Rightarrow> jsstr" where
  "solace_halt_status e = (if \<not> so_ingressEnabled e then
       (if so_egressEnabled e then u ''ingress disabled'' else u ''ingress and egress disabled'')
     else u ''egress disabled'')"

definition solace_missing_alerts :: "AlertRulePrefs \<Rightarrow> jsstr list \<Rightarrow> SolaceDestination \<Rightarrow> DerivedAlert list" where
  "solace_missing_alerts rules byName e = if_some (so_deadMsgQueue e) (\<lambda>target.
     push_if (enabled rules deadMsgQueueMissing \<and> target \<noteq> [] \<and> target \<notin> set byName
         \<and> solace_willGiveUp (so_maxRedeliveryCount e) (so_respectTtlEnabled e) (so_maxTtlSec e))
       (alert (u ''dmq-missing-'' @ so_name e) deadMsgQueueMissing Warn
          [(''queue'', PStr (so_name e)), (''target'', PStr target)]))"

definition solace_depth_alerts ::
    "AlertRulePrefs \<Rightarrow> jsnum \<Rightarrow> jsstr list \<Rightarrow> SolaceDestination \<Rightarrow> DerivedAlert list" where
  "solace_depth_alerts rules lagThreshold deadMsgQueues e =
    (let depth = nullish (so_depth e) (Fin 0); name = so_name e in
     if name \<in> set deadMsgQueues then
       push_if (enabled rules dlqGrowth \<and> Fin 0 < depth)
         (alert (u ''dlq-'' @ name) dlqGrowth Warn [(''group'', PStr name), (''count'', PNum depth)])
     else if enabled rules queueNoConsumer \<and> Fin 0 < depth
         \<and> nullish (so_boundConsumers e) (Fin 0) = Fin 0 then
       [alert (u ''queue-no-consumer-'' @ name) queueNoConsumer Warn
          [(''queue'', PStr name), (''lag'', PNum depth)]]
     else push_if (enabled rules queueBacklog \<and> Fin 0 < lagThreshold \<and> lagThreshold \<le> depth)
       (alert (u ''queue-backlog-'' @ name) queueBacklog Warn
          [(''queue'', PStr name), (''lag'', PNum depth), (''threshold'', PNum lagThreshold)]))"

definition solace_queue_alerts ::
    "AlertRulePrefs \<Rightarrow> jsnum \<Rightarrow> jsstr list \<Rightarrow> jsstr list \<Rightarrow> SolaceDestination \<Rightarrow> DerivedAlert list" where
  "solace_queue_alerts rules lagThreshold byName deadMsgQueues e =
     solace_missing_alerts rules byName e
     @ push_if (enabled rules entityDisabled \<and> solace_halted e)
        (alert (u ''halted-'' @ so_name e) entityDisabled Warn
           [(''entity'', PStr (so_name e)), (''status'', PStr (solace_halt_status e))])
     @ solace_depth_alerts rules lagThreshold deadMsgQueues e"

definition solace_node_alerts :: "AlertRulePrefs \<Rightarrow> jsnum \<Rightarrow> Node \<Rightarrow> DerivedAlert list" where
  "solace_node_alerts rules diskThreshold n = (let usage = node_diskUsage n in
     push_if (enabled rules diskUsage \<and> Fin 0 < diskThreshold \<and> diskThreshold \<le> usage)
       (alert (u ''spool-'' @ node_name n) diskUsage (if CRITICAL_SPOOL \<le> usage then Crit else Warn)
          [(''broker'', PStr (node_name n)), (''usage'', PNum usage),
           (''threshold'', PNum diskThreshold)]))"

definition solace_dead_msg_queues :: "SolaceDestination list \<Rightarrow> jsstr list" where
  "solace_dead_msg_queues queues =
     for_each queues (\<lambda>e. if_some (so_deadMsgQueue e) (\<lambda>q. push_if (q \<noteq> []) q))"

definition deriveSolaceAlerts :: derivation where
  "deriveSolaceAlerts facts rules th =
    (let queues = map solace_destination (destinations facts);
         byName = map so_name queues;
         deadMsgQueues = solace_dead_msg_queues queues
     in for_each queues (solace_queue_alerts rules (lag th) byName deadMsgQueues)
        @ for_each (nodes facts) (solace_node_alerts rules (disk th)))"

lemma solace_depth_alert_cases:
  assumes "a \<in> set (solace_depth_alerts rules l dmqs e)"
  shows "enabled rules (al_rule a) \<and> worded a
    \<and> al_rule a \<in> {dlqGrowth, queueNoConsumer, queueBacklog}
    \<and> (al_rule a = queueBacklog \<longrightarrow> Fin 0 < l)"
  using assms by (auto simp: solace_depth_alerts_def Let_def)

lemma solace_missing_alert_cases:
  assumes "a \<in> set (solace_missing_alerts rules byName e)"
  shows "enabled rules (al_rule a) \<and> worded a \<and> al_rule a = deadMsgQueueMissing"
  using assms by (auto simp: solace_missing_alerts_def)

lemma solace_queue_alert_cases:
  assumes "a \<in> set (solace_queue_alerts rules l byName dmqs e)"
  shows "enabled rules (al_rule a) \<and> worded a
    \<and> al_rule a \<in> {deadMsgQueueMissing, entityDisabled, dlqGrowth, queueNoConsumer, queueBacklog}
    \<and> (al_rule a = queueBacklog \<longrightarrow> Fin 0 < l)"
  using assms
  by (auto simp: solace_queue_alerts_def dest!: solace_depth_alert_cases solace_missing_alert_cases)

lemma solace_alert_sound:
  assumes "a \<in> set (deriveSolaceAlerts f rules th)"
  shows "enabled rules (al_rule a) \<and> al_rule a \<in> set (rulesFor (Some KindSolace)) \<and> worded a
    \<and> (al_rule a = queueBacklog \<longrightarrow> Fin 0 < lag th)"
  using assms
  by (auto simp: deriveSolaceAlerts_def Let_def rulesFor_def solace_node_alerts_def
      dest!: solace_queue_alert_cases)

interpretation solace_rules: alert_family deriveSolaceAlerts
  by unfold_locales (simp_all add: solace_alert_sound deriveSolaceAlerts_def)

interpretation solace_rules: declared_family deriveSolaceAlerts KindSolace
  by unfold_locales (simp add: solace_alert_sound)

interpretation solace_rules: swept_family deriveSolaceAlerts KindSolace
  by unfold_locales (simp add: deriveSolaceAlerts_def KINDS_NEEDING_DESTINATIONS_def)

interpretation solace_rules: worded_family deriveSolaceAlerts
  by unfold_locales (simp add: solace_alert_sound)

interpretation solace_rules: thresholded_family deriveSolaceAlerts
  by unfold_locales (drule solace_alert_sound, auto simp: rulesFor_def)

text \<open>An attribute is never the empty string, so an endpoint has a dead message queue or none.\<close>

lemma solace_dead_target: "so_deadMsgQueue (solace_destination row) = Some t \<Longrightarrow> t \<noteq> []"
  by (auto simp: solace_destination_def solace_text_def text_attr_def split: option.splits if_splits)

section \<open>The properties of the rules\<close>

text \<open>
  A queue is reported to name a dead message queue that does not exist exactly when it
  names one, no endpoint listed has that name, and its own settings let a message give up on
  it.
\<close>

lemma solace_missing_exact:
  assumes "enabled rules deadMsgQueueMissing"
  shows "{a \<in> set (deriveSolaceAlerts f rules th). al_rule a = deadMsgQueueMissing \<and> al_key a = u ''dmq-missing-'' @ n} \<noteq> {}
    \<longleftrightarrow> (\<exists>row \<in> set (destinations f). so_name (solace_destination row) = n
       \<and> (\<exists>target. solace_text row ''deadMsgQueue'' = Some target
            \<and> (\<forall>other \<in> set (destinations f). so_name (solace_destination other) \<noteq> target))
       \<and> (Fin 0 < nullish (solace_number row ''maxRedeliveryCount'') (Fin 0)
          \<or> solace_flag row ''respectTtlEnabled'' \<and> Fin 0 < nullish (solace_number row ''maxTtlSec'') (Fin 0)))"
proof -
  define names where "names = map so_name (map solace_destination (destinations f))"
  define dmqs where "dmqs = solace_dead_msg_queues (map solace_destination (destinations f))"
  let ?P = "\<lambda>a. al_rule a = deadMsgQueueMissing \<and> al_key a = u ''dmq-missing-'' @ n"
  have e: "{a \<in> set (solace_queue_alerts rules (lag th) names dmqs (solace_destination row)). ?P a} \<noteq> {}
      \<longleftrightarrow> so_name (solace_destination row) = n
       \<and> (\<exists>target. solace_text row ''deadMsgQueue'' = Some target \<and> target \<notin> set names)
       \<and> (Fin 0 < nullish (solace_number row ''maxRedeliveryCount'') (Fin 0)
          \<or> solace_flag row ''respectTtlEnabled'' \<and> Fin 0 < nullish (solace_number row ''maxTtlSec'') (Fin 0))" for row
  proof -
    have "{a \<in> set (solace_queue_alerts rules (lag th) names dmqs (solace_destination row)). ?P a}
       = {a \<in> set (solace_missing_alerts rules names (solace_destination row)). ?P a}"
      by (auto simp: solace_queue_alerts_def dest: solace_depth_alert_cases)
    moreover have "so_deadMsgQueue (solace_destination row) = solace_text row ''deadMsgQueue''"
      "so_maxRedeliveryCount (solace_destination row) = solace_number row ''maxRedeliveryCount''"
      "so_respectTtlEnabled (solace_destination row) = solace_flag row ''respectTtlEnabled''"
      "so_maxTtlSec (solace_destination row) = solace_number row ''maxTtlSec''"
      by (simp_all add: solace_destination_def)
    ultimately show ?thesis
      using assms solace_dead_target [of row]
      by (auto simp: solace_missing_alerts_def solace_willGiveUp_def)
  qed
  have "{a \<in> set (deriveSolaceAlerts f rules th). ?P a} \<noteq> {} \<longleftrightarrow>
    (\<exists>row \<in> set (destinations f). {a \<in> set (solace_queue_alerts rules (lag th) names dmqs (solace_destination row)). ?P a} \<noteq> {})"
    by (auto simp: deriveSolaceAlerts_def Let_def names_def dmqs_def solace_node_alerts_def)
  then show ?thesis unfolding e by (auto simp: names_def image_iff)
qed

end
