(* ===== verification/Alert_Derive.thy ===== *)
theory Alert_Derive
  imports RabbitMQ_Alerts Kafka_Alerts RocketMQ_Alerts MQTT_Alerts Pulsar_Alerts Redis_Alerts
    NATS_Alerts ActiveMQ_Alerts NSQ_Alerts SQS_Alerts PubSub_Alerts Kinesis_Alerts
    ServiceBus_Alerts IBMMQ_Alerts Solace_Alerts
begin

text \<open>
  The dispatch between the fifteen rule sets and the order of its result
  (\<open>deriveAlerts\<close> of \<open>lib/alertDerive.ts\<close>). What holds of every family is proved here once,
  from the families' interpretations.
\<close>

section \<open>Dispatch\<close>

definition derive_by_kind :: "(jsstr \<Rightarrow> jsstr \<Rightarrow> int) \<Rightarrow> MQKind option \<Rightarrow> derivation" where
  "derive_by_kind cmp kind facts rules th = (case kind of
     Some KindRabbitMQ \<Rightarrow> deriveRabbitMQAlerts facts rules th
   | Some KindKafka \<Rightarrow> deriveKafkaAlerts facts rules th
   | Some KindMQTT \<Rightarrow> deriveMqttAlerts facts rules th
   | Some KindPulsar \<Rightarrow> derivePulsarAlerts facts rules th
   | Some KindRedisStream \<Rightarrow> deriveRedisAlerts facts rules th
   | Some KindNATS \<Rightarrow> deriveNatsAlerts facts rules th
   | Some KindActiveMQ \<Rightarrow> deriveActiveMQAlerts facts rules th
   | Some KindNSQ \<Rightarrow> deriveNsqAlerts facts rules th
   | Some KindSQS \<Rightarrow> deriveSqsAlerts facts rules th
   | Some KindGooglePubSub \<Rightarrow> deriveGooglePubSubAlerts cmp facts rules th
   | Some KindAzureServiceBus \<Rightarrow> deriveAzureServiceBusAlerts facts rules th
   | Some KindKinesis \<Rightarrow> deriveKinesisAlerts facts rules th
   | Some KindIBMMQ \<Rightarrow> deriveIbmMqAlerts facts rules th
   | Some KindSolace \<Rightarrow> deriveSolaceAlerts facts rules th
   | _ \<Rightarrow> deriveRocketMQAlerts facts rules th)"

definition deriveAlerts :: "(jsstr \<Rightarrow> jsstr \<Rightarrow> int) \<Rightarrow> MQKind option \<Rightarrow> derivation" where
  "deriveAlerts cmp kind facts rules th =
     sort_by (\<lambda>left right. severityWeight (al_severity right) - severityWeight (al_severity left))
       (derive_by_kind cmp kind facts rules th)"

text \<open>The comparison is by weight, so the sort is the library's stable one.\<close>

lemma sort_by_key:
  fixes k :: "'a \<Rightarrow> 'b::linorder"
  assumes "\<And>x y. cmp x y \<le> 0 \<longleftrightarrow> k x \<le> k y"
  shows "sort_by cmp xs = sort_key k xs"
proof -
  have "insert_by cmp x ys = insort_key k x ys" for x ys
    by (induction ys) (simp_all add: assms)
  then show ?thesis by (induction xs) (simp_all add: sort_by_def)
qed

lemma deriveAlerts_sort_key:
  "deriveAlerts cmp kind f rules th =
     sort_key (\<lambda>a. - severityWeight (al_severity a)) (derive_by_kind cmp kind f rules th)"
  unfolding deriveAlerts_def by (rule sort_by_key) auto

lemma set_deriveAlerts [simp]:
  "set (deriveAlerts cmp kind f rules th) = set (derive_by_kind cmp kind f rules th)"
  by (simp add: deriveAlerts_sort_key)

lemma deriveAlerts_cong:
  "derive_by_kind cmp kind f rules th = derive_by_kind cmp kind g rules th
   \<Longrightarrow> deriveAlerts cmp kind f rules th = deriveAlerts cmp kind g rules th"
  by (simp add: deriveAlerts_def)

section \<open>The dispatch keeps the families' contract\<close>

lemma derive_by_kind_enabled:
  "a \<in> set (derive_by_kind cmp kind f rules th) \<Longrightarrow> enabled rules (al_rule a)"
  by (auto simp: derive_by_kind_def rabbit_rules.only_enabled kafka_rules.only_enabled
      mqtt_rules.only_enabled pulsar_rules.only_enabled redis_rules.only_enabled
      nats_rules.only_enabled activemq_rules.only_enabled nsq_rules.only_enabled
      sqs_rules.only_enabled pubsub_rules.only_enabled azure_rules.only_enabled
      kinesis_rules.only_enabled ibmmq_rules.only_enabled solace_rules.only_enabled
      rocket_rules.only_enabled split: option.splits MQKind.splits)

lemma derive_by_kind_quiet: "derive_by_kind cmp kind NO_FACTS rules th = []"
  by (simp add: derive_by_kind_def rabbit_rules.quiet kafka_rules.quiet mqtt_rules.quiet
      pulsar_rules.quiet redis_rules.quiet nats_rules.quiet activemq_rules.quiet nsq_rules.quiet
      sqs_rules.quiet pubsub_rules.quiet azure_rules.quiet kinesis_rules.quiet ibmmq_rules.quiet
      solace_rules.quiet rocket_rules.quiet split: option.splits MQKind.splits)

interpretation derive_rules: alert_family "deriveAlerts cmp kind" for cmp kind
  by unfold_locales
    (simp_all add: derive_by_kind_enabled derive_by_kind_quiet deriveAlerts_sort_key)

lemma derive_by_kind_declared:
  assumes "a \<in> set (derive_by_kind cmp (Some k) f rules th)" and "k \<noteq> KindMQTT"
  shows "al_rule a \<in> set (rulesFor (Some k))"
proof -
  have z: "rulesFor (Some KindZero) = rulesFor (Some KindRocketMQ)" by (simp add: rulesFor_def)
  show ?thesis using assms
    by (cases k) (simp_all add: derive_by_kind_def rabbit_rules.declared kafka_rules.declared
      pulsar_rules.declared redis_rules.declared nats_rules.declared activemq_rules.declared
      nsq_rules.declared sqs_rules.declared pubsub_rules.declared azure_rules.declared
      kinesis_rules.declared ibmmq_rules.declared solace_rules.declared rocket_rules.declared z)
qed

lemma derive_by_kind_swept:
  assumes "k \<noteq> KindMQTT"
  shows "derive_by_kind cmp (Some k) (sweep_facts k f) rules th = derive_by_kind cmp (Some k) f rules th"
proof -
  have z: "sweep_facts KindZero f = sweep_facts KindRocketMQ f"
    by (simp add: sweep_facts_def KINDS_NEEDING_DESTINATIONS_def)
  show ?thesis using assms
    by (cases k) (simp_all add: derive_by_kind_def rabbit_rules.swept kafka_rules.swept
      pulsar_rules.swept redis_rules.swept nats_rules.swept activemq_rules.swept
      nsq_rules.swept sqs_rules.swept pubsub_rules.swept azure_rules.swept
      kinesis_rules.swept ibmmq_rules.swept solace_rules.swept rocket_rules.swept z)
qed

lemma derive_by_kind_worded:
  assumes "a \<in> set (derive_by_kind cmp kind f rules th)" and "kind \<noteq> Some KindRedisStream"
  shows "worded a"
  using assms
  by (auto simp: derive_by_kind_def rabbit_rules.all_worded kafka_rules.all_worded
      mqtt_rules.all_worded pulsar_rules.all_worded nats_rules.all_worded
      activemq_rules.all_worded nsq_rules.all_worded sqs_rules.all_worded
      pubsub_rules.all_worded azure_rules.all_worded kinesis_rules.all_worded
      ibmmq_rules.all_worded solace_rules.all_worded rocket_rules.all_worded
      split: option.splits MQKind.splits)

lemma derive_by_kind_threshold:
  assumes "a \<in> set (derive_by_kind cmp kind f rules th)" and "kind \<noteq> Some KindMQTT"
    and "lag th = Fin 0"
  shows "al_rule a \<noteq> groupLag \<and> al_rule a \<noteq> queueBacklog"
proof -
  note facts = rabbit_rules.no_backlog kafka_rules.no_backlog pulsar_rules.no_backlog
    redis_rules.no_backlog nats_rules.no_backlog activemq_rules.no_backlog nsq_rules.no_backlog
    sqs_rules.no_backlog pubsub_rules.no_backlog azure_rules.no_backlog
    kinesis_rules.no_backlog ibmmq_rules.no_backlog solace_rules.no_backlog rocket_rules.no_backlog
  show ?thesis
  proof (cases kind)
    case None
    with assms(1) have "a \<in> set (deriveRocketMQAlerts f rules th)" by (simp add: derive_by_kind_def)
    then show ?thesis by (rule rocket_rules.no_backlog [OF assms(3)])
  next
    case (Some k)
    with assms(1,2) show ?thesis
      by (cases k) (simp_all only: derive_by_kind_def option.case MQKind.case facts [OF assms(3)]
        option.inject simp_thms)
  qed
qed

section \<open>The properties of the derivation\<close>

definition sample_profile :: Connection where
  "sample_profile = \<lparr>prof_id = 1, prof_name = u ''a'', prof_kind = KindKafka, prof_status = StatusOnline\<rparr>"

definition sample_replies :: replies where
  "sample_replies = \<lparr>re_cluster = Answered [Some sample_node], re_groups = Rejected, re_topics = Answered [],
     re_clients = Rejected\<rparr>"

definition sample_node_alert :: DerivedAlert where
  "sample_node_alert = alert (u ''broker-off-a'') brokerOffline Crit
        [(''broker'', PStr (u ''a'')), (''address'', PStr em_dash), (''role'', PStr (u ''broker''))]"

lemma sample_alerts:
  "deriveAlerts cmp (Some KindKafka) (NO_FACTS\<lparr>nodes := [sample_node]\<rparr>) DEFAULT_ALERT_RULES th
     = [sample_node_alert]"
  by (simp add: deriveAlerts_def derive_by_kind_def deriveKafkaAlerts_def kafka_node_alerts_def sort_by_def
      sample_node_def sample_node_alert_def kafka_brokerLabel_def kafka_nodeID_def kafka_attr_def
      kafka_isController_def enabled_def DEFAULT_ALERT_RULES_def or_str_def or_undefined_def alert_def u_def)

text \<open>
  The alerts come worst first, none is lost or added by the sort, and those of one
  severity keep the order their rules gave them.
\<close>

lemma worst_first_stable:
  "sorted_wrt (\<lambda>a b. severityWeight (al_severity b) \<le> severityWeight (al_severity a))
     (deriveAlerts cmp kind f rules th)
   \<and> mset (deriveAlerts cmp kind f rules th) = mset (derive_by_kind cmp kind f rules th)
   \<and> filter (\<lambda>a. al_severity a = s) (deriveAlerts cmp kind f rules th) =
       filter (\<lambda>a. al_severity a = s) (derive_by_kind cmp kind f rules th)"
proof -
  have w: "al_severity a = s \<longleftrightarrow> - severityWeight (al_severity a) = - severityWeight s" for a
    by (cases "al_severity a"; cases s) simp_all
  have "sorted (map (\<lambda>a. - severityWeight (al_severity a)) (deriveAlerts cmp kind f rules th))"
    by (simp add: deriveAlerts_sort_key)
  then have "sorted_wrt (\<lambda>a b. severityWeight (al_severity b) \<le> severityWeight (al_severity a))
     (deriveAlerts cmp kind f rules th)" by (simp add: sorted_wrt_map)
  moreover have "filter (\<lambda>a. - severityWeight (al_severity a) = - severityWeight s)
      (deriveAlerts cmp kind f rules th) =
      filter (\<lambda>a. - severityWeight (al_severity a) = - severityWeight s) (derive_by_kind cmp kind f rules th)"
    unfolding deriveAlerts_sort_key by (rule sort_key_stable)
  ultimately show ?thesis by (simp add: w deriveAlerts_sort_key)
qed

text \<open>
  Every alert raised for a connection is of a rule that is switched on and that the alerts
  page offers for that kind of broker. MQTT is the exception.
\<close>

lemma only_switched_rules_speak:
  assumes "a \<in> set (deriveAlerts cmp (Some k) f rules th)" and "k \<noteq> KindMQTT"
  shows "enabled rules (al_rule a) \<and> al_rule a \<in> set (rulesFor (Some k))"
  using derive_by_kind_enabled [of a cmp "Some k" f rules th] derive_by_kind_declared [of a cmp k f rules th] assms
  by simp

text \<open>
  C37: The requests a sweep leaves out are not missed: for an online broker whose requests are
  answered, the rules say of the swept facts what they say of all its facts. MQTT is the
  exception.
\<close>

theorem sweep_suffices:
  assumes "prof_status p = StatusOnline" and "prof_kind p \<noteq> KindMQTT"
    and "re_cluster re = Answered (map Some (nodes f))" and "re_groups re = Answered (consumerGroups f)"
    and "re_topics re = Answered (destinations f)" and "re_clients re = Answered (connections f)"
  shows "\<exists>g. sweepConnection p re = (prof_id p, Some g)
    \<and> deriveAlerts cmp (Some (prof_kind p)) g rules th = deriveAlerts cmp (Some (prof_kind p)) f rules th"
  using sweepConnection_answered [OF assms(1,3-6)] derive_by_kind_swept [OF assms(2), of cmp f rules th]
  by (simp add: deriveAlerts_def)

theorem sweep_suffices_witness:
  "\<exists>g. sweepConnection sample_profile (sample_replies\<lparr>re_groups := Answered [], re_clients := Answered []\<rparr>) = (1, Some g)
    \<and> deriveAlerts (\<lambda>_ _. 0) (Some KindKafka) g DEFAULT_ALERT_RULES \<lparr>lag = Fin 10000, disk = Fin 75\<rparr>
      = [sample_node_alert]"
proof -
  let ?re = "sample_replies\<lparr>re_groups := Answered [], re_clients := Answered []\<rparr>"
  let ?f = "NO_FACTS\<lparr>nodes := [sample_node]\<rparr>"
  have "\<exists>g. sweepConnection sample_profile ?re = (prof_id sample_profile, Some g)
    \<and> deriveAlerts (\<lambda>_ _. 0) (Some (prof_kind sample_profile)) g DEFAULT_ALERT_RULES \<lparr>lag = Fin 10000, disk = Fin 75\<rparr>
      = deriveAlerts (\<lambda>_ _. 0) (Some (prof_kind sample_profile)) ?f DEFAULT_ALERT_RULES \<lparr>lag = Fin 10000, disk = Fin 75\<rparr>"
    by (rule sweep_suffices) (simp_all add: sample_profile_def sample_replies_def)
  moreover have "prof_kind sample_profile = KindKafka" "prof_id sample_profile = 1"
    by (simp_all add: sample_profile_def)
  ultimately show ?thesis by (simp only: sample_alerts)
qed

text \<open>
  Every placeholder of the sentence an alert is worded with is bound by the alert's
  parameters. Redis is the exception.
\<close>

lemma alerts_are_worded:
  assumes "a \<in> set (deriveAlerts cmp kind f rules th)" and "kind \<noteq> Some KindRedisStream"
  shows "u p \<in> fst ` set (al_params a) \<or> p \<notin> set (detail_params (al_rule a))"
  using derive_by_kind_worded [of a cmp kind f rules th] assms by (auto simp: worded_def)

text \<open>
  A lag threshold of zero silences the group-lag and the queue-backlog rule of every
  family but MQTT.
\<close>

lemma zero_lag_silences_backlog:
  assumes "kind \<noteq> Some KindMQTT" and "lag th = Fin 0"
  shows "{a \<in> set (deriveAlerts cmp kind f rules th). al_rule a = groupLag \<or> al_rule a = queueBacklog} = {}"
  using derive_by_kind_threshold [of _ cmp kind f rules th] assms by auto

end
