(* ===== verification/Alert_Poll.thy ===== *)
theory Alert_Poll
  imports Alert_Center Alert_Derive
begin

text \<open>
  The polling loop around the merge (\<open>hooks/useAlertCenter.tsx\<close>): every open connection is
  swept, a failed sweep keeps the last good facts, the rules are derived anew from the facts,
  and the result is merged into the records. The centre as a whole is a step relation over
  rounds, changes of the settings, the two read actions and restarts of the window, with what holds in every state it
  can reach. The order of an object with number keys is ascending.
\<close>

section \<open>One round\<close>

type_synonym facts_by_id = "(int \<times> AlertFacts option) list"

definition first_some :: "'a option \<Rightarrow> 'a option \<Rightarrow> 'a option" where
  "first_some x y = (case x of None \<Rightarrow> y | Some v \<Rightarrow> Some v)"

text \<open>\<open>next[id] = facts ?? previous[id] ?? null\<close>\<close>

fun keep_last_good :: "facts_by_id \<Rightarrow> (int \<times> AlertFacts option) list \<Rightarrow> facts_by_id \<Rightarrow> facts_by_id" where
  "keep_last_good previous [] acc = acc"
| "keep_last_good previous ((i, f) # sweeps) acc = keep_last_good previous sweeps
     (AList.update i (first_some f (nullish (map_of previous i) None)) acc)"

definition refresh_facts :: "Connection list \<Rightarrow> (Connection \<Rightarrow> replies) \<Rightarrow> facts_by_id \<Rightarrow> facts_by_id" where
  "refresh_facts profiles answers previous =
     keep_last_good previous (map (\<lambda>p. sweepConnection p (answers p)) profiles) []"

text \<open>A later profile with the same id replaces an earlier one.\<close>

definition kinds_of :: "Connection list \<Rightarrow> int \<Rightarrow> MQKind option" where
  "kinds_of profiles = map_of (rev (map (\<lambda>p. (prof_id p, prof_kind p)) profiles))"

definition known_of :: "Connection list \<Rightarrow> int set" where
  "known_of profiles = prof_id ` set profiles"

definition alert_thresholds :: "jsnum option \<Rightarrow> jsnum option \<Rightarrow> AlertThresholds" where
  "alert_thresholds lagAlertThreshold diskAlertThreshold =
     \<lparr>lag = nullish lagAlertThreshold (Fin 10000), disk = nullish diskAlertThreshold (Fin 75)\<rparr>"

definition observed_of ::
    "(jsstr \<Rightarrow> jsstr \<Rightarrow> int) \<Rightarrow> (int \<Rightarrow> MQKind option) \<Rightarrow> AlertRulePrefs \<Rightarrow> AlertThresholds
     \<Rightarrow> facts_by_id \<Rightarrow> (int \<times> DerivedAlert list) list" where
  "observed_of cmp kinds rules th facts =
     for_each (sort_key fst facts) (\<lambda>(i, f). if_some f (\<lambda>g. [(i, deriveAlerts cmp (kinds i) g rules th)]))"

section \<open>The centre as a state machine\<close>

record centre_state =
  cst_facts :: facts_by_id
  cst_center :: center

definition poll_round ::
    "(jsstr \<Rightarrow> jsstr \<Rightarrow> int) \<Rightarrow> AlertRulePrefs \<Rightarrow> AlertThresholds \<Rightarrow> Connection list
     \<Rightarrow> (Connection \<Rightarrow> replies) \<Rightarrow> int \<Rightarrow> centre_state \<Rightarrow> centre_state" where
  "poll_round cmp rules th profiles answers now s =
    (let facts = refresh_facts profiles answers (cst_facts s);
         observed = observed_of cmp (kinds_of profiles) rules th facts
     in \<lparr>cst_facts = facts, cst_center = fst (center_merge observed (known_of profiles) now (cst_center s))\<rparr>)"

text \<open>
  A change of the rules, the thresholds or the profiles derives and merges again from the facts
  there are, without a sweep.
\<close>

definition remerge ::
    "(jsstr \<Rightarrow> jsstr \<Rightarrow> int) \<Rightarrow> AlertRulePrefs \<Rightarrow> AlertThresholds \<Rightarrow> Connection list
     \<Rightarrow> int \<Rightarrow> centre_state \<Rightarrow> centre_state" where
  "remerge cmp rules th profiles now s = s\<lparr>cst_center := fst (center_merge
     (observed_of cmp (kinds_of profiles) rules th (cst_facts s)) (known_of profiles) now (cst_center s))\<rparr>"

text \<open>A new window over the same storage.\<close>

definition fresh_window :: "cell \<Rightarrow> bool \<Rightarrow> centre_state" where
  "fresh_window storage full = \<lparr>cst_facts = [], cst_center =
     \<lparr>ce_records = [], ce_readIds = loadReadIds storage, ce_storage = storage, ce_full = full\<rparr>\<rparr>"

inductive centre_step :: "(jsstr \<Rightarrow> jsstr \<Rightarrow> int) \<Rightarrow> centre_state \<Rightarrow> centre_state \<Rightarrow> bool" for cmp where
  poll: "centre_step cmp s (poll_round cmp rules th profiles answers now s)"
| settings: "centre_step cmp s (remerge cmp rules th profiles now s)"
| read_all: "centre_step cmp s (s\<lparr>cst_center := markAllRead (cst_center s)\<rparr>)"
| read_one: "centre_step cmp s (s\<lparr>cst_center := markRead k (cst_center s)\<rparr>)"
| restart: "centre_step cmp s (fresh_window (ce_storage (cst_center s)) full)"

inductive_cases centre_stepE: "centre_step cmp s s'"

inductive centre_reachable :: "(jsstr \<Rightarrow> jsstr \<Rightarrow> int) \<Rightarrow> centre_state \<Rightarrow> bool" for cmp where
  start: "centre_reachable cmp (fresh_window storage full)"
| step: "centre_reachable cmp s \<Longrightarrow> centre_step cmp s s' \<Longrightarrow> centre_reachable cmp s'"

text \<open>
  The invariant: records well-formed, the seen ids without repetition, and no record marked
  read unless its id is among them.
\<close>

definition seen_records :: "jsstr set \<Rightarrow> records \<Rightarrow> bool" where
  "seen_records ids rs \<longleftrightarrow> (\<forall>(k, r) \<in> set rs. rec_read r \<longrightarrow> k \<in> ids)"

definition centre_inv :: "center \<Rightarrow> bool" where
  "centre_inv s \<longleftrightarrow> wf_records (ce_records s) \<and> distinct (ce_readIds s)
     \<and> seen_records (set (ce_readIds s)) (ce_records s)"

lemma seen_records_update:
  "seen_records ids rs \<Longrightarrow> (rec_read r \<Longrightarrow> k \<in> ids) \<Longrightarrow> seen_records ids (AList.update k r rs)"
  using set_update_subset [of k r rs] by (fastforce simp: seen_records_def)

lemma seen_records_map_of: "seen_records ids rs \<Longrightarrow> map_of rs k = Some r \<Longrightarrow> rec_read r \<Longrightarrow> k \<in> ids"
  by (auto simp: seen_records_def dest: map_of_SomeD)

lemma seen_carry:
  "seen_records ids rs \<Longrightarrow> \<forall>r \<in> set vs. rec_read r \<longrightarrow> rec_id r \<in> ids \<Longrightarrow>
   seen_records ids (carry_forward known now vs rs)"
  by (induction vs arbitrary: rs) (auto simp: seen_records_update)

lemma seen_fire:
  assumes "seen_records ids rs"
  shows "rec_read (fire_abs ids now c d (map_of rs (recordId c (al_key d)))) \<Longrightarrow> recordId c (al_key d) \<in> ids"
  using assms
  by (auto simp: fire_abs_def newly_firing_def still_firing_def dest: seen_records_map_of
      split: option.splits if_splits)

lemma seen_observe_alerts:
  "seen_records ids rs \<Longrightarrow> seen_records ids (fst (observe_alerts ids now c ds (rs, fired)))"
  by (induction ds arbitrary: rs fired)
    (auto simp: observe_alert_eq intro!: seen_records_update dest: seen_fire)

lemma seen_resolve:
  "seen_records ids rs \<Longrightarrow> \<forall>r \<in> set vs. rec_read r \<longrightarrow> rec_id r \<in> ids \<Longrightarrow>
   seen_records ids (resolve_missing c now still vs rs)"
proof (induction vs arbitrary: rs)
  case (Cons v vs)
  have "seen_records ids (AList.update (rec_id v) (v\<lparr>rec_resolvedAt := Some now\<rparr>) rs)"
    using Cons.prems by (intro seen_records_update) auto
  then show ?case using Cons by simp
qed simp

lemma seen_values:
  "wf_records rs \<Longrightarrow> seen_records ids rs \<Longrightarrow> \<forall>r \<in> set (map snd rs). rec_read r \<longrightarrow> rec_id r \<in> ids"
  by (fastforce simp: wf_records_def seen_records_def)

lemma seen_observe_connection:
  assumes "wf_records rs" and "seen_records ids rs"
  shows "seen_records ids (fst (observe_connection ids now (c, ds) (rs, fired)))"
proof -
  obtain rs' fired' where st: "observe_alerts ids now c ds (rs, fired) = (rs', fired')"
    by (cases "observe_alerts ids now c ds (rs, fired)")
  have "wf_records rs'" using observe_alerts_wf [OF assms(1), of ids now c ds fired] st by simp
  moreover have "seen_records ids rs'"
    using seen_observe_alerts [OF assms(2), of now c ds fired] st by simp
  ultimately show ?thesis
    using seen_values [of rs' ids] by (auto simp: observe_connection_def st intro!: seen_resolve)
qed

lemma seen_observe_all:
  "wf_records (fst st) \<Longrightarrow> seen_records ids (fst st) \<Longrightarrow> seen_records ids (fst (observe_all ids now obs st))"
proof (induction obs arbitrary: st)
  case (Cons ob obs)
  obtain c ds where ob: "ob = (c, ds)" by (cases ob)
  obtain rs fired where st: "st = (rs, fired)" by (cases st)
  show ?case
    using Cons observe_connection_wf [of rs ids now c ds fired]
      seen_observe_connection [of rs ids now c ds fired] by (simp add: ob st)
qed simp

lemma seen_merge:
  assumes "wf_records previous" and "seen_records ids previous"
  shows "seen_records ids (fst (mergeAlerts previous observed known ids now))"
  unfolding mergeAlerts_def
  using assms by (intro seen_observe_all)
    (simp_all add: carry_wf seen_carry seen_values seen_records_def [of _ "[]"])

lemma center_merge_inv:
  "centre_inv s \<Longrightarrow> centre_inv (fst (center_merge observed known now s))"
  using mergeAlerts_wf [of "ce_records s" observed known "set (ce_readIds s)" now]
    seen_merge [of "ce_records s" "set (ce_readIds s)" observed known now]
  by (auto simp: centre_inv_def center_merge_def Let_def split: prod.splits)

lemma distinct_mark_unread: "distinct ids \<Longrightarrow> distinct (fst (snd (mark_unread rs (acc, ids, ch))))"
proof (induction rs arbitrary: acc ids ch)
  case (Cons p ps)
  then show ?case by (cases p) auto
qed simp

lemma seen_mark_unread:
  assumes "seen_records (set ids) rs" and "seen_records I acc" and "set ids \<subseteq> I"
    and "\<forall>(k, r) \<in> set rs. k \<in> I"
  shows "seen_records I (fst (mark_unread rs (acc, ids', ch)))"
  using assms
proof (induction rs arbitrary: acc ids' ch)
  case (Cons p ps)
  obtain k r where p: "p = (k, r)" by (cases p)
  have "seen_records (set ids) ps" "k \<in> I" using Cons.prems by (auto simp: p seen_records_def)
  then show ?case using Cons.IH Cons.prems by (simp add: p seen_records_update)
qed simp

lemma markAllRead_inv:
  assumes "centre_inv s"
  shows "centre_inv (markAllRead s)"
proof -
  define rs where "rs = ce_records s"
  define ids where "ids = ce_readIds s"
  obtain rs' ids' ch where st: "mark_unread rs ([], ids, False) = (rs', ids', ch)"
    by (cases "mark_unread rs ([], ids, False)")
  have wf: "wf_records rs" "distinct ids" "seen_records (set ids) rs"
    using assms by (simp_all add: centre_inv_def rs_def ids_def)
  have ids': "set ids' = set ids \<union> {k. \<exists>r. (k, r) \<in> set rs \<and> \<not> rec_read r}"
    using mark_unread_ids [of rs "[]" ids False] st by simp
  then have "\<forall>(k, r) \<in> set rs. k \<in> set ids'" using wf(3) by (auto simp: seen_records_def)
  then have "seen_records (set ids') rs'"
    using seen_mark_unread [of ids rs "set ids'" "[]" ids False] wf(3) ids' st
    by (simp add: seen_records_def [of _ "[]"])
  moreover have "wf_records rs'" using mark_unread_wf [of rs "[]" ids False] wf(1) st by simp
  moreover have "distinct ids'" using distinct_mark_unread [of ids rs "[]" False] wf(2) st by simp
  ultimately show ?thesis
    using assms st by (simp add: markAllRead_def rs_def ids_def centre_inv_def)
qed

lemma seen_records_mono: "seen_records ids rs \<Longrightarrow> ids \<subseteq> ids' \<Longrightarrow> seen_records ids' rs"
  by (auto simp: seen_records_def)

lemma markRead_inv:
  assumes "centre_inv s"
  shows "centre_inv (markRead k s)"
proof (cases "map_of (ce_records s) k")
  case None
  then show ?thesis using assms by (simp add: markRead_def)
next
  case (Some r)
  have wf: "wf_records (ce_records s)" "seen_records (set (ce_readIds s)) (ce_records s)"
    using assms by (simp_all add: centre_inv_def)
  have "wf_records (AList.update k (r\<lparr>rec_read := True\<rparr>) (ce_records s))"
    using wf_records_map_of [OF wf(1) Some] by (intro wf_records_update wf(1)) (simp_all add: good_record_def)
  moreover have "seen_records (insert k (set (ce_readIds s))) (AList.update k (r\<lparr>rec_read := True\<rparr>) (ce_records s))"
    by (rule seen_records_update [OF seen_records_mono [OF wf(2)]]) auto
  ultimately show ?thesis
    using assms Some by (simp add: markRead_def centre_inv_def Let_def)
qed

lemma distinct_fold_set_add: "distinct s \<Longrightarrow> distinct (foldl (\<lambda>s x. set_add x s) s xs)"
  by (induction xs arbitrary: s) simp_all

lemma distinct_loadReadIds: "distinct (loadReadIds c)"
  by (auto simp: loadReadIds_def distinct_fold_set_add split: cell.splits json.splits)

lemma fresh_window_inv: "centre_inv (cst_center (fresh_window c full))"
  by (simp add: fresh_window_def centre_inv_def seen_records_def distinct_loadReadIds)

lemma centre_step_inv:
  "centre_step cmp s s' \<Longrightarrow> centre_inv (cst_center s) \<Longrightarrow> centre_inv (cst_center s')"
  by (erule centre_stepE)
    (simp_all add: poll_round_def remerge_def center_merge_inv markAllRead_inv markRead_inv fresh_window_inv Let_def)

lemma centre_reachable_inv: "centre_reachable cmp s \<Longrightarrow> centre_inv (cst_center s)"
  by (induction rule: centre_reachable.induct) (auto simp: fresh_window_inv intro: centre_step_inv)

section \<open>The properties of the centre\<close>

lemma markAllRead_lookup:
  assumes "distinct (map fst (ce_records s))"
  shows "map_of (ce_records (markAllRead s)) rid =
    map_option (\<lambda>r. r\<lparr>rec_read := True\<rparr>) (map_of (ce_records s) rid)"
proof (cases "\<exists>r \<in> snd ` set (ce_records s). \<not> rec_read r")
  case True
  then show ?thesis
    using mark_unread_lookup [OF assms, of "[]" "ce_readIds s" False rid]
      mark_unread_changed [of "ce_records s" "[]" "ce_readIds s" False]
    by (auto simp: markAllRead_def split: prod.splits option.splits)
next
  case False
  then have "\<not> snd (snd (mark_unread (ce_records s) ([], ce_readIds s, False)))"
    by (simp add: mark_unread_changed)
  moreover have "map_option (\<lambda>r. r\<lparr>rec_read := True\<rparr>) (map_of (ce_records s) rid) = map_of (ce_records s) rid"
  proof (cases "map_of (ce_records s) rid")
    case (Some r)
    then have "rec_read r" using False by (force dest: map_of_SomeD)
    then show ?thesis using Some by simp
  qed simp
  ultimately show ?thesis
    by (cases "mark_unread (ce_records s) ([], ce_readIds s, False)") (simp add: markAllRead_def)
qed

lemma markAllRead_ids:
  "set (ce_readIds (markAllRead s)) =
     set (ce_readIds s) \<union> {k. \<exists>r. (k, r) \<in> set (ce_records s) \<and> \<not> rec_read r}"
  using mark_unread_ids [of "ce_records s" "[]" "ce_readIds s" False]
    mark_unread_changed [of "ce_records s" "[]" "ce_readIds s" False]
  by (force simp: markAllRead_def split: prod.splits)

text \<open>While storage takes the ids, it holds the last two hundred of those remembered.\<close>

definition storage_follows :: "center \<Rightarrow> bool" where
  "storage_follows s \<longleftrightarrow>
     (\<not> ce_full s \<longrightarrow> set (slice_last READ_MEMORY (ce_readIds s)) \<subseteq> set (loadReadIds (ce_storage s)))"

lemma storage_follows_saved:
  "centre_inv s \<Longrightarrow> ce_storage s = saveReadIds (ce_readIds s) (ce_full s) c \<Longrightarrow> storage_follows s"
  by (simp add: storage_follows_def centre_inv_def load_save_ids)

lemma storage_follows_mark:
  assumes "centre_inv s" and "storage_follows s"
  shows "storage_follows (markAllRead s)" and "storage_follows (markRead k s)"
proof -
  have "markAllRead s = s \<or> (\<exists>c. ce_storage (markAllRead s) = saveReadIds (ce_readIds (markAllRead s)) (ce_full (markAllRead s)) c)"
    by (auto simp: markAllRead_def split: prod.splits)
  then show "storage_follows (markAllRead s)"
    using assms(2) storage_follows_saved [OF markAllRead_inv [OF assms(1)]] by auto
  have "markRead k s = s \<or> (\<exists>c. ce_storage (markRead k s) = saveReadIds (ce_readIds (markRead k s)) (ce_full (markRead k s)) c)"
    by (auto simp: markRead_def Let_def split: option.splits)
  then show "storage_follows (markRead k s)"
    using assms(2) storage_follows_saved [OF markRead_inv [OF assms(1)]] by auto
qed

lemma storage_follows_fresh: "storage_follows (cst_center (fresh_window c full))"
  using set_drop_subset by (fastforce simp: storage_follows_def fresh_window_def slice_last_def)

lemma storage_follows_merge: "storage_follows s \<Longrightarrow> storage_follows (fst (center_merge observed known now s))"
  by (simp add: storage_follows_def center_merge_def Let_def split: prod.splits)

lemma storage_follows_step:
  "centre_step cmp s s' \<Longrightarrow> centre_inv (cst_center s) \<Longrightarrow> storage_follows (cst_center s) \<Longrightarrow> storage_follows (cst_center s')"
  by (erule centre_stepE)
    (simp_all add: poll_round_def remerge_def storage_follows_merge storage_follows_mark storage_follows_fresh Let_def)

lemma storage_follows_reachable: "centre_reachable cmp s \<Longrightarrow> storage_follows (cst_center s)"
  by (induction rule: centre_reachable.induct)
    (auto simp: storage_follows_fresh intro: storage_follows_step centre_reachable_inv)

text \<open>
  Mark-all-read brings the badge to zero, changes nothing of any record but its read mark,
  and remembers the id of every record there is.
\<close>

lemma markAllRead_clears:
  assumes "centre_reachable cmp s"
  shows "unreadCount (ce_records (markAllRead (cst_center s))) = 0
    \<and> (\<forall>rid. map_of (ce_records (markAllRead (cst_center s))) rid =
         map_option (\<lambda>r. r\<lparr>rec_read := True\<rparr>) (map_of (ce_records (cst_center s)) rid))
    \<and> fst ` set (ce_records (cst_center s)) \<subseteq> set (ce_readIds (markAllRead (cst_center s)))"
proof -
  define c where "c = cst_center s"
  have inv: "centre_inv c" "centre_inv (markAllRead c)"
    using markAllRead_inv centre_reachable_inv [OF assms] by (simp_all add: c_def)
  then have d: "distinct (map fst (ce_records c))" "wf_records (ce_records (markAllRead c))"
    by (simp_all add: centre_inv_def wf_records_distinct)
  have "rec_read r" if "r \<in> snd ` set (ce_records (markAllRead c))" for r
    using that wf_records_mem [OF d(2), of r] markAllRead_lookup [OF d(1), of "rec_id r"] by auto
  moreover have "k \<in> set (ce_readIds (markAllRead c))" if "(k, r) \<in> set (ce_records c)" for k r
    using that inv(1) markAllRead_ids [of c]
    by (cases "rec_read r") (auto simp: centre_inv_def seen_records_def)
  ultimately show ?thesis
    using markAllRead_lookup [OF d(1)] by (auto simp: c_def [symmetric] unreadCount_zero)
qed

text \<open>
  C19: An alert acknowledged - on its own or with all the others, whether or not it had been read before -
  stays acknowledged across a reload of the window: when storage takes the ids and this one is among the
  two hundred remembered last, the first merge of the new window, of a round that observes each
  connection once, records the alert as read and does not announce it.
\<close>

theorem acknowledged_stays_acknowledged:
  assumes "centre_reachable cmp s" and "\<not> ce_full (cst_center s)"
    and "map_of (ce_records (cst_center s)) (recordId c (al_key d)) = Some r"
    and "s' \<in> {markAllRead (cst_center s), markRead (recordId c (al_key d)) (cst_center s)}"
    and "recordId c (al_key d) \<in> set (slice_last READ_MEMORY (ce_readIds s'))"
    and "distinct (map fst observed)" and "(c, alerts) \<in> set observed" and "d \<in> set alerts"
    and "w = cst_center (fresh_window (ce_storage s') full)"
  shows "(\<exists>r'. map_of (ce_records s') (recordId c (al_key d)) = Some r' \<and> rec_read r')
    \<and> (\<exists>r'. map_of (ce_records (fst (center_merge observed known now w))) (recordId c (al_key d)) = Some r'
        \<and> rec_read r')
    \<and> (\<forall>r' \<in> set (snd (center_merge observed known now w)). rec_id r' \<noteq> recordId c (al_key d))"
proof -
  let ?rid = "recordId c (al_key d)" and ?read = "set (ce_readIds w)"
  have i: "centre_inv (cst_center s)" by (rule centre_reachable_inv [OF assms(1)])
  then have dist: "distinct (map fst (ce_records (cst_center s)))" by (simp add: centre_inv_def wf_records_distinct)
  have now_read: "\<exists>r'. map_of (ce_records s') ?rid = Some r' \<and> rec_read r'"
    using assms(3,4) by (auto simp: markAllRead_lookup [OF dist] markRead_def Let_def update_conv')
  have "storage_follows s'" using assms(4) storage_follows_mark [OF i storage_follows_reachable [OF assms(1)]] by auto
  moreover have "\<not> ce_full s'"
    using assms(2,4) by (auto simp: markAllRead_def markRead_def Let_def split: prod.splits option.splits if_splits)
  ultimately have ids: "?rid \<in> ?read" using assms(5,9) by (auto simp: storage_follows_def fresh_window_def)
  have w: "ce_records w = []" using assms(9) by (simp add: fresh_window_def)
  have "filter (\<lambda>e. recordId c (al_key e) = ?rid) alerts \<noteq> []" using assms(8) by (auto simp: filter_empty_conv)
  then obtain e others where f: "filter (\<lambda>e. recordId c (al_key e) = ?rid) alerts = e # others"
    by (auto simp: neq_Nil_conv)
  then have "e \<in> set (filter (\<lambda>e. recordId c (al_key e) = ?rid) alerts)" by simp
  then have "al_key e = al_key d" by simp
  then have first: "rec_read (fire_abs ?read now c e None)" using ids by (simp add: fire_abs_def newly_firing_def)
  have m: "map_of (fst (mergeAlerts [] observed known ?read now)) ?rid
      = Some (fold (still_firing c now) others (fire_abs ?read now c e None))"
    using merged_lookup_observed [OF wf_records_Nil assms(6,7), of known ?read now "al_key d"] f
    by (simp add: carried_abs_def observe_abs_def)
  have "rec_id r' \<noteq> ?rid" if "r' \<in> set (snd (mergeAlerts [] observed known ?read now))" for r'
  proof
    assume e: "rec_id r' = ?rid"
    from that obtain c' a where "r' = fire_abs ?read now c' a None" "\<not> rec_read r'"
      by (auto simp: mergeAlerts_refines(2) [OF wf_records_Nil assms(6)] fired_abs_def announced_abs_def carried_abs_def
          Let_def split: if_splits)
    then show False using e ids by (auto simp: fire_abs_def newly_firing_def)
  qed
  then show ?thesis
    using m first now_read by (auto simp: center_merge_def w case_prod_beta Let_def)
qed

definition sample_state :: centre_state where
  "sample_state = poll_round (\<lambda>_ _. 0) DEFAULT_ALERT_RULES \<lparr>lag = Fin 10000, disk = Fin 75\<rparr> [sample_profile]
     (\<lambda>_. sample_replies) 5 (fresh_window NoItem False)"

lemma sample_reachable: "centre_reachable (\<lambda>_ _. 0) sample_state"
  unfolding sample_state_def by (rule centre_reachable.step [OF centre_reachable.start centre_step.poll])

lemma sample_facts:
  "refresh_facts [sample_profile] (\<lambda>_. sample_replies) [] =
     [(1, Some (NO_FACTS\<lparr>nodes := [sample_node]\<rparr>))]"
  by (simp add: refresh_facts_def sample_profile_def sample_replies_def sweepConnection_def Let_def
      first_some_def NO_FACTS_def KINDS_NEEDING_DESTINATIONS_def)

lemma sample_state_eq:
  "cst_center sample_state = \<lparr>ce_records = [(recordId 1 (u ''broker-off-a''), newly_firing 1 5 sample_node_alert False)],
     ce_readIds = [], ce_storage = NoItem, ce_full = False\<rparr>"
proof -
  have k: "kinds_of [sample_profile] 1 = Some KindKafka" "known_of [sample_profile] = {1}"
    by (simp_all add: kinds_of_def known_of_def sample_profile_def)
  have "observed_of (\<lambda>_ _. 0) (kinds_of [sample_profile]) DEFAULT_ALERT_RULES th
      [(1, Some (NO_FACTS\<lparr>nodes := [sample_node]\<rparr>))] = [(1, [sample_node_alert])]" for th
    by (simp add: observed_of_def k sample_alerts)
  then show ?thesis
    by (simp add: sample_state_def poll_round_def fresh_window_def sample_facts k center_merge_def
        mergeAlerts_def observe_connection_def observe_alert_def recovers_def loadReadIds_def Let_def
        newly_firing_def sample_node_alert_def)
qed

theorem acknowledged_stays_acknowledged_witness:
  "snd (center_merge [(1, [sample_node_alert])] {1} 9
     (cst_center (fresh_window (ce_storage (markRead (recordId 1 (al_key sample_node_alert)) (cst_center sample_state))) False))) = []"
proof -
  let ?rid = "recordId 1 (al_key sample_node_alert)"
  let ?s = "markRead ?rid (cst_center sample_state)"
  have key: "al_key sample_node_alert = u ''broker-off-a''" by (simp add: sample_node_alert_def)
  have ids: "ce_readIds ?s = [?rid]"
    unfolding key by (simp add: sample_state_eq markRead_def newly_firing_def set_add_def Let_def)
  have seen: "?rid \<in> set (slice_last READ_MEMORY (ce_readIds ?s))"
    by (simp only: ids) (simp add: slice_last_def READ_MEMORY_def)
  have m: "map_of (ce_records (cst_center sample_state)) ?rid = Some (newly_firing 1 5 sample_node_alert False)"
    "\<not> ce_full (cst_center sample_state)"
    by (simp_all add: sample_state_eq key)
  have "\<forall>r' \<in> set (snd (center_merge [(1, [sample_node_alert])] {1} 9
      (cst_center (fresh_window (ce_storage ?s) False)))). rec_id r' \<noteq> ?rid"
    by (rule acknowledged_stays_acknowledged [where alerts = "[sample_node_alert]",
          OF sample_reachable m(2,1) _ seen, THEN conjunct2, THEN conjunct2]) simp_all
  then show ?thesis
    by (auto simp: center_merge_def mergeAlerts_def observe_connection_def observe_alert_def Let_def
        newly_firing_def fresh_window_def split: if_splits option.splits)
qed

lemma keep_last_good_lookup:
  "map_of (keep_last_good previous sweeps acc) i = (case map_of (rev sweeps) i of
     None \<Rightarrow> map_of acc i
   | Some f \<Rightarrow> Some (first_some f (nullish (map_of previous i) None)))"
proof (induction previous sweeps acc rule: keep_last_good.induct)
  case (2 previous j f sweeps acc)
  then show ?case by (auto simp: update_conv' map_add_def split: option.splits)
qed simp

lemma keep_last_good_distinct:
  "distinct (map fst acc) \<Longrightarrow> distinct (map fst (keep_last_good previous sweeps acc))"
  by (induction previous sweeps acc rule: keep_last_good.induct) (simp_all add: distinct_update)

lemma sweepConnection_fst [simp]: "fst (sweepConnection p re) = prof_id p"
  by (simp add: sweepConnection_def Let_def split: reply.splits)

lemma refresh_facts_lookup:
  assumes "distinct (map prof_id profiles)" and "p \<in> set profiles"
  shows "map_of (refresh_facts profiles answers previous) (prof_id p) =
    Some (first_some (snd (sweepConnection p (answers p))) (nullish (map_of previous (prof_id p)) None))"
proof -
  define sweeps where "sweeps = map (\<lambda>p. sweepConnection p (answers p)) profiles"
  have k: "map fst sweeps = map prof_id profiles" by (simp add: sweeps_def)
  then have "distinct (map fst (rev sweeps))" using assms(1) by (simp add: rev_map [symmetric])
  moreover have "(prof_id p, snd (sweepConnection p (answers p))) \<in> set (rev sweeps)"
    using assms(2) by (auto simp: sweeps_def image_iff intro!: bexI [of _ p] prod_eqI)
  ultimately show ?thesis
    by (simp add: refresh_facts_def sweeps_def [symmetric] keep_last_good_lookup)
qed

lemma refresh_facts_distinct: "distinct (map fst (refresh_facts profiles answers previous))"
  by (simp add: refresh_facts_def keep_last_good_distinct)

lemma refresh_facts_dom: "fst ` set (refresh_facts profiles answers previous) = prof_id ` set profiles"
proof -
  define sweeps where "sweeps = map (\<lambda>p. sweepConnection p (answers p)) profiles"
  have "dom (map_of (refresh_facts profiles answers previous)) = dom (map_of (rev sweeps))"
    by (auto simp: refresh_facts_def sweeps_def [symmetric] keep_last_good_lookup split: option.splits)
  also have "\<dots> = prof_id ` set profiles"
    by (simp add: dom_map_of_conv_image_fst sweeps_def image_image)
  finally show ?thesis by (simp add: dom_map_of_conv_image_fst)
qed

text \<open>
  A sweep that fails leaves a connection the facts it had, one that is not online gets
  empty facts, one that answers gets the answer; and only the connections there are have facts.
\<close>

lemma refresh_keeps_last_good:
  assumes "distinct (map prof_id profiles)" and "p \<in> set profiles"
  shows "map_of (refresh_facts profiles answers previous) (prof_id p) = Some
      (if prof_status p \<noteq> StatusOnline then Some NO_FACTS
       else if re_cluster (answers p) = Rejected then nullish (map_of previous (prof_id p)) None
       else snd (sweepConnection p (answers p)))
    \<and> fst ` set (refresh_facts profiles answers previous) = prof_id ` set profiles"
  using refresh_facts_lookup [OF assms] refresh_facts_dom
  by (auto simp: sweepConnection_def first_some_def Let_def split: reply.splits)

definition recovered_conn :: "int \<Rightarrow> records \<Rightarrow> bool" where
  "recovered_conn c rs \<longleftrightarrow> (\<forall>(k, r) \<in> set rs. rec_connectionId r = c \<longrightarrow> rec_resolvedAt r \<noteq> None)"

lemma recovered_conn_update:
  "recovered_conn c rs \<Longrightarrow> (rec_connectionId r = c \<Longrightarrow> rec_resolvedAt r \<noteq> None) \<Longrightarrow>
   recovered_conn c (AList.update k r rs)"
  using set_update_subset [of k r rs] by (fastforce simp: recovered_conn_def)

lemma recovered_conn_observe_alerts:
  "c' \<noteq> c \<Longrightarrow> recovered_conn c rs \<Longrightarrow> recovered_conn c (fst (observe_alerts read now c' ds (rs, fired)))"
proof (induction ds arbitrary: rs fired)
  case (Cons d ds)
  have "recovered_conn c (AList.update (recordId c' (al_key d))
      (fire_abs read now c' d (map_of rs (recordId c' (al_key d)))) rs)"
    using Cons.prems by (intro recovered_conn_update) simp_all
  then show ?case using Cons by (simp add: observe_alert_eq)
qed simp

lemma recovered_conn_resolve:
  "recovered_conn c rs \<Longrightarrow> recovered_conn c (resolve_missing c' now still vs rs)"
  by (induction vs arbitrary: rs) (simp_all add: recovered_conn_update)

lemma recovered_conn_other:
  assumes "c' \<noteq> c \<or> ds = []" and "recovered_conn c rs"
  shows "recovered_conn c (fst (observe_connection read now (c', ds) (rs, fired)))"
proof -
  have "recovered_conn c (fst (observe_alerts read now c' ds (rs, fired)))"
    using assms recovered_conn_observe_alerts by (cases "ds = []") auto
  then show ?thesis
    by (auto simp: observe_connection_def Let_def case_prod_beta intro: recovered_conn_resolve)
qed

lemma recovered_conn_own:
  assumes "wf_records rs"
  shows "recovered_conn c (fst (observe_connection read now (c, []) (rs, fired)))"
proof -
  define rs' where "rs' = fst (observe_connection read now (c, []) (rs, fired))"
  have wf: "wf_records rs'" unfolding rs'_def by (rule observe_connection_wf [OF assms])
  have "rec_resolvedAt r \<noteq> None" if "(k, r) \<in> set rs'" "rec_connectionId r = c" for k r
  proof -
    have "r \<in> snd ` set rs'" using that(1) by (rule image_eqI [rotated]) simp
    then have "map_of rs' (rec_id r) = Some r" using wf_records_mem [OF wf, of r] by simp
    then show ?thesis
      using observe_connection_lookup [OF assms, of read now c "[]" fired "rec_id r"] that(2)
      unfolding rs'_def [symmetric]
      by (cases "map_of rs (rec_id r)") (auto simp: observe_abs_def split: if_splits)
  qed
  then show ?thesis by (auto simp: recovered_conn_def rs'_def)
qed

lemma recovered_conn_all:
  assumes "wf_records rs" and "\<forall>(c', ds) \<in> set obs. c' = c \<longrightarrow> ds = []"
    and "recovered_conn c rs \<or> c \<in> fst ` set obs"
  shows "recovered_conn c (fst (observe_all read now obs (rs, fired)))"
  using assms
proof (induction obs arbitrary: rs fired)
  case (Cons ob obs)
  obtain c' ds where ob: "ob = (c', ds)" by (cases ob)
  obtain rs' fired' where st: "observe_connection read now (c', ds) (rs, fired) = (rs', fired')"
    by (cases "observe_connection read now (c', ds) (rs, fired)")
  have wf: "wf_records rs'" using observe_connection_wf [OF Cons.prems(1), of read now c' ds fired] st by simp
  have "recovered_conn c rs' \<or> c \<in> fst ` set obs"
  proof (cases "recovered_conn c rs")
    case True
    then show ?thesis using recovered_conn_other [of c' c ds rs read now fired] Cons.prems(2) st by (auto simp: ob)
  next
    case False
    then show ?thesis
      using recovered_conn_own [OF Cons.prems(1), of c read now fired] Cons.prems(2,3) st by (auto simp: ob)
  qed
  then show ?case using Cons.IH [OF wf] Cons.prems(2) by (simp add: ob st)
qed simp

lemma set_observed_of:
  "(c, ds) \<in> set (observed_of cmp kinds rules th facts) \<longleftrightarrow>
     (\<exists>g. (c, Some g) \<in> set facts \<and> ds = deriveAlerts cmp (kinds c) g rules th)"
  by (auto simp: observed_of_def)

text \<open>
  C18: A connection that is not online recovers: after the next round over profiles with an id each, none
  of its records is still firing, whatever its broker last said, and whatever the other connections
  report.
\<close>

theorem disconnecting_recovers:
  assumes "centre_reachable cmp s" and "distinct (map prof_id profiles)" and "p \<in> set profiles"
    and "prof_status p \<noteq> StatusOnline" and "s' = poll_round cmp rules th profiles answers now s"
    and "r \<in> snd ` set (ce_records (cst_center s'))" and "rec_connectionId r = prof_id p"
  shows "rec_resolvedAt r \<noteq> None"
proof -
  define facts where "facts = refresh_facts profiles answers (cst_facts s)"
  define obs where "obs = observed_of cmp (kinds_of profiles) rules th facts"
  define rs where "rs = carry_forward (known_of profiles) now (map snd (ce_records (cst_center s))) []"
  have "map_of facts (prof_id p) = Some (Some NO_FACTS)"
    using refresh_facts_lookup [OF assms(2,3), of answers "cst_facts s"] assms(4)
    by (simp add: facts_def sweepConnection_def first_some_def)
  moreover have "distinct (map fst facts)" unfolding facts_def by (rule refresh_facts_distinct)
  ultimately have f: "(prof_id p, g) \<in> set facts \<longleftrightarrow> g = Some NO_FACTS" for g
    by (metis map_of_eq_Some_iff option.inject)
  have quiet: "deriveAlerts cmp k NO_FACTS rules th = []" for k by (rule derive_rules.quiet)
  have own: "(prof_id p, ds) \<in> set obs \<longleftrightarrow> ds = []" for ds
    by (simp add: obs_def set_observed_of f quiet)
  then have "\<forall>(c', ds) \<in> set obs. c' = prof_id p \<longrightarrow> ds = []" by blast
  moreover have "(prof_id p, []) \<in> set obs" by (simp add: own)
  then have "prof_id p \<in> fst ` set obs" by (rule image_eqI [rotated]) simp
  moreover have "wf_records rs"
    using centre_reachable_inv [OF assms(1)] by (simp add: rs_def centre_inv_def carry_wf)
  ultimately have "recovered_conn (prof_id p) (fst (observe_all (set (ce_readIds (cst_center s))) now obs (rs, [])))"
    by (intro recovered_conn_all) simp_all
  then have "recovered_conn (prof_id p) (ce_records (cst_center s'))"
    by (simp add: assms(5) poll_round_def center_merge_def mergeAlerts_def facts_def obs_def rs_def
        Let_def case_prod_beta)
  then show ?thesis using assms(6,7) by (auto simp: recovered_conn_def)
qed

theorem disconnecting_recovers_witness:
  "{r \<in> snd ` set (ce_records (cst_center (poll_round (\<lambda>_ _. 0) DEFAULT_ALERT_RULES
      \<lparr>lag = Fin 10000, disk = Fin 75\<rparr> [sample_profile\<lparr>prof_status := StatusOffline\<rparr>]
      (\<lambda>_. sample_replies) 6 sample_state))). rec_connectionId r = 1 \<and> rec_resolvedAt r = None} = {}"
proof -
  have "distinct (map prof_id [sample_profile\<lparr>prof_status := StatusOffline\<rparr>])"
    "sample_profile\<lparr>prof_status := StatusOffline\<rparr> \<in> set [sample_profile\<lparr>prof_status := StatusOffline\<rparr>]"
    "prof_status (sample_profile\<lparr>prof_status := StatusOffline\<rparr>) \<noteq> StatusOnline"
    "prof_id (sample_profile\<lparr>prof_status := StatusOffline\<rparr>) = 1"
    by (simp_all add: sample_profile_def)
  then show ?thesis
    using disconnecting_recovers [OF sample_reachable] by (metis (mono_tags, lifting) Collect_empty_eq)
qed

text \<open>
  C1: In every state the polling loop can reach - by rounds with whatever the brokers answer,
  by either read action, by reloads of the window - each record stands once, under its own id,
  the id is one of its connection's, no id is remembered twice, and every record marked read
  has its id remembered.
\<close>

theorem centre_always_consistent:
  assumes "centre_reachable cmp s" and "records = ce_records (cst_center s)"
  shows "distinct (map fst records)
    \<and> (\<forall>(k, r) \<in> set records. k = rec_id r \<and> (\<exists>key. k = recordId (rec_connectionId r) key)
         \<and> (rec_read r \<longrightarrow> k \<in> set (ce_readIds (cst_center s))))
    \<and> distinct (ce_readIds (cst_center s))"
  using centre_reachable_inv [OF assms(1)] assms(2)
  by (auto simp: centre_inv_def wf_records_def seen_records_def good_record_def belongs_iff)

theorem centre_always_consistent_witness:
  "distinct (map fst (ce_records (cst_center sample_state))) \<and> ce_records (cst_center sample_state) \<noteq> []"
  using centre_always_consistent [OF sample_reachable refl] by (simp add: sample_state_eq)

end
