(* ===== verification/Navigation.thy ===== *)
theory Navigation
  imports Broker_Model
begin

text \<open>
  Which pages the sidebar draws, which of those it disables and with what reason, from what the
  connection's driver can do (\<open>mq/navigation.ts\<close>, \<open>mq/capabilities.ts\<close>). A page id is one of
  the sidebar's; \<open>requires\<close> is read only at those, so the table is a plain function here.
\<close>

datatype Capability =
    CapDestinationList | CapDestinationCreate | CapDestinationUpdate | CapDestinationDelete
  | CapPartitions | CapShards | CapChannels | CapDestinationPurge | CapDestinationMove
  | CapQueueRebalance | CapStreamTrim | CapSubscriptionList | CapSubscriptionCreate
  | CapSubscriptionDelete | CapSubscriptionLag | CapOffsetReset | CapOffsetClone
  | CapQueueOffset | CapSubscriptionPosition | CapSubscriptionRuntime | CapPendingEntries
  | CapPendingAdmin | CapMessageQuery | CapMessageByID | CapMessageTrack | CapMessageResend
  | CapMessageReplay | CapMessageLiveTail | CapLiveStream | CapDLQ | CapPublish | CapPublishRich
  | CapEntryPublish | CapProducerInspect | CapDelayedDelivery | CapClusterTopology
  | CapDirectory | CapNodeConfig | CapNodeMaintenance | CapNodeWritePerm | CapClusterMetrics
  | CapReassign | CapTransactions | CapQuotaList | CapQuotaAdmin | CapSlowLog | CapLogDirs
  | CapClusterCensus | CapClientInspect | CapClientClose | CapClusterHealth
  | CapDeadLetterTopology | CapAccessControl | CapAccessDirectory | CapAclUsers
  | CapNamespaceList | CapNamespaceAdmin | CapNamespaceLimits | CapIdentityList
  | CapIdentityAdmin | CapIdentityPermissions | CapPolicyList | CapPolicyAdmin
  | CapParameterAdmin | CapDefinitionsExport | CapDefinitionsImport | CapReplication
  | CapStreamClients | CapRouting | CapRoutingAdmin | CapConnectionScope | CapZero

record Capabilities =
  cap_supported :: "Capability list"
  cap_degraded :: "(Capability \<times> jsstr) list"
  cap_caveats :: "(Capability \<times> jsstr) list"

record CapabilityState =
  cs_has :: "Capability \<Rightarrow> bool"
  cs_degradedReason :: "Capability \<Rightarrow> jsstr option"
  cs_caveat :: "Capability \<Rightarrow> jsstr option"
  cs_loading :: bool

definition empty_capabilities :: Capabilities where
  "empty_capabilities = \<lparr>cap_supported = [], cap_degraded = [], cap_caveats = []\<rparr>"

definition useCapabilityState :: "Capabilities \<Rightarrow> bool \<Rightarrow> CapabilityState" where
  "useCapabilityState capabilities loading =
     \<lparr>cs_has = (\<lambda>c. c \<in> set (cap_supported capabilities)),
      cs_degradedReason = map_of (cap_degraded capabilities),
      cs_caveat = map_of (cap_caveats capabilities),
      cs_loading = loading\<rparr>"

section \<open>The table\<close>

datatype page = PageHome | PageConnections | PageSettings | PageGithub | PageTopics | PageShards | PageChannels
  | PageConsumers | PageExchanges | PageMessages | PageSubscribe | PageDlq | PageVhosts | PagePolicies | PageDefinitions
  | PageReplication | PageQuotas | PageProducer | PageClients | PageCluster | PageAcl | PageAlerts

text \<open>The capabilities a page needs, any one of them; \<open>None\<close> when it needs none.\<close>

fun requires :: "page \<Rightarrow> Capability list option" where
  "requires PageTopics = Some [CapDestinationList]"
| "requires PageShards = Some [CapShards]"
| "requires PageChannels = Some [CapChannels]"
| "requires PageConsumers = Some [CapSubscriptionList]"
| "requires PageExchanges = Some [CapRouting]"
| "requires PageMessages = Some [CapMessageQuery]"
| "requires PageSubscribe = Some [CapLiveStream]"
| "requires PageDlq = Some [CapDLQ, CapDeadLetterTopology, CapPendingEntries]"
| "requires PageVhosts = Some [CapNamespaceList]"
| "requires PagePolicies = Some [CapPolicyList]"
| "requires PageDefinitions = Some [CapDefinitionsExport]"
| "requires PageReplication = Some [CapReplication]"
| "requires PageQuotas = Some [CapQuotaList]"
| "requires PageProducer = Some [CapPublish, CapEntryPublish]"
| "requires PageClients = Some [CapClientInspect]"
| "requires PageCluster = Some [CapClusterTopology]"
| "requires PageAcl = Some [CapAccessControl, CapIdentityList, CapAccessDirectory,
     CapIdentityPermissions, CapAclUsers]"
| "requires PageAlerts = Some [CapClusterMetrics, CapDestinationList]"
| "requires PageHome = None"
| "requires PageConnections = None"
| "requires PageSettings = None"
| "requires PageGithub = None"

definition alwaysAvailable :: "page list" where
  "alwaysAvailable = [PageHome, PageConnections, PageSettings, PageGithub]"

section \<open>Availability\<close>

definition asked :: "page \<Rightarrow> Capability list" where
  "asked p = nullish (requires p) []"

definition known_cap :: "CapabilityState \<Rightarrow> page \<Rightarrow> Capability option" where
  "known_cap cs p = find (\<lambda>c. cs_has cs c \<or> cs_degradedReason cs c \<noteq> None) (asked p)"

definition nav_unknown :: "CapabilityState \<Rightarrow> bool \<Rightarrow> bool" where
  "nav_unknown cs is_connected \<longleftrightarrow> \<not> is_connected \<or> cs_loading cs"

definition nav_visible :: "CapabilityState \<Rightarrow> bool \<Rightarrow> page \<Rightarrow> bool" where
  "nav_visible cs is_connected p =
    (if p \<in> set alwaysAvailable then True
     else if length (asked p) = 0 \<or> nav_unknown cs is_connected then True
     else known_cap cs p \<noteq> None)"

definition nav_disabled :: "CapabilityState \<Rightarrow> bool \<Rightarrow> page \<Rightarrow> bool" where
  "nav_disabled cs is_connected p =
    (if p \<in> set alwaysAvailable then False
     else if length (asked p) = 0 \<or> nav_unknown cs is_connected then False
     else \<not> list_ex (cs_has cs) (asked p))"

definition nav_reason :: "CapabilityState \<Rightarrow> page \<Rightarrow> jsstr option" where
  "nav_reason cs p = (case known_cap cs p of None \<Rightarrow> None | Some c \<Rightarrow> cs_degradedReason cs c)"

lemma known_cap_SomeD:
  "known_cap cs p = Some c \<Longrightarrow> c \<in> set (asked p) \<and> (cs_has cs c \<or> cs_degradedReason cs c \<noteq> None)"
  by (auto simp: known_cap_def find_Some_iff in_set_conv_nth)

lemma known_cap_has: "c \<in> set (asked p) \<Longrightarrow> cs_has cs c \<Longrightarrow> known_cap cs p \<noteq> None"
  by (auto simp: known_cap_def find_None_iff)

lemma asked_empty_iff: "asked p = [] \<longleftrightarrow> p \<in> set alwaysAvailable"
  by (cases p) (simp_all add: asked_def alwaysAvailable_def)

section \<open>The property of the sidebar\<close>

lemma cap_state [simp]:
  "cs_has (useCapabilityState caps loading) c \<longleftrightarrow> c \<in> set (cap_supported caps)"
  "cs_degradedReason (useCapabilityState caps loading) c = map_of (cap_degraded caps) c"
  "nav_unknown (useCapabilityState caps loading) online \<longleftrightarrow> \<not> online \<or> loading"
  by (simp_all add: useCapabilityState_def nav_unknown_def)

text \<open>
  Which state a page of the sidebar is in: open when it needs nothing, when nothing is
  known, or when the driver supports one of the capabilities it needs; shown but disabled with
  a reason that the driver gave for one of them; hidden only when the driver neither supports
  nor explains any.
\<close>

lemma nav_states:
  assumes "cs = useCapabilityState caps loading"
  shows "(nav_visible cs online p \<and> \<not> nav_disabled cs online p \<longleftrightarrow>
       p \<in> set alwaysAvailable \<or> \<not> online \<or> loading \<or> list_ex (\<lambda>c. c \<in> set (cap_supported caps)) (asked p))
   \<and> (nav_visible cs online p \<and> nav_disabled cs online p \<longleftrightarrow>
       nav_disabled cs online p \<and> (\<exists>c \<in> set (asked p). nav_reason cs p \<noteq> None \<and> nav_reason cs p = map_of (cap_degraded caps) c))
   \<and> (\<not> nav_visible cs online p \<longleftrightarrow> p \<notin> set alwaysAvailable \<and> online \<and> \<not> loading
        \<and> set (asked p) \<inter> (set (cap_supported caps) \<union> fst ` set (cap_degraded caps)) = {})"
proof -
  have kc: "known_cap cs p = None \<longleftrightarrow> set (asked p) \<inter> (set (cap_supported caps) \<union> fst ` set (cap_degraded caps)) = {}"
    by (auto simp: known_cap_def find_None_iff assms map_of_eq_None_iff) 
  show ?thesis
  proof (cases "p \<in> set alwaysAvailable \<or> \<not> online \<or> loading")
    case True
    then show ?thesis by (auto simp: nav_visible_def nav_disabled_def assms)
  next
    case False
    then have a: "asked p \<noteq> []" by (simp add: asked_empty_iff)
    have v: "nav_visible cs online p \<longleftrightarrow> known_cap cs p \<noteq> None"
      "nav_disabled cs online p \<longleftrightarrow> \<not> list_ex (\<lambda>c. c \<in> set (cap_supported caps)) (asked p)"
      using False a by (simp_all add: nav_visible_def nav_disabled_def assms list_ex_iff)
    have r: "known_cap cs p \<noteq> None \<longleftrightarrow> (\<exists>c \<in> set (asked p). nav_reason cs p \<noteq> None \<and> nav_reason cs p = map_of (cap_degraded caps) c)"
      if "\<not> list_ex (\<lambda>c. c \<in> set (cap_supported caps)) (asked p)"
    proof (cases "known_cap cs p")
      case None
      then show ?thesis by (simp add: nav_reason_def)
    next
      case (Some c)
      then have "c \<in> set (asked p)" "map_of (cap_degraded caps) c \<noteq> None"
        using known_cap_SomeD [OF Some] that by (auto simp: assms list_ex_iff)
      then show ?thesis using Some by (auto simp: nav_reason_def assms)
    qed
    have "list_ex (\<lambda>c. c \<in> set (cap_supported caps)) (asked p) \<Longrightarrow> known_cap cs p \<noteq> None"
      using known_cap_has [of _ p cs] by (auto simp: list_ex_iff assms)
    then have sup: "list_ex (\<lambda>c. c \<in> set (cap_supported caps)) (asked p) \<Longrightarrow> nav_visible cs online p"
      using v(1) by simp
    show ?thesis
    proof (cases "list_ex (\<lambda>c. c \<in> set (cap_supported caps)) (asked p)")
      case True
      then show ?thesis using v(2) sup kc [folded v(1)] v(1) False by simp
    next
      case out: False
      define E where "E \<longleftrightarrow> (\<exists>c \<in> set (asked p). nav_reason cs p \<noteq> None \<and> nav_reason cs p = map_of (cap_degraded caps) c)"
      define H where "H \<longleftrightarrow> set (asked p) \<inter> (set (cap_supported caps) \<union> fst ` set (cap_degraded caps)) = {}"
      show ?thesis using v r [OF out] kc False out unfolding E_def [symmetric] H_def [symmetric] by (cases E; simp)
    qed
  qed
qed

end
