(* ===== verification/Option_Filter.thy ===== *)
theory Option_Filter
  imports Js_Base
begin

text \<open>
  The ranking of a dropdown's options against what was typed (\<open>lib/optionFilter.ts\<close>).
  \<open>toLowerCase\<close> follows the Unicode tables and is the parameter \<open>lower\<close>.
\<close>

record FilterResult =
  fr_items :: "jsstr list"
  fr_hidden :: nat

definition DEFAULT_LIMIT :: nat where
  "DEFAULT_LIMIT = 200"

definition option_rank :: "jsstr \<Rightarrow> jsstr \<Rightarrow> int" where
  "option_rank candidate needle = (if candidate = needle then 0
     else if starts_with candidate needle then 1
     else if includes_str candidate needle then 2 else - 1)"

record ranked =
  rk_option :: jsstr
  rk_rank :: int
  rk_index :: nat

text \<open>The loop that collects what matches, with the index of each.\<close>

fun rank_options :: "(jsstr \<Rightarrow> jsstr) \<Rightarrow> jsstr \<Rightarrow> nat \<Rightarrow> jsstr list \<Rightarrow> ranked list" where
  "rank_options lower needle i [] = []"
| "rank_options lower needle i (x # xs) = (let r = option_rank (lower x) needle in
     (if 0 \<le> r then [\<lparr>rk_option = x, rk_rank = r, rk_index = i\<rparr>] else [])
     @ rank_options lower needle (Suc i) xs)"

text \<open>\<open>a.rank - b.rank || a.index - b.index\<close>\<close>

definition rank_cmp :: "ranked \<Rightarrow> ranked \<Rightarrow> int" where
  "rank_cmp a b = (if rk_rank a - rk_rank b \<noteq> 0 then rk_rank a - rk_rank b
     else int (rk_index a) - int (rk_index b))"

definition matched_options :: "(jsstr \<Rightarrow> jsstr) \<Rightarrow> jsstr list \<Rightarrow> jsstr \<Rightarrow> jsstr list" where
  "matched_options lower options query = (let needle = lower (trim query) in
     if needle = [] then options
     else map rk_option (sort_by rank_cmp (rank_options lower needle 0 options)))"

definition filterOptions :: "(jsstr \<Rightarrow> jsstr) \<Rightarrow> jsstr list \<Rightarrow> jsstr \<Rightarrow> nat \<Rightarrow> FilterResult" where
  "filterOptions lower options query limit = (let matched = matched_options lower options query in
     if length matched \<le> limit then \<lparr>fr_items = matched, fr_hidden = 0\<rparr>
     else \<lparr>fr_items = take limit matched, fr_hidden = length matched - limit\<rparr>)"

text \<open>
  The reference: the matching options, in the caller's order within each rank. The indexes
  break every tie the way a stable sort would, so the two agree.
\<close>

definition matched_spec :: "(jsstr \<Rightarrow> jsstr) \<Rightarrow> jsstr list \<Rightarrow> jsstr \<Rightarrow> jsstr list" where
  "matched_spec lower options needle =
     sort_key (\<lambda>x. option_rank (lower x) needle)
       (filter (\<lambda>x. 0 \<le> option_rank (lower x) needle) options)"

lemma rank_options_props:
  "map rk_option (rank_options lower needle i xs) = filter (\<lambda>x. 0 \<le> option_rank (lower x) needle) xs"
  "\<forall>r \<in> set (rank_options lower needle i xs). rk_rank r = option_rank (lower (rk_option r)) needle \<and> i \<le> rk_index r"
  "sorted_wrt (\<lambda>a b. rk_index a < rk_index b) (rank_options lower needle i xs)"
proof (induction xs arbitrary: i)
  case (Cons x xs)
  {
    case 1
    then show ?case using Cons(1) by (simp add: Let_def)
  next
    case 2
    then show ?case using Cons(2) [of "Suc i"] by (auto simp: Let_def)
  next
    case 3
    then show ?case using Cons(2) [of "Suc i"] Cons(3) [of "Suc i"]
      by (auto simp: Let_def sorted_wrt_append)
  }
qed simp_all

text \<open>On a list whose indexes increase, inserting by rank and index is inserting by rank.\<close>

lemma insert_by_rank:
  assumes "\<forall>y \<in> set ys. rk_index x < rk_index y"
  shows "insert_by rank_cmp x ys = insort_key rk_rank x ys"
  using assms by (induction ys) (auto simp: rank_cmp_def)

lemma sort_by_rank:
  "sorted_wrt (\<lambda>a b. rk_index a < rk_index b) xs \<Longrightarrow> sort_by rank_cmp xs = sort_key rk_rank xs"
proof (induction xs)
  case (Cons x xs)
  then have "sort_by rank_cmp xs = sort_key rk_rank xs" by simp
  moreover have "\<forall>y \<in> set (sort_key rk_rank xs). rk_index x < rk_index y" using Cons.prems by simp
  ultimately show ?case by (simp add: sort_by_def insert_by_rank)
qed (simp add: sort_by_def)

lemma map_insort_key:
  "\<forall>y \<in> insert x (set ys). k y = g (f y) \<Longrightarrow> map f (insort_key k x ys) = insort_key g (f x) (map f ys)"
  by (induction ys) auto

lemma map_sort_key:
  "\<forall>y \<in> set xs. k y = g (f y) \<Longrightarrow> map f (sort_key k xs) = sort_key g (map f xs)"
proof (induction xs)
  case (Cons a xs)
  then show ?case using map_insort_key [of a "sort_key k xs" k g f] by simp
qed simp

lemma matched_options_spec:
  assumes "lower (trim query) \<noteq> []"
  shows "matched_options lower options query = matched_spec lower options (lower (trim query))"
proof -
  define needle where "needle = lower (trim query)"
  define rs where "rs = rank_options lower needle 0 options"
  have "sort_by rank_cmp rs = sort_key rk_rank rs"
    unfolding rs_def by (intro sort_by_rank rank_options_props(3))
  moreover have "map rk_option (sort_key rk_rank rs)
      = sort_key (\<lambda>x. option_rank (lower x) needle) (map rk_option rs)"
    using rank_options_props(2) [of lower needle 0 options] by (intro map_sort_key) (simp add: rs_def)
  ultimately show ?thesis
    using assms rank_options_props(1) [of lower needle 0 options]
    by (simp add: matched_options_def matched_spec_def needle_def [symmetric] rs_def Let_def)
qed

section \<open>The property of the filter\<close>

text \<open>
  The filter shows the first options of the stable ranking - exact, prefix, containing -
  of those that contain what was typed, and counts the rest.
\<close>

lemma filter_ranks_and_caps:
  assumes "lower (trim query) = needle" and "needle \<noteq> []"
    and "matches = filter (\<lambda>x. includes_str (lower x) needle) options"
  shows "fr_items (filterOptions lower options query limit) =
      take limit (sort_key (\<lambda>x. option_rank (lower x) needle) matches)
    \<and> length (fr_items (filterOptions lower options query limit)) + fr_hidden (filterOptions lower options query limit)
      = length matches"
proof -
  have inc: "starts_with s p \<Longrightarrow> includes_str s p" for s p :: jsstr
    by (cases s) (auto simp: starts_with_def)
  have "0 \<le> option_rank (lower x) needle \<longleftrightarrow> includes_str (lower x) needle" for x
  proof -
    have "lower x = needle \<Longrightarrow> starts_with (lower x) needle" by (simp add: starts_with_def)
    then show ?thesis using inc [of "lower x" needle] by (auto simp: option_rank_def)
  qed
  then have m: "matched_options lower options query = sort_key (\<lambda>x. option_rank (lower x) needle) matches"
    using matched_options_spec [of lower query options] assms by (simp add: matched_spec_def)
  show ?thesis by (simp add: filterOptions_def m Let_def)
qed

end
