(* ===== verification/Stored_Files.thy ===== *)
theory Stored_Files
  imports Js_Base
begin

text \<open>
  What the stores in local storage share: an object of entries that is cut to its newest few,
  sorted by a stamp and rebuilt with \<open>Object.fromEntries\<close>.
\<close>

definition keep_newest :: "('a \<Rightarrow> jsnum) \<Rightarrow> nat \<Rightarrow> (jsstr \<times> 'a) list \<Rightarrow> (jsstr \<times> 'a) list" where
  "keep_newest stamp n file = (if length file \<le> n then file
     else from_entries (take n (sort_by (\<lambda>a b. num_cmp (stamp (snd b)) (stamp (snd a))) file)))"

lemma keep_newest_sub:
  assumes "distinct (map fst fl)"
  shows "set (keep_newest stamp n fl) \<subseteq> set fl" "distinct (map fst (keep_newest stamp n fl))"
    "length (keep_newest stamp n fl) \<le> n"
proof -
  define es where "es = sort_by (\<lambda>a b. num_cmp (stamp (snd b)) (stamp (snd a))) fl"
  have m: "mset es = mset fl" by (simp add: es_def)
  have "mset (map fst es) = mset (map fst fl)" by (simp only: mset_map m)
  then have d: "distinct (map fst es)" using assms by (metis mset_eq_imp_distinct_iff)
  have dt: "distinct (map fst (take n es))"
    using d by (simp add: take_map [symmetric] distinct_take)
  have mt: "mset (from_entries (take n es)) = mset (take n es)"
    by (rule mset_from_entries [OF dt])
  have "set es = set fl" using m by (rule mset_eq_setD)
  then have st: "set (from_entries (take n es)) \<subseteq> set fl"
    using mset_eq_setD [OF mt] set_take_subset [of n es] by auto
  have le: "length (from_entries (take n es)) \<le> n"
    using mset_eq_length [OF mt] by simp
  show "set (keep_newest stamp n fl) \<subseteq> set fl" "distinct (map fst (keep_newest stamp n fl))"
    "length (keep_newest stamp n fl) \<le> n"
    using st le assms by (simp_all add: keep_newest_def es_def [symmetric])
qed

text \<open>The entry that is strictly the newest outlives the cut.\<close>

lemma sort_by_front:
  assumes "x \<in> set xs" and "\<And>y. y \<in> set xs \<Longrightarrow> cmp x y \<le> 0"
    and "\<And>y. y \<in> set xs \<Longrightarrow> y \<noteq> x \<Longrightarrow> \<not> cmp y x \<le> 0"
  shows "\<exists>ys. sort_by cmp xs = x # ys"
  using assms
proof (induction xs)
  case (Cons a xs)
  have s: "sort_by cmp (a # xs) = insert_by cmp a (sort_by cmp xs)" by (simp add: sort_by_def)
  show ?case
  proof (cases "a = x")
    case True
    have "cmp x y \<le> 0" if "y \<in> set (sort_by cmp xs)" for y
    proof -
      have "set (sort_by cmp xs) = set xs" by (rule mset_eq_setD) simp
      with that show ?thesis using Cons.prems(2) by simp
    qed
    then show ?thesis using s True by (cases "sort_by cmp xs") auto
  next
    case False
    then have "\<exists>ys. sort_by cmp xs = x # ys" using Cons by auto
    moreover have "\<not> cmp a x \<le> 0" using Cons.prems(3) [of a] False by simp
    ultimately show ?thesis unfolding s by auto
  qed
qed simp

lemma keep_newest_keeps:
  assumes d: "distinct (map fst fl)" and m: "(k, s) \<in> set fl" and n: "0 < n"
    and newest: "\<And>k' s'. (k', s') \<in> set fl \<Longrightarrow> k' \<noteq> k \<Longrightarrow> stamp s' < stamp s"
  shows "map_of (keep_newest stamp n fl) k = Some s"
proof (cases "length fl \<le> n")
  case True
  then show ?thesis using d m by (simp add: keep_newest_def)
next
  case False
  define cmp where "cmp = (\<lambda>a b. num_cmp (stamp (snd (b :: jsstr \<times> 'a))) (stamp (snd (a :: jsstr \<times> 'a))))"
  have other: "y = (k, s) \<or> stamp (snd y) < stamp s" if "y \<in> set fl" for y
  proof (cases "fst y = k")
    case True
    then show ?thesis using d m that by (metis eq_key_imp_eq_value prod.collapse)
  next
    case ne: False
    then show ?thesis using newest [of "fst y" "snd y"] that by simp
  qed
  have "\<exists>ys. sort_by cmp fl = (k, s) # ys"
  proof (rule sort_by_front [OF m])
    show "cmp (k, s) y \<le> 0" if "y \<in> set fl" for y
      using other [OF that] by (auto simp: cmp_def num_cmp_def)
    show "\<not> cmp y (k, s) \<le> 0" if "y \<in> set fl" "y \<noteq> (k, s)" for y
    proof -
      have "stamp (snd y) < stamp s" using other [OF that(1)] that(2) by simp
      moreover from this have "\<not> stamp s < stamp (snd y)"
        using jsnum_less_trans jsnum_less_irrefl by blast
      ultimately show ?thesis by (simp add: cmp_def num_cmp_def)
    qed
  qed
  then obtain ys where ys: "sort_by cmp fl = (k, s) # ys" by blast
  have "mset (map fst (sort_by cmp fl)) = mset (map fst fl)" by (simp only: mset_map mset_sort_by)
  then have "distinct (map fst (sort_by cmp fl))" using d by (metis mset_eq_imp_distinct_iff)
  then have dt: "distinct (map fst (take n (sort_by cmp fl)))"
    by (simp add: take_map [symmetric] distinct_take)
  have "map_of (take n (sort_by cmp fl)) k = Some s"
    unfolding ys using n by (cases n) simp_all
  then show ?thesis
    using False map_of_from_entries [OF dt] by (simp add: keep_newest_def cmp_def)
qed

end
