(* ===== verification/Recent_Picks.thy ===== *)
theory Recent_Picks
  imports Stored_Files
begin

text \<open>
  The memory of recently picked topics and groups (\<open>lib/recentPicks.ts\<close>): what is read back
  out of local storage is sanitised, a pick moves to the front, and the store keeps the ten
  connections used last. \<open>Date.now()\<close> is the parameter \<open>now\<close>.
\<close>

datatype PickKind = PickTopic | PickGroup

definition MAX_RECENT :: nat where
  "MAX_RECENT = 10"

definition MAX_SCOPES :: nat where
  "MAX_SCOPES = 10"

record StoredScope =
  sc_topics :: "jsstr list"
  sc_groups :: "jsstr list"
  sc_updatedAt :: jsnum

type_synonym StoredFile = "(jsstr \<times> StoredScope) list"

section \<open>Reading\<close>

fun sanitize_entries :: "jsstr list \<Rightarrow> json list \<Rightarrow> jsstr list" where
  "sanitize_entries out [] = out"
| "sanitize_entries out (JStr s # js) =
     (if s = [] \<or> s \<in> set out then sanitize_entries out js
      else let out' = out @ [s] in
        if length out' = MAX_RECENT then out' else sanitize_entries out' js)"
| "sanitize_entries out (_ # js) = sanitize_entries out js"

definition sanitizeList :: "json option \<Rightarrow> jsstr list" where
  "sanitizeList value = (case value of Some (JArr js) \<Rightarrow> sanitize_entries [] js | _ \<Rightarrow> [])"

definition finite_or_zero :: "json option \<Rightarrow> jsnum" where
  "finite_or_zero value = (case value of
     Some (JNum n) \<Rightarrow> if is_finite n then n else Fin 0 | _ \<Rightarrow> Fin 0)"

fun sanitizeScope :: "json \<Rightarrow> StoredScope option" where
  "sanitizeScope (JObj fs) = Some
     \<lparr>sc_topics = sanitizeList (map_of fs (u ''topics'')),
      sc_groups = sanitizeList (map_of fs (u ''groups'')),
      sc_updatedAt = finite_or_zero (map_of fs (u ''updatedAt''))\<rparr>"
| "sanitizeScope _ = None"

fun sanitize_file :: "StoredFile \<Rightarrow> (jsstr \<times> json) list \<Rightarrow> StoredFile" where
  "sanitize_file file [] = file"
| "sanitize_file file ((scopeKey, value) # rest) = sanitize_file
     (case sanitizeScope value of None \<Rightarrow> file | Some scope \<Rightarrow> obj_set scopeKey scope file) rest"

definition readFile :: "cell \<Rightarrow> StoredFile" where
  "readFile c = (case c of Holds (JObj fs) \<Rightarrow> sanitize_file [] fs | _ \<Rightarrow> [])"

section \<open>Writing\<close>

definition trim_scopes :: "StoredFile \<Rightarrow> StoredFile" where
  "trim_scopes file = keep_newest sc_updatedAt MAX_SCOPES file"

definition scope_json :: "StoredScope \<Rightarrow> json" where
  "scope_json s = JObj [(u ''topics'', JArr (map JStr (sc_topics s))),
     (u ''groups'', JArr (map JStr (sc_groups s))), (u ''updatedAt'', JNum (sc_updatedAt s))]"

definition writeFile :: "StoredFile \<Rightarrow> bool \<Rightarrow> cell \<Rightarrow> cell" where
  "writeFile file full c =
     (if full then c else Holds (JObj (map (\<lambda>(k, s). (k, scope_json s)) file)))"

definition listOf :: "StoredScope \<Rightarrow> PickKind \<Rightarrow> jsstr list" where
  "listOf scope kind = (case kind of PickTopic \<Rightarrow> sc_topics scope | PickGroup \<Rightarrow> sc_groups scope)"

definition loadRecentPicks :: "cell \<Rightarrow> jsstr \<Rightarrow> PickKind \<Rightarrow> jsstr list" where
  "loadRecentPicks c scopeKey kind = (case map_of (readFile c) scopeKey of
     None \<Rightarrow> [] | Some scope \<Rightarrow> listOf scope kind)"

definition next_picks :: "jsstr \<Rightarrow> jsstr list \<Rightarrow> jsstr list" where
  "next_picks value picks = take MAX_RECENT (value # filter (\<lambda>e. e \<noteq> value) picks)"

definition set_picks :: "PickKind \<Rightarrow> jsstr list \<Rightarrow> jsnum \<Rightarrow> StoredScope \<Rightarrow> StoredScope" where
  "set_picks kind nxt now scope = (case kind of
       PickTopic \<Rightarrow> scope\<lparr>sc_topics := nxt, sc_updatedAt := now\<rparr>
     | PickGroup \<Rightarrow> scope\<lparr>sc_groups := nxt, sc_updatedAt := now\<rparr>)"

definition recorded_file :: "cell \<Rightarrow> jsstr \<Rightarrow> PickKind \<Rightarrow> jsstr \<Rightarrow> jsnum \<Rightarrow> StoredFile" where
  "recorded_file c scopeKey kind value now =
    (let file = readFile c;
         scope = nullish (map_of file scopeKey)
           \<lparr>sc_topics = [], sc_groups = [], sc_updatedAt = Fin 0\<rparr>
     in trim_scopes (obj_set scopeKey
          (set_picks kind (next_picks value (listOf scope kind)) now scope) file))"

text \<open>The new storage and the list returned.\<close>

definition recordRecentPick ::
    "cell \<Rightarrow> bool \<Rightarrow> jsstr \<Rightarrow> PickKind \<Rightarrow> jsstr \<Rightarrow> jsnum \<Rightarrow> cell \<times> jsstr list" where
  "recordRecentPick c full scopeKey kind value now =
    (if value = [] then (c, loadRecentPicks c scopeKey kind)
     else let scope = nullish (map_of (readFile c) scopeKey)
            \<lparr>sc_topics = [], sc_groups = [], sc_updatedAt = Fin 0\<rparr>
       in (writeFile (recorded_file c scopeKey kind value now) full c,
           next_picks value (listOf scope kind)))"

section \<open>What is kept\<close>

definition good_picks :: "jsstr list \<Rightarrow> bool" where
  "good_picks xs \<longleftrightarrow> distinct xs \<and> length xs \<le> MAX_RECENT \<and> [] \<notin> set xs"

definition good_scope :: "StoredScope \<Rightarrow> bool" where
  "good_scope s \<longleftrightarrow> good_picks (sc_topics s) \<and> good_picks (sc_groups s) \<and> is_finite (sc_updatedAt s)"

definition good_file :: "StoredFile \<Rightarrow> bool" where
  "good_file fl \<longleftrightarrow> distinct (map fst fl) \<and> (\<forall>s \<in> snd ` set fl. good_scope s)"

lemma sanitize_entries_good:
  "distinct out \<Longrightarrow> [] \<notin> set out \<Longrightarrow> length out < MAX_RECENT \<Longrightarrow> good_picks (sanitize_entries out js)"
  by (induction out js rule: sanitize_entries.induct) (auto simp: good_picks_def Let_def)

lemma sanitizeList_good: "good_picks (sanitizeList v)"
proof -
  have "good_picks (sanitize_entries [] js)" for js
    by (rule sanitize_entries_good) (simp_all add: MAX_RECENT_def)
  moreover have "good_picks []" by (simp add: good_picks_def)
  ultimately show ?thesis by (auto simp: sanitizeList_def split: option.splits json.splits)
qed

lemma finite_or_zero_finite: "is_finite (finite_or_zero v)"
  by (auto simp: finite_or_zero_def is_finite_def split: option.splits json.splits)

lemma sanitizeScope_good: "sanitizeScope j = Some s \<Longrightarrow> good_scope s"
  by (cases j) (auto simp: good_scope_def sanitizeList_good finite_or_zero_finite)

lemma good_file_set: "good_file fl \<Longrightarrow> good_scope s \<Longrightarrow> good_file (obj_set k s fl)"
  using set_obj_set [of k s fl] by (auto simp: good_file_def distinct_obj_set)

lemma sanitize_file_good: "good_file fl \<Longrightarrow> good_file (sanitize_file fl fs)"
proof (induction fl fs rule: sanitize_file.induct)
  case (2 fl k v rest)
  then show ?case
    using good_file_set [of fl _ k] sanitizeScope_good [of v] by (cases "sanitizeScope v") auto
qed simp

text \<open>Whatever the storage holds, what is read is well-formed.\<close>

lemma readFile_good: "good_file (readFile c)"
  by (auto simp: readFile_def good_file_def [of "[]"] intro!: sanitize_file_good
      split: cell.splits json.splits)

lemma next_picks_good: "good_picks xs \<Longrightarrow> v \<noteq> [] \<Longrightarrow> good_picks (next_picks v xs)"
  by (auto simp: good_picks_def next_picks_def MAX_RECENT_def take_Cons' distinct_take dest: in_set_takeD)

lemmas trim_scopes_sub = keep_newest_sub [where stamp = "sc_updatedAt :: StoredScope \<Rightarrow> jsnum" and n = MAX_SCOPES, folded trim_scopes_def]

lemma trim_scopes_good: "good_file fl \<Longrightarrow> good_file (trim_scopes fl)"
  using trim_scopes_sub [of fl] by (auto simp: good_file_def)

lemma recorded_file_good:
  assumes "value \<noteq> []" and "is_finite now"
  shows "good_file (recorded_file c scopeKey kind value now)"
    "length (recorded_file c scopeKey kind value now) \<le> MAX_SCOPES"
proof -
  define scope where "scope = nullish (map_of (readFile c) scopeKey)
    \<lparr>sc_topics = [], sc_groups = [], sc_updatedAt = Fin 0\<rparr>"
  have "good_scope scope"
    using readFile_good [of c]
    by (cases "map_of (readFile c) scopeKey")
      (force simp: scope_def good_file_def good_scope_def good_picks_def is_finite_def dest: map_of_SomeD)+
  then have "good_scope (set_picks kind (next_picks value (listOf scope kind)) now scope)"
    using assms by (cases kind) (auto simp: set_picks_def good_scope_def listOf_def next_picks_good)
  then have g: "good_file (obj_set scopeKey
      (set_picks kind (next_picks value (listOf scope kind)) now scope) (readFile c))"
    by (intro good_file_set readFile_good)
  show "good_file (recorded_file c scopeKey kind value now)"
    "length (recorded_file c scopeKey kind value now) \<le> MAX_SCOPES"
    using trim_scopes_good [OF g] trim_scopes_sub(3) [of "obj_set scopeKey
      (set_picks kind (next_picks value (listOf scope kind)) now scope) (readFile c)"] g
    by (simp_all add: recorded_file_def scope_def [symmetric] Let_def good_file_def)
qed

section \<open>Reading back what was written\<close>

lemma sanitize_entries_strings:
  "distinct (out @ xs) \<Longrightarrow> [] \<notin> set xs \<Longrightarrow> length (out @ xs) \<le> MAX_RECENT \<Longrightarrow>
   sanitize_entries out (map JStr xs) = out @ xs"
proof (induction xs arbitrary: out)
  case (Cons a xs)
  have "xs = []" if "Suc (length out) = MAX_RECENT" using that Cons.prems(3) by (cases xs) simp_all
  then show ?case using Cons by (auto simp: Let_def)
qed simp

lemma sanitizeScope_json: "good_scope s \<Longrightarrow> sanitizeScope (scope_json s) = Some s"
  by (cases s) (simp add: scope_json_def sanitizeList_def finite_or_zero_def good_scope_def
      good_picks_def sanitize_entries_strings)

lemma map_of_sanitize_file:
  assumes "distinct (map fst fl)" and "distinct (map fst acc)" and "\<forall>s \<in> snd ` set fl. good_scope s"
  shows "map_of (sanitize_file acc (map (\<lambda>(k, s). (k, scope_json s)) fl)) = map_of acc ++ map_of fl"
  using assms
proof (induction fl arbitrary: acc)
  case (Cons e fl)
  obtain k s where e: "e = (k, s)" by (cases e)
  have "map_of fl k = None" using Cons.prems(1) by (simp add: e map_of_eq_None_iff)
  then show ?case using Cons
    by (auto simp: e sanitizeScope_json distinct_obj_set map_of_obj_set map_add_def fun_eq_iff
        split: option.splits)
qed simp

text \<open>A file that was written is the file that is read, when the write went through.\<close>

lemma read_write_file:
  "good_file fl \<Longrightarrow> map_of (readFile (writeFile fl False c)) = map_of fl"
  using map_of_sanitize_file [of fl "[]"] by (simp add: writeFile_def readFile_def good_file_def)

text \<open>The scope used last outlives the trimming of the others.\<close>

lemmas trim_scopes_newest = keep_newest_keeps [where stamp = "sc_updatedAt :: StoredScope \<Rightarrow> jsnum" and n = MAX_SCOPES, folded trim_scopes_def]

section \<open>The property of the picks\<close>

lemma listOf_set_picks:
  "listOf (set_picks kind xs now s) k = (if k = kind then xs else listOf s k)"
  by (cases kind; cases k) (simp_all add: listOf_def set_picks_def)

lemma stored_scope:
  assumes "value \<noteq> []" and "is_finite now"
    and "\<forall>(k, s) \<in> set (readFile c). k \<noteq> scopeKey \<longrightarrow> sc_updatedAt s < now"
  shows "map_of (recorded_file c scopeKey kind value now) scopeKey =
    Some (set_picks kind (next_picks value (loadRecentPicks c scopeKey kind)) now
      (nullish (map_of (readFile c) scopeKey) \<lparr>sc_topics = [], sc_groups = [], sc_updatedAt = Fin 0\<rparr>))"
proof -
  define scope where "scope = nullish (map_of (readFile c) scopeKey) \<lparr>sc_topics = [], sc_groups = [], sc_updatedAt = Fin 0\<rparr>"
  define s where "s = set_picks kind (next_picks value (listOf scope kind)) now scope"
  have d: "distinct (map fst (readFile c))" using readFile_good by (simp add: good_file_def)
  then have d': "distinct (map fst (obj_set scopeKey s (readFile c)))" by (rule distinct_obj_set)
  have up: "sc_updatedAt s = now" by (cases kind) (simp_all add: s_def set_picks_def)
  have l: "listOf scope kind = loadRecentPicks c scopeKey kind"
    by (cases kind; cases "map_of (readFile c) scopeKey") (simp_all add: scope_def loadRecentPicks_def listOf_def)
  have "map_of (obj_set scopeKey s (readFile c)) scopeKey = Some s"
    using map_of_obj_set [OF d, of scopeKey s] by simp
  then have m: "(scopeKey, s) \<in> set (obj_set scopeKey s (readFile c))" by (rule map_of_SomeD)
  have "map_of (trim_scopes (obj_set scopeKey s (readFile c))) scopeKey = Some s"
  proof (rule trim_scopes_newest [OF d' m])
    show "0 < MAX_SCOPES" by (simp add: MAX_SCOPES_def)
    fix k' s' assume "(k', s') \<in> set (obj_set scopeKey s (readFile c))" "k' \<noteq> scopeKey"
    then have "(k', s') \<in> set (readFile c)" using set_obj_set [of scopeKey s "readFile c"] by auto
    then show "sc_updatedAt s' < sc_updatedAt s" using assms(3) \<open>k' \<noteq> scopeKey\<close> by (auto simp: up)
  qed
  then show ?thesis by (simp add: recorded_file_def scope_def [symmetric] s_def l Let_def)
qed

lemma filter_other: "filter (\<lambda>e. e \<noteq> v) xs = removeAll v xs"
  by (induction xs) auto

text \<open>
  C38: A recorded pick that is not the empty text is read back: it comes first, the list is what was there
  without it, cut at ten, the list of the other kind is untouched, and storage never holds more than
  ten connections - as long as the clock reads a finite time later than every other connection's
  stamp and storage takes the write. (An empty pick is not recorded.)
\<close>

theorem recent_picks_remember:
  assumes "value \<noteq> []" and "is_finite now"
    and "\<forall>(k, s) \<in> set (readFile c). k \<noteq> scopeKey \<longrightarrow> sc_updatedAt s < now"
    and "recordRecentPick c False scopeKey kind value now = (c', picks)"
  shows "picks = take MAX_RECENT (value # remove1 value (loadRecentPicks c scopeKey kind))
    \<and> loadRecentPicks c' scopeKey kind = picks
    \<and> (other \<noteq> kind \<longrightarrow> loadRecentPicks c' scopeKey other = loadRecentPicks c scopeKey other)
    \<and> length (readFile c') \<le> MAX_SCOPES"
proof -
  define scope where "scope = nullish (map_of (readFile c) scopeKey) \<lparr>sc_topics = [], sc_groups = [], sc_updatedAt = Fin 0\<rparr>"
  have l: "listOf scope k = loadRecentPicks c scopeKey k" for k
    by (cases k; cases "map_of (readFile c) scopeKey") (simp_all add: scope_def loadRecentPicks_def listOf_def)
  have p: "picks = next_picks value (loadRecentPicks c scopeKey kind)"
    and c': "c' = writeFile (recorded_file c scopeKey kind value now) False c"
    using assms(1,4) by (simp_all add: recordRecentPick_def scope_def [symmetric] l Let_def)
  have rf: "map_of (readFile c') = map_of (recorded_file c scopeKey kind value now)"
    unfolding c' by (rule read_write_file [OF recorded_file_good(1) [OF assms(1,2)]])
  have "loadRecentPicks c' scopeKey k = (if k = kind then picks else loadRecentPicks c scopeKey k)" for k
    using stored_scope [OF assms(1-3), of kind]
    by (simp add: loadRecentPicks_def [of c'] rf scope_def [symmetric] listOf_set_picks p l)
  moreover have "good_picks (loadRecentPicks c scopeKey kind)"
    using readFile_good [of c]
    by (cases kind; cases "map_of (readFile c) scopeKey")
      (force simp: loadRecentPicks_def good_file_def good_scope_def good_picks_def listOf_def dest: map_of_SomeD)+
  then have "filter (\<lambda>e. e \<noteq> value) (loadRecentPicks c scopeKey kind) = remove1 value (loadRecentPicks c scopeKey kind)"
    by (simp add: good_picks_def distinct_remove1_removeAll filter_other)
  moreover have "length (readFile c') \<le> MAX_SCOPES"
  proof -
    have "length (readFile c') = card (dom (map_of (readFile c')))"
    proof -
      have "distinct (map fst (readFile c'))" using readFile_good [of c'] by (simp add: good_file_def)
      then have "card (set (map fst (readFile c'))) = length (map fst (readFile c'))" by (rule distinct_card)
      then show ?thesis by (simp add: dom_map_of_conv_image_fst)
    qed
    also have "\<dots> \<le> length (recorded_file c scopeKey kind value now)"
      unfolding rf by (simp add: dom_map_of_conv_image_fst) (metis card_length image_set length_map)
    also have "\<dots> \<le> MAX_SCOPES" by (rule recorded_file_good(2) [OF assms(1,2)])
    finally show ?thesis .
  qed
  ultimately show ?thesis by (auto simp: p next_picks_def)
qed

theorem recent_picks_remember_witness:
  "loadRecentPicks (fst (recordRecentPick NoItem False (u ''k'') PickTopic (u ''t'') (Fin 5))) (u ''k'') PickTopic = [u ''t'']"
proof -
  obtain c' picks where r: "recordRecentPick NoItem False (u ''k'') PickTopic (u ''t'') (Fin 5) = (c', picks)"
    by fastforce
  show ?thesis
    using recent_picks_remember [OF _ _ _ r, where other = PickTopic]
    by (simp add: r readFile_def is_finite_def loadRecentPicks_def MAX_RECENT_def)
qed

end
