(* ===== verification/Connection_Forms.thy ===== *)
theory Connection_Forms
  imports Broker_Model
begin

text \<open>
  What the connection dialog edits: one draft per broker family
  (\<open>design/boards/connections/ConnectionForms.tsx\<close>), with the fields its form draws and the blank
  draft it opens on. The fields every form has - name, group, remark, timeout - are a record of
  their own that the family records extend, and so are the two that say whether a credential is
  stored and whether the clear control was used; NSQ, which has no credential, extends the first.
  The string unions of the source are datatypes, with the string each constructor stands for.
\<close>

section \<open>Choices\<close>

datatype RocketVersion = Rocket4 | Rocket5
datatype RocketAccess = AccessNs | AccessProxy
datatype KafkaMechanism = KafkaNone | KafkaPlain | KafkaScram
datatype KafkaScramSha = Sha256 | Sha512
datatype PulsarAuth = PulsarNone | PulsarToken
datatype RedisDeployment = Standalone | Sentinel | RedisCluster
datatype MqttProtocol = Mqtt5 | Mqtt311
datatype MqttTransport = OverTcp | OverTls | OverWs | OverWss
datatype NatsMechanism = NatsNone | NatsPlain | NatsToken | NatsNkey | NatsCreds | NatsMtls

text \<open>MQTT, ActiveMQ, IBM MQ and Solace each choose between nothing and a plain pair.\<close>

datatype PlainMechanism = MechNone | MechPlain

fun rocket_version_str :: "RocketVersion \<Rightarrow> jsstr" where
  "rocket_version_str Rocket4 = u ''4.x''"
| "rocket_version_str Rocket5 = u ''5.x''"

fun rocket_access_str :: "RocketAccess \<Rightarrow> jsstr" where
  "rocket_access_str AccessNs = u ''ns''"
| "rocket_access_str AccessProxy = u ''proxy''"

fun scram_sha_str :: "KafkaScramSha \<Rightarrow> jsstr" where
  "scram_sha_str Sha256 = u ''256''"
| "scram_sha_str Sha512 = u ''512''"

fun deployment_str :: "RedisDeployment \<Rightarrow> jsstr" where
  "deployment_str Standalone = u ''standalone''"
| "deployment_str Sentinel = u ''sentinel''"
| "deployment_str RedisCluster = u ''cluster''"

fun mqtt_protocol_str :: "MqttProtocol \<Rightarrow> jsstr" where
  "mqtt_protocol_str Mqtt5 = u ''5''"
| "mqtt_protocol_str Mqtt311 = u ''311''"

fun transport_str :: "MqttTransport \<Rightarrow> jsstr" where
  "transport_str OverTcp = u ''tcp''"
| "transport_str OverTls = u ''tls''"
| "transport_str OverWs = u ''ws''"
| "transport_str OverWss = u ''wss''"

definition bool_str :: "bool \<Rightarrow> jsstr" where
  "bool_str b = (if b then u ''true'' else u ''false'')"

lemma bool_str_true [simp]: "bool_str b = u ''true'' \<longleftrightarrow> b" "bool_str b = u ''false'' \<longleftrightarrow> \<not> b"
  by (simp_all add: bool_str_def)

section \<open>Drafts\<close>

definition DEFAULT_TIMEOUT_SEC :: jsnum where
  "DEFAULT_TIMEOUT_SEC = Fin 5"

definition SB_DEFAULT_KEY_NAME :: jsstr where
  "SB_DEFAULT_KEY_NAME = u ''RootManageSharedAccessKey''"

record shared_draft =
  dr_name :: jsstr
  dr_group :: jsstr
  dr_remark :: jsstr
  dr_timeoutSec :: jsnum

record credentialed_draft = shared_draft +
  dr_credentialsStored :: bool
  dr_clearCredentials :: bool

text \<open>\<open>stored && !clear\<close>: a credential the submission should keep.\<close>

definition keepStored :: "'a credentialed_draft_scheme \<Rightarrow> bool" where
  "keepStored d \<longleftrightarrow> dr_credentialsStored d \<and> \<not> dr_clearCredentials d"

subsection \<open>RocketMQ\<close>

record RocketMQDraft = credentialed_draft +
  rk_version :: RocketVersion
  rk_access :: RocketAccess
  rk_endpoints :: jsstr
  rk_accessKey :: jsstr
  rk_secretKey :: jsstr
  rk_namespace :: jsstr

definition emptyRocketMQDraft :: RocketMQDraft where
  "emptyRocketMQDraft =
    \<lparr>dr_name = [], dr_group = [], dr_remark = [], dr_timeoutSec = DEFAULT_TIMEOUT_SEC,
     dr_credentialsStored = False, dr_clearCredentials = False, rk_version = Rocket5,
     rk_access = AccessNs, rk_endpoints = [], rk_accessKey = [], rk_secretKey = [],
     rk_namespace = []\<rparr>"

subsection \<open>RabbitMQ\<close>

record RabbitMQDraft = credentialed_draft +
  rb_management :: jsstr
  rb_amqp :: jsstr
  rb_vhost :: jsstr
  rb_username :: jsstr
  rb_password :: jsstr
  rb_tls :: bool
  rb_tlsSkipVerify :: bool

definition emptyRabbitMQDraft :: RabbitMQDraft where
  "emptyRabbitMQDraft =
    \<lparr>dr_name = [], dr_group = [], dr_remark = [], dr_timeoutSec = DEFAULT_TIMEOUT_SEC,
     dr_credentialsStored = False, dr_clearCredentials = False, rb_management = [], rb_amqp = [],
     rb_vhost = u ''/'', rb_username = [], rb_password = [], rb_tls = False,
     rb_tlsSkipVerify = False\<rparr>"

subsection \<open>Kafka\<close>

record KafkaDraft = credentialed_draft +
  kd_endpoints :: jsstr
  kd_mechanism :: KafkaMechanism
  kd_scramSha :: KafkaScramSha
  kd_username :: jsstr
  kd_password :: jsstr
  kd_tls :: bool
  kd_tlsCaFile :: jsstr
  kd_tlsSkipVerify :: bool

definition emptyKafkaDraft :: KafkaDraft where
  "emptyKafkaDraft =
    \<lparr>dr_name = [], dr_group = [], dr_remark = [], dr_timeoutSec = DEFAULT_TIMEOUT_SEC,
     dr_credentialsStored = False, dr_clearCredentials = False, kd_endpoints = [],
     kd_mechanism = KafkaNone, kd_scramSha = Sha512, kd_username = [], kd_password = [],
     kd_tls = False, kd_tlsCaFile = [], kd_tlsSkipVerify = False\<rparr>"

subsection \<open>Pulsar\<close>

record PulsarDraft = credentialed_draft +
  pd_service :: jsstr
  pd_admin :: jsstr
  pd_tenant :: jsstr
  pd_namespace :: jsstr
  pd_auth :: PulsarAuth
  pd_token :: jsstr
  pd_tls :: bool
  pd_tlsCaFile :: jsstr
  pd_tlsSkipVerify :: bool

definition emptyPulsarDraft :: PulsarDraft where
  "emptyPulsarDraft =
    \<lparr>dr_name = [], dr_group = [], dr_remark = [], dr_timeoutSec = DEFAULT_TIMEOUT_SEC,
     dr_credentialsStored = False, dr_clearCredentials = False, pd_service = [], pd_admin = [],
     pd_tenant = u ''public'', pd_namespace = u ''default'', pd_auth = PulsarNone, pd_token = [],
     pd_tls = False, pd_tlsCaFile = [], pd_tlsSkipVerify = False\<rparr>"

subsection \<open>Redis\<close>

record RedisDraft = credentialed_draft +
  rd_deployment :: RedisDeployment
  rd_endpoints :: jsstr
  rd_masterName :: jsstr
  rd_db :: jsnum
  rd_streamFilter :: jsstr
  rd_username :: jsstr
  rd_password :: jsstr
  rd_tls :: bool
  rd_tlsSkipVerify :: bool

definition emptyRedisDraft :: RedisDraft where
  "emptyRedisDraft =
    \<lparr>dr_name = [], dr_group = [], dr_remark = [], dr_timeoutSec = DEFAULT_TIMEOUT_SEC,
     dr_credentialsStored = False, dr_clearCredentials = False, rd_deployment = Standalone,
     rd_endpoints = [], rd_masterName = [], rd_db = Fin 0, rd_streamFilter = [], rd_username = [],
     rd_password = [], rd_tls = False, rd_tlsSkipVerify = False\<rparr>"

subsection \<open>MQTT\<close>

record MqttDraft = credentialed_draft +
  md_endpoints :: jsstr
  md_protocol :: MqttProtocol
  md_transport :: MqttTransport
  md_wsPath :: jsstr
  md_clientId :: jsstr
  md_keepAliveSec :: jsnum
  md_cleanStart :: bool
  md_sessionExpirySec :: jsnum
  md_mechanism :: PlainMechanism
  md_username :: jsstr
  md_password :: jsstr
  md_tlsCaFile :: jsstr
  md_tlsSkipVerify :: bool
  md_managementUrl :: jsstr
  md_managementKey :: jsstr
  md_managementSecret :: jsstr

definition emptyMqttDraft :: MqttDraft where
  "emptyMqttDraft =
    \<lparr>dr_name = [], dr_group = [], dr_remark = [], dr_timeoutSec = DEFAULT_TIMEOUT_SEC,
     dr_credentialsStored = False, dr_clearCredentials = False, md_endpoints = [],
     md_protocol = Mqtt5, md_transport = OverTcp, md_wsPath = u ''/mqtt'', md_clientId = [],
     md_keepAliveSec = Fin 60, md_cleanStart = True, md_sessionExpirySec = Fin 0,
     md_mechanism = MechNone, md_username = [], md_password = [], md_tlsCaFile = [],
     md_tlsSkipVerify = False, md_managementUrl = [], md_managementKey = [],
     md_managementSecret = []\<rparr>"

subsection \<open>NATS\<close>

record NatsDraft = credentialed_draft +
  nd_endpoints :: jsstr
  nd_mechanism :: NatsMechanism
  nd_username :: jsstr
  nd_password :: jsstr
  nd_token :: jsstr
  nd_nkeySeed :: jsstr
  nd_credsFile :: jsstr
  nd_tls :: bool
  nd_tlsCaFile :: jsstr
  nd_tlsCertFile :: jsstr
  nd_tlsKeyFile :: jsstr
  nd_tlsSkipVerify :: bool
  nd_monitorUrl :: jsstr
  nd_systemUser :: jsstr
  nd_systemPassword :: jsstr
  nd_jsDomain :: jsstr

definition emptyNatsDraft :: NatsDraft where
  "emptyNatsDraft =
    \<lparr>dr_name = [], dr_group = [], dr_remark = [], dr_timeoutSec = DEFAULT_TIMEOUT_SEC,
     dr_credentialsStored = False, dr_clearCredentials = False, nd_endpoints = [],
     nd_mechanism = NatsNone, nd_username = [], nd_password = [], nd_token = [], nd_nkeySeed = [],
     nd_credsFile = [], nd_tls = False, nd_tlsCaFile = [], nd_tlsCertFile = [], nd_tlsKeyFile = [],
     nd_tlsSkipVerify = False, nd_monitorUrl = [], nd_systemUser = [], nd_systemPassword = [],
     nd_jsDomain = []\<rparr>"

subsection \<open>ActiveMQ\<close>

record ActiveMQDraft = credentialed_draft +
  ad_endpoints :: jsstr
  ad_mechanism :: PlainMechanism
  ad_username :: jsstr
  ad_password :: jsstr
  ad_jolokiaPath :: jsstr
  ad_brokerName :: jsstr
  ad_originHeader :: jsstr
  ad_tlsSkipVerify :: bool
  ad_amqpUrl :: jsstr
  ad_amqpUsername :: jsstr
  ad_amqpPassword :: jsstr

definition emptyActiveMQDraft :: ActiveMQDraft where
  "emptyActiveMQDraft =
    \<lparr>dr_name = [], dr_group = [], dr_remark = [], dr_timeoutSec = DEFAULT_TIMEOUT_SEC,
     dr_credentialsStored = False, dr_clearCredentials = False, ad_endpoints = [],
     ad_mechanism = MechPlain, ad_username = [], ad_password = [], ad_jolokiaPath = [],
     ad_brokerName = [], ad_originHeader = [], ad_tlsSkipVerify = False, ad_amqpUrl = [],
     ad_amqpUsername = [], ad_amqpPassword = []\<rparr>"

subsection \<open>NSQ\<close>

record NsqDraft = shared_draft +
  qd_endpoints :: jsstr
  qd_lookupdEndpoints :: jsstr
  qd_tlsSkipVerify :: bool

definition emptyNsqDraft :: NsqDraft where
  "emptyNsqDraft =
    \<lparr>dr_name = [], dr_group = [], dr_remark = [], dr_timeoutSec = DEFAULT_TIMEOUT_SEC,
     qd_endpoints = [], qd_lookupdEndpoints = [], qd_tlsSkipVerify = False\<rparr>"

subsection \<open>Amazon SQS\<close>

record SqsDraft = credentialed_draft +
  sd_region :: jsstr
  sd_accessKeyId :: jsstr
  sd_secretAccessKey :: jsstr
  sd_sessionToken :: jsstr
  sd_queuePrefix :: jsstr
  sd_endpointUrl :: jsstr

definition emptySqsDraft :: SqsDraft where
  "emptySqsDraft =
    \<lparr>dr_name = [], dr_group = [], dr_remark = [], dr_timeoutSec = DEFAULT_TIMEOUT_SEC,
     dr_credentialsStored = False, dr_clearCredentials = False, sd_region = [], sd_accessKeyId = [],
     sd_secretAccessKey = [], sd_sessionToken = [], sd_queuePrefix = [], sd_endpointUrl = []\<rparr>"

subsection \<open>Google Pub/Sub\<close>

record GooglePubSubDraft = credentialed_draft +
  gd_projectId :: jsstr
  gd_credentialsJson :: jsstr
  gd_resourcePrefix :: jsstr
  gd_emulatorHost :: jsstr

definition emptyGooglePubSubDraft :: GooglePubSubDraft where
  "emptyGooglePubSubDraft =
    \<lparr>dr_name = [], dr_group = [], dr_remark = [], dr_timeoutSec = DEFAULT_TIMEOUT_SEC,
     dr_credentialsStored = False, dr_clearCredentials = False, gd_projectId = [],
     gd_credentialsJson = [], gd_resourcePrefix = [], gd_emulatorHost = []\<rparr>"

subsection \<open>Azure Service Bus\<close>

record AzureServiceBusDraft = credentialed_draft +
  zd_endpoints :: jsstr
  zd_keyName :: jsstr
  zd_sharedAccessKey :: jsstr
  zd_connectionString :: jsstr
  zd_entityPrefix :: jsstr
  zd_emulatorManagement :: jsstr

definition emptyAzureServiceBusDraft :: AzureServiceBusDraft where
  "emptyAzureServiceBusDraft =
    \<lparr>dr_name = [], dr_group = [], dr_remark = [], dr_timeoutSec = DEFAULT_TIMEOUT_SEC,
     dr_credentialsStored = False, dr_clearCredentials = False, zd_endpoints = [],
     zd_keyName = SB_DEFAULT_KEY_NAME, zd_sharedAccessKey = [], zd_connectionString = [],
     zd_entityPrefix = [], zd_emulatorManagement = []\<rparr>"

subsection \<open>Kinesis\<close>

record KinesisDraft = credentialed_draft +
  id_region :: jsstr
  id_accessKeyId :: jsstr
  id_secretAccessKey :: jsstr
  id_sessionToken :: jsstr
  id_streamPrefix :: jsstr
  id_endpointUrl :: jsstr

definition emptyKinesisDraft :: KinesisDraft where
  "emptyKinesisDraft =
    \<lparr>dr_name = [], dr_group = [], dr_remark = [], dr_timeoutSec = DEFAULT_TIMEOUT_SEC,
     dr_credentialsStored = False, dr_clearCredentials = False, id_region = [], id_accessKeyId = [],
     id_secretAccessKey = [], id_sessionToken = [], id_streamPrefix = [], id_endpointUrl = []\<rparr>"

subsection \<open>IBM MQ\<close>

record IbmMqDraft = credentialed_draft +
  bd_endpoints :: jsstr
  bd_mechanism :: PlainMechanism
  bd_username :: jsstr
  bd_password :: jsstr
  bd_queueManager :: jsstr
  bd_messagingUsername :: jsstr
  bd_messagingPassword :: jsstr
  bd_tlsSkipVerify :: bool

definition emptyIbmMqDraft :: IbmMqDraft where
  "emptyIbmMqDraft =
    \<lparr>dr_name = [], dr_group = [], dr_remark = [], dr_timeoutSec = DEFAULT_TIMEOUT_SEC,
     dr_credentialsStored = False, dr_clearCredentials = False, bd_endpoints = [],
     bd_mechanism = MechPlain, bd_username = [], bd_password = [], bd_queueManager = [],
     bd_messagingUsername = [], bd_messagingPassword = [], bd_tlsSkipVerify = False\<rparr>"

subsection \<open>Solace\<close>

record SolaceDraft = credentialed_draft +
  od_endpoints :: jsstr
  od_mechanism :: PlainMechanism
  od_username :: jsstr
  od_password :: jsstr
  od_msgVpn :: jsstr
  od_restUrl :: jsstr
  od_restUsername :: jsstr
  od_restPassword :: jsstr
  od_tlsSkipVerify :: bool

definition emptySolaceDraft :: SolaceDraft where
  "emptySolaceDraft =
    \<lparr>dr_name = [], dr_group = [], dr_remark = [], dr_timeoutSec = DEFAULT_TIMEOUT_SEC,
     dr_credentialsStored = False, dr_clearCredentials = False, od_endpoints = [],
     od_mechanism = MechPlain, od_username = [], od_password = [], od_msgVpn = [], od_restUrl = [],
     od_restUsername = [], od_restPassword = [], od_tlsSkipVerify = False\<rparr>"

end
