(* ===== verification/Connection_Drafts.thy ===== *)
theory Connection_Drafts
  imports Connection_Forms Js_Text
begin

text \<open>
  Each family's form translated into what the connection service stores, and a stored profile
  read back into the form (\<open>design/boards/connections/connectionDraft.ts\<close>). A secret is written
  and never read: a profile comes back with the names of the secrets it holds, so a blank field
  means \<open>kept\<close>, \<open>none\<close> or \<open>removed\<close> by the mode submitted beside it.
\<close>

section \<open>Submissions and profiles\<close>

datatype AuthMechanism =
    AuthZero | AuthNone | AuthACL | AuthPlain | AuthSASLPlain | AuthSASLScram | AuthToken | AuthMutualTLS
  | AuthNKey | AuthCreds

datatype CredentialsMode = ModePreserve | ModeReplace | ModeClear

fun mode_str :: "CredentialsMode \<Rightarrow> jsstr" where
  "mode_str ModePreserve = u ''preserve''"
| "mode_str ModeReplace = u ''replace''"
| "mode_str ModeClear = u ''clear''"

record ConnectionDraft =
  cd_name :: jsstr
  cd_group :: jsstr
  cd_kind :: MQKind
  cd_endpoints :: jsstr
  cd_timeoutSec :: jsnum
  cd_authMechanism :: AuthMechanism
  cd_options :: attributes
  cd_secrets :: attributes
  cd_remark :: jsstr

record Submission =
  sub_draft :: ConnectionDraft
  sub_mode :: CredentialsMode

text \<open>A stored profile as the bridge returns it: the secrets are names only.\<close>

record ConnectionView =
  cv_id :: int
  cv_name :: jsstr
  cv_group :: jsstr
  cv_kind :: MQKind
  cv_endpoints :: jsstr
  cv_timeoutSec :: jsnum
  cv_authMechanism :: AuthMechanism
  cv_options :: "attributes option"
  cv_secretsConfigured :: "jsstr list"
  cv_status :: ConnectionStatus
  cv_lastCheck :: jsstr
  cv_isDefault :: bool
  cv_remark :: jsstr

text \<open>\<open>profile.options?.[key]\<close>\<close>

definition option_of :: "ConnectionView \<Rightarrow> string \<Rightarrow> jsstr option" where
  "option_of p key = (case cv_options p of None \<Rightarrow> None | Some os \<Rightarrow> map_of os (u key))"

text \<open>\<open>profile.options?.[key] === "true"\<close>\<close>

definition option_true :: "ConnectionView \<Rightarrow> string \<Rightarrow> bool" where
  "option_true p key \<longleftrightarrow> option_of p key = Some (u ''true'')"

definition numberOption :: "jsstr option \<Rightarrow> jsnum \<Rightarrow> jsnum" where
  "numberOption raw fallback = (let parsed = parse_int (nullish raw []) in
     if parsed = NaN then fallback else parsed)"

section \<open>Submitting a draft\<close>

text \<open>The lines every submission shares: the name trimmed, the group, timeout and remark as they are.\<close>

definition submission ::
    "'a shared_draft_scheme \<Rightarrow> MQKind \<Rightarrow> jsstr \<Rightarrow> AuthMechanism \<Rightarrow> attributes \<Rightarrow> attributes \<Rightarrow> CredentialsMode \<Rightarrow> Submission" where
  "submission d kind endpoints mechanism options secrets mode =
    \<lparr>sub_draft = \<lparr>cd_name = trim (dr_name d), cd_group = dr_group d, cd_kind = kind, cd_endpoints = endpoints,
        cd_timeoutSec = dr_timeoutSec d, cd_authMechanism = mechanism, cd_options = options,
        cd_secrets = secrets, cd_remark = dr_remark d\<rparr>,
     sub_mode = mode\<rparr>"

definition blank_unless :: "bool \<Rightarrow> jsstr \<Rightarrow> jsstr" where
  "blank_unless b s = (if b then s else [])"

text \<open>The mode of a form that fills blank secrets from the store wherever one is stored.\<close>

definition mode_filling :: "'a credentialed_draft_scheme \<Rightarrow> CredentialsMode" where
  "mode_filling d = (if dr_clearCredentials d then ModeClear else if keepStored d then ModePreserve else ModeReplace)"

definition rocketMQSubmission :: "RocketMQDraft \<Rightarrow> Submission" where
  "rocketMQSubmission d =
    (let accessKey = trim (rk_accessKey d); secretKey = trim (rk_secretKey d);
         typed = (accessKey \<noteq> [] \<or> secretKey \<noteq> [])
     in submission d KindRocketMQ (trim (rk_endpoints d))
          (if typed \<or> keepStored d then AuthACL else AuthNone)
          [(u ''version'', rocket_version_str (rk_version d)), (u ''access'', rocket_access_str (rk_access d)),
           (u ''namespace'', trim (rk_namespace d))]
          [(u ''accessKey'', accessKey), (u ''secretKey'', secretKey)]
          (mode_filling d))"

definition rabbitMQSubmission :: "RabbitMQDraft \<Rightarrow> Submission" where
  "rabbitMQSubmission d =
    (let username = trim (rb_username d); password = trim (rb_password d);
         typed = (username \<noteq> [] \<or> password \<noteq> [])
     in submission d KindRabbitMQ (trim (rb_management d)) AuthPlain
          [(u ''vhost'', or_str (trim (rb_vhost d)) (u ''/'')), (u ''amqpEndpoint'', trim (rb_amqp d)),
           (u ''tls'', bool_str (rb_tls d)), (u ''tlsSkipVerify'', bool_str (rb_tls d \<and> rb_tlsSkipVerify d))]
          [(u ''username'', username), (u ''password'', password)]
          (if dr_clearCredentials d then ModeClear else if typed \<or> \<not> keepStored d then ModeReplace else ModePreserve))"

fun kafka_stored_mechanism :: "KafkaMechanism \<Rightarrow> AuthMechanism" where
  "kafka_stored_mechanism KafkaNone = AuthNone"
| "kafka_stored_mechanism KafkaPlain = AuthSASLPlain"
| "kafka_stored_mechanism KafkaScram = AuthSASLScram"

definition kafkaSubmission :: "KafkaDraft \<Rightarrow> Submission" where
  "kafkaSubmission d =
    (let authenticating = (kd_mechanism d \<noteq> KafkaNone);
         username = blank_unless authenticating (trim (kd_username d));
         password = blank_unless authenticating (trim (kd_password d));
         typed = (username \<noteq> [] \<or> password \<noteq> []);
         keep = (authenticating \<and> keepStored d)
     in submission d KindKafka (trim (kd_endpoints d)) (kafka_stored_mechanism (kd_mechanism d))
          [(u ''scramSha'', scram_sha_str (kd_scramSha d)), (u ''tls'', bool_str (kd_tls d)),
           (u ''tlsCaFile'', blank_unless (kd_tls d) (trim (kd_tlsCaFile d))),
           (u ''tlsSkipVerify'', bool_str (kd_tls d \<and> kd_tlsSkipVerify d))]
          [(u ''username'', username), (u ''password'', password)]
          (if \<not> authenticating \<or> dr_clearCredentials d then ModeClear
           else if typed \<or> \<not> keep then ModeReplace else ModePreserve))"

definition redisSubmission :: "RedisDraft \<Rightarrow> Submission" where
  "redisSubmission d =
    (let username = trim (rd_username d); password = trim (rd_password d);
         typed = (username \<noteq> [] \<or> password \<noteq> []);
         cluster = (rd_deployment d = RedisCluster)
     in submission d KindRedisStream (trim (rd_endpoints d)) (if typed \<or> keepStored d then AuthPlain else AuthNone)
          [(u ''deployment'', deployment_str (rd_deployment d)),
           (u ''masterName'', blank_unless (rd_deployment d = Sentinel) (trim (rd_masterName d))),
           (u ''db'', if cluster then u ''0'' else num_to_str (rd_db d)),
           (u ''streamFilter'', trim (rd_streamFilter d)), (u ''tls'', bool_str (rd_tls d)),
           (u ''tlsSkipVerify'', bool_str (rd_tls d \<and> rd_tlsSkipVerify d))]
          [(u ''username'', username), (u ''password'', password)]
          (if dr_clearCredentials d then ModeClear else if typed \<or> \<not> keepStored d then ModeReplace else ModePreserve))"

definition mqttSubmission :: "MqttDraft \<Rightarrow> Submission" where
  "mqttSubmission d =
    (let authenticating = (md_mechanism d \<noteq> MechNone);
         username = blank_unless authenticating (trim (md_username d));
         password = blank_unless authenticating (trim (md_password d));
         managementUrl = trim (md_managementUrl d);
         managementKey = blank_unless (managementUrl \<noteq> []) (trim (md_managementKey d));
         managementSecret = blank_unless (managementUrl \<noteq> []) (trim (md_managementSecret d));
         encrypted = (md_transport d = OverTls \<or> md_transport d = OverWss);
         webSocket = (md_transport d = OverWs \<or> md_transport d = OverWss)
     in submission d KindMQTT (trim (md_endpoints d)) (if authenticating then AuthPlain else AuthNone)
          [(u ''protocolVersion'', mqtt_protocol_str (md_protocol d)), (u ''transport'', transport_str (md_transport d)),
           (u ''wsPath'', blank_unless webSocket (trim (md_wsPath d))), (u ''clientId'', trim (md_clientId d)),
           (u ''keepAliveSec'', num_to_str (md_keepAliveSec d)), (u ''cleanStart'', bool_str (md_cleanStart d)),
           (u ''sessionExpirySec'', if md_protocol d = Mqtt5 then num_to_str (md_sessionExpirySec d) else u ''0''),
           (u ''tlsCaFile'', blank_unless encrypted (trim (md_tlsCaFile d))),
           (u ''tlsSkipVerify'', bool_str (encrypted \<and> md_tlsSkipVerify d)),
           (u ''managementUrl'', managementUrl)]
          [(u ''username'', username), (u ''password'', password), (u ''managementApiKey'', managementKey),
           (u ''managementSecretKey'', managementSecret)]
          (mode_filling d))"

fun nats_stored_mechanism :: "NatsMechanism \<Rightarrow> AuthMechanism" where
  "nats_stored_mechanism NatsNone = AuthNone"
| "nats_stored_mechanism NatsPlain = AuthPlain"
| "nats_stored_mechanism NatsToken = AuthToken"
| "nats_stored_mechanism NatsNkey = AuthNKey"
| "nats_stored_mechanism NatsCreds = AuthCreds"
| "nats_stored_mechanism NatsMtls = AuthMutualTLS"

definition natsSubmission :: "NatsDraft \<Rightarrow> Submission" where
  "natsSubmission d =
    (let mechanism = nd_mechanism d;
         monitorUrl = trim (nd_monitorUrl d);
         encrypted = (nd_tls d \<or> mechanism = NatsMtls)
     in submission d KindNATS (trim (nd_endpoints d)) (nats_stored_mechanism mechanism)
          [(u ''tls'', bool_str (nd_tls d)), (u ''tlsCaFile'', blank_unless encrypted (trim (nd_tlsCaFile d))),
           (u ''tlsSkipVerify'', bool_str (encrypted \<and> nd_tlsSkipVerify d)),
           (u ''tlsCertFile'', blank_unless (mechanism = NatsMtls) (trim (nd_tlsCertFile d))),
           (u ''tlsKeyFile'', blank_unless (mechanism = NatsMtls) (trim (nd_tlsKeyFile d))),
           (u ''credsFile'', blank_unless (mechanism = NatsCreds) (trim (nd_credsFile d))),
           (u ''monitorUrl'', monitorUrl), (u ''jsDomain'', trim (nd_jsDomain d))]
          [(u ''username'', blank_unless (mechanism = NatsPlain) (trim (nd_username d))),
           (u ''password'', blank_unless (mechanism = NatsPlain) (trim (nd_password d))),
           (u ''token'', blank_unless (mechanism = NatsToken) (trim (nd_token d))),
           (u ''nkeySeed'', blank_unless (mechanism = NatsNkey) (trim (nd_nkeySeed d))),
           (u ''systemUser'', trim (nd_systemUser d)), (u ''systemPassword'', trim (nd_systemPassword d))]
          (mode_filling d))"

definition pulsarSubmission :: "PulsarDraft \<Rightarrow> Submission" where
  "pulsarSubmission d =
    (let authenticating = (pd_auth d \<noteq> PulsarNone);
         token = blank_unless authenticating (trim (pd_token d));
         typed = (token \<noteq> []);
         keep = (authenticating \<and> keepStored d)
     in submission d KindPulsar (trim (pd_service d)) (if authenticating then AuthToken else AuthNone)
          [(u ''adminUrl'', trim (pd_admin d)), (u ''tenant'', trim (pd_tenant d)),
           (u ''namespace'', trim (pd_namespace d)), (u ''tls'', bool_str (pd_tls d)),
           (u ''tlsCaFile'', blank_unless (pd_tls d) (trim (pd_tlsCaFile d))),
           (u ''tlsSkipVerify'', bool_str (pd_tls d \<and> pd_tlsSkipVerify d))]
          [(u ''token'', token)]
          (if \<not> authenticating \<or> dr_clearCredentials d then ModeClear
           else if typed \<or> \<not> keep then ModeReplace else ModePreserve))"

fun plain_mechanism :: "PlainMechanism \<Rightarrow> AuthMechanism" where
  "plain_mechanism MechNone = AuthNone"
| "plain_mechanism MechPlain = AuthPlain"

definition activeMQSubmission :: "ActiveMQDraft \<Rightarrow> Submission" where
  "activeMQSubmission d =
    (let mechanism = ad_mechanism d; amqpUrl = trim (ad_amqpUrl d)
     in submission d KindActiveMQ (trim (ad_endpoints d)) (plain_mechanism mechanism)
          [(u ''jolokiaPath'', trim (ad_jolokiaPath d)), (u ''brokerName'', trim (ad_brokerName d)),
           (u ''originHeader'', trim (ad_originHeader d)), (u ''amqpUrl'', amqpUrl),
           (u ''tlsSkipVerify'', bool_str (ad_tlsSkipVerify d))]
          [(u ''username'', blank_unless (mechanism = MechPlain) (trim (ad_username d))),
           (u ''password'', blank_unless (mechanism = MechPlain) (trim (ad_password d))),
           (u ''amqpUsername'', blank_unless (amqpUrl \<noteq> []) (trim (ad_amqpUsername d))),
           (u ''amqpPassword'', blank_unless (amqpUrl \<noteq> []) (trim (ad_amqpPassword d)))]
          (mode_filling d))"

definition nsqSubmission :: "NsqDraft \<Rightarrow> Submission" where
  "nsqSubmission d =
     submission d KindNSQ (trim (qd_endpoints d)) AuthNone
       [(u ''lookupdEndpoints'', trim (qd_lookupdEndpoints d)), (u ''tlsSkipVerify'', bool_str (qd_tlsSkipVerify d))]
       [] ModeReplace"

definition sqsSubmission :: "SqsDraft \<Rightarrow> Submission" where
  "sqsSubmission d =
    (let accessKeyId = trim (sd_accessKeyId d); secretAccessKey = trim (sd_secretAccessKey d);
         sessionToken = trim (sd_sessionToken d);
         typed = (accessKeyId \<noteq> [] \<or> secretAccessKey \<noteq> [] \<or> sessionToken \<noteq> [])
     in submission d KindSQS [] (if typed \<or> keepStored d then AuthPlain else AuthNone)
          [(u ''region'', trim (sd_region d)), (u ''queuePrefix'', trim (sd_queuePrefix d)),
           (u ''endpointUrl'', trim (sd_endpointUrl d))]
          [(u ''awsAccessKeyId'', accessKeyId), (u ''awsSecretAccessKey'', secretAccessKey),
           (u ''awsSessionToken'', sessionToken)]
          (mode_filling d))"

definition googlePubSubSubmission :: "GooglePubSubDraft \<Rightarrow> Submission" where
  "googlePubSubSubmission d =
    (let credentials = trim (gd_credentialsJson d)
     in submission d KindGooglePubSub [] (if credentials \<noteq> [] \<or> keepStored d then AuthPlain else AuthNone)
          [(u ''projectId'', trim (gd_projectId d)), (u ''resourcePrefix'', trim (gd_resourcePrefix d)),
           (u ''emulatorHost'', trim (gd_emulatorHost d))]
          [(u ''googleCredentialsJson'', credentials)]
          (mode_filling d))"

definition azureServiceBusSubmission :: "AzureServiceBusDraft \<Rightarrow> Submission" where
  "azureServiceBusSubmission d =
    (let key = trim (zd_sharedAccessKey d); connectionString = trim (zd_connectionString d);
         given = (key \<noteq> [] \<or> connectionString \<noteq> [] \<or> keepStored d)
     in submission d KindAzureServiceBus (trim (zd_endpoints d)) (if given then AuthPlain else AuthNone)
          [(u ''sharedAccessKeyName'', trim (zd_keyName d)), (u ''entityPrefix'', trim (zd_entityPrefix d)),
           (u ''emulatorManagementHost'', trim (zd_emulatorManagement d))]
          [(u ''azureSharedAccessKey'', key), (u ''azureConnectionString'', connectionString)]
          (mode_filling d))"

definition kinesisSubmission :: "KinesisDraft \<Rightarrow> Submission" where
  "kinesisSubmission d =
    (let accessKeyId = trim (id_accessKeyId d); secretAccessKey = trim (id_secretAccessKey d);
         sessionToken = trim (id_sessionToken d);
         typed = (accessKeyId \<noteq> [] \<or> secretAccessKey \<noteq> [] \<or> sessionToken \<noteq> [])
     in submission d KindKinesis [] (if typed \<or> keepStored d then AuthPlain else AuthNone)
          [(u ''region'', trim (id_region d)), (u ''streamPrefix'', trim (id_streamPrefix d)),
           (u ''endpointUrl'', trim (id_endpointUrl d))]
          [(u ''awsAccessKeyId'', accessKeyId), (u ''awsSecretAccessKey'', secretAccessKey),
           (u ''awsSessionToken'', sessionToken)]
          (mode_filling d))"

definition ibmMqSubmission :: "IbmMqDraft \<Rightarrow> Submission" where
  "ibmMqSubmission d =
    (let mechanism = bd_mechanism d; authenticated = (mechanism = MechPlain)
     in submission d KindIBMMQ (trim (bd_endpoints d)) (plain_mechanism mechanism)
          [(u ''queueManager'', trim (bd_queueManager d)), (u ''tlsSkipVerify'', bool_str (bd_tlsSkipVerify d))]
          [(u ''username'', blank_unless authenticated (trim (bd_username d))),
           (u ''password'', blank_unless authenticated (trim (bd_password d))),
           (u ''messagingUsername'', blank_unless authenticated (trim (bd_messagingUsername d))),
           (u ''messagingPassword'', blank_unless authenticated (trim (bd_messagingPassword d)))]
          (mode_filling d))"

definition solaceSubmission :: "SolaceDraft \<Rightarrow> Submission" where
  "solaceSubmission d =
    (let mechanism = od_mechanism d; authenticated = (mechanism = MechPlain)
     in submission d KindSolace (trim (od_endpoints d)) (plain_mechanism mechanism)
          [(u ''msgVpn'', trim (od_msgVpn d)), (u ''restUrl'', trim (od_restUrl d)),
           (u ''tlsSkipVerify'', bool_str (od_tlsSkipVerify d))]
          [(u ''username'', blank_unless authenticated (trim (od_username d))),
           (u ''password'', blank_unless authenticated (trim (od_password d))),
           (u ''restUsername'', trim (od_restUsername d)), (u ''restPassword'', trim (od_restPassword d))]
          (mode_filling d))"

section \<open>Reading a profile back\<close>

definition secrets_stored :: "ConnectionView \<Rightarrow> bool" where
  "secrets_stored p \<longleftrightarrow> 0 < length (cv_secretsConfigured p)"

definition toRocketMQDraft :: "ConnectionView \<Rightarrow> RocketMQDraft" where
  "toRocketMQDraft p =
     \<lparr>dr_name = cv_name p, dr_group = cv_group p, dr_remark = cv_remark p, dr_timeoutSec = cv_timeoutSec p,
        dr_credentialsStored = secrets_stored p, dr_clearCredentials = False,
        rk_version = (if option_of p ''version'' = Some (u ''4.x'') then Rocket4 else Rocket5),
        rk_access = (if option_of p ''access'' = Some (u ''proxy'') then AccessProxy else AccessNs),
        rk_endpoints = cv_endpoints p, rk_accessKey = [], rk_secretKey = [],
        rk_namespace = nullish (option_of p ''namespace'') []\<rparr>"

definition toRabbitMQDraft :: "ConnectionView \<Rightarrow> RabbitMQDraft" where
  "toRabbitMQDraft p =
    (let tls = option_true p ''tls''
     in \<lparr>dr_name = cv_name p, dr_group = cv_group p, dr_remark = cv_remark p, dr_timeoutSec = cv_timeoutSec p,
        dr_credentialsStored = secrets_stored p, dr_clearCredentials = False,
        rb_management = cv_endpoints p, rb_amqp = nullish (option_of p ''amqpEndpoint'') [],
        rb_vhost = nullish (option_of p ''vhost'') (u ''/''),
        rb_username = [], rb_password = [], rb_tls = tls,
        rb_tlsSkipVerify = (tls \<and> option_true p ''tlsSkipVerify'')\<rparr>)"

fun kafka_mechanism_of :: "AuthMechanism \<Rightarrow> KafkaMechanism option" where
  "kafka_mechanism_of AuthSASLPlain = Some KafkaPlain"
| "kafka_mechanism_of AuthSASLScram = Some KafkaScram"
| "kafka_mechanism_of _ = None"

definition toKafkaDraft :: "ConnectionView \<Rightarrow> KafkaDraft" where
  "toKafkaDraft p =
    (let tls = option_true p ''tls'';
         mechanism = nullish (kafka_mechanism_of (cv_authMechanism p)) KafkaNone
     in \<lparr>dr_name = cv_name p, dr_group = cv_group p, dr_remark = cv_remark p, dr_timeoutSec = cv_timeoutSec p,
        dr_credentialsStored = (mechanism \<noteq> KafkaNone \<and> secrets_stored p), dr_clearCredentials = False,
        kd_endpoints = cv_endpoints p, kd_mechanism = mechanism,
        kd_scramSha = (if option_of p ''scramSha'' = Some (u ''256'') then Sha256 else Sha512),
        kd_username = [], kd_password = [], kd_tls = tls,
        kd_tlsCaFile = blank_unless tls (nullish (option_of p ''tlsCaFile'') []),
        kd_tlsSkipVerify = (tls \<and> option_true p ''tlsSkipVerify'')\<rparr>)"

definition toPulsarDraft :: "ConnectionView \<Rightarrow> PulsarDraft" where
  "toPulsarDraft p =
    (let tls = option_true p ''tls'';
         auth = (if cv_authMechanism p = AuthToken then PulsarToken else PulsarNone)
     in \<lparr>dr_name = cv_name p, dr_group = cv_group p, dr_remark = cv_remark p, dr_timeoutSec = cv_timeoutSec p,
        dr_credentialsStored = (auth \<noteq> PulsarNone \<and> secrets_stored p), dr_clearCredentials = False,
        pd_service = cv_endpoints p, pd_admin = nullish (option_of p ''adminUrl'') [],
        pd_tenant = nullish (option_of p ''tenant'') (u ''public''),
        pd_namespace = nullish (option_of p ''namespace'') (u ''default''),
        pd_auth = auth, pd_token = [], pd_tls = tls,
        pd_tlsCaFile = blank_unless tls (nullish (option_of p ''tlsCaFile'') []),
        pd_tlsSkipVerify = (tls \<and> option_true p ''tlsSkipVerify'')\<rparr>)"

text \<open>The deployment an option names, when it is one of the three.\<close>

definition deployment_of :: "jsstr option \<Rightarrow> RedisDeployment option" where
  "deployment_of s = (if s = Some (u ''standalone'') then Some Standalone
     else if s = Some (u ''sentinel'') then Some Sentinel
     else if s = Some (u ''cluster'') then Some RedisCluster else None)"

definition toRedisDraft :: "ConnectionView \<Rightarrow> RedisDraft" where
  "toRedisDraft p =
    (let deployment = nullish (deployment_of (option_of p ''deployment'')) Standalone;
         tls = option_true p ''tls'';
         db = parse_int (nullish (option_of p ''db'') (u ''0''))
     in \<lparr>dr_name = cv_name p, dr_group = cv_group p, dr_remark = cv_remark p, dr_timeoutSec = cv_timeoutSec p,
        dr_credentialsStored = secrets_stored p, dr_clearCredentials = False,
        rd_deployment = deployment, rd_endpoints = cv_endpoints p,
        rd_masterName = blank_unless (deployment = Sentinel) (nullish (option_of p ''masterName'') []),
        rd_db = (if deployment = RedisCluster \<or> db = NaN \<or> db < Fin 0 then Fin 0 else db),
        rd_streamFilter = nullish (option_of p ''streamFilter'') [],
        rd_username = [], rd_password = [], rd_tls = tls,
        rd_tlsSkipVerify = (tls \<and> option_true p ''tlsSkipVerify'')\<rparr>)"

definition transport_of :: "jsstr option \<Rightarrow> MqttTransport option" where
  "transport_of s = (if s = Some (u ''tcp'') then Some OverTcp else if s = Some (u ''tls'') then Some OverTls
     else if s = Some (u ''ws'') then Some OverWs else if s = Some (u ''wss'') then Some OverWss else None)"

definition toMqttDraft :: "ConnectionView \<Rightarrow> MqttDraft" where
  "toMqttDraft p =
    (let transport = nullish (transport_of (option_of p ''transport'')) OverTcp;
         encrypted = (transport = OverTls \<or> transport = OverWss);
         protocol = (if option_of p ''protocolVersion'' = Some (u ''311'') then Mqtt311 else Mqtt5);
         mechanism = (if cv_authMechanism p = AuthPlain then MechPlain else MechNone)
     in \<lparr>dr_name = cv_name p, dr_group = cv_group p, dr_remark = cv_remark p, dr_timeoutSec = cv_timeoutSec p,
        dr_credentialsStored = secrets_stored p, dr_clearCredentials = False,
        md_endpoints = cv_endpoints p, md_protocol = protocol, md_transport = transport,
        md_wsPath = or_str (nullish (option_of p ''wsPath'') []) (u ''/mqtt''),
        md_clientId = nullish (option_of p ''clientId'') [],
        md_keepAliveSec = numberOption (option_of p ''keepAliveSec'') (Fin 60),
        md_cleanStart = (option_of p ''cleanStart'' \<noteq> Some (u ''false'')),
        md_sessionExpirySec = (if protocol = Mqtt5 then numberOption (option_of p ''sessionExpirySec'') (Fin 0) else Fin 0),
        md_mechanism = mechanism, md_username = [], md_password = [],
        md_tlsCaFile = blank_unless encrypted (nullish (option_of p ''tlsCaFile'') []),
        md_tlsSkipVerify = (encrypted \<and> option_true p ''tlsSkipVerify''),
        md_managementUrl = nullish (option_of p ''managementUrl'') [],
        md_managementKey = [], md_managementSecret = []\<rparr>)"

fun nats_mechanism_of :: "AuthMechanism \<Rightarrow> NatsMechanism option" where
  "nats_mechanism_of AuthPlain = Some NatsPlain"
| "nats_mechanism_of AuthToken = Some NatsToken"
| "nats_mechanism_of AuthNKey = Some NatsNkey"
| "nats_mechanism_of AuthCreds = Some NatsCreds"
| "nats_mechanism_of AuthMutualTLS = Some NatsMtls"
| "nats_mechanism_of _ = None"

definition toNatsDraft :: "ConnectionView \<Rightarrow> NatsDraft" where
  "toNatsDraft p =
    (let mechanism = nullish (nats_mechanism_of (cv_authMechanism p)) NatsNone;
         tls = option_true p ''tls'';
         encrypted = (tls \<or> mechanism = NatsMtls)
     in \<lparr>dr_name = cv_name p, dr_group = cv_group p, dr_remark = cv_remark p, dr_timeoutSec = cv_timeoutSec p,
        dr_credentialsStored = secrets_stored p, dr_clearCredentials = False,
        nd_endpoints = cv_endpoints p, nd_mechanism = mechanism,
        nd_username = [], nd_password = [], nd_token = [], nd_nkeySeed = [],
        nd_credsFile = blank_unless (mechanism = NatsCreds) (nullish (option_of p ''credsFile'') []), nd_tls = tls,
        nd_tlsCaFile = blank_unless encrypted (nullish (option_of p ''tlsCaFile'') []),
        nd_tlsCertFile = blank_unless (mechanism = NatsMtls) (nullish (option_of p ''tlsCertFile'') []),
        nd_tlsKeyFile = blank_unless (mechanism = NatsMtls) (nullish (option_of p ''tlsKeyFile'') []),
        nd_tlsSkipVerify = (encrypted \<and> option_true p ''tlsSkipVerify''),
        nd_monitorUrl = nullish (option_of p ''monitorUrl'') [],
        nd_systemUser = [], nd_systemPassword = [], nd_jsDomain = nullish (option_of p ''jsDomain'') []\<rparr>)"

definition toActiveMQDraft :: "ConnectionView \<Rightarrow> ActiveMQDraft" where
  "toActiveMQDraft p =
    (let mechanism = (if cv_authMechanism p = AuthNone then MechNone else MechPlain)
     in \<lparr>dr_name = cv_name p, dr_group = cv_group p, dr_remark = cv_remark p, dr_timeoutSec = cv_timeoutSec p,
        dr_credentialsStored = secrets_stored p, dr_clearCredentials = False,
        ad_endpoints = cv_endpoints p, ad_mechanism = mechanism, ad_username = [], ad_password = [],
        ad_jolokiaPath = nullish (option_of p ''jolokiaPath'') [],
        ad_brokerName = nullish (option_of p ''brokerName'') [],
        ad_originHeader = nullish (option_of p ''originHeader'') [],
        ad_tlsSkipVerify = option_true p ''tlsSkipVerify'',
        ad_amqpUrl = nullish (option_of p ''amqpUrl'') [], ad_amqpUsername = [], ad_amqpPassword = []\<rparr>)"

definition toNsqDraft :: "ConnectionView \<Rightarrow> NsqDraft" where
  "toNsqDraft p =
     \<lparr>dr_name = cv_name p, dr_group = cv_group p, dr_remark = cv_remark p, dr_timeoutSec = cv_timeoutSec p,
        qd_endpoints = cv_endpoints p,
        qd_lookupdEndpoints = nullish (option_of p ''lookupdEndpoints'') [],
        qd_tlsSkipVerify = option_true p ''tlsSkipVerify''\<rparr>"

definition toSqsDraft :: "ConnectionView \<Rightarrow> SqsDraft" where
  "toSqsDraft p =
     \<lparr>dr_name = cv_name p, dr_group = cv_group p, dr_remark = cv_remark p, dr_timeoutSec = cv_timeoutSec p,
        dr_credentialsStored = (cv_authMechanism p = AuthPlain \<and> secrets_stored p), dr_clearCredentials = False,
        sd_region = nullish (option_of p ''region'') [],
        sd_accessKeyId = [], sd_secretAccessKey = [], sd_sessionToken = [],
        sd_queuePrefix = nullish (option_of p ''queuePrefix'') [],
        sd_endpointUrl = nullish (option_of p ''endpointUrl'') []\<rparr>"

definition toGooglePubSubDraft :: "ConnectionView \<Rightarrow> GooglePubSubDraft" where
  "toGooglePubSubDraft p =
     \<lparr>dr_name = cv_name p, dr_group = cv_group p, dr_remark = cv_remark p, dr_timeoutSec = cv_timeoutSec p,
        dr_credentialsStored = (cv_authMechanism p = AuthPlain \<and> secrets_stored p), dr_clearCredentials = False,
        gd_projectId = nullish (option_of p ''projectId'') [],
        gd_credentialsJson = [],
        gd_resourcePrefix = nullish (option_of p ''resourcePrefix'') [],
        gd_emulatorHost = nullish (option_of p ''emulatorHost'') []\<rparr>"

definition toAzureServiceBusDraft :: "ConnectionView \<Rightarrow> AzureServiceBusDraft" where
  "toAzureServiceBusDraft p =
     \<lparr>dr_name = cv_name p, dr_group = cv_group p, dr_remark = cv_remark p, dr_timeoutSec = cv_timeoutSec p,
        dr_credentialsStored = (cv_authMechanism p = AuthPlain \<and> secrets_stored p), dr_clearCredentials = False,
        zd_endpoints = cv_endpoints p,
        zd_keyName = or_str (nullish (option_of p ''sharedAccessKeyName'') []) (u ''RootManageSharedAccessKey''),
        zd_sharedAccessKey = [], zd_connectionString = [],
        zd_entityPrefix = nullish (option_of p ''entityPrefix'') [],
        zd_emulatorManagement = nullish (option_of p ''emulatorManagementHost'') []\<rparr>"

definition toKinesisDraft :: "ConnectionView \<Rightarrow> KinesisDraft" where
  "toKinesisDraft p =
     \<lparr>dr_name = cv_name p, dr_group = cv_group p, dr_remark = cv_remark p, dr_timeoutSec = cv_timeoutSec p,
        dr_credentialsStored = (cv_authMechanism p = AuthPlain \<and> secrets_stored p), dr_clearCredentials = False,
        id_region = nullish (option_of p ''region'') [],
        id_accessKeyId = [], id_secretAccessKey = [], id_sessionToken = [],
        id_streamPrefix = nullish (option_of p ''streamPrefix'') [],
        id_endpointUrl = nullish (option_of p ''endpointUrl'') []\<rparr>"

definition toIbmMqDraft :: "ConnectionView \<Rightarrow> IbmMqDraft" where
  "toIbmMqDraft p =
    (let mechanism = (if cv_authMechanism p = AuthNone then MechNone else MechPlain)
     in \<lparr>dr_name = cv_name p, dr_group = cv_group p, dr_remark = cv_remark p, dr_timeoutSec = cv_timeoutSec p,
        dr_credentialsStored = secrets_stored p, dr_clearCredentials = False,
        bd_endpoints = cv_endpoints p, bd_mechanism = mechanism, bd_username = [], bd_password = [],
        bd_queueManager = nullish (option_of p ''queueManager'') [],
        bd_messagingUsername = [], bd_messagingPassword = [],
        bd_tlsSkipVerify = option_true p ''tlsSkipVerify''\<rparr>)"

definition toSolaceDraft :: "ConnectionView \<Rightarrow> SolaceDraft" where
  "toSolaceDraft p =
    (let mechanism = (if cv_authMechanism p = AuthNone then MechNone else MechPlain)
     in \<lparr>dr_name = cv_name p, dr_group = cv_group p, dr_remark = cv_remark p, dr_timeoutSec = cv_timeoutSec p,
        dr_credentialsStored = secrets_stored p, dr_clearCredentials = False,
        od_endpoints = cv_endpoints p, od_mechanism = mechanism, od_username = [], od_password = [],
        od_msgVpn = nullish (option_of p ''msgVpn'') [],
        od_restUrl = nullish (option_of p ''restUrl'') [], od_restUsername = [], od_restPassword = [],
        od_tlsSkipVerify = option_true p ''tlsSkipVerify''\<rparr>)"

section \<open>One draft type for the dialog\<close>

datatype ProtocolDraft =
    DraftRocketMQ RocketMQDraft | DraftRabbitMQ RabbitMQDraft | DraftKafka KafkaDraft | DraftPulsar PulsarDraft
  | DraftRedis RedisDraft | DraftMqtt MqttDraft | DraftNats NatsDraft | DraftActiveMQ ActiveMQDraft
  | DraftNsq NsqDraft | DraftSqs SqsDraft | DraftGooglePubSub GooglePubSubDraft
  | DraftAzureServiceBus AzureServiceBusDraft | DraftKinesis KinesisDraft | DraftIbmMq IbmMqDraft
  | DraftSolace SolaceDraft

fun toSubmission :: "ProtocolDraft \<Rightarrow> Submission" where
  "toSubmission (DraftRabbitMQ d) = rabbitMQSubmission d"
| "toSubmission (DraftKafka d) = kafkaSubmission d"
| "toSubmission (DraftPulsar d) = pulsarSubmission d"
| "toSubmission (DraftRedis d) = redisSubmission d"
| "toSubmission (DraftMqtt d) = mqttSubmission d"
| "toSubmission (DraftNats d) = natsSubmission d"
| "toSubmission (DraftActiveMQ d) = activeMQSubmission d"
| "toSubmission (DraftNsq d) = nsqSubmission d"
| "toSubmission (DraftSqs d) = sqsSubmission d"
| "toSubmission (DraftGooglePubSub d) = googlePubSubSubmission d"
| "toSubmission (DraftAzureServiceBus d) = azureServiceBusSubmission d"
| "toSubmission (DraftKinesis d) = kinesisSubmission d"
| "toSubmission (DraftIbmMq d) = ibmMqSubmission d"
| "toSubmission (DraftSolace d) = solaceSubmission d"
| "toSubmission (DraftRocketMQ d) = rocketMQSubmission d"

definition toDraft :: "ConnectionView \<Rightarrow> ProtocolDraft" where
  "toDraft p = (case cv_kind p of
     KindRabbitMQ \<Rightarrow> DraftRabbitMQ (toRabbitMQDraft p)
   | KindKafka \<Rightarrow> DraftKafka (toKafkaDraft p)
   | KindPulsar \<Rightarrow> DraftPulsar (toPulsarDraft p)
   | KindRedisStream \<Rightarrow> DraftRedis (toRedisDraft p)
   | KindMQTT \<Rightarrow> DraftMqtt (toMqttDraft p)
   | KindNATS \<Rightarrow> DraftNats (toNatsDraft p)
   | KindActiveMQ \<Rightarrow> DraftActiveMQ (toActiveMQDraft p)
   | KindNSQ \<Rightarrow> DraftNsq (toNsqDraft p)
   | KindSQS \<Rightarrow> DraftSqs (toSqsDraft p)
   | KindGooglePubSub \<Rightarrow> DraftGooglePubSub (toGooglePubSubDraft p)
   | KindAzureServiceBus \<Rightarrow> DraftAzureServiceBus (toAzureServiceBusDraft p)
   | KindKinesis \<Rightarrow> DraftKinesis (toKinesisDraft p)
   | KindIBMMQ \<Rightarrow> DraftIbmMq (toIbmMqDraft p)
   | KindSolace \<Rightarrow> DraftSolace (toSolaceDraft p)
   | _ \<Rightarrow> DraftRocketMQ (toRocketMQDraft p))"

text \<open>The blank draft of a protocol; the protocol ids of the list are the tags of the union.\<close>

definition emptyDraft :: "jsstr \<Rightarrow> ProtocolDraft" where
  "emptyDraft protocol =
    (if protocol = u ''rabbitmq'' then DraftRabbitMQ emptyRabbitMQDraft
     else if protocol = u ''kafka'' then DraftKafka emptyKafkaDraft
     else if protocol = u ''pulsar'' then DraftPulsar emptyPulsarDraft
     else if protocol = u ''redis'' then DraftRedis emptyRedisDraft
     else if protocol = u ''mqtt'' then DraftMqtt emptyMqttDraft
     else if protocol = u ''nats'' then DraftNats emptyNatsDraft
     else if protocol = u ''activemq'' then DraftActiveMQ emptyActiveMQDraft
     else if protocol = u ''nsq'' then DraftNsq emptyNsqDraft
     else if protocol = u ''sqs'' then DraftSqs emptySqsDraft
     else if protocol = u ''google-pubsub'' then DraftGooglePubSub emptyGooglePubSubDraft
     else if protocol = u ''azure-servicebus'' then DraftAzureServiceBus emptyAzureServiceBusDraft
     else if protocol = u ''kinesis'' then DraftKinesis emptyKinesisDraft
     else if protocol = u ''ibmmq'' then DraftIbmMq emptyIbmMqDraft
     else if protocol = u ''solace'' then DraftSolace emptySolaceDraft
     else DraftRocketMQ emptyRocketMQDraft)"

fun protocol_tag :: "ProtocolDraft \<Rightarrow> jsstr" where
  "protocol_tag (DraftRocketMQ d) = u ''rocketmq''"
| "protocol_tag (DraftRabbitMQ d) = u ''rabbitmq''"
| "protocol_tag (DraftKafka d) = u ''kafka''"
| "protocol_tag (DraftPulsar d) = u ''pulsar''"
| "protocol_tag (DraftRedis d) = u ''redis''"
| "protocol_tag (DraftMqtt d) = u ''mqtt''"
| "protocol_tag (DraftNats d) = u ''nats''"
| "protocol_tag (DraftActiveMQ d) = u ''activemq''"
| "protocol_tag (DraftNsq d) = u ''nsq''"
| "protocol_tag (DraftSqs d) = u ''sqs''"
| "protocol_tag (DraftGooglePubSub d) = u ''google-pubsub''"
| "protocol_tag (DraftAzureServiceBus d) = u ''azure-servicebus''"
| "protocol_tag (DraftKinesis d) = u ''kinesis''"
| "protocol_tag (DraftIbmMq d) = u ''ibmmq''"
| "protocol_tag (DraftSolace d) = u ''solace''"

definition DRAFTABLE :: "jsstr list" where
  "DRAFTABLE = [u ''rocketmq'', u ''rabbitmq'', u ''kafka'', u ''pulsar'', u ''redis'', u ''mqtt'', u ''nats'',
     u ''activemq'', u ''nsq'', u ''sqs'', u ''google-pubsub'', u ''azure-servicebus'', u ''kinesis'',
     u ''ibmmq'', u ''solace'']"

definition isDraftable :: "jsstr \<Rightarrow> bool" where
  "isDraftable protocol \<longleftrightarrow> protocol \<in> set DRAFTABLE"

end
