(* ===== verification/Connection_Validation.thy ===== *)
theory Connection_Validation
  imports Connection_Drafts
begin

text \<open>
  What a draft is still missing before it can be dialled or saved
  (\<open>design/boards/connections/connectionValidation.ts\<close>). The rules of a family are a chain of
  checks that returns the first failing one; a check here is \<open>refuse\<close>, and an accepted draft is
  one that no check refuses. The reason is the key of its translation; \<open>draftInvalidReason\<close>
  takes the translation function as the code does. A draft of a family without rules, for which
  the code throws, is no value of the draft type.
\<close>

named_theorems accept_iff \<open>when a chain of checks accepts\<close>

definition refuse :: "bool \<Rightarrow> string \<Rightarrow> string option \<Rightarrow> string option" where
  "refuse wrong reason rest = (if wrong then Some reason else rest)"

lemma refuse_None [accept_iff]: "refuse wrong reason rest = None \<longleftrightarrow> \<not> wrong \<and> rest = None"
  by (simp add: refuse_def)

abbreviation is_blank :: "jsstr \<Rightarrow> bool" where
  "is_blank s \<equiv> trim s = []"

section \<open>Each family's rules\<close>

text \<open>
  \<open>raw.split(/[,;\s]+/)\<close> and the count of its non-blank parts. Splitting at each separator of a
  run gives only further empty parts, which are not counted.
\<close>

definition is_address_sep :: "int \<Rightarrow> bool" where
  "is_address_sep c \<longleftrightarrow> c = 44 \<or> c = 59 \<or> is_ws c"

definition countAddresses :: "jsstr \<Rightarrow> nat" where
  "countAddresses raw = length (filter (\<lambda>part. \<not> is_blank part) (split_when is_address_sep raw))"

definition rabbitmq_invalid :: "RabbitMQDraft \<Rightarrow> string option" where
  "rabbitmq_invalid d =
     refuse (is_blank (rb_management d)) ''page.connections.managementRequired''
    (refuse (\<not> keepStored d \<and> is_blank (rb_username d)) ''page.connections.usernameRequired'' None)"

definition kafka_invalid :: "KafkaDraft \<Rightarrow> string option" where
  "kafka_invalid d =
     refuse (is_blank (kd_endpoints d)) ''page.connections.bootstrapRequired''
    (refuse (kd_mechanism d \<noteq> KafkaNone \<and> \<not> keepStored d \<and> is_blank (kd_username d)) ''page.connections.usernameRequired'' None)"

definition pulsar_invalid :: "PulsarDraft \<Rightarrow> string option" where
  "pulsar_invalid d =
     refuse (is_blank (pd_service d)) ''page.connections.serviceUrlRequired''
    (refuse (is_blank (pd_admin d)) ''page.connections.adminUrlRequired''
    (refuse (is_blank (pd_tenant d) \<or> is_blank (pd_namespace d)) ''page.connections.scopeRequired''
    (refuse (pd_auth d = PulsarToken \<and> \<not> keepStored d \<and> is_blank (pd_token d)) ''page.connections.tokenRequired'' None)))"

definition redis_invalid :: "RedisDraft \<Rightarrow> string option" where
  "redis_invalid d =
     refuse (is_blank (rd_endpoints d)) ''page.connections.endpointsRequired''
    (refuse (rd_deployment d = Standalone \<and> 1 < countAddresses (rd_endpoints d)) ''page.connections.form.redis.oneAddressOnly''
    (refuse (rd_deployment d = Sentinel \<and> is_blank (rd_masterName d)) ''page.connections.form.redis.masterNameRequired'' None))"

definition mqtt_invalid :: "MqttDraft \<Rightarrow> string option" where
  "mqtt_invalid d =
     refuse (is_blank (md_endpoints d)) ''page.connections.brokerRequired''
    (refuse (md_mechanism d \<noteq> MechNone \<and> \<not> keepStored d \<and> is_blank (md_username d)) ''page.connections.usernameRequired''
    (refuse (\<not> is_blank (md_managementUrl d) \<and> \<not> keepStored d \<and> is_blank (md_managementKey d))
       ''page.connections.form.mqtt.managementKeyRequired'' None))"

definition nats_invalid :: "NatsDraft \<Rightarrow> string option" where
  "nats_invalid d =
    (let stored = keepStored d; mechanism = nd_mechanism d in
     refuse (is_blank (nd_endpoints d)) ''page.connections.form.nats.serversRequired''
    (refuse (\<not> stored \<and> mechanism = NatsPlain \<and> is_blank (nd_username d)) ''page.connections.usernameRequired''
    (refuse (\<not> stored \<and> mechanism = NatsToken \<and> is_blank (nd_token d)) ''page.connections.form.nats.tokenRequired''
    (refuse (\<not> stored \<and> mechanism = NatsNkey \<and> is_blank (nd_nkeySeed d)) ''page.connections.form.nats.nkeySeedRequired''
    (refuse (mechanism = NatsCreds \<and> is_blank (nd_credsFile d)) ''page.connections.form.nats.credsFileRequired''
    (refuse (mechanism = NatsMtls \<and> (is_blank (nd_tlsCertFile d) \<or> is_blank (nd_tlsKeyFile d)))
       ''page.connections.form.nats.certPairRequired''
    (refuse (\<not> stored \<and> \<not> is_blank (nd_systemUser d) \<and> is_blank (nd_systemPassword d))
       ''page.connections.form.nats.systemPasswordRequired'' None)))))))"

definition activemq_invalid :: "ActiveMQDraft \<Rightarrow> string option" where
  "activemq_invalid d =
     refuse (is_blank (ad_endpoints d)) ''page.connections.endpointsRequired''
    (refuse (\<not> has_http_scheme (trim (ad_endpoints d))) ''page.connections.form.activemq.consoleScheme'' None)"

definition nsq_invalid :: "NsqDraft \<Rightarrow> string option" where
  "nsq_invalid d = refuse (is_blank (qd_endpoints d)) ''page.connections.form.nsq.nsqdRequired'' None"

definition sqs_invalid :: "SqsDraft \<Rightarrow> string option" where
  "sqs_invalid d =
    (let endpoint = trim (sd_endpointUrl d) in
     refuse (is_blank (sd_region d)) ''page.connections.form.sqs.regionRequired''
    (refuse (\<not> keepStored d \<and> (is_blank (sd_accessKeyId d) \<noteq> is_blank (sd_secretAccessKey d)))
       ''page.connections.form.sqs.credentialPairRequired''
    (refuse (endpoint \<noteq> [] \<and> \<not> has_http_scheme endpoint) ''page.connections.form.sqs.endpointScheme'' None)))"

definition google_pubsub_invalid :: "GooglePubSubDraft \<Rightarrow> string option" where
  "google_pubsub_invalid d =
    (let credentials = trim (gd_credentialsJson d); emulator = trim (gd_emulatorHost d) in
     refuse (is_blank (gd_projectId d)) ''page.connections.form.google-pubsub.projectRequired''
    (refuse (\<not> keepStored d \<and> credentials \<noteq> [] \<and> \<not> starts_with credentials (u ''{''))
       ''page.connections.form.google-pubsub.credentialsNotJson''
    (refuse (emulator \<noteq> [] \<and> has_scheme emulator) ''page.connections.form.google-pubsub.emulatorHostNoScheme'' None)))"

definition azure_servicebus_invalid :: "AzureServiceBusDraft \<Rightarrow> string option" where
  "azure_servicebus_invalid d =
    (let key = trim (zd_sharedAccessKey d); connectionString = trim (zd_connectionString d);
         emulator = trim (zd_emulatorManagement d) in
     refuse (is_blank (zd_endpoints d)) ''page.connections.form.azure-servicebus.namespaceRequired''
    (refuse (\<not> keepStored d \<and> key = [] \<and> connectionString = []) ''page.connections.form.azure-servicebus.credentialRequired''
    (refuse (connectionString \<noteq> [] \<and> \<not> includes_str connectionString (u ''Endpoint=''))
       ''page.connections.form.azure-servicebus.connectionStringMalformed''
    (refuse (emulator \<noteq> [] \<and> has_scheme emulator) ''page.connections.form.azure-servicebus.emulatorManagementNoScheme'' None))))"

definition kinesis_invalid :: "KinesisDraft \<Rightarrow> string option" where
  "kinesis_invalid d =
    (let endpoint = trim (id_endpointUrl d) in
     refuse (is_blank (id_region d)) ''page.connections.form.kinesis.regionRequired''
    (refuse (\<not> keepStored d \<and> (is_blank (id_accessKeyId d) \<noteq> is_blank (id_secretAccessKey d)))
       ''page.connections.form.kinesis.credentialPairRequired''
    (refuse (endpoint \<noteq> [] \<and> \<not> has_http_scheme endpoint) ''page.connections.form.kinesis.endpointScheme'' None)))"

text \<open>\<open>/^[A-Za-z0-9._/%]{1,48}$/\<close>\<close>

definition is_qmgr_name :: "jsstr \<Rightarrow> bool" where
  "is_qmgr_name s \<longleftrightarrow> 1 \<le> length s \<and> length s \<le> 48
     \<and> list_all (\<lambda>c. is_alpha c \<or> is_digit c \<or> c = 46 \<or> c = 95 \<or> c = 47 \<or> c = 37) s"

definition ibmmq_invalid :: "IbmMqDraft \<Rightarrow> string option" where
  "ibmmq_invalid d =
    (let endpoints = trim (bd_endpoints d); qmgr = trim (bd_queueManager d) in
     refuse (endpoints = []) ''page.connections.form.ibmmq.mqwebRequired''
    (refuse (\<not> has_http_scheme endpoints) ''page.connections.form.ibmmq.mqwebScheme''
    (refuse (qmgr \<noteq> [] \<and> \<not> is_qmgr_name qmgr) ''page.connections.form.ibmmq.queueManagerName''
    (refuse (bd_mechanism d = MechPlain \<and> \<not> keepStored d
         \<and> (is_blank (bd_messagingUsername d) \<noteq> is_blank (bd_messagingPassword d)))
       ''page.connections.form.ibmmq.messagingPairRequired'' None))))"

definition solace_invalid :: "SolaceDraft \<Rightarrow> string option" where
  "solace_invalid d =
    (let endpoints = trim (od_endpoints d); vpn = trim (od_msgVpn d) in
     refuse (endpoints = []) ''page.connections.form.solace.sempRequired''
    (refuse (\<not> has_http_scheme endpoints) ''page.connections.form.solace.sempScheme''
    (refuse (vpn \<noteq> [] \<and> (32 < length vpn \<or> list_ex (\<lambda>c. c = 42 \<or> c = 63) vpn)) ''page.connections.form.solace.msgVpnName''
    (refuse (\<not> keepStored d \<and> (is_blank (od_restUsername d) \<noteq> is_blank (od_restPassword d)))
       ''page.connections.form.solace.restPairRequired'' None))))"

text \<open>The namespace is tested against \<open>/^[\w|-]*$/\<close>.\<close>

definition rocketmq_invalid :: "RocketMQDraft \<Rightarrow> string option" where
  "rocketmq_invalid d =
     refuse (is_blank (rk_endpoints d)) ''page.connections.endpointsRequired''
    (refuse (rk_version d = Rocket5 \<and> rk_access d = AccessProxy) ''page.connections.form.rocketmq.proxyNote''
    (refuse (\<not> list_all (\<lambda>c. is_word c \<or> c = 124 \<or> c = 45) (trim (rk_namespace d)))
       ''page.connections.form.rocketmq.namespaceInvalid'' None))"

section \<open>The dialog's rule\<close>

fun draft_shared :: "ProtocolDraft \<Rightarrow> shared_draft" where
  "draft_shared (DraftRocketMQ d) = shared_draft.truncate d"
| "draft_shared (DraftRabbitMQ d) = shared_draft.truncate d"
| "draft_shared (DraftKafka d) = shared_draft.truncate d"
| "draft_shared (DraftPulsar d) = shared_draft.truncate d"
| "draft_shared (DraftRedis d) = shared_draft.truncate d"
| "draft_shared (DraftMqtt d) = shared_draft.truncate d"
| "draft_shared (DraftNats d) = shared_draft.truncate d"
| "draft_shared (DraftActiveMQ d) = shared_draft.truncate d"
| "draft_shared (DraftNsq d) = shared_draft.truncate d"
| "draft_shared (DraftSqs d) = shared_draft.truncate d"
| "draft_shared (DraftGooglePubSub d) = shared_draft.truncate d"
| "draft_shared (DraftAzureServiceBus d) = shared_draft.truncate d"
| "draft_shared (DraftKinesis d) = shared_draft.truncate d"
| "draft_shared (DraftIbmMq d) = shared_draft.truncate d"
| "draft_shared (DraftSolace d) = shared_draft.truncate d"

fun family_invalid :: "ProtocolDraft \<Rightarrow> string option" where
  "family_invalid (DraftRabbitMQ d) = rabbitmq_invalid d"
| "family_invalid (DraftKafka d) = kafka_invalid d"
| "family_invalid (DraftPulsar d) = pulsar_invalid d"
| "family_invalid (DraftRedis d) = redis_invalid d"
| "family_invalid (DraftMqtt d) = mqtt_invalid d"
| "family_invalid (DraftNats d) = nats_invalid d"
| "family_invalid (DraftActiveMQ d) = activemq_invalid d"
| "family_invalid (DraftNsq d) = nsq_invalid d"
| "family_invalid (DraftSqs d) = sqs_invalid d"
| "family_invalid (DraftGooglePubSub d) = google_pubsub_invalid d"
| "family_invalid (DraftAzureServiceBus d) = azure_servicebus_invalid d"
| "family_invalid (DraftKinesis d) = kinesis_invalid d"
| "family_invalid (DraftIbmMq d) = ibmmq_invalid d"
| "family_invalid (DraftSolace d) = solace_invalid d"
| "family_invalid (DraftRocketMQ d) = rocketmq_invalid d"

definition invalid_reason :: "ProtocolDraft \<Rightarrow> string option" where
  "invalid_reason draft =
    (let shared = draft_shared draft in
     refuse (is_blank (dr_name shared)) ''page.connections.nameRequired''
    (refuse (dr_timeoutSec shared < Fin 0 \<or> Fin 300 < dr_timeoutSec shared) ''page.connections.timeoutRange''
    (family_invalid draft)))"

definition draftInvalidReason :: "ProtocolDraft \<Rightarrow> (string \<Rightarrow> jsstr) \<Rightarrow> jsstr option" where
  "draftInvalidReason draft t = map_option t (invalid_reason draft)"

abbreviation accepted :: "ProtocolDraft \<Rightarrow> bool" where
  "accepted draft \<equiv> invalid_reason draft = None"

lemma draftInvalidReason_None: "draftInvalidReason draft t = None \<longleftrightarrow> accepted draft"
  by (simp add: draftInvalidReason_def)

lemmas family_rules = rabbitmq_invalid_def kafka_invalid_def pulsar_invalid_def redis_invalid_def mqtt_invalid_def
  nats_invalid_def activemq_invalid_def nsq_invalid_def sqs_invalid_def google_pubsub_invalid_def
  azure_servicebus_invalid_def kinesis_invalid_def ibmmq_invalid_def solace_invalid_def rocketmq_invalid_def

end
