(* ===== verification/Connection_Store.thy ===== *)
theory Connection_Store
  imports Connection_Drafts "HOL-Library.List_Lexorder"
begin

text \<open>
  What the service does with a submission (\<open>internal/bridge/connection.go\<close>,
  \<open>internal/service/connection\<close>, \<open>internal/model/profile.go\<close>): the credentials mode is resolved
  against the stored secrets, the fields every family shares are checked and normalised, and the
  credentials replace the stored ones. This is the Go half the renderer's drafts are written
  for, so that what a submission means can be stated. A Go map of strings is an association list
  with one entry for a key; a loop over it visits the entries in some order, here the stored one,
  and each iteration touches its own key only. Persisting the table, redialling and locking are
  left out; whether a family needs an address is the driver's answer, a parameter.
\<close>

section \<open>Secrets\<close>

definition SetSecret :: "jsstr \<Rightarrow> jsstr \<Rightarrow> attributes \<Rightarrow> attributes" where
  "SetSecret key v secrets = (if v = [] then AList.delete key secrets else AList.update key v secrets)"

definition Secret :: "attributes \<Rightarrow> jsstr \<Rightarrow> jsstr" where
  "Secret secrets key = nullish (map_of secrets key) []"

definition ConfiguredSecrets :: "attributes \<Rightarrow> jsstr list" where
  "ConfiguredSecrets secrets = sort (map fst (filter (\<lambda>(k, v). v \<noteq> []) secrets))"

fun SetSecrets :: "attributes \<Rightarrow> attributes \<Rightarrow> attributes" where
  "SetSecrets [] secrets = secrets"
| "SetSecrets ((k, v) # kvs) secrets = SetSecrets kvs (SetSecret k v secrets)"

section \<open>The stored profile\<close>

record StoredProfile =
  sp_id :: int
  sp_name :: jsstr
  sp_group :: jsstr
  sp_kind :: MQKind
  sp_endpoints :: jsstr
  sp_timeoutSec :: jsnum
  sp_mechanism :: AuthMechanism
  sp_status :: ConnectionStatus
  sp_lastCheck :: jsstr
  sp_isDefault :: bool
  sp_remark :: jsstr
  sp_options :: attributes
  sp_secrets :: attributes

text \<open>What the renderer gets of it.\<close>

definition redactConnection :: "StoredProfile \<Rightarrow> ConnectionView" where
  "redactConnection p =
    \<lparr>cv_id = sp_id p, cv_name = sp_name p, cv_group = sp_group p, cv_kind = sp_kind p, cv_endpoints = sp_endpoints p,
     cv_timeoutSec = sp_timeoutSec p, cv_authMechanism = sp_mechanism p, cv_options = Some (sp_options p),
     cv_secretsConfigured = ConfiguredSecrets (sp_secrets p), cv_status = sp_status p, cv_lastCheck = sp_lastCheck p,
     cv_isDefault = sp_isDefault p, cv_remark = sp_remark p\<rparr>"

text \<open>A form submission as a profile: the blank secrets it carries are not stored.\<close>

definition input_profile :: "ConnectionDraft \<Rightarrow> StoredProfile" where
  "input_profile d =
    \<lparr>sp_id = 0, sp_name = cd_name d, sp_group = cd_group d, sp_kind = cd_kind d, sp_endpoints = cd_endpoints d,
     sp_timeoutSec = cd_timeoutSec d, sp_mechanism = cd_authMechanism d, sp_status = StatusZero, sp_lastCheck = [],
     sp_isDefault = False, sp_remark = cd_remark d, sp_options = cd_options d,
     sp_secrets = SetSecrets (cd_secrets d) []\<rparr>"

section \<open>Errors and checks\<close>

datatype store_error =
    InvalidMode | ConnectionNotFound | NameEmpty | AddressEmpty | TimeoutRange | AccessKeyRequired | SecretKeyRequired

definition hasEndpoint :: "jsstr \<Rightarrow> bool" where
  "hasEndpoint raw \<longleftrightarrow> list_ex (\<lambda>c. \<not> (c = 59 \<or> c = 44 \<or> c = 32 \<or> c = 9 \<or> c = 13 \<or> c = 10)) raw"

text \<open>\<open>strings.Join(strings.Fields(group), " ")\<close>\<close>

definition normalizeConnectionGroup :: "jsstr \<Rightarrow> jsstr" where
  "normalizeConnectionGroup raw = join_with [32] (filter (\<lambda>w. w \<noteq> []) (split_when go_space raw))"

definition normalizeACLConfig :: "bool \<Rightarrow> jsstr \<Rightarrow> jsstr \<Rightarrow> store_error + (bool \<times> jsstr \<times> jsstr)" where
  "normalizeACLConfig enableACL accessKey secretKey =
    (let a = TrimSpace accessKey; s = TrimSpace secretKey in
     if \<not> enableACL then Inr (False, [], [])
     else if a = [] then Inl AccessKeyRequired
     else if s = [] then Inl SecretKeyRequired
     else Inr (True, a, s))"

definition validateConnectionFields ::
    "(MQKind \<Rightarrow> bool) \<Rightarrow> MQKind \<Rightarrow> jsstr \<Rightarrow> jsstr \<Rightarrow> jsnum \<Rightarrow> store_error + (jsstr \<times> jsstr)" where
  "validateConnectionFields requiresEndpoints kind name endpoints timeoutSec =
    (let n = TrimSpace name; e = TrimSpace endpoints in
     if n = [] then Inl NameEmpty
     else if requiresEndpoints kind \<and> \<not> hasEndpoint e then Inl AddressEmpty
     else if timeoutSec < Fin 0 \<or> Fin 300 < timeoutSec then Inl TimeoutRange
     else Inr (n, e))"

section \<open>Credentials\<close>

text \<open>\<open>preserve\<close> fills what the form left blank from the store, \<open>clear\<close> drops everything.\<close>

fun fill_blanks :: "attributes \<Rightarrow> attributes \<Rightarrow> attributes" where
  "fill_blanks [] secrets = secrets"
| "fill_blanks ((k, stored) # kvs) secrets =
     fill_blanks kvs (if Secret secrets k = [] then SetSecret k stored secrets else secrets)"

definition applyCredentialsMode ::
    "(int \<times> StoredProfile) list \<Rightarrow> int \<Rightarrow> StoredProfile \<Rightarrow> jsstr \<Rightarrow> store_error + StoredProfile" where
  "applyCredentialsMode table i profile mode =
    (if mode = u ''preserve'' \<or> mode = [] then
       (if i = 0 then Inr profile
        else (case map_of table i of None \<Rightarrow> Inl ConnectionNotFound
          | Some current \<Rightarrow> Inr (profile\<lparr>sp_secrets := fill_blanks (sp_secrets current) (sp_secrets profile)\<rparr>)))
     else if mode = u ''clear'' then Inr (profile\<lparr>sp_secrets := [], sp_mechanism := AuthNone\<rparr>)
     else if mode = u ''replace'' then Inr profile
     else Inl InvalidMode)"

definition SetACL :: "bool \<Rightarrow> jsstr \<Rightarrow> jsstr \<Rightarrow> StoredProfile \<Rightarrow> StoredProfile" where
  "SetACL enabled accessKey secretKey p =
    (if \<not> enabled then p\<lparr>sp_mechanism := AuthNone,
          sp_secrets := SetSecret (u ''secretKey'') [] (SetSecret (u ''accessKey'') [] (sp_secrets p))\<rparr>
     else p\<lparr>sp_mechanism := AuthACL,
          sp_secrets := SetSecret (u ''secretKey'') secretKey (SetSecret (u ''accessKey'') accessKey (sp_secrets p))\<rparr>)"

definition other_secrets :: "attributes \<Rightarrow> attributes" where
  "other_secrets secrets = filter (\<lambda>(k, v). k \<noteq> u ''accessKey'' \<and> k \<noteq> u ''secretKey'') secrets"

definition applyCredentials :: "StoredProfile \<Rightarrow> StoredProfile \<Rightarrow> bool \<Rightarrow> jsstr \<Rightarrow> jsstr \<Rightarrow> StoredProfile" where
  "applyCredentials connection input enableACL accessKey secretKey =
    (let p = SetACL enableACL accessKey secretKey
               (connection\<lparr>sp_secrets := SetSecrets (other_secrets (sp_secrets input)) []\<rparr>)
     in if \<not> enableACL \<and> sp_mechanism input \<noteq> AuthZero then p\<lparr>sp_mechanism := sp_mechanism input\<rparr> else p)"

section \<open>Adding and updating\<close>

definition ACLEnabled :: "StoredProfile \<Rightarrow> bool" where
  "ACLEnabled p \<longleftrightarrow> sp_mechanism p = AuthACL"

text \<open>\<open>maps.Equal\<close>\<close>

definition maps_equal :: "attributes \<Rightarrow> attributes \<Rightarrow> bool" where
  "maps_equal m m' \<longleftrightarrow> list_all (\<lambda>k. map_of m k = map_of m' k) (map fst m @ map fst m')"

definition dialParametersChanged :: "StoredProfile \<Rightarrow> StoredProfile \<Rightarrow> bool" where
  "dialParametersChanged previous current \<longleftrightarrow>
     sp_endpoints previous \<noteq> sp_endpoints current \<or> sp_timeoutSec previous \<noteq> sp_timeoutSec current
   \<or> ACLEnabled previous \<noteq> ACLEnabled current \<or> \<not> maps_equal (sp_options previous) (sp_options current)
   \<or> \<not> maps_equal (sp_secrets previous) (sp_secrets current)"

definition AddConnection ::
    "(MQKind \<Rightarrow> bool) \<Rightarrow> int \<Rightarrow> (int \<times> StoredProfile) list \<Rightarrow> StoredProfile \<Rightarrow> store_error + StoredProfile" where
  "AddConnection requiresEndpoints nextID table input =
    (let kind = (if sp_kind input = KindZero then KindRocketMQ else sp_kind input) in
     case validateConnectionFields requiresEndpoints kind (sp_name input) (sp_endpoints input) (sp_timeoutSec input) of
       Inl e \<Rightarrow> Inl e
     | Inr (name, endpoints) \<Rightarrow>
         (case normalizeACLConfig (ACLEnabled input) (Secret (sp_secrets input) (u ''accessKey''))
                 (Secret (sp_secrets input) (u ''secretKey'')) of
            Inl e \<Rightarrow> Inl e
          | Inr (enableACL, accessKey, secretKey) \<Rightarrow>
              Inr (applyCredentials
                \<lparr>sp_id = nextID, sp_name = name, sp_group = normalizeConnectionGroup (sp_group input), sp_kind = kind,
                 sp_endpoints = endpoints, sp_timeoutSec = sp_timeoutSec input, sp_mechanism = AuthZero,
                 sp_status = StatusOffline, sp_lastCheck = u ''-'', sp_isDefault = (table = []),
                 sp_remark = sp_remark input, sp_options = sp_options input, sp_secrets = []\<rparr>
                input enableACL accessKey secretKey)))"

definition editedKind :: "(int \<times> StoredProfile) list \<Rightarrow> int \<Rightarrow> MQKind \<Rightarrow> MQKind" where
  "editedKind table i submitted = (if submitted \<noteq> KindZero then submitted
     else (case map_of table i of Some stored \<Rightarrow> sp_kind stored | None \<Rightarrow> KindRocketMQ))"

definition UpdateConnection ::
    "(MQKind \<Rightarrow> bool) \<Rightarrow> (int \<times> StoredProfile) list \<Rightarrow> int \<Rightarrow> StoredProfile \<Rightarrow> store_error + StoredProfile" where
  "UpdateConnection requiresEndpoints table i input =
    (case validateConnectionFields requiresEndpoints (editedKind table i (sp_kind input)) (sp_name input)
            (sp_endpoints input) (sp_timeoutSec input) of
       Inl e \<Rightarrow> Inl e
     | Inr (name, endpoints) \<Rightarrow>
         (case map_of table i of None \<Rightarrow> Inl ConnectionNotFound
          | Some previous \<Rightarrow>
              (case normalizeACLConfig (ACLEnabled input) (Secret (sp_secrets input) (u ''accessKey''))
                      (Secret (sp_secrets input) (u ''secretKey'')) of
                 Inl e \<Rightarrow> Inl e
               | Inr (enableACL, accessKey, secretKey) \<Rightarrow>
                   (let kind = (if sp_kind input \<noteq> KindZero then sp_kind input else sp_kind previous);
                        connection = previous\<lparr>sp_name := name, sp_group := normalizeConnectionGroup (sp_group input),
                          sp_endpoints := endpoints, sp_kind := kind, sp_options := sp_options input,
                          sp_timeoutSec := sp_timeoutSec input\<rparr>;
                        saved = (applyCredentials connection input enableACL accessKey secretKey)
                          \<lparr>sp_remark := sp_remark input\<rparr>
                    in Inr (if dialParametersChanged previous saved then saved\<lparr>sp_status := StatusOffline\<rparr> else saved)))))"

text \<open>The bridge's entry points: a new connection has nothing stored to resolve a mode against.\<close>

definition AddSubmission ::
    "(MQKind \<Rightarrow> bool) \<Rightarrow> int \<Rightarrow> (int \<times> StoredProfile) list \<Rightarrow> Submission \<Rightarrow> store_error + StoredProfile" where
  "AddSubmission requiresEndpoints nextID table s = AddConnection requiresEndpoints nextID table (input_profile (sub_draft s))"

definition UpdateSubmission ::
    "(MQKind \<Rightarrow> bool) \<Rightarrow> (int \<times> StoredProfile) list \<Rightarrow> int \<Rightarrow> Submission \<Rightarrow> store_error + StoredProfile" where
  "UpdateSubmission requiresEndpoints table i s =
    (case applyCredentialsMode table i (input_profile (sub_draft s)) (mode_str (sub_mode s)) of
       Inl e \<Rightarrow> Inl e
     | Inr profile \<Rightarrow> UpdateConnection requiresEndpoints table i profile)"

section \<open>The secrets table\<close>

definition wf_secrets :: "attributes \<Rightarrow> bool" where
  "wf_secrets s \<longleftrightarrow> distinct (map fst s) \<and> list_all (\<lambda>(k, v). v \<noteq> []) s"

lemma wf_secrets_Nil [simp]: "wf_secrets []"
  by (simp add: wf_secrets_def)

lemma update_fresh: "k \<notin> fst ` set s \<Longrightarrow> AList.update k v s = s @ [(k, v)]"
  by (induction s) auto

lemma delete_fresh: "k \<notin> fst ` set s \<Longrightarrow> AList.delete k s = s"
  by (induction s) (auto simp: AList.delete_eq)

lemma map_of_SetSecret: "map_of (SetSecret k v s) = (map_of s)(k := if v = [] then None else Some v)"
  by (simp add: SetSecret_def AList.delete_conv' AList.update_conv')

lemma wf_SetSecret [simp]:
  assumes "wf_secrets s"
  shows "wf_secrets (SetSecret k v s)"
proof -
  have "distinct (map fst (SetSecret k v s))"
    using assms by (simp add: wf_secrets_def SetSecret_def AList.distinct_update AList.distinct_delete)
  moreover have "v \<noteq> [] \<Longrightarrow> list_all (\<lambda>(k, v). v \<noteq> []) (AList.update k v s)"
    using assms unfolding wf_secrets_def by (induction s) (auto split: prod.splits)
  moreover have "list_all (\<lambda>(k, v). v \<noteq> []) (AList.delete k s)"
    using assms by (auto simp: wf_secrets_def AList.delete_eq list_all_iff)
  ultimately show ?thesis by (simp add: wf_secrets_def SetSecret_def)
qed

lemma wf_SetSecrets [simp]: "wf_secrets s \<Longrightarrow> wf_secrets (SetSecrets kvs s)"
  by (induction kvs s rule: SetSecrets.induct) simp_all

lemma wf_fill_blanks [simp]: "wf_secrets s \<Longrightarrow> wf_secrets (fill_blanks kvs s)"
  by (induction kvs s rule: fill_blanks.induct) simp_all

text \<open>Blank secrets leave nothing behind.\<close>

lemma SetSecret_blank [simp]: "SetSecret k [] [] = []"
  by (simp add: SetSecret_def)

lemma Secret_Nil [simp]: "Secret [] k = []"
  by (simp add: Secret_def)

text \<open>Writing a table into an empty one, secret by secret, copies it.\<close>

lemma SetSecrets_append:
  "wf_secrets (s @ kvs) \<Longrightarrow> SetSecrets kvs s = s @ kvs"
proof (induction kvs s rule: SetSecrets.induct)
  case (2 k v kvs s)
  then have "SetSecret k v s = s @ [(k, v)]"
    by (simp add: wf_secrets_def SetSecret_def update_fresh)
  then show ?case using 2 by simp
qed simp

lemma SetSecrets_copy [simp]: "wf_secrets s \<Longrightarrow> SetSecrets s [] = s"
  using SetSecrets_append [of "[]"] by simp

lemma fill_blanks_append:
  "wf_secrets (s @ kvs) \<Longrightarrow> fill_blanks kvs s = s @ kvs"
proof (induction kvs s rule: fill_blanks.induct)
  case (2 k v kvs s)
  then have fresh: "k \<notin> fst ` set s" and v: "v \<noteq> []" by (auto simp: wf_secrets_def)
  then have "map_of s k = None" by (simp add: map_of_eq_None_iff)
  then have "Secret s k = []" "SetSecret k v s = s @ [(k, v)]"
    using v by (simp_all add: Secret_def SetSecret_def update_fresh [OF fresh])
  then show ?case using 2 by simp
qed simp

lemma fill_blanks_copy [simp]: "wf_secrets s \<Longrightarrow> fill_blanks s [] = s"
  using fill_blanks_append [of "[]"] by simp

text \<open>What filling blanks amounts to, key by key.\<close>

lemma Secret_SetSecret: "Secret (SetSecret k v s) j = (if j = k then v else Secret s j)"
  by (simp add: Secret_def map_of_SetSecret)

lemma fill_blanks_Secret:
  "wf_secrets stored \<Longrightarrow> Secret (fill_blanks stored s) k = (if Secret s k = [] then Secret stored k else Secret s k)"
proof (induction stored s rule: fill_blanks.induct)
  case (2 j v kvs s)
  have wf: "wf_secrets kvs" and fresh: "map_of kvs j = None"
    using 2(2) by (auto simp: wf_secrets_def map_of_eq_None_iff)
  have "Secret ((j, v) # kvs) k = (if k = j then v else Secret kvs k)" by (simp add: Secret_def)
  moreover have "Secret kvs j = []" using fresh by (simp add: Secret_def)
  ultimately show ?case using 2(1) [OF wf] by (simp add: Secret_SetSecret)
qed simp

subsection \<open>The contract of a secrets table\<close>

text \<open>
  What the mode of a submission relies on: writing a secret is read back and leaves the others,
  and filling from a stored table takes from it exactly the secrets that are blank.
\<close>

locale secrets_table =
  fixes ok :: "'s \<Rightarrow> bool" and get :: "'s \<Rightarrow> 'k \<Rightarrow> 'v list"
    and put :: "'k \<Rightarrow> 'v list \<Rightarrow> 's \<Rightarrow> 's" and fill :: "'s \<Rightarrow> 's \<Rightarrow> 's" and bare :: 's
  assumes get_bare: "get bare k = []"
    and get_put: "get (put k v s) j = (if j = k then v else get s j)"
    and get_fill: "ok stored \<Longrightarrow> get (fill stored s) k = (if get s k = [] then get stored k else get s k)"
begin

primrec put_all :: "('k \<times> 'v list) list \<Rightarrow> 's \<Rightarrow> 's" where
  "put_all [] s = s"
| "put_all (kv # kvs) s = put_all kvs (put (fst kv) (snd kv) s)"

lemma get_put_all:
  "distinct (map fst kvs) \<Longrightarrow> get (put_all kvs s) k = nullish (map_of kvs k) (get s k)"
proof (induction kvs arbitrary: s)
  case (Cons kv kvs)
  then have "map_of kvs (fst kv) = None" by (simp add: map_of_eq_None_iff)
  then show ?case using Cons by (cases kv) (auto simp: get_put nullish_def split: option.splits)
qed simp

lemma replaced: "distinct (map fst kvs) \<Longrightarrow> get (put_all kvs bare) k = nullish (map_of kvs k) []"
  by (simp add: get_put_all get_bare)

lemma preserved:
  assumes "distinct (map fst kvs)" and "ok stored"
  shows "get (fill stored (put_all kvs bare)) k =
    (if nullish (map_of kvs k) [] = [] then get stored k else nullish (map_of kvs k) [])"
  using assms by (simp add: get_fill replaced)

end

interpretation secrets: secrets_table wf_secrets Secret SetSecret fill_blanks "[]"
  by unfold_locales (simp_all add: Secret_SetSecret fill_blanks_Secret)

lemma SetSecrets_put_all: "SetSecrets kvs s = secrets.put_all kvs s"
  by (induction kvs s rule: SetSecrets.induct) simp_all

lemma SetSecrets_Secret:
  "distinct (map fst kvs) \<Longrightarrow> Secret (SetSecrets kvs []) k = nullish (map_of kvs k) []"
  by (simp add: SetSecrets_put_all secrets.replaced)

lemma preserved_Secret:
  "distinct (map fst kvs) \<Longrightarrow> wf_secrets stored \<Longrightarrow> Secret (fill_blanks stored (SetSecrets kvs [])) k =
    (if nullish (map_of kvs k) [] = [] then Secret stored k else nullish (map_of kvs k) [])"
  by (simp add: SetSecrets_put_all secrets.preserved)

lemma ConfiguredSecrets_empty: "wf_secrets s \<Longrightarrow> ConfiguredSecrets s = [] \<longleftrightarrow> s = []"
proof -
  assume "wf_secrets s"
  then have "filter (\<lambda>(k, v). v \<noteq> []) s = s"
    by (simp add: wf_secrets_def filter_id_conv list_all_iff)
  then have "length (ConfiguredSecrets s) = length s" by (simp add: ConfiguredSecrets_def)
  then show ?thesis by (metis length_0_conv)
qed

lemma fill_blanks_empty: "wf_secrets stored \<Longrightarrow> wf_secrets s \<Longrightarrow> fill_blanks stored s = [] \<Longrightarrow> stored = []"
proof (rule ccontr)
  assume a: "wf_secrets stored" "fill_blanks stored s = []" "stored \<noteq> []"
  then obtain k v kvs where s: "stored = (k, v) # kvs" by (cases stored) auto
  have "Secret stored k = v" "v \<noteq> []" using a(1) by (simp_all add: s Secret_def wf_secrets_def)
  moreover have "Secret (fill_blanks stored s) k = []" by (simp add: a(2))
  ultimately show False using fill_blanks_Secret [OF a(1), of s k] by (metis)
qed

section \<open>Normal forms\<close>

lemma normalizeConnectionGroup_twice [simp]:
  "normalizeConnectionGroup (normalizeConnectionGroup g) = normalizeConnectionGroup g"
proof -
  define ws where "ws = filter (\<lambda>w. w \<noteq> []) (split_when go_space g)"
  have n: "normalizeConnectionGroup g = join_with [32] ws" by (simp add: normalizeConnectionGroup_def ws_def)
  have words: "\<not> go_space c" if "w \<in> set ws" "c \<in> set w" for w c
    using that split_when_parts [of w go_space g c] by (auto simp: ws_def)
  have sp: "go_space 32" by (simp add: go_space_def is_ws_def)
  show ?thesis
  proof (cases "ws = []")
    case True
    then have "normalizeConnectionGroup g = []" by (simp add: n)
    then show ?thesis by (simp only:) (simp add: normalizeConnectionGroup_def)
  next
    case False
    have "split_when go_space (join_with [32] ws) = ws"
      by (rule split_when_join) (use words sp False in auto)
    moreover have "filter (\<lambda>w. w \<noteq> []) ws = ws" by (simp add: ws_def)
    ultimately show ?thesis by (simp add: n) (simp add: normalizeConnectionGroup_def)
  qed
qed

lemma filter_other_secrets [simp]: "other_secrets (other_secrets s) = other_secrets s"
  by (simp add: other_secrets_def)

lemma wf_other [simp]: "wf_secrets s \<Longrightarrow> wf_secrets (other_secrets s)"
  by (auto simp: wf_secrets_def other_secrets_def list_all_iff distinct_map_filter)

lemma other_append [simp]: "other_secrets (s @ t) = other_secrets s @ other_secrets t"
  by (simp add: other_secrets_def)

text \<open>The ACL pair at the end of the table, where \<open>SetACL\<close> puts it.\<close>

definition acl_pair :: "jsstr \<Rightarrow> jsstr \<Rightarrow> attributes" where
  "acl_pair a s = [(u ''accessKey'', a), (u ''secretKey'', s)]"

lemma other_acl_pair [simp]: "other_secrets (acl_pair a s) = []"
  by (simp add: other_secrets_def acl_pair_def)

lemma other_keys:
  "u ''accessKey'' \<notin> fst ` set (other_secrets s)" "u ''secretKey'' \<notin> fst ` set (other_secrets s)"
  by (auto simp: other_secrets_def)

lemma set_acl_pair:
  assumes "a \<noteq> []" and "k \<noteq> []"
  shows "SetSecret (u ''secretKey'') k (SetSecret (u ''accessKey'') a (other_secrets s)) = other_secrets s @ acl_pair a k"
proof -
  have "SetSecret (u ''accessKey'') a (other_secrets s) = other_secrets s @ [(u ''accessKey'', a)]"
    using other_keys(1) assms by (simp add: SetSecret_def update_fresh)
  moreover have "u ''secretKey'' \<notin> fst ` set (other_secrets s @ [(u ''accessKey'', a)])"
    using other_keys(2) by auto
  ultimately show ?thesis using assms by (simp add: SetSecret_def update_fresh acl_pair_def)
qed

lemma drop_acl_pair:
  "SetSecret (u ''secretKey'') [] (SetSecret (u ''accessKey'') [] (other_secrets s)) = other_secrets s"
  using other_keys by (simp add: SetSecret_def delete_fresh)

lemma Secret_acl_pair [simp]:
  "Secret (other_secrets s @ acl_pair a k) (u ''accessKey'') = a"
  "Secret (other_secrets s @ acl_pair a k) (u ''secretKey'') = k"
proof -
  have "map_of (other_secrets s) (u ''accessKey'') = None" "map_of (other_secrets s) (u ''secretKey'') = None"
    using other_keys [of s] by (simp_all only: map_of_eq_None_iff simp_thms)
  then show "Secret (other_secrets s @ acl_pair a k) (u ''accessKey'') = a"
    "Secret (other_secrets s @ acl_pair a k) (u ''secretKey'') = k"
    by (simp_all add: Secret_def acl_pair_def map_add_def)
qed

section \<open>What a submission resolves to\<close>

definition resolved_secrets :: "attributes \<Rightarrow> Submission \<Rightarrow> attributes" where
  "resolved_secrets stored s = (case sub_mode s of
     ModeClear \<Rightarrow> []
   | ModeReplace \<Rightarrow> SetSecrets (cd_secrets (sub_draft s)) []
   | ModePreserve \<Rightarrow> fill_blanks stored (SetSecrets (cd_secrets (sub_draft s)) []))"

definition resolved_mechanism :: "Submission \<Rightarrow> AuthMechanism" where
  "resolved_mechanism s = (if sub_mode s = ModeClear then AuthNone else cd_authMechanism (sub_draft s))"

lemma wf_resolved [simp]: "wf_secrets stored \<Longrightarrow> wf_secrets (resolved_secrets stored s)"
  by (simp add: resolved_secrets_def split: CredentialsMode.split)

lemma UpdateSubmission_eq:
  assumes "i \<noteq> 0" and "map_of table i = Some previous"
  shows "UpdateSubmission req table i s = UpdateConnection req table i
    ((input_profile (sub_draft s))\<lparr>sp_secrets := resolved_secrets (sp_secrets previous) s, sp_mechanism := resolved_mechanism s\<rparr>)"
  using assms by (cases "sub_mode s")
    (simp_all add: UpdateSubmission_def applyCredentialsMode_def resolved_secrets_def resolved_mechanism_def input_profile_def)

text \<open>The credentials a profile is left with, when the service takes the submission.\<close>

definition kept_secrets :: "AuthMechanism \<Rightarrow> attributes \<Rightarrow> attributes" where
  "kept_secrets mechanism s = (if mechanism = AuthACL
     then other_secrets s @ acl_pair (TrimSpace (Secret s (u ''accessKey''))) (TrimSpace (Secret s (u ''secretKey'')))
     else other_secrets s)"

definition acl_ok :: "AuthMechanism \<Rightarrow> attributes \<Rightarrow> bool" where
  "acl_ok mechanism s \<longleftrightarrow> (mechanism = AuthACL \<longrightarrow>
     TrimSpace (Secret s (u ''accessKey'')) \<noteq> [] \<and> TrimSpace (Secret s (u ''secretKey'')) \<noteq> [])"

definition fields_ok :: "(MQKind \<Rightarrow> bool) \<Rightarrow> MQKind \<Rightarrow> jsstr \<Rightarrow> jsstr \<Rightarrow> jsnum \<Rightarrow> bool" where
  "fields_ok req kind name endpoints timeout \<longleftrightarrow> TrimSpace name \<noteq> [] \<and> (req kind \<longrightarrow> hasEndpoint (TrimSpace endpoints))
     \<and> \<not> (timeout < Fin 0 \<or> Fin 300 < timeout)"

lemma applyCredentials_result:
  assumes "normalizeACLConfig (ACLEnabled input) (Secret (sp_secrets input) (u ''accessKey''))
      (Secret (sp_secrets input) (u ''secretKey'')) = Inr (enable, a, k)"
    and "sp_mechanism input \<noteq> AuthZero" and "wf_secrets (sp_secrets input)"
  shows "applyCredentials c input enable a k =
    c\<lparr>sp_mechanism := sp_mechanism input, sp_secrets := kept_secrets (sp_mechanism input) (sp_secrets input)\<rparr>"
proof (cases "sp_mechanism input = AuthACL")
  case True
  then have n: "enable" "a = TrimSpace (Secret (sp_secrets input) (u ''accessKey''))" "a \<noteq> []"
      "k = TrimSpace (Secret (sp_secrets input) (u ''secretKey''))" "k \<noteq> []"
    using assms(1) by (auto simp: normalizeACLConfig_def ACLEnabled_def Let_def split: if_splits)
  have "applyCredentials c input enable a k =
      c\<lparr>sp_mechanism := AuthACL, sp_secrets := other_secrets (sp_secrets input) @ acl_pair a k\<rparr>"
    using n(1) assms(3) set_acl_pair [OF n(3,5)] by (simp add: applyCredentials_def SetACL_def Let_def)
  then show ?thesis by (simp add: True kept_secrets_def n)
next
  case False
  then have n: "\<not> enable"
    using assms(1) by (auto simp: normalizeACLConfig_def ACLEnabled_def Let_def split: if_splits)
  have "applyCredentials c input enable a k =
      c\<lparr>sp_mechanism := sp_mechanism input, sp_secrets := other_secrets (sp_secrets input)\<rparr>"
    using n assms(2,3) drop_acl_pair by (simp add: applyCredentials_def SetACL_def Let_def)
  then show ?thesis by (simp add: False kept_secrets_def)
qed

lemma normalizeACLConfig_iff:
  "(\<exists>e a k. normalizeACLConfig (ACLEnabled input) (Secret (sp_secrets input) (u ''accessKey''))
      (Secret (sp_secrets input) (u ''secretKey'')) = Inr (e, a, k))
    \<longleftrightarrow> acl_ok (sp_mechanism input) (sp_secrets input)"
  by (auto simp: normalizeACLConfig_def ACLEnabled_def acl_ok_def Let_def)

section \<open>Outcomes\<close>

text \<open>A stored profile with the fields of an accepted input written over it.\<close>

definition written :: "StoredProfile \<Rightarrow> StoredProfile \<Rightarrow> StoredProfile" where
  "written base input = base\<lparr>sp_name := TrimSpace (sp_name input),
     sp_group := normalizeConnectionGroup (sp_group input), sp_endpoints := TrimSpace (sp_endpoints input),
     sp_kind := sp_kind input, sp_options := sp_options input, sp_timeoutSec := sp_timeoutSec input,
     sp_mechanism := sp_mechanism input,
     sp_secrets := kept_secrets (sp_mechanism input) (sp_secrets input), sp_remark := sp_remark input\<rparr>"

definition takes :: "(MQKind \<Rightarrow> bool) \<Rightarrow> StoredProfile \<Rightarrow> bool" where
  "takes req input \<longleftrightarrow> fields_ok req (sp_kind input) (sp_name input) (sp_endpoints input) (sp_timeoutSec input)
     \<and> acl_ok (sp_mechanism input) (sp_secrets input)"

definition typed_input :: "StoredProfile \<Rightarrow> bool" where
  "typed_input input \<longleftrightarrow> sp_kind input \<noteq> KindZero \<and> sp_mechanism input \<noteq> AuthZero \<and> wf_secrets (sp_secrets input)"

lemma validate_iff:
  "validateConnectionFields req kind name endpoints timeout = Inr r \<longleftrightarrow>
     fields_ok req kind name endpoints timeout \<and> r = (TrimSpace name, TrimSpace endpoints)"
  by (auto simp: validateConnectionFields_def fields_ok_def Let_def)

lemma acl_cases:
  obtains (refused) e where "normalizeACLConfig (ACLEnabled input) (Secret (sp_secrets input) (u ''accessKey''))
      (Secret (sp_secrets input) (u ''secretKey'')) = Inl e" "\<not> acl_ok (sp_mechanism input) (sp_secrets input)"
    | (taken) enable a k where "normalizeACLConfig (ACLEnabled input) (Secret (sp_secrets input) (u ''accessKey''))
      (Secret (sp_secrets input) (u ''secretKey'')) = Inr (enable, a, k)" "acl_ok (sp_mechanism input) (sp_secrets input)"
proof (cases "normalizeACLConfig (ACLEnabled input) (Secret (sp_secrets input) (u ''accessKey''))
    (Secret (sp_secrets input) (u ''secretKey''))")
  case (Inl e)
  then have "\<not> acl_ok (sp_mechanism input) (sp_secrets input)"
    using normalizeACLConfig_iff [of input] by simp
  then show ?thesis by (rule refused [OF Inl])
next
  case (Inr r)
  obtain enable a k where r: "r = (enable, a, k)" by (cases r) auto
  have "acl_ok (sp_mechanism input) (sp_secrets input)"
    using normalizeACLConfig_iff [of input] Inr r by blast
  then show ?thesis using taken Inr r by blast
qed

lemma UpdateConnection_iff:
  assumes "map_of table i = Some previous" and "typed_input input"
  shows "UpdateConnection req table i input = Inr p \<longleftrightarrow> takes req input
    \<and> p = (if dialParametersChanged previous (written previous input)
           then (written previous input)\<lparr>sp_status := StatusOffline\<rparr> else written previous input)"
proof (cases "fields_ok req (sp_kind input) (sp_name input) (sp_endpoints input) (sp_timeoutSec input)")
  case True
  have kind: "editedKind table i (sp_kind input) = sp_kind input" "sp_kind input \<noteq> KindZero"
    using assms(2) by (simp_all add: editedKind_def typed_input_def)
  have v: "validateConnectionFields req (editedKind table i (sp_kind input)) (sp_name input) (sp_endpoints input)
      (sp_timeoutSec input) = Inr (TrimSpace (sp_name input), TrimSpace (sp_endpoints input))"
    unfolding kind(1) using True by (simp add: validate_iff)
  show ?thesis
  proof (cases rule: acl_cases [of input])
    case (refused e)
    then show ?thesis using v assms(1) by (simp add: UpdateConnection_def takes_def)
  next
    case (taken enable a k)
    have r: "applyCredentials c input enable a k = c\<lparr>sp_mechanism := sp_mechanism input,
        sp_secrets := kept_secrets (sp_mechanism input) (sp_secrets input)\<rparr>" for c
      using assms(2) by (intro applyCredentials_result [OF taken(1)]) (simp_all add: typed_input_def)
    have "UpdateConnection req table i input = Inr (if dialParametersChanged previous (written previous input)
           then (written previous input)\<lparr>sp_status := StatusOffline\<rparr> else written previous input)"
      by (simp add: UpdateConnection_def v assms(1) taken(1) r kind(2) written_def Let_def)
    then show ?thesis using True taken(2) by (auto simp: takes_def)
  qed
next
  case False
  have "editedKind table i (sp_kind input) = sp_kind input"
    using assms(2) by (simp add: editedKind_def typed_input_def)
  then have "validateConnectionFields req (editedKind table i (sp_kind input)) (sp_name input) (sp_endpoints input)
      (sp_timeoutSec input) \<noteq> Inr r" for r
    using False by (simp add: validate_iff)
  then show ?thesis using False
    by (cases "validateConnectionFields req (editedKind table i (sp_kind input)) (sp_name input)
        (sp_endpoints input) (sp_timeoutSec input)") (auto simp: UpdateConnection_def takes_def)
qed

lemma AddConnection_iff:
  assumes "typed_input input"
  shows "AddConnection req n table input = Inr p \<longleftrightarrow> takes req input \<and> p = written
    \<lparr>sp_id = n, sp_name = [], sp_group = [], sp_kind = KindZero, sp_endpoints = [], sp_timeoutSec = Fin 0,
     sp_mechanism = AuthZero, sp_status = StatusOffline, sp_lastCheck = u ''-'', sp_isDefault = (table = []),
     sp_remark = [], sp_options = [], sp_secrets = []\<rparr> input"
proof (cases "fields_ok req (sp_kind input) (sp_name input) (sp_endpoints input) (sp_timeoutSec input)")
  case True
  have kind: "sp_kind input \<noteq> KindZero" using assms by (simp add: typed_input_def)
  have v: "validateConnectionFields req (sp_kind input) (sp_name input) (sp_endpoints input) (sp_timeoutSec input)
      = Inr (TrimSpace (sp_name input), TrimSpace (sp_endpoints input))"
    using True by (simp add: validate_iff)
  show ?thesis
  proof (cases rule: acl_cases [of input])
    case (refused e)
    then show ?thesis using v kind by (simp add: AddConnection_def takes_def Let_def)
  next
    case (taken enable a k)
    have r: "applyCredentials c input enable a k = c\<lparr>sp_mechanism := sp_mechanism input,
        sp_secrets := kept_secrets (sp_mechanism input) (sp_secrets input)\<rparr>" for c
      using assms by (intro applyCredentials_result [OF taken(1)]) (simp_all add: typed_input_def)
    show ?thesis
      using True taken(2) by (auto simp: AddConnection_def v kind taken(1) r written_def takes_def Let_def)
  qed
next
  case False
  have "sp_kind input \<noteq> KindZero" using assms by (simp add: typed_input_def)
  moreover have "validateConnectionFields req (sp_kind input) (sp_name input) (sp_endpoints input)
      (sp_timeoutSec input) \<noteq> Inr r" for r
    using False by (simp add: validate_iff)
  ultimately show ?thesis using False
    by (cases "validateConnectionFields req (sp_kind input) (sp_name input) (sp_endpoints input) (sp_timeoutSec input)")
      (auto simp: AddConnection_def takes_def Let_def)
qed

text \<open>Writing a profile's own fields over it changes nothing.\<close>

definition settled :: "StoredProfile \<Rightarrow> bool" where
  "settled p \<longleftrightarrow> TrimSpace (sp_name p) = sp_name p \<and> TrimSpace (sp_endpoints p) = sp_endpoints p
     \<and> normalizeConnectionGroup (sp_group p) = sp_group p \<and> wf_secrets (sp_secrets p)
     \<and> kept_secrets (sp_mechanism p) (sp_secrets p) = sp_secrets p"

lemma wf_kept: "wf_secrets s \<Longrightarrow> acl_ok m s \<Longrightarrow> wf_secrets (kept_secrets m s)"
  using wf_SetSecret [OF wf_SetSecret [OF wf_other [of s]], of "u ''secretKey''" _ "u ''accessKey''"]
  by (auto simp: kept_secrets_def acl_ok_def simp flip: set_acl_pair)

lemma kept_twice [simp]: "kept_secrets m (kept_secrets m s) = kept_secrets m s"
  by (simp add: kept_secrets_def)

lemma settled_written: "typed_input input \<Longrightarrow> takes req input \<Longrightarrow> settled (written base input)"
  by (simp add: settled_def written_def typed_input_def takes_def wf_kept)

lemma acl_ok_kept: "acl_ok m (kept_secrets m s) \<longleftrightarrow> acl_ok m s"
  by (simp add: acl_ok_def kept_secrets_def)

end
