(* ===== verification/Connection_Reopen.thy ===== *)
theory Connection_Reopen
  imports Connection_Validation Connection_Store
begin

text \<open>
  A profile a form saved, opened again: the fields the form reads back submit the options they
  came from (\<open>same_draft\<close>), and the mechanism and the mode it submits keep the credentials as
  they are (\<open>same_credentials\<close>), provided the mechanism and the presence of secrets go together
  the way that family's submissions leave them (\<open>resolved_agrees\<close>). \<open>reopens\<close> names the drafts
  that do not come back as they were: a number that is not a whole one, a WebSocket path left
  blank, a NATS profile whose credentials were cleared under a mechanism that has options of its
  own, and a Service Bus policy name left blank.
\<close>

section \<open>Fields\<close>

definition whole :: "jsnum \<Rightarrow> bool" where
  "whole x = (case x of Fin r \<Rightarrow> r = of_int \<lfloor>r\<rfloor> \<and> 0 \<le> r \<and> r < 10 ^ 15 | _ \<Rightarrow> False)"

lemma whole_back:
  assumes "whole x"
  shows "parse_int (num_to_str x) = x" "x \<noteq> NaN" "\<not> x < Fin 0"
proof -
  obtain r where x: "x = Fin r" and r: "r = of_int \<lfloor>r\<rfloor>" "0 \<le> r" "r < 10 ^ 15"
    using assms by (auto simp: whole_def split: jsnum.splits)
  have "0 \<le> \<lfloor>r\<rfloor>" "\<lfloor>r\<rfloor> < 10 ^ 15" using r(2,3) by (simp_all add: floor_less_iff)
  from parse_int_num_to_str [OF this] show "parse_int (num_to_str x) = x" using r(1) x by simp
  show "x \<noteq> NaN" "\<not> x < Fin 0" using x r(2) by simp_all
qed

fun reopens :: "ProtocolDraft \<Rightarrow> bool" where
  "reopens (DraftRedis d) \<longleftrightarrow> whole (rd_db d)"
| "reopens (DraftMqtt d) \<longleftrightarrow> whole (md_keepAliveSec d) \<and> whole (md_sessionExpirySec d)
     \<and> (md_transport d = OverWs \<or> md_transport d = OverWss \<longrightarrow> \<not> is_blank (md_wsPath d))"
| "reopens (DraftNats d) \<longleftrightarrow> \<not> (dr_clearCredentials d \<and> (nd_mechanism d = NatsCreds \<or> nd_mechanism d = NatsMtls))"
| "reopens (DraftAzureServiceBus d) \<longleftrightarrow> \<not> is_blank (zd_keyName d)"
| "reopens _ \<longleftrightarrow> True"

definition reads :: "ConnectionDraft \<Rightarrow> AuthMechanism \<Rightarrow> bool \<Rightarrow> ConnectionView \<Rightarrow> bool" where
  "reads c m stored v \<longleftrightarrow> cv_kind v = cd_kind c \<and> cv_endpoints v = cd_endpoints c
     \<and> cv_options v = Some (cd_options c) \<and> cv_authMechanism v = m \<and> secrets_stored v = stored"

abbreviation draft_of :: "ProtocolDraft \<Rightarrow> ConnectionDraft" where
  "draft_of d \<equiv> sub_draft (toSubmission d)"

definition same_fields :: "ConnectionView \<Rightarrow> ConnectionDraft \<Rightarrow> bool" where
  "same_fields v c \<longleftrightarrow> cd_name c = trim (cv_name v) \<and> cd_group c = cv_group v \<and> cd_kind c = cv_kind v
     \<and> cd_endpoints c = cv_endpoints v \<and> cd_timeoutSec c = cv_timeoutSec v \<and> Some (cd_options c) = cv_options v
     \<and> cd_remark c = cv_remark v \<and> SetSecrets (cd_secrets c) [] = []"

lemmas submissions = rocketMQSubmission_def rabbitMQSubmission_def kafkaSubmission_def pulsarSubmission_def
  redisSubmission_def mqttSubmission_def natsSubmission_def activeMQSubmission_def nsqSubmission_def
  sqsSubmission_def googlePubSubSubmission_def azureServiceBusSubmission_def kinesisSubmission_def
  ibmMqSubmission_def solaceSubmission_def submission_def Let_def

lemmas readers = toRocketMQDraft_def toRabbitMQDraft_def toKafkaDraft_def toPulsarDraft_def toRedisDraft_def
  toMqttDraft_def toNatsDraft_def toActiveMQDraft_def toNsqDraft_def toSqsDraft_def toGooglePubSubDraft_def
  toAzureServiceBusDraft_def toKinesisDraft_def toIbmMqDraft_def toSolaceDraft_def option_of_def option_true_def

lemma blank_unless_simps [simp]: "blank_unless b [] = []" "blank_unless True s = s" "blank_unless False s = []" "trim (blank_unless b (trim s)) = blank_unless b (trim s)"
  "blank_unless b (blank_unless b s) = blank_unless b s"
  by (simp_all add: blank_unless_def)

lemma or_str_eq: "s \<noteq> [] \<Longrightarrow> or_str s d = s" "or_str s d = (if s = [] then d else s)"
  by (simp_all add: or_str_def)

lemma trim_or_str: "trim (or_str (trim s) d) = or_str (trim s) (trim d)"
  by (simp add: or_str_def)

lemma trim_literals: "trim (u ''/'') = u ''/''"
  by (simp add: js_eval)

lemma or_str_trim: "or_str (or_str (trim s) d) d' = or_str (trim s) d" if "d \<noteq> []"
  using that by (simp add: or_str_def)

lemma choice_str [simp]:
  "rocket_version_str x = u ''4.x'' \<longleftrightarrow> x = Rocket4" "(if x = Rocket4 then Rocket4 else Rocket5) = x"
  by (cases x; simp)+

lemma choice_str2 [simp]:
  "rocket_access_str y = u ''proxy'' \<longleftrightarrow> y = AccessProxy" "(if y = AccessProxy then AccessProxy else AccessNs) = y"
  by (cases y; simp)+

lemma choice_str3 [simp]:
  "scram_sha_str z = u ''256'' \<longleftrightarrow> z = Sha256" "(if z = Sha256 then Sha256 else Sha512) = z"
  by (cases z; simp)+

lemma choice_str4 [simp]:
  "mqtt_protocol_str w = u ''311'' \<longleftrightarrow> w = Mqtt311" "(if w = Mqtt311 then Mqtt311 else Mqtt5) = w"
  by (cases w; simp)+

lemma choice_str5 [simp]:
  "deployment_of (Some (deployment_str q)) = Some q" "transport_of (Some (transport_str r)) = Some r"
  by (cases q; simp add: deployment_of_def) (cases r; simp add: transport_of_def)

lemma parse_zero: "parse_int (u ''0'') = Fin 0" by (simp add: js_eval)

lemma same_rocketMQ: "reads (sub_draft (rocketMQSubmission d)) m b v \<Longrightarrow> same_fields v (draft_of (toDraft v))"
  by (simp add: reads_def same_fields_def toDraft_def submissions readers whole_back parse_zero)

lemma same_rabbitMQ: "reads (sub_draft (rabbitMQSubmission d)) m b v \<Longrightarrow> same_fields v (draft_of (toDraft v))"
  by (simp add: reads_def same_fields_def toDraft_def submissions readers whole_back parse_zero or_str_trim trim_or_str trim_literals)

lemma same_kafka: "reads (sub_draft (kafkaSubmission d)) m b v \<Longrightarrow> same_fields v (draft_of (toDraft v))"
  by (simp add: reads_def same_fields_def toDraft_def submissions readers whole_back parse_zero)

lemma same_pulsar: "reads (sub_draft (pulsarSubmission d)) m b v \<Longrightarrow> same_fields v (draft_of (toDraft v))"
  by (simp add: reads_def same_fields_def toDraft_def submissions readers whole_back parse_zero)

lemma same_redis: "reads (sub_draft (redisSubmission d)) m b v \<Longrightarrow> reopens (DraftRedis d) \<Longrightarrow> same_fields v (draft_of (toDraft v))"
  by (simp add: reads_def same_fields_def toDraft_def submissions readers whole_back parse_zero)

lemma same_nsq: "reads (sub_draft (nsqSubmission d)) m b v \<Longrightarrow> same_fields v (draft_of (toDraft v))"
  by (simp add: reads_def same_fields_def toDraft_def submissions readers whole_back parse_zero)

lemma same_sqs: "reads (sub_draft (sqsSubmission d)) m b v \<Longrightarrow> same_fields v (draft_of (toDraft v))"
  by (simp add: reads_def same_fields_def toDraft_def submissions readers whole_back parse_zero)

lemma same_googlePubSub: "reads (sub_draft (googlePubSubSubmission d)) m b v \<Longrightarrow> same_fields v (draft_of (toDraft v))"
  by (simp add: reads_def same_fields_def toDraft_def submissions readers whole_back parse_zero)

lemma same_activeMQ: "reads (sub_draft (activeMQSubmission d)) m b v \<Longrightarrow> same_fields v (draft_of (toDraft v))"
  by (simp add: reads_def same_fields_def toDraft_def submissions readers whole_back parse_zero)

lemma same_azureServiceBus: "reads (sub_draft (azureServiceBusSubmission d)) m b v \<Longrightarrow> reopens (DraftAzureServiceBus d) \<Longrightarrow> same_fields v (draft_of (toDraft v))"
  by (simp add: reads_def same_fields_def toDraft_def submissions readers whole_back parse_zero or_str_eq(1))

lemma same_kinesis: "reads (sub_draft (kinesisSubmission d)) m b v \<Longrightarrow> same_fields v (draft_of (toDraft v))"
  by (simp add: reads_def same_fields_def toDraft_def submissions readers whole_back parse_zero)

lemma same_ibmMq: "reads (sub_draft (ibmMqSubmission d)) m b v \<Longrightarrow> same_fields v (draft_of (toDraft v))"
  by (simp add: reads_def same_fields_def toDraft_def submissions readers whole_back parse_zero)

lemma same_solace: "reads (sub_draft (solaceSubmission d)) m b v \<Longrightarrow> same_fields v (draft_of (toDraft v))"
  by (simp add: reads_def same_fields_def toDraft_def submissions readers whole_back parse_zero)

lemma same_mqtt: "reads (sub_draft (mqttSubmission d)) m b v \<Longrightarrow> reopens (DraftMqtt d) \<Longrightarrow> same_fields v (draft_of (toDraft v))"
  by (cases "md_transport d = OverWs \<or> md_transport d = OverWss")
    (simp_all add: reads_def same_fields_def toDraft_def submissions readers whole_back parse_zero numberOption_def or_str_eq(1))

lemma same_nats:
  assumes "reads (sub_draft (natsSubmission d)) m b v"
    and "m = nats_stored_mechanism (nd_mechanism d) \<or> (m = AuthNone \<and> nd_mechanism d \<noteq> NatsCreds \<and> nd_mechanism d \<noteq> NatsMtls)"
  shows "same_fields v (draft_of (toDraft v))"
  using assms
  by (cases "nd_mechanism d"; elim disjE; simp add: reads_def same_fields_def toDraft_def submissions readers)

lemma resolved_nats: "reopens (DraftNats d) \<Longrightarrow> resolved_mechanism (natsSubmission d) = nats_stored_mechanism (nd_mechanism d)
    \<or> (resolved_mechanism (natsSubmission d) = AuthNone \<and> nd_mechanism d \<noteq> NatsCreds \<and> nd_mechanism d \<noteq> NatsMtls)"
  by (auto simp: resolved_mechanism_def natsSubmission_def submission_def Let_def mode_filling_def)

lemma same_draft:
  assumes "reads (draft_of d) (resolved_mechanism (toSubmission d)) b v" and "reopens d"
  shows "same_fields v (draft_of (toDraft v))"
  using assms resolved_nats
  by (cases d)
    (auto intro: same_rocketMQ same_rabbitMQ same_kafka same_pulsar same_redis same_mqtt same_nats same_activeMQ
      same_nsq same_sqs same_googlePubSub same_azureServiceBus same_kinesis same_ibmMq same_solace simp del: reopens.simps)

text \<open>How the mechanism a profile is left with and the presence of secrets go together.\<close>

fun agrees :: "ProtocolDraft \<Rightarrow> AuthMechanism \<Rightarrow> bool \<Rightarrow> bool" where
  "agrees (DraftRocketMQ d) m b \<longleftrightarrow> (b \<longleftrightarrow> m \<noteq> AuthNone)"
| "agrees (DraftRedis d) m b \<longleftrightarrow> (b \<longleftrightarrow> m \<noteq> AuthNone)"
| "agrees (DraftSqs d) m b \<longleftrightarrow> (b \<longleftrightarrow> m \<noteq> AuthNone)"
| "agrees (DraftGooglePubSub d) m b \<longleftrightarrow> (b \<longleftrightarrow> m \<noteq> AuthNone)"
| "agrees (DraftAzureServiceBus d) m b \<longleftrightarrow> (b \<longleftrightarrow> m \<noteq> AuthNone)"
| "agrees (DraftKinesis d) m b \<longleftrightarrow> (b \<longleftrightarrow> m \<noteq> AuthNone)"
| "agrees (DraftRabbitMQ d) m b \<longleftrightarrow> (b \<longrightarrow> m \<noteq> AuthNone)"
| "agrees (DraftKafka d) m b \<longleftrightarrow> (b \<longrightarrow> m \<noteq> AuthNone)"
| "agrees (DraftPulsar d) m b \<longleftrightarrow> (b \<longrightarrow> m \<noteq> AuthNone)"
| "agrees (DraftNsq d) m b \<longleftrightarrow> \<not> b"
| "agrees _ m b \<longleftrightarrow> True"

lemmas reopening = reads_def toDraft_def submissions readers resolved_mechanism_def mode_filling_def keepStored_def

lemma same_credentials:
  assumes "reads (draft_of d) (resolved_mechanism (toSubmission d)) b v" and "agrees d (resolved_mechanism (toSubmission d)) b"
    and "accepted (toDraft v)"
  shows "(b \<longrightarrow> sub_mode (toSubmission (toDraft v)) = ModePreserve)
    \<and> resolved_mechanism (toSubmission (toDraft v)) = resolved_mechanism (toSubmission d)"
proof (cases d)
  case (DraftRabbitMQ x)
  then show ?thesis using assms
    by (auto simp: reopening invalid_reason_def rabbitmq_invalid_def accept_iff split: if_splits)
next
  case (DraftKafka x)
  then show ?thesis using assms by (cases "kd_mechanism x") (auto simp: reopening split: if_splits)
next
  case (DraftPulsar x)
  then show ?thesis using assms by (cases "pd_auth x") (auto simp: reopening split: if_splits)
next
  case (DraftMqtt x)
  then show ?thesis using assms by (cases "md_mechanism x") (auto simp: reopening split: if_splits)
next
  case (DraftNats x)
  then show ?thesis using assms by (cases "nd_mechanism x") (auto simp: reopening split: if_splits)
next
  case (DraftActiveMQ x)
  then show ?thesis using assms by (cases "ad_mechanism x") (auto simp: reopening split: if_splits)
next
  case (DraftIbmMq x)
  then show ?thesis using assms by (cases "bd_mechanism x") (auto simp: reopening split: if_splits)
next
  case (DraftSolace x)
  then show ?thesis using assms by (cases "od_mechanism x") (auto simp: reopening split: if_splits)
qed (use assms in \<open>auto simp: reopening split: if_splits\<close>)

fun draft_stored :: "ProtocolDraft \<Rightarrow> bool" where
  "draft_stored (DraftRocketMQ d) = dr_credentialsStored d"
| "draft_stored (DraftRabbitMQ d) = dr_credentialsStored d"
| "draft_stored (DraftKafka d) = dr_credentialsStored d"
| "draft_stored (DraftPulsar d) = dr_credentialsStored d"
| "draft_stored (DraftRedis d) = dr_credentialsStored d"
| "draft_stored (DraftMqtt d) = dr_credentialsStored d"
| "draft_stored (DraftNats d) = dr_credentialsStored d"
| "draft_stored (DraftActiveMQ d) = dr_credentialsStored d"
| "draft_stored (DraftNsq d) = False"
| "draft_stored (DraftSqs d) = dr_credentialsStored d"
| "draft_stored (DraftGooglePubSub d) = dr_credentialsStored d"
| "draft_stored (DraftAzureServiceBus d) = dr_credentialsStored d"
| "draft_stored (DraftKinesis d) = dr_credentialsStored d"
| "draft_stored (DraftIbmMq d) = dr_credentialsStored d"
| "draft_stored (DraftSolace d) = dr_credentialsStored d"

text \<open>Filling from a table that holds something leaves something.\<close>

definition reserved_free :: "attributes \<Rightarrow> bool" where
  "reserved_free s \<longleftrightarrow> other_secrets s = s"

lemma other_secrets_Secret:
  "k \<noteq> u ''accessKey'' \<Longrightarrow> k \<noteq> u ''secretKey'' \<Longrightarrow> Secret (other_secrets s) k = Secret s k"
proof -
  assume k: "k \<noteq> u ''accessKey''" "k \<noteq> u ''secretKey''"
  have "map_of (other_secrets s) k = map_of s k"
    unfolding other_secrets_def using k by (induction s) auto
  then show ?thesis by (simp add: Secret_def)
qed

lemma Secret_nonempty: "wf_secrets s \<Longrightarrow> (k, v) \<in> set s \<Longrightarrow> Secret s k = v \<and> v \<noteq> []"
  by (auto simp: wf_secrets_def Secret_def list_all_iff)

definition holds :: "attributes \<Rightarrow> bool" where
  "holds s \<longleftrightarrow> other_secrets s \<noteq> []"

lemma other_empty: "other_secrets s = [] \<longleftrightarrow> \<not> holds s"
  by (simp add: holds_def)

lemma holds_Nil [simp]: "\<not> holds []"
  by (simp add: holds_def other_secrets_def)

lemma holds_iff:
  assumes "wf_secrets s"
  shows "holds s \<longleftrightarrow> (\<exists>k. k \<noteq> u ''accessKey'' \<and> k \<noteq> u ''secretKey'' \<and> Secret s k \<noteq> [])"
proof
  assume "holds s"
  then obtain k v where "(k, v) \<in> set (other_secrets s)" by (cases "other_secrets s") (auto simp: holds_def)
  then have "(k, v) \<in> set s" "k \<noteq> u ''accessKey''" "k \<noteq> u ''secretKey''" by (auto simp: other_secrets_def)
  then show "\<exists>k. k \<noteq> u ''accessKey'' \<and> k \<noteq> u ''secretKey'' \<and> Secret s k \<noteq> []"
    using Secret_nonempty [OF assms] by blast
next
  assume "\<exists>k. k \<noteq> u ''accessKey'' \<and> k \<noteq> u ''secretKey'' \<and> Secret s k \<noteq> []"
  then obtain k where k: "k \<noteq> u ''accessKey''" "k \<noteq> u ''secretKey''" "Secret s k \<noteq> []" by blast
  then have "Secret (other_secrets s) k \<noteq> []" by (simp add: other_secrets_Secret)
  then show "holds s" by (auto simp: holds_def)
qed

lemma holds_SetSecrets:
  assumes "distinct (map fst kvs)" and "list_all (\<lambda>(k, v). k \<noteq> u ''accessKey'' \<and> k \<noteq> u ''secretKey'') kvs"
  shows "holds (SetSecrets kvs []) \<longleftrightarrow> list_ex (\<lambda>(k, v). v \<noteq> []) kvs"
proof -
  have "holds (SetSecrets kvs []) \<longleftrightarrow> (\<exists>k v. k \<noteq> u ''accessKey'' \<and> k \<noteq> u ''secretKey'' \<and> map_of kvs k = Some v \<and> v \<noteq> [])"
  proof -
    have "Secret (SetSecrets kvs []) k \<noteq> [] \<longleftrightarrow> (\<exists>v. map_of kvs k = Some v \<and> v \<noteq> [])" for k
      using assms(1) by (cases "map_of kvs k") (simp_all add: SetSecrets_Secret)
    then show ?thesis by (simp add: holds_iff)
  qed
  also have "\<dots> \<longleftrightarrow> (\<exists>k v. k \<noteq> u ''accessKey'' \<and> k \<noteq> u ''secretKey'' \<and> (k, v) \<in> set kvs \<and> v \<noteq> [])"
    using assms(1) by (simp only: map_of_eq_Some_iff)
  also have "\<dots> \<longleftrightarrow> list_ex (\<lambda>(k, v). v \<noteq> []) kvs"
    using assms(2) by (auto simp: list_ex_iff list_all_iff)
  finally show ?thesis .
qed

lemma holds_filled:
  assumes "wf_secrets stored" and "reserved_free stored" and "stored \<noteq> []" and "wf_secrets typed"
  shows "holds (fill_blanks stored typed)"
proof -
  have "holds stored" using assms(2,3) by (simp add: holds_def reserved_free_def)
  then show ?thesis
    using assms(1,4) by (auto simp: holds_iff fill_blanks_Secret)
qed

lemmas resolving = submissions resolved_mechanism_def mode_filling_def keepStored_def resolved_secrets_def kept_secrets_def
  holds_SetSecrets

lemma resolved_agrees:
  assumes "accepted d" and "wf_secrets stored" and "draft_stored d \<Longrightarrow> stored \<noteq> []"
    and "cd_kind (draft_of d) \<noteq> KindRocketMQ \<Longrightarrow> reserved_free stored"
    and "acl_ok (resolved_mechanism (toSubmission d)) (resolved_secrets stored (toSubmission d))"
  shows "agrees d (resolved_mechanism (toSubmission d))
    (kept_secrets (resolved_mechanism (toSubmission d)) (resolved_secrets stored (toSubmission d)) \<noteq> [])"
proof (cases d)
  case (DraftRocketMQ x)
  then show ?thesis using assms(3)
    by (auto simp: submissions resolved_mechanism_def mode_filling_def keepStored_def resolved_secrets_def kept_secrets_def
      acl_pair_def other_secrets_def)
next
  case (DraftKafka x)
  then show ?thesis by (cases "kd_mechanism x") (auto simp: resolving other_secrets_def)
next
  case (DraftPulsar x)
  then show ?thesis by (cases "pd_auth x") (auto simp: resolving other_secrets_def)
next
  case (DraftRabbitMQ x)
  then show ?thesis by (auto simp: resolving other_secrets_def)
next
  case (DraftNsq x)
  then show ?thesis by (auto simp: resolving other_secrets_def)
qed (use assms holds_filled [OF assms(2) _ assms(3)] in
  \<open>auto simp: resolving other_empty simp del: SetSecrets.simps split: if_splits\<close>)

end
