(* ===== verification/Connection_Edit.thy ===== *)
theory Connection_Edit
  imports Connection_Reopen
begin

text \<open>
  The dialog and the service together: what becomes of a profile that is opened, edited and
  saved, on every family.
\<close>

section \<open>Opening and saving\<close>

fun draft_cleared :: "ProtocolDraft \<Rightarrow> bool" where
  "draft_cleared (DraftRocketMQ d) = dr_clearCredentials d"
| "draft_cleared (DraftRabbitMQ d) = dr_clearCredentials d"
| "draft_cleared (DraftKafka d) = dr_clearCredentials d"
| "draft_cleared (DraftPulsar d) = dr_clearCredentials d"
| "draft_cleared (DraftRedis d) = dr_clearCredentials d"
| "draft_cleared (DraftMqtt d) = dr_clearCredentials d"
| "draft_cleared (DraftNats d) = dr_clearCredentials d"
| "draft_cleared (DraftActiveMQ d) = dr_clearCredentials d"
| "draft_cleared (DraftNsq d) = False"
| "draft_cleared (DraftSqs d) = dr_clearCredentials d"
| "draft_cleared (DraftGooglePubSub d) = dr_clearCredentials d"
| "draft_cleared (DraftAzureServiceBus d) = dr_clearCredentials d"
| "draft_cleared (DraftKinesis d) = dr_clearCredentials d"
| "draft_cleared (DraftIbmMq d) = dr_clearCredentials d"
| "draft_cleared (DraftSolace d) = dr_clearCredentials d"

text \<open>
  A profile saved from a draft: as a new connection, or over a stored profile of its family, of
  which the form was told whether it holds a credential.
\<close>

inductive saved :: "(MQKind \<Rightarrow> bool) \<Rightarrow> int \<Rightarrow> ProtocolDraft \<Rightarrow> StoredProfile \<Rightarrow> bool" for req i d where
  saved_new: "AddSubmission req i table (toSubmission d) = Inr p \<Longrightarrow> \<not> draft_stored d \<Longrightarrow> \<not> draft_cleared d \<Longrightarrow> saved req i d p"
| saved_edit: "UpdateSubmission req table i (toSubmission d) = Inr p \<Longrightarrow> map_of table i = Some previous
    \<Longrightarrow> wf_secrets (sp_secrets previous) \<Longrightarrow> (cd_kind (draft_of d) \<noteq> KindRocketMQ \<Longrightarrow> reserved_free (sp_secrets previous))
    \<Longrightarrow> (draft_stored d \<Longrightarrow> sp_secrets previous \<noteq> []) \<Longrightarrow> saved req i d p"

text \<open>Without a stored credential the mode adds nothing to what was typed.\<close>

lemma resolved_new:
  assumes "\<not> draft_stored d" and "\<not> draft_cleared d"
  shows "resolved_secrets [] (toSubmission d) = SetSecrets (cd_secrets (draft_of d)) []"
    "resolved_mechanism (toSubmission d) = cd_authMechanism (draft_of d)"
  using assms by (cases d; auto simp: submissions resolved_mechanism_def mode_filling_def keepStored_def resolved_secrets_def
      elim: kafka_stored_mechanism.elims)+

lemma draft_typed: "cd_kind (draft_of d) \<noteq> KindZero \<and> resolved_mechanism (toSubmission d) \<noteq> AuthZero
    \<and> trim (cd_name (draft_of d)) = cd_name (draft_of d) \<and> trim (cd_endpoints (draft_of d)) = cd_endpoints (draft_of d)"
proof -
  have m: "kafka_stored_mechanism a \<noteq> AuthZero" for a by (cases a) simp_all
  moreover have "nats_stored_mechanism a \<noteq> AuthZero" for a by (cases a) simp_all
  moreover have "plain_mechanism a \<noteq> AuthZero" for a by (cases a) simp_all
  ultimately show ?thesis by (cases d) (auto simp: submissions resolved_mechanism_def)
qed

lemma TrimSpace_trimmed:
  assumes "trim s = s" and "133 \<notin> set s"
  shows "TrimSpace s = s"
proof -
  have "s = [] \<or> \<not> is_ws (hd s) \<and> \<not> is_ws (last s)" using trim_by_ends [of is_ws s] assms(1) by (simp add: trim_by_is_ws)
  moreover have "s \<noteq> [] \<Longrightarrow> hd s \<noteq> 133 \<and> last s \<noteq> 133" using assms(2) by (metis hd_in_set last_in_set)
  ultimately show ?thesis unfolding TrimSpace_def by (intro trim_by_idle) (auto simp: go_space_def)
qed

definition resolved_input :: "ProtocolDraft \<Rightarrow> attributes \<Rightarrow> StoredProfile" where
  "resolved_input d stored = (input_profile (draft_of d))\<lparr>sp_secrets := resolved_secrets stored (toSubmission d),
     sp_mechanism := resolved_mechanism (toSubmission d)\<rparr>"

lemma typed_resolved [simp]: "wf_secrets stored \<Longrightarrow> typed_input (resolved_input d stored)"
  using draft_typed [of d] by (simp add: typed_input_def resolved_input_def input_profile_def)

text \<open>Whichever way it was saved, the profile has the fields of the draft and the resolved credentials.\<close>

lemma saved_fields:
  assumes "saved req i d p" and "i \<noteq> 0"
  obtains stored base status where "p = (written base (resolved_input d stored))\<lparr>sp_status := status\<rparr>"
    "takes req (resolved_input d stored)" "wf_secrets stored" "draft_stored d \<Longrightarrow> stored \<noteq> []"
    "cd_kind (draft_of d) \<noteq> KindRocketMQ \<Longrightarrow> reserved_free stored"
  using assms(1)
proof cases
  case (saved_new table)
  have "input_profile (draft_of d) = resolved_input d []"
    using resolved_new [OF saved_new(2,3)] by (simp add: resolved_input_def input_profile_def)
  then have a: "AddConnection req i table (resolved_input d []) = Inr p"
    using saved_new(1) by (simp add: AddSubmission_def)
  have t: "typed_input (resolved_input d [])" by simp
  from a obtain base where "takes req (resolved_input d [])" "p = written base (resolved_input d [])"
    using AddConnection_iff [OF t] by blast
  moreover have "p = p\<lparr>sp_status := sp_status p\<rparr>" by simp
  ultimately show ?thesis using that [where base = base and stored = "[]" and status = "sp_status p"] saved_new(2) by (simp add: reserved_free_def other_secrets_def)
next
  case (saved_edit table previous)
  let ?in = "resolved_input d (sp_secrets previous)"
  have "UpdateConnection req table i ?in = Inr p"
    using saved_edit(1) UpdateSubmission_eq [OF assms(2) saved_edit(2)] by (simp add: resolved_input_def)
  then have "takes req ?in" "p = written previous ?in \<or> p = (written previous ?in)\<lparr>sp_status := StatusOffline\<rparr>"
    using UpdateConnection_iff [OF saved_edit(2) typed_resolved [OF saved_edit(3)]] by (auto split: if_splits)
  moreover have "p = p\<lparr>sp_status := sp_status p\<rparr>" by simp
  ultimately obtain status where "p = (written previous ?in)\<lparr>sp_status := status\<rparr>" by metis
  then show ?thesis using that [where base = previous and stored = "sp_secrets previous" and status = status] saved_edit \<open>takes req ?in\<close> by blast
qed

lemma redacted [simp]:
  "cv_name (redactConnection p) = sp_name p" "cv_group (redactConnection p) = sp_group p"
  "cv_kind (redactConnection p) = sp_kind p" "cv_endpoints (redactConnection p) = sp_endpoints p"
  "cv_timeoutSec (redactConnection p) = sp_timeoutSec p" "cv_authMechanism (redactConnection p) = sp_mechanism p"
  "cv_options (redactConnection p) = Some (sp_options p)" "cv_remark (redactConnection p) = sp_remark p"
  "cv_secretsConfigured (redactConnection p) = ConfiguredSecrets (sp_secrets p)"
  by (simp_all add: redactConnection_def)

text \<open>
  C15: Opening a saved connection and saving it again with nothing touched changes nothing, on
  every family: the profile the service stores is the one it had, secrets and status included.
  The draft it was saved from must be one its form reads back (\<open>reopens\<close>) and the reopened form
  must accept it; the name and the address hold no U+0085, which only Go trims.
\<close>

theorem untouched_edit_changes_nothing:
  assumes "saved req i d p" and "i \<noteq> 0" and "map_of table i = Some p"
    and "accepted d" and "reopens d" and "accepted (toDraft (redactConnection p))"
    and "133 \<notin> set (cd_name (draft_of d))" and "133 \<notin> set (cd_endpoints (draft_of d))"
  shows "UpdateSubmission req table i (toSubmission (toDraft (redactConnection p))) = Inr p"
proof -
  obtain stored base status where p: "p = (written base (resolved_input d stored))\<lparr>sp_status := status\<rparr>"
    and takes: "takes req (resolved_input d stored)" and stored: "wf_secrets stored" "draft_stored d \<Longrightarrow> stored \<noteq> []"
      "cd_kind (draft_of d) \<noteq> KindRocketMQ \<Longrightarrow> reserved_free stored"
    by (rule saved_fields [OF assms(1,2)]) blast
  define m where "m = resolved_mechanism (toSubmission d)"
  define s where "s = resolved_secrets stored (toSubmission d)"
  have acl: "acl_ok m s" using takes by (simp add: takes_def resolved_input_def m_def s_def)
  have wf: "wf_secrets s" using stored(1) by (simp add: s_def)
  have name: "TrimSpace (cd_name (draft_of d)) = cd_name (draft_of d)"
    "TrimSpace (cd_endpoints (draft_of d)) = cd_endpoints (draft_of d)"
    using draft_typed [of d] assms(7,8) by (simp_all add: TrimSpace_trimmed)
  have f: "sp_name p = cd_name (draft_of d)" "sp_endpoints p = cd_endpoints (draft_of d)" "sp_kind p = cd_kind (draft_of d)"
    "sp_options p = cd_options (draft_of d)" "sp_mechanism p = m" "sp_secrets p = kept_secrets m s"
    "normalizeConnectionGroup (sp_group p) = sp_group p"
    by (simp_all add: p written_def resolved_input_def input_profile_def name m_def s_def)
  have wfk: "wf_secrets (kept_secrets m s)" by (rule wf_kept [OF wf acl])
  let ?v = "redactConnection p"
  have v: "reads (draft_of d) m (kept_secrets m s \<noteq> []) ?v"
    using ConfiguredSecrets_empty [OF wfk] by (simp add: reads_def f secrets_stored_def)
  have same: "same_fields ?v (draft_of (toDraft ?v))"
    by (rule same_draft [OF v [unfolded m_def] assms(5)])
  have "agrees d m (kept_secrets m s \<noteq> [])"
    unfolding m_def s_def using assms(4) stored acl by (intro resolved_agrees) (simp_all add: m_def s_def)
  from same_credentials [OF v [unfolded m_def] this [unfolded m_def] assms(6)]
  have mode: "kept_secrets m s \<noteq> [] \<Longrightarrow> sub_mode (toSubmission (toDraft ?v)) = ModePreserve"
    and m': "resolved_mechanism (toSubmission (toDraft ?v)) = m" by (simp_all add: m_def)
  have s': "resolved_secrets (sp_secrets p) (toSubmission (toDraft ?v)) = sp_secrets p"
    using mode same wfk by (cases "kept_secrets m s = []")
      (simp_all add: resolved_secrets_def same_fields_def f split: CredentialsMode.split)
  define c where "c = draft_of (toDraft ?v)"
  have c: "cd_name c = sp_name p" "cd_group c = sp_group p" "cd_kind c = sp_kind p" "cd_endpoints c = sp_endpoints p"
    "cd_timeoutSec c = sp_timeoutSec p" "cd_options c = sp_options p" "cd_remark c = sp_remark p"
    using same draft_typed [of d] by (simp_all add: same_fields_def c_def [symmetric] f)
  let ?in = "resolved_input (toDraft ?v) (sp_secrets p)"
  have w: "written p ?in = p"
    by (simp add: written_def resolved_input_def input_profile_def c_def [symmetric] c m' s')
      (simp add: f name)
  have "takes req ?in"
    using takes acl by (simp add: takes_def fields_ok_def resolved_input_def input_profile_def c_def [symmetric] c m' s')
      (simp add: f name acl_ok_kept p written_def resolved_input_def input_profile_def m_def [symmetric] s_def [symmetric])
  moreover have "\<not> dialParametersChanged p p" by (simp add: dialParametersChanged_def maps_equal_def list_all_iff)
  moreover have "typed_input ?in" using wfk by (simp add: f)
  ultimately have "UpdateConnection req table i ?in = Inr p"
    using UpdateConnection_iff [OF assms(3), of ?in req p] w by simp
  then show ?thesis using UpdateSubmission_eq [OF assms(2,3)] by (simp add: resolved_input_def)
qed

text \<open>A RabbitMQ connection as the examples use it.\<close>

definition sample_rabbit :: RabbitMQDraft where
  "sample_rabbit = emptyRabbitMQDraft\<lparr>dr_name := u ''r'', rb_management := u ''r'', rb_username := u ''r''\<rparr>"

definition sample_stored :: StoredProfile where
  "sample_stored = \<lparr>sp_id = 1, sp_name = u ''r'', sp_group = [], sp_kind = KindRabbitMQ, sp_endpoints = u ''r'',
     sp_timeoutSec = Fin 5, sp_mechanism = AuthPlain, sp_status = StatusOffline, sp_lastCheck = u ''-'', sp_isDefault = True,
     sp_remark = [], sp_options = [(u ''vhost'', u ''/''), (u ''amqpEndpoint'', []), (u ''tls'', u ''false''),
       (u ''tlsSkipVerify'', u ''false'')],
     sp_secrets = [(u ''username'', u ''r'')]\<rparr>"

lemma sample_strings: "trim (u ''r'') = u ''r''" "133 \<notin> set (u ''r'')" "hasEndpoint (u ''r'')" "TrimSpace (u ''r'') = u ''r''"
proof -
  show t: "trim (u ''r'') = u ''r''" "133 \<notin> set (u ''r'')" by (simp_all add: js_eval)
  show "hasEndpoint (u ''r'')" by (simp add: hasEndpoint_def u_def)
  show "TrimSpace (u ''r'') = u ''r''" by (rule TrimSpace_trimmed) (fact t)+
qed

lemmas sample_eval = sample_rabbit_def emptyRabbitMQDraft_def DEFAULT_TIMEOUT_SEC_def rabbitMQSubmission_def submission_def
  sample_strings trim_literals or_str_def Let_def keepStored_def

lemma sample_resaved: "AddSubmission (\<lambda>_. True) 1 [] (toSubmission (DraftRabbitMQ sample_rabbit)) = Inr sample_stored"
  by (simp add: sample_eval AddSubmission_def AddConnection_def input_profile_def validateConnectionFields_def
      normalizeACLConfig_def ACLEnabled_def SetSecret_def applyCredentials_def SetACL_def other_secrets_def
      normalizeConnectionGroup_def bool_str_def sample_stored_def)

lemma sample_accepted: "accepted (DraftRabbitMQ sample_rabbit)" "accepted (toDraft (redactConnection sample_stored))"
  by (simp_all add: sample_eval accept_iff invalid_reason_def rabbitmq_invalid_def shared_draft.defs toDraft_def
      toRabbitMQDraft_def redactConnection_def sample_stored_def secrets_stored_def ConfiguredSecrets_def)

theorem untouched_edit_changes_nothing_witness:
  "UpdateSubmission (\<lambda>_. True) [(1, sample_stored)] 1 (toSubmission (toDraft (redactConnection sample_stored))) = Inr sample_stored"
proof (rule untouched_edit_changes_nothing [where d = "DraftRabbitMQ sample_rabbit"])
  show "saved (\<lambda>_. True) 1 (DraftRabbitMQ sample_rabbit) sample_stored"
    by (rule saved_new [OF sample_resaved]) (simp_all add: sample_eval)
  show "133 \<notin> set (cd_name (draft_of (DraftRabbitMQ sample_rabbit)))"
    "133 \<notin> set (cd_endpoints (draft_of (DraftRabbitMQ sample_rabbit)))"
    by (simp_all add: sample_eval)
qed (simp_all add: sample_accepted)

section \<open>The secrets an edit leaves\<close>

text \<open>
  The forms with one credential resubmit it whole as soon as a part of it is typed; the others
  fill every blank secret from the store.
\<close>

fun fills_blanks :: "ProtocolDraft \<Rightarrow> bool" where
  "fills_blanks (DraftRabbitMQ d) = False"
| "fills_blanks (DraftKafka d) = False"
| "fills_blanks (DraftPulsar d) = False"
| "fills_blanks (DraftRedis d) = False"
| "fills_blanks _ = True"

text \<open>Anonymous is a choice on Kafka and Pulsar, and it removes what is stored.\<close>

fun turned_off :: "ProtocolDraft \<Rightarrow> bool" where
  "turned_off (DraftKafka d) \<longleftrightarrow> kd_mechanism d = KafkaNone"
| "turned_off (DraftPulsar d) \<longleftrightarrow> pd_auth d = PulsarNone"
| "turned_off _ \<longleftrightarrow> False"

definition typed_secret :: "ProtocolDraft \<Rightarrow> jsstr \<Rightarrow> jsstr" where
  "typed_secret d k = nullish (map_of (cd_secrets (draft_of d)) k) []"

definition typed_any :: "ProtocolDraft \<Rightarrow> bool" where
  "typed_any d \<longleftrightarrow> list_ex (\<lambda>(k, v). v \<noteq> []) (cd_secrets (draft_of d))"

lemma mode_exact:
  "sub_mode (toSubmission d) =
    (if draft_cleared d \<or> turned_off d then ModeClear
     else if draft_stored d \<and> (fills_blanks d \<or> \<not> typed_any d) then ModePreserve else ModeReplace)"
  by (cases d) (auto simp: submissions mode_filling_def keepStored_def typed_any_def)

lemma typed_keys: "distinct (map fst (cd_secrets (draft_of d)))"
  by (cases d) (simp_all add: submissions)

lemma Secret_kept:
  assumes "k \<noteq> u ''accessKey''" and "k \<noteq> u ''secretKey''"
  shows "Secret (kept_secrets m s) k = Secret s k"
proof -
  have "map_of (acl_pair a b) k = None" for a b using assms by (simp add: acl_pair_def)
  then have "Secret (other_secrets s @ acl_pair a b) k = Secret (other_secrets s) k" for a b
    by (simp add: Secret_def map_add_def split: option.splits)
  then show ?thesis using other_secrets_Secret [OF assms] by (simp add: kept_secrets_def)
qed

text \<open>The pair of RocketMQ's ACL: only its form writes it, and any other save drops it.\<close>

fun writes_acl :: "ProtocolDraft \<Rightarrow> bool" where
  "writes_acl (DraftRocketMQ d) = True"
| "writes_acl _ = False"

lemma writes_acl_iff: "writes_acl d \<longleftrightarrow> (\<exists>x. d = DraftRocketMQ x)"
  by (cases d) auto

lemma Secret_kept_acl:
  assumes "k = u ''accessKey'' \<or> k = u ''secretKey''"
  shows "Secret (kept_secrets m s) k = (if m = AuthACL then TrimSpace (Secret s k) else [])"
proof -
  have "map_of (other_secrets s) k = None" using assms other_keys [of s] by (metis map_of_eq_None_iff)
  then have "Secret (other_secrets s) k = []" by (simp add: Secret_def)
  then show ?thesis using assms by (auto simp: kept_secrets_def)
qed

lemma only_rocketmq_acl: "cd_authMechanism (draft_of d) = AuthACL \<Longrightarrow> \<exists>x. d = DraftRocketMQ x"
proof -
  have m: "kafka_stored_mechanism a \<noteq> AuthACL" for a by (cases a) simp_all
  moreover have "nats_stored_mechanism a \<noteq> AuthACL" for a by (cases a) simp_all
  moreover have "plain_mechanism a \<noteq> AuthACL" for a by (cases a) simp_all
  ultimately show "cd_authMechanism (draft_of d) = AuthACL \<Longrightarrow> \<exists>x. d = DraftRocketMQ x"
    by (cases d) (auto simp: submissions split: if_splits)
qed

text \<open>The value a save settles on, before the service files it.\<close>

definition edited_secret :: "ProtocolDraft \<Rightarrow> attributes \<Rightarrow> jsstr \<Rightarrow> jsstr" where
  "edited_secret d stored k =
    (if draft_cleared d \<or> turned_off d then []
     else if typed_secret d k = [] \<and> draft_stored d \<and> (fills_blanks d \<or> \<not> typed_any d) then Secret stored k
     else typed_secret d k)"

lemma Secret_resolved:
  "wf_secrets stored \<Longrightarrow> Secret (resolved_secrets stored (toSubmission d)) k = edited_secret d stored k"
  using typed_keys [of d]
  by (cases "draft_cleared d \<or> turned_off d"; cases "draft_stored d \<and> (fills_blanks d \<or> \<not> typed_any d)")
    (auto simp: edited_secret_def resolved_secrets_def mode_exact typed_secret_def SetSecrets_Secret preserved_Secret)

lemma acl_mechanism:
  "resolved_mechanism (toSubmission d) = AuthACL \<Longrightarrow> writes_acl d"
  "writes_acl d \<Longrightarrow> k = u ''accessKey'' \<or> k = u ''secretKey'' \<Longrightarrow> edited_secret d stored k \<noteq> [] \<Longrightarrow>
     resolved_mechanism (toSubmission d) = AuthACL"
proof -
  show "resolved_mechanism (toSubmission d) = AuthACL \<Longrightarrow> writes_acl d"
    using only_rocketmq_acl by (auto simp: resolved_mechanism_def writes_acl_iff split: if_splits)
  assume "writes_acl d" and k: "k = u ''accessKey'' \<or> k = u ''secretKey''" and "edited_secret d stored k \<noteq> []"
  then obtain x where x: "d = DraftRocketMQ x" by (auto simp: writes_acl_iff)
  then have nc: "\<not> draft_cleared d" and some: "typed_secret d k \<noteq> [] \<or> draft_stored d"
    using \<open>edited_secret d stored k \<noteq> []\<close> by (auto simp: edited_secret_def split: if_splits)
  then have "sub_mode (toSubmission d) \<noteq> ModeClear" using x mode_exact [of d] by simp
  then show "resolved_mechanism (toSubmission d) = AuthACL"
    using x nc some k by (auto simp: resolved_mechanism_def submissions keepStored_def typed_secret_def split: if_splits)
qed



fun retypes_half :: "ProtocolDraft \<Rightarrow> bool" where
  "retypes_half (DraftRabbitMQ d) \<longleftrightarrow> is_blank (rb_username d) \<and> \<not> is_blank (rb_password d)"
| "retypes_half (DraftKafka d) \<longleftrightarrow> kd_mechanism d \<noteq> KafkaNone \<and> is_blank (kd_username d) \<and> \<not> is_blank (kd_password d)"
| "retypes_half (DraftRedis d) \<longleftrightarrow> is_blank (rd_username d) \<and> \<not> is_blank (rd_password d)"
| "retypes_half _ \<longleftrightarrow> False"

text \<open>
  On RabbitMQ, Kafka and Redis, retyping the password alone loses the stored user name: the
  form accepts the draft, since a credential is stored, and the submission replaces the pair.
\<close>

lemma retyping_half_loses_half:
  assumes "UpdateSubmission req table i (toSubmission d) = Inr p" and "i \<noteq> 0" and "map_of table i = Some previous"
    and "wf_secrets (sp_secrets previous)" and "retypes_half d" and "\<not> draft_cleared d"
  shows "Secret (sp_secrets p) (u ''username'') = [] \<and> Secret (sp_secrets p) (u ''password'') \<noteq> []"
proof -
  let ?in = "resolved_input d (sp_secrets previous)"
  have "UpdateConnection req table i ?in = Inr p"
    using assms(1) UpdateSubmission_eq [OF assms(2,3)] by (simp add: resolved_input_def)
  then have "sp_secrets p = kept_secrets (sp_mechanism ?in) (sp_secrets ?in)"
    using UpdateConnection_iff [OF assms(3) typed_resolved [OF assms(4)]] by (auto simp: written_def split: if_splits)
  then have p: "k \<noteq> u ''accessKey'' \<Longrightarrow> k \<noteq> u ''secretKey'' \<Longrightarrow>
      Secret (sp_secrets p) k = Secret (resolved_secrets (sp_secrets previous) (toSubmission d)) k" for k
    using Secret_kept by (simp add: resolved_input_def)
  have m: "sub_mode (toSubmission d) = ModeReplace"
    using assms(5,6) by (cases d) (auto simp: submissions keepStored_def)
  have "typed_secret d (u ''username'') = []" "typed_secret d (u ''password'') \<noteq> []"
    using assms(5) by (cases d; auto simp: submissions typed_secret_def)+
  then show ?thesis
    using typed_keys [of d] by (simp add: p resolved_secrets_def m typed_secret_def SetSecrets_Secret)
qed

lemma sample_retyped_saved:
  "\<exists>p. UpdateSubmission (\<lambda>_. True) [(1, sample_stored)] 1 (toSubmission (DraftRabbitMQ (sample_rabbit
     \<lparr>dr_credentialsStored := True, rb_username := [], rb_password := u ''r''\<rparr>))) = Inr p"
  by (simp add: sample_eval UpdateSubmission_def applyCredentialsMode_def UpdateConnection_def input_profile_def editedKind_def
      validateConnectionFields_def normalizeACLConfig_def ACLEnabled_def Let_def)

lemma sample_retyped_accepted:
  "accepted (DraftRabbitMQ (sample_rabbit\<lparr>dr_credentialsStored := True, rb_username := [], rb_password := u ''r''\<rparr>))"
  by (simp add: sample_eval accept_iff invalid_reason_def rabbitmq_invalid_def shared_draft.defs)

text \<open>What is typed after the clear control was used is dropped, and the profile is anonymous.\<close>

lemma cleared_drops_typed:
  "draft_cleared d \<Longrightarrow> resolved_secrets stored (toSubmission d) = [] \<and> resolved_mechanism (toSubmission d) = AuthNone"
  by (simp add: mode_exact resolved_secrets_def resolved_mechanism_def)

text \<open>
  A secret the form no longer submits stays in the store of a form that fills blanks: NATS
  switched from a token to a password keeps the token, ActiveMQ without its acceptor keeps the
  acceptor's account.
\<close>

lemma dropped_secret_stays:
  assumes "wf_secrets stored" and "draft_stored d" and "\<not> draft_cleared d" and "fills_blanks d" and "typed_secret d k = []"
  shows "Secret (resolved_secrets stored (toSubmission d)) k = Secret stored k"
proof -
  have "\<not> turned_off d" using assms(4) by (cases d) auto
  then show ?thesis using assms typed_keys [of d]
    by (simp add: mode_exact resolved_secrets_def preserved_Secret typed_secret_def)
qed

lemma nats_old_token_stays: "nd_mechanism x = NatsPlain \<Longrightarrow> typed_secret (DraftNats x) (u ''token'') = []"
  by (simp add: typed_secret_def submissions)

lemma activemq_old_account_stays: "is_blank (ad_amqpUrl x) \<Longrightarrow> typed_secret (DraftActiveMQ x) (u ''amqpPassword'') = []"
  by (simp add: typed_secret_def submissions)

section \<open>What the service takes\<close>

text \<open>No string of the draft holds U+0085, which Go calls white space and JavaScript does not.\<close>

definition plain_text :: "ProtocolDraft \<Rightarrow> bool" where
  "plain_text d \<longleftrightarrow> 133 \<notin> set (cd_name (draft_of d)) \<and> 133 \<notin> set (cd_endpoints (draft_of d))
     \<and> list_all (\<lambda>(k, v). 133 \<notin> set v) (cd_secrets (draft_of d))"

fun half_pair :: "ProtocolDraft \<Rightarrow> bool" where
  "half_pair (DraftRocketMQ d) \<longleftrightarrow> is_blank (rk_accessKey d) \<noteq> is_blank (rk_secretKey d)"
| "half_pair _ \<longleftrightarrow> False"

lemma new_acl_ok:
  assumes "plain_text d" and "\<not> draft_stored d"
  shows "acl_ok (cd_authMechanism (draft_of d)) (SetSecrets (cd_secrets (draft_of d)) []) \<longleftrightarrow> \<not> half_pair d"
proof (cases "\<exists>x. d = DraftRocketMQ x")
  case True
  then obtain x where d: "d = DraftRocketMQ x" by blast
  have "TrimSpace (trim (rk_accessKey x)) = trim (rk_accessKey x)" "TrimSpace (trim (rk_secretKey x)) = trim (rk_secretKey x)"
    using assms(1) by (simp_all add: d plain_text_def submissions TrimSpace_trimmed)
  then show ?thesis using assms(2)
    by (auto simp: d submissions acl_ok_def keepStored_def Secret_SetSecret)
next
  case False
  then have "cd_authMechanism (draft_of d) \<noteq> AuthACL" "\<not> half_pair d"
    using only_rocketmq_acl by (blast, cases d) auto
  then show ?thesis by (simp add: acl_ok_def)
qed

text \<open>
  C20: A new draft the form accepts is taken by the service, except an address that is only separators on a
  family that needs one, and half an ACL pair on RocketMQ, which the form lets through - for drafts whose
  name, address and secrets hold no U+0085 (Go trims that character and JavaScript does not: a name of
  nothing else is accepted by the form and refused by the service).
\<close>

theorem accepted_draft_is_taken:
  assumes "accepted d" and "plain_text d" and "\<not> draft_stored d"
  shows "(\<exists>p. AddSubmission req n table (toSubmission d) = Inr p) \<longleftrightarrow>
    (req (cd_kind (draft_of d)) \<longrightarrow> hasEndpoint (cd_endpoints (draft_of d))) \<and> \<not> half_pair d"
proof -
  let ?in = "input_profile (draft_of d)"
  have typed: "typed_input ?in"
  proof -
    have "kafka_stored_mechanism a \<noteq> AuthZero" for a by (cases a) simp_all
    moreover have "nats_stored_mechanism a \<noteq> AuthZero" for a by (cases a) simp_all
    moreover have "plain_mechanism a \<noteq> AuthZero" for a by (cases a) simp_all
    ultimately have "cd_authMechanism (draft_of d) \<noteq> AuthZero" by (cases d) (auto simp: submissions)
    then show ?thesis using draft_typed [of d] by (simp add: typed_input_def input_profile_def)
  qed
  have name: "TrimSpace (cd_name (draft_of d)) = cd_name (draft_of d)"
    "TrimSpace (cd_endpoints (draft_of d)) = cd_endpoints (draft_of d)"
    using draft_typed [of d] assms(2) by (simp_all add: plain_text_def TrimSpace_trimmed)
  have shared: "cd_name (draft_of d) = trim (dr_name (draft_shared d))" "cd_timeoutSec (draft_of d) = dr_timeoutSec (draft_shared d)"
    by (cases d; simp add: submissions shared_draft.defs)+
  have "cd_name (draft_of d) \<noteq> []" "\<not> (cd_timeoutSec (draft_of d) < Fin 0 \<or> Fin 300 < cd_timeoutSec (draft_of d))"
    using assms(1) by (simp_all add: shared invalid_reason_def accept_iff Let_def)
  then have "takes req ?in \<longleftrightarrow> (req (cd_kind (draft_of d)) \<longrightarrow> hasEndpoint (cd_endpoints (draft_of d))) \<and> \<not> half_pair d"
    using new_acl_ok [OF assms(2,3)] by (simp add: takes_def fields_ok_def input_profile_def name)
  then show ?thesis using AddConnection_iff [OF typed, of req n table] by (simp add: AddSubmission_def)
qed

theorem accepted_draft_is_taken_witness:
  "\<exists>p. AddSubmission (\<lambda>_. True) 1 [] (toSubmission (DraftRabbitMQ sample_rabbit)) = Inr p"
  using accepted_draft_is_taken [OF sample_accepted(1), of "\<lambda>_. True" 1 "[]"]
  by (simp add: plain_text_def sample_eval)

text \<open>Half a pair passes the form and is refused by the service.\<close>

lemma half_pair_refused:
  "accepted (DraftRocketMQ d) \<Longrightarrow> half_pair (DraftRocketMQ d) \<Longrightarrow> plain_text (DraftRocketMQ d) \<Longrightarrow>
     \<not> dr_credentialsStored d \<Longrightarrow> \<not> acl_ok (cd_authMechanism (draft_of (DraftRocketMQ d)))
       (SetSecrets (cd_secrets (draft_of (DraftRocketMQ d))) [])"
  using new_acl_ok [of "DraftRocketMQ d"] by simp

end
