(* ===== verification/Json_Tokens.thy ===== *)
theory Json_Tokens
  imports Js_Text
begin

text \<open>
  The colouring scanner of the message editor (\<open>lib/jsonTokens.ts\<close>): one regular expression
  applied again and again from where it last stopped, and whatever it stepped over called plain.
  Each alternative of the expression is a function from the text at a position to the length it
  matches there. The loop is a partial function, since a global expression that matched the empty
  string would never move on; that it does return, with every character in one token, is proved.
\<close>

section \<open>The alternatives of the expression\<close>

text \<open>What \<open>.\<close> does not match.\<close>

definition is_line_end :: "int \<Rightarrow> bool" where
  "is_line_end c \<longleftrightarrow> c = 10 \<or> c = 13 \<or> c = 8232 \<or> c = 8233"

text \<open>\<open>(?:[^"\\\n]|\\.)*"?\<close>, after the opening quote.\<close>

fun string_rest :: "jsstr \<Rightarrow> nat" where
  "string_rest [] = 0"
| "string_rest (c # cs) =
     (if c = 34 then 1
      else if c = 10 then 0
      else if c = 92 then (case cs of [] \<Rightarrow> 0 | d # ds \<Rightarrow> if is_line_end d then 0 else 2 + string_rest ds)
      else 1 + string_rest cs)"

definition match_string :: "jsstr \<Rightarrow> nat option" where
  "match_string s = (case s of c # cs \<Rightarrow> if c = 34 then Some (1 + string_rest cs) else None | [] \<Rightarrow> None)"

definition word_at :: "jsstr \<Rightarrow> bool" where
  "word_at s = (case s of c # _ \<Rightarrow> is_word c | [] \<Rightarrow> False)"

text \<open>\<open>\b(?:true|false|null)\b\<close>: \<open>joined\<close> is whether the character before is a word character.\<close>

definition whole_word :: "bool \<Rightarrow> jsstr \<Rightarrow> jsstr \<Rightarrow> bool" where
  "whole_word joined w s \<longleftrightarrow> \<not> joined \<and> starts_with s w \<and> \<not> word_at (drop (length w) s)"

definition match_literal :: "bool \<Rightarrow> jsstr \<Rightarrow> nat option" where
  "match_literal joined s =
    (if whole_word joined (u ''true'') s then Some 4
     else if whole_word joined (u ''false'') s then Some 5
     else if whole_word joined (u ''null'') s then Some 4 else None)"

text \<open>\<open>[A-Za-z_$][\w$]*\<close>\<close>

definition match_name :: "jsstr \<Rightarrow> nat option" where
  "match_name s = (case s of
     c # cs \<Rightarrow> if is_alpha c \<or> c = 95 \<or> c = 36 then Some (1 + length (takeWhile (\<lambda>x. is_word x \<or> x = 36) cs)) else None
   | [] \<Rightarrow> None)"

definition digits_len :: "jsstr \<Rightarrow> nat" where
  "digits_len s = length (takeWhile is_digit s)"

text \<open>\<open>(?:\.\d+)?\<close> and \<open>(?:[eE][+-]?\d+)?\<close>\<close>

definition fraction_len :: "jsstr \<Rightarrow> nat" where
  "fraction_len s = (case s of c # cs \<Rightarrow> if c = 46 \<and> 0 < digits_len cs then 1 + digits_len cs else 0 | [] \<Rightarrow> 0)"

definition exponent_len :: "jsstr \<Rightarrow> nat" where
  "exponent_len s = (case s of
     c # cs \<Rightarrow> if c = 101 \<or> c = 69 then
         (let sign = (case cs of d # _ \<Rightarrow> if d = 43 \<or> d = 45 then 1 else 0 | [] \<Rightarrow> 0); n = digits_len (drop sign cs)
          in if 0 < n then 1 + sign + n else 0)
       else 0
   | [] \<Rightarrow> 0)"

definition match_number :: "jsstr \<Rightarrow> nat option" where
  "match_number s =
    (let sign = (case s of c # _ \<Rightarrow> if c = 45 then 1 else 0 | [] \<Rightarrow> 0);
         whole = digits_len (drop sign s);
         fraction = fraction_len (drop (sign + whole) s);
         exponent = exponent_len (drop (sign + whole + fraction) s)
     in if whole = 0 then None else Some (sign + whole + fraction + exponent))"

definition is_punct :: "int \<Rightarrow> bool" where
  "is_punct c \<longleftrightarrow> c = 123 \<or> c = 125 \<or> c = 91 \<or> c = 93 \<or> c = 44 \<or> c = 58"

definition match_punct :: "jsstr \<Rightarrow> nat option" where
  "match_punct s = (case s of c # _ \<Rightarrow> if is_punct c then Some 1 else None | [] \<Rightarrow> None)"

text \<open>The first alternative that matches at a position.\<close>

definition first_match :: "nat option \<Rightarrow> nat option \<Rightarrow> nat option" where
  "first_match a b = (case a of None \<Rightarrow> b | Some n \<Rightarrow> Some n)"

definition match_at :: "jsstr \<Rightarrow> nat \<Rightarrow> nat option" where
  "match_at source i =
    (let s = drop i source; joined = (0 < i \<and> word_at (drop (i - 1) source)) in
     first_match (match_string s) (first_match (match_literal joined s)
       (first_match (match_name s) (first_match (match_number s) (match_punct s)))))"

text \<open>\<open>exec\<close> from \<open>lastIndex\<close>: the first position with a match, and its length.\<close>

function exec :: "jsstr \<Rightarrow> nat \<Rightarrow> (nat \<times> nat) option" where
  "exec source i = (if length source < i then None
     else (case match_at source i of Some n \<Rightarrow> Some (i, n) | None \<Rightarrow> exec source (Suc i)))"
  by pat_completeness auto
termination
  by (relation "measure (\<lambda>(source, i). Suc (length source) - i)") auto

declare exec.simps [simp del]

section \<open>Kinds\<close>

datatype JsonTokenKind = TokKey | TokString | TokNumber | TokLiteral | TokPunct | TokPlain

record JsonToken =
  tok_kind :: JsonTokenKind
  tok_text :: jsstr

definition slice :: "jsstr \<Rightarrow> nat \<Rightarrow> nat \<Rightarrow> jsstr" where
  "slice s i j = take (j - i) (drop i s)"

fun beforeColon :: "jsstr \<Rightarrow> bool" where
  "beforeColon [] \<longleftrightarrow> False"
| "beforeColon (c # cs) \<longleftrightarrow> (if c = 32 \<or> c = 9 \<or> c = 10 \<or> c = 13 then beforeColon cs else c = 58)"

definition kindOf :: "jsstr \<Rightarrow> jsstr \<Rightarrow> nat \<Rightarrow> JsonTokenKind" where
  "kindOf text source after =
    (if starts_with text [34] then (if beforeColon (drop after source) then TokKey else TokString)
     else if text = u ''true'' \<or> text = u ''false'' \<or> text = u ''null'' then TokLiteral
     else if length text = 1 \<and> list_all is_punct text then TokPunct
     else (case text of c # _ \<Rightarrow> if c = 45 \<or> is_digit c then TokNumber else TokPlain | [] \<Rightarrow> TokPlain))"

section \<open>The loop\<close>

text \<open>\<open>plainFrom\<close> and \<open>lastIndex\<close> are one number between two rounds of the loop.\<close>

definition plain_token :: "jsstr \<Rightarrow> nat \<Rightarrow> nat \<Rightarrow> JsonToken list" where
  "plain_token source i j = (if i < j then [\<lparr>tok_kind = TokPlain, tok_text = slice source i j\<rparr>] else [])"

partial_function (option) token_loop :: "jsstr \<Rightarrow> nat \<Rightarrow> JsonToken list \<Rightarrow> JsonToken list option" where
  "token_loop source plainFrom tokens = (case exec source plainFrom of
     None \<Rightarrow> Some (tokens @ plain_token source plainFrom (length source))
   | Some (i, n) \<Rightarrow> token_loop source (i + n)
       (tokens @ plain_token source plainFrom i
        @ [\<lparr>tok_kind = kindOf (slice source i (i + n)) source (i + n), tok_text = slice source i (i + n)\<rparr>]))"

declare token_loop.simps [code]

definition tokenizeJson :: "jsstr \<Rightarrow> JsonToken list option" where
  "tokenizeJson source = token_loop source 0 []"

section \<open>Every match takes something and stays inside the text\<close>

lemma string_rest_le: "string_rest s \<le> length s"
  by (induction s rule: string_rest.induct) (auto split: list.splits)

lemma digits_len_le: "digits_len s \<le> length s"
  unfolding digits_len_def by (rule length_takeWhile_le)

lemma fraction_len_le: "fraction_len s \<le> length s"
  using digits_len_le [of "tl s"] by (auto simp: fraction_len_def split: list.splits)

lemma exponent_len_le: "exponent_len s \<le> length s"
proof (cases s)
  case (Cons c cs)
  have "digits_len (drop k cs) \<le> length cs - k" for k using digits_len_le [of "drop k cs"] by simp
  from this [of 0] this [of 1] show ?thesis
    by (auto simp: exponent_len_def Cons Let_def split: list.splits if_splits)
qed (simp add: exponent_len_def)

lemma match_number_in:
  assumes "match_number s = Some n"
  shows "0 < n \<and> n \<le> length s"
proof -
  define sign :: nat where "sign = (case s of c # _ \<Rightarrow> if c = 45 then 1 else 0 | [] \<Rightarrow> 0)"
  define whole where "whole = digits_len (drop sign s)"
  define fraction where "fraction = fraction_len (drop (sign + whole) s)"
  define exponent where "exponent = exponent_len (drop (sign + whole + fraction) s)"
  have n: "whole \<noteq> 0" "n = sign + whole + fraction + exponent"
    using assms by (auto simp: match_number_def Let_def sign_def whole_def fraction_def exponent_def split: if_splits)
  have "sign \<le> length s" by (auto simp: sign_def split: list.splits)
  moreover have "whole \<le> length s - sign" using digits_len_le [of "drop sign s"] by (simp add: whole_def)
  moreover have "fraction \<le> length s - (sign + whole)"
    using fraction_len_le [of "drop (sign + whole) s"] by (simp add: fraction_def)
  moreover have "exponent \<le> length s - (sign + whole + fraction)"
    using exponent_len_le [of "drop (sign + whole + fraction) s"] by (simp add: exponent_def)
  ultimately show ?thesis using n by linarith
qed

lemma starts_with_length: "starts_with s p \<Longrightarrow> length p \<le> length s"
  unfolding starts_with_def by (metis length_take min.cobounded1)

lemma match_in:
  assumes "match_at source i = Some n"
  shows "0 < n \<and> i + n \<le> length source"
proof -
  let ?s = "drop i source"
  have w: "length (u t) = length t" for t by (simp add: u_def)
  have lit: "match_literal b ?s = Some n \<Longrightarrow> 0 < n \<and> n \<le> length ?s" for b
    using starts_with_length [of ?s "u ''true''"] starts_with_length [of ?s "u ''false''"] starts_with_length [of ?s "u ''null''"]
    by (auto simp: match_literal_def whole_word_def w split: if_splits)
  have str: "match_string ?s = Some n \<Longrightarrow> 0 < n \<and> n \<le> length ?s"
    using string_rest_le [of "tl ?s"] by (cases ?s) (auto simp: match_string_def split: if_splits)
  have nam: "match_name ?s = Some n \<Longrightarrow> 0 < n \<and> n \<le> length ?s"
    by (cases ?s) (auto simp: match_name_def length_takeWhile_le split: if_splits)
  have pun: "match_punct ?s = Some n \<Longrightarrow> 0 < n \<and> n \<le> length ?s"
    by (cases ?s) (auto simp: match_punct_def split: if_splits)
  have "0 < n \<and> n \<le> length ?s"
    using assms lit str nam pun match_number_in [of ?s n]
    by (auto simp: match_at_def first_match_def Let_def split: option.splits)
  then show ?thesis by auto
qed

lemma exec_in: "exec source i = Some (j, n) \<Longrightarrow> i \<le> j \<and> 0 < n \<and> j + n \<le> length source"
proof (induction source i rule: exec.induct)
  case (1 source i)
  show ?case
  proof (cases "match_at source i")
    case None
    then have "exec source (Suc i) = Some (j, n)" using 1(2) by (subst (asm) exec.simps) (simp split: if_splits)
    then show ?thesis using 1 None by (auto simp: exec.simps [of source i] split: if_splits)
  next
    case (Some m)
    then have "j = i" "n = m" using 1(2) by (subst (asm) exec.simps; simp split: if_splits)+
    then show ?thesis using match_in [OF Some] by simp
  qed
qed

text \<open>A list of tokens that spells a text, none of them empty.\<close>

definition spells :: "JsonToken list \<Rightarrow> jsstr \<Rightarrow> bool" where
  "spells ts s \<longleftrightarrow> concat (map tok_text ts) = s \<and> list_all (\<lambda>t. tok_text t \<noteq> []) ts"

lemma spells_append: "spells ts s \<Longrightarrow> spells us t \<Longrightarrow> spells (ts @ us) (s @ t)"
  by (auto simp: spells_def)

lemma take_slice: "i \<le> j \<Longrightarrow> take i s @ slice s i j = take j s"
  unfolding slice_def by (metis add_diff_inverse_nat not_less take_add)

lemma spells_plain: "i \<le> j \<Longrightarrow> j \<le> length s \<Longrightarrow> spells (plain_token s i j) (slice s i j)"
  by (auto simp: spells_def plain_token_def slice_def)

lemma token_loop_returns:
  "p \<le> length source \<Longrightarrow> spells tokens (take p source) \<Longrightarrow> \<exists>ts. token_loop source p tokens = Some ts \<and> spells ts source"
proof (induction "length source - p" arbitrary: p tokens rule: less_induct)
  case less
  show ?case
  proof (cases "exec source p")
    case None
    have "spells (tokens @ plain_token source p (length source)) (take p source @ slice source p (length source))"
      using less.prems by (intro spells_append spells_plain) simp_all
    then show ?thesis using None less.prems(1) by (simp add: token_loop.simps [of source p] take_slice)
  next
    case (Some r)
    obtain i n where r: "r = (i, n)" by (cases r) auto
    have b: "p \<le> i" "0 < n" "i + n \<le> length source" using exec_in Some r by auto
    let ?t = "\<lparr>tok_kind = kindOf (slice source i (i + n)) source (i + n), tok_text = slice source i (i + n)\<rparr>"
    have "spells [?t] (slice source i (i + n))"
      using b by (simp add: spells_def slice_def)
    then have "spells (tokens @ plain_token source p i @ [?t]) (take p source @ slice source p i @ slice source i (i + n))"
      using less.prems(2) b by (intro spells_append spells_plain) simp_all
    moreover have "take p source @ slice source p i @ slice source i (i + n) = take (i + n) source"
      using b by (simp add: take_slice flip: append_assoc)
    ultimately have "\<exists>ts. token_loop source (i + n) (tokens @ plain_token source p i @ [?t]) = Some ts \<and> spells ts source"
      using b by (intro less.hyps) simp_all
    then show ?thesis using Some r by (simp add: token_loop.simps [of source p])
  qed
qed

lemma spells_length: "spells ts s \<Longrightarrow> length ts \<le> length s"
proof (induction ts arbitrary: s)
  case (Cons t ts)
  then have "spells ts (concat (map tok_text ts))" "tok_text t \<noteq> []" "s = tok_text t @ concat (map tok_text ts)"
    by (auto simp: spells_def)
  then show ?case using Cons.IH by (cases "tok_text t") fastforce+
qed simp

text \<open>
  C32: The scanner's loop ends on every text, and the tokens it returns spell the text: every
  character is in exactly one token, in order, and no token is empty, so there are at most as
  many tokens as characters.
\<close>

theorem tokens_spell_the_source:
  "\<exists>ts. tokenizeJson source = Some ts \<and> concat (map tok_text ts) = source
     \<and> list_all (\<lambda>t. tok_text t \<noteq> []) ts \<and> length ts \<le> length source"
proof -
  have "spells [] (take 0 source)" by (simp add: spells_def)
  from token_loop_returns [OF _ this] obtain ts where "token_loop source 0 [] = Some ts" "spells ts source" by auto
  then show ?thesis using spells_length by (auto simp: tokenizeJson_def spells_def)
qed

end
