(* ===== verification/Throughput_History.thy ===== *)
theory Throughput_History
  imports Broker_Model
begin

text \<open>
  The overview's throughput chart (\<open>lib/throughputHistory.ts\<close>): the samples of every broker are
  put into buckets of a minute inside an hour's window and summed, and the buckets are cut into
  ranges without a gap. Proved: what the buckets hold, that they fit the chart, and where the
  ranges are cut. The \<open>Map\<close> of the code is an association list in insertion order.
  \<open>Date.now()\<close> is the parameter \<open>now\<close>.
\<close>

definition THROUGHPUT_HISTORY_MINUTES :: jsnum where
  "THROUGHPUT_HISTORY_MINUTES = Fin 60"

definition THROUGHPUT_SAMPLE_MS :: jsnum where
  "THROUGHPUT_SAMPLE_MS = Fin 60000"

definition THROUGHPUT_CONTINUOUS_GAP_MS :: jsnum where
  "THROUGHPUT_CONTINUOUS_GAP_MS = num_mul THROUGHPUT_SAMPLE_MS (Fin 2)"

record ThroughputHistory =
  th_timestamps :: "jsnum list"
  th_inbound :: "jsnum list"
  th_outbound :: "jsnum list"

definition toMillis :: "jsnum \<Rightarrow> jsnum" where
  "toMillis timestamp = (if timestamp < Fin 1000000000000 then num_mul timestamp (Fin 1000) else timestamp)"

definition validTPS :: "jsnum option \<Rightarrow> jsnum" where
  "validTPS value = (case value of Some v \<Rightarrow> if is_finite v \<and> Fin 0 \<le> v then v else Fin 0 | None \<Rightarrow> Fin 0)"

text \<open>\<open>Math.floor(t / THROUGHPUT_SAMPLE_MS) * THROUGHPUT_SAMPLE_MS\<close>\<close>

definition minute_of :: "jsnum \<Rightarrow> jsnum" where
  "minute_of t = num_mul (num_floor (num_div t THROUGHPUT_SAMPLE_MS)) THROUGHPUT_SAMPLE_MS"

definition throughputWindow :: "jsnum \<Rightarrow> jsnum \<times> jsnum" where
  "throughputWindow now = (let end_ms = minute_of now in
     (num_sub end_ms (num_mul (num_sub THROUGHPUT_HISTORY_MINUTES (Fin 1)) THROUGHPUT_SAMPLE_MS), end_ms))"

text \<open>\<open>xs[xs.length - n + i]\<close> where it is in range: the last \<open>n\<close> entries, aligned at the end.\<close>

definition aligned :: "'a list \<Rightarrow> nat \<Rightarrow> nat \<Rightarrow> 'a option" where
  "aligned xs n i = (if n \<le> length xs + i then at_index xs (length xs + i - n) else None)"

record point =
  pt_inbound :: jsnum
  pt_outbound :: jsnum

type_synonym buckets = "(jsnum \<times> point) list"

text \<open>One sample of a broker: its bucket and what it adds.\<close>

definition sample_of :: "jsnum \<Rightarrow> Node \<Rightarrow> nat \<Rightarrow> nat \<Rightarrow> jsnum \<times> point" where
  "sample_of windowEnd broker n i =
    (let raw = aligned (nullish (node_tpsHistoryTimestamps broker) []) n i;
         fallbackStart = num_sub windowEnd (num_mul (Fin (of_nat (n - 1))) THROUGHPUT_SAMPLE_MS);
         timestamp = (case raw of None \<Rightarrow> num_add fallbackStart (num_mul (Fin (of_nat i)) THROUGHPUT_SAMPLE_MS)
                      | Some t \<Rightarrow> toMillis t);
         inbound = nullish (node_tpsInHistory broker) []; outbound = nullish (node_tpsOutHistory broker) []
     in (minute_of timestamp,
         \<lparr>pt_inbound = validTPS (if n \<le> length inbound + i then aligned inbound n i else Some (Fin 0)),
          pt_outbound = validTPS (if n \<le> length outbound + i then aligned outbound n i else Some (Fin 0))\<rparr>))"

definition add_sample :: "jsnum \<Rightarrow> jsnum \<Rightarrow> jsnum \<times> point \<Rightarrow> buckets \<Rightarrow> buckets" where
  "add_sample windowStart windowEnd s bs =
    (let (t, x) = s in
     if t < windowStart \<or> windowEnd < t then bs
     else (let p = nullish (map_of bs t) \<lparr>pt_inbound = Fin 0, pt_outbound = Fin 0\<rparr>
           in AList.update t \<lparr>pt_inbound = num_add (pt_inbound p) (pt_inbound x),
                              pt_outbound = num_add (pt_outbound p) (pt_outbound x)\<rparr> bs))"

fun add_samples :: "jsnum \<Rightarrow> jsnum \<Rightarrow> (jsnum \<times> point) list \<Rightarrow> buckets \<Rightarrow> buckets" where
  "add_samples windowStart windowEnd [] bs = bs"
| "add_samples windowStart windowEnd (s # ss) bs = add_samples windowStart windowEnd ss (add_sample windowStart windowEnd s bs)"

text \<open>The samples of one broker, oldest first.\<close>

definition samples_of :: "jsnum \<Rightarrow> Node \<Rightarrow> (jsnum \<times> point) list" where
  "samples_of windowEnd broker =
    (let n = max (length (nullish (node_tpsInHistory broker) [])) (length (nullish (node_tpsOutHistory broker) []))
     in map (sample_of windowEnd broker n) [0..<n])"

fun bucket_brokers :: "jsnum \<Rightarrow> jsnum \<Rightarrow> Node list \<Rightarrow> buckets \<Rightarrow> buckets" where
  "bucket_brokers windowStart windowEnd [] bs = bs"
| "bucket_brokers windowStart windowEnd (b # brokers) bs =
     bucket_brokers windowStart windowEnd brokers (add_samples windowStart windowEnd (samples_of windowEnd b) bs)"

definition aggregateThroughputHistory :: "Node list \<Rightarrow> jsnum \<Rightarrow> ThroughputHistory" where
  "aggregateThroughputHistory brokers now =
    (let windowEnd = minute_of now;
         windowStart = num_sub windowEnd (num_mul (num_sub THROUGHPUT_HISTORY_MINUTES (Fin 1)) THROUGHPUT_SAMPLE_MS);
         buckets = bucket_brokers windowStart windowEnd brokers [];
         timestamps = sort_by num_cmp (map fst buckets)
     in \<lparr>th_timestamps = timestamps,
         th_inbound = map (\<lambda>t. nullish (map_option pt_inbound (map_of buckets t)) (Fin 0)) timestamps,
         th_outbound = map (\<lambda>t. nullish (map_option pt_outbound (map_of buckets t)) (Fin 0)) timestamps\<rparr>)"

section \<open>Ranges without a gap\<close>

text \<open>\<open>(timestamps[i] ?? 0) - (timestamps[i - 1] ?? 0) <= maxGap\<close>\<close>

definition joined :: "jsnum list \<Rightarrow> jsnum \<Rightarrow> nat \<Rightarrow> bool" where
  "joined timestamps maxGap i \<longleftrightarrow>
     num_sub (nullish (at_index timestamps i) (Fin 0)) (nullish (at_index timestamps (i - 1)) (Fin 0)) \<le> maxGap"

text \<open>The loop from \<open>index\<close>, with \<open>k\<close> rounds to go.\<close>

fun range_loop :: "jsnum list \<Rightarrow> jsnum \<Rightarrow> nat \<Rightarrow> nat \<Rightarrow> nat \<Rightarrow> (nat \<times> nat) list \<Rightarrow> (nat \<times> nat) list" where
  "range_loop ts maxGap start index 0 ranges = ranges @ [(start, length ts - 1)]"
| "range_loop ts maxGap start index (Suc k) ranges =
     (if joined ts maxGap index then range_loop ts maxGap start (Suc index) k ranges
      else range_loop ts maxGap index (Suc index) k (ranges @ [(start, index - 1)]))"

definition continuousHistoryRanges :: "jsnum list \<Rightarrow> jsnum \<Rightarrow> (nat \<times> nat) list" where
  "continuousHistoryRanges timestamps maxGap =
    (if timestamps = [] then [] else range_loop timestamps maxGap 0 1 (length timestamps - 1) [])"

section \<open>The ranges cut the history at its gaps\<close>

definition gaps :: "jsnum list \<Rightarrow> jsnum \<Rightarrow> nat list" where
  "gaps ts maxGap = filter (\<lambda>i. i = 0 \<or> \<not> joined ts maxGap i) [0..<length ts]"

definition spans :: "(nat \<times> nat) list \<Rightarrow> nat list" where
  "spans rs = concat (map (\<lambda>(s, e). [s..<Suc e]) rs)"

lemma spans_append [simp]: "spans (rs @ rs') = spans rs @ spans rs'" "spans [] = []" "spans [(s, e)] = [s..<Suc e]"
  by (simp_all add: spans_def)

lemma range_loop_cuts:
  assumes "start < index" and "index + k = length ts"
  shows "map fst (range_loop ts g start index k rs) = map fst rs @ start # filter (Not \<circ> joined ts g) [index..<length ts]
    \<and> spans (range_loop ts g start index k rs) = spans rs @ [start..<length ts]
    \<and> (list_all (\<lambda>(s, e). s \<le> e) (range_loop ts g start index k rs) = list_all (\<lambda>(s, e). s \<le> e) rs)"
  using assms
proof (induction k arbitrary: start index rs)
  case 0
  then show ?case by (cases "length ts") auto
next
  case (Suc k)
  then have cut: "[index..<length ts] = index # [Suc index..<length ts]"
    by (simp add: upt_conv_Cons)
  show ?case
  proof (cases "joined ts g index")
    case True
    then show ?thesis using Suc.IH [of start "Suc index" rs] Suc.prems by (simp add: cut)
  next
    case False
    have "[start..<index] @ [index..<length ts] = [start..<length ts]"
      using Suc.prems by (metis le_add1 less_imp_le_nat upt_add_eq_append le_add_diff_inverse)
    then show ?thesis
      using False Suc.IH [of index "Suc index" "rs @ [(start, index - 1)]"] Suc.prems le_diff_conv2 [of 1 index start] by (auto simp: cut simp del: upt_Suc)
  qed
qed

text \<open>
  The ranges of the chart cut the history exactly at its gaps: a range starts at the first
  point and wherever the step from the point before exceeds the gap allowed, none is empty, and
  laid end to end they are all the points, in order.
\<close>

lemma ranges_cut_at_gaps:
  "map fst (continuousHistoryRanges ts maxGap) = gaps ts maxGap
   \<and> spans (continuousHistoryRanges ts maxGap) = [0..<length ts]
   \<and> list_all (\<lambda>(s, e). s \<le> e) (continuousHistoryRanges ts maxGap)"
proof (cases "ts = []")
  case True
  then show ?thesis by (simp add: continuousHistoryRanges_def gaps_def)
next
  case False
  have "filter (\<lambda>i. i = 0 \<or> \<not> joined ts maxGap i) [1..<length ts] = filter (Not \<circ> joined ts maxGap) [1..<length ts]"
    by (rule filter_cong) auto
  moreover have "[0..<length ts] = 0 # [1..<length ts]" using False by (simp add: upt_conv_Cons)
  ultimately show ?thesis
    using False range_loop_cuts [of 0 1 "length ts - 1" ts maxGap "[]"]
    by (simp add: continuousHistoryRanges_def gaps_def)
qed

section \<open>The buckets are the sums of the samples\<close>

definition in_window :: "jsnum \<Rightarrow> jsnum \<times> 'a \<Rightarrow> bool" where
  "in_window now s \<longleftrightarrow> \<not> (fst s < fst (throughputWindow now) \<or> snd (throughputWindow now) < fst s)"

text \<open>The samples of all brokers that fall into the window, in the order they are read.\<close>

definition window_samples :: "Node list \<Rightarrow> jsnum \<Rightarrow> (jsnum \<times> point) list" where
  "window_samples brokers now =
     filter (in_window now) (concat (map (samples_of (snd (throughputWindow now))) brokers))"

definition bucket_sum :: "(point \<Rightarrow> jsnum) \<Rightarrow> (jsnum \<times> point) list \<Rightarrow> jsnum \<Rightarrow> jsnum" where
  "bucket_sum f ss t = foldl num_add (Fin 0) (map (f \<circ> snd) (filter (\<lambda>s. fst s = t) ss))"

definition add_point :: "point \<Rightarrow> point \<Rightarrow> point" where
  "add_point p x = \<lparr>pt_inbound = num_add (pt_inbound p) (pt_inbound x), pt_outbound = num_add (pt_outbound p) (pt_outbound x)\<rparr>"

definition zero_point :: point where
  "zero_point = \<lparr>pt_inbound = Fin 0, pt_outbound = Fin 0\<rparr>"

lemma add_sample_eq:
  "add_sample ws we s bs = (if fst s < ws \<or> we < fst s then bs
     else AList.update (fst s) (add_point (nullish (map_of bs (fst s)) zero_point) (snd s)) bs)"
  by (cases s) (simp add: add_sample_def add_point_def zero_point_def Let_def)

lemma add_samples_filter:
  "add_samples ws we ss bs = foldl (\<lambda>bs s. AList.update (fst s) (add_point (nullish (map_of bs (fst s)) zero_point) (snd s)) bs)
     bs (filter (\<lambda>s. \<not> (fst s < ws \<or> we < fst s)) ss)"
  by (induction ss arbitrary: bs) (auto simp: add_sample_eq)

lemma bucket_brokers_concat:
  "bucket_brokers ws we bs acc = add_samples ws we (concat (map (samples_of we) bs)) acc"
proof -
  have "add_samples ws we (ss @ ss') acc = add_samples ws we ss' (add_samples ws we ss acc)" for ss ss' acc
    by (induction ss arbitrary: acc) simp_all
  then show ?thesis by (induction bs arbitrary: acc) simp_all
qed

lemma buckets_of:
  "bucket_brokers (fst (throughputWindow now)) (snd (throughputWindow now)) brokers [] =
   foldl (\<lambda>bs s. AList.update (fst s) (add_point (nullish (map_of bs (fst s)) zero_point) (snd s)) bs) [] (window_samples brokers now)"
  by (simp add: bucket_brokers_concat add_samples_filter window_samples_def in_window_def [abs_def])

lemma add_points:
  "pt_inbound (foldl add_point p xs) = foldl num_add (pt_inbound p) (map pt_inbound xs)"
  "pt_outbound (foldl add_point p xs) = foldl num_add (pt_outbound p) (map pt_outbound xs)"
  by (induction xs arbitrary: p) (simp_all add: add_point_def)

lemma bucket_lookup:
  "map_of (foldl (\<lambda>bs s. AList.update (fst s) (add_point (nullish (map_of bs (fst s)) zero_point) (snd s)) bs) bs ss) t =
     (if t \<in> fst ` set ss
      then Some (foldl add_point (nullish (map_of bs t) zero_point) (map snd (filter (\<lambda>s. fst s = t) ss)))
      else map_of bs t)"
proof (induction ss arbitrary: bs)
  case (Cons s ss)
  have "filter (\<lambda>s. fst s = t) ss = []" if "t \<notin> fst ` set ss" using that by (auto simp: filter_empty_conv)
  then show ?case by (cases "fst s = t") (auto simp: Cons.IH update_conv')
qed simp

lemma bucket_keys:
  "distinct (map fst bs) \<Longrightarrow>
   distinct (map fst (foldl (\<lambda>bs s. AList.update (fst s) (add_point (nullish (map_of bs (fst s)) zero_point) (snd s)) bs) bs ss))"
  by (induction ss arbitrary: bs) (simp_all add: distinct_update)

lemma bucket_of:
  assumes "bs = bucket_brokers (fst (throughputWindow now)) (snd (throughputWindow now)) brokers []"
  shows "map_of bs t = (if t \<in> fst ` set (window_samples brokers now)
    then Some (foldl add_point zero_point (map snd (filter (\<lambda>s. fst s = t) (window_samples brokers now)))) else None)"
  using bucket_lookup [of "[]" "window_samples brokers now"] by (simp add: assms buckets_of)

lemma history_times:
  fixes brokers now
  defines "ts \<equiv> th_timestamps (aggregateThroughputHistory brokers now)"
  shows "distinct ts \<and> set ts = fst ` set (window_samples brokers now)"
proof -
  define bs where "bs = bucket_brokers (fst (throughputWindow now)) (snd (throughputWindow now)) brokers []"
  have ts: "mset ts = mset (map fst bs)"
    by (simp add: ts_def aggregateThroughputHistory_def bs_def throughputWindow_def Let_def)
  have "t \<in> set (map fst bs) \<longleftrightarrow> t \<in> fst ` set (window_samples brokers now)" for t
    using map_of_eq_None_iff [of bs t] bucket_of [OF bs_def, of t] by (simp split: if_splits)
  then have "set ts = fst ` set (window_samples brokers now)"
    using ts by (metis mset_eq_setD set_eqI)
  moreover have "distinct ts"
    using bucket_keys [of "[]" "window_samples brokers now", folded buckets_of, folded bs_def] ts
    by (metis distinct.simps(1) list.simps(8) mset_eq_imp_distinct_iff)
  ultimately show ?thesis by blast
qed

text \<open>
  C36: The bucketing loops compute sums: the history has one point for each bucket that some
  sample in the window falls into, and its rates are the sums, in reading order, of what the
  samples of that bucket give.
\<close>

theorem history_sums_samples:
  "distinct (th_timestamps (aggregateThroughputHistory brokers now))
   \<and> set (th_timestamps (aggregateThroughputHistory brokers now)) = fst ` set (window_samples brokers now)
   \<and> th_inbound (aggregateThroughputHistory brokers now) =
       map (bucket_sum pt_inbound (window_samples brokers now)) (th_timestamps (aggregateThroughputHistory brokers now))
   \<and> th_outbound (aggregateThroughputHistory brokers now) =
       map (bucket_sum pt_outbound (window_samples brokers now)) (th_timestamps (aggregateThroughputHistory brokers now))"
proof -
  define bs where "bs = bucket_brokers (fst (throughputWindow now)) (snd (throughputWindow now)) brokers []"
  define ts where "ts = th_timestamps (aggregateThroughputHistory brokers now)"
  have "th_inbound (aggregateThroughputHistory brokers now) = map (\<lambda>t. nullish (map_option pt_inbound (map_of bs t)) (Fin 0)) ts"
    "th_outbound (aggregateThroughputHistory brokers now) = map (\<lambda>t. nullish (map_option pt_outbound (map_of bs t)) (Fin 0)) ts"
    by (simp_all add: ts_def aggregateThroughputHistory_def bs_def throughputWindow_def Let_def)
  moreover have "nullish (map_option pt_inbound (map_of bs t)) (Fin 0) = bucket_sum pt_inbound (window_samples brokers now) t"
    "nullish (map_option pt_outbound (map_of bs t)) (Fin 0) = bucket_sum pt_outbound (window_samples brokers now) t"
    if "t \<in> set ts" for t
    using that history_times [of brokers now]
    by (auto simp: ts_def bucket_of [OF bs_def] add_points bucket_sum_def comp_def zero_point_def)
  ultimately show ?thesis using history_times [of brokers now] by (auto simp: ts_def)
qed

section \<open>The chart is at most sixty whole minutes\<close>

lemma bits_le: "0 < n \<Longrightarrow> n < 2 ^ k \<Longrightarrow> bits n \<le> int k"
proof -
  assume n: "0 < n" "n < 2 ^ k"
  then have "(2::int) ^ nat (bits n - 1) < 2 ^ k" using bits_bounds [of n] by linarith
  then have "nat (bits n - 1) < k" by (rule power_less_imp_less_exp [rotated]) simp
  then show "bits n \<le> int k" by linarith
qed

lemma pow2_le_one: "e \<le> 0 \<Longrightarrow> pow2 e \<le> 1"
  by (simp add: pow2_def divide_le_eq)

lemma round_even_near: "\<bar>of_int (round_even y) - y\<bar> \<le> (1 :: rat)"
  using floor_correct [of y] by (simp add: round_even_def Let_def)

lemma round_pos_near:
  assumes "0 < x" and "x < 2 ^ 38"
  shows "\<bar>round_pos x - x\<bar> \<le> 1"
proof -
  define q where "q = pow2 (max (floor_log2 x) (- 1022) - 52)"
  have "floor_log2 x \<le> 37"
  proof (cases "1 \<le> x")
    case True
    then have "0 < \<lfloor>x\<rfloor>" by (simp add: less_le_trans zero_less_floor)
    moreover have "\<lfloor>x\<rfloor> < 2 ^ 38" using assms(2) by (simp add: floor_less_iff)
    ultimately show ?thesis using True bits_le [of "\<lfloor>x\<rfloor>" 38] by (simp add: floor_log2_def)
  next
    case False
    have "0 \<le> bits n" for n using bits_bounds [of n] bits.simps [of n] by (cases "n \<le> 0") simp_all
    then have "- bits (\<lceil>1 / x\<rceil> - 1) \<le> 0" by simp
    then show ?thesis using False by (simp add: floor_log2_def)
  qed
  then have "q \<le> 1" unfolding q_def by (intro pow2_le_one) linarith
  have "0 < q" by (simp add: q_def)
  have "round_pos x - x = (of_int (round_even (x / q)) - x / q) * q"
    using \<open>0 < q\<close> by (simp add: round_pos_def Let_def q_def [symmetric] left_diff_distrib)
  then have "\<bar>round_pos x - x\<bar> = \<bar>of_int (round_even (x / q)) - x / q\<bar> * q"
    using \<open>0 < q\<close> by (simp add: abs_mult)
  also have "\<dots> \<le> 1 * q" using round_even_near \<open>0 < q\<close> by (intro mult_right_mono) (auto simp: less_imp_le)
  finally show ?thesis using \<open>q \<le> 1\<close> by simp
qed

lemma to_num_near:
  assumes "\<bar>x\<bar> < 2 ^ 38"
  shows "\<exists>r. to_num x = Fin r \<and> \<bar>r - x\<bar> \<le> 1"
proof (cases "x = 0")
  case False
  then have near: "\<bar>round_pos \<bar>x\<bar> - \<bar>x\<bar>\<bar> \<le> 1" using round_pos_near [of "\<bar>x\<bar>"] assms by simp
  have "(2 ^ 38 + 1 :: rat) < pow2 1024" by (simp add: pow2_def)
  then have "\<not> pow2 1024 \<le> round_pos \<bar>x\<bar>" using near assms by linarith
  then show ?thesis using False near by (auto simp: to_num_def Let_def)
qed simp

lemma to_num_big:
  assumes "2 ^ 53 \<le> \<bar>n\<bar>" and "to_num (of_int n) = Fin r"
  shows "2 ^ 53 \<le> \<bar>r\<bar>"
proof -
  define m where "m = \<bar>n\<bar>"
  have m: "0 < m" "2 ^ 53 \<le> m" using assms(1) by (auto simp: m_def)
  define e where "e = bits m - 1"
  have b: "0 < bits m" "2 ^ nat e \<le> m" "m < 2 ^ nat (bits m)" using bits_bounds [OF m(1)] by (auto simp: e_def)
  then have "(2::int) ^ 53 < 2 ^ nat (bits m)" using m by linarith
  then have "53 < nat (bits m)" by (rule power_less_imp_less_exp [rotated]) simp
  then have e53: "53 \<le> e" by (simp add: e_def)
  have "floor_log2 (of_int m) = e" using m by (simp add: floor_log2_def e_def)
  then have r: "round_pos (of_int m) = of_int (round_even (of_int m / pow2 (e - 52))) * pow2 (e - 52)"
    using e53 by (simp add: round_pos_def Let_def)
  have p: "pow2 (e - 52) = 2 ^ nat (e - 52)" using e53 by (simp add: pow2_def)
  have "nat e = 52 + nat (e - 52)" using e53 by simp
  then have "(2::rat) ^ nat e = 2 ^ 52 * pow2 (e - 52)" unfolding p by (metis power_add)
  moreover have "(2::rat) ^ nat e \<le> of_int m" using b(2) by (metis of_int_le_iff of_int_numeral of_int_power)
  ultimately have "2 ^ 52 \<le> of_int m / pow2 (e - 52)" by (simp add: le_divide_eq)
  then have "2 ^ 52 \<le> round_even (of_int m / pow2 (e - 52))"
    by (simp add: round_even_def Let_def le_floor_iff)
  then have "(2 ^ 52 :: rat) \<le> of_int (round_even (of_int m / pow2 (e - 52)))"
    by (metis of_int_le_iff of_int_numeral of_int_power)
  moreover have "(2 :: rat) \<le> pow2 (e - 52)" using e53 by (simp add: p self_le_power)
  ultimately have "(2 ^ 52 * 2 :: rat) \<le> round_pos (of_int m)" unfolding r by (intro mult_mono) auto
  moreover have "\<bar>r\<bar> = round_pos (of_int m)"
    using assms m round_pos_nonneg [of "of_int m"] by (auto simp: to_num_def Let_def m_def split: if_splits)
  ultimately show ?thesis by simp
qed

text \<open>Bucket times are whole minutes wherever the numbers are exact.\<close>

definition minute :: "int \<Rightarrow> jsnum" where
  "minute k = Fin (of_int (60000 * k))"

lemma minute_less [simp]: "minute i < minute j \<longleftrightarrow> i < j" "minute i = minute j \<longleftrightarrow> i = j"
  by (simp_all add: minute_def)

lemma inj_minute: "inj minute"
  by (simp add: inj_def)

lemma to_num_minute: "\<bar>60000 * k\<bar> \<le> 2 ^ 53 \<Longrightarrow> to_num (of_int (60000 * k)) = minute k"
  using to_num_of_int [of "60000 * k"] by (simp only: minute_def)

lemma minute_of_Fin:
  "minute_of (Fin a) = NegInf \<or> minute_of (Fin a) = PosInf \<or> (\<exists>k. minute_of (Fin a) = to_num (of_int (60000 * k)))"
proof (cases "to_num (a / 60000)")
  case (Fin b)
  have "minute_of (Fin a) = to_num (of_int (60000 * \<lfloor>b\<rfloor>))"
    using Fin by (simp add: minute_of_def THROUGHPUT_SAMPLE_MS_def mult.commute)
  then show ?thesis by blast
qed (simp_all add: minute_of_def THROUGHPUT_SAMPLE_MS_def)

lemma minute_of_between:
  assumes "\<not> minute_of t < minute lo" and "\<not> minute hi < minute_of t" and "minute_of t \<noteq> NaN"
    and "\<bar>60000 * lo\<bar> < 2 ^ 53" and "\<bar>60000 * hi\<bar> < 2 ^ 53"
  shows "\<exists>k. minute_of t = minute k \<and> lo \<le> k \<and> k \<le> hi"
proof -
  have "\<exists>r. minute_of t = Fin r" using assms(1-3) by (cases "minute_of t") (simp_all add: minute_def)
  then obtain r where r: "minute_of t = Fin r" by blast
  then have "\<exists>a. t = Fin a"
    by (cases t) (auto simp: minute_of_def THROUGHPUT_SAMPLE_MS_def)
  then obtain a where a: "t = Fin a" by blast
  then obtain k where k: "minute_of t = to_num (of_int (60000 * k))"
    using r minute_of_Fin [of a] by force
  have "\<bar>60000 * k\<bar> < 2 ^ 53"
  proof (rule ccontr)
    assume "\<not> \<bar>60000 * k\<bar> < 2 ^ 53"
    then have "2 ^ 53 \<le> \<bar>r\<bar>" using to_num_big [of "60000 * k" r] r k by simp
    moreover have "of_int (60000 * lo) \<le> r" "r \<le> of_int (60000 * hi)"
      using assms(1,2) by (simp_all add: r minute_def)
    moreover have "\<bar>of_int (60000 * lo)\<bar> < (2 ^ 53 :: rat)" "\<bar>of_int (60000 * hi)\<bar> < (2 ^ 53 :: rat)"
      using assms(4,5) by (metis of_int_abs of_int_less_iff of_int_numeral of_int_power)+
    ultimately show False by linarith
  qed
  then have "minute_of t = minute k" using k to_num_minute by simp
  then show ?thesis using assms(1,2) by auto
qed

lemma minute_of_date:
  assumes "\<bar>a\<bar> \<le> 8640000000000000"
  shows "\<exists>k. minute_of (Fin a) = minute k \<and> \<bar>60000 * k\<bar> \<le> 8640000000120000"
proof -
  have "\<bar>a / 60000\<bar> < 2 ^ 38" using assms by (simp add: abs_divide)
  then obtain r where r: "to_num (a / 60000) = Fin r" "\<bar>r - a / 60000\<bar> \<le> 1" using to_num_near by blast
  have "\<bar>a / 60000\<bar> \<le> 144000000000" using assms by (simp add: abs_divide)
  then have "- 144000000001 \<le> r" "r \<le> 144000000001" using r(2) by linarith+
  then have k: "- 144000000001 \<le> \<lfloor>r\<rfloor>" "\<lfloor>r\<rfloor> \<le> 144000000001" by (simp add: le_floor_iff, linarith)
  then have abs_k: "\<bar>60000 * \<lfloor>r\<rfloor>\<bar> \<le> 8640000000120000" by linarith
  have "minute_of (Fin a) = to_num (of_int (60000 * \<lfloor>r\<rfloor>))"
    using r(1) by (simp add: minute_of_def THROUGHPUT_SAMPLE_MS_def mult.commute)
  then show ?thesis using to_num_minute [of "\<lfloor>r\<rfloor>"] abs_k by (intro exI [of _ "\<lfloor>r\<rfloor>"]) (simp del: of_int_mult)
qed

lemma window_of_date:
  assumes "\<bar>a\<bar> \<le> 8640000000000000"
  shows "\<exists>k. throughputWindow (Fin a) = (minute (k - 59), minute k)
     \<and> \<bar>60000 * (k - 59)\<bar> < 2 ^ 53 \<and> \<bar>60000 * k\<bar> < 2 ^ 53"
proof -
  obtain k where k: "minute_of (Fin a) = minute k" "\<bar>60000 * k\<bar> \<le> 8640000000120000"
    using minute_of_date [OF assms] by blast
  have "num_mul (num_sub THROUGHPUT_HISTORY_MINUTES (Fin 1)) THROUGHPUT_SAMPLE_MS = Fin 3540000"
    by (simp add: THROUGHPUT_HISTORY_MINUTES_def THROUGHPUT_SAMPLE_MS_def num_sub_def)
  moreover have "num_sub (minute k) (Fin 3540000) = minute (k - 59)"
    using to_num_minute [of "k - 59"] k(2) by (simp add: minute_def num_sub_def algebra_simps)
  ultimately have "throughputWindow (Fin a) = (minute (k - 59), minute k)"
    using k(1) by (simp add: throughputWindow_def Let_def)
  moreover have "\<bar>60000 * (k - 59)\<bar> < 2 ^ 53" "\<bar>60000 * k\<bar> < 2 ^ 53" using k(2) by simp_all
  ultimately show ?thesis by blast
qed

text \<open>Numbers the code can really be handed: no NaN among the times, arrays shorter than \<open>2 ^ 32\<close>.\<close>

definition plain_history :: "Node \<Rightarrow> bool" where
  "plain_history b \<longleftrightarrow> NaN \<notin> set (nullish (node_tpsHistoryTimestamps b) [])
     \<and> int (length (nullish (node_tpsInHistory b) [])) < 2 ^ 32 \<and> int (length (nullish (node_tpsOutHistory b) [])) < 2 ^ 32"

lemma minute_of_NaN [simp]: "minute_of t = NaN \<longleftrightarrow> t = NaN"
proof -
  have "num_floor x = NaN \<longleftrightarrow> x = NaN" for x by (cases x) simp_all
  moreover have "num_div t (Fin 60000) = NaN \<longleftrightarrow> t = NaN" by (cases t) simp_all
  ultimately show ?thesis by (simp add: minute_of_def THROUGHPUT_SAMPLE_MS_def)
qed

lemma num_add_Fin_NaN [simp]: "num_add x (Fin y) = NaN \<longleftrightarrow> x = NaN"
  by (cases x) simp_all

lemma toMillis_NaN [simp]: "toMillis t = NaN \<longleftrightarrow> t = NaN"
  by (simp add: toMillis_def)

lemma steps_exact: "int n < 2 ^ 32 \<Longrightarrow> num_mul (Fin (of_nat n)) THROUGHPUT_SAMPLE_MS = Fin (of_nat n * 60000)"
  using to_num_of_int [of "int n * 60000"] by (simp add: THROUGHPUT_SAMPLE_MS_def)

lemma at_index_mem: "at_index xs i = Some x \<Longrightarrow> x \<in> set xs"
  by (induction xs i rule: at_index.induct) auto

lemma sample_time:
  assumes "plain_history b" and "we = Fin w" and "s \<in> set (samples_of we b)"
  shows "\<exists>t. fst s = minute_of t \<and> t \<noteq> NaN"
proof -
  define n where "n = max (length (nullish (node_tpsInHistory b) [])) (length (nullish (node_tpsOutHistory b) []))"
  obtain i where i: "i < n" "s = sample_of we b n i" using assms(3) by (auto simp: samples_of_def Let_def n_def)
  have n: "int n < 2 ^ 32" using assms(1) by (auto simp: plain_history_def n_def)
  define raw where "raw = aligned (nullish (node_tpsHistoryTimestamps b) []) n i"
  show ?thesis
  proof (cases raw)
    case None
    have "num_mul (Fin (of_nat (n - 1))) THROUGHPUT_SAMPLE_MS = Fin (of_nat (n - 1) * 60000)"
      "num_mul (Fin (of_nat i)) THROUGHPUT_SAMPLE_MS = Fin (of_nat i * 60000)"
      using n i(1) by (intro steps_exact; linarith)+
    then show ?thesis using None assms(2) unfolding i(2) by (auto simp: sample_of_def Let_def raw_def num_sub_def)
  next
    case (Some t)
    then have "t \<in> set (nullish (node_tpsHistoryTimestamps b) [])"
      by (auto simp: raw_def aligned_def dest: at_index_mem split: if_splits)
    then have "t \<noteq> NaN" using assms(1) by (auto simp: plain_history_def)
    then show ?thesis using Some unfolding i(2) by (auto simp: sample_of_def Let_def raw_def)
  qed
qed

lemma sort_minutes: "sort_by num_cmp (map minute ks) = map minute (sort ks)"
proof -
  have "insert_by num_cmp (minute k) (map minute js) = map minute (insort k js)" for k js
    by (induction js) (auto simp: num_cmp_def)
  then show ?thesis by (induction ks) (simp_all add: sort_by_def)
qed

text \<open>
  At any time a \<open>Date\<close> can hold, the window is sixty whole minutes up to the current one, and
  the history's points are whole minutes of it, strictly ascending, so there are at most sixty -
  whatever times the brokers report, NaN excepted.
\<close>

lemma history_fits_the_chart:
  assumes "\<bar>a\<bar> \<le> 8640000000000000" and "list_all plain_history brokers"
  shows "\<exists>k. throughputWindow (Fin a) = (minute (k - 59), minute k)
     \<and> set (th_timestamps (aggregateThroughputHistory brokers (Fin a))) \<subseteq> minute ` {k - 59..k}
     \<and> sorted_wrt (<) (th_timestamps (aggregateThroughputHistory brokers (Fin a)))
     \<and> length (th_timestamps (aggregateThroughputHistory brokers (Fin a))) \<le> 60"
proof -
  define ts where "ts = th_timestamps (aggregateThroughputHistory brokers (Fin a))"
  obtain k where k: "throughputWindow (Fin a) = (minute (k - 59), minute k)" "\<bar>60000 * (k - 59)\<bar> < 2 ^ 53" "\<bar>60000 * k\<bar> < 2 ^ 53"
    using window_of_date [OF assms(1)] by blast
  have "fst s \<in> minute ` {k - 59..k}" if "s \<in> set (window_samples brokers (Fin a))" for s
  proof -
    from that obtain b where "b \<in> set brokers" "s \<in> set (samples_of (minute k) b)"
      and w: "\<not> fst s < minute (k - 59)" "\<not> minute k < fst s"
      by (auto simp: window_samples_def in_window_def k(1))
    then obtain t where t: "fst s = minute_of t" "t \<noteq> NaN"
      using sample_time [of b "minute k" _ s] assms(2) by (auto simp: minute_def list_all_iff)
    show ?thesis using minute_of_between [of t "k - 59" k] w t k(2,3) by auto
  qed
  then have sub: "set ts \<subseteq> minute ` {k - 59..k}" and dist: "distinct ts"
    using history_times [of brokers "Fin a"] by (auto simp: ts_def)
  have "card (set ts) \<le> card {k - 59..k}" using sub by (meson finite_atLeastAtMost_int surj_card_le)
  then have "length ts \<le> 60" using dist by (simp add: distinct_card)
  moreover have "sorted_wrt (<) ts"
  proof -
    define bs where "bs = map fst (bucket_brokers (fst (throughputWindow (Fin a))) (snd (throughputWindow (Fin a))) brokers [])"
    have ts: "ts = sort_by num_cmp bs"
      by (simp add: ts_def bs_def aggregateThroughputHistory_def throughputWindow_def Let_def)
    then have "set bs = set ts" by (metis mset_sort_by set_mset_mset)
    then obtain ks where "bs = map minute ks" using sub by (metis ex_map_conv imageE subsetD)
    then have m: "ts = map minute (sort ks)" using ts sort_minutes by simp
    then have "distinct (sort ks)" using dist distinct_map by blast
    then have "sorted_wrt (<) (sort ks)" by (simp add: strict_sorted_iff)
    then show ?thesis by (simp add: m sorted_wrt_map)
  qed
  ultimately show ?thesis using k(1) sub ts_def by blast
qed

definition sample_history :: Node where
  "sample_history = \<lparr>node_id = Fin 1, node_name = u ''a'', node_address = [], node_cluster = [], node_version = [],
     node_status = NodeOnline, node_rateIn = Fin 0, node_rateOut = Fin 0, node_diskUsage = Fin 0, node_lastSeen = [],
     node_tpsHistoryTimestamps = Some [Fin 1700000040000, PosInf], node_tpsInHistory = Some [Fin 3, Fin 4],
     node_tpsOutHistory = None, node_attributes = []\<rparr>"

end
