(* ===== verification/Live_Stream.thy ===== *)
theory Live_Stream
  imports Broker_Model
begin

text \<open>
  A live subscription's buffer in the Go drivers, which the stream panels drain: MQTT keeps a ring
  (\<open>internal/driver/mqtt/subscribe.go\<close>), NATS and ActiveMQ a slice
  (\<open>internal/driver/nats/subscribe.go\<close>, \<open>internal/driver/activemq/subscribe.go\<close>). All three
  promise one thing, stated as a locale: of all messages delivered the newest \<open>N\<close> are held, and a
  poll after a sequence number answers those above it. A Go operation that would panic - an index
  outside the ring, a nil message - is \<open>None\<close>; that none does is part of the contract. Sequence
  numbers are \<open>int\<close>: an \<open>int64\<close> that counts messages does not wrap. The mutex makes each operation
  one step.
\<close>

record LiveFilter =
  lf_pattern :: jsstr
  lf_options :: attributes

record LiveMessage =
  lm_seq :: int
  lm_destination :: jsstr
  lm_filter :: jsstr
  lm_receivedAt :: jsstr
  lm_body :: jsstr
  lm_truncated :: bool
  lm_attributes :: attributes

record LiveBatch =
  lb_messages :: "LiveMessage list"
  lb_cursor :: int
  lb_dropped :: int
  lb_received :: int
  lb_live :: bool

section \<open>The contract\<close>

text \<open>What a poll answers, of the whole log of messages delivered so far.\<close>

definition held :: "nat \<Rightarrow> 'a list \<Rightarrow> 'a list" where
  "held N arr = drop (length arr - N) arr"

definition fresh :: "nat \<Rightarrow> LiveMessage list \<Rightarrow> int \<Rightarrow> int \<Rightarrow> LiveMessage list" where
  "fresh N arr after limit =
    (let ms = filter (\<lambda>m. after < lm_seq m) (held N arr) in if 0 < limit then take (nat limit) ms else ms)"

definition batch_of :: "nat \<Rightarrow> LiveMessage list \<Rightarrow> bool \<Rightarrow> int \<Rightarrow> int \<Rightarrow> LiveBatch" where
  "batch_of N arr live after limit =
    \<lparr>lb_messages = fresh N arr after limit,
     lb_cursor = (if fresh N arr after limit = [] then after else lm_seq (last (fresh N arr after limit))),
     lb_dropped = int (length arr - N), lb_received = int (length arr), lb_live = live\<rparr>"

text \<open>The sequence numbers of a log count from one.\<close>

definition numbered :: "LiveMessage list \<Rightarrow> bool" where
  "numbered arr \<longleftrightarrow> map lm_seq arr = map (\<lambda>i. int i + 1) [0..<length arr]"

definition stamped :: "LiveMessage list \<Rightarrow> LiveMessage \<Rightarrow> LiveMessage list" where
  "stamped arr m = arr @ [m\<lparr>lm_seq := int (length arr) + 1\<rparr>]"

lemma numbered_nth: "numbered arr \<Longrightarrow> i < length arr \<Longrightarrow> lm_seq (arr ! i) = int i + 1"
  unfolding numbered_def by (metis (no_types, lifting) add_0 length_map nth_map nth_upt diff_zero length_upt)

lemma numbered_stamped [simp]: "numbered arr \<Longrightarrow> numbered (stamped arr m)"
  by (simp add: numbered_def stamped_def)

lemma numbered_Nil [simp]: "numbered []"
  by (simp add: numbered_def)

lemma length_stamped [simp]: "length (stamped arr m) = Suc (length arr)"
  by (simp add: stamped_def)

lemma filter_numbered_aux:
  "map lm_seq ms = map (\<lambda>i. int i + 1) [k..<n] \<Longrightarrow> int c \<le> int n \<Longrightarrow> filter (\<lambda>m. int c < lm_seq m) ms = drop (c - k) ms"
proof (induction ms arbitrary: k)
  case (Cons m ms)
  then have k: "k < n" by (cases "k < n") auto
  then have m: "lm_seq m = int k + 1" "map lm_seq ms = map (\<lambda>i. int i + 1) [Suc k..<n]"
    using Cons.prems(1) by (auto simp: upt_conv_Cons)
  show ?case
  proof (cases "c \<le> k")
    case True
    then show ?thesis using m Cons.IH [OF m(2) Cons.prems(2)] by simp
  next
    case False
    then have "c - k = Suc (c - Suc k)" by simp
    then show ?thesis using m False Cons.IH [OF m(2) Cons.prems(2)] by simp
  qed
qed simp

text \<open>A poll answers the messages from a position on: after the cursor, or the oldest held.\<close>

lemma fresh_numbered:
  assumes "numbered arr" and "0 < limit" and "c \<le> length arr"
  shows "fresh N arr (int c) limit = take (nat limit) (drop (max c (length arr - N)) arr)"
proof -
  have "map lm_seq (held N arr) = map (\<lambda>i. int i + 1) [length arr - N..<length arr]"
    using assms(1) by (simp add: numbered_def held_def drop_map [symmetric]) (simp add: drop_map)
  then have "filter (\<lambda>m. int c < lm_seq m) (held N arr) = drop (c - (length arr - N)) (held N arr)"
    using assms(3) filter_numbered_aux [of "held N arr" "length arr - N" "length arr" c] by simp
  also have "\<dots> = drop (max c (length arr - N)) arr"
    by (simp add: held_def max_def)
  finally show ?thesis using assms(2) by (simp add: fresh_def)
qed

lemma last_numbered: "numbered arr \<Longrightarrow> ms = take n (drop k arr) \<Longrightarrow> ms \<noteq> [] \<Longrightarrow> lm_seq (last ms) = int (k + length ms)"
proof -
  assume a: "numbered arr" "ms = take n (drop k arr)" "ms \<noteq> []"
  then have "length ms \<le> length arr - k" "0 < length ms" by auto
  then have "k + (length ms - 1) < length arr" by linarith
  moreover have "last ms = arr ! (k + (length ms - 1))"
    using a(2,3) by (auto simp: last_conv_nth min_def)
  ultimately show "lm_seq (last ms) = int (k + length ms)"
    using numbered_nth [OF a(1), of "k + (length ms - 1)"] \<open>0 < length ms\<close> by (simp add: of_nat_diff)
qed

section \<open>MQTT: a ring\<close>

record stream =
  st_id :: jsstr
  st_filters :: "LiveFilter list"
  st_startedAt :: jsstr
  st_ring :: "LiveMessage option list"
  st_start :: nat
  st_length :: nat
  st_nextSeq :: int
  st_received :: int
  st_dropped :: int
  st_live :: bool

definition newStream :: "jsstr \<Rightarrow> LiveFilter list \<Rightarrow> jsstr \<Rightarrow> nat \<Rightarrow> stream" where
  "newStream ident filters now buffer =
    \<lparr>st_id = ident, st_filters = filters, st_startedAt = now, st_ring = replicate buffer None,
     st_start = 0, st_length = 0, st_nextSeq = 1, st_received = 0, st_dropped = 0, st_live = True\<rparr>"

definition stream_append :: "LiveMessage \<Rightarrow> stream \<Rightarrow> stream option" where
  "stream_append message s =
    (let m = message\<lparr>lm_seq := st_nextSeq s\<rparr>; n = length (st_ring s);
         s = s\<lparr>st_nextSeq := st_nextSeq s + 1, st_received := st_received s + 1\<rparr>
     in if n = 0 then None
        else if st_length s = n then
          Some (s\<lparr>st_ring := (st_ring s)[st_start s := Some m], st_start := (st_start s + 1) mod n,
                  st_dropped := st_dropped s + 1\<rparr>)
        else Some (s\<lparr>st_ring := (st_ring s)[(st_start s + st_length s) mod n := Some m], st_length := st_length s + 1\<rparr>))"

fun poll_loop :: "stream \<Rightarrow> int \<Rightarrow> int \<Rightarrow> nat list \<Rightarrow> LiveBatch \<Rightarrow> LiveBatch option" where
  "poll_loop s after limit [] batch = Some batch"
| "poll_loop s after limit (i # is) batch =
     (case st_ring s ! ((st_start s + i) mod length (st_ring s)) of
        None \<Rightarrow> None
      | Some message \<Rightarrow>
          if lm_seq message \<le> after then poll_loop s after limit is batch
          else if 0 < limit \<and> limit \<le> int (length (lb_messages batch)) then Some batch
          else poll_loop s after limit is
                 (batch\<lparr>lb_messages := lb_messages batch @ [message], lb_cursor := lm_seq message\<rparr>))"

definition oldestSeqLocked :: "stream \<Rightarrow> int option" where
  "oldestSeqLocked s = (if st_length s = 0 then Some 0 else map_option lm_seq (st_ring s ! st_start s))"

definition stream_poll :: "stream \<Rightarrow> int \<Rightarrow> int \<Rightarrow> LiveBatch option" where
  "stream_poll s after limit =
    (case poll_loop s after limit [0..<st_length s]
        \<lparr>lb_messages = [], lb_cursor = after, lb_dropped = st_dropped s, lb_received = st_received s, lb_live = st_live s\<rparr> of
       None \<Rightarrow> None
     | Some batch \<Rightarrow>
         (case oldestSeqLocked s of None \<Rightarrow> None
          | Some oldest \<Rightarrow>
              Some (if lb_messages batch = [] \<and> 0 < oldest \<and> after < oldest - 1
                    then batch\<lparr>lb_cursor := oldest - 1\<rparr> else batch)))"

definition setLive :: "bool \<Rightarrow> stream \<Rightarrow> stream" where
  "setLive live s = s\<lparr>st_live := live\<rparr>"

section \<open>NATS and ActiveMQ: a slice\<close>

record liveStream =
  ls_id :: jsstr
  ls_filters :: "LiveFilter list"
  ls_started :: jsstr
  ls_messages :: "LiveMessage list"
  ls_next :: int
  ls_received :: int
  ls_dropped :: int
  ls_buffer :: nat
  ls_live :: bool

definition nats_new :: "jsstr \<Rightarrow> LiveFilter list \<Rightarrow> jsstr \<Rightarrow> nat \<Rightarrow> liveStream" where
  "nats_new ident filters now buffer =
    \<lparr>ls_id = ident, ls_filters = filters, ls_started = now, ls_messages = [], ls_next = 0, ls_received = 0,
     ls_dropped = 0, ls_buffer = buffer, ls_live = True\<rparr>"

definition nats_deliver :: "LiveMessage \<Rightarrow> liveStream \<Rightarrow> liveStream" where
  "nats_deliver message s =
    (let s = s\<lparr>ls_received := ls_received s + 1, ls_next := ls_next s + 1,
               ls_messages := ls_messages s @ [message\<lparr>lm_seq := ls_next s + 1\<rparr>]\<rparr>
     in if length (ls_messages s) > ls_buffer s
        then let dropped = length (ls_messages s) - ls_buffer s
             in s\<lparr>ls_messages := drop dropped (ls_messages s), ls_dropped := ls_dropped s + int dropped\<rparr>
        else s)"

text \<open>The loop of \<open>drain\<close>, which NATS and ActiveMQ share.\<close>

fun drain_loop :: "int \<Rightarrow> int \<Rightarrow> LiveMessage list \<Rightarrow> LiveBatch \<Rightarrow> LiveBatch" where
  "drain_loop after limit [] batch = batch"
| "drain_loop after limit (message # ms) batch =
     (if lm_seq message \<le> after then drain_loop after limit ms batch
      else let batch = batch\<lparr>lb_messages := lb_messages batch @ [message]\<rparr>
           in if 0 < limit \<and> limit \<le> int (length (lb_messages batch)) then batch\<lparr>lb_cursor := lm_seq message\<rparr>
              else drain_loop after limit ms batch)"

definition live_batch :: "liveStream \<Rightarrow> LiveBatch" where
  "live_batch s = \<lparr>lb_messages = [], lb_cursor = ls_next s, lb_dropped = ls_dropped s, lb_received = ls_received s, lb_live = ls_live s\<rparr>"

definition defaultLiveBuffer :: int where "defaultLiveBuffer = 500"

definition maxLiveBuffer :: int where "maxLiveBuffer = 10000"

definition nats_poll :: "liveStream \<Rightarrow> int \<Rightarrow> int \<Rightarrow> LiveBatch" where
  "nats_poll s after limit =
    drain_loop after (if limit \<le> 0 \<or> maxLiveBuffer < limit then defaultLiveBuffer else limit) (ls_messages s) (live_batch s)"

text \<open>ActiveMQ drops before it appends; its buffer is an argument of the receiver.\<close>

definition activemq_append :: "LiveMessage \<Rightarrow> nat \<Rightarrow> liveStream \<Rightarrow> liveStream option" where
  "activemq_append message buffer s =
    (let s = s\<lparr>ls_received := ls_received s + 1\<rparr>;
         room = (if buffer \<le> length (ls_messages s)
                 then (if ls_messages s = [] then None
                       else Some (s\<lparr>ls_messages := tl (ls_messages s), ls_dropped := ls_dropped s + 1\<rparr>))
                 else Some s)
     in map_option (\<lambda>s. s\<lparr>ls_next := ls_next s + 1, ls_messages := ls_messages s @ [message\<lparr>lm_seq := ls_next s + 1\<rparr>]\<rparr>) room)"

definition activemq_poll :: "liveStream \<Rightarrow> int \<Rightarrow> int \<Rightarrow> LiveBatch" where
  "activemq_poll s after limit = drain_loop after limit (ls_messages s) (live_batch s)"

section \<open>What each buffer represents\<close>

definition mqtt_rep :: "nat \<Rightarrow> LiveMessage list \<Rightarrow> bool \<Rightarrow> stream \<Rightarrow> bool" where
  "mqtt_rep N arr live s \<longleftrightarrow> numbered arr \<and> 0 < N \<and> length (st_ring s) = N \<and> st_start s < N
     \<and> st_length s = min N (length arr)
     \<and> map (\<lambda>i. st_ring s ! ((st_start s + i) mod N)) [0..<st_length s] = map Some (held N arr)
     \<and> st_nextSeq s = int (length arr) + 1 \<and> st_received s = int (length arr)
     \<and> st_dropped s = int (length arr - N) \<and> st_live s = live"

definition slice_rep :: "nat \<Rightarrow> LiveMessage list \<Rightarrow> bool \<Rightarrow> liveStream \<Rightarrow> bool" where
  "slice_rep N arr live s \<longleftrightarrow> numbered arr \<and> 0 < N \<and> ls_messages s = held N arr \<and> ls_next s = int (length arr)
     \<and> ls_received s = int (length arr) \<and> ls_dropped s = int (length arr - N) \<and> ls_live s = live"

definition nats_rep :: "nat \<Rightarrow> LiveMessage list \<Rightarrow> bool \<Rightarrow> liveStream \<Rightarrow> bool" where
  "nats_rep N arr live s \<longleftrightarrow> slice_rep N arr live s \<and> ls_buffer s = N"

lemma length_held: "length (held N xs) = min N (length xs)"
  by (simp add: held_def)

lemma held_snoc:
  "0 < N \<Longrightarrow> held N (xs @ [x]) = (if N \<le> length xs then tl (held N xs) else held N xs) @ [x]"
  by (simp add: held_def Suc_diff_le drop_Suc tl_drop)

lemma held_stamped:
  "0 < N \<Longrightarrow> held N (stamped arr m) =
     (if N \<le> length arr then tl (held N arr) else held N arr) @ [m\<lparr>lm_seq := int (length arr) + 1\<rparr>]"
  by (simp add: stamped_def held_snoc)

text \<open>Positions of a ring.\<close>

lemma ring_distinct: "a < n \<Longrightarrow> i < n \<Longrightarrow> j < n \<Longrightarrow> (a + i) mod n = (a + j) mod n \<longleftrightarrow> i = (j :: nat)"
  by (auto simp: mod_if split: if_splits)

lemma ring_next: "(Suc a mod n + i) mod n = (a + Suc i) mod n"
  by (simp add: mod_add_left_eq)

lemma mqtt_new: "0 < N \<Longrightarrow> mqtt_rep N [] True (newStream ident filters now N)"
  by (simp add: mqtt_rep_def newStream_def held_def)

lemma nats_new: "0 < N \<Longrightarrow> nats_rep N [] True (nats_new ident filters now N)"
  by (simp add: nats_rep_def slice_rep_def nats_new_def held_def)

lemma mqtt_append:
  assumes "mqtt_rep N arr live s"
  shows "\<exists>s'. stream_append m s = Some s' \<and> mqtt_rep N (stamped arr m) live s'"
proof -
  let ?m = "m\<lparr>lm_seq := int (length arr) + 1\<rparr>"
  let ?a = "st_start s"
  have s: "numbered arr" "0 < N" "length (st_ring s) = N" "?a < N" "st_length s = min N (length arr)"
    "map (\<lambda>i. st_ring s ! ((?a + i) mod N)) [0..<st_length s] = map Some (held N arr)"
    "st_nextSeq s = int (length arr) + 1" "st_received s = int (length arr)" "st_dropped s = int (length arr - N)" "st_live s = live"
    using assms by (auto simp: mqtt_rep_def)
  show ?thesis
  proof (cases "N \<le> length arr")
    case True
    then have len: "st_length s = N" using s(5) by simp
    have "map (\<lambda>i. (st_ring s)[?a := Some ?m] ! ((Suc ?a mod N + i) mod N)) [0..<N] = map Some (tl (held N arr) @ [?m])"
    proof (rule nth_equalityI)
      show "length (map (\<lambda>i. (st_ring s)[?a := Some ?m] ! ((Suc ?a mod N + i) mod N)) [0..<N]) = length (map Some (tl (held N arr) @ [?m]))"
        using True s(2) by (simp add: length_held)
      fix i
      assume "i < length (map (\<lambda>i. (st_ring s)[?a := Some ?m] ! ((Suc ?a mod N + i) mod N)) [0..<N])"
      then have i: "i < N" by simp
      show "map (\<lambda>i. (st_ring s)[?a := Some ?m] ! ((Suc ?a mod N + i) mod N)) [0..<N] ! i = map Some (tl (held N arr) @ [?m]) ! i"
      proof (cases "Suc i < N")
        case True
        have "(?a + Suc i) mod N \<noteq> ?a" using ring_distinct [of ?a N "Suc i" 0] True s(2,4) by simp
        moreover have "st_ring s ! ((?a + Suc i) mod N) = Some (held N arr ! Suc i)"
          using arg_cong [OF s(6), of "\<lambda>l. l ! Suc i"] True len \<open>N \<le> length arr\<close> by (simp add: length_held)
        moreover have "(?a + Suc i) mod N < N" using s(2) by simp
        ultimately show ?thesis
          using True i less_diff_conv [of i N 1] \<open>N \<le> length arr\<close> s(3) by (simp add: ring_next nth_append length_held nth_tl)
      next
        case False
        then have "Suc i = N" using i by simp
        then have "(?a + Suc i) mod N = ?a" using s(4) by simp
        from \<open>Suc i = N\<close> have at: "(Suc ?a mod N + i) mod N = ?a" "\<not> i < N - 1" "i - (N - 1) = 0" using s(4) \<open>(?a + Suc i) mod N = ?a\<close>
          by (simp_all only: ring_next)
        have "map (\<lambda>i. (st_ring s)[?a := Some ?m] ! ((Suc ?a mod N + i) mod N)) [0..<N] ! i = Some ?m"
          using i at(1) s(3,4) by simp
        moreover have "map Some (tl (held N arr) @ [?m]) ! i = Some ?m"
          using at(2,3) \<open>N \<le> length arr\<close> \<open>Suc i = N\<close> by (simp add: nth_append length_held)
        ultimately show ?thesis by simp
      qed
    qed
    then show ?thesis
      using True s len by (simp add: stream_append_def Let_def mqtt_rep_def held_stamped)
  next
    case False
    then have len: "st_length s = length arr" using s(5) by simp
    have "map (\<lambda>i. (st_ring s)[(?a + length arr) mod N := Some ?m] ! ((?a + i) mod N)) [0..<length arr] = map Some (held N arr)"
    proof -
      have "(?a + i) mod N \<noteq> (?a + length arr) mod N" if "i < length arr" for i
        using ring_distinct [of ?a N i "length arr"] s(4) False that by simp
      then have "map (\<lambda>i. (st_ring s)[(?a + length arr) mod N := Some ?m] ! ((?a + i) mod N)) [0..<length arr]
          = map (\<lambda>i. st_ring s ! ((?a + i) mod N)) [0..<length arr]"
        by (intro map_cong) (auto simp: nth_list_update_neq [OF not_sym])
      also have "\<dots> = map Some (held N arr)" using s(6) by (simp only: len)
      finally show ?thesis .
    qed
    moreover have "(?a + length arr) mod N < length (st_ring s)" using s(2,3) by simp
    ultimately show ?thesis
      using False s len by (simp add: stream_append_def Let_def mqtt_rep_def held_stamped)
  qed
qed

lemma nats_append:
  assumes "nats_rep N arr live s"
  shows "nats_rep N (stamped arr m) live (nats_deliver m s)"
proof -
  have s: "slice_rep N arr live s" "ls_buffer s = N" using assms by (auto simp: nats_rep_def)
  show ?thesis
  proof (cases "N \<le> length arr")
    case True
    then have "length (held N arr) = N" by (simp add: length_held)
    then have "drop (Suc N - N) (held N arr @ [x]) = tl (held N arr) @ [x]" for x
      using s(1) by (cases "held N arr") (auto simp: slice_rep_def)
    then show ?thesis
      using True s by (simp add: nats_deliver_def Let_def nats_rep_def slice_rep_def held_stamped length_held)
  next
    case False
    then show ?thesis
      using s by (simp add: nats_deliver_def Let_def nats_rep_def slice_rep_def held_stamped length_held)
  qed
qed

lemma activemq_append_rep:
  assumes "slice_rep N arr live s"
  shows "\<exists>s'. activemq_append m N s = Some s' \<and> slice_rep N (stamped arr m) live s'"
proof (cases "N \<le> length arr")
  case True
  then have "held N arr \<noteq> []" using assms length_held [of N arr] by (auto simp: slice_rep_def)
  then show ?thesis
    using True assms by (simp add: activemq_append_def Let_def slice_rep_def held_stamped length_held)
next
  case False
  then show ?thesis
    using assms by (simp add: activemq_append_def Let_def slice_rep_def held_stamped length_held)
qed

text \<open>The loops collect the messages above the cursor, up to the limit.\<close>

definition above :: "int \<Rightarrow> int \<Rightarrow> nat \<Rightarrow> LiveMessage list \<Rightarrow> LiveMessage list" where
  "above after limit n ms = (let fs = filter (\<lambda>m. after < lm_seq m) ms in if 0 < limit then take (nat limit - n) fs else fs)"

lemma above_skip: "lm_seq m \<le> after \<Longrightarrow> above after limit n (m # ms) = above after limit n ms"
  by (simp add: above_def)

lemma above_full: "0 < limit \<Longrightarrow> limit \<le> int n \<Longrightarrow> above after limit n ms = []"
  by (simp add: above_def Let_def nat_le_iff)

lemma above_take:
  "\<not> lm_seq m \<le> after \<Longrightarrow> \<not> (0 < limit \<and> limit \<le> int n) \<Longrightarrow> above after limit n (m # ms) = m # above after limit (Suc n) ms"
proof -
  assume a: "\<not> lm_seq m \<le> after" "\<not> (0 < limit \<and> limit \<le> int n)"
  have "nat limit - n = Suc (nat limit - Suc n)" if "0 < limit" using a(2) that by linarith
  then show ?thesis using a(1) by (simp add: above_def Let_def)
qed

lemma poll_loop_eq:
  "map (\<lambda>i. st_ring s ! ((st_start s + i) mod length (st_ring s))) is = map Some ms \<Longrightarrow>
   poll_loop s after limit is b = Some (let add = above after limit (length (lb_messages b)) ms in
     b\<lparr>lb_messages := lb_messages b @ add, lb_cursor := (if add = [] then lb_cursor b else lm_seq (last add))\<rparr>)"
proof (induction "is" arbitrary: b ms)
  case Nil
  then show ?case by (simp add: above_def)
next
  case (Cons i "is")
  then obtain m rest where ms: "ms = m # rest" by (cases ms) auto
  with Cons.prems have m: "st_ring s ! ((st_start s + i) mod length (st_ring s)) = Some m"
    "map (\<lambda>i. st_ring s ! ((st_start s + i) mod length (st_ring s))) is = map Some rest" by auto
  show ?case
  proof (cases "lm_seq m \<le> after")
    case True
    then show ?thesis using m Cons.IH [OF m(2)] by (simp add: ms above_skip)
  next
    case False
    then show ?thesis using m Cons.IH [OF m(2)] by (auto simp: ms above_full above_take Let_def)
  qed
qed

lemma drain_loop_eq:
  "0 < limit \<Longrightarrow> int (length (lb_messages b)) < limit \<Longrightarrow>
   drain_loop after limit ms b = (let add = above after limit (length (lb_messages b)) ms in
     b\<lparr>lb_messages := lb_messages b @ add,
       lb_cursor := (if nat limit \<le> length (lb_messages b) + length add then lm_seq (last add) else lb_cursor b)\<rparr>)"
proof (induction ms arbitrary: b)
  case Nil
  then show ?case by (simp add: above_def nat_le_iff)
next
  case (Cons m ms)
  show ?case
  proof (cases "lm_seq m \<le> after")
    case True
    then show ?thesis using Cons by (simp add: above_skip)
  next
    case False
    show ?thesis
    proof (cases "limit \<le> int (length (lb_messages b)) + 1")
      case True
      then have "above after limit (Suc (length (lb_messages b))) ms = []" using Cons.prems by (intro above_full) auto
      then show ?thesis using True False Cons.prems by (simp add: above_take Let_def nat_le_iff)
    next
      case 2: False
      then show ?thesis using False Cons.prems Cons.IH [of "b\<lparr>lb_messages := lb_messages b @ [m]\<rparr>"]
        by (auto simp: above_take Let_def nat_le_iff)
    qed
  qed
qed

lemma above_fresh: "above after limit 0 (held N arr) = fresh N arr after limit"
  by (simp add: above_def fresh_def Let_def)

lemma fresh_caught_up:
  assumes "numbered arr" and "0 < N" and "c \<le> length arr" and "0 < limit"
    and "length (fresh N arr (int c) limit) < nat limit"
  shows "fresh N arr (int c) limit = [] \<and> c = length arr
    \<or> fresh N arr (int c) limit \<noteq> [] \<and> lm_seq (last (fresh N arr (int c) limit)) = int (length arr)"
proof -
  let ?k = "max c (length arr - N)"
  have f: "fresh N arr (int c) limit = take (nat limit) (drop ?k arr)" by (rule fresh_numbered [OF assms(1,4,3)])
  then have n: "length (fresh N arr (int c) limit) = length arr - ?k" using assms(5) by (simp add: min_def split: if_splits)
  show ?thesis
  proof (cases "fresh N arr (int c) limit = []")
    case True
    then have "length arr \<le> ?k" using n by simp
    then show ?thesis using True assms(2,3) by (cases arr) (auto simp: max_def split: if_splits)
  next
    case False
    then have "?k + length (fresh N arr (int c) limit) = length arr" using n by (cases "length arr \<le> ?k") auto
    then show ?thesis using False last_numbered [OF assms(1) f False] by simp
  qed
qed

lemma mqtt_poll:
  assumes "mqtt_rep N arr live s" and "0 < limit" and "c \<le> length arr"
  shows "stream_poll s (int c) limit = Some (batch_of N arr live (int c) limit)"
proof -
  let ?f = "fresh N arr (int c) limit"
  have s: "numbered arr" "0 < N" "length (st_ring s) = N" "st_start s < N" "st_length s = min N (length arr)"
    "map (\<lambda>i. st_ring s ! ((st_start s + i) mod N)) [0..<st_length s] = map Some (held N arr)"
    "st_received s = int (length arr)" "st_dropped s = int (length arr - N)" "st_live s = live"
    using assms(1) by (auto simp: mqtt_rep_def)
  have oldest: "oldestSeqLocked s = Some (if arr = [] then 0 else lm_seq (hd (held N arr)))"
  proof (cases "arr = []")
    case False
    then have h: "held N arr \<noteq> []" using s(2) length_held [of N arr] by (cases arr) (auto simp: min_def split: if_splits)
    then have "st_ring s ! (st_start s mod N) = Some (held N arr ! 0)"
      using arg_cong [OF s(6), of "\<lambda>l. l ! 0"] s(5) by (simp add: length_held s(2) False)
    moreover have "st_length s \<noteq> 0" using False s(2,5) by (cases arr) (auto simp: min_def)
    ultimately show ?thesis using False h s(4) by (simp add: oldestSeqLocked_def hd_conv_nth)
  qed (use s in \<open>simp add: oldestSeqLocked_def\<close>)
  have quiet: "\<not> int c < lm_seq (hd (held N arr)) - 1" if "?f = []" "arr \<noteq> []"
  proof -
    have "c = length arr" using fresh_caught_up [OF s(1,2) assms(3,2)] that(1) assms(2) by auto
    moreover have "lm_seq (hd (held N arr)) = int (length arr - N) + 1"
      using numbered_nth [OF s(1), of "length arr - N"] that(2) s(2) by (simp add: held_def hd_drop_conv_nth)
    ultimately show ?thesis by simp
  qed
  have "stream_poll s (int c) limit =
    (case Some (let b = \<lparr>lb_messages = [], lb_cursor = int c, lb_dropped = st_dropped s, lb_received = st_received s, lb_live = st_live s\<rparr>;
          add = above (int c) limit (length (lb_messages b)) (held N arr) in
        b\<lparr>lb_messages := lb_messages b @ add, lb_cursor := (if add = [] then lb_cursor b else lm_seq (last add))\<rparr>) of
       None \<Rightarrow> None
     | Some batch \<Rightarrow>
         (case oldestSeqLocked s of None \<Rightarrow> None
          | Some oldest \<Rightarrow>
              Some (if lb_messages batch = [] \<and> 0 < oldest \<and> int c < oldest - 1
                    then batch\<lparr>lb_cursor := oldest - 1\<rparr> else batch)))"
    using poll_loop_eq [of s "[0..<st_length s]" "held N arr"] s(3,6) by (simp add: stream_poll_def Let_def)
  then show ?thesis using quiet s(7-9) by (auto simp: oldest above_fresh batch_of_def Let_def)
qed

lemma slice_drain:
  assumes "slice_rep N arr live s" and "0 < limit" and "c \<le> length arr"
  shows "drain_loop (int c) limit (ls_messages s) (live_batch s) = batch_of N arr live (int c) limit"
proof -
  let ?f = "fresh N arr (int c) limit"
  have s: "numbered arr" "0 < N" "ls_messages s = held N arr" "ls_next s = int (length arr)"
    "ls_received s = int (length arr)" "ls_dropped s = int (length arr - N)" "ls_live s = live"
    using assms(1) by (auto simp: slice_rep_def)
  have "(if nat limit \<le> length ?f then lm_seq (last ?f) else int (length arr)) = (if ?f = [] then int c else lm_seq (last ?f))"
    using fresh_caught_up [OF s(1,2) assms(3,2)] assms(2) by (cases "nat limit \<le> length ?f") auto
  moreover have "drain_loop (int c) limit (ls_messages s) (live_batch s) =
     (live_batch s)\<lparr>lb_messages := ?f, lb_cursor := (if nat limit \<le> length ?f then lm_seq (last ?f) else int (length arr))\<rparr>"
    using drain_loop_eq [OF assms(2), of "live_batch s" "int c" "ls_messages s"] assms(2)
    by (simp add: live_batch_def Let_def s above_fresh)
  ultimately show ?thesis by (simp add: live_batch_def s batch_of_def)
qed

section \<open>The interface, and what following a stream shows\<close>

text \<open>
  \<open>follow\<close> is a client that polls with the cursor of its last answer, between arrivals in any
  order; \<open>got\<close> is everything it was answered.
\<close>

datatype feed_event = Arrives LiveMessage | Polls

fun follow :: "(LiveMessage \<Rightarrow> 's \<Rightarrow> 's option) \<Rightarrow> ('s \<Rightarrow> int \<Rightarrow> int \<Rightarrow> LiveBatch option) \<Rightarrow> int \<Rightarrow> feed_event list
    \<Rightarrow> 's \<Rightarrow> int \<Rightarrow> LiveMessage list \<Rightarrow> ('s \<times> int \<times> LiveMessage list) option" where
  "follow deliver poll limit [] s c got = Some (s, c, got)"
| "follow deliver poll limit (Arrives m # es) s c got =
     (case deliver m s of None \<Rightarrow> None | Some s' \<Rightarrow> follow deliver poll limit es s' c got)"
| "follow deliver poll limit (Polls # es) s c got =
     (case poll s c limit of
        None \<Rightarrow> None | Some b \<Rightarrow> follow deliver poll limit es s (lb_cursor b) (got @ lb_messages b))"

text \<open>The log, the position in it and the positions answered, in step with the client.\<close>

definition next_range :: "nat \<Rightarrow> int \<Rightarrow> nat \<Rightarrow> nat \<Rightarrow> nat \<times> nat" where
  "next_range N limit n c = (max c (n - N), min n (max c (n - N) + nat limit))"

fun followed :: "nat \<Rightarrow> int \<Rightarrow> feed_event list \<Rightarrow> LiveMessage list \<Rightarrow> nat \<Rightarrow> nat list \<Rightarrow> LiveMessage list \<times> nat \<times> nat list" where
  "followed N limit [] arr c seen = (arr, c, seen)"
| "followed N limit (Arrives m # es) arr c seen = followed N limit es (stamped arr m) c seen"
| "followed N limit (Polls # es) arr c seen =
     followed N limit es arr (snd (next_range N limit (length arr) c))
       (seen @ [fst (next_range N limit (length arr) c)..<snd (next_range N limit (length arr) c)])"

fun arrivals :: "feed_event list \<Rightarrow> LiveMessage list" where
  "arrivals [] = []"
| "arrivals (Arrives m # es) = m # arrivals es"
| "arrivals (Polls # es) = arrivals es"

lemma followed_arrivals:
  "followed N limit es arr c seen = (arr', c', seen') \<Longrightarrow>
   map (\<lambda>m. m\<lparr>lm_seq := 0\<rparr>) arr' = map (\<lambda>m. m\<lparr>lm_seq := 0\<rparr>) (arr @ arrivals es)"
  by (induction es arbitrary: arr c seen rule: arrivals.induct) (auto simp: stamped_def Let_def)

text \<open>Positions are answered once and in order, and those passed over had left the buffer.\<close>

definition in_step :: "nat \<Rightarrow> LiveMessage list \<Rightarrow> nat \<Rightarrow> nat list \<Rightarrow> bool" where
  "in_step N arr c seen \<longleftrightarrow> sorted_wrt (<) seen \<and> set seen \<subseteq> {..<c} \<and> c \<le> length arr
     \<and> {..<c} - set seen \<subseteq> {..<length arr - N}"

lemma in_step_poll:
  assumes "in_step N arr c seen" and "lo = max c (length arr - N)" and "hi = min (length arr) (lo + n)"
    and "c \<le> hi"
  shows "in_step N arr hi (seen @ [lo..<hi])"
proof -
  have "{..<hi} - set (seen @ [lo..<hi]) \<subseteq> {..<length arr - N}"
  proof
    fix x assume x: "x \<in> {..<hi} - set (seen @ [lo..<hi])"
    show "x \<in> {..<length arr - N}"
    proof (cases "x < c")
      case True
      then show ?thesis using x assms(1) by (auto simp: in_step_def)
    next
      case False
      then show ?thesis using x assms(2) by auto
    qed
  qed
  moreover have "sorted_wrt (<) (seen @ [lo..<hi])"
    using assms(1,2) by (fastforce simp: in_step_def sorted_wrt_append)
  moreover have "set (seen @ [lo..<hi]) \<subseteq> {..<hi}"
    using assms(1,4) by (fastforce simp: in_step_def)
  ultimately show ?thesis using assms(3) by (simp add: in_step_def)
qed

lemma followed_in_step:
  "in_step N arr c seen \<Longrightarrow> 0 < N \<Longrightarrow> followed N limit es arr c seen = (arr', c', seen') \<Longrightarrow> in_step N arr' c' seen'"
proof (induction es arbitrary: arr c seen rule: arrivals.induct)
  case (2 m es)
  have "in_step N (stamped arr m) c seen" using 2(2) by (fastforce simp: in_step_def)
  then show ?case using 2 by simp
next
  case (3 es)
  have "c \<le> min (length arr) (max c (length arr - N) + nat limit)" using 3(2) by (simp add: in_step_def)
  from in_step_poll [OF 3(2) refl refl this] show ?case using 3(1,3,4) by (simp add: next_range_def)
qed simp

lemma batch_at:
  assumes "numbered arr" and "0 < N" and "0 < limit" and "c \<le> length arr"
  defines "lo \<equiv> max c (length arr - N)"
  defines "hi \<equiv> min (length arr) (lo + nat limit)"
  shows "lb_messages (batch_of N arr live (int c) limit) = map ((!) arr) [lo..<hi]
    \<and> lb_cursor (batch_of N arr live (int c) limit) = int hi"
proof -
  have f: "fresh N arr (int c) limit = take (nat limit) (drop lo arr)"
    using fresh_numbered [OF assms(1,3,4)] by (simp add: lo_def)
  have "min (a - b) n = min a (b + n) - b" for a b n :: nat by (auto simp: min_def split: nat_diff_split)
  then have len: "length (fresh N arr (int c) limit) = hi - lo" by (simp add: f hi_def)
  have "fresh N arr (int c) limit = map ((!) arr) [lo..<hi]"
  proof (rule nth_equalityI)
    fix i assume "i < length (fresh N arr (int c) limit)"
    then show "fresh N arr (int c) limit ! i = map ((!) arr) [lo..<hi] ! i"
      using len f by (cases "lo + i < hi") auto
  qed (use len in simp)
  moreover have "(if fresh N arr (int c) limit = [] then int c else lm_seq (last (fresh N arr (int c) limit))) = int hi"
  proof (cases "fresh N arr (int c) limit = []")
    case True
    then have "length arr \<le> lo" using f assms(3) by auto
    then show ?thesis using True assms(2,4) by (cases arr) (auto simp: lo_def hi_def max_def split: if_splits)
  next
    case False
    then have "lo + length (fresh N arr (int c) limit) = hi" using len by (cases "hi \<le> lo") auto
    then show ?thesis using False last_numbered [OF assms(1) f False] by simp
  qed
  ultimately show ?thesis by (simp add: batch_of_def)
qed

locale live_buffer =
  fixes rep :: "nat \<Rightarrow> LiveMessage list \<Rightarrow> bool \<Rightarrow> 's \<Rightarrow> bool"
    and deliver :: "LiveMessage \<Rightarrow> 's \<Rightarrow> 's option"
    and poll :: "'s \<Rightarrow> int \<Rightarrow> int \<Rightarrow> LiveBatch option"
  assumes rep_numbered: "rep N arr live s \<Longrightarrow> numbered arr \<and> 0 < N"
    and deliver_rep: "rep N arr live s \<Longrightarrow> \<exists>s'. deliver m s = Some s' \<and> rep N (stamped arr m) live s'"
    and poll_rep: "rep N arr live s \<Longrightarrow> 0 < limit \<Longrightarrow> limit \<le> 10000 \<Longrightarrow> c \<le> length arr
       \<Longrightarrow> poll s (int c) limit = Some (batch_of N arr live (int c) limit)"
begin

lemma follow_followed:
  assumes "rep N arr live s" and "0 < limit" and "limit \<le> 10000" and "c \<le> length arr" and "got = map ((!) arr) seen"
    and "set seen \<subseteq> {..<length arr}" and "followed N limit es arr c seen = (arr', c', seen')"
  shows "\<exists>s'. follow deliver poll limit es s (int c) got = Some (s', int c', map ((!) arr') seen') \<and> rep N arr' live s'"
  using assms
proof (induction es arbitrary: s arr c got seen)
  case (Cons e es)
  have wf: "numbered arr" "0 < N" using rep_numbered [OF Cons.prems(1)] by auto
  show ?case
  proof (cases e)
    case (Arrives m)
    obtain s' where s': "deliver m s = Some s'" "rep N (stamped arr m) live s'" using deliver_rep [OF Cons.prems(1)] by blast
    have "map ((!) arr) seen = map ((!) (stamped arr m)) seen"
      using Cons.prems(6) by (auto simp: stamped_def nth_append)
    then show ?thesis
      using Cons.IH [OF s'(2) Cons.prems(2,3), of c got seen] Cons.prems s'(1) lessThan_subset_iff [of "length arr" "Suc (length arr)"]
      by (simp add: Arrives subset_trans)
  next
    case Polls
    define lo where "lo = max c (length arr - N)"
    define hi where "hi = min (length arr) (lo + nat limit)"
    have b: "poll s (int c) limit = Some (batch_of N arr live (int c) limit)"
      using poll_rep [OF Cons.prems(1-4)] by simp
    note at = batch_at [OF wf Cons.prems(2,4), of live, folded lo_def, folded hi_def]
    have "set (seen @ [lo..<hi]) \<subseteq> {..<length arr}" "hi \<le> length arr" using Cons.prems(6) by (auto simp: hi_def)
    moreover have "followed N limit es arr hi (seen @ [lo..<hi]) = (arr', c', seen')"
      using Cons.prems(7) by (simp add: Polls next_range_def lo_def hi_def)
    ultimately show ?thesis
      using Cons.IH [OF Cons.prems(1-3), of hi "map ((!) arr) (seen @ [lo..<hi])" "seen @ [lo..<hi]"] Cons.prems(5) b at
      by (simp add: Polls)
  qed
qed simp

end

lemma mqtt_rep_wf: "mqtt_rep N arr live s \<Longrightarrow> numbered arr \<and> 0 < N"
  by (simp add: mqtt_rep_def)

lemma nats_rep_wf: "nats_rep N arr live s \<Longrightarrow> numbered arr \<and> 0 < N"
  by (simp add: nats_rep_def slice_rep_def)

lemma nats_poll_batch:
  "nats_rep N arr live s \<Longrightarrow> 0 < limit \<Longrightarrow> limit \<le> 10000 \<Longrightarrow> c \<le> length arr
   \<Longrightarrow> nats_poll s (int c) limit = batch_of N arr live (int c) limit"
  by (simp add: nats_poll_def maxLiveBuffer_def nats_rep_def slice_drain)

lemma activemq_poll_batch:
  "nats_rep N arr live s \<Longrightarrow> 0 < limit \<Longrightarrow> c \<le> length arr
   \<Longrightarrow> activemq_poll s (int c) limit = batch_of N arr live (int c) limit"
  by (simp add: activemq_poll_def nats_rep_def slice_drain)

lemma activemq_append_buffer: "activemq_append m n s = Some s' \<Longrightarrow> ls_buffer s' = ls_buffer s"
  by (auto simp: activemq_append_def Let_def split: if_splits)

interpretation mqtt_buffer: live_buffer mqtt_rep stream_append stream_poll
  by unfold_locales (auto simp: mqtt_poll intro: mqtt_append dest: mqtt_rep_wf)

interpretation nats_buffer: live_buffer nats_rep "\<lambda>m s. Some (nats_deliver m s)" "\<lambda>s after limit. Some (nats_poll s after limit)"
  by unfold_locales (auto simp: nats_poll_batch intro: nats_append dest: nats_rep_wf)

text \<open>An ActiveMQ receiver is started with the buffer its stream keeps, here remembered in \<open>ls_buffer\<close>.\<close>

interpretation activemq_buffer: live_buffer nats_rep "\<lambda>m s. activemq_append m (ls_buffer s) s"
    "\<lambda>s after limit. Some (activemq_poll s after limit)"
proof unfold_locales
  fix N arr live s m
  assume r: "nats_rep N arr live s"
  then obtain s' where "activemq_append m N s = Some s'" "slice_rep N (stamped arr m) live s'"
    using activemq_append_rep unfolding nats_rep_def by blast
  then show "\<exists>s'. activemq_append m (ls_buffer s) s = Some s' \<and> nats_rep N (stamped arr m) live s'"
    using r activemq_append_buffer by (auto simp: nats_rep_def)
qed (auto simp: activemq_poll_batch dest: nats_rep_wf)

text \<open>
  C5: Each of the three drivers' buffers, however its messages and the polls interleave, neither
  panics nor misreports: a client that polls with the cursor of its last answer is given each
  message of the log at most once and in order, and what it was not given before its cursor had
  been dropped as older than the newest \<open>N\<close>; the log is what arrived. A buffer holds at least one message,
  and a poll asks for one to ten thousand.
\<close>

theorem live_streams_followed:
  assumes "0 < N" and "0 < limit" and "limit \<le> 10000" and "followed N limit es [] 0 [] = (arr, c, seen)"
  shows "(\<exists>s. follow stream_append stream_poll limit es (newStream ident fs now N) 0 [] = Some (s, int c, map ((!) arr) seen))
    \<and> (\<exists>s. follow (\<lambda>m s. Some (nats_deliver m s)) (\<lambda>s after l. Some (nats_poll s after l)) limit es
          (nats_new ident fs now N) 0 [] = Some (s, int c, map ((!) arr) seen))
    \<and> (\<exists>s. follow (\<lambda>m s. activemq_append m (ls_buffer s) s) (\<lambda>s after l. Some (activemq_poll s after l)) limit es
          (nats_new ident fs now N) 0 [] = Some (s, int c, map ((!) arr) seen))
    \<and> sorted_wrt (<) seen \<and> set seen \<subseteq> {..<c} \<and> c \<le> length arr \<and> {..<c} - set seen \<subseteq> {..<length arr - N}
    \<and> map (\<lambda>m. m\<lparr>lm_seq := 0\<rparr>) arr = map (\<lambda>m. m\<lparr>lm_seq := 0\<rparr>) (arrivals es)"
proof -
  have "in_step N [] 0 []" by (simp add: in_step_def)
  from followed_in_step [OF this assms(1,4)] have "in_step N arr c seen" .
  moreover note mqtt_buffer.follow_followed [OF mqtt_new [OF assms(1), of ident fs now] assms(2,3), of 0 "[]" "[]" es arr c seen]
    nats_buffer.follow_followed [OF nats_new [OF assms(1), of ident fs now] assms(2,3), of 0 "[]" "[]" es arr c seen]
    activemq_buffer.follow_followed [OF nats_new [OF assms(1), of ident fs now] assms(2,3), of 0 "[]" "[]" es arr c seen]
  ultimately show ?thesis using assms(4) followed_arrivals [OF assms(4)] by (auto simp: in_step_def)
qed

definition sample_live :: "string \<Rightarrow> LiveMessage" where
  "sample_live body = \<lparr>lm_seq = 0, lm_destination = u ''t'', lm_filter = u ''#'', lm_receivedAt = [], lm_body = u body,
     lm_truncated = False, lm_attributes = []\<rparr>"

text \<open>Three arrivals in a ring of two: the first is lost, and the poll says so.\<close>

theorem live_streams_followed_witness:
  "\<exists>s arr. follow stream_append stream_poll 500
      [Arrives (sample_live ''a''), Arrives (sample_live ''b''), Arrives (sample_live ''c''), Polls]
      (newStream [] [] [] 2) 0 [] = Some (s, 3, map ((!) arr) [1, 2]) \<and> map lm_body arr = [u ''a'', u ''b'', u ''c'']"
proof -
  let ?es = "[Arrives (sample_live ''a''), Arrives (sample_live ''b''), Arrives (sample_live ''c''), Polls]"
  define arr where "arr = stamped (stamped (stamped [] (sample_live ''a'')) (sample_live ''b'')) (sample_live ''c'')"
  have f: "followed 2 500 ?es [] 0 [] = (arr, 3, [1, 2])" by (simp add: arr_def next_range_def upt_rec)
  have "map lm_body arr = [u ''a'', u ''b'', u ''c'']" by (simp add: arr_def stamped_def sample_live_def)
  moreover have "\<exists>s. follow stream_append stream_poll 500 ?es (newStream [] [] [] 2) 0 [] = Some (s, int 3, map ((!) arr) [1, 2])"
    by (rule live_streams_followed [OF _ _ _ f, of "[]" "[]" "[]", THEN conjunct1]) simp_all
  ultimately show ?thesis by (metis of_nat_numeral)
qed

end
