(* ===== verification/Runs.thy ===== *)
theory Runs
  imports Main
begin

text \<open>
  Runs of a step relation whose steps carry their action, under a predicate on the actions taken:
  what the theories with asynchronous state share.
\<close>

inductive run :: "('a \<Rightarrow> 's \<Rightarrow> 's \<Rightarrow> bool) \<Rightarrow> ('a \<Rightarrow> 's \<Rightarrow> bool) \<Rightarrow> 's \<Rightarrow> 's \<Rightarrow> bool" for step allowed where
  run_refl: "run step allowed s s"
| run_step: "run step allowed s s' \<Longrightarrow> allowed a s' \<Longrightarrow> step a s' s'' \<Longrightarrow> run step allowed s s''"

lemma run_invariant:
  assumes "run step allowed s s'" and "ok s" and "\<And>a s s'. step a s s' \<Longrightarrow> allowed a s \<Longrightarrow> ok s \<Longrightarrow> ok s'"
  shows "ok s'"
  using assms(1,2) by (induction rule: run.induct) (auto intro: assms(3))

lemma run_trans: "run step allowed s' s'' \<Longrightarrow> run step allowed s s' \<Longrightarrow> run step allowed s s''"
  by (induction rule: run.induct) (auto intro: run_step)

lemma run_mono: "run step allowed s s' \<Longrightarrow> (\<And>a s. allowed a s \<Longrightarrow> allowed' a s) \<Longrightarrow> run step allowed' s s'"
  by (induction rule: run.induct) (auto intro: run.intros)

end
