(* ===== verification/Live_Panel.thy ===== *)
theory Live_Panel
  imports Live_Stream Runs
begin

text \<open>
  The panel that watches a live stream (\<open>hooks/mqtt/useMqttStream.ts\<close>; \<open>hooks/nats/useNatsStream.ts\<close>
  and \<open>hooks/activemq/useActiveMQStream.ts\<close> are the same hook over their own requests). Its state
  and refs are a record; each callback and each effect is a function that returns the new state
  and the requests it sends; requests and answers travel on their own, so a step relation lets
  them interleave with the user, the timer and the broker in any order. An effect's \<open>cancelled\<close> flag is the
  number of the effect: the answer to a request of an earlier one is ignored. A state update is
  rendered before the next callback runs.
\<close>

definition KEEP :: nat where "KEEP = 500"

record panel =
  pn_messages :: "LiveMessage list"
  pn_filters :: "jsstr list"
  pn_running :: bool
  pn_live :: bool
  pn_received :: int
  pn_dropped :: int
  pn_error :: "jsstr option"
  pn_subscription :: "jsstr option"
  pn_cursor :: int
  pn_connection :: int
  pn_timer :: nat
  pn_mount :: nat

text \<open>The requests; a poll and a listing carry the number of the effect that sent them.\<close>

datatype request =
    StartReq int "LiveFilter list"
  | StopReq int jsstr
  | PollReq nat int jsstr int
  | ListReq nat int

section \<open>Callbacks and effects\<close>

definition new_panel :: "int \<Rightarrow> panel" where
  "new_panel conn = \<lparr>pn_messages = [], pn_filters = [], pn_running = False, pn_live = True, pn_received = 0, pn_dropped = 0,
     pn_error = None, pn_subscription = None, pn_cursor = 0, pn_connection = conn, pn_timer = 0, pn_mount = 0\<rparr>"

text \<open>The poll effect is torn down and set up again when \<open>running\<close> changes.\<close>

definition setRunning :: "bool \<Rightarrow> panel \<Rightarrow> panel" where
  "setRunning b p = (if pn_running p = b then p else p\<lparr>pn_running := b, pn_timer := pn_timer p + 1\<rparr>)"

definition panel_stop :: "panel \<Rightarrow> panel \<times> request list" where
  "panel_stop p =
    ((setRunning False (p\<lparr>pn_subscription := None\<rparr>))\<lparr>pn_filters := []\<rparr>,
     case pn_subscription p of
       None \<Rightarrow> []
     | Some ident \<Rightarrow> if pn_connection p = 0 then [] else [StopReq (pn_connection p) ident])"

definition panel_start :: "LiveFilter list \<Rightarrow> panel \<Rightarrow> panel \<times> request list" where
  "panel_start input p =
    (if pn_connection p = 0 then (p, [])
     else (p\<lparr>pn_subscription := None, pn_error := None, pn_messages := [], pn_received := 0, pn_dropped := 0,
             pn_live := True, pn_cursor := 0\<rparr>,
           (case pn_subscription p of None \<Rightarrow> [] | Some previous \<Rightarrow> [StopReq (pn_connection p) previous])
           @ [StartReq (pn_connection p) input]))"

definition panel_started :: "jsstr \<Rightarrow> LiveFilter list \<Rightarrow> panel \<Rightarrow> panel" where
  "panel_started ident filters p =
     setRunning True (p\<lparr>pn_subscription := Some ident, pn_filters := map lf_pattern filters\<rparr>)"

definition panel_failed :: "jsstr \<Rightarrow> panel \<Rightarrow> panel" where
  "panel_failed cause p = setRunning False (p\<lparr>pn_error := Some cause\<rparr>)"

definition panel_clear :: "panel \<Rightarrow> panel" where
  "panel_clear p = p\<lparr>pn_messages := []\<rparr>"

definition panel_tick :: "panel \<Rightarrow> request list" where
  "panel_tick p =
    (if \<not> pn_running p then []
     else case pn_subscription p of
       None \<Rightarrow> []
     | Some ident \<Rightarrow>
         if pn_connection p = 0 then [] else [PollReq (pn_timer p) (pn_connection p) ident (pn_cursor p)])"

definition panel_batch :: "nat \<Rightarrow> LiveBatch \<Rightarrow> panel \<Rightarrow> panel" where
  "panel_batch timer batch p =
    (if timer \<noteq> pn_timer p then p
     else let p = p\<lparr>pn_cursor := lb_cursor batch, pn_received := lb_received batch, pn_dropped := lb_dropped batch,
                    pn_live := lb_live batch\<rparr>
          in if lb_messages batch = [] then p
             else p\<lparr>pn_messages := held KEEP (pn_messages p @ lb_messages batch)\<rparr>)"

definition panel_poll_failed :: "nat \<Rightarrow> jsstr \<Rightarrow> panel \<Rightarrow> panel" where
  "panel_poll_failed timer cause p = (if timer \<noteq> pn_timer p then p else panel_failed cause p)"

text \<open>The effect of mounting, and of the connection changing: adopt a stream that is running.\<close>

definition panel_mount :: "panel \<Rightarrow> request list" where
  "panel_mount p = (if pn_connection p = 0 \<or> pn_subscription p \<noteq> None then [] else [ListReq (pn_mount p) (pn_connection p)])"

definition panel_connect :: "int \<Rightarrow> panel \<Rightarrow> panel \<times> request list" where
  "panel_connect conn p =
    (if conn = pn_connection p then (p, [])
     else let p = p\<lparr>pn_connection := conn, pn_mount := pn_mount p + 1\<rparr> in (p, panel_mount p))"

definition panel_adopt :: "nat \<Rightarrow> (jsstr \<times> LiveFilter list) list \<Rightarrow> panel \<Rightarrow> panel" where
  "panel_adopt mount existing p =
    (if mount \<noteq> pn_mount p then p
     else case existing of
       [] \<Rightarrow> p
     | (ident, filters) # _ \<Rightarrow>
         setRunning True (p\<lparr>pn_subscription := Some ident, pn_cursor := 0, pn_filters := map lf_pattern filters\<rparr>))"

section \<open>The panel, the service and the broker together\<close>

text \<open>
  A stream as the contract of \<open>Live_Stream\<close> describes it: its capacity, the log of what was
  delivered, and whether it is open; \<open>stream_poll_ok\<close> below is what the three buffers answer.
\<close>

record server_stream =
  ss_filters :: "LiveFilter list"
  ss_buffer :: nat
  ss_log :: "LiveMessage list"
  ss_live :: bool
  ss_open :: bool

datatype reply =
    StartReply "jsstr + (jsstr \<times> LiveFilter list)"
  | PollReply nat "jsstr + LiveBatch"
  | ListReply nat "jsstr + (jsstr \<times> LiveFilter list) list"

type_synonym streams = "int \<times> jsstr \<Rightarrow> server_stream option"

record system =
  sy_panel :: panel
  sy_streams :: streams
  sy_requests :: "request list"
  sy_replies :: "reply list"

fun panel_reply :: "reply \<Rightarrow> panel \<Rightarrow> panel" where
  "panel_reply (StartReply (Inl cause)) p = panel_failed cause p"
| "panel_reply (StartReply (Inr (ident, filters))) p = panel_started ident filters p"
| "panel_reply (PollReply timer (Inl cause)) p = panel_poll_failed timer cause p"
| "panel_reply (PollReply timer (Inr batch)) p = panel_batch timer batch p"
| "panel_reply (ListReply mount (Inl cause)) p = p"
| "panel_reply (ListReply mount (Inr existing)) p = panel_adopt mount existing p"

text \<open>What the service makes of a request: any may fail; an identifier is never used twice.\<close>

inductive serves :: "streams \<Rightarrow> request \<Rightarrow> streams \<Rightarrow> reply list \<Rightarrow> bool" where
  start_ok: "st (conn, ident) = None \<Longrightarrow> 0 < N \<Longrightarrow>
     serves st (StartReq conn filters)
       (st((conn, ident) \<mapsto> \<lparr>ss_filters = filters, ss_buffer = N, ss_log = [], ss_live = True, ss_open = True\<rparr>))
       [StartReply (Inr (ident, filters))]"
| start_error: "serves st (StartReq conn filters) st [StartReply (Inl cause)]"
| poll_ok: "st (conn, ident) = Some s \<Longrightarrow> ss_open s \<Longrightarrow>
     serves st (PollReq timer conn ident after) st
       [PollReply timer (Inr (batch_of (ss_buffer s) (ss_log s) (ss_live s) after (int KEEP)))]"
| poll_error: "serves st (PollReq timer conn ident after) st [PollReply timer (Inl cause)]"
| stop_ok: "st (conn, ident) = Some s \<Longrightarrow> serves st (StopReq conn ident) (st((conn, ident) \<mapsto> s\<lparr>ss_open := False\<rparr>)) []"
| stop_error: "serves st (StopReq conn ident) st []"
| list_ok: "set (map fst existing) \<subseteq> {ident. \<exists>s. st (conn, ident) = Some s \<and> ss_open s} \<Longrightarrow>
     serves st (ListReq mount conn) st [ListReply mount (Inr existing)]"
| list_error: "serves st (ListReq mount conn) st [ListReply mount (Inl cause)]"

definition send :: "panel \<times> request list \<Rightarrow> system \<Rightarrow> system" where
  "send pr sy = sy\<lparr>sy_panel := fst pr, sy_requests := sy_requests sy @ snd pr\<rparr>"

datatype action = Start "LiveFilter list" | Stop | Clear | Tick | Connect int | Serve | Answer | Publish | Session

inductive sys_step :: "action \<Rightarrow> system \<Rightarrow> system \<Rightarrow> bool" where
  do_start: "sys_step (Start input) sy (send (panel_start input (sy_panel sy)) sy)"
| do_stop: "sys_step Stop sy (send (panel_stop (sy_panel sy)) sy)"
| do_clear: "sys_step Clear sy (send (panel_clear (sy_panel sy), []) sy)"
| do_tick: "sys_step Tick sy (send (sy_panel sy, panel_tick (sy_panel sy)) sy)"
| do_connect: "sys_step (Connect conn) sy (send (panel_connect conn (sy_panel sy)) sy)"
| do_serve: "sy_requests sy = rs @ r # rs' \<Longrightarrow> serves (sy_streams sy) r st replies \<Longrightarrow>
     sys_step Serve sy (sy\<lparr>sy_streams := st, sy_requests := rs @ rs', sy_replies := sy_replies sy @ replies\<rparr>)"
| do_answer: "sy_replies sy = rs @ r # rs' \<Longrightarrow>
     sys_step Answer sy (sy\<lparr>sy_panel := panel_reply r (sy_panel sy), sy_replies := rs @ rs'\<rparr>)"
| do_publish: "sy_streams sy k = Some s \<Longrightarrow>
     sys_step Publish sy (sy\<lparr>sy_streams := (sy_streams sy)(k \<mapsto> s\<lparr>ss_log := stamped (ss_log s) m\<rparr>)\<rparr>)"
| do_session: "sy_streams sy k = Some s \<Longrightarrow>
     sys_step Session sy (sy\<lparr>sy_streams := (sy_streams sy)(k \<mapsto> s\<lparr>ss_live := live\<rparr>)\<rparr>)"

abbreviation reaches :: "(action \<Rightarrow> system \<Rightarrow> bool) \<Rightarrow> system \<Rightarrow> system \<Rightarrow> bool" where
  "reaches \<equiv> run sys_step"

lemmas reaches_step = run_step [where step = sys_step]

definition mounted :: "int \<Rightarrow> streams \<Rightarrow> system" where
  "mounted conn st = \<lparr>sy_panel = new_panel conn, sy_streams = st, sy_requests = panel_mount (new_panel conn), sy_replies = []\<rparr>"

text \<open>
  An orderly schedule: a stream is started, and a poll sent, only when no request but a stop is
  under way, and the panel keeps its connection.
\<close>

definition waits :: "request \<Rightarrow> bool" where
  "waits r \<longleftrightarrow> (case r of StopReq _ _ \<Rightarrow> False | _ \<Rightarrow> True)"

definition idle :: "system \<Rightarrow> bool" where
  "idle sy \<longleftrightarrow> filter waits (sy_requests sy) = [] \<and> sy_replies sy = []"

definition orderly :: "action \<Rightarrow> system \<Rightarrow> bool" where
  "orderly a sy \<longleftrightarrow> (case a of Start _ \<Rightarrow> idle sy | Tick \<Rightarrow> idle sy | Connect _ \<Rightarrow> False | _ \<Rightarrow> True)"

section \<open>What an orderly panel shows\<close>

text \<open>
  The positions shown: ascending, below the cursor, and without a gap from the first on but for
  messages the buffer had dropped.
\<close>

definition in_view :: "nat \<Rightarrow> LiveMessage list \<Rightarrow> nat \<Rightarrow> nat list \<Rightarrow> bool" where
  "in_view N arr c seen \<longleftrightarrow> sorted_wrt (<) seen \<and> set seen \<subseteq> {..<c} \<and> c \<le> length arr
     \<and> (seen \<noteq> [] \<longrightarrow> {hd seen..<c} - set seen \<subseteq> {..<length arr - N})"

definition continues :: "nat \<Rightarrow> LiveMessage list \<Rightarrow> nat \<Rightarrow> LiveBatch \<Rightarrow> bool" where
  "continues N arr c b \<longleftrightarrow> (\<exists>lo hi. lb_messages b = map ((!) arr) [lo..<hi] \<and> lb_cursor b = int hi
     \<and> c \<le> lo \<and> c \<le> hi \<and> hi \<le> length arr \<and> {c..<lo} \<subseteq> {..<length arr - N})"

lemma in_view_Nil [simp]: "in_view N arr c [] \<longleftrightarrow> c \<le> length arr"
  by (auto simp: in_view_def)

lemma in_view_stamped: "in_view N arr c seen \<Longrightarrow> in_view N (stamped arr m) c seen"
  by (fastforce simp: in_view_def)

lemma continues_stamped:
  assumes "continues N arr c b"
  shows "continues N (stamped arr m) c b"
proof -
  obtain lo hi where b: "lb_messages b = map ((!) arr) [lo..<hi]" "lb_cursor b = int hi" "c \<le> lo" "c \<le> hi" "hi \<le> length arr"
    "{c..<lo} \<subseteq> {..<length arr - N}"
    using assms by (auto simp: continues_def)
  have "map ((!) (stamped arr m)) [lo..<hi] = map ((!) arr) [lo..<hi]"
    using b(5) by (intro map_cong) (auto simp: stamped_def nth_append)
  moreover have "{c..<lo} \<subseteq> {..<length (stamped arr m) - N}" using b(6) by fastforce
  ultimately show ?thesis using b unfolding continues_def
    by (intro exI [of _ lo] exI [of _ hi]) simp
qed

lemma batch_continues:
  assumes "numbered arr" and "0 < N" and "c \<le> length arr"
  shows "continues N arr c (batch_of N arr live (int c) (int KEEP))"
proof -
  have "0 < int KEEP" by (simp add: KEEP_def)
  note at = batch_at [OF assms(1,2) this assms(3), of live]
  show ?thesis
    unfolding continues_def
    by (rule exI [of _ "max c (length arr - N)"],
        rule exI [of _ "min (length arr) (max c (length arr - N) + nat (int KEEP))"])
      (use at assms(3) in auto)
qed

lemma view_extend:
  assumes "in_view N arr c seen" and "c \<le> lo" and "c \<le> hi" and "hi \<le> length arr" and "{c..<lo} \<subseteq> {..<length arr - N}"
  shows "in_view N arr hi (seen @ [lo..<hi])"
proof -
  have "{hd (seen @ [lo..<hi])..<hi} - set (seen @ [lo..<hi]) \<subseteq> {..<length arr - N}" if ne: "seen @ [lo..<hi] \<noteq> []"
  proof
    fix x assume x: "x \<in> {hd (seen @ [lo..<hi])..<hi} - set (seen @ [lo..<hi])"
    then have notin: "x \<notin> set seen" "\<not> (lo \<le> x \<and> x < hi)" "x < hi" by auto
    show "x \<in> {..<length arr - N}"
    proof (cases "seen = []")
      case True
      then have "lo < hi" using ne by simp
      then show ?thesis using x True notin by auto
    next
      case False
      then have "hd seen \<le> x" using x by simp
      show ?thesis
      proof (cases "x < c")
        case True
        then show ?thesis using assms(1) False notin \<open>hd seen \<le> x\<close> by (auto simp: in_view_def)
      next
        case 2: False
        then have "x \<in> {c..<lo}" using notin by auto
        then show ?thesis using assms(5) by blast
      qed
    qed
  qed
  moreover have "sorted_wrt (<) (seen @ [lo..<hi])"
    using assms(1,2) by (fastforce simp: in_view_def sorted_wrt_append)
  moreover have "set (seen @ [lo..<hi]) \<subseteq> {..<hi}" using assms(1,3) by (fastforce simp: in_view_def)
  ultimately show ?thesis using assms(4) by (simp add: in_view_def)
qed

lemma view_drop:
  assumes "in_view N arr c seen"
  shows "in_view N arr c (drop k seen)"
proof -
  have "{hd (drop k seen)..<c} - set (drop k seen) \<subseteq> {..<length arr - N}" if ne: "drop k seen \<noteq> []"
  proof
    fix x assume x: "x \<in> {hd (drop k seen)..<c} - set (drop k seen)"
    have "sorted_wrt (<) (take k seen @ drop k seen)" using assms by (simp add: in_view_def)
    then have before: "y < hd (drop k seen)" if "y \<in> set (take k seen)" for y
      using that ne by (simp only: sorted_wrt_append) (metis hd_in_set)
    have "x \<notin> set (take k seen)" using before [of x] x by auto
    then have "x \<notin> set seen" using x by (metis DiffD2 Un_iff append_take_drop_id set_append)
    moreover have "hd seen \<le> x"
    proof (cases "take k seen = []")
      case True
      then have "drop k seen = seen" by (metis append_Nil append_take_drop_id)
      then show ?thesis using x by auto
    next
      case False
      then have "hd seen \<in> set (take k seen)" by (metis append_take_drop_id hd_append2 hd_in_set)
      then show ?thesis using before [of "hd seen"] x by auto
    qed
    moreover have "seen \<noteq> []" using ne by auto
    ultimately show "x \<in> {..<length arr - N}" using assms x by (auto simp: in_view_def)
  qed
  moreover have "sorted_wrt (<) (drop k seen)" using assms by (simp add: in_view_def sorted_wrt_drop)
  moreover have "set (drop k seen) \<subseteq> {..<c}" using assms set_drop_subset [of k seen] by (auto simp: in_view_def)
  ultimately show ?thesis using assms by (simp add: in_view_def)
qed

lemma held_map: "held n (map f xs) = map f (held n xs)"
  by (simp add: held_def drop_map)

section \<open>The invariant of an orderly schedule\<close>

definition streams_ok :: "streams \<Rightarrow> bool" where
  "streams_ok st \<longleftrightarrow> (\<forall>k s. st k = Some s \<longrightarrow> numbered (ss_log s) \<and> 0 < ss_buffer s)"

definition shows_stream :: "panel \<Rightarrow> streams \<Rightarrow> jsstr \<Rightarrow> bool" where
  "shows_stream p st ident \<longleftrightarrow> (\<exists>s c seen. st (pn_connection p, ident) = Some s \<and> pn_cursor p = int c
     \<and> in_view (ss_buffer s) (ss_log s) c seen \<and> pn_messages p = map ((!) (ss_log s)) seen)"

definition showing :: "panel \<Rightarrow> streams \<Rightarrow> bool" where
  "showing p st \<longleftrightarrow> (case pn_subscription p of None \<Rightarrow> True | Some ident \<Rightarrow> shows_stream p st ident)"

fun request_ok :: "panel \<Rightarrow> request \<Rightarrow> bool" where
  "request_ok p (StartReq conn filters) \<longleftrightarrow> conn = pn_connection p \<and> pn_subscription p = None \<and> pn_messages p = [] \<and> pn_cursor p = 0"
| "request_ok p (StopReq conn ident) \<longleftrightarrow> True"
| "request_ok p (PollReq t conn ident after) \<longleftrightarrow> t \<le> pn_timer p
     \<and> (t = pn_timer p \<longrightarrow> pn_running p \<and> conn = pn_connection p \<and> pn_subscription p = Some ident \<and> after = pn_cursor p)"
| "request_ok p (ListReq m conn) \<longleftrightarrow> conn = pn_connection p \<and> pn_messages p = [] \<and> pn_subscription p = None"

definition batch_ok :: "panel \<Rightarrow> streams \<Rightarrow> LiveBatch \<Rightarrow> bool" where
  "batch_ok p st b \<longleftrightarrow> (\<exists>ident s c. pn_subscription p = Some ident \<and> st (pn_connection p, ident) = Some s
     \<and> pn_cursor p = int c \<and> continues (ss_buffer s) (ss_log s) c b)"

fun reply_ok :: "panel \<Rightarrow> streams \<Rightarrow> reply \<Rightarrow> bool" where
  "reply_ok p st (StartReply (Inl cause)) \<longleftrightarrow> pn_subscription p = None"
| "reply_ok p st (StartReply (Inr (ident, filters))) \<longleftrightarrow>
     pn_messages p = [] \<and> pn_cursor p = 0 \<and> st (pn_connection p, ident) \<noteq> None"
| "reply_ok p st (PollReply t (Inl cause)) \<longleftrightarrow> t \<le> pn_timer p"
| "reply_ok p st (PollReply t (Inr b)) \<longleftrightarrow> t \<le> pn_timer p \<and> (t = pn_timer p \<longrightarrow> pn_running p \<and> batch_ok p st b)"
| "reply_ok p st (ListReply m (Inl cause)) \<longleftrightarrow> True"
| "reply_ok p st (ListReply m (Inr existing)) \<longleftrightarrow>
     pn_messages p = [] \<and> fst ` set existing \<subseteq> {ident. st (pn_connection p, ident) \<noteq> None}"

definition sys_ok :: "system \<Rightarrow> bool" where
  "sys_ok sy \<longleftrightarrow> streams_ok (sy_streams sy) \<and> showing (sy_panel sy) (sy_streams sy)
     \<and> list_all (request_ok (sy_panel sy)) (sy_requests sy) \<and> list_all (reply_ok (sy_panel sy) (sy_streams sy)) (sy_replies sy)
     \<and> length (filter waits (sy_requests sy)) + length (sy_replies sy) \<le> 1 \<and> length (pn_messages (sy_panel sy)) \<le> KEEP"

text \<open>Streams only grow; closing one, or a session going down, leaves its log.\<close>

definition grows :: "streams \<Rightarrow> streams \<Rightarrow> bool" where
  "grows st st' \<longleftrightarrow> (\<forall>k s. st k = Some s \<longrightarrow> (\<exists>s'. st' k = Some s' \<and> ss_buffer s' = ss_buffer s
     \<and> (ss_log s' = ss_log s \<or> (\<exists>m. ss_log s' = stamped (ss_log s) m))))"

lemma growsD:
  assumes "grows st st'" and "st k = Some s"
  obtains s' where "st' k = Some s'" "ss_buffer s' = ss_buffer s" "ss_log s' = ss_log s"
  | s' m where "st' k = Some s'" "ss_buffer s' = ss_buffer s" "ss_log s' = stamped (ss_log s) m"
  using assms unfolding grows_def by blast

lemma grows_update:
  "st k = Some s \<Longrightarrow> ss_buffer s' = ss_buffer s \<Longrightarrow> ss_log s' = ss_log s \<or> (\<exists>m. ss_log s' = stamped (ss_log s) m)
   \<Longrightarrow> grows st (st(k \<mapsto> s'))"
  by (auto simp: grows_def)

lemma grows_fresh: "st k = None \<Longrightarrow> grows st (st(k \<mapsto> s'))"
  by (auto simp: grows_def)

lemma grows_refl [simp]: "grows st st"
  by (auto simp: grows_def)

lemma shows_grows:
  assumes "grows st st'" and "shows_stream p st ident"
  shows "shows_stream p st' ident"
proof -
  obtain s c seen where s: "st (pn_connection p, ident) = Some s" "pn_cursor p = int c"
    "in_view (ss_buffer s) (ss_log s) c seen" "pn_messages p = map ((!) (ss_log s)) seen"
    using assms(2) by (auto simp: shows_stream_def)
  from assms(1) s(1) show ?thesis
  proof (cases rule: growsD)
    case (1 s')
    then show ?thesis using s unfolding shows_stream_def by (intro exI [of _ s'] exI [of _ c] exI [of _ seen]) simp
  next
    case (2 s' m)
    have "map ((!) (stamped (ss_log s) m)) seen = map ((!) (ss_log s)) seen"
      using s(3) by (intro map_cong) (auto simp: in_view_def stamped_def nth_append)
    then show ?thesis using s 2 in_view_stamped unfolding shows_stream_def
      by (intro exI [of _ s'] exI [of _ c] exI [of _ seen]) simp
  qed
qed

lemma showing_grows: "grows st st' \<Longrightarrow> showing p st \<Longrightarrow> showing p st'"
  by (auto simp: showing_def shows_grows split: option.splits)

lemma batch_grows:
  assumes "grows st st'" and "batch_ok p st b"
  shows "batch_ok p st' b"
proof -
  obtain ident s c where s: "pn_subscription p = Some ident" "st (pn_connection p, ident) = Some s"
    "pn_cursor p = int c" "continues (ss_buffer s) (ss_log s) c b"
    using assms(2) by (auto simp: batch_ok_def)
  from assms(1) s(2) show ?thesis
    by (cases rule: growsD) (use s continues_stamped in \<open>auto simp: batch_ok_def\<close>)
qed

lemma grows_defined: "grows st st' \<Longrightarrow> st k = Some s \<Longrightarrow> \<exists>s'. st' k = Some s'"
  unfolding grows_def by blast

lemma reply_grows: "grows st st' \<Longrightarrow> reply_ok p st r \<Longrightarrow> reply_ok p st' r"
proof (cases "(p, st, r)" rule: reply_ok.cases)
  case (2 p' st1 ident filters)
  assume g: "grows st st'" and r: "reply_ok p st r"
  then show ?thesis using 2 grows_defined [OF g, of "(pn_connection p, ident)"] by auto
next
  case (4 p' st1 t b)
  assume g: "grows st st'" and r: "reply_ok p st r"
  then show ?thesis using 4 batch_grows [OF g] by auto
next
  case (6 p' st1 m existing)
  assume g: "grows st st'" and r: "reply_ok p st r"
  have "st (pn_connection p, i) \<noteq> None \<Longrightarrow> st' (pn_connection p, i) \<noteq> None" for i
    using grows_defined [OF g, of "(pn_connection p, i)"] by auto
  then show ?thesis using 6 r by (simp add: subset_iff)
qed auto

lemma streams_grow_ok:
  assumes "sys_ok sy" and "grows (sy_streams sy) st" and "streams_ok st"
  shows "sys_ok (sy\<lparr>sy_streams := st\<rparr>)"
  using assms showing_grows [OF assms(2)] reply_grows [OF assms(2)] by (auto simp: sys_ok_def list_all_iff)

lemma stops_only: "filter waits rs = [] \<Longrightarrow> list_all (request_ok p) rs"
  by (induction rs) (auto simp: waits_def split: request.splits if_splits)

lemma sys_ok_start:
  assumes "sys_ok sy" and "idle sy"
  shows "sys_ok (send (panel_start input (sy_panel sy)) sy)"
  using assms by (auto simp: sys_ok_def idle_def send_def panel_start_def showing_def stops_only waits_def KEEP_def split: option.splits)

lemma sys_ok_stop:
  assumes "sys_ok sy"
  shows "sys_ok (send (panel_stop (sy_panel sy)) sy)"
proof -
  let ?p = "sy_panel sy" and ?p' = "fst (panel_stop (sy_panel sy))"
  have p': "pn_subscription ?p' = None" "pn_messages ?p' = pn_messages ?p" "pn_cursor ?p' = pn_cursor ?p"
    "pn_connection ?p' = pn_connection ?p" "\<not> pn_running ?p'" "pn_timer ?p \<le> pn_timer ?p'" "pn_running ?p \<Longrightarrow> pn_timer ?p < pn_timer ?p'"
    by (auto simp: panel_stop_def setRunning_def)
  have late: "t < pn_timer ?p'" if "t \<le> pn_timer ?p" "t = pn_timer ?p \<longrightarrow> pn_running ?p" for t
    using p'(6,7) that by (cases "t = pn_timer ?p") auto
  have "request_ok ?p r \<Longrightarrow> request_ok ?p' r" for r
  proof (cases r)
    case (PollReq t conn ident after)
    assume "request_ok ?p r"
    then show ?thesis using PollReq late [of t] by auto
  qed (use p'(1-4) in auto)
  moreover have "reply_ok ?p st r \<Longrightarrow> reply_ok ?p' st r" for st r
  proof (cases "(?p, st, r)" rule: reply_ok.cases)
    case (4 p1 st1 t b)
    assume "reply_ok ?p st r"
    then show ?thesis using 4 late [of t] by auto
  qed (use p'(1-6) in auto)
  moreover have "filter waits (snd (panel_stop ?p)) = []" "list_all (request_ok ?p') (snd (panel_stop ?p))"
    by (auto simp: panel_stop_def waits_def split: option.splits)
  ultimately show ?thesis
    using assms p'(1,2) by (auto simp: sys_ok_def send_def showing_def list_all_iff)
qed

lemma sys_ok_clear:
  assumes "sys_ok sy"
  shows "sys_ok (send (panel_clear (sy_panel sy), []) sy)"
proof -
  let ?p = "sy_panel sy"
  have "shows_stream ?p st ident \<Longrightarrow> shows_stream (panel_clear ?p) st ident" for st ident
    unfolding shows_stream_def panel_clear_def by (auto simp: in_view_def [of _ _ _ "_ # _"]) (auto simp: in_view_def)
  moreover have "request_ok ?p r \<Longrightarrow> request_ok (panel_clear ?p) r" for r by (cases r) (auto simp: panel_clear_def)
  moreover have "reply_ok ?p st r \<Longrightarrow> reply_ok (panel_clear ?p) st r" for st r
    by (cases "(?p, st, r)" rule: reply_ok.cases) (auto simp: panel_clear_def batch_ok_def)
  ultimately show ?thesis
    using assms by (auto simp: sys_ok_def send_def showing_def list_all_iff panel_clear_def split: option.splits)
qed

lemma sys_ok_tick:
  assumes "sys_ok sy" and "idle sy"
  shows "sys_ok (send (sy_panel sy, panel_tick (sy_panel sy)) sy)"
  using assms by (auto simp: sys_ok_def idle_def send_def panel_tick_def stops_only waits_def split: option.splits)

lemma list_all_mid: "list_all P (xs @ x # ys) \<longleftrightarrow> P x \<and> list_all P (xs @ ys)"
  by auto

lemma sys_ok_serve:
  assumes "sys_ok sy" and rs: "sy_requests sy = rs @ r # rs'" and "serves (sy_streams sy) r st replies"
  shows "sys_ok (sy\<lparr>sy_streams := st, sy_requests := rs @ rs', sy_replies := sy_replies sy @ replies\<rparr>)"
proof -
  let ?p = "sy_panel sy"
  have ok: "streams_ok (sy_streams sy)" "showing ?p (sy_streams sy)" "request_ok ?p r" "list_all (request_ok ?p) (rs @ rs')"
    "list_all (reply_ok ?p (sy_streams sy)) (sy_replies sy)" "length (pn_messages ?p) \<le> KEEP"
    "length (filter waits (rs @ r # rs')) + length (sy_replies sy) \<le> 1"
    using assms(1) unfolding sys_ok_def rs list_all_mid by auto
  have "grows (sy_streams sy) st \<and> streams_ok st \<and> list_all (reply_ok ?p st) replies
      \<and> length replies \<le> (if waits r then 1 else 0)"
    using assms(3)
  proof (cases rule: serves.cases)
    case (start_ok conn ident N filters)
    then show ?thesis using ok(1,3) by (auto simp: grows_fresh streams_ok_def waits_def)
  next
    case (poll_ok conn ident s timer after)
    have "continues (ss_buffer s) (ss_log s) c (batch_of (ss_buffer s) (ss_log s) (ss_live s) (int c) (int KEEP))"
      if "c \<le> length (ss_log s)" for c
      using batch_continues that ok(1) poll_ok(4) by (auto simp: streams_ok_def)
    then show ?thesis using poll_ok ok(1,2,3)
      by (auto simp: waits_def showing_def shows_stream_def batch_ok_def in_view_def)
  next
    case (stop_ok conn ident s)
    then show ?thesis using ok(1) by (auto simp: grows_update streams_ok_def waits_def)
  next
    case (list_ok existing conn mount)
    then show ?thesis using ok(1,3) by (auto simp: waits_def)
  qed (use ok in \<open>auto simp: waits_def\<close>)
  then show ?thesis
    using ok showing_grows reply_grows by (auto simp: sys_ok_def list_all_iff split: if_splits)
qed

lemma view_held: "in_view N arr c seen \<Longrightarrow> in_view N arr c (held n seen)"
  unfolding held_def by (rule view_drop)

lemma shows_batch:
  assumes "shows_stream p st ident" and "pn_subscription p = Some ident" and "batch_ok p st b" and "t = pn_timer p"
  shows "shows_stream (panel_batch t b p) st ident"
proof -
  obtain s c seen where s: "st (pn_connection p, ident) = Some s" "pn_cursor p = int c"
    "in_view (ss_buffer s) (ss_log s) c seen" "pn_messages p = map ((!) (ss_log s)) seen"
    using assms(1) by (auto simp: shows_stream_def)
  obtain lo hi where b: "lb_messages b = map ((!) (ss_log s)) [lo..<hi]" "lb_cursor b = int hi" "c \<le> lo" "c \<le> hi"
    "hi \<le> length (ss_log s)" "{c..<lo} \<subseteq> {..<length (ss_log s) - ss_buffer s}"
    using assms(2,3) s(1,2) by (auto simp: batch_ok_def continues_def)
  define seen' where "seen' = (if lb_messages b = [] then seen @ [lo..<hi] else held KEEP (seen @ [lo..<hi]))"
  have "in_view (ss_buffer s) (ss_log s) hi seen'"
    using view_extend [OF s(3) b(3,4,5,6)] view_held by (simp add: seen'_def)
  moreover have "pn_messages (panel_batch t b p) = map ((!) (ss_log s)) seen'"
    using s(4) b(1) assms(4) by (auto simp: panel_batch_def Let_def seen'_def held_map [symmetric])
  moreover have "pn_connection (panel_batch t b p) = pn_connection p" "pn_cursor (panel_batch t b p) = int hi"
    using b(2) assms(4) by (auto simp: panel_batch_def Let_def)
  ultimately show ?thesis using s(1) unfolding shows_stream_def by auto
qed

lemma setRunning_simps [simp]:
  "pn_subscription (setRunning b p) = pn_subscription p" "pn_messages (setRunning b p) = pn_messages p"
  "pn_cursor (setRunning b p) = pn_cursor p" "pn_connection (setRunning b p) = pn_connection p"
  by (auto simp: setRunning_def)

lemma panel_batch_subscription [simp]: "pn_subscription (panel_batch t b p) = pn_subscription p"
  by (simp add: panel_batch_def Let_def)

lemma fresh_shows:
  "pn_messages p = [] \<Longrightarrow> pn_cursor p = 0 \<Longrightarrow> st (pn_connection p, ident) = Some s \<Longrightarrow> shows_stream p st ident"
  unfolding shows_stream_def by (intro exI [of _ s] exI [of _ 0] exI [of _ "[]"]) simp

lemma showing_reply:
  assumes "showing p st" and "reply_ok p st r"
  shows "showing (panel_reply r p) st"
proof -
  have same: "showing q st" if "pn_subscription q = pn_subscription p" "pn_messages q = pn_messages p"
    "pn_cursor q = pn_cursor p" "pn_connection q = pn_connection p" for q
    using assms(1) that by (auto simp: showing_def shows_stream_def split: option.splits)
  show ?thesis
  proof (cases "(p, st, r)" rule: reply_ok.cases)
    case (2 p' st' ident filters)
    then show ?thesis using assms(2)
      by (auto simp: showing_def panel_started_def intro!: fresh_shows)
  next
    case (4 p' st' t b)
    then have r: "panel_reply r p = panel_batch t b p" by simp
    show ?thesis
    proof (cases "t = pn_timer p")
      case True
      then have ok: "batch_ok p st b" using assms(2) 4 by simp
      then obtain ident where sub: "pn_subscription p = Some ident" by (auto simp: batch_ok_def)
      then have "shows_stream p st ident" using assms(1) by (simp add: showing_def)
      from shows_batch [OF this sub ok True] show ?thesis by (simp add: r showing_def sub)
    next
      case False
      then show ?thesis using r assms(1) by (simp add: panel_batch_def)
    qed
  next
    case (6 p' st' m existing)
    then have r: "panel_reply r p = panel_adopt m existing p" by simp
    show ?thesis
    proof (cases "m = pn_mount p \<and> existing \<noteq> []")
      case True
      then obtain ident filters rest where ex: "existing = (ident, filters) # rest" by (cases existing) auto
      then obtain s where "st (pn_connection p, ident) = Some s" "pn_messages p = []" using assms(2) 6 by auto
      then have "shows_stream (panel_adopt m existing p) st ident"
        using True ex by (intro fresh_shows [where s = s]) (simp_all add: panel_adopt_def)
      then show ?thesis using True ex by (simp add: r showing_def panel_adopt_def)
    next
      case False
      then have "panel_adopt m existing p = p" by (auto simp: panel_adopt_def)
      then show ?thesis using r assms(1) by simp
    qed
  qed (auto simp: panel_failed_def panel_poll_failed_def assms(1) intro: same)
qed

lemma length_reply: "length (pn_messages p) \<le> KEEP \<Longrightarrow> length (pn_messages (panel_reply r p)) \<le> KEEP"
  by (cases "(r, p)" rule: panel_reply.cases)
    (auto simp: panel_failed_def panel_started_def panel_poll_failed_def panel_batch_def panel_adopt_def Let_def length_held
       split: list.splits)

lemma sys_ok_answer:
  assumes "sys_ok sy" and "sy_replies sy = rs @ r # rs'"
  shows "sys_ok (sy\<lparr>sy_panel := panel_reply r (sy_panel sy), sy_replies := rs @ rs'\<rparr>)"
proof -
  have "rs = []" "rs' = []" "filter waits (sy_requests sy) = []"
    using assms by (auto simp: sys_ok_def)
  moreover have "reply_ok (sy_panel sy) (sy_streams sy) r" using assms by (auto simp: sys_ok_def)
  ultimately show ?thesis
    using assms(1) showing_reply length_reply stops_only by (auto simp: sys_ok_def)
qed

lemma sys_ok_step:
  assumes "sys_step a sy sy'" and "sys_ok sy" and "orderly a sy"
  shows "sys_ok sy'"
  using assms
proof (cases rule: sys_step.cases)
  case (do_publish k s m)
  have "streams_ok ((sy_streams sy)(k \<mapsto> s\<lparr>ss_log := stamped (ss_log s) m\<rparr>))"
    using assms(2) do_publish(3) by (auto simp: sys_ok_def streams_ok_def)
  moreover have "grows (sy_streams sy) ((sy_streams sy)(k \<mapsto> s\<lparr>ss_log := stamped (ss_log s) m\<rparr>))"
    by (rule grows_update [where k = k and s = s]) (use do_publish(3) in auto)
  ultimately show ?thesis using streams_grow_ok [OF assms(2)] do_publish(2) by simp
next
  case (do_session k s live)
  have "streams_ok ((sy_streams sy)(k \<mapsto> s\<lparr>ss_live := live\<rparr>))"
    using assms(2) do_session(3) by (auto simp: sys_ok_def streams_ok_def)
  moreover have "grows (sy_streams sy) ((sy_streams sy)(k \<mapsto> s\<lparr>ss_live := live\<rparr>))"
    by (rule grows_update [where k = k and s = s]) (use do_session(3) in auto)
  ultimately show ?thesis using streams_grow_ok [OF assms(2)] do_session(2) by simp
qed (auto simp: orderly_def intro: sys_ok_start sys_ok_stop sys_ok_clear sys_ok_tick sys_ok_serve sys_ok_answer)

lemma sys_ok_reaches: "reaches orderly sy sy' \<Longrightarrow> sys_ok sy \<Longrightarrow> sys_ok sy'"
  by (induction rule: run.induct) (auto intro: sys_ok_step)

lemma sys_ok_mounted: "streams_ok st \<Longrightarrow> sys_ok (mounted conn st)"
  by (simp add: sys_ok_def mounted_def new_panel_def panel_mount_def showing_def waits_def KEEP_def)

section \<open>Properties\<close>

text \<open>
  C6: On an orderly schedule the panel shows its stream as it is: the messages shown are messages
  of the log of the stream subscribed to, each once and in order, none beyond the cursor, and
  between the first one shown and the cursor nothing is missing but what the stream's buffer had
  dropped; and never more than five hundred.
\<close>

theorem orderly_panel_shows_stream:
  assumes "reaches orderly (mounted conn st) sy" and "streams_ok st" and "pn_subscription (sy_panel sy) = Some ident"
  shows "\<exists>s c seen. sy_streams sy (pn_connection (sy_panel sy), ident) = Some s \<and> pn_cursor (sy_panel sy) = int c
     \<and> pn_messages (sy_panel sy) = map ((!) (ss_log s)) seen \<and> sorted_wrt (<) seen \<and> set seen \<subseteq> {..<c} \<and> c \<le> length (ss_log s)
     \<and> (seen \<noteq> [] \<longrightarrow> {hd seen..<c} - set seen \<subseteq> {..<length (ss_log s) - ss_buffer s}) \<and> length seen \<le> 500"
proof -
  have ok: "sys_ok sy" by (rule sys_ok_reaches [OF assms(1) sys_ok_mounted [OF assms(2)]])
  then have "shows_stream (sy_panel sy) (sy_streams sy) ident"
    using assms(3) by (simp add: sys_ok_def showing_def)
  then obtain s c seen where s: "sy_streams sy (pn_connection (sy_panel sy), ident) = Some s" "pn_cursor (sy_panel sy) = int c"
    "in_view (ss_buffer s) (ss_log s) c seen" "pn_messages (sy_panel sy) = map ((!) (ss_log s)) seen"
    by (auto simp: shows_stream_def)
  moreover have "length seen \<le> 500" using ok s(4) by (simp add: sys_ok_def KEEP_def)
  ultimately show ?thesis unfolding in_view_def by blast
qed

text \<open>A first run: a stream is started, a message arrives, and one poll shows it.\<close>

abbreviation stream_one :: server_stream where
  "stream_one \<equiv> \<lparr>ss_filters = [], ss_buffer = 500, ss_log = [], ss_live = True, ss_open = True\<rparr>"

definition after_start :: system where
  "after_start = \<lparr>sy_panel = (new_panel 1)\<lparr>pn_subscription := Some (u ''s''), pn_running := True, pn_timer := 1\<rparr>,
     sy_streams = Map.empty((1, u ''s'') \<mapsto> stream_one), sy_requests = [], sy_replies = []\<rparr>"

lemma start_run:
  assumes "\<And>sy. idle sy \<Longrightarrow> allowed (Start []) sy" and "\<And>sy. allowed Serve sy" and "\<And>sy. allowed Answer sy"
  shows "reaches allowed (mounted 1 Map.empty) after_start"
proof -
  have sends: "sys_step a sy sy' \<Longrightarrow> allowed a sy \<Longrightarrow> reaches allowed (mounted 1 Map.empty) sy \<Longrightarrow> reaches allowed (mounted 1 Map.empty) sy'"
    for a sy sy' by (rule reaches_step)
  let ?p = "new_panel 1"
  define s1 where "s1 = \<lparr>sy_panel = ?p, sy_streams = Map.empty :: streams, sy_requests = [] :: request list, sy_replies = [ListReply 0 (Inl [])]\<rparr>"
  define s2 where "s2 = s1\<lparr>sy_replies := []\<rparr>"
  define s3 where "s3 = s2\<lparr>sy_requests := [StartReq 1 []]\<rparr>"
  define s4 where "s4 = s3\<lparr>sy_streams := Map.empty((1, u ''s'') \<mapsto> stream_one), sy_requests := [], sy_replies := [StartReply (Inr (u ''s'', []))]\<rparr>"
  have "sys_step Serve (mounted 1 Map.empty) s1"
    using do_serve [of "mounted 1 Map.empty" "[]" "ListReq 0 1" "[]" Map.empty "[ListReply 0 (Inl [])]"] serves.list_error
    by (simp add: mounted_def panel_mount_def new_panel_def s1_def)
  then have r1: "reaches allowed (mounted 1 Map.empty) s1" using sends [OF _ _ run_refl] assms(2) by blast
  have "sys_step Answer s1 s2" using do_answer [of s1 "[]" "ListReply 0 (Inl [])" "[]"] by (simp add: s1_def s2_def)
  then have r2: "reaches allowed (mounted 1 Map.empty) s2" using sends [OF _ _ r1] assms(3) by blast
  have "sys_step (Start []) s2 s3" using do_start [of "[]" s2] by (simp add: s1_def s2_def s3_def send_def panel_start_def new_panel_def)
  moreover have "idle s2" by (simp add: s1_def s2_def idle_def)
  ultimately have r3: "reaches allowed (mounted 1 Map.empty) s3" using sends [OF _ _ r2] assms(1) by blast
  have "sys_step Serve s3 s4"
    using do_serve [of s3 "[]" "StartReq 1 []" "[]" "Map.empty((1, u ''s'') \<mapsto> stream_one)"]
      serves.start_ok [of Map.empty 1 "u ''s''" 500 "[]"] by (simp add: s1_def s2_def s3_def s4_def)
  then have r4: "reaches allowed (mounted 1 Map.empty) s4" using sends [OF _ _ r3] assms(2) by blast
  have "sys_step Answer s4 after_start"
    using do_answer [of s4 "[]" "StartReply (Inr (u ''s'', []))" "[]"]
    by (simp add: s1_def s2_def s3_def s4_def after_start_def panel_started_def setRunning_def new_panel_def)
  then show ?thesis using sends [OF _ _ r4] assms(3) by blast
qed

lemma step_tick:
  "reaches allowed s0 sy \<Longrightarrow> allowed Tick sy \<Longrightarrow> reaches allowed s0 (send (sy_panel sy, panel_tick (sy_panel sy)) sy)"
  by (rule reaches_step [OF _ _ do_tick])

lemma step_start:
  "reaches allowed s0 sy \<Longrightarrow> allowed (Start input) sy \<Longrightarrow> reaches allowed s0 (send (panel_start input (sy_panel sy)) sy)"
  by (rule reaches_step [OF _ _ do_start])

lemma step_serve:
  "reaches allowed s0 sy \<Longrightarrow> allowed Serve sy \<Longrightarrow> sy_requests sy = r # rs \<Longrightarrow> serves (sy_streams sy) r st replies
   \<Longrightarrow> reaches allowed s0 (sy\<lparr>sy_streams := st, sy_requests := rs, sy_replies := sy_replies sy @ replies\<rparr>)"
  using reaches_step [OF _ _ do_serve [of sy "[]"]] by simp

lemma step_answer:
  "reaches allowed s0 sy \<Longrightarrow> allowed Answer sy \<Longrightarrow> sy_replies sy = r # rs
   \<Longrightarrow> reaches allowed s0 (sy\<lparr>sy_panel := panel_reply r (sy_panel sy), sy_replies := rs\<rparr>)"
  using reaches_step [OF _ _ do_answer [of sy "[]"]] by simp

lemma step_publish:
  "reaches allowed s0 sy \<Longrightarrow> allowed Publish sy \<Longrightarrow> sy_streams sy k = Some s
   \<Longrightarrow> reaches allowed s0 (sy\<lparr>sy_streams := (sy_streams sy)(k \<mapsto> s\<lparr>ss_log := stamped (ss_log s) m\<rparr>)\<rparr>)"
  by (rule reaches_step [OF _ _ do_publish])

definition first_message :: LiveMessage where
  "first_message = (sample_live ''a'')\<lparr>lm_seq := 1\<rparr>"

definition one_held :: server_stream where
  "one_held = stream_one\<lparr>ss_log := [first_message]\<rparr>"

text \<open>The panel that watches a stream of one message.\<close>

definition watching :: "LiveMessage list \<Rightarrow> int \<Rightarrow> panel" where
  "watching shown c = (new_panel 1)\<lparr>pn_subscription := Some (u ''s''), pn_running := True, pn_timer := 1,
     pn_messages := shown, pn_cursor := c, pn_received := c\<rparr>"

definition with_one :: "panel \<Rightarrow> request list \<Rightarrow> reply list \<Rightarrow> system" where
  "with_one p rq rp = \<lparr>sy_panel = p, sy_streams = Map.empty((1, u ''s'') \<mapsto> one_held), sy_requests = rq, sy_replies = rp\<rparr>"

definition first_batch :: LiveBatch where
  "first_batch = \<lparr>lb_messages = [first_message], lb_cursor = 1, lb_dropped = 0, lb_received = 1, lb_live = True\<rparr>"

lemma first_batch: "batch_of 500 [first_message] True 0 500 = first_batch"
  by (simp add: batch_of_def fresh_def held_def first_batch_def first_message_def)

lemma with_one_streams: "sy_streams (with_one p rq rp) = Map.empty((1, u ''s'') \<mapsto> one_held)"
  by (simp add: with_one_def)

lemma serve_first: "serves (Map.empty((1, u ''s'') \<mapsto> one_held)) (PollReq 1 1 (u ''s'') 0) (Map.empty((1, u ''s'') \<mapsto> one_held)) [PollReply 1 (Inr first_batch)]"
  using serves.poll_ok [of "Map.empty((1, u ''s'') \<mapsto> one_held)" 1 "u ''s''" one_held 1 0]
  by (simp add: one_held_def first_batch KEEP_def)

lemma apply_first:
  "panel_batch (Suc 0) first_batch (watching shown c) = watching (held 500 (shown @ [first_message])) 1"
  by (simp add: panel_batch_def first_batch_def watching_def new_panel_def KEEP_def)

lemma watching_run:
  assumes "reaches allowed (mounted 1 Map.empty) after_start" and "\<And>sy. allowed Publish sy"
  shows "reaches allowed (mounted 1 Map.empty) (with_one (watching [] 0) [] [])"
proof -
  have "reaches allowed (mounted 1 Map.empty)
      (after_start\<lparr>sy_streams := (sy_streams after_start)((1, u ''s'') \<mapsto> stream_one\<lparr>ss_log := stamped (ss_log stream_one) (sample_live ''a'')\<rparr>)\<rparr>)"
    by (rule step_publish [OF assms]) (simp add: after_start_def)
  then show ?thesis
    by (simp add: with_one_def after_start_def watching_def new_panel_def one_held_def first_message_def stamped_def)
qed

lemma panel_tick_watching: "panel_tick (watching shown c) = [PollReq 1 1 (u ''s'') c]"
  by (simp add: panel_tick_def watching_def new_panel_def)

definition first_poll :: request where "first_poll = PollReq 1 1 (u ''s'') 0"

definition first_reply :: reply where "first_reply = PollReply 1 (Inr first_batch)"

lemma answer_first:
  assumes "reaches allowed m (with_one (watching shown c) rq (first_reply # rp))" and "\<And>sy. allowed Answer sy"
  shows "reaches allowed m (with_one (watching (held 500 (shown @ [first_message])) 1) rq rp)"
  using step_answer [OF assms(1,2), of first_reply rp] by (simp add: with_one_def first_reply_def apply_first)

lemma serve_poll:
  assumes "reaches allowed m (with_one p (first_poll # rq) rp)" and "\<And>sy. allowed Serve sy"
  shows "reaches allowed m (with_one p rq (rp @ [first_reply]))"
  using step_serve [OF assms(1,2) _ serve_first [folded first_poll_def first_reply_def with_one_streams [of p "first_poll # rq" rp]], of rq]
  by (simp add: with_one_def)

lemma tick_watching:
  assumes "reaches allowed m (with_one (watching shown 0) rq rp)" and "allowed Tick (with_one (watching shown 0) rq rp)"
  shows "reaches allowed m (with_one (watching shown 0) (rq @ [first_poll]) rp)"
  using step_tick [OF assms] by (simp add: with_one_def send_def panel_tick_watching first_poll_def)

lemma orderly_poll: "reaches orderly (mounted 1 Map.empty) (with_one (watching [first_message] 1) [] [])"
proof -
  have "reaches orderly (mounted 1 Map.empty) (with_one (watching [] 0) [] [])"
    by (rule watching_run [OF start_run]) (auto simp: orderly_def)
  from tick_watching [OF this] have "reaches orderly (mounted 1 Map.empty) (with_one (watching [] 0) [first_poll] [])"
    by (simp add: orderly_def idle_def with_one_def)
  from serve_poll [OF this] have "reaches orderly (mounted 1 Map.empty) (with_one (watching [] 0) [] [first_reply])"
    by (simp add: orderly_def)
  from answer_first [OF this] show ?thesis by (simp add: orderly_def held_def)
qed

theorem orderly_panel_shows_stream_witness:
  "\<exists>s c seen. sy_streams (with_one (watching [first_message] 1) [] []) (1, u ''s'') = Some s
     \<and> pn_cursor (watching [first_message] 1) = int c \<and> [first_message] = map ((!) (ss_log s)) seen \<and> c \<le> length (ss_log s)"
proof -
  let ?w = "with_one (watching [first_message] 1) [] []"
  have w: "pn_subscription (sy_panel ?w) = Some (u ''s'')" "sy_panel ?w = watching [first_message] 1"
    "pn_connection (watching [first_message] 1) = 1" "pn_messages (watching [first_message] 1) = [first_message]"
    by (simp_all add: with_one_def watching_def new_panel_def)
  have "streams_ok Map.empty" by (simp add: streams_ok_def)
  from orderly_panel_shows_stream [OF orderly_poll this w(1)] show ?thesis unfolding w(2-)
    by (elim exE conjE) (intro exI conjI)
qed

text \<open>
  Two races the hook leaves open. With a poll under way when the next tick comes, both ask
  after the same cursor and the message is shown twice. With a poll under way when the stream is
  started anew, the old stream's answer is taken for the new one's: its message is shown and its
  cursor is kept, so the new stream's first message is never answered.
\<close>

lemma overlapping_polls_repeat:
  "\<exists>sy. reaches (\<lambda>_ _. True) (mounted 1 Map.empty) sy \<and> pn_subscription (sy_panel sy) = Some (u ''s'')
     \<and> sy_streams sy (1, u ''s'') = Some one_held \<and> pn_messages (sy_panel sy) = [first_message, first_message]"
proof -
  let ?any = "\<lambda>_ _. True" and ?m = "mounted 1 Map.empty" and ?q = first_poll and ?r = first_reply
  have r0: "reaches ?any ?m (with_one (watching [] 0) [] [])"
    by (rule watching_run [OF start_run]) auto
  have r1: "reaches ?any ?m (with_one (watching [] 0) [?q] [])" using tick_watching [OF r0] by simp
  have "reaches ?any ?m (with_one (watching [] 0) [?q, ?q] [])" using tick_watching [OF r1] by simp
  from serve_poll [OF this] have "reaches ?any ?m (with_one (watching [] 0) [?q] [?r])" by simp
  from serve_poll [OF this] have "reaches ?any ?m (with_one (watching [] 0) [] [?r, ?r])" by simp
  from answer_first [OF this] have "reaches ?any ?m (with_one (watching [first_message] 1) [] [?r])" by (simp add: held_def)
  from answer_first [OF this] have "reaches ?any ?m (with_one (watching [first_message, first_message] 1) [] [])" by (simp add: held_def)
  then show ?thesis
    by (intro exI [of _ "with_one (watching [first_message, first_message] 1) [] []"]) (simp add: with_one_def watching_def)
qed

lemma restart_takes_old_answer:
  "\<exists>sy. reaches (\<lambda>_ _. True) (mounted 1 Map.empty) sy \<and> pn_subscription (sy_panel sy) = Some (u ''t'')
     \<and> sy_streams sy (1, u ''t'') = Some stream_one \<and> pn_messages (sy_panel sy) = [first_message]
     \<and> (\<forall>m. lb_messages (batch_of 500 (stamped [] m) True (pn_cursor (sy_panel sy)) (int KEEP)) = [])"
proof -
  let ?any = "\<lambda>_ _. True" and ?m = "mounted 1 Map.empty" and ?q = first_poll and ?r = first_reply
  let ?st1 = "[(1, u ''s'') \<mapsto> one_held\<lparr>ss_open := False\<rparr>]" and ?st2 = "[(1, u ''s'') \<mapsto> one_held\<lparr>ss_open := False\<rparr>, (1, u ''t'') \<mapsto> stream_one]"
  let ?p = "(watching [] 0)\<lparr>pn_subscription := None\<rparr>" and ?p2 = "(watching [] 0)\<lparr>pn_subscription := Some (u ''t'')\<rparr>"
  let ?fin = "\<lparr>sy_panel = (watching [first_message] 1)\<lparr>pn_subscription := Some (u ''t'')\<rparr>, sy_streams = ?st2, sy_requests = [], sy_replies = []\<rparr>"
  have r0: "reaches ?any ?m (with_one (watching [] 0) [] [])"
    by (rule watching_run [OF start_run]) auto
  have r1: "reaches ?any ?m (with_one (watching [] 0) [?q] [])" using tick_watching [OF r0] by simp
  have r2: "reaches ?any ?m (with_one (watching [] 0) [] [?r])" using serve_poll [OF r1] by simp
  have "reaches ?any ?m (with_one ?p [StopReq 1 (u ''s''), StartReq 1 []] [?r])"
    using step_start [OF r2, of "[]"] by (simp add: with_one_def send_def panel_start_def watching_def new_panel_def)
  from step_serve [OF this, of "StopReq 1 (u ''s'')" "[StartReq 1 []]" ?st1 "[]"]
  have r3: "reaches ?any ?m \<lparr>sy_panel = ?p, sy_streams = ?st1, sy_requests = [StartReq 1 []], sy_replies = [?r]\<rparr>"
    using serves.stop_ok [of "[(1, u ''s'') \<mapsto> one_held]" 1 "u ''s''" one_held] by (simp add: with_one_def)
  have "serves ?st1 (StartReq 1 []) ?st2 [StartReply (Inr (u ''t'', []))]"
    using serves.start_ok [of ?st1 1 "u ''t''" 500 "[]"] by (simp add: u_def)
  then have "reaches ?any ?m \<lparr>sy_panel = ?p, sy_streams = ?st2, sy_requests = [], sy_replies = [?r, StartReply (Inr (u ''t'', []))]\<rparr>"
    using step_serve [OF r3, of "StartReq 1 []" "[]" ?st2 "[StartReply (Inr (u ''t'', []))]"] by simp
  from step_answer [OF this]
  have "reaches ?any ?m \<lparr>sy_panel = (watching [first_message] 1)\<lparr>pn_subscription := None\<rparr>, sy_streams = ?st2, sy_requests = [], sy_replies = [StartReply (Inr (u ''t'', []))]\<rparr>"
    by (simp add: panel_batch_def first_batch_def watching_def new_panel_def KEEP_def held_def first_reply_def)
  from step_answer [OF this] have "reaches ?any ?m ?fin"
    by (simp add: panel_started_def setRunning_def watching_def new_panel_def)
  then show ?thesis
    by (intro exI [of _ ?fin]) (simp add: watching_def batch_of_def fresh_def held_def stamped_def)
qed

end
