(* ===== verification/Settings_Model.thy ===== *)
theory Settings_Model
  imports Connection_Store
begin

text \<open>
  The application's settings as both halves hold them: the renderer's copy and what it makes of a
  reply or a submission (\<open>hooks/useSettings.ts\<close>, \<open>lib/uiScale.ts\<close>, \<open>isPolicy\<close> of \<open>api/updates.ts\<close>),
  and the Go service that stores them (\<open>internal/bridge/settings.go\<close>,
  \<open>internal/service/settings\<close>, \<open>internal/service/configuration/service.go\<close>). The three types have
  the same fields, but for the type of a number and of the interface scale, which are parameters.
  Whether the file can be written, and the connections reloaded, are arguments; listeners and locks
  are left out.
\<close>

record ('n, 's) AppSettings =
  se_theme :: jsstr
  se_language :: jsstr
  se_uiScale :: 's
  se_uiFont :: jsstr
  se_monospaceFont :: jsstr
  se_autoConnectLast :: bool
  se_updatePolicy :: jsstr
  se_closeBehavior :: jsstr
  se_connectTimeoutMs :: 'n
  se_requestTimeoutMs :: 'n
  se_globalAccessKey :: jsstr
  se_globalSecretKey :: jsstr
  se_lagAlertThreshold :: 'n
  se_diskAlertThreshold :: 'n
  se_desktopNotifications :: bool
  se_timezone :: jsstr
  se_timestampFormat :: jsstr
  se_autoFormatJson :: bool
  se_maxPayloadRenderBytes :: 'n
  se_fetchLimit :: 'n

datatype UIScaleSetting = AutoScale | FontSize int

record SettingsView = "(jsnum, jsstr) AppSettings" +
  sv_globalAccessKeyConfigured :: bool
  sv_globalSecretKeyConfigured :: bool

record FrontendSettings = "(jsnum, UIScaleSetting) AppSettings" +
  fs_globalAccessKeyConfigured :: bool
  fs_globalSecretKeyConfigured :: bool

type_synonym GoSettings = "(int, jsstr) AppSettings"

section \<open>The renderer's half\<close>

definition FONT_SIZES :: "int list" where
  "FONT_SIZES = [12, 13, 14, 15, 16, 18, 20]"

definition parseUIScale :: "jsstr option \<Rightarrow> UIScaleSetting" where
  "parseUIScale value =
    (case value of
       None \<Rightarrow> AutoScale
     | Some v \<Rightarrow>
         if v = u ''auto'' then AutoScale
         else (case to_number v of
             Fin q \<Rightarrow> if q \<in> set (map of_int FONT_SIZES) then FontSize \<lfloor>q\<rfloor> else AutoScale
           | _ \<Rightarrow> AutoScale))"

fun scale_str :: "UIScaleSetting \<Rightarrow> jsstr" where
  "scale_str AutoScale = u ''auto''"
| "scale_str (FontSize px) = int_to_str px"

definition UPDATE_POLICIES :: "jsstr list" where
  "UPDATE_POLICIES = map u [''off'', ''notify'', ''download'', ''auto'']"

definition isPolicy :: "jsstr \<Rightarrow> bool" where
  "isPolicy v \<longleftrightarrow> v \<in> set UPDATE_POLICIES"

definition DEFAULTS :: FrontendSettings where
  "DEFAULTS = \<lparr>se_theme = u ''system'', se_language = u ''zh'', se_uiScale = AutoScale, se_uiFont = u ''system'',
     se_monospaceFont = u ''JetBrains Mono'', se_autoConnectLast = True, se_updatePolicy = u ''notify'',
     se_closeBehavior = u ''minimizeToTray'', se_connectTimeoutMs = Fin 3000, se_requestTimeoutMs = Fin 5000,
     se_globalAccessKey = [], se_globalSecretKey = [], se_lagAlertThreshold = Fin 10000, se_diskAlertThreshold = Fin 75,
     se_desktopNotifications = False, se_timezone = u ''local'', se_timestampFormat = u ''datetime'',
     se_autoFormatJson = True, se_maxPayloadRenderBytes = Fin 524288, se_fetchLimit = Fin 64,
     fs_globalAccessKeyConfigured = False, fs_globalSecretKeyConfigured = False\<rparr>"

definition or_num :: "jsnum \<Rightarrow> jsnum \<Rightarrow> jsnum" where
  "or_num v d = (if v = NaN \<or> v = Fin 0 then d else v)"

text \<open>Every field of a reply is present, so \<open>??\<close> and \<open>typeof\<close> keep it.\<close>

definition toFrontend :: "SettingsView \<Rightarrow> FrontendSettings" where
  "toFrontend s = \<lparr>
     se_theme = (if se_theme s \<in> set (map u [''system'', ''light'', ''dark'']) then se_theme s else se_theme DEFAULTS),
     se_language = or_str (se_language s) (se_language DEFAULTS),
     se_uiScale = parseUIScale (Some (se_uiScale s)),
     se_uiFont = or_str (se_uiFont s) (se_uiFont DEFAULTS),
     se_monospaceFont = or_str (se_monospaceFont s) (se_monospaceFont DEFAULTS),
     se_autoConnectLast = se_autoConnectLast s,
     se_updatePolicy = (if isPolicy (se_updatePolicy s) then se_updatePolicy s else se_updatePolicy DEFAULTS),
     se_closeBehavior = or_str (se_closeBehavior s) (se_closeBehavior DEFAULTS),
     se_connectTimeoutMs = or_num (se_connectTimeoutMs s) (se_connectTimeoutMs DEFAULTS),
     se_requestTimeoutMs = or_num (se_requestTimeoutMs s) (se_requestTimeoutMs DEFAULTS),
     se_globalAccessKey = se_globalAccessKey s,
     se_globalSecretKey = se_globalSecretKey s,
     se_lagAlertThreshold = se_lagAlertThreshold s,
     se_diskAlertThreshold = se_diskAlertThreshold s,
     se_desktopNotifications = se_desktopNotifications s,
     se_timezone = or_str (se_timezone s) (se_timezone DEFAULTS),
     se_timestampFormat = or_str (se_timestampFormat s) (se_timestampFormat DEFAULTS),
     se_autoFormatJson = se_autoFormatJson s,
     se_maxPayloadRenderBytes = or_num (se_maxPayloadRenderBytes s) (se_maxPayloadRenderBytes DEFAULTS),
     se_fetchLimit = or_num (se_fetchLimit s) (se_fetchLimit DEFAULTS),
     fs_globalAccessKeyConfigured = sv_globalAccessKeyConfigured s,
     fs_globalSecretKeyConfigured = sv_globalSecretKeyConfigured s\<rparr>"

definition toBackend :: "FrontendSettings \<Rightarrow> (jsnum, jsstr) AppSettings" where
  "toBackend s = \<lparr>se_theme = se_theme s, se_language = se_language s, se_uiScale = scale_str (se_uiScale s),
     se_uiFont = se_uiFont s, se_monospaceFont = se_monospaceFont s, se_autoConnectLast = se_autoConnectLast s,
     se_updatePolicy = se_updatePolicy s, se_closeBehavior = se_closeBehavior s,
     se_connectTimeoutMs = se_connectTimeoutMs s, se_requestTimeoutMs = se_requestTimeoutMs s,
     se_globalAccessKey = se_globalAccessKey s, se_globalSecretKey = se_globalSecretKey s,
     se_lagAlertThreshold = se_lagAlertThreshold s, se_diskAlertThreshold = se_diskAlertThreshold s,
     se_desktopNotifications = se_desktopNotifications s, se_timezone = se_timezone s,
     se_timestampFormat = se_timestampFormat s, se_autoFormatJson = se_autoFormatJson s,
     se_maxPayloadRenderBytes = se_maxPayloadRenderBytes s, se_fetchLimit = se_fetchLimit s\<rparr>"

section \<open>The bridge\<close>

text \<open>
  A number crosses as its digits: NaN and the infinities as \<open>null\<close>, which leaves a Go \<open>int\<close> at
  zero; a fraction, an exponent or a value outside 64 bits is refused.
\<close>

definition go_int :: "jsstr \<Rightarrow> int option" where
  "go_int s = (let (sg, ds) = sign_of s; n = sg * digits_val ds
     in if ds \<noteq> [] \<and> list_all is_digit ds \<and> - (2 ^ 63) \<le> n \<and> n < 2 ^ 63 then Some n else None)"

definition json_int :: "jsnum \<Rightarrow> int option" where
  "json_int x = (case x of Fin q \<Rightarrow> go_int (num_to_str x) | _ \<Rightarrow> Some 0)"

definition decode_settings :: "(jsnum, jsstr) AppSettings \<Rightarrow> GoSettings option" where
  "decode_settings s =
    (case (json_int (se_connectTimeoutMs s), json_int (se_requestTimeoutMs s), json_int (se_lagAlertThreshold s),
           json_int (se_diskAlertThreshold s), json_int (se_maxPayloadRenderBytes s), json_int (se_fetchLimit s)) of
       (Some connect, Some request, Some lagging, Some filling, Some payload, Some fetch) \<Rightarrow>
         Some \<lparr>se_theme = se_theme s, se_language = se_language s, se_uiScale = se_uiScale s, se_uiFont = se_uiFont s,
           se_monospaceFont = se_monospaceFont s, se_autoConnectLast = se_autoConnectLast s,
           se_updatePolicy = se_updatePolicy s, se_closeBehavior = se_closeBehavior s,
           se_connectTimeoutMs = connect, se_requestTimeoutMs = request,
           se_globalAccessKey = se_globalAccessKey s, se_globalSecretKey = se_globalSecretKey s,
           se_lagAlertThreshold = lagging, se_diskAlertThreshold = filling,
           se_desktopNotifications = se_desktopNotifications s, se_timezone = se_timezone s,
           se_timestampFormat = se_timestampFormat s, se_autoFormatJson = se_autoFormatJson s,
           se_maxPayloadRenderBytes = payload, se_fetchLimit = fetch\<rparr>
     | _ \<Rightarrow> None)"

section \<open>The service\<close>

definition DefaultSettings :: GoSettings where
  "DefaultSettings = \<lparr>se_theme = u ''system'', se_language = u ''zh'', se_uiScale = u ''auto'', se_uiFont = u ''system'',
     se_monospaceFont = u ''JetBrains Mono'', se_autoConnectLast = True, se_updatePolicy = u ''notify'',
     se_closeBehavior = u ''minimizeToTray'', se_connectTimeoutMs = 3000, se_requestTimeoutMs = 5000,
     se_globalAccessKey = [], se_globalSecretKey = [], se_lagAlertThreshold = 10000, se_diskAlertThreshold = 75,
     se_desktopNotifications = False, se_timezone = u ''local'', se_timestampFormat = u ''datetime'',
     se_autoFormatJson = True, se_maxPayloadRenderBytes = 524288, se_fetchLimit = 64\<rparr>"

definition ValidUIScale :: "jsstr \<Rightarrow> bool" where
  "ValidUIScale v \<longleftrightarrow> v \<in> set (map u [''auto'', ''12'', ''13'', ''14'', ''15'', ''16'', ''18'', ''20''])"

definition ValidPolicy :: "jsstr \<Rightarrow> bool" where
  "ValidPolicy v \<longleftrightarrow> v \<in> set (map u [''off'', ''notify'', ''download'', ''auto''])"

definition normalize_settings :: "GoSettings \<Rightarrow> GoSettings" where
  "normalize_settings s = s\<lparr>
     se_theme := (if se_theme s \<noteq> u ''system'' \<and> se_theme s \<noteq> u ''light'' \<and> se_theme s \<noteq> u ''dark''
       then se_theme DefaultSettings else se_theme s),
     se_language := (if se_language s \<noteq> u ''zh'' \<and> se_language s \<noteq> u ''en'' then se_language DefaultSettings else se_language s),
     se_uiScale := (if \<not> ValidUIScale (se_uiScale s) then se_uiScale DefaultSettings else se_uiScale s),
     se_updatePolicy := (if \<not> ValidPolicy (se_updatePolicy s) then se_updatePolicy DefaultSettings else se_updatePolicy s),
     se_closeBehavior := (if se_closeBehavior s \<noteq> u ''minimizeToTray'' \<and> se_closeBehavior s \<noteq> u ''quit''
       then se_closeBehavior DefaultSettings else se_closeBehavior s),
     se_uiFont := (if TrimSpace (se_uiFont s) = [] then se_uiFont DefaultSettings else se_uiFont s),
     se_monospaceFont := (if TrimSpace (se_monospaceFont s) = [] then se_monospaceFont DefaultSettings else se_monospaceFont s),
     se_connectTimeoutMs := (if se_connectTimeoutMs s < 500 \<or> 300000 < se_connectTimeoutMs s
       then se_connectTimeoutMs DefaultSettings else se_connectTimeoutMs s),
     se_requestTimeoutMs := (if se_requestTimeoutMs s < 500 \<or> 300000 < se_requestTimeoutMs s
       then se_requestTimeoutMs DefaultSettings else se_requestTimeoutMs s),
     se_lagAlertThreshold := (if se_lagAlertThreshold s < 0 then 0 else se_lagAlertThreshold s),
     se_diskAlertThreshold := (if se_diskAlertThreshold s < 0 then 0
       else if 100 < se_diskAlertThreshold s then 100 else se_diskAlertThreshold s),
     se_timezone := (if se_timezone s \<noteq> u ''local'' \<and> se_timezone s \<noteq> u ''utc'' then se_timezone DefaultSettings else se_timezone s),
     se_timestampFormat := (if se_timestampFormat s \<noteq> u ''datetime'' \<and> se_timestampFormat s \<noteq> u ''ms''
       then se_timestampFormat DefaultSettings else se_timestampFormat s),
     se_maxPayloadRenderBytes := (if se_maxPayloadRenderBytes s < 65536 \<or> 4194304 < se_maxPayloadRenderBytes s
       then se_maxPayloadRenderBytes DefaultSettings else se_maxPayloadRenderBytes s),
     se_fetchLimit := (if se_fetchLimit s \<le> 0 \<or> 1000 < se_fetchLimit s then se_fetchLimit DefaultSettings else se_fetchLimit s),
     se_globalAccessKey := TrimSpace (se_globalAccessKey s)\<rparr>"

definition redactSettings :: "GoSettings \<Rightarrow> SettingsView" where
  "redactSettings s = \<lparr>se_theme = se_theme s, se_language = se_language s, se_uiScale = se_uiScale s, se_uiFont = se_uiFont s,
     se_monospaceFont = se_monospaceFont s, se_autoConnectLast = se_autoConnectLast s,
     se_updatePolicy = se_updatePolicy s, se_closeBehavior = se_closeBehavior s,
     se_connectTimeoutMs = to_num (of_int (se_connectTimeoutMs s)), se_requestTimeoutMs = to_num (of_int (se_requestTimeoutMs s)),
     se_globalAccessKey = [], se_globalSecretKey = [],
     se_lagAlertThreshold = to_num (of_int (se_lagAlertThreshold s)), se_diskAlertThreshold = to_num (of_int (se_diskAlertThreshold s)),
     se_desktopNotifications = se_desktopNotifications s, se_timezone = se_timezone s,
     se_timestampFormat = se_timestampFormat s, se_autoFormatJson = se_autoFormatJson s,
     se_maxPayloadRenderBytes = to_num (of_int (se_maxPayloadRenderBytes s)), se_fetchLimit = to_num (of_int (se_fetchLimit s)),
     sv_globalAccessKeyConfigured = (TrimSpace (se_globalAccessKey s) \<noteq> []),
     sv_globalSecretKeyConfigured = (TrimSpace (se_globalSecretKey s) \<noteq> [])\<rparr>"

datatype settings_error = NotANumber | BothKeysRequired | SaveFailed | ReloadFailed

definition credentialsChanged :: "GoSettings \<Rightarrow> GoSettings \<Rightarrow> bool" where
  "credentialsChanged previous after \<longleftrightarrow>
     se_globalAccessKey previous \<noteq> se_globalAccessKey after \<or> se_globalSecretKey previous \<noteq> se_globalSecretKey after"

text \<open>What is stored afterwards, and the reply: a reload that fails is reported, but the settings stay.\<close>

definition store_settings :: "bool \<Rightarrow> bool \<Rightarrow> GoSettings \<Rightarrow> GoSettings \<Rightarrow> GoSettings \<times> (settings_error + SettingsView)" where
  "store_settings saves reloads previous after =
    (if \<not> saves then (previous, Inl SaveFailed)
     else if credentialsChanged previous after \<and> \<not> reloads then (after, Inl ReloadFailed)
     else (after, Inr (redactSettings after)))"

definition resolve_credentials :: "CredentialsMode \<Rightarrow> GoSettings \<Rightarrow> GoSettings \<Rightarrow> settings_error + GoSettings" where
  "resolve_credentials mode current input =
    (case mode of
       ModePreserve \<Rightarrow>
         Inr (if se_globalAccessKey input = [] \<and> se_globalSecretKey input = []
              then input\<lparr>se_globalAccessKey := se_globalAccessKey current, se_globalSecretKey := se_globalSecretKey current\<rparr>
              else input)
     | ModeClear \<Rightarrow> Inr (input\<lparr>se_globalAccessKey := [], se_globalSecretKey := []\<rparr>)
     | ModeReplace \<Rightarrow>
         if TrimSpace (se_globalAccessKey input) = [] \<or> TrimSpace (se_globalSecretKey input) = []
         then Inl BothKeysRequired else Inr input)"

definition UpdateSettings ::
  "bool \<Rightarrow> bool \<Rightarrow> CredentialsMode \<Rightarrow> (jsnum, jsstr) AppSettings \<Rightarrow> GoSettings \<Rightarrow> GoSettings \<times> (settings_error + SettingsView)" where
  "UpdateSettings saves reloads mode payload current =
    (case decode_settings payload of
       None \<Rightarrow> (current, Inl NotANumber)
     | Some input \<Rightarrow>
         (case resolve_credentials mode current input of
            Inl e \<Rightarrow> (current, Inl e)
          | Inr resolved \<Rightarrow> store_settings saves reloads current (normalize_settings resolved)))"

definition ResetSettings :: "bool \<Rightarrow> bool \<Rightarrow> GoSettings \<Rightarrow> GoSettings \<times> (settings_error + SettingsView)" where
  "ResetSettings saves reloads current = store_settings saves reloads current DefaultSettings"


section \<open>Numbers cross the bridge\<close>

lemma go_int_digits: "0 \<le> i \<Longrightarrow> i < 10 ^ 15 \<Longrightarrow> go_int (num_to_str (Fin (of_int i))) = Some i"
proof -
  assume i: "0 \<le> i" "i < 10 ^ 15"
  obtain c cs where s: "num_to_str (Fin (of_int i)) = c # cs" using num_to_str_digits [OF i] by (cases "num_to_str (Fin (of_int i))") auto
  then have "is_digit c" using num_to_str_digits [OF i] by simp
  then have "c \<noteq> 45" "c \<noteq> 43" using digit_plain by auto
  then show ?thesis using num_to_str_digits [OF i] i by (simp add: go_int_def s del: num_to_str.simps)
qed

lemma settings_int_of_int [simp]: "0 \<le> i \<Longrightarrow> i < 10 ^ 15 \<Longrightarrow> json_int (Fin (of_int i)) = Some i"
  using go_int_digits [of i] by (simp add: json_int_def del: num_to_str.simps)

section \<open>What is stored is valid\<close>

definition valid_settings :: "GoSettings \<Rightarrow> bool" where
  "valid_settings s \<longleftrightarrow> se_theme s \<in> set (map u [''system'', ''light'', ''dark'']) \<and> se_language s \<in> set (map u [''zh'', ''en''])
     \<and> ValidUIScale (se_uiScale s) \<and> ValidPolicy (se_updatePolicy s)
     \<and> se_closeBehavior s \<in> set (map u [''minimizeToTray'', ''quit''])
     \<and> TrimSpace (se_uiFont s) \<noteq> [] \<and> TrimSpace (se_monospaceFont s) \<noteq> []
     \<and> se_connectTimeoutMs s \<in> {500..300000} \<and> se_requestTimeoutMs s \<in> {500..300000}
     \<and> 0 \<le> se_lagAlertThreshold s \<and> se_diskAlertThreshold s \<in> {0..100}
     \<and> se_timezone s \<in> set (map u [''local'', ''utc'']) \<and> se_timestampFormat s \<in> set (map u [''datetime'', ''ms''])
     \<and> se_maxPayloadRenderBytes s \<in> {65536..4194304} \<and> se_fetchLimit s \<in> {1..1000}
     \<and> TrimSpace (se_globalAccessKey s) = se_globalAccessKey s"

lemma TrimSpace_word [simp]: "s \<noteq> [] \<Longrightarrow> list_all (\<lambda>c. \<not> go_space c) s \<Longrightarrow> TrimSpace s = s"
  unfolding TrimSpace_def by (rule trim_by_idle) (auto simp: list_all_iff)

lemma TrimSpace_Nil [simp]: "TrimSpace [] = []"
  by (simp add: TrimSpace_def trim_by_def)

lemma default_fonts: "TrimSpace (u ''system'') \<noteq> []" "TrimSpace (u ''JetBrains Mono'') \<noteq> []"
  unfolding TrimSpace_def trim_by_def by (simp_all add: u_def go_space_def is_ws_def)

lemma valid_default: "valid_settings DefaultSettings"
  by (simp add: valid_settings_def DefaultSettings_def ValidUIScale_def ValidPolicy_def default_fonts)

lemma valid_normalized: "valid_settings (normalize_settings s)"
  unfolding valid_settings_def normalize_settings_def
  by (intro conjI) (simp_all add: default_fonts DefaultSettings_def ValidUIScale_def ValidPolicy_def)

lemma normalized_valid: "valid_settings s \<Longrightarrow> normalize_settings s = s"
  by (cases s) (auto simp: valid_settings_def normalize_settings_def)

lemma UpdateSettings_valid: "valid_settings s \<Longrightarrow> UpdateSettings saves reloads mode payload s = (s', r) \<Longrightarrow> valid_settings s'"
  by (auto simp: UpdateSettings_def store_settings_def valid_normalized split: option.splits sum.splits if_splits)

section \<open>The interface scale\<close>

lemma ladder_digits:
  "int_to_str 12 = u ''12''" "int_to_str 13 = u ''13''" "int_to_str 14 = u ''14''" "int_to_str 15 = u ''15''"
  "int_to_str 16 = u ''16''" "int_to_str 18 = u ''18''" "int_to_str 20 = u ''20''"
  by (simp_all add: int_to_str_def nat_digits.simps u_def)

lemma digits_ladder:
  "to_number (u ''12'') = Fin 12" "to_number (u ''13'') = Fin 13" "to_number (u ''14'') = Fin 14" "to_number (u ''15'') = Fin 15"
  "to_number (u ''16'') = Fin 16" "to_number (u ''18'') = Fin 18" "to_number (u ''20'') = Fin 20"
  by (simp_all add: js_eval)

lemma ladder_str:
  "px \<in> set FONT_SIZES \<Longrightarrow> ValidUIScale (scale_str (FontSize px)) \<and> parseUIScale (Some (scale_str (FontSize px))) = FontSize px"
  by (auto simp: FONT_SIZES_def ladder_digits ValidUIScale_def parseUIScale_def digits_ladder)

lemma ladder_parse: "ValidUIScale v \<Longrightarrow> scale_str (parseUIScale (Some v)) = v"
  by (auto simp: FONT_SIZES_def ladder_digits ValidUIScale_def parseUIScale_def digits_ladder)


section \<open>Settings saved and read back\<close>

text \<open>What the settings pages offer: every value in the range the service keeps.\<close>

definition int_in :: "jsnum \<Rightarrow> int \<Rightarrow> int \<Rightarrow> bool" where
  "int_in x lo hi \<longleftrightarrow> (\<exists>n. x = Fin (of_int n) \<and> lo \<le> n \<and> n \<le> hi)"

definition offered_scale :: "UIScaleSetting \<Rightarrow> bool" where
  "offered_scale s \<longleftrightarrow> (case s of AutoScale \<Rightarrow> True | FontSize px \<Rightarrow> px \<in> set FONT_SIZES)"

definition usable :: "FrontendSettings \<Rightarrow> bool" where
  "usable f \<longleftrightarrow> se_theme f \<in> set (map u [''system'', ''light'', ''dark'']) \<and> se_language f \<in> set (map u [''zh'', ''en''])
     \<and> offered_scale (se_uiScale f) \<and> isPolicy (se_updatePolicy f)
     \<and> se_closeBehavior f \<in> set (map u [''minimizeToTray'', ''quit''])
     \<and> TrimSpace (se_uiFont f) \<noteq> [] \<and> TrimSpace (se_monospaceFont f) \<noteq> []
     \<and> int_in (se_connectTimeoutMs f) 500 300000 \<and> int_in (se_requestTimeoutMs f) 500 300000
     \<and> int_in (se_lagAlertThreshold f) 0 999999999999999 \<and> int_in (se_diskAlertThreshold f) 0 100
     \<and> se_timezone f \<in> set (map u [''local'', ''utc'']) \<and> se_timestampFormat f \<in> set (map u [''datetime'', ''ms''])
     \<and> int_in (se_maxPayloadRenderBytes f) 65536 4194304 \<and> int_in (se_fetchLimit f) 1 1000
     \<and> se_globalAccessKey f = [] \<and> se_globalSecretKey f = []"

definition num_int :: "jsnum \<Rightarrow> int" where
  "num_int x = (case x of Fin q \<Rightarrow> \<lfloor>q\<rfloor> | _ \<Rightarrow> 0)"

text \<open>The stored settings a form stands for, with the keys that are stored already.\<close>

definition stored_of :: "FrontendSettings \<Rightarrow> GoSettings \<Rightarrow> GoSettings" where
  "stored_of f go = \<lparr>se_theme = se_theme f, se_language = se_language f, se_uiScale = scale_str (se_uiScale f),
     se_uiFont = se_uiFont f, se_monospaceFont = se_monospaceFont f, se_autoConnectLast = se_autoConnectLast f,
     se_updatePolicy = se_updatePolicy f, se_closeBehavior = se_closeBehavior f,
     se_connectTimeoutMs = num_int (se_connectTimeoutMs f), se_requestTimeoutMs = num_int (se_requestTimeoutMs f),
     se_globalAccessKey = se_globalAccessKey go, se_globalSecretKey = se_globalSecretKey go,
     se_lagAlertThreshold = num_int (se_lagAlertThreshold f), se_diskAlertThreshold = num_int (se_diskAlertThreshold f),
     se_desktopNotifications = se_desktopNotifications f, se_timezone = se_timezone f,
     se_timestampFormat = se_timestampFormat f, se_autoFormatJson = se_autoFormatJson f,
     se_maxPayloadRenderBytes = num_int (se_maxPayloadRenderBytes f), se_fetchLimit = num_int (se_fetchLimit f)\<rparr>"

lemma int_in_json: "int_in x lo hi \<Longrightarrow> 0 \<le> lo \<Longrightarrow> hi < 10 ^ 15 \<Longrightarrow> json_int x = Some (num_int x)"
  by (auto simp: int_in_def num_int_def)

lemma int_in_num: "int_in x lo hi \<Longrightarrow> lo \<le> num_int x \<and> num_int x \<le> hi"
  by (auto simp: int_in_def num_int_def)

lemma int_in_back: "int_in x lo hi \<Longrightarrow> 0 \<le> lo \<Longrightarrow> hi < 10 ^ 15 \<Longrightarrow> to_num (of_int (num_int x)) = x"
  by (auto simp: int_in_def num_int_def intro!: to_num_of_int)

lemma int_in_positive: "int_in x lo hi \<Longrightarrow> 0 < lo \<Longrightarrow> or_num x d = x"
  by (auto simp: int_in_def or_num_def)

lemma usable_numbers:
  assumes "usable f"
  shows "int_in (se_connectTimeoutMs f) 500 300000" "int_in (se_requestTimeoutMs f) 500 300000"
    "int_in (se_lagAlertThreshold f) 0 999999999999999" "int_in (se_diskAlertThreshold f) 0 100"
    "int_in (se_maxPayloadRenderBytes f) 65536 4194304" "int_in (se_fetchLimit f) 1 1000"
  using assms by (simp_all add: usable_def)

lemma decode_usable:
  assumes "usable f"
  shows "decode_settings (toBackend f) = Some ((stored_of f go)\<lparr>se_globalAccessKey := [], se_globalSecretKey := []\<rparr>)"
proof -
  have "json_int (se_connectTimeoutMs f) = Some (num_int (se_connectTimeoutMs f))"
    "json_int (se_requestTimeoutMs f) = Some (num_int (se_requestTimeoutMs f))"
    "json_int (se_lagAlertThreshold f) = Some (num_int (se_lagAlertThreshold f))"
    "json_int (se_diskAlertThreshold f) = Some (num_int (se_diskAlertThreshold f))"
    "json_int (se_maxPayloadRenderBytes f) = Some (num_int (se_maxPayloadRenderBytes f))"
    "json_int (se_fetchLimit f) = Some (num_int (se_fetchLimit f))"
    using usable_numbers [OF assms] by (rule_tac [!] int_in_json) (assumption | simp)+
  then show ?thesis using assms by (simp add: decode_settings_def toBackend_def stored_of_def usable_def)
qed

lemma offered_scale_str: "offered_scale s \<Longrightarrow> ValidUIScale (scale_str s) \<and> parseUIScale (Some (scale_str s)) = s"
  using ladder_str by (cases s) (auto simp: offered_scale_def ValidUIScale_def parseUIScale_def)

lemma policies: "ValidPolicy v \<longleftrightarrow> isPolicy v"
  by (simp add: ValidPolicy_def isPolicy_def UPDATE_POLICIES_def)

lemma stored_valid:
  assumes "usable f" and "valid_settings go"
  shows "valid_settings (stored_of f go)"
proof -
  note n = usable_numbers [OF assms(1), THEN int_in_num]
  have "ValidUIScale (scale_str (se_uiScale f))"
    using assms(1) offered_scale_str by (simp add: usable_def)
  then show ?thesis
    using assms n unfolding valid_settings_def by (intro conjI) (simp_all add: usable_def stored_of_def policies)
qed

lemma update_usable:
  assumes "usable f" and "valid_settings go"
  shows "UpdateSettings saves reloads ModePreserve (toBackend f) go =
    (if saves then (stored_of f go, Inr (redactSettings (stored_of f go))) else (go, Inl SaveFailed))"
proof -
  have "\<not> credentialsChanged go (stored_of f go)" by (simp add: credentialsChanged_def stored_of_def)
  moreover have "resolve_credentials ModePreserve go ((stored_of f go)\<lparr>se_globalAccessKey := [], se_globalSecretKey := []\<rparr>) = Inr (stored_of f go)"
    by (simp add: resolve_credentials_def stored_of_def)
  ultimately show ?thesis
    using normalized_valid [OF stored_valid [OF assms]]
    by (simp add: UpdateSettings_def decode_usable [OF assms(1), of go] store_settings_def)
qed

text \<open>The flags a reply carries.\<close>

definition flagged :: "GoSettings \<Rightarrow> FrontendSettings \<Rightarrow> FrontendSettings" where
  "flagged go f = f\<lparr>fs_globalAccessKeyConfigured := (TrimSpace (se_globalAccessKey go) \<noteq> []),
     fs_globalSecretKeyConfigured := (TrimSpace (se_globalSecretKey go) \<noteq> [])\<rparr>"

lemma read_stored:
  assumes "usable f"
  shows "toFrontend (redactSettings (stored_of f go)) = flagged go f"
proof -
  note n = usable_numbers [OF assms]
  have font: "se_uiFont f \<noteq> []" "se_monospaceFont f \<noteq> []" using assms by (auto simp: usable_def)
  have nums: "to_num (of_int (num_int (se_lagAlertThreshold f))) = se_lagAlertThreshold f"
    "to_num (of_int (num_int (se_diskAlertThreshold f))) = se_diskAlertThreshold f"
    "or_num (to_num (of_int (num_int (se_connectTimeoutMs f)))) d = se_connectTimeoutMs f"
    "or_num (to_num (of_int (num_int (se_requestTimeoutMs f)))) d = se_requestTimeoutMs f"
    "or_num (to_num (of_int (num_int (se_maxPayloadRenderBytes f)))) d = se_maxPayloadRenderBytes f"
    "or_num (to_num (of_int (num_int (se_fetchLimit f)))) d = se_fetchLimit f" for d
    using n(1,2,5,6) [THEN int_in_positive] by (simp_all add: n [THEN int_in_back])
  have strs: "or_str (se_language f) d = se_language f" "or_str (se_closeBehavior f) d = se_closeBehavior f"
    "or_str (se_timezone f) d = se_timezone f" "or_str (se_timestampFormat f) d = se_timestampFormat f"
    "or_str (se_uiFont f) d = se_uiFont f" "or_str (se_monospaceFont f) d = se_monospaceFont f" for d
    using assms font by (auto simp: usable_def or_str_def)
  show ?thesis
    using assms offered_scale_str [of "se_uiScale f"]
    by (intro FrontendSettings.equality) (simp_all add: toFrontend_def redactSettings_def stored_of_def flagged_def usable_def nums strs)
qed


lemma num_back: "0 \<le> n \<Longrightarrow> n < 10 ^ 15 \<Longrightarrow> to_num (of_int n) = Fin (of_int n)"
  by (intro to_num_of_int) simp

lemma loaded_numbers:
  assumes "valid_settings go" and "se_lagAlertThreshold go < 10 ^ 15"
  shows "to_num (of_int (se_connectTimeoutMs go)) = Fin (of_int (se_connectTimeoutMs go))"
    "to_num (of_int (se_requestTimeoutMs go)) = Fin (of_int (se_requestTimeoutMs go))"
    "to_num (of_int (se_lagAlertThreshold go)) = Fin (of_int (se_lagAlertThreshold go))"
    "to_num (of_int (se_diskAlertThreshold go)) = Fin (of_int (se_diskAlertThreshold go))"
    "to_num (of_int (se_maxPayloadRenderBytes go)) = Fin (of_int (se_maxPayloadRenderBytes go))"
    "to_num (of_int (se_fetchLimit go)) = Fin (of_int (se_fetchLimit go))"
  using assms by (simp_all add: valid_settings_def num_back)

lemma loaded_fields:
  assumes "valid_settings go" and "se_lagAlertThreshold go < 10 ^ 15"
  shows "toFrontend (redactSettings go) = \<lparr>se_theme = se_theme go, se_language = se_language go,
     se_uiScale = parseUIScale (Some (se_uiScale go)), se_uiFont = se_uiFont go, se_monospaceFont = se_monospaceFont go,
     se_autoConnectLast = se_autoConnectLast go, se_updatePolicy = se_updatePolicy go, se_closeBehavior = se_closeBehavior go,
     se_connectTimeoutMs = Fin (of_int (se_connectTimeoutMs go)), se_requestTimeoutMs = Fin (of_int (se_requestTimeoutMs go)),
     se_globalAccessKey = [], se_globalSecretKey = [],
     se_lagAlertThreshold = Fin (of_int (se_lagAlertThreshold go)), se_diskAlertThreshold = Fin (of_int (se_diskAlertThreshold go)),
     se_desktopNotifications = se_desktopNotifications go, se_timezone = se_timezone go,
     se_timestampFormat = se_timestampFormat go, se_autoFormatJson = se_autoFormatJson go,
     se_maxPayloadRenderBytes = Fin (of_int (se_maxPayloadRenderBytes go)), se_fetchLimit = Fin (of_int (se_fetchLimit go)),
     fs_globalAccessKeyConfigured = (TrimSpace (se_globalAccessKey go) \<noteq> []),
     fs_globalSecretKeyConfigured = (TrimSpace (se_globalSecretKey go) \<noteq> [])\<rparr>"
proof -
  have strs: "or_str (se_language go) d = se_language go" "or_str (se_closeBehavior go) d = se_closeBehavior go"
    "or_str (se_timezone go) d = se_timezone go" "or_str (se_timestampFormat go) d = se_timestampFormat go"
    "or_str (se_uiFont go) d = se_uiFont go" "or_str (se_monospaceFont go) d = se_monospaceFont go" for d
    using assms(1) by (auto simp: valid_settings_def or_str_def)
  show ?thesis
    using assms(1) unfolding valid_settings_def
    by (intro FrontendSettings.equality) (simp_all add: toFrontend_def redactSettings_def strs loaded_numbers [OF assms] policies or_num_def)
qed

lemma loaded_usable:
  assumes "valid_settings go" and "se_lagAlertThreshold go < 10 ^ 15"
  shows "usable (toFrontend (redactSettings go))" and "stored_of (toFrontend (redactSettings go)) go = go"
proof -
  have scale: "offered_scale (parseUIScale (Some v)) \<and> scale_str (parseUIScale (Some v)) = v" if "ValidUIScale v" for v
    using that ladder_parse [OF that] by (auto simp: offered_scale_def FONT_SIZES_def ValidUIScale_def parseUIScale_def digits_ladder)
  show "usable (toFrontend (redactSettings go))"
    using assms scale unfolding usable_def valid_settings_def loaded_fields [OF assms]
    by (intro conjI) (simp_all add: policies int_in_def)
  show "stored_of (toFrontend (redactSettings go)) go = go"
    using assms scale unfolding loaded_fields [OF assms]
    by (intro AppSettings.equality) (simp_all add: stored_of_def num_int_def valid_settings_def)
qed



end
