(* ===== verification/Settings_Store.thy ===== *)
theory Settings_Store
  imports Settings_Model Runs
begin

text \<open>
  The settings store of the renderer (\<open>hooks/useSettings.ts\<close>): edits are shown at once and saved
  300 ms after the last one; writes are chained so that one finishes before the next is sent; a
  reset and the two credential operations first settle what is pending. The requests and the
  service's events travel on their own, so the store is a step relation. A promise of the chain is
  the operation at its end; what waits for it is kept with it. A state update is rendered before
  the next callback runs, so \<open>settingsRef\<close> is the state. The document, the theme and the
  \<open>loading\<close> flag are left out.
\<close>

datatype procedure = Reset | SaveCredentials jsstr jsstr | ClearCredentials

record chained =
  wr_settings :: FrontendSettings
  wr_mode :: CredentialsMode
  wr_reply :: "(settings_error + SettingsView) option"
  wr_waiting :: "procedure list"

text \<open>
  \<open>hk_pending\<close> is \<open>pendingSettingsRef\<close>, set exactly while the timer runs; \<open>hk_chain\<close> the operations
  of \<open>saveChainRef\<close> that have not settled, the first under way; \<open>hk_failed\<close> whether the last that
  settled rejected. A read or a reset under way holds its answer once the service gave one.
\<close>

record settings_store =
  hk_settings :: FrontendSettings
  hk_pending :: "FrontendSettings option"
  hk_chain :: "chained list"
  hk_failed :: bool
  hk_reads :: "SettingsView option list"
  hk_resets :: "(settings_error + SettingsView) option list"
  hk_events :: nat
  hk_go :: GoSettings

definition chain_write :: "FrontendSettings \<Rightarrow> CredentialsMode \<Rightarrow> settings_store \<Rightarrow> settings_store" where
  "chain_write latest mode h =
     h\<lparr>hk_chain := hk_chain h @ [\<lparr>wr_settings = latest, wr_mode = mode, wr_reply = None, wr_waiting = []\<rparr>]\<rparr>"

definition enqueueSave :: "FrontendSettings \<Rightarrow> settings_store \<Rightarrow> settings_store" where
  "enqueueSave latest h = chain_write latest ModePreserve h"

definition savesInFlight :: "settings_store \<Rightarrow> nat" where
  "savesInFlight h = length (filter (\<lambda>w. wr_mode w = ModePreserve) (hk_chain h))"

definition setSetting :: "(FrontendSettings \<Rightarrow> FrontendSettings) \<Rightarrow> settings_store \<Rightarrow> settings_store" where
  "setSetting upd h = h\<lparr>hk_settings := upd (hk_settings h), hk_pending := Some (upd (hk_settings h))\<rparr>"

text \<open>The timer, and the first half of \<open>settlePendingSaves\<close>: what is pending joins the chain.\<close>

definition flush_pending :: "settings_store \<Rightarrow> settings_store" where
  "flush_pending h = (case hk_pending h of None \<Rightarrow> h | Some p \<Rightarrow> enqueueSave p (h\<lparr>hk_pending := None\<rparr>))"

text \<open>What follows the \<open>await\<close> of the chain.\<close>

fun resume :: "procedure \<Rightarrow> settings_store \<Rightarrow> settings_store" where
  "resume Reset h = h\<lparr>hk_resets := hk_resets h @ [None]\<rparr>"
| "resume (SaveCredentials accessKey secretKey) h =
     chain_write ((hk_settings h)\<lparr>se_globalAccessKey := accessKey, se_globalSecretKey := secretKey\<rparr>) ModeReplace h"
| "resume ClearCredentials h =
     chain_write ((hk_settings h)\<lparr>se_globalAccessKey := [], se_globalSecretKey := []\<rparr>) ModeClear h"

definition wait_chain :: "procedure \<Rightarrow> settings_store \<Rightarrow> settings_store" where
  "wait_chain proc h =
    (if hk_chain h = [] then (if hk_failed h then h else resume proc h)
     else let w = last (hk_chain h)
          in h\<lparr>hk_chain := butlast (hk_chain h) @ [w\<lparr>wr_waiting := wr_waiting w @ [proc]\<rparr>]\<rparr>)"

definition settlePendingSaves :: "procedure \<Rightarrow> settings_store \<Rightarrow> settings_store" where
  "settlePendingSaves proc h = wait_chain proc (flush_pending h)"

fun call_procedure :: "procedure \<Rightarrow> settings_store \<Rightarrow> settings_store" where
  "call_procedure Reset h = settlePendingSaves Reset h"
| "call_procedure (SaveCredentials accessKey secretKey) h =
     (if trim accessKey = [] \<or> trim secretKey = [] then h
      else settlePendingSaves (SaveCredentials (trim accessKey) secretKey) h)"
| "call_procedure ClearCredentials h = settlePendingSaves ClearCredentials h"

text \<open>The service announces every change it keeps, also one whose reload failed.\<close>

definition announces :: "settings_error + SettingsView \<Rightarrow> nat" where
  "announces r = (case r of Inr _ \<Rightarrow> 1 | Inl ReloadFailed \<Rightarrow> 1 | Inl _ \<Rightarrow> 0)"

definition serve_write :: "bool \<Rightarrow> bool \<Rightarrow> settings_store \<Rightarrow> settings_store" where
  "serve_write saves reloads h =
    (case hk_chain h of
       [] \<Rightarrow> h
     | w # ws \<Rightarrow>
         let (go, r) = UpdateSettings saves reloads (wr_mode w) (toBackend (wr_settings w)) (hk_go h)
         in h\<lparr>hk_go := go, hk_chain := w\<lparr>wr_reply := Some r\<rparr> # ws, hk_events := hk_events h + announces r\<rparr>)"

definition answer_write :: "(settings_error + SettingsView) \<Rightarrow> settings_store \<Rightarrow> settings_store" where
  "answer_write r h =
    (case hk_chain h of
       [] \<Rightarrow> h
     | w # ws \<Rightarrow>
         let failed = (wr_mode w = ModePreserve \<and> (\<exists>e. r = Inl e));
             h = h\<lparr>hk_chain := ws, hk_failed := failed\<rparr>;
             h = (case r of
                    Inr v \<Rightarrow> if wr_mode w = ModePreserve then h else h\<lparr>hk_settings := toFrontend v\<rparr>
                  | Inl _ \<Rightarrow> h)
         in if failed then h else fold resume (wr_waiting w) h)"

definition answer_read :: "SettingsView \<Rightarrow> settings_store \<Rightarrow> settings_store" where
  "answer_read v h = h\<lparr>hk_settings := toFrontend v\<rparr>"

definition answer_reset :: "(settings_error + SettingsView) \<Rightarrow> settings_store \<Rightarrow> settings_store" where
  "answer_reset r h = (case r of Inr v \<Rightarrow> h\<lparr>hk_settings := toFrontend v\<rparr> | Inl _ \<Rightarrow> h)"

definition onSettingsChanged :: "settings_store \<Rightarrow> settings_store" where
  "onSettingsChanged h =
    (if hk_pending h \<noteq> None \<or> 0 < savesInFlight h then h else h\<lparr>hk_reads := hk_reads h @ [None]\<rparr>)"

datatype store_action =
    Edit "FrontendSettings \<Rightarrow> FrontendSettings" | Timer | Call procedure
  | ServeWrite bool bool | AnswerWrite | ServeReset bool bool | AnswerReset | Event | ServeRead | AnswerRead bool | Tray

inductive store_step :: "store_action \<Rightarrow> settings_store \<Rightarrow> settings_store \<Rightarrow> bool" where
  edit: "store_step (Edit upd) h (setSetting upd h)"
| timer: "store_step Timer h (flush_pending h)"
| call: "store_step (Call proc) h (call_procedure proc h)"
| serves_write: "hk_chain h = w # ws \<Longrightarrow> wr_reply w = None \<Longrightarrow> store_step (ServeWrite saves reloads) h (serve_write saves reloads h)"
| answers_write: "hk_chain h = w # ws \<Longrightarrow> wr_reply w = Some r \<Longrightarrow> store_step AnswerWrite h (answer_write r h)"
| serves_reset: "hk_resets h = rs @ None # rs' \<Longrightarrow> ResetSettings saves reloads (hk_go h) = (go, r) \<Longrightarrow>
     store_step (ServeReset saves reloads) h
       (h\<lparr>hk_go := go, hk_resets := rs @ Some r # rs', hk_events := hk_events h + announces r\<rparr>)"
| answers_reset: "hk_resets h = rs @ Some r # rs' \<Longrightarrow> store_step AnswerReset h (answer_reset r (h\<lparr>hk_resets := rs @ rs'\<rparr>))"
| event: "hk_events h = Suc n \<Longrightarrow> store_step Event h (onSettingsChanged (h\<lparr>hk_events := n\<rparr>))"
| serves_read: "hk_reads h = rs @ None # rs' \<Longrightarrow>
     store_step ServeRead h (h\<lparr>hk_reads := rs @ Some (redactSettings (hk_go h)) # rs'\<rparr>)"
| answers_read: "hk_reads h = rs @ Some v # rs' \<Longrightarrow> store_step (AnswerRead True) h (answer_read v (h\<lparr>hk_reads := rs @ rs'\<rparr>))"
| fails_read: "hk_reads h = rs @ v # rs' \<Longrightarrow> store_step (AnswerRead False) h (h\<lparr>hk_reads := rs @ rs'\<rparr>)"
| tray: "store_step Tray h (h\<lparr>hk_go := normalize_settings (upd (hk_go h)), hk_events := hk_events h + 1\<rparr>)"

text \<open>Mounting reads the settings; until they come, the defaults are shown.\<close>

definition mounted_store :: "GoSettings \<Rightarrow> settings_store" where
  "mounted_store go = \<lparr>hk_settings = DEFAULTS, hk_pending = None, hk_chain = [], hk_failed = False, hk_reads = [None],
     hk_resets = [], hk_events = 0, hk_go = go\<rparr>"

definition loaded_store :: "GoSettings \<Rightarrow> settings_store" where
  "loaded_store go = (mounted_store go)\<lparr>hk_settings := toFrontend (redactSettings go), hk_reads := []\<rparr>"

section \<open>What an orderly schedule keeps\<close>

text \<open>
  An edit offers a usable value, and is made while no answer is awaited that would replace the
  settings; a reset is called while nothing is read; the service's events come while no reset is
  under way. Saves may fail, and be answered late.
\<close>

definition resetting :: "settings_store \<Rightarrow> bool" where
  "resetting h \<longleftrightarrow> hk_resets h \<noteq> [] \<or> (\<exists>w \<in> set (hk_chain h). wr_waiting w \<noteq> [])"

definition readable :: "GoSettings \<Rightarrow> bool" where
  "readable go \<longleftrightarrow> valid_settings go \<and> se_lagAlertThreshold go < 10 ^ 15"

definition offered :: "(FrontendSettings \<Rightarrow> FrontendSettings) \<Rightarrow> settings_store \<Rightarrow> bool" where
  "offered upd h \<longleftrightarrow> usable (upd (hk_settings h))
     \<and> fs_globalAccessKeyConfigured (upd (hk_settings h)) = fs_globalAccessKeyConfigured (hk_settings h)
     \<and> fs_globalSecretKeyConfigured (upd (hk_settings h)) = fs_globalSecretKeyConfigured (hk_settings h)"

definition settled_schedule :: "store_action \<Rightarrow> settings_store \<Rightarrow> bool" where
  "settled_schedule a h \<longleftrightarrow>
    (case a of
       Edit upd \<Rightarrow> offered upd h \<and> hk_reads h = [] \<and> \<not> resetting h
     | Call proc \<Rightarrow> proc = Reset \<and> hk_reads h = [] \<and> \<not> resetting h
     | ServeReset _ reloads \<Rightarrow> reloads
     | Event \<Rightarrow> \<not> resetting h
     | Tray \<Rightarrow> False
     | _ \<Rightarrow> True)"

definition shows_stored :: "settings_store \<Rightarrow> bool" where
  "shows_stored h \<longleftrightarrow> toFrontend (redactSettings (hk_go h)) = hk_settings h"

text \<open>A save that is under way or waits: usable settings, with the flags of the stored keys.\<close>

definition fits :: "GoSettings \<Rightarrow> FrontendSettings \<Rightarrow> bool" where
  "fits go f \<longleftrightarrow> usable f \<and> flagged go f = f"

definition write_ok :: "GoSettings \<Rightarrow> chained \<Rightarrow> bool" where
  "write_ok go w \<longleftrightarrow> wr_mode w = ModePreserve \<and> fits go (wr_settings w)
     \<and> (\<forall>v. wr_reply w = Some (Inr v) \<longrightarrow> toFrontend (redactSettings go) = wr_settings w)"

definition chain_ok :: "settings_store \<Rightarrow> bool" where
  "chain_ok h \<longleftrightarrow> (\<forall>w \<in> set (hk_chain h). write_ok (hk_go h) w)
     \<and> (\<forall>w \<in> set (tl (hk_chain h)). wr_reply w = None)
     \<and> (\<forall>w \<in> set (butlast (hk_chain h)). wr_waiting w = [])
     \<and> (hk_chain h \<noteq> [] \<longrightarrow> wr_waiting (last (hk_chain h)) = []
          \<or> wr_waiting (last (hk_chain h)) = [Reset] \<and> hk_pending h = None)
     \<and> (hk_chain h \<noteq> [] \<longrightarrow> hk_pending h = None \<longrightarrow> wr_settings (last (hk_chain h)) = hk_settings h)"

definition idle_store :: "settings_store \<Rightarrow> bool" where
  "idle_store h \<longleftrightarrow> hk_chain h = [] \<and> hk_pending h = None"

definition reset_done :: "settings_store \<Rightarrow> bool" where
  "reset_done h \<longleftrightarrow> hk_resets h = [Some (Inr (redactSettings DefaultSettings))] \<and> hk_go h = DefaultSettings"

definition store_ok :: "settings_store \<Rightarrow> bool" where
  "store_ok h \<longleftrightarrow> readable (hk_go h)
     \<and> (hk_reads h \<noteq> [] \<longrightarrow> idle_store h \<and> hk_resets h = [])
     \<and> set (hk_reads h) \<subseteq> {None, Some (redactSettings (hk_go h))}
     \<and> (hk_resets h \<noteq> [] \<longrightarrow> idle_store h)
     \<and> (reset_done h \<or> fits (hk_go h) (hk_settings h) \<and> hk_pending h \<in> {None, Some (hk_settings h)} \<and> chain_ok h
          \<and> (hk_resets h = [] \<or> hk_resets h = [None] \<or> (\<exists>e. hk_resets h = [Some (Inl e)]))
          \<and> (idle_store h \<longrightarrow> hk_failed h \<or> shows_stored h))"

lemma fits_loaded: "readable go \<Longrightarrow> fits go (toFrontend (redactSettings go))"
  using loaded_usable(1) [of go] loaded_fields [of go] by (simp add: fits_def readable_def flagged_def)

lemma readable_default: "readable DefaultSettings"
  by (simp add: readable_def valid_default) (simp add: DefaultSettings_def)

lemma flagged_stored [simp]: "flagged (stored_of f go) f' = flagged go f'"
  by (simp add: flagged_def stored_of_def)

lemma fits_stored [simp]: "fits (stored_of f go) f' \<longleftrightarrow> fits go f'"
  by (simp add: fits_def)

lemma readable_stored: "readable go \<Longrightarrow> fits go f \<Longrightarrow> readable (stored_of f go)"
  using usable_numbers(3) [of f, THEN int_in_num] stored_valid [of f go] by (auto simp: readable_def fits_def stored_of_def)

lemma stored_shows: "fits go f \<Longrightarrow> toFrontend (redactSettings (stored_of f go)) = f"
  using read_stored [of f go] by (simp add: fits_def)

text \<open>The operations that put a save on the chain.\<close>

lemma flush_ok:
  assumes "store_ok h" and "\<not> resetting h" and "hk_reads h = []"
  shows "store_ok (flush_pending h) \<and> hk_pending (flush_pending h) = None \<and> \<not> resetting (flush_pending h) \<and> hk_reads (flush_pending h) = []"
proof (cases "hk_pending h")
  case None
  then show ?thesis using assms by (simp add: flush_pending_def)
next
  case (Some p)
  have h: "fits (hk_go h) (hk_settings h)" "p = hk_settings h" "chain_ok h" "readable (hk_go h)"
    using assms Some by (auto simp: store_ok_def resetting_def reset_done_def)
  have "\<forall>w \<in> set (hk_chain h). wr_waiting w = []" using assms(2) by (auto simp: resetting_def)
  moreover have tail: "x = w \<or> x \<in> set (tl (hk_chain h))" if "x \<in> set (tl (hk_chain h @ [w]))" for x w
    using that by (cases "hk_chain h") auto
  ultimately show ?thesis
    using assms Some h
    by (auto dest!: tail simp: flush_pending_def enqueueSave_def chain_write_def store_ok_def chain_ok_def write_ok_def idle_store_def
        resetting_def reset_done_def)
qed

lemma timer_ok: "store_ok h \<Longrightarrow> store_ok (flush_pending h)"
proof (cases "hk_pending h")
  case None
  assume "store_ok h"
  then show ?thesis using None by (simp add: flush_pending_def)
next
  case (Some p)
  assume ok: "store_ok h"
  then have r: "hk_reads h = []" "hk_resets h = []" using Some by (auto simp: store_ok_def idle_store_def)
  then have c: "chain_ok h" using ok by (auto simp: store_ok_def reset_done_def)
  have "wr_waiting w = []" if "w \<in> set (hk_chain h)" for w
  proof (cases "w \<in> set (butlast (hk_chain h))")
    case True
    then show ?thesis using c by (simp add: chain_ok_def)
  next
    case False
    then have "w = last (hk_chain h)" using that by (metis append_butlast_last_id in_set_conv_decomp_last
          empty_iff list.set(1) set_ConsD set_append Un_iff list.set(2) insert_iff)
    then show ?thesis using c Some that by (auto simp: chain_ok_def)
  qed
  then have "\<not> resetting h" using r by (simp add: resetting_def)
  then show ?thesis using flush_ok [OF ok _ r(1)] by simp
qed


lemma call_ok:
  assumes ok: "store_ok h" and "\<not> resetting h" and "hk_reads h = []"
  shows "store_ok (call_procedure Reset h)"
proof -
  let ?g = "flush_pending h"
  have g: "store_ok ?g" "hk_pending ?g = None" "\<not> resetting ?g" "hk_reads ?g = []"
    using flush_ok [OF assms] by auto
  show ?thesis
  proof (cases "hk_chain ?g = []")
    case True
    then show ?thesis
      using g by (auto simp: settlePendingSaves_def wait_chain_def store_ok_def resetting_def idle_store_def chain_ok_def reset_done_def shows_stored_def)
  next
    case False
    then obtain ws w where c: "hk_chain ?g = ws @ [w]" by (metis append_butlast_last_id)
    then have quiet: "wr_waiting w = []" "\<forall>x \<in> set ws. wr_waiting x = []" using g(3) by (auto simp: resetting_def)
    have n: "\<not> reset_done ?g" "\<not> idle_store ?g" "hk_resets ?g = []"
      using g(1,3) c by (auto simp: store_ok_def idle_store_def resetting_def reset_done_def)
    have "chain_ok (?g\<lparr>hk_chain := ws @ [w\<lparr>wr_waiting := [Reset]\<rparr>]\<rparr>)"
      using g(1,2) n c quiet by (cases ws) (auto simp: store_ok_def chain_ok_def write_ok_def)
    then show ?thesis
      using g n c quiet by (auto simp: settlePendingSaves_def wait_chain_def store_ok_def idle_store_def reset_done_def)
  qed
qed

text \<open>The service takes the first save of the chain, and answers it.\<close>

lemma serve_write_ok:
  assumes ok: "store_ok h" and c: "hk_chain h = w # ws" and "wr_reply w = None"
  shows "store_ok (serve_write saves reloads h)"
proof -
  have busy: "\<not> idle_store h" "hk_resets h = []" "hk_reads h = []" using ok c by (auto simp: store_ok_def idle_store_def)
  then have h: "chain_ok h" "readable (hk_go h)" "fits (hk_go h) (hk_settings h)" "hk_pending h \<in> {None, Some (hk_settings h)}"
    using ok by (auto simp: store_ok_def reset_done_def)
  then have w: "wr_mode w = ModePreserve" "fits (hk_go h) (wr_settings w)" using c by (auto simp: chain_ok_def write_ok_def)
  then have u: "UpdateSettings saves reloads (wr_mode w) (toBackend (wr_settings w)) (hk_go h) =
      (if saves then (stored_of (wr_settings w) (hk_go h), Inr (redactSettings (stored_of (wr_settings w) (hk_go h)))) else (hk_go h, Inl SaveFailed))"
    using update_usable [of "wr_settings w" "hk_go h"] h(2) by (simp add: fits_def readable_def)
  have rest: "wr_mode x = ModePreserve" "fits (hk_go h) (wr_settings x)" "wr_reply x = None" if "x \<in> set ws" for x
    using h(1) c that by (auto simp: chain_ok_def write_ok_def)
  let ?r = "snd (UpdateSettings saves reloads (wr_mode w) (toBackend (wr_settings w)) (hk_go h))"
  let ?go = "fst (UpdateSettings saves reloads (wr_mode w) (toBackend (wr_settings w)) (hk_go h))"
  have go: "fits ?go f \<longleftrightarrow> fits (hk_go h) f" "readable ?go" for f
    using readable_stored [OF h(2) w(2)] h(2) by (simp_all add: u)
  have served: "write_ok ?go (w\<lparr>wr_reply := Some ?r\<rparr>)"
    using w stored_shows [OF w(2)] by (auto simp: write_ok_def u [unfolded w(1)] split: if_splits)
  have "chain_ok (h\<lparr>hk_go := ?go, hk_chain := w\<lparr>wr_reply := Some ?r\<rparr> # ws, hk_events := n\<rparr>)" for n
    using h(1) c served rest go(1) by (auto simp: chain_ok_def write_ok_def split: if_splits)
  then show ?thesis
    using busy h go c by (simp add: serve_write_def case_prod_beta Let_def store_ok_def idle_store_def reset_done_def)
qed

lemma answer_write_ok:
  assumes ok: "store_ok h" and c: "hk_chain h = w # ws" and r: "wr_reply w = Some r"
  shows "store_ok (answer_write r h)"
proof -
  have busy: "\<not> idle_store h" "hk_resets h = []" "hk_reads h = []" using ok c by (auto simp: store_ok_def idle_store_def)
  then have h: "chain_ok h" "readable (hk_go h)" "fits (hk_go h) (hk_settings h)" "hk_pending h \<in> {None, Some (hk_settings h)}"
    using ok by (auto simp: store_ok_def reset_done_def)
  have w: "wr_mode w = ModePreserve" using h(1) c by (auto simp: chain_ok_def write_ok_def)
  let ?h = "h\<lparr>hk_chain := ws, hk_failed := (\<exists>e. r = Inl e)\<rparr>"
  have rest: "chain_ok ?h"
    using h(1) c by (cases ws) (auto simp: chain_ok_def)
  have shown: "hk_failed ?h \<or> shows_stored ?h" if "ws = []" "hk_pending h = None"
    using h(1) c r that by (cases r) (auto simp: chain_ok_def write_ok_def shows_stored_def)
  have okh: "store_ok ?h"
    using busy h rest shown by (auto simp: store_ok_def idle_store_def shows_stored_def)
  show ?thesis
  proof (cases "ws = [] \<and> wr_waiting w = [Reset] \<and> (\<exists>v. r = Inr v)")
    case True
    then have "hk_pending h = None" using h(1) c by (auto simp: chain_ok_def)
    then show ?thesis
      using True c w okh busy by (auto simp: answer_write_def store_ok_def idle_store_def reset_done_def chain_ok_def shows_stored_def)
  next
    case False
    then have "wr_waiting w = [] \<or> (\<exists>e. r = Inl e)" using h(1) c by (cases r) (auto simp: chain_ok_def split: if_splits)
    then show ?thesis using c w okh by (cases r) (auto simp: answer_write_def)
  qed
qed

text \<open>Reads and resets.\<close>

lemma singleton_split: "xs @ x # ys = [y] \<longleftrightarrow> xs = [] \<and> x = y \<and> ys = []"
  by (cases xs) auto

lemma serve_reset_ok:
  assumes ok: "store_ok h" and rs: "hk_resets h = rs @ None # rs'" and "ResetSettings saves True (hk_go h) = (go, r)"
  shows "store_ok (h\<lparr>hk_go := go, hk_resets := rs @ Some r # rs', hk_events := n\<rparr>)"
proof -
  have idle: "idle_store h" "hk_reads h = []" using ok rs by (auto simp: store_ok_def)
  have nd: "\<not> reset_done h" using rs by (auto simp: reset_done_def singleton_split)
  then have one: "rs = []" "rs' = []" using ok rs by (auto simp: store_ok_def singleton_split)
  have "go = DefaultSettings \<and> r = Inr (redactSettings DefaultSettings) \<or> go = hk_go h \<and> r = Inl SaveFailed"
    using assms(3) by (auto simp: ResetSettings_def store_settings_def split: if_splits)
  then show ?thesis
    using ok nd idle one readable_default
    by (auto simp: store_ok_def idle_store_def reset_done_def chain_ok_def shows_stored_def)
qed

lemma answer_reset_ok:
  assumes ok: "store_ok h" and rs: "hk_resets h = rs @ Some r # rs'"
  shows "store_ok (answer_reset r (h\<lparr>hk_resets := rs @ rs'\<rparr>))"
proof -
  have idle: "idle_store h" "hk_reads h = []" using ok rs by (auto simp: store_ok_def)
  show ?thesis
  proof (cases "reset_done h")
    case True
    then have one: "rs = []" "rs' = []" "r = Inr (redactSettings DefaultSettings)" "hk_go h = DefaultSettings"
      using rs by (auto simp: reset_done_def singleton_split)
    then show ?thesis
      using idle readable_default fits_loaded [OF readable_default]
      by (auto simp: answer_reset_def store_ok_def idle_store_def chain_ok_def shows_stored_def)
  next
    case False
    then have one: "rs = []" "rs' = []" "\<exists>e. r = Inl e" using ok rs by (auto simp: store_ok_def singleton_split)
    then show ?thesis
      using ok False idle by (auto simp: answer_reset_def store_ok_def idle_store_def chain_ok_def shows_stored_def reset_done_def)
  qed
qed

lemma event_ok: "store_ok h \<Longrightarrow> \<not> resetting h \<Longrightarrow> store_ok (onSettingsChanged (h\<lparr>hk_events := n\<rparr>))"
proof -
  assume ok: "store_ok h" and quiet: "\<not> resetting h"
  then have nd: "\<not> reset_done h" "hk_resets h = []" by (auto simp: resetting_def reset_done_def)
  have "hk_chain h = []" if "savesInFlight h = 0"
    using that ok nd by (cases "hk_chain h") (auto simp: savesInFlight_def store_ok_def chain_ok_def write_ok_def)
  then show ?thesis
    using ok nd
    by (auto simp: onSettingsChanged_def savesInFlight_def store_ok_def idle_store_def chain_ok_def shows_stored_def reset_done_def)
qed

lemma read_ok:
  assumes ok: "store_ok h" and rs: "hk_reads h = rs @ v # rs'"
  shows "store_ok (h\<lparr>hk_reads := rs @ Some (redactSettings (hk_go h)) # rs'\<rparr>)"
    and "store_ok (h\<lparr>hk_reads := rs @ rs'\<rparr>)"
    and "v = Some w \<Longrightarrow> store_ok (answer_read w (h\<lparr>hk_reads := rs @ rs'\<rparr>))"
proof -
  have idle: "idle_store h" "hk_resets h = []" using ok rs by (auto simp: store_ok_def)
  then have nd: "\<not> reset_done h" by (simp add: reset_done_def)
  show "store_ok (h\<lparr>hk_reads := rs @ Some (redactSettings (hk_go h)) # rs'\<rparr>)" "store_ok (h\<lparr>hk_reads := rs @ rs'\<rparr>)"
    using ok idle nd rs by (auto simp: store_ok_def idle_store_def chain_ok_def shows_stored_def reset_done_def)
  assume v: "v = Some w"
  then have w: "w = redactSettings (hk_go h)" using ok rs by (auto simp: store_ok_def)
  have "fits (hk_go h) (toFrontend w)" using ok w fits_loaded by (simp add: store_ok_def)
  then show "store_ok (answer_read w (h\<lparr>hk_reads := rs @ rs'\<rparr>))"
    using ok idle nd rs w by (auto simp: answer_read_def store_ok_def idle_store_def chain_ok_def shows_stored_def)
qed

lemma flagged_flags:
  "flagged go f = f \<Longrightarrow> fs_globalAccessKeyConfigured f = (TrimSpace (se_globalAccessKey go) \<noteq> [])
     \<and> fs_globalSecretKeyConfigured f = (TrimSpace (se_globalSecretKey go) \<noteq> [])"
  by (cases f) (simp add: flagged_def)

lemma edit_ok:
  assumes ok: "store_ok h" and "offered upd h" and "hk_reads h = []" and "\<not> resetting h"
  shows "store_ok (setSetting upd h)"
proof -
  have nd: "\<not> reset_done h" "hk_resets h = []" using assms(4) by (auto simp: resetting_def reset_done_def)
  then have f: "fits (hk_go h) (hk_settings h)" "chain_ok h" using ok by (auto simp: store_ok_def)
  then have "fs_globalAccessKeyConfigured (hk_settings h) = (TrimSpace (se_globalAccessKey (hk_go h)) \<noteq> [])
      \<and> fs_globalSecretKeyConfigured (hk_settings h) = (TrimSpace (se_globalSecretKey (hk_go h)) \<noteq> [])"
    using flagged_flags by (simp add: fits_def)
  then have "flagged (hk_go h) (upd (hk_settings h)) = upd (hk_settings h)"
    using assms(2) by (intro FrontendSettings.equality) (simp_all add: flagged_def offered_def)
  then have "fits (hk_go h) (upd (hk_settings h))" using assms(2) by (simp add: fits_def offered_def)
  moreover have "\<forall>w \<in> set (hk_chain h). wr_waiting w = []" using assms(4) by (auto simp: resetting_def)
  ultimately show ?thesis
    using ok nd f assms(3) by (auto simp: setSetting_def store_ok_def idle_store_def chain_ok_def reset_done_def)
qed

lemma store_ok_step: "store_step a h h' \<Longrightarrow> settled_schedule a h \<Longrightarrow> store_ok h \<Longrightarrow> store_ok h'"
proof (induction rule: store_step.induct)
  case (serves_reset h rs rs' saves reloads go r)
  then show ?case using serve_reset_ok [of h rs rs' saves go r] by (simp add: settled_schedule_def)
qed (auto simp: settled_schedule_def intro: edit_ok timer_ok call_ok [simplified] serve_write_ok answer_write_ok answer_reset_ok event_ok read_ok)

lemma store_ok_loaded: "readable go \<Longrightarrow> store_ok (loaded_store go)"
  using fits_loaded [of go] by (simp add: loaded_store_def mounted_store_def store_ok_def idle_store_def chain_ok_def shows_stored_def)

lemma store_ok_run: "run store_step settled_schedule (loaded_store go) h \<Longrightarrow> readable go \<Longrightarrow> store_ok h"
  using run_invariant [of store_step settled_schedule "loaded_store go" h store_ok] store_ok_loaded store_ok_step by blast

section \<open>Properties\<close>

lemma default_view: "toFrontend (redactSettings DefaultSettings) = DEFAULTS"
proof -
  have "se_lagAlertThreshold DefaultSettings < 10 ^ 15" by (simp add: DefaultSettings_def)
  from loaded_fields [OF valid_default this] show ?thesis
    by (simp add: DefaultSettings_def DEFAULTS_def parseUIScale_def)
qed

text \<open>
  C7: On an orderly schedule the settings come to rest: with nothing pending or under way, what the window
  shows is what the service stored and would answer, unless the last save failed; and a reset is the last
  write: when the service has taken one, the defaults are stored and nothing is left to overwrite them.
  Orderly means: the window starts from settings it has loaded; every edit offers values in the service's
  ranges and leaves the flags of the stored keys alone, and none is made while settings are being read
  or a reset waits or runs; a reset is called while nothing is read and no other waits or runs, and its reload
  does not fail; the service's events are delivered while no reset waits or runs; the tray writes nothing and no
  credential is saved or cleared. Saves, resets and reads may fail, and are served and answered at any
  time. Outside the schedule it can fail: \<open>edit_during_read\<close>.
\<close>

theorem settings_settle:
  assumes "run store_step settled_schedule (loaded_store go) h" and "readable go"
  shows "(hk_pending h = None \<and> hk_chain h = [] \<and> hk_resets h = [] \<longrightarrow>
      hk_failed h \<or> toFrontend (redactSettings (hk_go h)) = hk_settings h)
    \<and> (\<forall>v. Some (Inr v) \<in> set (hk_resets h) \<longrightarrow>
      hk_go h = DefaultSettings \<and> toFrontend v = DEFAULTS \<and> hk_chain h = [] \<and> hk_pending h = None)"
proof -
  have ok: "store_ok h" by (rule store_ok_run [OF assms])
  then have "hk_pending h = None \<and> hk_chain h = [] \<and> hk_resets h = [] \<longrightarrow>
      hk_failed h \<or> toFrontend (redactSettings (hk_go h)) = hk_settings h"
    by (auto simp: store_ok_def reset_done_def idle_store_def shows_stored_def)
  moreover have "hk_go h = DefaultSettings \<and> toFrontend v = DEFAULTS \<and> hk_chain h = [] \<and> hk_pending h = None"
    if "Some (Inr v) \<in> set (hk_resets h)" for v
    using ok that default_view by (auto simp: store_ok_def reset_done_def idle_store_def)
  ultimately show ?thesis by blast
qed

text \<open>The dark theme is chosen, saved and answered.\<close>

definition dark :: FrontendSettings where
  "dark = DEFAULTS\<lparr>se_theme := u ''dark''\<rparr>"

definition dark_saved :: settings_store where
  "dark_saved = \<lparr>hk_settings = dark, hk_pending = None, hk_chain = [], hk_failed = False, hk_reads = [], hk_resets = [],
     hk_events = 1, hk_go = stored_of dark DefaultSettings\<rparr>"

lemma usable_defaults: "usable DEFAULTS"
  using fits_loaded [OF readable_default] by (simp add: default_view fits_def)

lemma usable_dark: "usable dark"
  using usable_defaults by (simp add: dark_def usable_def)

lemma loaded_defaults: "loaded_store DefaultSettings = \<lparr>hk_settings = DEFAULTS, hk_pending = None, hk_chain = [], hk_failed = False,
     hk_reads = [], hk_resets = [], hk_events = 0, hk_go = DefaultSettings\<rparr>"
  by (simp add: loaded_store_def mounted_store_def default_view)

lemma dark_run: "run store_step settled_schedule (loaded_store DefaultSettings) dark_saved"
proof -
  let ?run = "run store_step settled_schedule (loaded_store DefaultSettings)"
  have further: "?run s'" if "?run s" "store_step a s s'" "settled_schedule a s" for a s s'
    using that run_step by metis
  define w where "w = \<lparr>wr_settings = dark, wr_mode = ModePreserve, wr_reply = None, wr_waiting = []\<rparr>"
  define h1 where "h1 = (loaded_store DefaultSettings)\<lparr>hk_settings := dark, hk_pending := Some dark\<rparr>"
  define h2 where "h2 = h1\<lparr>hk_pending := None, hk_chain := [w]\<rparr>"
  define h3 where "h3 = h2\<lparr>hk_go := stored_of dark DefaultSettings,
    hk_chain := [w\<lparr>wr_reply := Some (Inr (redactSettings (stored_of dark DefaultSettings)))\<rparr>], hk_events := 1\<rparr>"
  have "store_step (Edit (\<lambda>f. f\<lparr>se_theme := u ''dark''\<rparr>)) (loaded_store DefaultSettings) h1"
    using store_step.edit [of "\<lambda>f. f\<lparr>se_theme := u ''dark''\<rparr>" "loaded_store DefaultSettings"]
    by (simp add: h1_def setSetting_def loaded_defaults dark_def)
  moreover have "settled_schedule (Edit (\<lambda>f. f\<lparr>se_theme := u ''dark''\<rparr>)) (loaded_store DefaultSettings)"
    using usable_dark by (simp add: settled_schedule_def offered_def resetting_def loaded_defaults dark_def)
  ultimately have r1: "?run h1" by (rule further [OF run_refl])
  have "store_step Timer h1 h2"
    using store_step.timer [of h1] by (simp add: h1_def h2_def w_def flush_pending_def enqueueSave_def chain_write_def loaded_defaults)
  with r1 have r2: "?run h2" by (rule further) (simp add: settled_schedule_def)
  have "store_step (ServeWrite True True) h2 h3"
    using store_step.serves_write [of h2 w "[]" True True] update_usable [OF usable_dark valid_default, of True True]
    by (simp add: h1_def h2_def h3_def w_def serve_write_def loaded_defaults announces_def)
  with r2 have r3: "?run h3" by (rule further) (simp add: settled_schedule_def)
  have "store_step AnswerWrite h3 dark_saved"
    using store_step.answers_write [of h3 "hd (hk_chain h3)" "[]" "Inr (redactSettings (stored_of dark DefaultSettings))"]
    by (simp add: h1_def h2_def h3_def w_def answer_write_def loaded_defaults dark_saved_def)
  with r3 show ?thesis by (rule further) (simp add: settled_schedule_def)
qed

theorem settings_settle_witness: "toFrontend (redactSettings (hk_go dark_saved)) = dark"
  using settings_settle [OF dark_run readable_default] by (simp add: dark_saved_def)

text \<open>
  What an orderly schedule excludes. A save that failed is remembered by the chain: a reset, and
  either credential operation, then fails without asking the service, until another save
  succeeds. And an edit made while the settings are read again is undone on screen by the answer,
  although its save goes through: with the service's event delivered while that save is under
  way, the window stays behind.
\<close>

lemma failed_save_blocks:
  "hk_pending h = None \<Longrightarrow> hk_chain h = [] \<Longrightarrow> hk_failed h \<Longrightarrow> call_procedure proc h = h"
  by (cases proc) (auto simp: settlePendingSaves_def flush_pending_def wait_chain_def)

lemma edit_during_read:
  assumes "hk_reads h = [Some v]" and "hk_chain h = []" and "hk_resets h = []" and "hk_pending h = None"
    and "usable (upd (hk_settings h))" and "readable (hk_go h)"
  shows "\<exists>h'. run store_step (\<lambda>_ _. True) h h' \<and> hk_pending h' = None \<and> hk_chain h' = [] \<and> hk_events h' = hk_events h
    \<and> hk_reads h' = [] \<and> \<not> hk_failed h' \<and> hk_settings h' = toFrontend v \<and> hk_go h' = stored_of (upd (hk_settings h)) (hk_go h)"
proof -
  let ?f = "upd (hk_settings h)" and ?run = "run store_step (\<lambda>_ _. True) h"
  have further: "?run s'" if "?run s" "store_step a s s'" for a s s'
    using that run_step [of store_step "\<lambda>_ _. True" h s a s'] by simp
  define w where "w = \<lparr>wr_settings = ?f, wr_mode = ModePreserve, wr_reply = None, wr_waiting = []\<rparr>"
  define r where "r = (Inr (redactSettings (stored_of ?f (hk_go h))) :: settings_error + SettingsView)"
  have r1: "?run (h\<lparr>hk_settings := ?f, hk_pending := Some ?f\<rparr>)"
    using further [OF run_refl store_step.edit] by (simp add: setSetting_def)
  from further [OF this store_step.timer] have r2: "?run (h\<lparr>hk_settings := ?f, hk_pending := None, hk_chain := [w]\<rparr>)"
    using assms(2) by (simp add: flush_pending_def enqueueSave_def chain_write_def w_def)
  have "serve_write True True (h\<lparr>hk_settings := ?f, hk_pending := None, hk_chain := [w]\<rparr>) =
      h\<lparr>hk_settings := ?f, hk_pending := None, hk_chain := [w\<lparr>wr_reply := Some r\<rparr>], hk_go := stored_of ?f (hk_go h), hk_events := hk_events h + 1\<rparr>"
    using update_usable [OF assms(5), of "hk_go h" True True] assms(6)
    by (simp add: serve_write_def w_def r_def announces_def readable_def)
  with further [OF r2 store_step.serves_write [of _ w "[]" True True]]
  have "?run (h\<lparr>hk_settings := ?f, hk_pending := None, hk_chain := [w\<lparr>wr_reply := Some r\<rparr>], hk_go := stored_of ?f (hk_go h), hk_events := hk_events h + 1\<rparr>)"
    by (simp add: w_def)
  from further [OF this store_step.event]
  have "?run (h\<lparr>hk_settings := ?f, hk_pending := None, hk_chain := [w\<lparr>wr_reply := Some r\<rparr>], hk_go := stored_of ?f (hk_go h), hk_events := hk_events h\<rparr>)"
    by (simp add: onSettingsChanged_def savesInFlight_def w_def)
  from further [OF this store_step.answers_write [of _ "w\<lparr>wr_reply := Some r\<rparr>" "[]" r]]
  have "?run (h\<lparr>hk_settings := ?f, hk_pending := None, hk_go := stored_of ?f (hk_go h), hk_chain := [], hk_failed := False, hk_events := hk_events h\<rparr>)"
    by (simp add: answer_write_def w_def r_def)
  from further [OF this store_step.answers_read [of _ "[]" v "[]"]]
  have "?run (h\<lparr>hk_pending := None, hk_go := stored_of ?f (hk_go h), hk_chain := [], hk_failed := False, hk_reads := [], hk_settings := toFrontend v, hk_events := hk_events h\<rparr>)"
    using assms(1) by (simp add: answer_read_def)
  then show ?thesis by (intro exI conjI) (assumption | simp)+
qed

end
