(* ===== verification/Send_Text.thy ===== *)
theory Send_Text
  imports Js_Text
begin

text \<open>
  What the send consoles and the create dialogs share: a header box read line by line into a
  dictionary, and a whole number typed into a field. Each family has its own loop body; the
  contract they keep is the locale \<open>pair_lines\<close>.
\<close>

section \<open>Loops, positions and dictionaries\<close>

text \<open>A \<open>for\<close> loop over the lines, whose body may return early.\<close>

fun for_lines :: "(jsstr \<Rightarrow> 'a \<Rightarrow> 'e + 'a) \<Rightarrow> jsstr list \<Rightarrow> 'a \<Rightarrow> 'e + 'a" where
  "for_lines body [] acc = Inr acc"
| "for_lines body (l # ls) acc = (case body l acc of Inl e \<Rightarrow> Inl e | Inr acc' \<Rightarrow> for_lines body ls acc')"

definition index_of :: "int \<Rightarrow> jsstr \<Rightarrow> int" where
  "index_of c s = (if c \<in> set s then int (length (takeWhile (\<lambda>x. x \<noteq> c) s)) else - 1)"

text \<open>\<open>s.slice(0, i)\<close> and \<open>s.slice(i + 1)\<close> for an index of the string.\<close>

definition slice_to :: "int \<Rightarrow> jsstr \<Rightarrow> jsstr" where
  "slice_to i s = take (nat i) s"

definition slice_after :: "int \<Rightarrow> jsstr \<Rightarrow> jsstr" where
  "slice_after i s = drop (nat (i + 1)) s"

text \<open>
  \<open>ob[k] = v\<close> on a plain object: the name \<open>__proto__\<close> reaches the accessor of the prototype, so there
  is no entry of that name afterwards; a string \<open>v\<close> is ignored altogether.
\<close>

definition proto :: jsstr where
  "proto = u ''__proto__''"

definition put_own :: "jsstr \<Rightarrow> 'a \<Rightarrow> (jsstr \<times> 'a) list \<Rightarrow> (jsstr \<times> 'a) list" where
  "put_own k v ob = (if k = proto then ob else obj_set k v ob)"

definition put_pair :: "jsstr \<times> jsstr \<Rightarrow> (jsstr \<times> jsstr) list \<Rightarrow> (jsstr \<times> jsstr) list" where
  "put_pair kv ob = put_own (fst kv) (snd kv) ob"

lemma index_of_cut:
  assumes "c \<in> set s"
  shows "slice_to (index_of c s) s = takeWhile (\<lambda>x. x \<noteq> c) s"
    and "slice_after (index_of c s) s = tl (dropWhile (\<lambda>x. x \<noteq> c) s)"
    and "index_of c s \<le> 0 \<longleftrightarrow> hd s = c"
proof -
  let ?n = "length (takeWhile (\<lambda>x. x \<noteq> c) s)"
  have i: "index_of c s = int ?n" using assms by (simp add: index_of_def)
  have parts: "takeWhile (\<lambda>x. x \<noteq> c) s = take ?n s" "dropWhile (\<lambda>x. x \<noteq> c) s = drop ?n s"
    using takeWhile_dropWhile_id [of "\<lambda>x. x \<noteq> c" s, unfolded append_eq_conv_conj] by blast+
  show "slice_to (index_of c s) s = takeWhile (\<lambda>x. x \<noteq> c) s"
    by (subst parts(1)) (simp only: slice_to_def i nat_int)
  have "nat (index_of c s + 1) = Suc ?n" by (simp add: i)
  then show "slice_after (index_of c s) s = tl (dropWhile (\<lambda>x. x \<noteq> c) s)"
    by (subst parts(2)) (simp only: slice_after_def drop_Suc tl_drop)
  show "index_of c s \<le> 0 \<longleftrightarrow> hd s = c"
    using assms by (cases s) (simp_all add: index_of_def)
qed

lemma index_of_none: "c \<notin> set s \<Longrightarrow> index_of c s = - 1"
  by (simp add: index_of_def)

lemma put_own_facts:
  "distinct (map fst ob) \<Longrightarrow> distinct (map fst (put_own k v ob))"
  "distinct (map fst ob) \<Longrightarrow> map_of (put_own k v ob) = (if k = proto then map_of ob else (map_of ob)(k \<mapsto> v))"
  by (simp_all add: put_own_def distinct_obj_set map_of_obj_set)

lemma fold_put_pair:
  assumes "distinct (map fst ob)"
  shows "distinct (map fst (fold put_pair kvs ob))"
    and "map_of (fold put_pair kvs ob) = map_of ob ++ map_of (rev (filter (\<lambda>kv. fst kv \<noteq> proto) kvs))"
  using assms
proof (induction kvs arbitrary: ob)
  case (Cons kv kvs)
  {
    case 1
    then show ?case using Cons.IH(1) by (simp add: put_pair_def put_own_facts)
  next
    case 2
    then show ?case using Cons.IH(2) [of "put_pair kv ob"]
      by (cases kv) (simp add: put_pair_def put_own_facts)
  }
qed simp_all

section \<open>The contract of a header box\<close>

text \<open>
  A line has a name when it carries the separator past its first character; the name and the
  value are what stands before and after the first separator, trimmed.
\<close>

definition has_name :: "int \<Rightarrow> jsstr \<Rightarrow> bool" where
  "has_name sep l \<longleftrightarrow> sep \<in> set l \<and> hd l \<noteq> sep"

definition name_of :: "int \<Rightarrow> jsstr \<Rightarrow> jsstr" where
  "name_of sep l = trim (takeWhile (\<lambda>x. x \<noteq> sep) l)"

definition value_of :: "int \<Rightarrow> jsstr \<Rightarrow> jsstr" where
  "value_of sep l = trim (tl (dropWhile (\<lambda>x. x \<noteq> sep) l))"

definition pair_of :: "int \<Rightarrow> jsstr \<Rightarrow> jsstr \<times> jsstr" where
  "pair_of sep l = (name_of sep l, value_of sep l)"

text \<open>
  \<open>skip\<close> is what a reader passes over without a word - the blank line, and for Kafka the comment.
  What is neither skipped nor named refuses the box; the last line for a name wins.
\<close>

locale pair_lines =
  fixes sep :: int and skip :: "jsstr \<Rightarrow> bool"
    and body :: "jsstr \<Rightarrow> (jsstr \<times> jsstr) list \<Rightarrow> 'e + (jsstr \<times> jsstr) list"
  assumes skips: "skip (trim l) \<Longrightarrow> body l ob = Inr ob"
    and reads: "\<not> skip (trim l) \<Longrightarrow> has_name sep (trim l) \<Longrightarrow> body l ob = Inr (put_pair (pair_of sep (trim l)) ob)"
    and refuses: "\<not> skip (trim l) \<Longrightarrow> \<not> has_name sep (trim l) \<Longrightarrow> \<exists>e. body l ob = Inl e"
begin

definition accepts :: "jsstr \<Rightarrow> bool" where
  "accepts l \<longleftrightarrow> skip (trim l) \<or> has_name sep (trim l)"

definition pairs :: "jsstr list \<Rightarrow> (jsstr \<times> jsstr) list" where
  "pairs ls = map (pair_of sep \<circ> trim) (filter (\<lambda>l. \<not> skip (trim l)) ls)"

lemma run_lines:
  "for_lines body ls ob = Inr d \<longleftrightarrow> list_all accepts ls \<and> d = fold put_pair (pairs ls) ob"
proof (induction ls arbitrary: ob)
  case Nil
  then show ?case by (auto simp: pairs_def)
next
  case (Cons l ls)
  consider "skip (trim l)" | "\<not> skip (trim l)" "has_name sep (trim l)" | "\<not> skip (trim l)" "\<not> has_name sep (trim l)" by blast
  then show ?case
  proof cases
    case 3
    then obtain e where "body l ob = Inl e" using refuses by blast
    then show ?thesis using 3 by (simp add: accepts_def)
  qed (simp_all add: Cons skips reads accepts_def pairs_def)
qed

lemma accepted_iff: "(\<exists>d. for_lines body ls ob = Inr d) \<longleftrightarrow> list_all accepts ls"
  by (simp add: run_lines)

lemma looked_up:
  assumes "for_lines body ls [] = Inr d"
  shows "map_of d = map_of (rev (filter (\<lambda>kv. fst kv \<noteq> proto) (pairs ls)))"
  using assms fold_put_pair(2) [of "[]"] by (simp add: run_lines)

end

text \<open>Where the reader says which line it could not read, it is the first such line, trimmed.\<close>

locale naming_lines = pair_lines sep skip body
  for sep :: int and skip :: "jsstr \<Rightarrow> bool" and body :: "jsstr \<Rightarrow> (jsstr \<times> jsstr) list \<Rightarrow> jsstr + (jsstr \<times> jsstr) list" +
  assumes names: "\<not> skip (trim l) \<Longrightarrow> \<not> has_name sep (trim l) \<Longrightarrow> body l ob = Inl (trim l)"
begin

lemma first_named:
  "for_lines body ls ob = Inl e \<Longrightarrow> \<exists>pre l post. ls = pre @ l # post \<and> list_all accepts pre \<and> \<not> accepts l \<and> e = trim l"
proof (induction ls arbitrary: ob)
  case (Cons l ls)
  show ?case
  proof (cases "accepts l")
    case True
    then have "\<exists>ob'. body l ob = Inr ob'" using skips [of l ob] reads [of l ob] by (cases "skip (trim l)") (auto simp: accepts_def)
    then obtain ob' where "for_lines body ls ob' = Inl e" using Cons.prems by auto
    from Cons.IH [OF this] obtain pre l' post where
      "ls = pre @ l' # post" "list_all accepts pre" "\<not> accepts l'" "e = trim l'" by blast
    then have "l # ls = (l # pre) @ l' # post \<and> list_all accepts (l # pre) \<and> \<not> accepts l' \<and> e = trim l'" using True by simp
    then show ?thesis by blast
  next
    case False
    then have "e = trim l" using Cons.prems names by (auto simp: accepts_def)
    then have "l # ls = [] @ l # ls \<and> list_all accepts [] \<and> \<not> accepts l \<and> e = trim l" using False by simp
    then show ?thesis by blast
  qed
qed simp

end

section \<open>Names, and a dictionary written down\<close>

lemma name_of_nonempty:
  assumes "has_name sep (trim l)"
  shows "name_of sep (trim l) \<noteq> []"
proof -
  obtain c cs where l: "trim l = c # cs" using assms by (cases "trim l") (auto simp: has_name_def)
  then have "\<not> is_ws c" using trim_nonblank [of l] by simp
  moreover have "c \<noteq> sep" using assms l by (simp add: has_name_def)
  ultimately show ?thesis by (simp add: name_of_def l trim_empty_iff)
qed

lemma name_of_trimmed [simp]: "trim (name_of sep l) = name_of sep l" "trim (value_of sep l) = value_of sep l"
  by (simp_all add: name_of_def value_of_def)

definition write_pair :: "int \<Rightarrow> jsstr \<times> jsstr \<Rightarrow> jsstr" where
  "write_pair sep kv = fst kv @ sep # snd kv"

definition writable :: "int \<Rightarrow> jsstr \<times> jsstr \<Rightarrow> bool" where
  "writable sep kv \<longleftrightarrow> fst kv \<noteq> [] \<and> trim (fst kv) = fst kv \<and> sep \<notin> set (fst kv) \<and> newline \<notin> set (fst kv)
     \<and> trim (snd kv) = snd kv \<and> newline \<notin> set (snd kv) \<and> fst kv \<noteq> proto"

lemma written_line:
  assumes "writable sep kv" and "\<not> is_ws sep"
  shows "trim (write_pair sep kv) = write_pair sep kv" "has_name sep (write_pair sep kv)"
    "pair_of sep (write_pair sep kv) = kv" "newline \<notin> set (write_pair sep kv)"
proof -
  obtain k v where kv: "kv = (k, v)" by (cases kv)
  have k: "k \<noteq> []" "trim k = k" "sep \<notin> set k" "trim v = v" using assms(1) by (simp_all add: writable_def kv)
  have "\<not> is_ws (hd k)" "v = [] \<or> \<not> is_ws (last v)" using trim_nonblank [of k] trim_nonblank [of v] k by auto
  then show "trim (write_pair sep kv) = write_pair sep kv"
    using k(1) assms(2) by (intro trim_idle) (auto simp: write_pair_def kv)
  show "has_name sep (write_pair sep kv)" using k(1,3) by (cases k) (auto simp: has_name_def write_pair_def kv)
  have "takeWhile (\<lambda>x. x \<noteq> sep) (k @ sep # v) = k" "dropWhile (\<lambda>x. x \<noteq> sep) (k @ sep # v) = sep # v"
    using k(3) by (induction k) auto
  then show "pair_of sep (write_pair sep kv) = kv"
    using k by (simp add: pair_of_def name_of_def value_of_def write_pair_def kv)
  show "newline \<notin> set (write_pair sep kv)"
    using assms by (auto simp: write_pair_def writable_def is_ws_def)
qed

context pair_lines
begin

lemma reads_back:
  assumes "\<not> is_ws sep" and "skip []" and "distinct (map fst m)" and "list_all (writable sep) m"
    and "\<And>kv. kv \<in> set m \<Longrightarrow> \<not> skip (write_pair sep kv)"
  shows "\<exists>d. for_lines body (split_on newline (join_with [newline] (map (write_pair sep) m))) [] = Inr d \<and> map_of d = map_of m"
proof (cases "m = []")
  case True
  then have "for_lines body (split_on newline (join_with [newline] (map (write_pair sep) m))) [] = Inr []"
    using skips [of "[]"] assms(2) by simp
  then show ?thesis using True by simp
next
  case False
  let ?ls = "map (write_pair sep) m"
  have w: "kv \<in> set m \<Longrightarrow> writable sep kv" for kv using assms(4) by (simp add: list_all_iff)
  note line = written_line [OF w assms(1)]
  have s: "split_on newline (join_with [newline] ?ls) = ?ls"
    using False line(4) by (intro split_on_join) auto
  have ok: "list_all accepts ?ls" using line(1,2) by (auto simp: list_all_iff accepts_def)
  have f: "filter (\<lambda>l. \<not> skip (trim l)) ?ls = ?ls" using line(1) assms(5) by (simp add: filter_id_conv)
  have p: "pairs ?ls = m" unfolding pairs_def f map_map using line(1,3) by (intro map_idI) simp
  obtain d where d: "for_lines body ?ls [] = Inr d" using ok accepted_iff by blast
  have "filter (\<lambda>kv. fst kv \<noteq> proto) m = m" using w by (simp add: writable_def filter_id_conv)
  then have "map_of d = map_of (rev m)" using looked_up [OF d] p by simp
  moreover have "map_of (rev m) = map_of m"
    using assms(3) by (intro map_of_inject_set [THEN iffD2]) (simp_all only: rev_map [symmetric] distinct_rev set_rev)
  ultimately show ?thesis using d s by simp
qed

end

section \<open>Whole numbers\<close>

lemma round_pos_large:
  assumes "2 ^ 53 \<le> n"
  shows "2 ^ 53 \<le> round_pos (of_int n)"
proof -
  define e where "e = bits n - 1"
  have n: "0 < n" using assms by (rule less_le_trans [rotated]) simp
  have b: "2 ^ nat (bits n - 1) \<le> n" "n < 2 ^ nat (bits n)" using bits_bounds [OF n] by simp_all
  have "(2 :: int) ^ 53 < 2 ^ nat (bits n)" using assms b(2) by (rule le_less_trans)
  then have "53 < nat (bits n)" by (rule power_less_imp_less_exp [rotated]) simp
  then have e: "53 \<le> e" by (simp add: e_def)
  have fl: "floor_log2 (of_int n) = e" using n by (simp add: floor_log2_def e_def)
  have q: "pow2 (e - 52) = 2 ^ nat (e - 52)" using e by (simp add: pow2_def)
  have "(2 :: rat) ^ nat e \<le> of_int n"
  proof -
    have "(of_int (2 ^ nat e) :: rat) \<le> of_int n" using b(1) by (simp only: e_def of_int_le_iff)
    then show ?thesis by simp
  qed
  moreover have "(2 :: rat) ^ nat e = 2 ^ 52 * 2 ^ nat (e - 52)"
  proof -
    have "nat e = 52 + nat (e - 52)" using e by simp
    then show ?thesis by (simp only: power_add)
  qed
  ultimately have "2 ^ 52 \<le> of_int n / (2 :: rat) ^ nat (e - 52)" by (simp add: pos_le_divide_eq)
  then have "2 ^ 52 \<le> \<lfloor>of_int n / (2 :: rat) ^ nat (e - 52)\<rfloor>" by (simp add: le_floor_iff)
  then have r: "2 ^ 52 \<le> round_even (of_int n / 2 ^ nat (e - 52))" by (auto simp: round_even_def Let_def)
  have "(2 :: rat) ^ 1 \<le> 2 ^ nat (e - 52)" using e by (intro power_increasing) simp_all
  then have "(2 :: rat) ^ 52 * 2 \<le> of_int (round_even (of_int n / 2 ^ nat (e - 52))) * 2 ^ nat (e - 52)"
  proof (intro mult_mono)
    have "(of_int (2 ^ 52) :: rat) \<le> of_int (round_even (of_int n / 2 ^ nat (e - 52)))" using r by (simp only: of_int_le_iff)
    then show "(2 :: rat) ^ 52 \<le> of_int (round_even (of_int n / 2 ^ nat (e - 52)))" by simp
  qed (use r in simp_all)
  then show ?thesis using e by (simp add: round_pos_def fl q Let_def)
qed

text \<open>A whole number that is not huge once rounded was not rounded.\<close>

lemma to_num_small:
  assumes "Fin 0 \<le> to_num (of_int n)" and "to_num (of_int n) \<le> Fin (of_int b)" and "b < 2 ^ 53"
  shows "to_num (of_int n) = Fin (of_int n)" and "0 \<le> n" and "n \<le> b"
proof -
  have small: "\<bar>n\<bar> \<le> 2 ^ 53"
  proof (rule ccontr)
    assume "\<not> \<bar>n\<bar> \<le> 2 ^ 53"
    then have big: "2 ^ 53 \<le> \<bar>n\<bar>" "n \<noteq> 0" by simp_all
    have r: "2 ^ 53 \<le> round_pos (of_int \<bar>n\<bar>)" by (rule round_pos_large [OF big(1)])
    have "(of_int b :: rat) < of_int (2 ^ 53)" using assms(3) by (simp only: of_int_less_iff)
    then have "of_int b < round_pos (of_int \<bar>n\<bar>)" using r by simp
    moreover have "0 < round_pos (of_int \<bar>n\<bar>)" using r by (rule less_le_trans [rotated]) simp
    ultimately show False using assms(1,2) big(2) by (auto simp: to_num_def Let_def split: if_splits)
  qed
  then show e: "to_num (of_int n) = Fin (of_int n)" by (rule to_num_of_int)
  show "0 \<le> n" "n \<le> b" using assms(1,2) unfolding e by simp_all
qed

lemma parse_int_small:
  assumes "Fin 0 \<le> parse_int s" and "parse_int s \<le> Fin (of_int b)" and "b < 2 ^ 53"
  shows "\<exists>n. parse_int s = Fin (of_int n) \<and> 0 \<le> n \<and> n \<le> b"
proof -
  obtain sg r where "sign_of (trim_start s) = (sg, r)" by (cases "sign_of (trim_start s)")
  then have "parse_int s = to_num (of_int (sg * digits_val (takeWhile is_digit r)))"
    using assms(1) unfolding parse_int_def Let_def by (cases "takeWhile is_digit r = []") (simp_all only: prod.case if_True if_False NaN_cmp simp_thms)
  then obtain n where n: "parse_int s = to_num (of_int n)" by blast
  from to_num_small [OF assms(1,2) [unfolded n] assms(3)] show ?thesis unfolding n by blast
qed

text \<open>
  A number of the renderer as a Go \<open>int\<close>: JSON writes what is not finite as \<open>null\<close>, which leaves the
  field at zero, and the decoder refuses a fraction or what sixty-four bits do not hold.
\<close>

fun json_int :: "jsnum \<Rightarrow> int option" where
  "json_int (Fin q) = (if q = of_int \<lfloor>q\<rfloor> \<and> - (2 ^ 63) \<le> \<lfloor>q\<rfloor> \<and> \<lfloor>q\<rfloor> < 2 ^ 63 then Some \<lfloor>q\<rfloor> else None)"
| "json_int _ = Some 0"

lemma json_int_of_int [simp]: "json_int (Fin (of_int n)) = (if - (2 ^ 63) \<le> n \<and> n < 2 ^ 63 then Some n else None)"
  by simp

lemma json_int_numeral [simp]: "json_int (Fin 0) = Some 0" "json_int (Fin 1) = Some 1"
  by simp_all

text \<open>\<open>if count <= 0 { count = 1 }\<close>, as every driver begins.\<close>

definition at_least_one :: "int \<Rightarrow> int" where
  "at_least_one n = (if n \<le> 0 then 1 else n)"

section \<open>Rows of a table\<close>

text \<open>
  The rows a console adds one by one: a row with a value and no name stops the send, a row with
  neither is passed over.
\<close>

definition nameless :: "(jsstr \<times> jsstr) list \<Rightarrow> bool" where
  "nameless rows \<longleftrightarrow> list_ex (\<lambda>(name, val). trim name = [] \<and> val \<noteq> []) rows"

definition named_rows :: "(jsstr \<times> jsstr) list \<Rightarrow> (jsstr \<times> jsstr) list" where
  "named_rows rows = foldl (\<lambda>ob (name, val). if trim name \<noteq> [] then put_own (trim name) val ob else ob) [] rows"

lemma named_rows_put:
  "named_rows rows = fold put_pair (map (\<lambda>(name, val). (trim name, val)) (filter (\<lambda>(name, val). trim name \<noteq> []) rows)) []"
proof -
  have "foldl (\<lambda>ob (name, val). if trim name \<noteq> [] then put_own (trim name) val ob else ob) ob rows =
      fold put_pair (map (\<lambda>(name, val). (trim name, val)) (filter (\<lambda>(name, val). trim name \<noteq> []) rows)) ob" for ob
    by (induction rows arbitrary: ob) (auto simp: put_pair_def)
  then show ?thesis by (simp add: named_rows_def)
qed

lemma named_rows_facts:
  "distinct (map fst (named_rows rows))"
  "map_of (named_rows rows) =
     map_of (rev (filter (\<lambda>kv. fst kv \<noteq> proto) (map (\<lambda>(name, val). (trim name, val)) (filter (\<lambda>(name, val). trim name \<noteq> []) rows))))"
  by (simp_all add: named_rows_put fold_put_pair)

lemma named_rows_names: "(k, v) \<in> set (named_rows rows) \<Longrightarrow> k \<noteq> [] \<and> trim k = k \<and> k \<noteq> proto"
proof -
  assume "(k, v) \<in> set (named_rows rows)"
  then have "map_of (named_rows rows) k = Some v" using named_rows_facts(1) by (simp add: map_of_eq_Some_iff)
  then show ?thesis unfolding named_rows_facts(2) by (auto dest!: map_of_SomeD)
qed

section \<open>Batches\<close>

text \<open>\<open>for start := 0; start < count; start += size\<close>, each batch the indexes up to \<open>min(start + size, count)\<close>.\<close>

function batches :: "nat \<Rightarrow> nat \<Rightarrow> nat \<Rightarrow> nat list list" where
  "batches sz start cnt = (if start < cnt \<and> 0 < sz then [start..<min (start + sz) cnt] # batches sz (start + sz) cnt else [])"
  by pat_completeness auto
termination
  by (relation "measure (\<lambda>(sz, start, cnt). cnt - start)") auto

declare batches.simps [simp del]

lemma batches_cover: "0 < sz \<Longrightarrow> concat (batches sz start cnt) = [start..<cnt]"
proof (induction sz start cnt rule: batches.induct)
  case (1 sz start cnt)
  show ?case
  proof (cases "start < cnt")
    case True
    then have "concat (batches sz start cnt) = [start..<min (start + sz) cnt] @ [start + sz..<cnt]"
      using 1 by (subst batches.simps) simp
    also have "\<dots> = [start..<cnt]"
      using True upt_add_eq_append [of start "start + sz" "cnt - (start + sz)"] by (cases "start + sz \<le> cnt") (simp_all add: min_def)
    finally show ?thesis .
  qed (simp add: batches.simps)
qed

lemma batches_size: "b \<in> set (batches sz start cnt) \<Longrightarrow> 0 < length b \<and> length b \<le> sz"
proof (induction sz start cnt rule: batches.induct)
  case (1 sz start cnt)
  then show ?case by (subst (asm) batches.simps) (auto split: if_splits)
qed

lemma batches_count: "0 < sz \<Longrightarrow> length (batches sz start cnt) = (cnt - start + sz - 1) div sz"
proof (induction sz start cnt rule: batches.induct)
  case (1 sz start cnt)
  show ?case
  proof (cases "start < cnt")
    case True
    have "(cnt - start + sz - 1) div sz = Suc ((cnt - start - 1) div sz)"
      using True 1(2) div_add_self2 [of sz "cnt - start - 1"] by simp
    moreover have "(cnt - (start + sz) + sz - 1) div sz = (cnt - start - 1) div sz"
    proof (cases "start + sz \<le> cnt")
      case True
      then show ?thesis by simp
    next
      case False
      then show ?thesis using 1(2) by simp
    qed
    ultimately show ?thesis using True 1 by (subst batches.simps) simp
  qed (use 1(2) in \<open>simp add: batches.simps\<close>)
qed

end
