(* ===== verification/Header_Boxes.thy ===== *)
theory Header_Boxes
  imports Send_Text
begin

text \<open>
  The boxes of \<open>name=value\<close> or \<open>name: value\<close> lines the send consoles read: six readers, each as its
  family writes it, and the contract \<open>pair_lines\<close> they share. RabbitMQ's drops a line that is no
  pair, the others refuse the send; Pulsar's and ActiveMQ's say which line it was; Kafka's, which
  also reads the settings of a new topic, passes over comments.
\<close>

section \<open>The readers\<close>

text \<open>\<open>parseProperties\<close> of \<open>mq/pulsar/publish.ts\<close>.\<close>

definition pulsar_line :: "jsstr \<Rightarrow> (jsstr \<times> jsstr) list \<Rightarrow> jsstr + (jsstr \<times> jsstr) list" where
  "pulsar_line line properties = (let trimmed = trim line; index = index_of 61 trimmed in
     if trimmed = [] then Inr properties
     else if index \<le> 0 then Inl trimmed
     else Inr (put_own (trim (slice_to index trimmed)) (trim (slice_after index trimmed)) properties))"

definition pulsar_parseProperties :: "jsstr \<Rightarrow> jsstr + (jsstr \<times> jsstr) list" where
  "pulsar_parseProperties raw = for_lines pulsar_line (split_on newline raw) []"

text \<open>\<open>parseHeaders\<close> of \<open>producerActiveMQDraft.ts\<close>.\<close>

definition activemq_line :: "jsstr \<Rightarrow> (jsstr \<times> jsstr) list \<Rightarrow> jsstr + (jsstr \<times> jsstr) list" where
  "activemq_line raw headers = (let line = trim raw; separator = index_of 58 line; key = trim (slice_to separator line) in
     if line = [] then Inr headers
     else if separator \<le> 0 then Inl line
     else if key = [] then Inl line
     else Inr (put_own key (trim (slice_after separator line)) headers))"

definition activemq_parseHeaders :: "jsstr \<Rightarrow> jsstr + (jsstr \<times> jsstr) list" where
  "activemq_parseHeaders block = for_lines activemq_line (split_on newline block) []"

text \<open>\<open>parseUserProperties\<close> of \<open>producerMqttDraft.ts\<close>; \<open>null\<close> is the early return \<open>Inl ()\<close>.\<close>

definition mqtt_line :: "jsstr \<Rightarrow> (jsstr \<times> jsstr) list \<Rightarrow> unit + (jsstr \<times> jsstr) list" where
  "mqtt_line line properties = (let trimmed = trim line; equals = index_of 61 trimmed in
     if trimmed = [] then Inr properties
     else if equals \<le> 0 then Inl ()
     else Inr (put_own (trim (slice_to equals trimmed)) (trim (slice_after equals trimmed)) properties))"

definition mqtt_parseUserProperties :: "jsstr \<Rightarrow> unit + (jsstr \<times> jsstr) list" where
  "mqtt_parseUserProperties raw = for_lines mqtt_line (split_on newline raw) []"

text \<open>\<open>parseHeaders\<close> of \<open>producerNatsDraft.ts\<close>.\<close>

definition nats_line :: "jsstr \<Rightarrow> (jsstr \<times> jsstr) list \<Rightarrow> unit + (jsstr \<times> jsstr) list" where
  "nats_line line headers = (let text = trim line; colon = index_of 58 text; name = trim (slice_to colon text) in
     if text = [] then Inr headers
     else if colon \<le> 0 then Inl ()
     else if name = [] then Inl ()
     else Inr (put_own name (trim (slice_after colon text)) headers))"

definition nats_parseHeaders :: "jsstr \<Rightarrow> unit + (jsstr \<times> jsstr) list" where
  "nats_parseHeaders raw = for_lines nats_line (split_on newline raw) []"

text \<open>\<open>parseConfigLines\<close> of \<open>TopicDialogKafka.tsx\<close>, which the Kafka send console reads its headers with.\<close>

definition kafka_line :: "jsstr \<Rightarrow> (jsstr \<times> jsstr) list \<Rightarrow> unit + (jsstr \<times> jsstr) list" where
  "kafka_line raw configs = (let line = trim raw; split = index_of 61 line; key = trim (slice_to split line);
       val = trim (slice_after split line) in
     if line = [] \<or> starts_with line (u ''#'') then Inr configs
     else if split \<le> 0 then Inl ()
     else if key = [] then Inl ()
     else Inr (put_own key val configs))"

definition parseConfigLines :: "jsstr \<Rightarrow> unit + (jsstr \<times> jsstr) list" where
  "parseConfigLines text = for_lines kafka_line (split_on newline text) []"

text \<open>
  \<open>parseHeaders\<close> of \<open>mq/rabbitmq/publish.ts\<close>, which splits the line as it stands at every
  equals sign, joins the rest again and never refuses.
\<close>

definition rabbit_line :: "jsstr \<Rightarrow> (jsstr \<times> jsstr) list \<Rightarrow> unit + (jsstr \<times> jsstr) list" where
  "rabbit_line line headers = (let parts = split_on 61 line; name = hd parts; rest = tl parts in
     if trim name \<noteq> [] \<and> 0 < length rest then Inr (put_own (trim name) (trim (join_with [61] rest)) headers)
     else Inr headers)"

definition rabbit_parseHeaders :: "jsstr \<Rightarrow> unit + (jsstr \<times> jsstr) list" where
  "rabbit_parseHeaders text = for_lines rabbit_line (split_on newline text) []"

section \<open>The contract kept\<close>

lemma has_name_index:
  "l \<noteq> [] \<Longrightarrow> \<not> index_of sep l \<le> 0 \<longleftrightarrow> has_name sep l"
  by (cases "sep \<in> set l") (simp_all add: index_of_cut(3) index_of_none has_name_def)

lemma cut_pair:
  "has_name sep l \<Longrightarrow> trim (slice_to (index_of sep l) l) = name_of sep l"
  "has_name sep l \<Longrightarrow> trim (slice_after (index_of sep l) l) = value_of sep l"
  by (simp_all add: has_name_def index_of_cut(1,2) name_of_def value_of_def)

lemma has_name_nonempty: "has_name sep l \<Longrightarrow> l \<noteq> []"
  by (auto simp: has_name_def)

lemmas line_rules = has_name_index has_name_nonempty cut_pair name_of_nonempty put_pair_def pair_of_def Let_def

interpretation pulsar_box: naming_lines 61 "\<lambda>l. l = []" pulsar_line
  by unfold_locales (use has_name_index in \<open>auto simp: pulsar_line_def line_rules\<close>)

interpretation activemq_box: naming_lines 58 "\<lambda>l. l = []" activemq_line
  by unfold_locales (use has_name_index in \<open>auto simp: activemq_line_def line_rules\<close>)

interpretation mqtt_box: pair_lines 61 "\<lambda>l. l = []" mqtt_line
  by unfold_locales (use has_name_index in \<open>auto simp: mqtt_line_def line_rules\<close>)

interpretation nats_box: pair_lines 58 "\<lambda>l. l = []" nats_line
  by unfold_locales (use has_name_index in \<open>auto simp: nats_line_def line_rules\<close>)

interpretation kafka_box: pair_lines 61 "\<lambda>l. l = [] \<or> starts_with l (u ''#'')" kafka_line
  by unfold_locales (use has_name_index in \<open>auto simp: kafka_line_def line_rules\<close>)

text \<open>
  RabbitMQ's reader cuts the untrimmed line; a separator that is no white space makes that the
  same name and value.
\<close>

lemma trim_around:
  assumes "\<not> is_ws sep"
  shows "trim (a @ sep # b) = trim_start a @ sep # trim_end b"
proof -
  have "trim_start (a @ sep # b) = trim_start a @ sep # b"
    using assms by (auto simp: trim_start_def dropWhile_append)
  moreover have "trim_end (trim_start a @ sep # b) = trim_start a @ sep # trim_end b"
    using assms by (auto simp: trim_end_def dropWhile_append)
  ultimately show ?thesis by (simp add: trim_def)
qed

lemma trim_ends_idem: "trim_start (trim_start s) = trim_start s" "trim_end (trim_end s) = trim_end s"
  by (simp_all add: trim_start_def trim_end_def dropWhile_idle hd_dropWhile)

lemma trim_of_trim_start: "trim (trim_start s) = trim s"
  by (simp add: trim_def trim_ends_idem)

lemma trim_of_trim_end: "trim (trim_end s) = trim s"
proof -
  define r where "r = dropWhile is_ws (rev s)"
  obtain w where w: "rev s = w @ r" "\<forall>c \<in> set w. is_ws c"
    using takeWhile_dropWhile_id [of is_ws "rev s"] set_takeWhileD [of _ is_ws "rev s"] unfolding r_def by metis
  have e: "trim_end s = rev r" by (simp add: trim_end_def r_def)
  have s: "s = rev r @ rev w" using w(1) by (metis rev_append rev_rev_ident)
  show ?thesis
  proof (cases "\<forall>c \<in> set r. is_ws c")
    case True
    then have "\<forall>c \<in> set s. is_ws c" "\<forall>c \<in> set (trim_end s). is_ws c" using w(2) e by (auto simp: s)
    then show ?thesis by (metis trim_empty_iff)
  next
    case False
    then have "trim_start s = trim_start (rev r) @ rev w" by (auto simp: trim_start_def s dropWhile_append)
    then have "trim s = trim_end (trim_start (rev r) @ rev w)" by (simp only: trim_def)
    also have "\<dots> = trim_end (trim_start (rev r))" using w(2) by (simp add: trim_end_def dropWhile_append)
    finally show ?thesis by (simp only: e trim_def)
  qed
qed

lemma split_on_cut: "c \<in> set s \<Longrightarrow> hd (split_on c s) = takeWhile (\<lambda>x. x \<noteq> c) s \<and> tl (split_on c s) = split_on c (tl (dropWhile (\<lambda>x. x \<noteq> c) s))"
  by (induction s) (auto split: list.split)

lemma cut_of_trim:
  assumes "\<not> is_ws sep" and "sep \<in> set l"
  shows "name_of sep (trim l) = trim (takeWhile (\<lambda>x. x \<noteq> sep) l)"
    and "value_of sep (trim l) = trim (tl (dropWhile (\<lambda>x. x \<noteq> sep) l))"
    and "has_name sep (trim l) \<longleftrightarrow> trim (takeWhile (\<lambda>x. x \<noteq> sep) l) \<noteq> []"
proof -
  define a where "a = takeWhile (\<lambda>x. x \<noteq> sep) l"
  define b where "b = tl (dropWhile (\<lambda>x. x \<noteq> sep) l)"
  have "dropWhile (\<lambda>x. x \<noteq> sep) l \<noteq> []" using assms(2) by simp
  then have "dropWhile (\<lambda>x. x \<noteq> sep) l = sep # b"
    using hd_dropWhile [of "\<lambda>x. x \<noteq> sep" l] unfolding b_def by (metis list.collapse)
  then have l: "l = a @ sep # b" by (metis a_def takeWhile_dropWhile_id)
  have a: "sep \<notin> set a" unfolding a_def by (metis (full_types) set_takeWhileD)
  then have a': "sep \<notin> set (trim_start a)" by (auto simp: trim_start_def dest: set_dropWhileD)
  have t: "trim l = trim_start a @ sep # trim_end b" unfolding l by (rule trim_around [OF assms(1)])
  have "takeWhile (\<lambda>x. x \<noteq> sep) (trim l) = trim_start a" "dropWhile (\<lambda>x. x \<noteq> sep) (trim l) = sep # trim_end b"
    using a' unfolding t by (auto simp: takeWhile_append dropWhile_append)
  then show "name_of sep (trim l) = trim (takeWhile (\<lambda>x. x \<noteq> sep) l)" "value_of sep (trim l) = trim (tl (dropWhile (\<lambda>x. x \<noteq> sep) l))"
    by (simp_all add: name_of_def value_of_def trim_of_trim_start trim_of_trim_end flip: a_def b_def)
  have "hd (trim l) = sep \<longleftrightarrow> trim_start a = []" using a' unfolding t by (cases "trim_start a") auto
  moreover have "trim_start a = [] \<longleftrightarrow> trim a = []" by (simp add: trim_empty_iff trim_start_def dropWhile_eq_Nil_conv)
  ultimately show "has_name sep (trim l) \<longleftrightarrow> trim (takeWhile (\<lambda>x. x \<noteq> sep) l) \<noteq> []"
    by (simp add: has_name_def t flip: a_def)
qed

lemma rabbit_line_is:
  "rabbit_line l headers = Inr (if has_name 61 (trim l) then put_pair (pair_of 61 (trim l)) headers else headers)"
proof (cases "61 \<in> set l")
  case True
  then show ?thesis
    using split_on_cut [of 61 l] cut_of_trim [of 61 l]
    by (simp add: rabbit_line_def join_split put_pair_def pair_of_def is_ws_def)
next
  case False
  moreover have "61 \<notin> set (trim l)" using False set_trim_by [of is_ws l] by (auto simp: trim_by_is_ws)
  ultimately show ?thesis by (simp add: rabbit_line_def split_on_no_sep has_name_def)
qed

interpretation rabbit_box: pair_lines 61 "\<lambda>l. \<not> has_name 61 l" rabbit_line
  by unfold_locales (auto simp: rabbit_line_is)

section \<open>The boxes, family by family\<close>

datatype box = PulsarBox | ActiveMQBox | MqttBox | NatsBox | KafkaBox | RabbitBox

fun box_sep :: "box \<Rightarrow> int" where
  "box_sep ActiveMQBox = 58"
| "box_sep NatsBox = 58"
| "box_sep _ = 61"

fun box_skips :: "box \<Rightarrow> jsstr \<Rightarrow> bool" where
  "box_skips KafkaBox l \<longleftrightarrow> l = [] \<or> starts_with l (u ''#'')"
| "box_skips RabbitBox l \<longleftrightarrow> \<not> has_name 61 l"
| "box_skips _ l \<longleftrightarrow> l = []"

fun right :: "'e + 'a \<Rightarrow> 'a option" where
  "right (Inl e) = None"
| "right (Inr a) = Some a"

fun read_box :: "box \<Rightarrow> jsstr \<Rightarrow> (jsstr \<times> jsstr) list option" where
  "read_box PulsarBox raw = right (pulsar_parseProperties raw)"
| "read_box ActiveMQBox raw = right (activemq_parseHeaders raw)"
| "read_box MqttBox raw = right (mqtt_parseUserProperties raw)"
| "read_box NatsBox raw = right (nats_parseHeaders raw)"
| "read_box KafkaBox raw = right (parseConfigLines raw)"
| "read_box RabbitBox raw = right (rabbit_parseHeaders raw)"

definition box_pairs :: "box \<Rightarrow> jsstr \<Rightarrow> (jsstr \<times> jsstr) list" where
  "box_pairs b raw = map (pair_of (box_sep b) \<circ> trim) (filter (\<lambda>l. \<not> box_skips b (trim l)) (split_on newline raw))"

lemma right_Some [simp]: "right r = Some d \<longleftrightarrow> r = Inr d"
  by (cases r) auto

lemma right_None: "right r = None \<longleftrightarrow> \<not> (\<exists>d. r = Inr d)"
  by (cases r) auto

lemmas box_defs = pulsar_parseProperties_def activemq_parseHeaders_def mqtt_parseUserProperties_def
  nats_parseHeaders_def parseConfigLines_def rabbit_parseHeaders_def

lemma read_box_None:
  "read_box b raw = None \<longleftrightarrow>
     (\<exists>l \<in> set (split_on newline raw). \<not> box_skips b (trim l) \<and> \<not> has_name (box_sep b) (trim l))"
  by (cases b)
    (simp_all add: right_None box_defs list_all_iff pulsar_box.accepted_iff activemq_box.accepted_iff mqtt_box.accepted_iff
      nats_box.accepted_iff kafka_box.accepted_iff rabbit_box.accepted_iff pulsar_box.accepts_def activemq_box.accepts_def
      mqtt_box.accepts_def nats_box.accepts_def kafka_box.accepts_def rabbit_box.accepts_def)

lemma read_box_pairs:
  "read_box b raw = Some d \<Longrightarrow> map_of d = map_of (rev (filter (\<lambda>kv. fst kv \<noteq> proto) (box_pairs b raw)))"
  by (cases b)
    (auto simp: box_defs box_pairs_def
      dest!: pulsar_box.looked_up [unfolded pulsar_box.pairs_def] activemq_box.looked_up [unfolded activemq_box.pairs_def]
        mqtt_box.looked_up [unfolded mqtt_box.pairs_def] nats_box.looked_up [unfolded nats_box.pairs_def]
        kafka_box.looked_up [unfolded kafka_box.pairs_def] rabbit_box.looked_up [unfolded rabbit_box.pairs_def])

text \<open>
  C23: A header box is refused exactly when one of its lines is neither passed over nor a pair -
  RabbitMQ's never - and what an accepted box sends is the last value written for each name,
  every name trimmed and not empty; a name \<open>__proto__\<close> is not sent.
\<close>

theorem header_boxes_exact:
  "(read_box b raw = None \<longleftrightarrow>
      (\<exists>l \<in> set (split_on newline raw). \<not> box_skips b (trim l) \<and> \<not> has_name (box_sep b) (trim l)))
   \<and> (\<forall>d. read_box b raw = Some d \<longrightarrow>
        map_of d = map_of (rev (filter (\<lambda>kv. fst kv \<noteq> proto) (box_pairs b raw)))
        \<and> (\<forall>k v. map_of d k = Some v \<longrightarrow> k \<noteq> [] \<and> trim k = k \<and> trim v = v))"
proof -
  have "k \<noteq> [] \<and> trim k = k \<and> trim v = v" if d: "read_box b raw = Some d" and k: "map_of d k = Some v" for d k v
  proof -
    have "(k, v) \<in> set (box_pairs b raw)"
      using k read_box_pairs [OF d] map_of_SomeD [of _ k v] by fastforce
    then obtain l where l: "l \<in> set (split_on newline raw)" "\<not> box_skips b (trim l)" "(k, v) = pair_of (box_sep b) (trim l)"
      by (auto simp: box_pairs_def)
    moreover have "has_name (box_sep b) (trim l)" using d l(1,2) read_box_None [of b raw] by auto
    ultimately show ?thesis using name_of_nonempty by (simp add: pair_of_def)
  qed
  then show ?thesis using read_box_None [of b raw] read_box_pairs [of b raw] by blast
qed

theorem header_boxes_exact_witness:
  "read_box PulsarBox (u ''stage paid'') = None
   \<and> (\<exists>d. read_box NatsBox (u ''a: 1'' @ newline # u ''a:2'') = Some d \<and> map_of d (u ''a'') = Some (u ''2''))"
proof -
  have "read_box NatsBox (u ''a: 1'' @ newline # u ''a:2'') \<noteq> None"
    using header_boxes_exact [of NatsBox "u ''a: 1'' @ newline # u ''a:2''"]
    by (simp add: u_def trim_def trim_start_def trim_end_def is_ws_def has_name_def)
  then obtain d where d: "read_box NatsBox (u ''a: 1'' @ newline # u ''a:2'') = Some d" by blast
  moreover have "map_of d (u ''a'') = Some (u ''2'')"
    using header_boxes_exact [of NatsBox "u ''a: 1'' @ newline # u ''a:2''"] d
    by (simp add: u_def trim_def trim_start_def trim_end_def is_ws_def box_pairs_def pair_of_def name_of_def value_of_def proto_def)
  ultimately show ?thesis
    by (simp add: u_def box_defs pulsar_line_def index_of_def trim_def trim_start_def trim_end_def is_ws_def)
qed

text \<open>Pulsar and ActiveMQ show the first line they could not read.\<close>

lemma refused_line_is_first:
  assumes "r = pulsar_parseProperties raw \<and> sep = 61 \<or> r = activemq_parseHeaders raw \<and> sep = 58" and "r = Inl e"
  shows "\<exists>pre l post. split_on newline raw = pre @ l # post \<and> e = trim l \<and> e \<noteq> [] \<and> \<not> has_name sep e
     \<and> (\<forall>l' \<in> set pre. trim l' = [] \<or> has_name sep (trim l'))"
  using assms
proof (elim disjE conjE)
  assume "r = pulsar_parseProperties raw" "sep = 61" "r = Inl e"
  then show ?thesis using pulsar_box.first_named [of "split_on newline raw" "[]" e]
    by (auto simp: box_defs pulsar_box.accepts_def list_all_iff)
next
  assume "r = activemq_parseHeaders raw" "sep = 58" "r = Inl e"
  then show ?thesis using activemq_box.first_named [of "split_on newline raw" "[]" e]
    by (auto simp: box_defs activemq_box.accepts_def list_all_iff)
qed

text \<open>
  C24: A dictionary of distinct names written down one pair a line is read back as it is, in every family's box, when
  its names and values are trimmed and on one line, no name holds the separator, is
  \<open>__proto__\<close> or, for Kafka, starts a comment.
\<close>

theorem header_boxes_read_back:
  assumes "distinct (map fst m)" and "list_all (writable (box_sep b)) m"
    and "b = KafkaBox \<longrightarrow> (\<forall>kv \<in> set m. \<not> starts_with (fst kv) (u ''#''))"
  shows "\<exists>d. read_box b (join_with [newline] (map (write_pair (box_sep b)) m)) = Some d \<and> map_of d = map_of m"
proof -
  have named: "write_pair (box_sep b) kv \<noteq> []" "has_name (box_sep b) (write_pair (box_sep b) kv)" if "kv \<in> set m" for kv
    using that assms(2) written_line(2) [of "box_sep b" kv]
    by (cases b; auto simp: list_all_iff write_pair_def is_ws_def)+
  have hash: "\<not> starts_with (write_pair (box_sep b) kv) (u ''#'')" if "kv \<in> set m" "b = KafkaBox" for kv
    using that assms by (cases "fst kv") (auto simp: list_all_iff writable_def write_pair_def starts_with_def u_def)
  show ?thesis
  proof (cases b)
    case PulsarBox
    then show ?thesis using assms named pulsar_box.reads_back [of m] by (simp add: box_defs is_ws_def)
  next
    case ActiveMQBox
    then show ?thesis using assms named activemq_box.reads_back [of m] by (simp add: box_defs is_ws_def)
  next
    case MqttBox
    then show ?thesis using assms named mqtt_box.reads_back [of m] by (simp add: box_defs is_ws_def)
  next
    case NatsBox
    then show ?thesis using assms named nats_box.reads_back [of m] by (simp add: box_defs is_ws_def)
  next
    case KafkaBox
    then show ?thesis using assms named hash kafka_box.reads_back [of m] by (simp add: box_defs is_ws_def)
  next
    case RabbitBox
    then show ?thesis using assms named rabbit_box.reads_back [of m] by (simp add: box_defs is_ws_def has_name_def)
  qed
qed

theorem header_boxes_read_back_witness:
  "\<exists>d. read_box NatsBox (u ''a:1'' @ [newline] @ u ''b:2'') = Some d \<and> map_of d (u ''b'') = Some (u ''2'')"
  using header_boxes_read_back [of "[(u ''a'', u ''1''), (u ''b'', u ''2'')]" NatsBox]
  by (auto simp: u_def writable_def write_pair_def proto_def trim_def trim_start_def trim_end_def is_ws_def)

end
