(* ===== verification/Message_Body.thy ===== *)
theory Message_Body
  imports Js_Text
begin

text \<open>
  How a message body is drawn (\<open>lib/time.ts\<close>, \<open>design/boards/messages/messageBody.ts\<close>): what kind of
  body it is, the cap on its bytes, the hex dump. \<open>TextEncoder\<close> is UTF-8 of the code units, a
  surrogate without its half being the replacement character. \<open>JSON.parse\<close> and the indented
  \<open>JSON.stringify\<close> are parameters: only whether a text parses decides anything here.
\<close>

section \<open>UTF-8\<close>

definition is_high :: "int \<Rightarrow> bool" where "is_high c \<longleftrightarrow> 55296 \<le> c \<and> c \<le> 56319"
definition is_low :: "int \<Rightarrow> bool" where "is_low c \<longleftrightarrow> 56320 \<le> c \<and> c \<le> 57343"

definition utf8 :: "int \<Rightarrow> int list" where
  "utf8 cp =
    (if cp < 128 then [cp]
     else if cp < 2048 then [192 + cp div 64, 128 + cp mod 64]
     else if cp < 65536 then [224 + cp div 4096, 128 + cp div 64 mod 64, 128 + cp mod 64]
     else [240 + cp div 262144, 128 + cp div 4096 mod 64, 128 + cp div 64 mod 64, 128 + cp mod 64])"

definition replacement :: "int list" where "replacement = [239, 191, 189]"

fun encode :: "jsstr \<Rightarrow> int list" where
  "encode [] = []"
| "encode [c] = (if is_high c \<or> is_low c then replacement else utf8 c)"
| "encode (c # d # cs) =
     (if is_high c \<and> is_low d then utf8 (65536 + (c - 55296) * 1024 + (d - 56320)) @ encode cs
      else (if is_high c \<or> is_low c then replacement else utf8 c) @ encode (d # cs))"

section \<open>The cap\<close>

record truncated_payload =
  tp_text :: jsstr
  tp_truncated :: bool
  tp_originalBytes :: int

definition byte_size :: "jsstr \<Rightarrow> jsnum" where
  "byte_size s = Fin (of_int (int (length (encode s))))"

function cap_search :: "jsstr \<Rightarrow> jsnum \<Rightarrow> nat \<Rightarrow> nat \<Rightarrow> nat" where
  "cap_search body cap lo hi =
    (if lo < hi
     then let mid = (lo + hi + 1) div 2
          in if byte_size (take mid body) \<le> cap then cap_search body cap mid hi else cap_search body cap lo (mid - 1)
     else lo)"
  by pat_completeness auto
termination
  by (relation "measure (\<lambda>(body, cap, lo, hi). hi - lo)") auto

declare cap_search.simps [simp del]

definition payload_cap :: "jsnum \<Rightarrow> jsnum" where
  "payload_cap maxBytes = num_max (Fin 1024) (if maxBytes = NaN \<or> maxBytes = Fin 0 then Fin 524288 else maxBytes)"

definition truncatePayload :: "jsstr \<Rightarrow> jsnum \<Rightarrow> truncated_payload" where
  "truncatePayload body maxBytes =
    (let cap = payload_cap maxBytes; originalBytes = int (length (encode body))
     in if byte_size body \<le> cap then \<lparr>tp_text = body, tp_truncated = False, tp_originalBytes = originalBytes\<rparr>
        else \<lparr>tp_text = take (cap_search body cap 0 (length body)) body, tp_truncated = True, tp_originalBytes = originalBytes\<rparr>)"

section \<open>What kind of body it is\<close>

datatype BodyPreviewKind = JsonBody | TextBody | BinaryBody

definition wrapped_in :: "int \<Rightarrow> int \<Rightarrow> jsstr \<Rightarrow> bool" where
  "wrapped_in a b s \<longleftrightarrow> s \<noteq> [] \<and> hd s = a \<and> last s = b"

definition non_printable :: "int \<Rightarrow> bool" where
  "non_printable c \<longleftrightarrow> c < 9 \<or> (13 < c \<and> c < 32) \<or> c = 65533"

definition detectBodyKind :: "(jsstr \<Rightarrow> json option) \<Rightarrow> jsstr \<Rightarrow> BodyPreviewKind" where
  "detectBodyKind parse body =
    (let s = trim body in
     if s = [] then TextBody
     else if (wrapped_in 123 125 s \<or> wrapped_in 91 93 s) \<and> parse s \<noteq> None then JsonBody
     else let sample = take 512 s; nonPrintable = length (filter non_printable sample)
          in if 0 < length sample \<and> to_num (15 / 100) < num_div (Fin (of_nat nonPrintable)) (Fin (of_nat (length sample)))
             then BinaryBody else TextBody)"

section \<open>The hex dump\<close>

definition hex_digit :: "int \<Rightarrow> int" where
  "hex_digit d = (if d < 10 then 48 + d else 87 + d)"

function hex_str :: "int \<Rightarrow> jsstr" where
  "hex_str n = (if n < 16 then [hex_digit n] else hex_str (n div 16) @ [hex_digit (n mod 16)])"
  by pat_completeness auto
termination
  by (relation "measure nat") auto

declare hex_str.simps [simp del]

definition padStart :: "nat \<Rightarrow> int \<Rightarrow> jsstr \<Rightarrow> jsstr" where
  "padStart n c s = replicate (n - length s) c @ s"

definition padEnd :: "nat \<Rightarrow> int \<Rightarrow> jsstr \<Rightarrow> jsstr" where
  "padEnd n c s = s @ replicate (n - length s) c"

definition ascii_of :: "int \<Rightarrow> int" where
  "ascii_of b = (if 32 \<le> b \<and> b < 127 then b else 46)"

definition dump_line :: "nat \<Rightarrow> int list \<Rightarrow> jsstr" where
  "dump_line i slice =
    (let hex = padEnd 47 32 (join_with [32] (map (\<lambda>b. padStart 2 48 (hex_str b)) slice)); ascii = map ascii_of slice
     in padStart 8 48 (hex_str (int i)) @ [32, 32] @ hex @ [32, 32, 124] @ ascii @ [124])"

function dump_lines :: "int list \<Rightarrow> nat \<Rightarrow> nat \<Rightarrow> jsstr list" where
  "dump_lines bytes limit i =
    (if i < limit then dump_line i (take (min (i + 16) limit - i) (drop i bytes)) # dump_lines bytes limit (i + 16) else [])"
  by pat_completeness auto
termination
  by (relation "measure (\<lambda>(bytes, limit, i). limit - i)") auto

declare dump_lines.simps [simp del]

definition more_bytes :: "int \<Rightarrow> jsstr" where
  "more_bytes n = [8230] @ u '' ('' @ int_to_str n @ u '' more bytes)''"

definition toHexDump :: "jsstr \<Rightarrow> nat \<Rightarrow> jsstr" where
  "toHexDump body maxBytes =
    (let bytes = encode body; limit = min (length bytes) maxBytes
     in join_with [newline] (dump_lines bytes limit 0
          @ (if limit < length bytes then [more_bytes (int (length bytes - limit))] else [])))"

section \<open>The inspector\<close>

datatype BodyMode = AutoMode | RawMode | HexMode

record RenderedBody =
  rb_text :: jsstr
  rb_json :: bool
  rb_kind :: BodyPreviewKind
  rb_truncated :: bool
  rb_originalBytes :: int

definition renderBody ::
  "(jsstr \<Rightarrow> json option) \<Rightarrow> (json \<Rightarrow> jsstr) \<Rightarrow> jsstr \<Rightarrow> BodyMode \<Rightarrow> bool \<Rightarrow> jsnum \<Rightarrow> RenderedBody" where
  "renderBody parse pretty raw mode autoFormatJson maxPayloadRenderBytes =
    (let kind = detectBodyKind parse raw; capped = truncatePayload raw maxPayloadRenderBytes;
         base = (\<lambda>text json. \<lparr>rb_text = text, rb_json = json, rb_kind = kind, rb_truncated = tp_truncated capped,
                   rb_originalBytes = tp_originalBytes capped\<rparr>)
     in if mode = HexMode \<or> (mode = AutoMode \<and> kind = BinaryBody) then base (toHexDump (tp_text capped) 4096) False
        else if mode = AutoMode \<and> kind = JsonBody \<and> autoFormatJson
        then (case parse (tp_text capped) of Some v \<Rightarrow> base (pretty v) True | None \<Rightarrow> base (tp_text capped) False)
        else base (tp_text capped) (mode = AutoMode \<and> kind = JsonBody))"

section \<open>The cap keeps the longest prefix that fits\<close>

lemma length_utf8: "65536 \<le> cp \<Longrightarrow> length (utf8 cp) = 4"
  by (simp add: utf8_def)

lemma encode_take: "length (encode (take n s)) \<le> length (encode s)"
proof (induction s arbitrary: n rule: encode.induct)
  case (2 c)
  show ?case by (cases n) simp_all
next
  case (3 c d cs)
  show ?case
  proof (cases "is_high c \<and> is_low d")
    case True
    then have pair: "length (utf8 (65536 + (c - 55296) * 1024 + (d - 56320))) = 4"
      by (intro length_utf8) (simp add: is_high_def is_low_def)
    consider "n = 0" | "n = 1" | k where "n = Suc (Suc k)" by (cases n; cases "n - 1") auto
    then show ?thesis
    proof cases
      case 3
      then show ?thesis using True "3.IH"(1) [of k] by simp
    qed (use True pair in \<open>simp_all add: replacement_def\<close>)
  next
    case False
    consider "n = 0" | "n = 1" | k where "n = Suc (Suc k)" by (cases n; cases "n - 1") auto
    then show ?thesis
    proof cases
      case 3
      then show ?thesis using False "3.IH"(2) [of "Suc k"] by auto
    qed (use False in auto)
  qed
qed simp

lemma byte_size_take: "n \<le> m \<Longrightarrow> byte_size (take n s) \<le> byte_size (take m s)"
  using encode_take [of n "take m s"] by (simp add: byte_size_def min_def)

lemma fits_shorter: "byte_size (take m s) \<le> cap \<Longrightarrow> n \<le> m \<Longrightarrow> byte_size (take n s) \<le> cap"
  using byte_size_take jsnum_le_trans by blast

lemma cap_search_longest:
  "byte_size (take lo body) \<le> cap \<Longrightarrow> lo \<le> hi \<Longrightarrow> hi \<le> length body \<Longrightarrow>
   (\<And>k. hi < k \<Longrightarrow> k \<le> length body \<Longrightarrow> \<not> byte_size (take k body) \<le> cap) \<Longrightarrow>
   cap_search body cap lo hi \<le> hi \<and> byte_size (take (cap_search body cap lo hi) body) \<le> cap
     \<and> (\<forall>k. cap_search body cap lo hi < k \<and> k \<le> length body \<longrightarrow> \<not> byte_size (take k body) \<le> cap)"
proof (induction body cap lo hi rule: cap_search.induct)
  case (1 body cap lo hi)
  show ?case
  proof (cases "lo < hi")
    case False
    then show ?thesis using "1.prems" by (subst (1 2 3) cap_search.simps) auto
  next
    case True
    define mid where "mid = (lo + hi + 1) div 2"
    have mid: "lo < mid" "mid \<le> hi" using True by (auto simp: mid_def)
    show ?thesis
    proof (cases "byte_size (take mid body) \<le> cap")
      case fit: True
      then have "cap_search body cap lo hi = cap_search body cap mid hi"
        using True by (subst cap_search.simps) (simp add: mid_def)
      then show ?thesis using "1.IH"(1) [OF True mid_def fit] mid "1.prems" fit by simp
    next
      case no: False
      then have "cap_search body cap lo hi = cap_search body cap lo (mid - 1)"
        using True by (subst cap_search.simps) (simp add: mid_def)
      moreover have "\<not> byte_size (take k body) \<le> cap" if "mid - 1 < k" for k
        using no fits_shorter [of k body cap mid] that by (metis Suc_leI Suc_pred' mid(1) gr_implies_not0 neq0_conv)
      moreover have "mid - 1 \<le> hi" "lo \<le> mid - 1" "mid - 1 \<le> length body" using mid "1.prems" by auto
      ultimately show ?thesis
        using "1.IH"(2) [OF True mid_def no] mid "1.prems" by auto
    qed
  qed
qed

lemma payload_cap_ge: "Fin 1024 \<le> payload_cap maxBytes"
  by (auto simp: payload_cap_def intro!: num_max_ge)

lemma kept_prefix:
  "\<exists>n. tp_text (truncatePayload body maxBytes) = take n body
     \<and> byte_size (take n body) \<le> payload_cap maxBytes
     \<and> (\<forall>k. n < k \<and> k \<le> length body \<longrightarrow> \<not> byte_size (take k body) \<le> payload_cap maxBytes)
     \<and> (tp_truncated (truncatePayload body maxBytes) \<longleftrightarrow> take n body \<noteq> body)"
proof (cases "byte_size body \<le> payload_cap maxBytes")
  case True
  then show ?thesis by (intro exI [of _ "length body"]) (simp add: truncatePayload_def Let_def)
next
  case False
  let ?n = "cap_search body (payload_cap maxBytes) 0 (length body)"
  have "byte_size (take 0 body) \<le> payload_cap maxBytes"
    using payload_cap_ge [of maxBytes] by (auto simp: byte_size_def intro: jsnum_le_trans [of "Fin 0" "Fin 1024"])
  from cap_search_longest [OF this, of "length body"]
  have n: "byte_size (take ?n body) \<le> payload_cap maxBytes"
    "\<forall>k. ?n < k \<and> k \<le> length body \<longrightarrow> \<not> byte_size (take k body) \<le> payload_cap maxBytes" by simp_all
  then have "take ?n body \<noteq> body" using False by metis
  then show ?thesis using n False by (intro exI [of _ ?n]) (simp add: truncatePayload_def Let_def)
qed

text \<open>
  C34: A body is cut at the cap and nowhere else: what is drawn is a prefix of the body whose UTF-8
  fits the cap, no longer prefix fits, it is called truncated exactly when something was cut, and
  a cap below a kilobyte counts as one.
\<close>

theorem truncation_is_longest_prefix:
  "\<exists>n. tp_text (truncatePayload body maxBytes) = take n body
     \<and> byte_size (take n body) \<le> payload_cap maxBytes
     \<and> (\<forall>k. n < k \<and> k \<le> length body \<longrightarrow> \<not> byte_size (take k body) \<le> payload_cap maxBytes)
     \<and> (tp_truncated (truncatePayload body maxBytes) \<longleftrightarrow> take n body \<noteq> body)
     \<and> Fin 1024 \<le> payload_cap maxBytes"
  using kept_prefix payload_cap_ge by blast

theorem truncation_is_longest_prefix_witness: "tp_text (truncatePayload (u ''hi'') (Fin 2000)) = u ''hi''"
proof -
  have cap: "payload_cap (Fin 2000) = Fin 2000" by (simp add: payload_cap_def num_max_def)
  have "byte_size (take 2 (u ''hi'')) \<le> Fin 2000"
    by (simp add: byte_size_def u_def is_high_def is_low_def utf8_def)
  then show ?thesis
    using truncation_is_longest_prefix [of "u ''hi''" "Fin 2000"] unfolding cap
    by (metis (no_types, lifting) length_map length_Cons list.size(3) Suc_1 One_nat_def le_refl not_less take_all u_def)
qed

text \<open>The cut may fall inside a surrogate pair, whose first half is then drawn alone.\<close>

lemma encode_ascii: "0 \<le> c \<Longrightarrow> c < 128 \<Longrightarrow> encode (c # s) = c # encode s"
  by (cases s) (simp_all add: is_high_def is_low_def utf8_def)

lemma encode_replicate: "encode (replicate n 97 @ s) = replicate n 97 @ encode s"
  by (induction n) (simp_all add: encode_ascii)

lemma cut_splits_a_pair:
  "\<exists>body. tp_text (truncatePayload body (Fin 1024)) = butlast body \<and> is_high (last (butlast body)) \<and> is_low (last body)"
proof -
  let ?s = "replicate 1021 97 @ [55357, 56832 :: int]"
  have sizes: "length (encode ?s) = 1025" "length (encode (replicate 1021 97 @ [55357])) = 1024"
    by (simp_all add: encode_replicate is_high_def is_low_def utf8_def replacement_def)
  have cap: "payload_cap (Fin 1024) = Fin 1024" by (simp add: payload_cap_def num_max_def)
  obtain n where n: "tp_text (truncatePayload ?s (Fin 1024)) = take n ?s" "byte_size (take n ?s) \<le> Fin 1024"
    "\<And>k. n < k \<Longrightarrow> k \<le> length ?s \<Longrightarrow> \<not> byte_size (take k ?s) \<le> Fin 1024"
    using kept_prefix [of ?s "Fin 1024"] unfolding cap by blast
  have "byte_size (take 1022 ?s) \<le> Fin 1024" using sizes(2) by (simp add: byte_size_def)
  then have "1022 \<le> n" using n(3) [of 1022] by (cases "n < 1022") simp_all
  moreover have "n < 1023" using n(2) sizes(1) by (cases "n < 1023") (simp_all add: byte_size_def)
  ultimately have "n = 1022" by simp
  then have "tp_text (truncatePayload ?s (Fin 1024)) = butlast ?s" using n(1) by (simp add: butlast_append)
  then show ?thesis by (intro exI [of _ ?s]) (simp add: butlast_append is_high_def is_low_def)
qed

section \<open>The dump shows the bytes\<close>

text \<open>Reading a dump back: the hex column of every line but the last note.\<close>

definition hex_val :: "int \<Rightarrow> int option" where
  "hex_val c = (if 48 \<le> c \<and> c \<le> 57 then Some (c - 48) else if 97 \<le> c \<and> c \<le> 102 then Some (c - 87) else None)"

fun read_hex :: "jsstr \<Rightarrow> int list" where
  "read_hex (a # b # s) =
     (case (hex_val a, hex_val b) of (Some x, Some y) \<Rightarrow> (16 * x + y) # (case s of [] \<Rightarrow> [] | _ # s' \<Rightarrow> read_hex s') | _ \<Rightarrow> [])"
| "read_hex _ = []"

definition dumped_bytes :: "jsstr \<Rightarrow> int list" where
  "dumped_bytes text = concat (map (\<lambda>l. read_hex (drop 10 l)) (filter (\<lambda>l. \<not> starts_with l [8230]) (split_on newline text)))"

lemma hex_val_digit: "0 \<le> d \<Longrightarrow> d < 16 \<Longrightarrow> hex_val (hex_digit d) = Some d"
  by (simp add: hex_val_def hex_digit_def)

lemma hex_byte: "0 \<le> b \<Longrightarrow> b < 256 \<Longrightarrow> padStart 2 48 (hex_str b) = [hex_digit (b div 16), hex_digit (b mod 16)]"
proof -
  assume b: "0 \<le> b" "b < 256"
  have d: "b div 16 < 16" using b by simp
  show ?thesis
  proof (cases "b < 16")
    case True
    then have "b div 16 = 0" "b mod 16 = b" using b by auto
    then show ?thesis using True by (simp add: hex_str.simps [of b] padStart_def hex_digit_def)
  next
    case False
    then show ?thesis using d by (simp add: hex_str.simps [of b] hex_str.simps [of "b div 16"] padStart_def)
  qed
qed

lemma hex_nibbles:
  "0 \<le> b \<Longrightarrow> b < 256 \<Longrightarrow> hex_val (hex_digit (b div 16)) = Some (b div 16) \<and> hex_val (hex_digit (b mod 16)) = Some (b mod 16)"
  by (simp add: hex_val_digit pos_imp_zdiv_nonneg_iff)

lemma read_hex_space: "read_hex (32 # s) = []"
  by (cases s) (simp_all add: hex_val_def)

lemma read_hex_bytes:
  "list_all (\<lambda>b. 0 \<le> b \<and> b < 256) bs \<Longrightarrow>
   read_hex (join_with [32] (map (\<lambda>b. padStart 2 48 (hex_str b)) bs) @ replicate k 32 @ 32 # 32 # rest) = bs"
proof (induction bs rule: induct_list012)
  case 1
  then show ?case by (cases k) (simp_all add: read_hex_space hex_val_def)
next
  case (2 b)
  then have "hex_val (hex_digit (b div 16)) = Some (b div 16)" "hex_val (hex_digit (b mod 16)) = Some (b mod 16)"
    using hex_nibbles [of b] by simp_all
  moreover have "read_hex (replicate j 32 @ 32 # 32 # rest) = []" for j by (cases j) (simp_all add: read_hex_space hex_val_def)
  ultimately show ?case using 2 by (cases k) (simp_all add: hex_byte read_hex_space)
next
  case (3 b c bs)
  then have "hex_val (hex_digit (b div 16)) = Some (b div 16)" "hex_val (hex_digit (b mod 16)) = Some (b mod 16)"
    using hex_nibbles [of b] by simp_all
  moreover have "read_hex (join_with [32] (map (\<lambda>b. padStart 2 48 (hex_str b)) (c # bs)) @ replicate k 32 @ 32 # 32 # rest) = c # bs"
    using 3 by simp
  ultimately show ?case using 3 by (simp add: hex_byte)
qed

lemma length_hex_str: "0 \<le> n \<Longrightarrow> n < 16 ^ Suc k \<Longrightarrow> length (hex_str n) \<le> Suc k"
proof (induction k arbitrary: n)
  case 0
  then show ?case by (simp add: hex_str.simps)
next
  case (Suc k)
  then have "n div 16 < 16 ^ Suc k" by (simp add: div_less_iff_less_mult)
  then show ?case using Suc by (subst hex_str.simps) (simp add: pos_imp_zdiv_nonneg_iff)
qed

lemma hex_str_chars: "0 \<le> n \<Longrightarrow> c \<in> set (hex_str n) \<Longrightarrow> 48 \<le> c \<and> c \<le> 102"
proof (induction n rule: hex_str.induct)
  case (1 n)
  have "48 \<le> hex_digit d \<and> hex_digit d \<le> 102" if "0 \<le> d" "d < 16" for d using that by (simp add: hex_digit_def)
  then show ?case using 1 by (subst (asm) hex_str.simps) (auto split: if_splits simp: pos_imp_zdiv_nonneg_iff)
qed

definition is_byte :: "int \<Rightarrow> bool" where "is_byte b \<longleftrightarrow> 0 \<le> b \<and> b < 256"

lemma set_join: "set (join_with sep ws) \<subseteq> set sep \<union> (\<Union>w \<in> set ws. set w)"
  by (induction ws rule: induct_list012) auto

lemma length_hex_column:
  "list_all is_byte bs \<Longrightarrow> length (join_with [32] (map (\<lambda>b. padStart 2 48 (hex_str b)) bs)) = 3 * length bs - 1"
  by (induction bs rule: induct_list012) (auto simp: hex_byte is_byte_def)

lemma hex_column_chars:
  assumes "list_all is_byte bs" and "c \<in> set (join_with [32] (map (\<lambda>b. padStart 2 48 (hex_str b)) bs))"
  shows "c \<noteq> 10"
proof -
  have "c = 32 \<or> (\<exists>b \<in> set bs. c \<in> set (padStart 2 48 (hex_str b)))"
    using set_join [of "[32]" "map (\<lambda>b. padStart 2 48 (hex_str b)) bs"] assms(2) by auto
  then show ?thesis
  proof
    assume "\<exists>b \<in> set bs. c \<in> set (padStart 2 48 (hex_str b))"
    then obtain b where b: "is_byte b" "c \<in> set (padStart 2 48 (hex_str b))" using assms(1) by (auto simp: list_all_iff)
    then show ?thesis using hex_str_chars [of b c] by (auto simp: padStart_def is_byte_def split: if_splits)
  qed simp
qed

lemma dump_line_facts:
  assumes "i < 16 ^ 8" and "list_all is_byte slice" and "length slice \<le> 16"
  shows "read_hex (drop 10 (dump_line i slice)) = slice" and "newline \<notin> set (dump_line i slice)"
    and "\<not> starts_with (dump_line i slice) [8230]"
proof -
  let ?addr = "padStart 8 48 (hex_str (int i))" and ?hex = "join_with [32] (map (\<lambda>b. padStart 2 48 (hex_str b)) slice)"
  have "length (hex_str (int i)) \<le> 8" using length_hex_str [of "int i" 7] assms(1) by simp
  then have addr: "length ?addr = 8" by (simp add: padStart_def)
  have chars: "48 \<le> c \<and> c \<le> 102" if "c \<in> set ?addr" for c
    using that hex_str_chars [of "int i" c] by (auto simp: padStart_def split: if_splits)
  obtain k where pad: "padEnd 47 32 ?hex = ?hex @ replicate k 32" by (auto simp: padEnd_def)
  have "drop 10 (dump_line i slice) = ?hex @ replicate k 32 @ 32 # 32 # 124 # map ascii_of slice @ [124]"
    using addr by (simp add: dump_line_def pad)
  then show "read_hex (drop 10 (dump_line i slice)) = slice"
    using read_hex_bytes [of slice k] assms(2) by (simp add: is_byte_def [abs_def])
  show "newline \<notin> set (dump_line i slice)"
    using chars [of 10] hex_column_chars [OF assms(2)] by (auto simp: dump_line_def pad ascii_of_def)
  obtain a as where "?addr = a # as" using addr by (cases ?addr) auto
  then show "\<not> starts_with (dump_line i slice) [8230]"
    using chars [of a] by (auto simp: dump_line_def starts_with_def)
qed

lemma dump_lines_facts:
  "list_all is_byte bytes \<Longrightarrow> limit \<le> 16 ^ 8 \<Longrightarrow>
   concat (map (\<lambda>l. read_hex (drop 10 l)) (dump_lines bytes limit i)) = take (limit - i) (drop i bytes)
     \<and> (\<forall>l \<in> set (dump_lines bytes limit i). newline \<notin> set l \<and> \<not> starts_with l [8230])"
proof (induction bytes limit i rule: dump_lines.induct)
  case (1 bytes limit i)
  show ?case
  proof (cases "i < limit")
    case True
    let ?slice = "take (min (i + 16) limit - i) (drop i bytes)"
    have "list_all is_byte ?slice" "length ?slice \<le> 16" "i < 16 ^ 8"
      using "1.prems" True by (auto simp: list_all_iff dest!: in_set_takeD in_set_dropD)
    note line = dump_line_facts [OF this(3,1,2)]
    have "take (limit - i) (drop i bytes) = ?slice @ take (limit - (i + 16)) (drop (i + 16) bytes)"
    proof (cases "i + 16 \<le> limit")
      case True
      then have "16 + (limit - (i + 16)) = limit - i" by simp
      then show ?thesis using True take_add [of 16 "limit - (i + 16)" "drop i bytes"] by (simp add: add.commute)
    qed (simp add: min_def)
    then show ?thesis using "1.IH" [OF True "1.prems"] line True by (subst (1 2) dump_lines.simps) auto
  next
    case False
    then show ?thesis by (subst (1 2) dump_lines.simps) simp
  qed
qed

definition code_unit :: "int \<Rightarrow> bool" where "code_unit c \<longleftrightarrow> 0 \<le> c \<and> c < 65536"

lemma utf8_bytes: "0 \<le> cp \<Longrightarrow> cp < 1114112 \<Longrightarrow> list_all is_byte (utf8 cp)"
  by (auto simp: utf8_def is_byte_def pos_imp_zdiv_nonneg_iff div_less_iff_less_mult pos_mod_bound)

lemma replacement_bytes: "list_all is_byte replacement"
  by (simp add: replacement_def is_byte_def)

lemma encode_bytes: "list_all code_unit s \<Longrightarrow> list_all is_byte (encode s)"
proof (induction s rule: encode.induct)
  case (3 c d cs)
  have "list_all is_byte (utf8 (65536 + (c - 55296) * 1024 + (d - 56320)))" if "is_high c" "is_low d"
    using that by (intro utf8_bytes) (auto simp: is_high_def is_low_def)
  then show ?case using 3 utf8_bytes [of c] replacement_bytes by (auto simp: code_unit_def)
qed (use utf8_bytes replacement_bytes in \<open>auto simp: code_unit_def\<close>)

lemma more_bytes_facts: "0 \<le> n \<Longrightarrow> newline \<notin> set (more_bytes n) \<and> starts_with (more_bytes n) [8230]"
proof -
  assume "0 \<le> n"
  then have "newline \<notin> set (int_to_str n)" using nat_digits_facts [of n] by (auto simp: int_to_str_def is_digit_def)
  then show ?thesis by (auto simp: more_bytes_def starts_with_def u_def)
qed

text \<open>
  C35: A hex dump shows the bytes: read back from its hex columns, the lines give the UTF-8 of the
  body, in order and up to the limit, and the note on what is left is no byte of it. The limit is at
  most 16^8 bytes, what the eight digits of an offset count.
\<close>

theorem hex_dump_reads_back:
  assumes "list_all code_unit body" and "maxBytes \<le> 16 ^ 8"
  shows "dumped_bytes (toHexDump body maxBytes) = take maxBytes (encode body)"
proof -
  let ?bytes = "encode body" let ?limit = "min (length ?bytes) maxBytes"
  let ?lines = "dump_lines ?bytes ?limit 0"
  let ?note = "if ?limit < length ?bytes then [more_bytes (int (length ?bytes - ?limit))] else []"
  have lines: "concat (map (\<lambda>l. read_hex (drop 10 l)) ?lines) = take ?limit ?bytes"
    "\<And>l. l \<in> set ?lines \<Longrightarrow> newline \<notin> set l \<and> \<not> starts_with l [8230]"
    using dump_lines_facts [OF encode_bytes [OF assms(1)], of ?limit 0] assms(2) by auto
  have note_: "newline \<notin> set l \<and> starts_with l [8230]" if "l \<in> set ?note" for l
    using that more_bytes_facts by (auto split: if_splits)
  have kept: "filter (\<lambda>l. \<not> starts_with l [8230]) (?lines @ ?note) = ?lines"
    using lines(2) note_ by (simp add: filter_id_conv)
  show ?thesis
  proof (cases "?lines @ ?note = []")
    case True
    then have "toHexDump body maxBytes = []" by (simp only: toHexDump_def Let_def) simp
    moreover have "take maxBytes ?bytes = []" using True lines(1) by (simp add: min_def split: if_splits)
    ultimately show ?thesis by (simp add: dumped_bytes_def starts_with_def)
  next
    case False
    have "split_on newline (toHexDump body maxBytes) = ?lines @ ?note"
      unfolding toHexDump_def Let_def by (rule split_on_join) (use lines(2) note_ False in auto)
    then show ?thesis using lines(1) by (simp only: dumped_bytes_def kept) (simp add: min_def)
  qed
qed

theorem hex_dump_reads_back_witness: "dumped_bytes (toHexDump (u ''hi'') 4096) = [104, 105]"
proof -
  have "list_all code_unit (u ''hi'')" by (simp add: u_def code_unit_def)
  from hex_dump_reads_back [OF this, of 4096] show ?thesis
    by (simp add: u_def is_high_def is_low_def utf8_def)
qed

end
