(* ===== verification/Send_Cloud.thy ===== *)
theory Send_Cloud
  imports Send_Text Message_Body "HOL-Library.Word"
begin

text \<open>
  The send consoles of the hosted services and of NSQ, and what the driver makes of their input:
  Azure Service Bus, Google Pub/Sub, Kinesis, NSQ and SQS. For each, the draft the form holds, why
  it cannot be sent, the input it becomes (\<open>mq/<family>/publish.ts\<close>), and the driver's \<open>Publish\<close> up to
  the calls it makes (\<open>internal/driver/<family>/publish.go\<close>): the checks before the first call and
  the calls in their order. What a call answers is not modelled.
\<close>

section \<open>Numbers across the bridge\<close>

text \<open>\<open>numberField\<close> of the producer boards: what a number input holds after a keystroke.\<close>

definition numberField :: "jsstr \<Rightarrow> jsnum" where
  "numberField raw = (let parsed = parse_int raw in if parsed = NaN then Fin 0 else parsed)"

text \<open>\<open>Number.parseInt(raw, 10) || 0\<close>, as the NSQ board has it.\<close>

definition nsq_numberField :: "jsstr \<Rightarrow> jsnum" where
  "nsq_numberField raw = (let parsed = parse_int raw in if parsed = NaN \<or> parsed = Fin 0 then Fin 0 else parsed)"

text \<open>\<open>time.Duration(n) * time.Second\<close>: nanoseconds in a signed word of sixty-four bits, which wraps.\<close>

definition seconds :: "int \<Rightarrow> 64 word" where
  "seconds n = word_of_int n * 1000000000"

text \<open>What a driver refuses before it calls anything.\<close>

datatype refusal = NoName | SubEntity | SlashInName | EmptyMessage | TooMany | TooLarge | NoPartitionKey | BadHashKey
  | NegativeDelay | DelayTooLong | GroupRequired | GroupOnStandard | DelayOnFifo | UnknownNode

text \<open>A field the drivers send only when it is not blank.\<close>

definition if_nonblank :: "jsstr \<Rightarrow> jsstr option" where
  "if_nonblank s = (if TrimSpace s = [] then None else Some (TrimSpace s))"

text \<open>The entries of a table whose name is not blank.\<close>

definition nonblank_names :: "(jsstr \<times> jsstr) list \<Rightarrow> (jsstr \<times> jsstr) list" where
  "nonblank_names table = filter (\<lambda>(name, _). TrimSpace name \<noteq> []) table"

section \<open>Azure Service Bus\<close>

record ServiceBusProducerDraft =
  az_entity :: jsstr
  az_body :: jsstr
  az_count :: jsnum
  az_subject :: jsstr
  az_correlationId :: jsstr
  az_sessionId :: jsstr
  az_delaySec :: jsnum
  az_properties :: "(jsstr \<times> jsstr) list"

definition azure_MAX_COUNT :: jsnum where
  "azure_MAX_COUNT = Fin 1000"

definition emptyServiceBusProducerDraft :: ServiceBusProducerDraft where
  "emptyServiceBusProducerDraft = \<lparr>az_entity = [], az_body = [], az_count = Fin 1, az_subject = [], az_correlationId = [],
     az_sessionId = [], az_delaySec = Fin 0, az_properties = []\<rparr>"

definition azure_sendProblem :: "ServiceBusProducerDraft \<Rightarrow> string option" where
  "azure_sendProblem draft =
    (if trim (az_entity draft) = [] then Some ''board.azure-servicebus.producer.entityRequired''
     else if az_count draft < Fin 1 \<or> azure_MAX_COUNT < az_count draft then Some ''board.azure-servicebus.producer.countRange''
     else if nameless (az_properties draft) then Some ''board.azure-servicebus.producer.propertyNameRequired''
     else if az_delaySec draft < Fin 0 then Some ''board.azure-servicebus.producer.delayNegative''
     else None)"

definition azure_sendWarning :: "ServiceBusProducerDraft \<Rightarrow> jsnum option \<Rightarrow> string option" where
  "azure_sendWarning draft subscribers =
    (if trim (az_entity draft) \<noteq> [] \<and> subscribers = Some (Fin 0) then Some ''board.azure-servicebus.producer.noSubscriberWarning''
     else None)"

record AzureServiceBusSendInput =
  ai_entity :: jsstr
  ai_body :: jsstr
  ai_count :: jsnum
  ai_subject :: jsstr
  ai_correlationId :: jsstr
  ai_contentType :: jsstr
  ai_sessionId :: jsstr
  ai_partitionKey :: jsstr
  ai_properties :: "(jsstr \<times> jsstr) list"
  ai_delaySec :: jsnum
  ai_ttlSec :: jsnum

definition azure_toSendInput :: "ServiceBusProducerDraft \<Rightarrow> AzureServiceBusSendInput option" where
  "azure_toSendInput draft = (if azure_sendProblem draft \<noteq> None then None
     else Some \<lparr>ai_entity = trim (az_entity draft), ai_body = az_body draft, ai_count = az_count draft,
       ai_subject = trim (az_subject draft), ai_correlationId = trim (az_correlationId draft), ai_contentType = [],
       ai_sessionId = trim (az_sessionId draft), ai_partitionKey = [], ai_properties = named_rows (az_properties draft),
       ai_delaySec = az_delaySec draft, ai_ttlSec = Fin 0\<rparr>)"

text \<open>The driver's side: \<open>SendRequest\<close>, as \<open>internal/bridge/azureservicebus.go\<close> fills it, and \<open>Send\<close>.\<close>

record azure_request =
  aq_input :: AzureServiceBusSendInput
  aq_count :: int
  aq_delay :: "64 word"
  aq_ttl :: "64 word"

definition azure_bridge :: "AzureServiceBusSendInput \<Rightarrow> azure_request option" where
  "azure_bridge i = (case (json_int (ai_count i), json_int (ai_delaySec i), json_int (ai_ttlSec i)) of
     (Some n, Some delay, Some ttl) \<Rightarrow> Some \<lparr>aq_input = i, aq_count = n, aq_delay = seconds delay, aq_ttl = seconds ttl\<rparr>
   | _ \<Rightarrow> None)"

definition azure_requiredName :: "jsstr \<Rightarrow> refusal + jsstr" where
  "azure_requiredName name = (let trimmed = TrimSpace name in
     if trimmed = [] then Inl NoName
     else if starts_with trimmed (u ''$'') \<or> includes_str trimmed (u ''/$'') then Inl SubEntity
     else Inr trimmed)"

record azure_message =
  am_body :: jsstr
  am_subject :: "jsstr option"
  am_correlationId :: "jsstr option"
  am_contentType :: "jsstr option"
  am_sessionId :: "jsstr option"
  am_partitionKey :: "jsstr option"
  am_ttl :: "64 word option"
  am_properties :: "(jsstr \<times> jsstr) list"

definition azure_messageOf :: "azure_request \<Rightarrow> azure_message" where
  "azure_messageOf r = (let i = aq_input r in
     \<lparr>am_body = ai_body i, am_subject = if_nonblank (ai_subject i), am_correlationId = if_nonblank (ai_correlationId i),
      am_contentType = if_nonblank (ai_contentType i), am_sessionId = if_nonblank (ai_sessionId i),
      am_partitionKey = if_nonblank (ai_partitionKey i), am_ttl = (if 0 < sint (aq_ttl r) then Some (aq_ttl r) else None),
      am_properties = nonblank_names (ai_properties i)\<rparr>)"

datatype azure_call = AzureSchedule azure_message "64 word" | AzureSend azure_message

definition azure_Send :: "azure_request \<Rightarrow> refusal + (jsstr \<times> azure_call list)" where
  "azure_Send r = (case azure_requiredName (ai_entity (aq_input r)) of Inl e \<Rightarrow> Inl e
   | Inr entity \<Rightarrow> (let n = at_least_one (aq_count r) in
       if 1000 < n then Inl TooMany
       else Inr (entity, replicate (nat n)
         (if 0 < sint (aq_delay r) then AzureSchedule (azure_messageOf r) (aq_delay r) else AzureSend (azure_messageOf r)))))"

section \<open>Google Pub/Sub\<close>

record PubSubProducerDraft =
  ps_topic :: jsstr
  ps_body :: jsstr
  ps_count :: jsnum
  ps_orderingKey :: jsstr
  ps_attributes :: "(jsstr \<times> jsstr) list"

definition pubsub_MAX_COUNT :: jsnum where
  "pubsub_MAX_COUNT = Fin 1000"

definition emptyPubSubProducerDraft :: PubSubProducerDraft where
  "emptyPubSubProducerDraft = \<lparr>ps_topic = [], ps_body = [], ps_count = Fin 1, ps_orderingKey = [], ps_attributes = []\<rparr>"

definition pubsub_sendProblem :: "PubSubProducerDraft \<Rightarrow> string option" where
  "pubsub_sendProblem draft =
    (if trim (ps_topic draft) = [] then Some ''board.google-pubsub.producer.topicRequired''
     else if ps_count draft < Fin 1 \<or> pubsub_MAX_COUNT < ps_count draft then Some ''board.google-pubsub.producer.countRange''
     else if nameless (ps_attributes draft) then Some ''board.google-pubsub.producer.attributeNameRequired''
     else if ps_body draft = [] \<and> length (named_rows (ps_attributes draft)) = 0 then Some ''board.google-pubsub.producer.emptyMessage''
     else None)"

definition pubsub_sendWarning :: "PubSubProducerDraft \<Rightarrow> jsnum option \<Rightarrow> string option" where
  "pubsub_sendWarning draft subscribers =
    (if trim (ps_topic draft) \<noteq> [] \<and> subscribers = Some (Fin 0) then Some ''board.google-pubsub.producer.noSubscriberWarning''
     else None)"

record GooglePubSubPublishInput =
  pi_topic :: jsstr
  pi_body :: jsstr
  pi_count :: jsnum
  pi_attributes :: "(jsstr \<times> jsstr) list"
  pi_orderingKey :: jsstr

definition pubsub_toPublishInput :: "PubSubProducerDraft \<Rightarrow> GooglePubSubPublishInput option" where
  "pubsub_toPublishInput draft = (if pubsub_sendProblem draft \<noteq> None then None
     else Some \<lparr>pi_topic = trim (ps_topic draft), pi_body = ps_body draft, pi_count = ps_count draft,
       pi_attributes = named_rows (ps_attributes draft), pi_orderingKey = trim (ps_orderingKey draft)\<rparr>)"

definition pubsub_requiredName :: "jsstr \<Rightarrow> refusal + jsstr" where
  "pubsub_requiredName name = (let trimmed = TrimSpace name in
     if trimmed = [] then Inl NoName else if slash \<in> set trimmed then Inl SlashInName else Inr trimmed)"

text \<open>A message is its body, its attributes and its ordering key; the count is the decoded one.\<close>

definition pubsub_Publish :: "int \<Rightarrow> GooglePubSubPublishInput \<Rightarrow> refusal + (jsstr \<times> (jsstr \<times> (jsstr \<times> jsstr) list \<times> jsstr) list)" where
  "pubsub_Publish decoded i = (case pubsub_requiredName (pi_topic i) of Inl e \<Rightarrow> Inl e
   | Inr topic \<Rightarrow>
       if pi_body i = [] \<and> length (pi_attributes i) = 0 then Inl EmptyMessage
       else (let n = at_least_one decoded in
         if 1000 < n then Inl TooMany
         else Inr (topic, replicate (nat n) (pi_body i, nonblank_names (pi_attributes i), TrimSpace (pi_orderingKey i)))))"

section \<open>Kinesis\<close>

record KinesisProducerDraft =
  ki_stream :: jsstr
  ki_body :: jsstr
  ki_partitionKey :: jsstr
  ki_explicitHashKey :: jsstr
  ki_count :: jsnum

definition kinesis_MAX_COUNT :: jsnum where
  "kinesis_MAX_COUNT = Fin 1000"

definition MAX_RECORD_BYTES :: nat where
  "MAX_RECORD_BYTES = 1024 * 1024"

definition MAX_HASH_KEY_DIGITS :: nat where
  "MAX_HASH_KEY_DIGITS = 39"

definition emptyKinesisProducerDraft :: KinesisProducerDraft where
  "emptyKinesisProducerDraft = \<lparr>ki_stream = [], ki_body = [], ki_partitionKey = [], ki_explicitHashKey = [], ki_count = Fin 1\<rparr>"

definition aimsAtAShard :: "KinesisProducerDraft \<Rightarrow> bool" where
  "aimsAtAShard draft \<longleftrightarrow> trim (ki_explicitHashKey draft) \<noteq> []"

definition kinesis_sendProblem :: "KinesisProducerDraft \<Rightarrow> string option" where
  "kinesis_sendProblem draft =
    (let hashKey = trim (ki_explicitHashKey draft) in
     if trim (ki_stream draft) = [] then Some ''board.kinesis.producer.streamRequired''
     else if ki_body draft = [] then Some ''board.kinesis.producer.bodyRequired''
     else if MAX_RECORD_BYTES < length (encode (ki_body draft)) then Some ''board.kinesis.producer.bodyTooLarge''
     else if trim (ki_partitionKey draft) = [] then Some ''board.kinesis.producer.keyRequired''
     else if ki_count draft < Fin 1 \<or> kinesis_MAX_COUNT < ki_count draft then Some ''board.kinesis.producer.countRange''
     else if hashKey \<noteq> [] \<and> (\<not> list_all is_digit hashKey \<or> MAX_HASH_KEY_DIGITS < length hashKey)
       then Some ''board.kinesis.producer.hashKeyInvalid''
     else None)"

definition kinesis_sendWarning :: "KinesisProducerDraft \<Rightarrow> string option" where
  "kinesis_sendWarning draft =
    (if aimsAtAShard draft \<and> Fin 1 < ki_count draft then Some ''board.kinesis.producer.aimedRepeatNote'' else None)"

record KinesisPublishInput =
  kp_stream :: jsstr
  kp_body :: jsstr
  kp_partitionKey :: jsstr
  kp_explicitHashKey :: jsstr
  kp_count :: jsnum

definition kinesis_toPublishInput :: "KinesisProducerDraft \<Rightarrow> KinesisPublishInput option" where
  "kinesis_toPublishInput draft = (if kinesis_sendProblem draft \<noteq> None then None
     else Some \<lparr>kp_stream = trim (ki_stream draft), kp_body = ki_body draft, kp_partitionKey = trim (ki_partitionKey draft),
       kp_explicitHashKey = trim (ki_explicitHashKey draft), kp_count = ki_count draft\<rparr>)"

definition partitionKeyFor :: "jsstr \<Rightarrow> nat \<Rightarrow> int \<Rightarrow> jsstr \<Rightarrow> jsstr" where
  "partitionKeyFor key index cnt hashKey =
    (if cnt \<le> 1 \<or> hashKey \<noteq> [] then key else key @ u ''-'' @ int_to_str (int index))"

text \<open>
  \<open>Publish\<close>: the stream and the batches, each record its body, its partition key and the hash key,
  empty when none is set. A Go string is counted in bytes.
\<close>

definition validHashKey :: "jsstr \<Rightarrow> bool" where
  "validHashKey s \<longleftrightarrow> length (encode s) \<le> 39 \<and> list_all is_digit s"

definition kinesis_Publish :: "int \<Rightarrow> KinesisPublishInput \<Rightarrow> refusal + (jsstr \<times> (jsstr \<times> jsstr \<times> jsstr) list list)" where
  "kinesis_Publish decoded i =
    (let stream = TrimSpace (kp_stream i); key = TrimSpace (kp_partitionKey i); n = at_least_one decoded;
       hashKey = TrimSpace (kp_explicitHashKey i) in
     if stream = [] then Inl NoName
     else if kp_body i = [] then Inl EmptyMessage
     else if 1024 * 1024 < length (encode (kp_body i)) then Inl TooLarge
     else if key = [] then Inl NoPartitionKey
     else if 1000 < n then Inl TooMany
     else if hashKey \<noteq> [] \<and> \<not> validHashKey hashKey then Inl BadHashKey
     else Inr (stream, map (map (\<lambda>index. (kp_body i, partitionKeyFor key index n hashKey, hashKey))) (batches 500 0 (nat n))))"

section \<open>NSQ\<close>

record NsqProducerDraft =
  nq_topic :: jsstr
  nq_body :: jsstr
  nq_count :: jsnum
  nq_delaySec :: jsnum
  nq_node :: jsstr

definition nsq_MAX_COUNT :: jsnum where
  "nsq_MAX_COUNT = Fin 1000"

definition DEFAULT_MAX_DELAY_SEC :: jsnum where
  "DEFAULT_MAX_DELAY_SEC = Fin 3600"

definition emptyNsqProducerDraft :: NsqProducerDraft where
  "emptyNsqProducerDraft = \<lparr>nq_topic = [], nq_body = [], nq_count = Fin 1, nq_delaySec = Fin 0, nq_node = []\<rparr>"

definition nsq_sendProblem :: "NsqProducerDraft \<Rightarrow> string option" where
  "nsq_sendProblem draft =
    (if trim (nq_topic draft) = [] then Some ''board.nsq.producer.topicRequired''
     else if nq_body draft = [] then Some ''board.nsq.producer.bodyRequired''
     else if nq_count draft < Fin 1 \<or> nsq_MAX_COUNT < nq_count draft then Some ''board.nsq.producer.countRange''
     else if nq_delaySec draft < Fin 0 then Some ''board.nsq.producer.delayNegative''
     else None)"

definition nsq_sendWarning :: "NsqProducerDraft \<Rightarrow> string option" where
  "nsq_sendWarning draft = (if DEFAULT_MAX_DELAY_SEC < nq_delaySec draft then Some ''board.nsq.producer.delayCeiling'' else None)"

record NSQPublishInput =
  ni_topic :: jsstr
  ni_body :: jsstr
  ni_count :: jsnum
  ni_delaySec :: jsnum
  ni_node :: jsstr

definition nsq_toPublishInput :: "NsqProducerDraft \<Rightarrow> NSQPublishInput option" where
  "nsq_toPublishInput draft = (if nsq_sendProblem draft \<noteq> None then None
     else Some \<lparr>ni_topic = trim (nq_topic draft), ni_body = nq_body draft, ni_count = nq_count draft,
       ni_delaySec = nq_delaySec draft, ni_node = trim (nq_node draft)\<rparr>)"

definition sendsOneAtATime :: "NsqProducerDraft \<Rightarrow> bool" where
  "sendsOneAtATime draft \<longleftrightarrow> Fin 1 < nq_count draft \<and> (Fin 0 < nq_delaySec draft \<or> newline \<in> set (nq_body draft))"

text \<open>
  The requests \<open>Publish\<close> makes of one daemon, in order; the body of \<open>/mpub\<close> is the messages joined
  by newlines. \<open>known\<close> says which addresses are daemons of the connection.
\<close>

datatype nsq_call = Pub jsstr "64 word option" jsstr | Mpub jsstr "64 word option" jsstr

definition nsq_bridge :: "NSQPublishInput \<Rightarrow> (int \<times> 64 word) option" where
  "nsq_bridge i = (case (json_int (ni_count i), json_int (ni_delaySec i)) of
     (Some n, Some delay) \<Rightarrow> Some (n, seconds delay) | _ \<Rightarrow> None)"

definition nsq_Publish :: "(jsstr \<Rightarrow> bool) \<Rightarrow> int \<times> 64 word \<Rightarrow> NSQPublishInput \<Rightarrow> refusal + nsq_call list" where
  "nsq_Publish known decoded i =
    (let n = at_least_one (fst decoded); delay = snd decoded; topic = ni_topic i; body = ni_body i;
       defer = (if 0 < sint delay then Some delay else None) in
     if TrimSpace topic = [] then Inl NoName
     else if body = [] then Inl EmptyMessage
     else if 1000 < n then Inl TooMany
     else if TrimSpace (ni_node i) \<noteq> [] \<and> \<not> known (ni_node i) then Inl UnknownNode
     else if 0 < sint delay \<or> newline \<in> set body then Inr (replicate (nat n) (Pub topic defer body))
     else Inr [if 1 < n then Mpub topic defer (join_with [newline] (replicate (nat n) body))
               else Pub topic defer (join_with [newline] (replicate (nat n) body))])"

section \<open>SQS\<close>

record SqsProducerDraft =
  sq_queue :: jsstr
  sq_body :: jsstr
  sq_count :: jsnum
  sq_delaySec :: jsnum
  sq_groupId :: jsstr
  sq_deduplicationId :: jsstr
  sq_attributes :: "(jsstr \<times> jsstr) list"

definition sqs_MAX_COUNT :: jsnum where
  "sqs_MAX_COUNT = Fin 1000"

definition MAX_DELAY_SEC :: jsnum where
  "MAX_DELAY_SEC = Fin 900"

definition emptySqsProducerDraft :: SqsProducerDraft where
  "emptySqsProducerDraft = \<lparr>sq_queue = [], sq_body = [], sq_count = Fin 1, sq_delaySec = Fin 0, sq_groupId = [],
     sq_deduplicationId = [], sq_attributes = []\<rparr>"

text \<open>\<open>isFifoName\<close> of \<open>mq/sqs/names.ts\<close>.\<close>

definition FIFO_SUFFIX :: jsstr where
  "FIFO_SUFFIX = u ''.fifo''"

definition isFifoName :: "jsstr \<Rightarrow> bool" where
  "isFifoName typed \<longleftrightarrow> ends_with (trim typed) FIFO_SUFFIX"

definition targetsFifo :: "SqsProducerDraft \<Rightarrow> bool" where
  "targetsFifo draft \<longleftrightarrow> isFifoName (sq_queue draft)"

definition sqs_sendProblem :: "SqsProducerDraft \<Rightarrow> string option" where
  "sqs_sendProblem draft =
    (if trim (sq_queue draft) = [] then Some ''board.sqs.producer.queueRequired''
     else if sq_body draft = [] then Some ''board.sqs.producer.bodyRequired''
     else if sq_count draft < Fin 1 \<or> sqs_MAX_COUNT < sq_count draft then Some ''board.sqs.producer.countRange''
     else if sq_delaySec draft < Fin 0 \<or> MAX_DELAY_SEC < sq_delaySec draft then Some ''board.sqs.producer.delayRange''
     else if targetsFifo draft \<and> trim (sq_groupId draft) = [] then Some ''board.sqs.producer.groupRequired''
     else if targetsFifo draft \<and> Fin 0 < sq_delaySec draft then Some ''board.sqs.producer.fifoNoDelay''
     else if \<not> targetsFifo draft \<and> trim (sq_groupId draft) \<noteq> [] then Some ''board.sqs.producer.groupOnStandard''
     else if nameless (sq_attributes draft) then Some ''board.sqs.producer.attributeNameRequired''
     else None)"

definition sqs_sendWarning :: "SqsProducerDraft \<Rightarrow> string option" where
  "sqs_sendWarning draft = (if targetsFifo draft \<and> Fin 1 < sq_count draft then Some ''board.sqs.producer.fifoRepeatNote'' else None)"

record SQSPublishInput =
  si_queue :: jsstr
  si_body :: jsstr
  si_count :: jsnum
  si_delaySec :: jsnum
  si_attributes :: "(jsstr \<times> jsstr) list"
  si_groupId :: jsstr
  si_deduplicationId :: jsstr

definition sqs_toPublishInput :: "SqsProducerDraft \<Rightarrow> SQSPublishInput option" where
  "sqs_toPublishInput draft = (if sqs_sendProblem draft \<noteq> None then None
     else Some \<lparr>si_queue = trim (sq_queue draft), si_body = sq_body draft, si_count = sq_count draft,
       si_delaySec = sq_delaySec draft, si_attributes = named_rows (sq_attributes draft),
       si_groupId = (if targetsFifo draft then trim (sq_groupId draft) else []),
       si_deduplicationId = (if targetsFifo draft then trim (sq_deduplicationId draft) else [])\<rparr>)"

text \<open>
  One entry of a batch: its index, body, delay in seconds, attributes and, on a FIFO queue, the
  group and the deduplication id. \<open>stamp index\<close> is the clock, in base 36, as it is read for that copy.
\<close>

record sqs_entry =
  se_index :: nat
  se_body :: jsstr
  se_delay :: int
  se_attributes :: "(jsstr \<times> jsstr) list"
  se_fifo :: "(jsstr \<times> jsstr) option"

definition deduplicationIDFor :: "(nat \<Rightarrow> jsstr) \<Rightarrow> int \<Rightarrow> jsstr \<Rightarrow> nat \<Rightarrow> jsstr" where
  "deduplicationIDFor stamp cnt given index =
    (let base = (if TrimSpace given = [] then stamp index else TrimSpace given) in
     if cnt \<le> 1 then base else base @ u ''-'' @ int_to_str (int index))"

definition sqs_bridge :: "SQSPublishInput \<Rightarrow> (int \<times> 64 word) option" where
  "sqs_bridge i = (case (json_int (si_count i), json_int (si_delaySec i)) of
     (Some n, Some delay) \<Rightarrow> Some (n, seconds delay) | _ \<Rightarrow> None)"

definition sqs_Publish :: "(nat \<Rightarrow> jsstr) \<Rightarrow> int \<times> 64 word \<Rightarrow> SQSPublishInput \<Rightarrow> refusal + (jsstr \<times> sqs_entry list list)" where
  "sqs_Publish stamp decoded i =
    (let delay = sint (snd decoded); n = at_least_one (fst decoded); fifo = ends_with (si_queue i) (u ''.fifo'');
       gid = TrimSpace (si_groupId i) in
     if TrimSpace (si_queue i) = [] then Inl NoName
     else if si_body i = [] then Inl EmptyMessage
     else if delay < 0 then Inl NegativeDelay
     else if 900 * 1000000000 < delay then Inl DelayTooLong
     else if 1000 < n then Inl TooMany
     else if fifo \<and> gid = [] then Inl GroupRequired
     else if \<not> fifo \<and> gid \<noteq> [] then Inl GroupOnStandard
     else if fifo \<and> 0 < delay then Inl DelayOnFifo
     else Inr (si_queue i, map (map (\<lambda>index.
       \<lparr>se_index = index, se_body = si_body i, se_delay = delay div 1000000000,
        se_attributes = filter (\<lambda>(name, val). TrimSpace name \<noteq> [] \<and> val \<noteq> []) (si_attributes i),
        se_fifo = (if fifo then Some (gid, deduplicationIDFor stamp (fst decoded) (si_deduplicationId i) index) else None)\<rparr>))
       (batches 10 0 (nat n))))"

section \<open>What a number input can hold\<close>

definition typed :: "jsnum \<Rightarrow> bool" where
  "typed x \<longleftrightarrow> (\<exists>raw. x = numberField raw \<or> x = nsq_numberField raw)"

lemma typed_whole:
  assumes "typed x" and "Fin 0 \<le> x" and "x \<le> Fin (of_int b)" and "0 \<le> b" and "b < 2 ^ 53"
  shows "\<exists>n. x = Fin (of_int n) \<and> 0 \<le> n \<and> n \<le> b"
proof -
  from assms(1) obtain raw where "x = Fin 0 \<or> x = parse_int raw"
    by (auto simp: typed_def numberField_def nsq_numberField_def Let_def split: if_splits)
  then show ?thesis
  proof
    assume "x = Fin 0"
    then show ?thesis using assms(4) by (intro exI [of _ 0]) simp
  next
    assume "x = parse_int raw"
    then show ?thesis using parse_int_small [of raw b] assms(2,3,5) by simp
  qed
qed

lemma typed_not_NaN: "typed x \<Longrightarrow> x \<noteq> NaN"
  unfolding typed_def numberField_def nsq_numberField_def Let_def by (metis jsnum.distinct(5))

lemma typed_count:
  assumes "typed x" and "\<not> x < Fin 1" and "\<not> Fin 1000 < x"
  shows "\<exists>n. x = Fin (of_int n) \<and> 1 \<le> n \<and> n \<le> 1000"
proof -
  have x: "Fin 1 \<le> x" "x \<le> Fin (of_int 1000)" using assms typed_not_NaN [of x] by (simp_all add: jsnum_not_less)
  have "Fin 0 \<le> x" using x(1) by (rule jsnum_le_trans [rotated]) simp
  then obtain n where n: "x = Fin (of_int n)" "0 \<le> n" "n \<le> 1000" using typed_whole [OF assms(1) _ x(2)] by auto
  moreover have "1 \<le> n" using x(1) by (simp add: n(1))
  ultimately show ?thesis by blast
qed

text \<open>Nanoseconds do not wrap up to \<open>2 ^ 63\<close> of them, some two hundred and ninety-two years.\<close>

lemma seconds_exact: "0 \<le> n \<Longrightarrow> n \<le> 9223372036 \<Longrightarrow> sint (seconds n) = n * 1000000000"
proof -
  assume n: "0 \<le> n" "n \<le> 9223372036"
  have "seconds n = word_of_int (n * 1000000000)" by (simp add: seconds_def wi_hom_mult)
  then have "sint (seconds n) = signed_take_bit 63 (n * 1000000000)" by (simp only: sint_sbintrunc') simp
  also have "\<dots> = n * 1000000000" using n by (intro signed_take_bit_int_eq_self) simp_all
  finally show ?thesis .
qed

text \<open>JavaScript's trimming and Go's agree on a text with no next-line character.\<close>

lemma TrimSpace_trim: "133 \<notin> set s \<Longrightarrow> TrimSpace (trim s) = trim s"
proof -
  assume s: "133 \<notin> set s"
  have "trim s = [] \<or> (\<not> go_space (hd (trim s)) \<and> \<not> go_space (last (trim s)))"
  proof (cases "trim s = []")
    case False
    then have "hd (trim s) \<in> set s" "last (trim s) \<in> set s"
      using set_trim_by [of is_ws s] by (simp_all add: trim_by_is_ws subset_iff)
    then show ?thesis using trim_nonblank [OF False] s by (auto simp: go_space_def)
  qed simp
  then show ?thesis unfolding TrimSpace_def by (rule trim_by_idle)
qed

lemma int_to_str_eq: "0 \<le> m \<Longrightarrow> 0 \<le> n \<Longrightarrow> int_to_str m = int_to_str n \<longleftrightarrow> m = n"
  using nat_digits_facts [of m] nat_digits_facts [of n] unfolding int_to_str_def by (metis linorder_not_less)

lemma int_to_str_no_dash: "0 \<le> n \<Longrightarrow> 45 \<notin> set (int_to_str n)"
  using nat_digits_facts [of n] by (auto simp: int_to_str_def is_digit_def)

lemma at_least_one_pos: "1 \<le> n \<Longrightarrow> at_least_one n = n" "1 \<le> at_least_one n"
  by (auto simp: at_least_one_def)

section \<open>The consoles together\<close>

datatype console = AzureConsole ServiceBusProducerDraft | PubSubConsole PubSubProducerDraft
  | KinesisConsole KinesisProducerDraft | NsqConsole NsqProducerDraft | SqsConsole SqsProducerDraft

fun console_problem :: "console \<Rightarrow> string option" where
  "console_problem (AzureConsole d) = azure_sendProblem d"
| "console_problem (PubSubConsole d) = pubsub_sendProblem d"
| "console_problem (KinesisConsole d) = kinesis_sendProblem d"
| "console_problem (NsqConsole d) = nsq_sendProblem d"
| "console_problem (SqsConsole d) = sqs_sendProblem d"

fun console_count :: "console \<Rightarrow> jsnum" where
  "console_count (AzureConsole d) = az_count d"
| "console_count (PubSubConsole d) = ps_count d"
| "console_count (KinesisConsole d) = ki_count d"
| "console_count (NsqConsole d) = nq_count d"
| "console_count (SqsConsole d) = sq_count d"

fun console_delay :: "console \<Rightarrow> jsnum" where
  "console_delay (AzureConsole d) = az_delaySec d"
| "console_delay (NsqConsole d) = nq_delaySec d"
| "console_delay (SqsConsole d) = sq_delaySec d"
| "console_delay _ = Fin 0"

text \<open>The typed fields both sides trim.\<close>

fun console_fields :: "console \<Rightarrow> jsstr list" where
  "console_fields (AzureConsole d) = [az_entity d]"
| "console_fields (PubSubConsole d) = [ps_topic d]"
| "console_fields (KinesisConsole d) = [ki_stream d, ki_partitionKey d, ki_explicitHashKey d]"
| "console_fields (NsqConsole d) = [nq_topic d, nq_node d]"
| "console_fields (SqsConsole d) = [sq_queue d, sq_groupId d]"

text \<open>How a press of the button ends: with how many messages handed to the broker, or why none.\<close>

datatype 'e outcome = NotSubmitted | Undecodable | Refused 'e | Delivers nat

fun outcome_of :: "('m \<Rightarrow> nat) \<Rightarrow> 'e + 'm \<Rightarrow> 'e outcome" where
  "outcome_of f (Inl e) = Refused e"
| "outcome_of f (Inr m) = Delivers (f m)"

text \<open>The messages \<open>nsqd\<close> takes out of a request: newlines separate those of \<open>/mpub\<close>.\<close>

fun nsq_delivers :: "nsq_call \<Rightarrow> jsstr list" where
  "nsq_delivers (Pub topic defer body) = [body]"
| "nsq_delivers (Mpub topic defer body) = split_on newline body"

fun press_send :: "(jsstr \<Rightarrow> bool) \<Rightarrow> (nat \<Rightarrow> jsstr) \<Rightarrow> console \<Rightarrow> refusal outcome" where
  "press_send known stamp (AzureConsole d) = (case azure_toSendInput d of None \<Rightarrow> NotSubmitted
     | Some i \<Rightarrow> (case azure_bridge i of None \<Rightarrow> Undecodable | Some r \<Rightarrow> outcome_of (length \<circ> snd) (azure_Send r)))"
| "press_send known stamp (PubSubConsole d) = (case pubsub_toPublishInput d of None \<Rightarrow> NotSubmitted
     | Some i \<Rightarrow> (case json_int (pi_count i) of None \<Rightarrow> Undecodable | Some n \<Rightarrow> outcome_of (length \<circ> snd) (pubsub_Publish n i)))"
| "press_send known stamp (KinesisConsole d) = (case kinesis_toPublishInput d of None \<Rightarrow> NotSubmitted
     | Some i \<Rightarrow> (case json_int (kp_count i) of None \<Rightarrow> Undecodable
         | Some n \<Rightarrow> outcome_of (length \<circ> concat \<circ> snd) (kinesis_Publish n i)))"
| "press_send known stamp (NsqConsole d) = (case nsq_toPublishInput d of None \<Rightarrow> NotSubmitted
     | Some i \<Rightarrow> (case nsq_bridge i of None \<Rightarrow> Undecodable
         | Some r \<Rightarrow> outcome_of (length \<circ> concat \<circ> map nsq_delivers) (nsq_Publish known r i)))"
| "press_send known stamp (SqsConsole d) = (case sqs_toPublishInput d of None \<Rightarrow> NotSubmitted
     | Some i \<Rightarrow> (case sqs_bridge i of None \<Rightarrow> Undecodable
         | Some r \<Rightarrow> outcome_of (length \<circ> concat \<circ> snd) (sqs_Publish stamp r i)))"

text \<open>What a driver may still refuse: a name only it knows not to be one.\<close>

fun only_driver_knows :: "(jsstr \<Rightarrow> bool) \<Rightarrow> console \<Rightarrow> refusal \<Rightarrow> bool" where
  "only_driver_knows known (AzureConsole d) e \<longleftrightarrow> e = SubEntity
     \<and> (starts_with (trim (az_entity d)) (u ''$'') \<or> includes_str (trim (az_entity d)) (u ''/$''))"
| "only_driver_knows known (PubSubConsole d) e \<longleftrightarrow> e = SlashInName \<and> slash \<in> set (trim (ps_topic d))"
| "only_driver_knows known (NsqConsole d) e \<longleftrightarrow> e = UnknownNode \<and> trim (nq_node d) \<noteq> [] \<and> \<not> known (trim (nq_node d))"
| "only_driver_knows known _ e \<longleftrightarrow> False"

lemma delay_facts:
  assumes "typed x" and "\<not> x < Fin 0" and "x \<le> Fin 9223372036"
  shows "\<exists>n. x = Fin (of_int n) \<and> 0 \<le> n \<and> n \<le> 9223372036 \<and> json_int x = Some n \<and> sint (seconds n) = n * 1000000000"
proof -
  have "Fin 0 \<le> x" using assms(1,2) typed_not_NaN [of x] by (simp add: jsnum_not_less)
  then obtain n where n: "x = Fin (of_int n)" "0 \<le> n" "n \<le> 9223372036" using typed_whole [of x 9223372036] assms(1,3) by auto
  then have "json_int x = Some n" by (simp only: json_int_of_int) simp
  then show ?thesis using n seconds_exact [of n] by blast
qed

lemma count_facts:
  assumes "typed x" and "\<not> x < Fin 1" and "\<not> Fin 1000 < x"
  shows "\<exists>n. x = Fin (of_int n) \<and> 1 \<le> n \<and> n \<le> 1000 \<and> json_int x = Some n \<and> at_least_one n = n"
proof -
  obtain n where n: "x = Fin (of_int n)" "1 \<le> n" "n \<le> 1000" using typed_count [OF assms] by blast
  then have "json_int x = Some n" by (simp only: json_int_of_int) simp
  then show ?thesis using n by (auto simp: at_least_one_def)
qed

definition delivered :: "'e outcome \<Rightarrow> jsnum \<Rightarrow> bool" where
  "delivered out cnt \<longleftrightarrow> (\<exists>n. cnt = Fin (of_int n) \<and> 1 \<le> n \<and> n \<le> 1000 \<and> out = Delivers (nat n))"

lemma azure_press:
  assumes "azure_sendProblem d = None" and "typed (az_count d)" and "typed (az_delaySec d)"
    and "az_delaySec d \<le> Fin 9223372036" and "133 \<notin> set (az_entity d)"
  shows "delivered (press_send known stamp (AzureConsole d)) (az_count d)
    \<or> (\<exists>e. press_send known stamp (AzureConsole d) = Refused e \<and> only_driver_knows known (AzureConsole d) e)"
proof -
  have p: "trim (az_entity d) \<noteq> []" "\<not> az_count d < Fin 1" "\<not> Fin 1000 < az_count d" "\<not> az_delaySec d < Fin 0"
    using assms(1) by (auto simp: azure_sendProblem_def azure_MAX_COUNT_def split: if_splits)
  from count_facts [OF assms(2) p(2,3)] obtain n where n: "az_count d = Fin (of_int n)" "1 \<le> n" "n \<le> 1000"
    "json_int (az_count d) = Some n" "at_least_one n = n" by blast
  from delay_facts [OF assms(3) p(4) assms(4)] obtain t where t: "json_int (az_delaySec d) = Some t" by blast
  show ?thesis
    using assms(1) p(1) n t TrimSpace_trim [OF assms(5)]
    by (auto simp: delivered_def azure_toSendInput_def azure_bridge_def azure_Send_def azure_requiredName_def Let_def)
qed

lemma pubsub_press:
  assumes "pubsub_sendProblem d = None" and "typed (ps_count d)" and "133 \<notin> set (ps_topic d)"
  shows "delivered (press_send known stamp (PubSubConsole d)) (ps_count d)
    \<or> (\<exists>e. press_send known stamp (PubSubConsole d) = Refused e \<and> only_driver_knows known (PubSubConsole d) e)"
proof -
  have p: "trim (ps_topic d) \<noteq> []" "\<not> ps_count d < Fin 1" "\<not> Fin 1000 < ps_count d"
      "\<not> (ps_body d = [] \<and> length (named_rows (ps_attributes d)) = 0)"
    using assms(1) by (auto simp: pubsub_sendProblem_def pubsub_MAX_COUNT_def split: if_splits)
  from count_facts [OF assms(2) p(2,3)] obtain n where n: "ps_count d = Fin (of_int n)" "1 \<le> n" "n \<le> 1000"
    "json_int (ps_count d) = Some n" "at_least_one n = n" by blast
  show ?thesis
    using assms(1) p(1,4) n TrimSpace_trim [OF assms(3)]
    by (auto simp: delivered_def pubsub_toPublishInput_def pubsub_Publish_def pubsub_requiredName_def Let_def)
qed

lemma encode_digits: "list_all is_digit s \<Longrightarrow> encode s = s"
proof (induction s rule: encode.induct)
  case (2 c)
  then show ?case by (simp add: is_digit_def is_high_def is_low_def utf8_def)
next
  case (3 c d cs)
  then have "\<not> is_high c" "\<not> is_low c" "utf8 c = [c]" by (simp_all add: is_digit_def is_high_def is_low_def utf8_def)
  then show ?case using 3 by simp
qed simp

lemma kinesis_accepted:
  assumes "kinesis_sendProblem d = None" and "typed (ki_count d)"
    and "133 \<notin> set (ki_stream d)" "133 \<notin> set (ki_partitionKey d)" "133 \<notin> set (ki_explicitHashKey d)"
  shows "\<exists>n i. ki_count d = Fin (of_int n) \<and> 1 \<le> n \<and> n \<le> 1000 \<and> json_int (ki_count d) = Some n
    \<and> kinesis_toPublishInput d = Some i \<and> kp_count i = ki_count d
    \<and> kinesis_Publish n i = Inr (trim (ki_stream d), map (map (\<lambda>index. (ki_body d,
        partitionKeyFor (trim (ki_partitionKey d)) index n (trim (ki_explicitHashKey d)), trim (ki_explicitHashKey d))))
        (batches 500 0 (nat n)))"
proof -
  let ?h = "trim (ki_explicitHashKey d)"
  have p: "trim (ki_stream d) \<noteq> []" "ki_body d \<noteq> []" "length (encode (ki_body d)) \<le> 1024 * 1024" "trim (ki_partitionKey d) \<noteq> []"
      "\<not> ki_count d < Fin 1" "\<not> Fin 1000 < ki_count d" "?h \<noteq> [] \<longrightarrow> list_all is_digit ?h \<and> length ?h \<le> 39"
    using assms(1)
    by (auto simp: kinesis_sendProblem_def kinesis_MAX_COUNT_def MAX_RECORD_BYTES_def MAX_HASH_KEY_DIGITS_def Let_def split: if_splits)
  from count_facts [OF assms(2) p(5,6)] obtain n where n: "ki_count d = Fin (of_int n)" "1 \<le> n" "n \<le> 1000"
    "json_int (ki_count d) = Some n" "at_least_one n = n" by blast
  have h: "?h \<noteq> [] \<longrightarrow> validHashKey ?h" using p(7) by (auto simp: validHashKey_def encode_digits)
  let ?i = "the (kinesis_toPublishInput d)"
  have i: "kinesis_toPublishInput d = Some ?i" "kp_count ?i = ki_count d" using assms(1) by (simp_all add: kinesis_toPublishInput_def)
  have "kinesis_Publish n ?i = Inr (trim (ki_stream d), map (map (\<lambda>index. (ki_body d,
        partitionKeyFor (trim (ki_partitionKey d)) index n ?h, ?h))) (batches 500 0 (nat n)))"
    using p(1,2,3,4) h n TrimSpace_trim [OF assms(3)] TrimSpace_trim [OF assms(4)] TrimSpace_trim [OF assms(5)] assms(1)
    by (auto simp: kinesis_toPublishInput_def kinesis_Publish_def Let_def)
  then show ?thesis using n i by blast
qed

lemma length_concat_map: "length (concat (map (map f) bs)) = length (concat bs)"
  by (metis length_map map_concat)

lemma kinesis_press:
  assumes "kinesis_sendProblem d = None" and "typed (ki_count d)"
    and "133 \<notin> set (ki_stream d)" "133 \<notin> set (ki_partitionKey d)" "133 \<notin> set (ki_explicitHashKey d)"
  shows "delivered (press_send known stamp (KinesisConsole d)) (ki_count d)"
proof -
  from kinesis_accepted [OF assms] obtain n i where i: "ki_count d = Fin (of_int n)" "1 \<le> n" "n \<le> 1000"
    "json_int (ki_count d) = Some n" "kinesis_toPublishInput d = Some i" "kp_count i = ki_count d"
    "kinesis_Publish n i = Inr (trim (ki_stream d), map (map (\<lambda>index. (ki_body d,
        partitionKeyFor (trim (ki_partitionKey d)) index n (trim (ki_explicitHashKey d)), trim (ki_explicitHashKey d))))
        (batches 500 0 (nat n)))" by blast
  have "press_send known stamp (KinesisConsole d) = Delivers (nat n)"
    by (simp add: i(4,5,6,7) length_concat_map batches_cover)
  then show ?thesis using i(1,2,3) by (auto simp: delivered_def)
qed

lemma join_one: "join_with sep [w] = w"
  by simp

lemma nsq_accepted:
  assumes "nsq_sendProblem d = None" and "typed (nq_count d)" and "typed (nq_delaySec d)"
    and "nq_delaySec d \<le> Fin 9223372036" and "133 \<notin> set (nq_topic d)" "133 \<notin> set (nq_node d)"
  shows "\<exists>n t i. nq_count d = Fin (of_int n) \<and> 1 \<le> n \<and> n \<le> 1000 \<and> nq_delaySec d = Fin (of_int t) \<and> 0 \<le> t
    \<and> nsq_toPublishInput d = Some i \<and> nsq_bridge i = Some (n, seconds t) \<and> sint (seconds t) = t * 1000000000
    \<and> nsq_Publish known (n, seconds t) i =
        (if trim (nq_node d) \<noteq> [] \<and> \<not> known (trim (nq_node d)) then Inl UnknownNode
         else Inr (if 0 < t \<or> newline \<in> set (nq_body d)
           then replicate (nat n) (Pub (trim (nq_topic d)) (if 0 < t then Some (seconds t) else None) (nq_body d))
           else [if 1 < n then Mpub (trim (nq_topic d)) None (join_with [newline] (replicate (nat n) (nq_body d)))
                 else Pub (trim (nq_topic d)) None (nq_body d)]))"
proof -
  have p: "trim (nq_topic d) \<noteq> []" "nq_body d \<noteq> []" "\<not> nq_count d < Fin 1" "\<not> Fin 1000 < nq_count d" "\<not> nq_delaySec d < Fin 0"
    using assms(1) by (auto simp: nsq_sendProblem_def nsq_MAX_COUNT_def split: if_splits)
  from count_facts [OF assms(2) p(3,4)] obtain n where n: "nq_count d = Fin (of_int n)" "1 \<le> n" "n \<le> 1000"
    "json_int (nq_count d) = Some n" "at_least_one n = n" by blast
  from delay_facts [OF assms(3) p(5) assms(4)] obtain t where t: "nq_delaySec d = Fin (of_int t)" "0 \<le> t"
    "json_int (nq_delaySec d) = Some t" "sint (seconds t) = t * 1000000000" by blast
  let ?i = "the (nsq_toPublishInput d)"
  have i: "nsq_toPublishInput d = Some ?i" "nsq_bridge ?i = Some (n, seconds t)"
    using assms(1) n(4) t(3) by (simp_all add: nsq_toPublishInput_def nsq_bridge_def)
  have pos: "0 < sint (seconds t) \<longleftrightarrow> 0 < t" by (simp add: t(4))
  have one: "join_with [newline] (replicate (nat n) (nq_body d)) = nq_body d" if "\<not> 1 < n"
  proof -
    have "nat n = 1" using that n(2) by simp
    then show ?thesis by (simp only: replicate_0 replicate_Suc One_nat_def join_one)
  qed
  have "nsq_Publish known (n, seconds t) ?i =
        (if trim (nq_node d) \<noteq> [] \<and> \<not> known (trim (nq_node d)) then Inl UnknownNode
         else Inr (if 0 < t \<or> newline \<in> set (nq_body d)
           then replicate (nat n) (Pub (trim (nq_topic d)) (if 0 < t then Some (seconds t) else None) (nq_body d))
           else [if 1 < n then Mpub (trim (nq_topic d)) None (join_with [newline] (replicate (nat n) (nq_body d)))
                 else Pub (trim (nq_topic d)) None (nq_body d)]))"
    using p(1,2) n(3) assms(1) TrimSpace_trim [OF assms(5)] TrimSpace_trim [OF assms(6)] one
    by (simp add: nsq_toPublishInput_def nsq_Publish_def Let_def pos n(5))
  then show ?thesis using n(1,2,3) t(1,2,4) i by blast
qed

lemma nsq_press:
  assumes "nsq_sendProblem d = None" and "typed (nq_count d)" and "typed (nq_delaySec d)"
    and "nq_delaySec d \<le> Fin 9223372036" and "133 \<notin> set (nq_topic d)" "133 \<notin> set (nq_node d)"
  shows "delivered (press_send known stamp (NsqConsole d)) (nq_count d)
    \<or> (\<exists>e. press_send known stamp (NsqConsole d) = Refused e \<and> only_driver_knows known (NsqConsole d) e)"
proof -
  from nsq_accepted [OF assms, of known] obtain n t i where i: "nq_count d = Fin (of_int n)" "1 \<le> n" "n \<le> 1000"
    "nsq_toPublishInput d = Some i" "nsq_bridge i = Some (n, seconds t)"
    "nsq_Publish known (n, seconds t) i =
        (if trim (nq_node d) \<noteq> [] \<and> \<not> known (trim (nq_node d)) then Inl UnknownNode
         else Inr (if 0 < t \<or> newline \<in> set (nq_body d)
           then replicate (nat n) (Pub (trim (nq_topic d)) (if 0 < t then Some (seconds t) else None) (nq_body d))
           else [if 1 < n then Mpub (trim (nq_topic d)) None (join_with [newline] (replicate (nat n) (nq_body d)))
                 else Pub (trim (nq_topic d)) None (nq_body d)]))" by blast
  have split: "length (split_on newline (join_with [newline] (replicate (nat n) (nq_body d)))) = nat n" if "newline \<notin> set (nq_body d)"
    using that i(2) by (subst split_on_join) (auto simp: replicate_empty)
  have "concat (replicate k [x]) = replicate k x" for k and x :: jsstr by (induction k) simp_all
  then show ?thesis
    using i(1,2,3) split by (auto simp: delivered_def i(4,5,6) map_replicate)
qed

lemma sqs_accepted:
  assumes "sqs_sendProblem d = None" and "typed (sq_count d)" and "typed (sq_delaySec d)"
    and "133 \<notin> set (sq_queue d)" "133 \<notin> set (sq_groupId d)"
  shows "\<exists>n t i. sq_count d = Fin (of_int n) \<and> 1 \<le> n \<and> n \<le> 1000 \<and> sq_delaySec d = Fin (of_int t) \<and> 0 \<le> t \<and> t \<le> 900
    \<and> (targetsFifo d \<longrightarrow> t = 0) \<and> sqs_toPublishInput d = Some i \<and> sqs_bridge i = Some (n, seconds t)
    \<and> sqs_Publish stamp (n, seconds t) i = Inr (trim (sq_queue d), map (map (\<lambda>index.
       \<lparr>se_index = index, se_body = sq_body d, se_delay = t,
        se_attributes = filter (\<lambda>(name, val). TrimSpace name \<noteq> [] \<and> val \<noteq> []) (named_rows (sq_attributes d)),
        se_fifo = (if targetsFifo d then Some (trim (sq_groupId d), deduplicationIDFor stamp n (trim (sq_deduplicationId d)) index) else None)\<rparr>))
       (batches 10 0 (nat n)))"
proof -
  have p: "trim (sq_queue d) \<noteq> []" "sq_body d \<noteq> []" "\<not> sq_count d < Fin 1" "\<not> Fin 1000 < sq_count d" "\<not> sq_delaySec d < Fin 0"
      "\<not> Fin 900 < sq_delaySec d" "targetsFifo d \<longrightarrow> trim (sq_groupId d) \<noteq> [] \<and> \<not> Fin 0 < sq_delaySec d"
      "\<not> targetsFifo d \<longrightarrow> trim (sq_groupId d) = []"
    using assms(1) by (auto simp: sqs_sendProblem_def sqs_MAX_COUNT_def MAX_DELAY_SEC_def split: if_splits)
  from count_facts [OF assms(2) p(3,4)] obtain n where n: "sq_count d = Fin (of_int n)" "1 \<le> n" "n \<le> 1000"
    "json_int (sq_count d) = Some n" "at_least_one n = n" by blast
  have le: "sq_delaySec d \<le> Fin 900" using p(6) typed_not_NaN [OF assms(3)] by (simp add: jsnum_not_less)
  then have "sq_delaySec d \<le> Fin 9223372036" by (rule jsnum_le_trans) simp
  from delay_facts [OF assms(3) p(5) this] obtain t where t: "sq_delaySec d = Fin (of_int t)" "0 \<le> t"
    "json_int (sq_delaySec d) = Some t" "sint (seconds t) = t * 1000000000" by blast
  have t900: "t \<le> 900" "targetsFifo d \<longrightarrow> t = 0" using le p(7) t(1,2) by auto
  let ?i = "the (sqs_toPublishInput d)"
  have i: "sqs_toPublishInput d = Some ?i" "sqs_bridge ?i = Some (n, seconds t)"
    using assms(1) n(4) t(3) by (simp_all add: sqs_toPublishInput_def sqs_bridge_def)
  have zero: "sint (seconds 0) = 0" by (simp add: seconds_def)
  have fifo: "ends_with (trim (sq_queue d)) (u ''.fifo'') \<longleftrightarrow> targetsFifo d"
    by (simp add: targetsFifo_def isFifoName_def FIFO_SUFFIX_def)
  have "sqs_Publish stamp (n, seconds t) ?i = Inr (trim (sq_queue d), map (map (\<lambda>index.
       \<lparr>se_index = index, se_body = sq_body d, se_delay = t,
        se_attributes = filter (\<lambda>(name, val). TrimSpace name \<noteq> [] \<and> val \<noteq> []) (named_rows (sq_attributes d)),
        se_fifo = (if targetsFifo d then Some (trim (sq_groupId d), deduplicationIDFor stamp n (trim (sq_deduplicationId d)) index) else None)\<rparr>))
       (batches 10 0 (nat n)))"
    using p(1,2,7,8) n(3) t(2) t900 assms(1) TrimSpace_trim [OF assms(4)] TrimSpace_trim [OF assms(5)]
    by (cases "targetsFifo d") (simp_all add: sqs_toPublishInput_def sqs_Publish_def Let_def fifo n(5) t(4) zero)
  then show ?thesis using n(1,2,3) t(1,2) t900 i by blast
qed

lemma sqs_press:
  assumes "sqs_sendProblem d = None" and "typed (sq_count d)" and "typed (sq_delaySec d)"
    and "133 \<notin> set (sq_queue d)" "133 \<notin> set (sq_groupId d)"
  shows "delivered (press_send known stamp (SqsConsole d)) (sq_count d)"
proof -
  from sqs_accepted [OF assms, of stamp] obtain n t i where i: "sq_count d = Fin (of_int n)" "1 \<le> n" "n \<le> 1000"
    "sqs_toPublishInput d = Some i" "sqs_bridge i = Some (n, seconds t)"
    "sqs_Publish stamp (n, seconds t) i = Inr (trim (sq_queue d), map (map (\<lambda>index.
       \<lparr>se_index = index, se_body = sq_body d, se_delay = t,
        se_attributes = filter (\<lambda>(name, val). TrimSpace name \<noteq> [] \<and> val \<noteq> []) (named_rows (sq_attributes d)),
        se_fifo = (if targetsFifo d then Some (trim (sq_groupId d), deduplicationIDFor stamp n (trim (sq_deduplicationId d)) index) else None)\<rparr>))
       (batches 10 0 (nat n)))" by blast
  have "press_send known stamp (SqsConsole d) = Delivers (nat n)"
    by (simp add: i(4,5,6) length_concat_map batches_cover)
  then show ?thesis using i(1,2,3) by (auto simp: delivered_def)
qed

text \<open>
  C21: A send a hosted service's console takes goes through: with the numbers a field can hold, no
  delay past what a sixty-four bit duration holds and no next-line character in the names, the
  driver hands over exactly as many messages as the form says, between one and a thousand, or
  refuses a name only it can judge - a sub-entity, a path, a daemon the connection does not have.
  A draft with a problem is not submitted.
\<close>

theorem accepted_sends_go_through:
  assumes "typed (console_count c)" and "typed (console_delay c)" and "console_delay c \<le> Fin 9223372036"
    and "\<forall>s \<in> set (console_fields c). 133 \<notin> set s"
  shows "(console_problem c \<noteq> None \<longrightarrow> press_send known stamp c = NotSubmitted)
    \<and> (console_problem c = None \<longrightarrow> delivered (press_send known stamp c) (console_count c)
         \<or> (\<exists>e. press_send known stamp c = Refused e \<and> only_driver_knows known c e))"
proof (cases c)
  case (AzureConsole d)
  then show ?thesis using assms azure_press [of d known stamp] by (auto simp: azure_toSendInput_def)
next
  case (PubSubConsole d)
  then show ?thesis using assms pubsub_press [of d known stamp] by (auto simp: pubsub_toPublishInput_def)
next
  case (KinesisConsole d)
  then show ?thesis using assms kinesis_press [of d known stamp] by (auto simp: kinesis_toPublishInput_def)
next
  case (NsqConsole d)
  then show ?thesis using assms nsq_press [of d known stamp] by (auto simp: nsq_toPublishInput_def)
next
  case (SqsConsole d)
  then show ?thesis using assms sqs_press [of d known stamp] by (auto simp: sqs_toPublishInput_def)
qed

lemma typed_one: "typed (Fin 1)"
  unfolding typed_def
  by (intro exI [of _ "u ''1''"] disjI1) (simp add: numberField_def u_def parse_eval trim_start_def is_ws_def is_digit_def digits_val_def Let_def)

lemma typed_zero: "typed (Fin 0)"
  unfolding typed_def
  by (intro exI [of _ "[]"] disjI1) (simp add: numberField_def parse_eval trim_start_def Let_def)

definition order_draft :: NsqProducerDraft where
  "order_draft = emptyNsqProducerDraft\<lparr>nq_topic := u ''orders'', nq_body := u ''paid''\<rparr>"

theorem accepted_sends_go_through_witness:
  "press_send (\<lambda>_. False) (\<lambda>_. []) (NsqConsole order_draft) = Delivers 1"
proof -
  have p: "nsq_sendProblem order_draft = None"
    by (simp add: nsq_sendProblem_def order_draft_def emptyNsqProducerDraft_def nsq_MAX_COUNT_def u_def trim_def trim_start_def trim_end_def is_ws_def)
  have n: "trim (nq_node order_draft) = []" by (simp add: order_draft_def emptyNsqProducerDraft_def)
  have "delivered (press_send (\<lambda>_. False) (\<lambda>_. []) (NsqConsole order_draft)) (Fin 1)"
    using accepted_sends_go_through [of "NsqConsole order_draft" "\<lambda>_. False" "\<lambda>_. []"] typed_one typed_zero p n
    by (simp add: order_draft_def emptyNsqProducerDraft_def u_def)
  then show ?thesis by (auto simp: delivered_def)
qed

section \<open>What is handed over\<close>

text \<open>
  C26: A repeat to Kinesis the console accepts hands over every copy once, each of at most a megabyte, in as
  few batches as five hundred records to a batch allow; the copies have keys of their own unless a hash
  key aims them at one shard, when all are the same record. The stream and the keys are without U+0085.
  Only the records of a batch are counted, not its bytes (\<open>kinesis_batch_bytes\<close>).
\<close>

theorem kinesis_copies_exact:
  assumes "kinesis_sendProblem d = None" and "ki_count d = Fin (of_int n)" and "typed (ki_count d)"
    and "133 \<notin> set (ki_stream d)" "133 \<notin> set (ki_partitionKey d)" "133 \<notin> set (ki_explicitHashKey d)"
  shows "\<exists>i bs. kinesis_toPublishInput d = Some i \<and> kinesis_Publish n i = Inr (trim (ki_stream d), bs)
    \<and> length (concat bs) = nat n \<and> (\<forall>b \<in> set bs. 0 < length b \<and> length b \<le> 500) \<and> length bs = (nat n + 499) div 500
    \<and> length (encode (ki_body d)) \<le> 1024 * 1024
    \<and> (\<forall>(body, key, hash) \<in> set (concat bs). body = ki_body d \<and> hash = trim (ki_explicitHashKey d) \<and> starts_with key (trim (ki_partitionKey d)))
    \<and> (if aimsAtAShard d then concat bs = replicate (nat n) (ki_body d, trim (ki_partitionKey d), trim (ki_explicitHashKey d))
       else distinct (map (fst \<circ> snd) (concat bs)))"
proof -
  let ?key = "trim (ki_partitionKey d)" and ?h = "trim (ki_explicitHashKey d)"
  define bs where "bs = map (map (\<lambda>index. (ki_body d, partitionKeyFor ?key index n ?h, ?h))) (batches 500 0 (nat n))"
  from kinesis_accepted [OF assms(1,3-6)] obtain i where i: "1 \<le> n" "kinesis_toPublishInput d = Some i"
      "kinesis_Publish n i = Inr (trim (ki_stream d), bs)"
    using assms(2) unfolding bs_def by auto
  have c: "concat bs = map (\<lambda>index. (ki_body d, partitionKeyFor ?key index n ?h, ?h)) [0..<nat n]"
    unfolding bs_def by (simp add: batches_cover flip: map_concat)
  have sz: "\<forall>b \<in> set bs. 0 < length b \<and> length b \<le> 500" "length bs = (nat n + 499) div 500"
    using batches_size [of _ 500 0 "nat n"] batches_count [of 500 0 "nat n"] by (auto simp: bs_def)
  have bytes: "length (encode (ki_body d)) \<le> 1024 * 1024"
    using assms(1) by (auto simp: kinesis_sendProblem_def MAX_RECORD_BYTES_def Let_def split: if_splits)
  have "inj_on (\<lambda>index. partitionKeyFor ?key index n ?h) {0..<nat n}" if "?h = []"
    using i(1) that by (auto simp: inj_on_def partitionKeyFor_def int_to_str_eq)
  then have d: "distinct (map (fst \<circ> snd) (concat bs))" if "?h = []" using that by (simp add: c distinct_map comp_def)
  have a: "concat bs = replicate (nat n) (ki_body d, ?key, ?h)" if "?h \<noteq> []"
    using that by (simp add: c partitionKeyFor_def map_replicate_const)
  show ?thesis
    using i(2,3) sz bytes d a
    by (intro exI [of _ i] exI [of _ bs]) (auto simp: c aimsAtAShard_def partitionKeyFor_def starts_with_def)
qed

text \<open>
  The comment beside the batch size names the other cap of the service, five megabytes to a batch.
  Up to five hundred copies make one batch whatever they weigh, so six of a megabyte exceed it.
\<close>

lemma kinesis_batch_bytes:
  assumes "kinesis_sendProblem d = None" and "ki_count d = Fin (of_int n)" and "typed (ki_count d)" and "n \<le> 500"
    and "133 \<notin> set (ki_stream d)" "133 \<notin> set (ki_partitionKey d)" "133 \<notin> set (ki_explicitHashKey d)"
  shows "\<exists>i b. kinesis_toPublishInput d = Some i \<and> kinesis_Publish n i = Inr (trim (ki_stream d), [b])
    \<and> sum_list (map (\<lambda>(body, key, hash). length (encode body)) b) = nat n * length (encode (ki_body d))"
proof -
  from kinesis_accepted [OF assms(1,3,5-7)] obtain i where i: "1 \<le> n" "kinesis_toPublishInput d = Some i"
    "kinesis_Publish n i = Inr (trim (ki_stream d), map (map (\<lambda>index. (ki_body d,
        partitionKeyFor (trim (ki_partitionKey d)) index n (trim (ki_explicitHashKey d)), trim (ki_explicitHashKey d)))) (batches 500 0 (nat n)))"
    using assms(2) by auto
  have "batches 500 500 (nat n) = []" using assms(4) by (simp add: batches.simps [of 500 500 "nat n"])
  then have "batches 500 0 (nat n) = [[0..<nat n]]"
    using i(1) assms(4) by (simp add: batches.simps [of 500 0 "nat n"] min_absorb2)
  then show ?thesis using i(2,3) by (intro exI [of _ i] exI conjI) (auto simp: comp_def sum_list_triv)
qed

text \<open>
  C25: \<open>nsqd\<close> ends up with exactly the copies asked for, each whole and each held back as the form says;
  and the console's note that the messages go one at a time is right whenever more than one request
  is made, and only then. This is for a send the form accepts with a delay of at most 9223372036 seconds
  (a longer one overflows the duration), to a daemon, if one is named, that the connection knows, with no
  U+0085 in either name.
\<close>

theorem nsq_copies_exact:
  assumes "nsq_sendProblem d = None" and "typed (nq_count d)" and "typed (nq_delaySec d)"
    and "nq_delaySec d \<le> Fin 9223372036" and "133 \<notin> set (nq_topic d)" "133 \<notin> set (nq_node d)"
    and "trim (nq_node d) \<noteq> [] \<longrightarrow> known (trim (nq_node d))"
  shows "\<exists>n t i calls. nq_count d = Fin (of_int n) \<and> nq_delaySec d = Fin (of_int t)
    \<and> nsq_toPublishInput d = Some i \<and> nsq_bridge i = Some (n, seconds t) \<and> nsq_Publish known (n, seconds t) i = Inr calls
    \<and> concat (map nsq_delivers calls) = replicate (nat n) (nq_body d)
    \<and> (1 < length calls \<longleftrightarrow> sendsOneAtATime d)
    \<and> (0 < t \<longrightarrow> calls = replicate (nat n) (Pub (trim (nq_topic d)) (Some (seconds t)) (nq_body d)) \<and> sint (seconds t) = t * 1000000000)"
proof -
  from nsq_accepted [OF assms(1-6), of known] obtain n t i where i: "nq_count d = Fin (of_int n)" "1 \<le> n" "n \<le> 1000"
    "nq_delaySec d = Fin (of_int t)" "0 \<le> t" "nsq_toPublishInput d = Some i" "nsq_bridge i = Some (n, seconds t)"
    "sint (seconds t) = t * 1000000000"
    "nsq_Publish known (n, seconds t) i =
        (if trim (nq_node d) \<noteq> [] \<and> \<not> known (trim (nq_node d)) then Inl UnknownNode
         else Inr (if 0 < t \<or> newline \<in> set (nq_body d)
           then replicate (nat n) (Pub (trim (nq_topic d)) (if 0 < t then Some (seconds t) else None) (nq_body d))
           else [if 1 < n then Mpub (trim (nq_topic d)) None (join_with [newline] (replicate (nat n) (nq_body d)))
                 else Pub (trim (nq_topic d)) None (nq_body d)]))" by blast
  define calls where "calls = (if 0 < t \<or> newline \<in> set (nq_body d)
           then replicate (nat n) (Pub (trim (nq_topic d)) (if 0 < t then Some (seconds t) else None) (nq_body d))
           else [if 1 < n then Mpub (trim (nq_topic d)) None (join_with [newline] (replicate (nat n) (nq_body d)))
                 else Pub (trim (nq_topic d)) None (nq_body d)])"
  have p: "nsq_Publish known (n, seconds t) i = Inr calls" using assms(7) unfolding i(9) calls_def by auto
  have split: "split_on newline (join_with [newline] (replicate (nat n) (nq_body d))) = replicate (nat n) (nq_body d)"
    if "newline \<notin> set (nq_body d)" using that i(2) by (intro split_on_join) (auto simp: replicate_empty)
  have one: "concat (replicate k [x]) = replicate k x" for k and x :: jsstr by (induction k) simp_all
  have n1: "\<not> 1 < n \<Longrightarrow> n = 1" using i(2) by simp
  have delivers: "concat (map nsq_delivers calls) = replicate (nat n) (nq_body d)"
    using split n1 by (auto simp: calls_def map_replicate one)
  have ones: "1 < length calls \<longleftrightarrow> sendsOneAtATime d"
    using i(2,5) by (auto simp: calls_def sendsOneAtATime_def i(1,4))
  have held: "0 < t \<longrightarrow> calls = replicate (nat n) (Pub (trim (nq_topic d)) (Some (seconds t)) (nq_body d)) \<and> sint (seconds t) = t * 1000000000"
    using i(8) by (simp add: calls_def)
  show ?thesis using i(1,4,6,7) p delivers ones held by blast
qed

definition two_lines :: NsqProducerDraft where
  "two_lines = emptyNsqProducerDraft\<lparr>nq_topic := u ''orders'', nq_body := [97, newline, 98]\<rparr>"

theorem nsq_copies_exact_witness:
  "\<exists>calls. concat (map nsq_delivers calls) = [[97, newline, 98]] \<and> \<not> 1 < length calls
     \<and> (\<exists>i. nsq_toPublishInput two_lines = Some i \<and> nsq_Publish (\<lambda>_. False) (1, seconds 0) i = Inr calls)"
proof -
  have p: "nsq_sendProblem two_lines = None" "\<not> sendsOneAtATime two_lines"
    by (simp_all add: nsq_sendProblem_def sendsOneAtATime_def two_lines_def emptyNsqProducerDraft_def nsq_MAX_COUNT_def u_def trim_def
        trim_start_def trim_end_def is_ws_def)
  have f: "nq_count two_lines = Fin 1" "nq_delaySec two_lines = Fin 0" "nq_node two_lines = []" "nq_body two_lines = [97, newline, 98]"
      "133 \<notin> set (nq_topic two_lines)"
    by (simp_all add: two_lines_def emptyNsqProducerDraft_def u_def)
  from nsq_copies_exact [of two_lines "\<lambda>_. False"] obtain n t i calls where
    "nq_count two_lines = Fin (of_int n)" "nq_delaySec two_lines = Fin (of_int t)" "nsq_toPublishInput two_lines = Some i"
    "nsq_Publish (\<lambda>_. False) (n, seconds t) i = Inr calls" "concat (map nsq_delivers calls) = replicate (nat n) (nq_body two_lines)"
    "1 < length calls \<longleftrightarrow> sendsOneAtATime two_lines"
    using p typed_one typed_zero f by auto
  moreover from this have "n = 1" "t = 0" using f by simp_all
  ultimately show ?thesis using p f by (intro exI [of _ calls]) auto
qed

definition aimed :: KinesisProducerDraft where
  "aimed = emptyKinesisProducerDraft\<lparr>ki_stream := u ''clicks'', ki_body := u ''x'', ki_partitionKey := u ''k'', ki_explicitHashKey := u ''7'', ki_count := Fin 2\<rparr>"

lemma typed_two: "typed (Fin 2)"
  unfolding typed_def
  by (intro exI [of _ "u ''2''"] disjI1) (simp add: numberField_def u_def parse_eval trim_start_def is_ws_def is_digit_def digits_val_def Let_def)

theorem kinesis_copies_exact_witness:
  "\<exists>i bs. kinesis_toPublishInput aimed = Some i \<and> kinesis_Publish 2 i = Inr (u ''clicks'', bs)
     \<and> concat bs = replicate 2 (u ''x'', u ''k'', u ''7'')"
proof -
  have ev: "trim (u ''clicks'') = u ''clicks''" "trim (u ''k'') = u ''k''" "trim (u ''7'') = u ''7''"
    by (simp_all add: u_def trim_def trim_start_def trim_end_def is_ws_def)
  have f: "ki_count aimed = Fin (of_int 2)" "ki_stream aimed = u ''clicks''" "ki_partitionKey aimed = u ''k''"
      "ki_explicitHashKey aimed = u ''7''" "ki_body aimed = u ''x''"
    by (simp_all add: aimed_def emptyKinesisProducerDraft_def)
  have p: "kinesis_sendProblem aimed = None" "aimsAtAShard aimed"
    by (simp_all add: kinesis_sendProblem_def aimsAtAShard_def f ev kinesis_MAX_COUNT_def MAX_RECORD_BYTES_def MAX_HASH_KEY_DIGITS_def Let_def)
      (simp add: u_def is_digit_def utf8_def is_high_def is_low_def)
  have "133 \<notin> set (ki_stream aimed)" "133 \<notin> set (ki_partitionKey aimed)" "133 \<notin> set (ki_explicitHashKey aimed)"
    unfolding f by (simp_all add: u_def)
  from kinesis_copies_exact [OF p(1) f(1) _ this] typed_two p(2) show ?thesis by (auto simp: f ev)
qed

lemma after_dash: "a @ 45 # ds = b @ 45 # es \<Longrightarrow> 45 \<notin> set ds \<Longrightarrow> 45 \<notin> set es \<Longrightarrow> ds = (es :: jsstr)"
proof -
  assume e: "a @ 45 # ds = b @ 45 # es" and n: "45 \<notin> set ds" "45 \<notin> set es"
  have "takeWhile (\<lambda>c. c \<noteq> 45) (rev (a @ 45 # ds)) = rev ds" "takeWhile (\<lambda>c. c \<noteq> 45) (rev (b @ 45 # es)) = rev es"
    using n by (simp_all add: takeWhile_append takeWhile_eq_all_conv)
  then show ?thesis using e by simp
qed

text \<open>
  C27: A repeat to SQS hands over every copy once, in batches of at most ten: on a standard queue
  with the delay of the form and neither group nor deduplication id, on a FIFO queue with the
  group, no delay, and ids that differ, so that none is dropped as a duplicate. The queue and the group are
  without U+0085.
\<close>

theorem sqs_copies_exact:
  assumes "sqs_sendProblem d = None" and "typed (sq_count d)" and "typed (sq_delaySec d)"
    and "133 \<notin> set (sq_queue d)" "133 \<notin> set (sq_groupId d)"
  shows "\<exists>n t i bs. sq_count d = Fin (of_int n) \<and> sq_delaySec d = Fin (of_int t) \<and> sqs_toPublishInput d = Some i
    \<and> sqs_bridge i = Some (n, seconds t) \<and> sqs_Publish stamp (n, seconds t) i = Inr (trim (sq_queue d), bs)
    \<and> map se_index (concat bs) = [0..<nat n] \<and> (\<forall>b \<in> set bs. 0 < length b \<and> length b \<le> 10)
    \<and> (\<forall>e \<in> set (concat bs). se_body e = sq_body d \<and> se_delay e = t)
    \<and> (if targetsFifo d then t = 0 \<and> (\<exists>ids. distinct ids \<and> map se_fifo (concat bs) = map (\<lambda>x. Some (trim (sq_groupId d), x)) ids)
       else \<forall>e \<in> set (concat bs). se_fifo e = None)"
proof -
  from sqs_accepted [OF assms, of stamp] obtain n t i where i: "sq_count d = Fin (of_int n)" "1 \<le> n" "n \<le> 1000"
    "sq_delaySec d = Fin (of_int t)" "targetsFifo d \<longrightarrow> t = 0" "sqs_toPublishInput d = Some i" "sqs_bridge i = Some (n, seconds t)"
    "sqs_Publish stamp (n, seconds t) i = Inr (trim (sq_queue d), map (map (\<lambda>index.
       \<lparr>se_index = index, se_body = sq_body d, se_delay = t,
        se_attributes = filter (\<lambda>(name, val). TrimSpace name \<noteq> [] \<and> val \<noteq> []) (named_rows (sq_attributes d)),
        se_fifo = (if targetsFifo d then Some (trim (sq_groupId d), deduplicationIDFor stamp n (trim (sq_deduplicationId d)) index) else None)\<rparr>))
       (batches 10 0 (nat n)))" by blast
  define entry where "entry = (\<lambda>index. \<lparr>se_index = index, se_body = sq_body d, se_delay = t,
        se_attributes = filter (\<lambda>(name, val). TrimSpace name \<noteq> [] \<and> val \<noteq> []) (named_rows (sq_attributes d)),
        se_fifo = (if targetsFifo d then Some (trim (sq_groupId d), deduplicationIDFor stamp n (trim (sq_deduplicationId d)) index) else None)\<rparr>)"
  define bs where "bs = map (map entry) (batches 10 0 (nat n))"
  define ids where "ids = map (deduplicationIDFor stamp n (trim (sq_deduplicationId d))) [0..<nat n]"
  have p: "sqs_Publish stamp (n, seconds t) i = Inr (trim (sq_queue d), bs)" by (simp add: i(8) bs_def entry_def)
  have c: "concat bs = map entry [0..<nat n]" unfolding bs_def by (simp add: batches_cover flip: map_concat)
  have sz: "\<forall>b \<in> set bs. 0 < length b \<and> length b \<le> 10" using batches_size [of _ 10 0 "nat n"] by (auto simp: bs_def)
  have "inj_on (deduplicationIDFor stamp n (trim (sq_deduplicationId d))) {0..<nat n}"
  proof (rule inj_onI)
    fix x y assume xy: "x \<in> {0..<nat n}" "y \<in> {0..<nat n}"
      "deduplicationIDFor stamp n (trim (sq_deduplicationId d)) x = deduplicationIDFor stamp n (trim (sq_deduplicationId d)) y"
    show "x = y"
    proof (cases "n \<le> 1")
      case False
      then obtain a b where "a @ 45 # int_to_str (int x) = b @ 45 # int_to_str (int y)"
        using xy(3) by (auto simp: deduplicationIDFor_def Let_def u_def)
      then have "int_to_str (int x) = int_to_str (int y)" by (rule after_dash) (simp_all add: int_to_str_no_dash)
      then show ?thesis by (simp add: int_to_str_eq)
    qed (use xy in auto)
  qed
  then have "distinct ids" by (simp add: ids_def distinct_map)
  moreover have "targetsFifo d \<Longrightarrow> map se_fifo (concat bs) = map (\<lambda>x. Some (trim (sq_groupId d), x)) ids"
    by (simp add: c entry_def ids_def)
  ultimately have fifo: "if targetsFifo d then t = 0 \<and> (\<exists>ids. distinct ids \<and> map se_fifo (concat bs) = map (\<lambda>x. Some (trim (sq_groupId d), x)) ids)
       else \<forall>e \<in> set (concat bs). se_fifo e = None"
    using i(5) by (cases "targetsFifo d") (auto simp: c entry_def)
  have "map se_index (concat bs) = [0..<nat n]" "\<forall>e \<in> set (concat bs). se_body e = sq_body d \<and> se_delay e = t"
    by (auto simp: c entry_def comp_def)
  then show ?thesis using i(1,4,6,7) p sz fifo by blast
qed

definition fifo_pair :: SqsProducerDraft where
  "fifo_pair = emptySqsProducerDraft\<lparr>sq_queue := u ''a.fifo'', sq_body := u ''x'', sq_groupId := u ''g'', sq_deduplicationId := u ''id'', sq_count := Fin 2\<rparr>"

theorem sqs_copies_exact_witness:
  "\<exists>i bs x y. sqs_toPublishInput fifo_pair = Some i \<and> sqs_Publish (\<lambda>_. []) (2, seconds 0) i = Inr (u ''a.fifo'', bs)
     \<and> map se_fifo (concat bs) = [Some (u ''g'', x), Some (u ''g'', y)] \<and> x \<noteq> y"
proof -
  have ev: "trim (u ''a.fifo'') = u ''a.fifo''" "trim (u ''g'') = u ''g''"
    by (simp_all add: u_def trim_def trim_start_def trim_end_def is_ws_def)
  have f: "sq_count fifo_pair = Fin 2" "sq_delaySec fifo_pair = Fin 0" "sq_queue fifo_pair = u ''a.fifo''"
      "sq_groupId fifo_pair = u ''g''" "sq_attributes fifo_pair = []" "sq_body fifo_pair = u ''x''"
    by (simp_all add: fifo_pair_def emptySqsProducerDraft_def)
  have fifo: "targetsFifo fifo_pair"
    by (simp add: targetsFifo_def isFifoName_def f ev FIFO_SUFFIX_def) (simp add: u_def ends_with_def starts_with_def)
  have p: "sqs_sendProblem fifo_pair = None"
    using fifo by (simp add: sqs_sendProblem_def f ev sqs_MAX_COUNT_def MAX_DELAY_SEC_def nameless_def)
  have "133 \<notin> set (sq_queue fifo_pair)" "133 \<notin> set (sq_groupId fifo_pair)" unfolding f by (simp_all add: u_def)
  from sqs_copies_exact [OF p _ _ this, of "\<lambda>_. []"] typed_two typed_zero fifo obtain n t i bs ids where
    r: "Fin 2 = Fin (of_int n)" "t = 0" "sqs_toPublishInput fifo_pair = Some i"
      "sqs_Publish (\<lambda>_. []) (n, seconds t) i = Inr (u ''a.fifo'', bs)" "map se_index (concat bs) = [0..<nat n]"
      "distinct ids" "map se_fifo (concat bs) = map (\<lambda>x. Some (u ''g'', x)) ids"
    by (auto simp: f ev)
  have n: "n = 2" using r(1) by (metis jsnum.inject of_int_eq_iff of_int_numeral)
  have "length ids = 2" using arg_cong [OF r(7), of length] arg_cong [OF r(5), of length] by (simp add: n)
  then obtain x y where "ids = [x, y]" by (auto simp: numeral_2_eq_2 length_Suc_conv)
  then show ?thesis using r n by auto
qed

section \<open>What goes wrong\<close>

text \<open>
  A delay the form takes and sixty-four bits of nanoseconds do not hold: the message is sent at
  once, and the call reports no error.
\<close>

definition far_future :: ServiceBusProducerDraft where
  "far_future = emptyServiceBusProducerDraft\<lparr>az_entity := u ''orders'', az_delaySec := Fin 9300000000\<rparr>"

lemma azure_delay_wraps:
  "azure_sendProblem far_future = None"
  "press_send known stamp (AzureConsole far_future) = Delivers 1"
  "azure_bridge (the (azure_toSendInput far_future)) = Some r \<Longrightarrow> azure_Send r = Inr (entity, calls) \<Longrightarrow>
     calls = [AzureSend (azure_messageOf r)]"
proof -
  have ev: "trim (u ''orders'') = u ''orders''" "TrimSpace (u ''orders'') = u ''orders''"
    by (simp_all add: u_def trim_def trim_start_def trim_end_def is_ws_def TrimSpace_def trim_by_def go_space_def)
  have f: "az_entity far_future = u ''orders''" "az_delaySec far_future = Fin 9300000000" "az_count far_future = Fin 1"
      "az_properties far_future = []"
    by (simp_all add: far_future_def emptyServiceBusProducerDraft_def)
  have j: "json_int (Fin 9300000000) = Some 9300000000" using json_int_of_int [of 9300000000] by simp
  have w: "sint (seconds 9300000000) < 0"
  proof -
    have "seconds 9300000000 = word_of_int (9300000000 * 1000000000)" by (simp only: seconds_def wi_hom_mult) simp
    then show ?thesis by (simp add: int_word_sint)
  qed
  have name: "azure_requiredName (u ''orders'') = Inr (u ''orders'')"
    by (simp add: azure_requiredName_def ev) (simp add: u_def starts_with_def)
  show p: "azure_sendProblem far_future = None"
    by (simp add: azure_sendProblem_def f ev azure_MAX_COUNT_def nameless_def)
  show "press_send known stamp (AzureConsole far_future) = Delivers 1"
    using w by (simp add: azure_toSendInput_def p f ev azure_bridge_def j azure_Send_def name at_least_one_def Let_def)
  show "calls = [AzureSend (azure_messageOf r)]"
    if "azure_bridge (the (azure_toSendInput far_future)) = Some r" "azure_Send r = Inr (entity, calls)"
    using that w by (auto simp: azure_toSendInput_def p f ev azure_bridge_def j azure_Send_def name at_least_one_def Let_def)
qed

end
