(* ===== verification/Send_Brokers.thy ===== *)
theory Send_Brokers
  imports Header_Boxes Send_Cloud
begin

text \<open>
  The other send consoles and what their drivers make of the input: IBM MQ, Solace, RabbitMQ and
  Pulsar (\<open>mq/<family>/publish.ts\<close>), NATS, MQTT, Kafka, ActiveMQ and Redis
  (\<open>design/boards/producer\<close>); \<open>internal/driver/<family>\<close> up to the calls. Their numbers are texts
  until they are sent.
\<close>

section \<open>What the drivers refuse\<close>

datatype broker_refusal = NoTarget | LookupFailed | IsTopic | TooManyCopies | BadCorrelationId | BadTarget | BadDeliveryMode
  | NegativeTtl | EmptyToken | MisplacedWildcard | PartialWildcard | IsPattern | RepeatedRequest
  | TopicWildcard | BadQos | NeedsFive | NoFields | BadEntryId | IdWithCount

text \<open>An integer of a narrower Go type.\<close>

definition json_sized :: "int \<Rightarrow> int \<Rightarrow> jsnum \<Rightarrow> int option" where
  "json_sized lo hi x = (case json_int x of None \<Rightarrow> None | Some n \<Rightarrow> if lo \<le> n \<and> n < hi then Some n else None)"

text \<open>\<open>Number.isNaN(parsed) || parsed < 0 ? 0 : parsed\<close>\<close>

definition or_zero_below :: "jsnum \<Rightarrow> jsnum" where
  "or_zero_below parsed = (if parsed = NaN \<or> parsed < Fin 0 then Fin 0 else parsed)"

section \<open>IBM MQ\<close>

definition ibmmq_MAX_COUNT :: jsnum where "ibmmq_MAX_COUNT = Fin 100"

definition ibmmq_CONTENT_TYPES :: "jsstr list" where
  "ibmmq_CONTENT_TYPES = [u ''text/plain;charset=utf-8'', u ''application/json'']"

record IbmMqProducerDraft =
  mp_queue :: jsstr
  mp_body :: jsstr
  mp_contentType :: jsstr
  mp_correlationId :: jsstr
  mp_persistent :: bool
  mp_expirySeconds :: jsstr
  mp_count :: jsstr

definition emptyIbmMqProducerDraft :: IbmMqProducerDraft where
  "emptyIbmMqProducerDraft = \<lparr>mp_queue = [], mp_body = [], mp_contentType = hd ibmmq_CONTENT_TYPES, mp_correlationId = [],
     mp_persistent = False, mp_expirySeconds = [], mp_count = u ''1''\<rparr>"

datatype ibmmq_problem = QueueRequired | BodyRequired | CorrelationIdLength | CorrelationIdHex | CountRange

definition is_hex :: "int \<Rightarrow> bool" where
  "is_hex c \<longleftrightarrow> is_digit c \<or> (97 \<le> c \<and> c \<le> 102) \<or> (65 \<le> c \<and> c \<le> 70)"

definition ibmmq_sendProblem :: "IbmMqProducerDraft \<Rightarrow> ibmmq_problem option" where
  "ibmmq_sendProblem draft = (let correlation = trim (mp_correlationId draft); cnt = parse_int (mp_count draft) in
     if trim (mp_queue draft) = [] then Some QueueRequired
     else if mp_body draft = [] then Some BodyRequired
     else if correlation \<noteq> [] \<and> length correlation \<noteq> 48 then Some CorrelationIdLength
     else if correlation \<noteq> [] \<and> \<not> list_all is_hex correlation then Some CorrelationIdHex
     else if cnt = NaN \<or> cnt < Fin 1 \<or> ibmmq_MAX_COUNT < cnt then Some CountRange
     else None)"

record IBMMQPublishInput =
  mi_queue :: jsstr
  mi_body :: jsstr
  mi_contentType :: jsstr
  mi_correlationId :: jsstr
  mi_persistent :: bool
  mi_expirySeconds :: jsnum
  mi_properties :: "(jsstr \<times> jsstr) list"
  mi_count :: jsnum

definition ibmmq_toPublishInput :: "IbmMqProducerDraft \<Rightarrow> IBMMQPublishInput option" where
  "ibmmq_toPublishInput draft = (if ibmmq_sendProblem draft \<noteq> None then None
     else Some \<lparr>mi_queue = trim (mp_queue draft), mi_body = mp_body draft, mi_contentType = mp_contentType draft,
       mi_correlationId = trim (mp_correlationId draft), mi_persistent = mp_persistent draft,
       mi_expirySeconds = or_zero_below (parse_int (mp_expirySeconds draft)), mi_properties = [],
       mi_count = parse_int (mp_count draft)\<rparr>)"

text \<open>
  \<open>Publish\<close>: \<open>kind\<close> says what the queue manager has under a name, a queue or a topic, when the lookup
  succeeds. The headers of each request: correlation, persistence, expiry in tenths of a second.
\<close>

definition ibmmq_validHexIdentifier :: "jsstr \<Rightarrow> bool" where
  "ibmmq_validHexIdentifier s \<longleftrightarrow> length (encode s) = 48 \<and> list_all is_hex s"

definition ibmmq_Publish :: "(jsstr \<Rightarrow> bool option) \<Rightarrow> int \<times> int \<Rightarrow> IBMMQPublishInput
    \<Rightarrow> broker_refusal + (jsstr \<times> jsstr \<times> jsstr option \<times> bool \<times> 64 word option) list" where
  "ibmmq_Publish is_topic decoded i =
    (let queue = TrimSpace (mi_queue i); n = at_least_one (fst decoded); correlation = TrimSpace (mi_correlationId i);
       expiry = (if 0 < snd decoded then Some (word_of_int (snd decoded * 10)) else None) in
     if queue = [] then Inl NoTarget
     else (case is_topic queue of None \<Rightarrow> Inl LookupFailed
       | Some t \<Rightarrow> if t then Inl IsTopic
         else if 100 < n then Inl TooManyCopies
         else if correlation \<noteq> [] \<and> \<not> ibmmq_validHexIdentifier correlation then Inl BadCorrelationId
         else Inr (replicate (nat n) (queue, mi_body i, if_nonblank (mi_correlationId i), mi_persistent i, expiry))))"

section \<open>Solace\<close>

definition solace_MAX_COUNT :: jsnum where "solace_MAX_COUNT = Fin 100"

definition DELIVERY_MODES :: "jsstr list" where
  "DELIVERY_MODES = [u ''persistent'', u ''non-persistent'', u ''direct'']"

definition solace_CONTENT_TYPES :: "jsstr list" where
  "solace_CONTENT_TYPES = [u ''text/plain;charset=utf-8'', u ''application/json'', u ''application/octet-stream'']"

datatype SendTarget = ToQueue | ToTopic

record SolaceProducerDraft =
  so_target :: SendTarget
  so_destination :: jsstr
  so_body :: jsstr
  so_contentType :: jsstr
  so_deliveryMode :: jsstr
  so_timeToLiveMs :: jsstr
  so_dmqEligible :: bool
  so_correlationId :: jsstr
  so_replyTo :: jsstr
  so_count :: jsstr

definition emptySolaceProducerDraft :: SolaceProducerDraft where
  "emptySolaceProducerDraft = \<lparr>so_target = ToQueue, so_destination = [], so_body = [], so_contentType = hd solace_CONTENT_TYPES,
     so_deliveryMode = u ''persistent'', so_timeToLiveMs = [], so_dmqEligible = False, so_correlationId = [], so_replyTo = [],
     so_count = u ''1''\<rparr>"

datatype solace_problem = DestinationRequired | SolaceBodyRequired | DeliveryMode | TtlRange | SolaceCountRange

definition solace_sendProblem :: "SolaceProducerDraft \<Rightarrow> solace_problem option" where
  "solace_sendProblem draft = (let ttl = trim (so_timeToLiveMs draft); parsed = parse_int ttl; cnt = parse_int (so_count draft) in
     if trim (so_destination draft) = [] then Some DestinationRequired
     else if so_body draft = [] then Some SolaceBodyRequired
     else if so_deliveryMode draft \<notin> set DELIVERY_MODES then Some DeliveryMode
     else if ttl \<noteq> [] \<and> (parsed = NaN \<or> parsed < Fin 0) then Some TtlRange
     else if cnt = NaN \<or> cnt < Fin 1 \<or> solace_MAX_COUNT < cnt then Some SolaceCountRange
     else None)"

record SolacePublishInput =
  sp_target :: SendTarget
  sp_destination :: jsstr
  sp_body :: jsstr
  sp_contentType :: jsstr
  sp_deliveryMode :: jsstr
  sp_timeToLiveMs :: jsnum
  sp_dmqEligible :: bool
  sp_correlationId :: jsstr
  sp_replyTo :: jsstr
  sp_properties :: "(jsstr \<times> jsstr) list"
  sp_count :: jsnum

definition solace_toPublishInput :: "SolaceProducerDraft \<Rightarrow> SolacePublishInput option" where
  "solace_toPublishInput draft = (if solace_sendProblem draft \<noteq> None then None
     else Some \<lparr>sp_target = so_target draft, sp_destination = trim (so_destination draft), sp_body = so_body draft,
       sp_contentType = so_contentType draft, sp_deliveryMode = so_deliveryMode draft,
       sp_timeToLiveMs = or_zero_below (parse_int (so_timeToLiveMs draft)), sp_dmqEligible = so_dmqEligible draft,
       sp_correlationId = trim (so_correlationId draft), sp_replyTo = trim (so_replyTo draft), sp_properties = [],
       sp_count = parse_int (so_count draft)\<rparr>)"

text \<open>
  \<open>Publish\<close> on a connection that has a messaging interface. \<open>lower\<close> is Go's \<open>strings.ToLower\<close>. A call
  is the target, the destination, the mode and what of the time to live is sent.
\<close>

fun target_text :: "SendTarget \<Rightarrow> jsstr" where
  "target_text ToQueue = u ''queue''"
| "target_text ToTopic = u ''topic''"

definition solace_sendPath :: "(jsstr \<Rightarrow> jsstr) \<Rightarrow> jsstr \<Rightarrow> SendTarget option" where
  "solace_sendPath lower target = (let t = TrimSpace (lower target) in
     if t = u ''queue'' then Some ToQueue else if t = u ''topic'' \<or> t = [] then Some ToTopic else None)"

definition solace_deliveryMode :: "(jsstr \<Rightarrow> jsstr) \<Rightarrow> jsstr \<Rightarrow> jsstr option" where
  "solace_deliveryMode lower mode = (let trimmed = TrimSpace (lower mode) in
     if trimmed = [] then Some (u ''persistent'') else if trimmed \<in> set DELIVERY_MODES then Some trimmed else None)"

definition solace_Publish :: "(jsstr \<Rightarrow> jsstr) \<Rightarrow> int \<times> int \<Rightarrow> SolacePublishInput
    \<Rightarrow> broker_refusal + (SendTarget \<times> jsstr \<times> jsstr \<times> jsstr \<times> int option) list" where
  "solace_Publish lower decoded i =
    (let destination = TrimSpace (sp_destination i); n = at_least_one (fst decoded); ttl = snd decoded in
     if destination = [] then Inl NoTarget
     else (case solace_sendPath lower (target_text (sp_target i)) of None \<Rightarrow> Inl BadTarget
       | Some path \<Rightarrow> (case solace_deliveryMode lower (sp_deliveryMode i) of None \<Rightarrow> Inl BadDeliveryMode
         | Some mode \<Rightarrow> if ttl < 0 then Inl NegativeTtl
           else if 100 < n then Inl TooManyCopies
           else Inr (replicate (nat n) (path, destination, sp_body i, mode, if 0 < ttl then Some ttl else None)))))"

section \<open>NATS\<close>

record NatsProducerDraft =
  nd_subject :: jsstr
  nd_payload :: jsstr
  nd_headers :: jsstr
  nd_count :: jsstr
  nd_persist :: bool
  nd_expectStream :: jsstr
  nd_deduplicationId :: jsstr
  nd_replyTimeoutMs :: jsstr

definition emptyNatsProducerDraft :: NatsProducerDraft where
  "emptyNatsProducerDraft = \<lparr>nd_subject = [], nd_payload = [], nd_headers = [], nd_count = u ''1'', nd_persist = False,
     nd_expectStream = [], nd_deduplicationId = [], nd_replyTimeoutMs = []\<rparr>"

definition is_wildcard :: "int \<Rightarrow> bool" where
  "is_wildcard c \<longleftrightarrow> c = 42 \<or> c = 62"

abbreviation dot :: int where "dot \<equiv> 46"

definition nats_producerDraftError :: "NatsProducerDraft \<Rightarrow> string option" where
  "nats_producerDraftError draft =
    (let subject = trim (nd_subject draft); cnt = parse_int (trim (nd_count draft)); wait = trim (nd_replyTimeoutMs draft);
       parsed = parse_int wait in
     if subject = [] then Some ''subjectRequired''
     else if list_ex is_wildcard subject then Some ''subjectIsPattern''
     else if list_ex is_ws subject then Some ''subjectInvalid''
     else if list_ex (\<lambda>token. token = []) (split_on dot subject) then Some ''subjectInvalid''
     else if cnt = NaN \<or> cnt < Fin 1 \<or> Fin 1000 < cnt then Some ''countInvalid''
     else if wait \<noteq> [] \<and> (parsed = NaN \<or> parsed \<le> Fin 0) then Some ''waitInvalid''
     else if wait \<noteq> [] \<and> Fin 1 < cnt then Some ''requestCannotRepeat''
     else if \<not> nd_persist draft \<and> trim (nd_expectStream draft) \<noteq> [] then Some ''expectNeedsPersist''
     else if \<not> nd_persist draft \<and> trim (nd_deduplicationId draft) \<noteq> [] then Some ''dedupNeedsPersist''
     else if read_box NatsBox (nd_headers draft) = None then Some ''headersInvalid''
     else None)"

record NATSPublishInput =
  np_subject :: jsstr
  np_payload :: jsstr
  np_headers :: "(jsstr \<times> jsstr) list"
  np_count :: jsnum
  np_persist :: bool
  np_expectStream :: jsstr
  np_deduplicationId :: jsstr
  np_replyTimeoutMs :: jsnum

definition nats_toPublishInput :: "NatsProducerDraft \<Rightarrow> NATSPublishInput" where
  "nats_toPublishInput draft =
    \<lparr>np_subject = trim (nd_subject draft), np_payload = nd_payload draft, np_headers = nullish (read_box NatsBox (nd_headers draft)) [],
     np_count = parse_int (trim (nd_count draft)), np_persist = nd_persist draft,
     np_expectStream = (if nd_persist draft then trim (nd_expectStream draft) else []),
     np_deduplicationId = (if nd_persist draft then trim (nd_deduplicationId draft) else []),
     np_replyTimeoutMs = (if trim (nd_replyTimeoutMs draft) = [] then Fin 0 else parse_int (trim (nd_replyTimeoutMs draft)))\<rparr>"

text \<open>The driver: \<open>validateSubject\<close> and \<open>validatePublishSubject\<close>, then one of three ways to send.\<close>

fun nats_tokens :: "jsstr list \<Rightarrow> broker_refusal option" where
  "nats_tokens [] = None"
| "nats_tokens (token # rest) =
    (if token = [] then Some EmptyToken
     else if token = [62] \<and> rest \<noteq> [] then Some MisplacedWildcard
     else if token \<noteq> [42] \<and> token \<noteq> [62] \<and> list_ex is_wildcard token then Some PartialWildcard
     else nats_tokens rest)"

definition nats_validateSubject :: "jsstr \<Rightarrow> broker_refusal option" where
  "nats_validateSubject subject = (if subject = [] then Some NoTarget else nats_tokens (split_on dot subject))"

definition nats_validatePublishSubject :: "jsstr \<Rightarrow> broker_refusal option" where
  "nats_validatePublishSubject subject = (case nats_validateSubject subject of Some e \<Rightarrow> Some e
     | None \<Rightarrow> if list_ex is_wildcard subject then Some IsPattern else None)"

datatype nats_send = NatsRequest jsstr int | NatsToStream jsstr nat jsstr jsstr | NatsCore jsstr nat

definition nats_Publish :: "int \<times> int \<Rightarrow> NATSPublishInput \<Rightarrow> broker_refusal + nats_send" where
  "nats_Publish decoded i =
    (let subject = TrimSpace (np_subject i); n = at_least_one (fst decoded); wait = snd decoded in
     if subject = [] then Inl NoTarget
     else (case nats_validatePublishSubject subject of Some e \<Rightarrow> Inl e
       | None \<Rightarrow> if 1000 < n then Inl TooManyCopies
         else if 0 < wait then (if 1 < n then Inl RepeatedRequest else Inr (NatsRequest subject wait))
         else if np_persist i then Inr (NatsToStream subject (nat n) (np_expectStream i) (np_deduplicationId i))
         else Inr (NatsCore subject (nat n))))"

section \<open>MQTT\<close>

record MqttSendDraft =
  md_topic :: jsstr
  md_payload :: jsstr
  md_qos :: jsstr
  md_retain :: bool
  md_count :: jsstr
  md_contentType :: jsstr
  md_responseTopic :: jsstr
  md_correlationData :: jsstr
  md_messageExpiry :: jsstr
  md_userProperties :: jsstr

definition emptyMqttSendDraft :: MqttSendDraft where
  "emptyMqttSendDraft = \<lparr>md_topic = [], md_payload = [], md_qos = u ''1'', md_retain = False, md_count = u ''1'', md_contentType = [],
     md_responseTopic = [], md_correlationData = [], md_messageExpiry = [], md_userProperties = []\<rparr>"

definition mqtt_hasWildcard :: "jsstr \<Rightarrow> bool" where
  "mqtt_hasWildcard topic \<longleftrightarrow> includes_str topic (u ''+'') \<or> includes_str topic (u ''#'')"

definition mqtt_MAX_COUNT :: jsnum where "mqtt_MAX_COUNT = Fin 1000"

definition usesFiveProperties :: "MqttSendDraft \<Rightarrow> bool" where
  "usesFiveProperties draft \<longleftrightarrow> trim (md_contentType draft) \<noteq> [] \<or> trim (md_responseTopic draft) \<noteq> []
     \<or> trim (md_correlationData draft) \<noteq> [] \<or> trim (md_messageExpiry draft) \<noteq> [] \<or> trim (md_userProperties draft) \<noteq> []"

definition validateMqttSendDraft :: "MqttSendDraft \<Rightarrow> bool \<Rightarrow> string option" where
  "validateMqttSendDraft draft protocol5 =
    (let cnt = parse_int (md_count draft); expiry = parse_int (md_messageExpiry draft) in
     if trim (md_topic draft) = [] then Some ''topicRequired''
     else if mqtt_hasWildcard (md_topic draft) then Some ''topicWildcard''
     else if cnt = NaN \<or> cnt < Fin 1 \<or> mqtt_MAX_COUNT < cnt then Some ''countInvalid''
     else if trim (md_messageExpiry draft) \<noteq> [] \<and> (expiry = NaN \<or> expiry < Fin 0) then Some ''expiryInvalid''
     else if read_box MqttBox (md_userProperties draft) = None then Some ''propertyLine''
     else if \<not> protocol5 \<and> usesFiveProperties draft then Some ''needsFive''
     else None)"

record MQTTPublishInput =
  mt_topic :: jsstr
  mt_payload :: jsstr
  mt_qos :: jsnum
  mt_retain :: bool
  mt_count :: jsnum
  mt_contentType :: jsstr
  mt_responseTopic :: jsstr
  mt_correlationData :: jsstr
  mt_messageExpiry :: jsnum
  mt_userProperties :: "(jsstr \<times> jsstr) list"

definition toMqttPublishInput :: "MqttSendDraft \<Rightarrow> bool \<Rightarrow> MQTTPublishInput" where
  "toMqttPublishInput draft protocol5 = (let expiry = parse_int (md_messageExpiry draft) in
    \<lparr>mt_topic = trim (md_topic draft), mt_payload = md_payload draft, mt_qos = parse_int (md_qos draft),
     mt_retain = md_retain draft, mt_count = parse_int (md_count draft),
     mt_contentType = (if protocol5 then trim (md_contentType draft) else []),
     mt_responseTopic = (if protocol5 then trim (md_responseTopic draft) else []),
     mt_correlationData = (if protocol5 then trim (md_correlationData draft) else []),
     mt_messageExpiry = (if protocol5 \<and> expiry \<noteq> NaN then expiry else Fin 0),
     mt_userProperties = (if protocol5 then nullish (read_box MqttBox (md_userProperties draft)) [] else [])\<rparr>)"

definition mqtt_refuseV5Properties :: "MQTTPublishInput \<Rightarrow> int \<Rightarrow> bool" where
  "mqtt_refuseV5Properties i expiry \<longleftrightarrow> mt_contentType i \<noteq> [] \<or> mt_responseTopic i \<noteq> [] \<or> mt_correlationData i \<noteq> []
     \<or> expiry \<noteq> 0 \<or> mt_userProperties i \<noteq> []"

text \<open>The quality of service, the count and the expiry as decoded: a byte, an \<open>int\<close>, a \<open>uint32\<close>.\<close>

definition mqtt_bridge :: "MQTTPublishInput \<Rightarrow> (int \<times> int \<times> int) option" where
  "mqtt_bridge i = (case (json_sized 0 256 (mt_qos i), json_int (mt_count i), json_sized 0 (2 ^ 32) (mt_messageExpiry i)) of
     (Some q, Some n, Some x) \<Rightarrow> Some (q, n, x) | _ \<Rightarrow> None)"

fun mqtt_Publish :: "bool \<Rightarrow> int \<times> int \<times> int \<Rightarrow> MQTTPublishInput \<Rightarrow> broker_refusal + nat" where
  "mqtt_Publish v5 (qos, n, expiry) i =
    (if mt_topic i = [] then Inl NoTarget
     else if list_ex (\<lambda>c. c = 43 \<or> c = 35) (mt_topic i) then Inl TopicWildcard
     else if 2 < qos then Inl BadQos
     else if 1000 < n then Inl TooManyCopies
     else if \<not> v5 \<and> mqtt_refuseV5Properties i expiry then Inl NeedsFive
     else Inr (nat (at_least_one n)))"

section \<open>The consoles together\<close>

datatype broker_console = IbmMqConsole IbmMqProducerDraft | SolaceConsole SolaceProducerDraft
  | NatsConsole NatsProducerDraft | MqttConsole MqttSendDraft bool

fun broker_refused :: "broker_console \<Rightarrow> bool" where
  "broker_refused (IbmMqConsole d) \<longleftrightarrow> ibmmq_sendProblem d \<noteq> None"
| "broker_refused (SolaceConsole d) \<longleftrightarrow> solace_sendProblem d \<noteq> None"
| "broker_refused (NatsConsole d) \<longleftrightarrow> nats_producerDraftError d \<noteq> None"
| "broker_refused (MqttConsole d protocol5) \<longleftrightarrow> validateMqttSendDraft d protocol5 \<noteq> None"

fun broker_count :: "broker_console \<Rightarrow> jsnum" where
  "broker_count (IbmMqConsole d) = parse_int (mp_count d)"
| "broker_count (SolaceConsole d) = parse_int (so_count d)"
| "broker_count (NatsConsole d) = parse_int (trim (nd_count d))"
| "broker_count (MqttConsole d protocol5) = parse_int (md_count d)"

text \<open>The other number of the form: an expiry, a time to live, a wait.\<close>

fun broker_time :: "broker_console \<Rightarrow> jsnum" where
  "broker_time (IbmMqConsole d) = parse_int (mp_expirySeconds d)"
| "broker_time (SolaceConsole d) = parse_int (so_timeToLiveMs d)"
| "broker_time (NatsConsole d) = parse_int (trim (nd_replyTimeoutMs d))"
| "broker_time (MqttConsole d protocol5) = parse_int (md_messageExpiry d)"

fun broker_target :: "broker_console \<Rightarrow> jsstr" where
  "broker_target (IbmMqConsole d) = mp_queue d"
| "broker_target (SolaceConsole d) = so_destination d"
| "broker_target (NatsConsole d) = nd_subject d"
| "broker_target (MqttConsole d protocol5) = md_topic d"

fun nats_messages :: "nats_send \<Rightarrow> nat" where
  "nats_messages (NatsRequest subject wait) = 1"
| "nats_messages (NatsToStream subject n stream dedup) = n"
| "nats_messages (NatsCore subject n) = n"

fun broker_press :: "(jsstr \<Rightarrow> bool option) \<Rightarrow> (jsstr \<Rightarrow> jsstr) \<Rightarrow> broker_console \<Rightarrow> broker_refusal outcome" where
  "broker_press is_topic lower (IbmMqConsole d) = (case ibmmq_toPublishInput d of None \<Rightarrow> NotSubmitted
     | Some i \<Rightarrow> (case (json_int (mi_count i), json_int (mi_expirySeconds i)) of
         (Some n, Some x) \<Rightarrow> outcome_of length (ibmmq_Publish is_topic (n, x) i) | _ \<Rightarrow> Undecodable))"
| "broker_press is_topic lower (SolaceConsole d) = (case solace_toPublishInput d of None \<Rightarrow> NotSubmitted
     | Some i \<Rightarrow> (case (json_int (sp_count i), json_int (sp_timeToLiveMs i)) of
         (Some n, Some x) \<Rightarrow> outcome_of length (solace_Publish lower (n, x) i) | _ \<Rightarrow> Undecodable))"
| "broker_press is_topic lower (NatsConsole d) = (if nats_producerDraftError d \<noteq> None then NotSubmitted
     else (case (json_int (np_count (nats_toPublishInput d)), json_int (np_replyTimeoutMs (nats_toPublishInput d))) of
         (Some n, Some x) \<Rightarrow> outcome_of nats_messages (nats_Publish (n, x) (nats_toPublishInput d)) | _ \<Rightarrow> Undecodable))"
| "broker_press is_topic lower (MqttConsole d protocol5) = (if validateMqttSendDraft d protocol5 \<noteq> None then NotSubmitted
     else (case mqtt_bridge (toMqttPublishInput d protocol5) of None \<Rightarrow> Undecodable
       | Some r \<Rightarrow> outcome_of id (mqtt_Publish protocol5 r (toMqttPublishInput d protocol5))))"

text \<open>What the form itself cannot type: a quality of service is picked from a list.\<close>

fun broker_picked :: "broker_console \<Rightarrow> bool" where
  "broker_picked (MqttConsole d protocol5) \<longleftrightarrow> md_qos d \<in> {u ''0'', u ''1'', u ''2''}"
| "broker_picked _ \<longleftrightarrow> True"

lemma text_count:
  assumes "parse_int s \<noteq> NaN" and "\<not> parse_int s < Fin 1" and "\<not> Fin (of_int b) < parse_int s" and "0 \<le> b" and "b < 2 ^ 53"
  shows "\<exists>n. parse_int s = Fin (of_int n) \<and> 1 \<le> n \<and> n \<le> b \<and> json_int (parse_int s) = Some n \<and> at_least_one n = n"
proof -
  have x: "Fin 1 \<le> parse_int s" "parse_int s \<le> Fin (of_int b)" using assms by (simp_all add: jsnum_not_less)
  have "Fin 0 \<le> parse_int s" using x(1) by (rule jsnum_le_trans [rotated]) simp
  then obtain n where n: "parse_int s = Fin (of_int n)" "n \<le> b" using parse_int_small [of s b] x(2) assms(5) by blast
  moreover have "1 \<le> n" using x(1) by (simp add: n(1))
  ultimately have "json_int (parse_int s) = Some n \<and> at_least_one n = n"
    unfolding n(1) json_int_of_int using assms(5) by (simp add: at_least_one_def)
  then show ?thesis using n \<open>1 \<le> n\<close> by blast
qed

lemma text_time:
  assumes "x = parse_int s" and "x \<noteq> NaN" and "\<not> x < Fin 0" and "x \<le> Fin 4294967295"
  shows "\<exists>n. x = Fin (of_int n) \<and> 0 \<le> n \<and> n \<le> 4294967295 \<and> json_int x = Some n \<and> json_sized 0 (2 ^ 32) x = Some n"
proof -
  have "Fin 0 \<le> x" using assms(2,3) by (simp add: jsnum_not_less)
  then obtain n where n: "x = Fin (of_int n)" "0 \<le> n" "n \<le> 4294967295" using parse_int_small [of s 4294967295] assms(1,4) by auto
  then have "json_int x = Some n" by (simp only: json_int_of_int) simp
  then show ?thesis using n by (simp add: json_sized_def)
qed

lemma or_zero_time:
  assumes "x = NaN \<or> x \<le> Fin 4294967295" and "x = parse_int s"
  shows "\<exists>n. or_zero_below x = Fin (of_int n) \<and> 0 \<le> n \<and> json_int (or_zero_below x) = Some n"
proof (cases "x = NaN \<or> x < Fin 0")
  case True
  then have "or_zero_below x = Fin (of_int 0)" by (simp add: or_zero_below_def)
  then show ?thesis by (metis json_int_numeral(1) of_int_0 order_refl)
next
  case False
  then show ?thesis using text_time [of x s] assms by (auto simp: or_zero_below_def)
qed

lemma encode_hex: "list_all is_hex s \<Longrightarrow> encode s = s"
  by (induction s rule: encode.induct) (auto simp: is_hex_def is_digit_def is_high_def is_low_def utf8_def)

lemma ibmmq_press:
  assumes "ibmmq_sendProblem d = None" and "133 \<notin> set (mp_queue d)"
    and "parse_int (mp_expirySeconds d) = NaN \<or> parse_int (mp_expirySeconds d) \<le> Fin 4294967295"
  shows "\<exists>n. broker_count (IbmMqConsole d) = Fin (of_int n) \<and> 1 \<le> n \<and> n \<le> 100
    \<and> broker_press is_topic lower (IbmMqConsole d) =
        (case is_topic (trim (mp_queue d)) of None \<Rightarrow> Refused LookupFailed | Some t \<Rightarrow> if t then Refused IsTopic else Delivers (nat n))"
proof -
  let ?c = "trim (mp_correlationId d)"
  have p: "trim (mp_queue d) \<noteq> []" "?c \<noteq> [] \<Longrightarrow> length ?c = 48 \<and> list_all is_hex ?c" "parse_int (mp_count d) \<noteq> NaN"
      "\<not> parse_int (mp_count d) < Fin 1" "\<not> Fin (of_int 100) < parse_int (mp_count d)"
    using assms(1) by (auto simp: ibmmq_sendProblem_def ibmmq_MAX_COUNT_def Let_def split: if_splits)
  from text_count [OF p(3,4,5)] obtain n where n: "parse_int (mp_count d) = Fin (of_int n)" "1 \<le> n" "n \<le> 100"
    "json_int (parse_int (mp_count d)) = Some n" "at_least_one n = n" by auto
  from or_zero_time [OF assms(3) refl] obtain x where x: "json_int (or_zero_below (parse_int (mp_expirySeconds d))) = Some x" by blast
  have hex: "TrimSpace ?c = ?c \<and> ibmmq_validHexIdentifier ?c" if "?c \<noteq> []"
  proof -
    have h: "hd ?c \<in> set ?c" "last ?c \<in> set ?c" "list_all is_hex ?c" using that p(2) by simp_all
    then have "is_hex (hd ?c)" "is_hex (last ?c)" by (simp_all only: list_all_iff)
    then have "TrimSpace ?c = ?c" unfolding TrimSpace_def
      by (intro trim_by_idle) (auto simp: is_hex_def is_digit_def go_space_def is_ws_def)
    then show ?thesis using p(2) [OF that] by (simp add: ibmmq_validHexIdentifier_def encode_hex)
  qed
  have e: "TrimSpace [] = []" by (simp add: TrimSpace_def trim_by_def)
  have "broker_press is_topic lower (IbmMqConsole d) =
        (case is_topic (trim (mp_queue d)) of None \<Rightarrow> Refused LookupFailed | Some t \<Rightarrow> if t then Refused IsTopic else Delivers (nat n))"
    using assms(1) p(1) n x TrimSpace_trim [OF assms(2)] hex e
    by (cases "?c = []") (auto simp: ibmmq_toPublishInput_def ibmmq_Publish_def Let_def split: option.split)
  then show ?thesis using n by auto
qed

lemma solace_press:
  assumes "solace_sendProblem d = None" and "133 \<notin> set (so_destination d)"
    and "parse_int (so_timeToLiveMs d) = NaN \<or> parse_int (so_timeToLiveMs d) \<le> Fin 4294967295"
    and "\<And>w. list_all (\<lambda>c. (97 \<le> c \<and> c \<le> 122) \<or> c = 45) w \<Longrightarrow> lower w = w"
  shows "\<exists>n. broker_count (SolaceConsole d) = Fin (of_int n) \<and> 1 \<le> n \<and> n \<le> 100
    \<and> broker_press is_topic lower (SolaceConsole d) = Delivers (nat n)"
proof -
  have p: "trim (so_destination d) \<noteq> []" "so_deliveryMode d \<in> set DELIVERY_MODES" "parse_int (so_count d) \<noteq> NaN"
      "\<not> parse_int (so_count d) < Fin 1" "\<not> Fin (of_int 100) < parse_int (so_count d)"
    using assms(1) by (auto simp: solace_sendProblem_def solace_MAX_COUNT_def Let_def split: if_splits)
  from text_count [OF p(3,4,5)] obtain n where n: "parse_int (so_count d) = Fin (of_int n)" "1 \<le> n" "n \<le> 100"
    "json_int (parse_int (so_count d)) = Some n" "at_least_one n = n" by auto
  from or_zero_time [OF assms(3) refl] obtain x where x: "0 \<le> x" "json_int (or_zero_below (parse_int (so_timeToLiveMs d))) = Some x" by blast
  have word: "TrimSpace (lower w) = w" if "list_all (\<lambda>c. (97 \<le> c \<and> c \<le> 122) \<or> c = 45) w" for w
  proof -
    have "w = [] \<or> \<not> go_space (hd w) \<and> \<not> go_space (last w)"
      using that by (cases "w = []") (auto simp: list_all_iff go_space_def is_ws_def dest: bspec [OF _ hd_in_set] bspec [OF _ last_in_set])
    then show ?thesis using assms(4) [OF that] by (simp add: TrimSpace_def trim_by_idle)
  qed
  have path: "solace_sendPath lower (target_text t) = Some t" for t
    using word [of "target_text t"] by (cases t) (simp_all add: solace_sendPath_def u_def Let_def)
  have "list_all (\<lambda>c. (97 \<le> c \<and> c \<le> 122) \<or> c = 45) (so_deliveryMode d)" "so_deliveryMode d \<noteq> []"
    using p(2) by (auto simp: DELIVERY_MODES_def u_def)
  then have mode: "solace_deliveryMode lower (so_deliveryMode d) = Some (so_deliveryMode d)"
    using word p(2) by (simp add: solace_deliveryMode_def Let_def)
  have "broker_press is_topic lower (SolaceConsole d) = Delivers (nat n)"
    using assms(1) p(1) n x TrimSpace_trim [OF assms(2)] path mode
    by (simp add: solace_toPublishInput_def solace_Publish_def Let_def)
  then show ?thesis using n by auto
qed

lemma set_split_on: "w \<in> set (split_on c s) \<Longrightarrow> set w \<subseteq> set s"
proof (induction s arbitrary: w)
  case (Cons x xs)
  show ?case
  proof (cases "split_on c xs")
    case (Cons y ys)
    then have y: "set y \<subseteq> set xs" "\<And>w. w \<in> set ys \<Longrightarrow> set w \<subseteq> set xs" using Cons.IH by auto
    show ?thesis using Cons.prems Cons y by (auto split: if_splits)
  qed simp
qed simp

lemma plain_tokens: "list_all (\<lambda>t. t \<noteq> [] \<and> \<not> list_ex is_wildcard t) ts \<Longrightarrow> nats_tokens ts = None"
  by (induction ts) (auto simp: is_wildcard_def)

lemma nats_subject_passes:
  assumes "s \<noteq> []" and "\<not> list_ex is_wildcard s" and "\<not> list_ex (\<lambda>token. token = []) (split_on dot s)"
  shows "nats_validatePublishSubject s = None"
proof -
  have "list_all (\<lambda>t. t \<noteq> [] \<and> \<not> list_ex is_wildcard t) (split_on dot s)"
    using assms(2,3) set_split_on [of _ dot s] by (fastforce simp: list_all_iff list_ex_iff)
  then show ?thesis using assms(1,2) by (simp add: nats_validatePublishSubject_def nats_validateSubject_def plain_tokens)
qed

lemma nats_press:
  assumes "nats_producerDraftError d = None" and "133 \<notin> set (nd_subject d)"
    and "parse_int (trim (nd_replyTimeoutMs d)) = NaN \<or> parse_int (trim (nd_replyTimeoutMs d)) \<le> Fin 4294967295"
  shows "\<exists>n. broker_count (NatsConsole d) = Fin (of_int n) \<and> 1 \<le> n \<and> n \<le> 1000
    \<and> broker_press is_topic lower (NatsConsole d) = Delivers (nat n)"
proof -
  let ?w = "trim (nd_replyTimeoutMs d)" and ?s = "trim (nd_subject d)"
  have p: "?s \<noteq> []" "\<not> list_ex is_wildcard ?s" "\<not> list_ex (\<lambda>token. token = []) (split_on dot ?s)"
      "parse_int (trim (nd_count d)) \<noteq> NaN" "\<not> parse_int (trim (nd_count d)) < Fin 1"
      "\<not> Fin (of_int 1000) < parse_int (trim (nd_count d))"
      "?w \<noteq> [] \<Longrightarrow> parse_int ?w \<noteq> NaN \<and> \<not> parse_int ?w \<le> Fin 0 \<and> \<not> Fin 1 < parse_int (trim (nd_count d))"
    using assms(1) by (auto simp: nats_producerDraftError_def Let_def split: if_splits)
  from text_count [OF p(4,5,6)] obtain n where n: "parse_int (trim (nd_count d)) = Fin (of_int n)" "1 \<le> n" "n \<le> 1000"
    "json_int (parse_int (trim (nd_count d))) = Some n" "at_least_one n = n" by auto
  note subject = nats_subject_passes [OF p(1,2,3)] TrimSpace_trim [OF assms(2)]
  show ?thesis
  proof (cases "?w = []")
    case True
    have "broker_press is_topic lower (NatsConsole d) = Delivers (nat n)"
      using assms(1) p(1) n subject True by (simp add: nats_toPublishInput_def nats_Publish_def Let_def)
    then show ?thesis using n by auto
  next
    case False
    have w: "parse_int ?w \<noteq> NaN" "\<not> parse_int ?w < Fin 0" using p(7) [OF False] jsnum_less_imp_le by auto
    from text_time [OF refl w] assms(3) p(7) [OF False] obtain x where x: "parse_int ?w = Fin (of_int x)" "0 \<le> x" "json_int (parse_int ?w) = Some x"
      by auto
    have "0 < x" using p(7) [OF False] x(1,2) by simp
    moreover have "n = 1" using p(7) [OF False] n(1,2) by simp
    ultimately have "broker_press is_topic lower (NatsConsole d) = Delivers (nat n)"
      using assms(1) p(1) n subject False x by (simp add: nats_toPublishInput_def nats_Publish_def Let_def)
    then show ?thesis using n by auto
  qed
qed

lemma includes_char: "includes_str s [c] \<longleftrightarrow> c \<in> set s"
  by (induction s) (auto simp: starts_with_def)

lemma set_trim: "set (trim s) \<subseteq> set s"
  by (simp add: trim_by_is_ws set_trim_by)

lemma parse_digit: "parse_int (u ''0'') = Fin 0" "parse_int (u ''1'') = Fin 1" "parse_int (u ''2'') = Fin 2"
  by (simp_all add: u_def parse_eval trim_start_def is_ws_def is_digit_def digits_val_def)

lemma blank_box: "trim raw = [] \<Longrightarrow> read_box MqttBox raw = Some []"
proof -
  assume "trim raw = []"
  then have "\<forall>c \<in> set raw. is_ws c" by (simp add: trim_empty_iff)
  then have "\<forall>l \<in> set (split_on newline raw). trim l = []"
    using set_split_on [of _ newline raw] by (fastforce simp: trim_empty_iff)
  then have "for_lines mqtt_line (split_on newline raw) [] = Inr []"
    by (simp add: mqtt_box.run_lines list_all_iff mqtt_box.accepts_def mqtt_box.pairs_def filter_False)
  then show ?thesis by (simp add: box_defs)
qed

lemma mqtt_press:
  assumes "validateMqttSendDraft d protocol5 = None" and "md_qos d \<in> {u ''0'', u ''1'', u ''2''}"
    and "parse_int (md_messageExpiry d) = NaN \<or> parse_int (md_messageExpiry d) \<le> Fin 4294967295"
  shows "\<exists>n. broker_count (MqttConsole d protocol5) = Fin (of_int n) \<and> 1 \<le> n \<and> n \<le> 1000
    \<and> broker_press is_topic lower (MqttConsole d protocol5) = Delivers (nat n)"
proof -
  let ?e = "parse_int (md_messageExpiry d)"
  have p: "trim (md_topic d) \<noteq> []" "\<not> mqtt_hasWildcard (md_topic d)" "parse_int (md_count d) \<noteq> NaN"
      "\<not> parse_int (md_count d) < Fin 1" "\<not> Fin (of_int 1000) < parse_int (md_count d)"
      "trim (md_messageExpiry d) \<noteq> [] \<Longrightarrow> ?e \<noteq> NaN \<and> \<not> ?e < Fin 0"
    using assms(1) by (auto simp: validateMqttSendDraft_def mqtt_MAX_COUNT_def Let_def split: if_splits)
  from text_count [OF p(3,4,5)] obtain n where n: "parse_int (md_count d) = Fin (of_int n)" "1 \<le> n" "n \<le> 1000"
    "json_int (parse_int (md_count d)) = Some n" "at_least_one n = n" by auto
  have "set (trim (md_topic d)) \<subseteq> set (md_topic d)" by (rule set_trim)
  then have topic: "\<not> list_ex (\<lambda>c. c = 43 \<or> c = 35) (trim (md_topic d))"
    using p(2) by (auto simp: mqtt_hasWildcard_def list_ex_iff u_def includes_char)
  obtain q where q: "json_sized 0 256 (parse_int (md_qos d)) = Some q" "q \<le> 2"
    using assms(2) by (auto simp: parse_digit json_sized_def)
  have blank: "?e = NaN" if "trim (md_messageExpiry d) = []"
  proof -
    have "trim_start (md_messageExpiry d) = []" using that by (simp add: trim_empty_iff trim_start_def dropWhile_eq_Nil_conv)
    then show ?thesis by (simp add: parse_int_def)
  qed
  have e: "?e \<noteq> NaN \<Longrightarrow> \<not> ?e < Fin 0" using p(6) blank by blast
  let ?sent = "if protocol5 \<and> ?e \<noteq> NaN then ?e else Fin 0"
  obtain x where x: "json_sized 0 (2 ^ 32) ?sent = Some x" "\<not> protocol5 \<Longrightarrow> x = 0"
  proof (cases "protocol5 \<and> ?e \<noteq> NaN")
    case True
    then show ?thesis using text_time [OF refl _ e] assms(3) that by auto
  next
    case False
    then show ?thesis using that [of 0] by (simp add: json_sized_def)
  qed
  have "broker_press is_topic lower (MqttConsole d protocol5) = Delivers (nat n)"
    using assms(1) p(1) n topic q x
    by (cases protocol5) (simp_all add: toMqttPublishInput_def mqtt_bridge_def mqtt_refuseV5Properties_def Let_def)
  then show ?thesis using n by auto
qed

text \<open>The most messages a family sends at once.\<close>

fun broker_cap :: "broker_console \<Rightarrow> int" where
  "broker_cap (IbmMqConsole d) = 100"
| "broker_cap (SolaceConsole d) = 100"
| "broker_cap (NatsConsole d) = 1000"
| "broker_cap (MqttConsole d protocol5) = 1000"

text \<open>
  C22: A send the IBM MQ, Solace, NATS or MQTT console takes passes every check its driver makes before the
  first call, and as many messages go out as the count says - read as JavaScript reads it, between one and
  the family's cap, a hundred on IBM MQ and Solace and a thousand on NATS and MQTT; what remains for
  IBM MQ is the lookup of the queue. A draft with a problem is not submitted. This is for a target
  without U+0085, a quality of service from the menu, a time or expiry that is blank or at most 4294967295
  (beyond it the bridge does not decode an MQTT send: \<open>mqtt_expiry_not_decoded\<close>), and a lower-casing that
  leaves lower-case ASCII letters and hyphens alone.
\<close>

theorem broker_sends_go_through:
  assumes "133 \<notin> set (broker_target c)" and "broker_picked c"
    and "broker_time c = NaN \<or> broker_time c \<le> Fin 4294967295"
    and "\<And>w. list_all (\<lambda>x. (97 \<le> x \<and> x \<le> 122) \<or> x = 45) w \<Longrightarrow> lower w = w"
  shows "(broker_refused c \<longrightarrow> broker_press is_topic lower c = NotSubmitted)
    \<and> (\<not> broker_refused c \<longrightarrow> (\<exists>n. broker_count c = Fin (of_int n) \<and> 1 \<le> n \<and> n \<le> broker_cap c
        \<and> (broker_press is_topic lower c = Delivers (nat n)
           \<or> (\<exists>d. c = IbmMqConsole d \<and> is_topic (trim (mp_queue d)) \<noteq> Some False
                \<and> broker_press is_topic lower c \<in> {Refused LookupFailed, Refused IsTopic}))))"
proof (cases c)
  case (IbmMqConsole d)
  show ?thesis
  proof (cases "ibmmq_sendProblem d = None")
    case True
    have t: "133 \<notin> set (mp_queue d)" "parse_int (mp_expirySeconds d) = NaN \<or> parse_int (mp_expirySeconds d) \<le> Fin 4294967295"
      using assms(1,3) by (simp_all add: IbmMqConsole)
    from ibmmq_press [OF True t, of is_topic lower] obtain n where n: "broker_count c = Fin (of_int n)" "1 \<le> n" "n \<le> 100"
      "broker_press is_topic lower c =
        (case is_topic (trim (mp_queue d)) of None \<Rightarrow> Refused LookupFailed | Some t \<Rightarrow> if t then Refused IsTopic else Delivers (nat n))"
      unfolding IbmMqConsole by blast
    have "broker_press is_topic lower c = Delivers (nat n) \<or> is_topic (trim (mp_queue d)) \<noteq> Some False
        \<and> broker_press is_topic lower c \<in> {Refused LookupFailed, Refused IsTopic}"
      using n(4) by (cases "is_topic (trim (mp_queue d))") auto
    then show ?thesis using n(1,2,3) True IbmMqConsole by (intro conjI impI exI [of _ n]) auto
  qed (simp add: IbmMqConsole ibmmq_toPublishInput_def)
next
  case (SolaceConsole d)
  show ?thesis
  proof (cases "solace_sendProblem d = None")
    case True
    have t: "133 \<notin> set (so_destination d)" "parse_int (so_timeToLiveMs d) = NaN \<or> parse_int (so_timeToLiveMs d) \<le> Fin 4294967295"
      using assms(1,3) by (simp_all add: SolaceConsole)
    from solace_press [OF True t assms(4), of is_topic] obtain n where "broker_count c = Fin (of_int n)" "1 \<le> n" "n \<le> 100"
      "broker_press is_topic lower c = Delivers (nat n)" unfolding SolaceConsole by blast
    then show ?thesis using True by (intro conjI impI exI [of _ n]) (simp_all add: SolaceConsole)
  qed (simp add: SolaceConsole solace_toPublishInput_def)
next
  case (NatsConsole d)
  show ?thesis
  proof (cases "nats_producerDraftError d = None")
    case True
    have t: "133 \<notin> set (nd_subject d)"
      "parse_int (trim (nd_replyTimeoutMs d)) = NaN \<or> parse_int (trim (nd_replyTimeoutMs d)) \<le> Fin 4294967295"
      using assms(1,3) by (simp_all add: NatsConsole)
    from nats_press [OF True t, of is_topic lower] obtain n where "broker_count c = Fin (of_int n)" "1 \<le> n" "n \<le> 1000"
      "broker_press is_topic lower c = Delivers (nat n)" unfolding NatsConsole by blast
    then show ?thesis using True by (intro conjI impI exI [of _ n]) (simp_all only: NatsConsole broker_refused.simps broker_cap.simps simp_thms)
  qed (simp add: NatsConsole)
next
  case (MqttConsole d protocol5)
  show ?thesis
  proof (cases "validateMqttSendDraft d protocol5 = None")
    case True
    have t: "md_qos d \<in> {u ''0'', u ''1'', u ''2''}" "parse_int (md_messageExpiry d) = NaN \<or> parse_int (md_messageExpiry d) \<le> Fin 4294967295"
      using assms(2,3) by (simp_all add: MqttConsole)
    from mqtt_press [OF True t, of is_topic lower] obtain n where "broker_count c = Fin (of_int n)" "1 \<le> n" "n \<le> 1000"
      "broker_press is_topic lower c = Delivers (nat n)" unfolding MqttConsole by blast
    then show ?thesis using True by (intro conjI impI exI [of _ n]) (simp_all only: MqttConsole broker_refused.simps broker_cap.simps simp_thms)
  qed (simp add: MqttConsole)
qed

definition price_draft :: MqttSendDraft where
  "price_draft = emptyMqttSendDraft\<lparr>md_topic := u ''a/b'', md_count := u ''2x''\<rparr>"

theorem broker_sends_go_through_witness:
  "broker_press (\<lambda>_. None) id (MqttConsole price_draft True) = Delivers 2"
proof -
  have c: "parse_int (u ''2x'') = Fin 2" "parse_int [] = NaN"
    by (simp_all add: u_def parse_eval trim_start_def is_ws_def is_digit_def digits_val_def)
  have f: "md_topic price_draft = u ''a/b''" "md_count price_draft = u ''2x''" "md_messageExpiry price_draft = []"
      "md_userProperties price_draft = []" "md_qos price_draft = u ''1''"
    by (simp_all add: price_draft_def emptyMqttSendDraft_def)
  have "\<not> mqtt_hasWildcard (u ''a/b'')" "trim (u ''a/b'') \<noteq> []" "133 \<notin> set (u ''a/b'')"
    by (simp_all add: mqtt_hasWildcard_def u_def includes_char trim_def trim_start_def trim_end_def is_ws_def)
  then have "\<not> broker_refused (MqttConsole price_draft True)" "133 \<notin> set (broker_target (MqttConsole price_draft True))"
    by (simp_all add: validateMqttSendDraft_def f c blank_box mqtt_MAX_COUNT_def Let_def del: read_box.simps)
  with broker_sends_go_through [of "MqttConsole price_draft True" id "\<lambda>_. None"] obtain n where
    "broker_count (MqttConsole price_draft True) = Fin (of_int n)" "broker_press (\<lambda>_. None) id (MqttConsole price_draft True) = Delivers (nat n)"
    by (auto simp: f c)
  moreover from this have "n = 2" by (simp add: f c)
  ultimately show ?thesis by simp
qed

text \<open>
  What goes wrong. An expiry past what thirty-two bits hold passes the MQTT form and is not
  decoded. A request in NATS drops what the form asked of a stream: with a wait typed, the switch,
  the expected stream and the deduplication id are read, checked and not used.
\<close>

lemma mqtt_expiry_not_decoded:
  assumes "validateMqttSendDraft d True = None" and "parse_int (md_messageExpiry d) = Fin (of_int x)" and "2 ^ 32 \<le> x"
  shows "broker_press is_topic lower (MqttConsole d True) = Undecodable"
proof -
  have "json_sized 0 (2 ^ 32) (Fin (of_int x)) = None" using assms(3) by (simp add: json_sized_def)
  then show ?thesis using assms(1,2) by (simp add: mqtt_bridge_def toMqttPublishInput_def Let_def split: option.split)
qed

lemma nats_wait_drops_stream:
  assumes "0 < wait" and "nats_Publish (n, wait) i = Inr sent"
  shows "\<exists>subject. sent = NatsRequest subject wait"
  using assms by (auto simp: nats_Publish_def Let_def split: if_splits option.splits)

section \<open>RabbitMQ\<close>

datatype RabbitTarget = RabbitQueue | RabbitExchange

record RabbitPublishForm =
  rf_target :: RabbitTarget
  rf_queue :: jsstr
  rf_exchange :: jsstr
  rf_routingKey :: jsstr
  rf_body :: jsstr
  rf_persistent :: bool
  rf_mandatory :: bool
  rf_headers :: jsstr
  rf_contentType :: jsstr
  rf_correlationId :: jsstr
  rf_replyTo :: jsstr
  rf_messageId :: jsstr
  rf_type :: jsstr
  rf_expiration :: jsstr
  rf_priority :: jsstr
  rf_count :: jsstr

definition rabbit_emptyPublishForm :: RabbitPublishForm where
  "rabbit_emptyPublishForm = \<lparr>rf_target = RabbitQueue, rf_queue = [], rf_exchange = [], rf_routingKey = [], rf_body = [],
     rf_persistent = True, rf_mandatory = True, rf_headers = [], rf_contentType = u ''application/json'', rf_correlationId = [],
     rf_replyTo = [], rf_messageId = [], rf_type = [], rf_expiration = [], rf_priority = u ''0'', rf_count = u ''1''\<rparr>"

record RabbitPublishInput =
  ri_vhost :: jsstr
  ri_exchange :: jsstr
  ri_routingKey :: jsstr
  ri_body :: jsstr
  ri_persistent :: bool
  ri_mandatory :: bool
  ri_headers :: "(jsstr \<times> jsstr) list"
  ri_contentType :: jsstr
  ri_correlationId :: jsstr
  ri_replyTo :: jsstr
  ri_messageId :: jsstr
  ri_type :: jsstr
  ri_appId :: jsstr
  ri_expiration :: jsstr
  ri_priority :: jsnum
  ri_count :: jsnum

definition rabbit_toPublishInput :: "RabbitPublishForm \<Rightarrow> jsstr \<Rightarrow> RabbitPublishInput" where
  "rabbit_toPublishInput form vhost =
    (let cnt = parse_int (trim (rf_count form)); priority = parse_int (trim (rf_priority form)) in
     \<lparr>ri_vhost = vhost, ri_exchange = (if rf_target form = RabbitQueue then [] else trim (rf_exchange form)),
      ri_routingKey = (if rf_target form = RabbitQueue then trim (rf_queue form) else trim (rf_routingKey form)),
      ri_body = rf_body form, ri_persistent = rf_persistent form, ri_mandatory = rf_mandatory form,
      ri_headers = nullish (read_box RabbitBox (rf_headers form)) [], ri_contentType = rf_contentType form,
      ri_correlationId = trim (rf_correlationId form), ri_replyTo = trim (rf_replyTo form), ri_messageId = trim (rf_messageId form),
      ri_type = trim (rf_type form), ri_appId = [], ri_expiration = trim (rf_expiration form),
      ri_priority = (if priority = NaN then Fin 0 else priority),
      ri_count = (if cnt = NaN \<or> cnt \<le> Fin 0 then Fin 1 else cnt)\<rparr>)"

definition rabbit_validatePublish :: "RabbitPublishForm \<Rightarrow> (string \<Rightarrow> jsstr) \<Rightarrow> jsstr option" where
  "rabbit_validatePublish form t = (let cnt = parse_int (trim (rf_count form)) in
     if rf_target form = RabbitQueue \<and> trim (rf_queue form) = [] then Some (t ''board.producer.rabbitmq.queueRequired'')
     else if rf_target form = RabbitExchange \<and> trim (rf_exchange form) = [] then Some (t ''board.producer.rabbitmq.exchangeRequired'')
     else if rf_body form = [] then Some (t ''board.producer.rabbitmq.bodyRequired'')
     else if cnt = NaN \<or> cnt < Fin 1 \<or> Fin 1000 < cnt then Some (t ''board.producer.rabbitmq.countRange'')
     else None)"

definition rabbit_clampPriority :: "int \<Rightarrow> int" where
  "rabbit_clampPriority priority = (if priority < 0 then 0 else if 255 < priority then 255 else priority)"

text \<open>The driver's \<open>Publish\<close>: the exchange, the key and the priority byte of each copy.\<close>

definition rabbit_Publish :: "int \<times> int \<Rightarrow> RabbitPublishInput \<Rightarrow> broker_refusal + (jsstr \<times> jsstr \<times> 8 word) list" where
  "rabbit_Publish decoded i = (let n = at_least_one (fst decoded) in
     if TrimSpace (ri_routingKey i) = [] \<and> ri_exchange i = [] then Inl NoTarget
     else if 1000 < n then Inl TooManyCopies
     else Inr (replicate (nat n) (ri_exchange i, ri_routingKey i, word_of_int (rabbit_clampPriority (snd decoded)))))"

text \<open>
  A form the console takes publishes as many copies as it counts, each with a priority that fits
  its byte; to a queue, through the default exchange with the queue's name.
\<close>

lemma rabbit_publishes:
  assumes "rabbit_validatePublish form t = None" and "133 \<notin> set (rf_queue form)"
  shows "\<exists>n. parse_int (trim (rf_count form)) = Fin (of_int n) \<and> 1 \<le> n \<and> n \<le> 1000
    \<and> rabbit_Publish (n, p) (rabbit_toPublishInput form vhost) =
      Inr (replicate (nat n) (if rf_target form = RabbitQueue then ([], trim (rf_queue form), word_of_int (rabbit_clampPriority p))
        else (trim (rf_exchange form), trim (rf_routingKey form), word_of_int (rabbit_clampPriority p))))
    \<and> uint (word_of_int (rabbit_clampPriority p) :: 8 word) = max 0 (min 255 p)"
proof -
  have q: "rf_target form = RabbitQueue \<longrightarrow> trim (rf_queue form) \<noteq> []" "rf_target form \<noteq> RabbitQueue \<longrightarrow> trim (rf_exchange form) \<noteq> []"
      "parse_int (trim (rf_count form)) \<noteq> NaN" "\<not> parse_int (trim (rf_count form)) < Fin 1"
      "\<not> Fin (of_int 1000) < parse_int (trim (rf_count form))"
    using assms(1) by (cases "rf_target form"; auto simp: rabbit_validatePublish_def Let_def split: if_splits)+
  from text_count [OF q(3,4,5)] obtain n where n: "parse_int (trim (rf_count form)) = Fin (of_int n)" "1 \<le> n" "n \<le> 1000"
    "at_least_one n = n" by auto
  have "uint (word_of_int (rabbit_clampPriority p) :: 8 word) = max 0 (min 255 p)"
    by (simp add: rabbit_clampPriority_def uint_word_of_int)
  moreover have "rabbit_Publish (n, p) (rabbit_toPublishInput form vhost) =
      Inr (replicate (nat n) (if rf_target form = RabbitQueue then ([], trim (rf_queue form), word_of_int (rabbit_clampPriority p))
        else (trim (rf_exchange form), trim (rf_routingKey form), word_of_int (rabbit_clampPriority p))))"
    using q(1,2) n TrimSpace_trim [OF assms(2)]
    by (cases "rf_target form") (simp_all add: rabbit_Publish_def rabbit_toPublishInput_def Let_def)
  ultimately show ?thesis using n by blast
qed

end
