(* ===== verification/Send_Records.thy ===== *)
theory Send_Records
  imports Send_Brokers
begin

text \<open>
  The last four send consoles: Pulsar (\<open>mq/pulsar/publish.ts\<close>), Kafka, ActiveMQ and Redis
  (\<open>producerKafkaDraft.ts\<close>, \<open>producerActiveMQDraft.ts\<close>, \<open>entryDraft.ts\<close>), with the drivers' checks and
  the headers ActiveMQ's folds its fields into.
\<close>

section \<open>Pulsar\<close>

record PulsarPublishForm =
  pf_topic :: jsstr
  pf_key :: jsstr
  pf_orderingKey :: jsstr
  pf_body :: jsstr
  pf_properties :: jsstr
  pf_delaySeconds :: jsstr
  pf_count :: jsstr

definition pulsar_emptyPublishForm :: "jsstr \<Rightarrow> PulsarPublishForm" where
  "pulsar_emptyPublishForm topic = \<lparr>pf_topic = topic, pf_key = [], pf_orderingKey = [], pf_body = [], pf_properties = [],
     pf_delaySeconds = [], pf_count = u ''1''\<rparr>"

definition pulsar_MAX_COUNT :: jsnum where "pulsar_MAX_COUNT = Fin 1000"

text \<open>\<open>wholeNumber\<close>: the number must print as it was typed.\<close>

definition wholeNumber :: "jsstr \<Rightarrow> jsnum option" where
  "wholeNumber raw = (let trimmed = trim raw; val = parse_int trimmed in
     if trimmed = [] then Some (Fin 0)
     else if val = NaN \<or> val < Fin 0 \<or> num_to_str val \<noteq> trimmed then None
     else Some val)"

definition pulsar_validate :: "PulsarPublishForm \<Rightarrow> (string \<Rightarrow> jsstr) \<Rightarrow> jsstr option" where
  "pulsar_validate form t =
    (if trim (pf_topic form) = [] then Some (t ''board.producer.pulsar.topicRequired'')
     else if pf_body form = [] then Some (t ''board.producer.pulsar.bodyRequired'')
     else if read_box PulsarBox (pf_properties form) = None then Some (t ''board.producer.pulsar.propertyLineInvalid'')
     else if wholeNumber (pf_delaySeconds form) = None then Some (t ''board.producer.pulsar.delayInvalid'')
     else (case wholeNumber (pf_count form) of
         None \<Rightarrow> Some (t ''board.producer.pulsar.countInvalid'')
       | Some cnt \<Rightarrow> if cnt < Fin 1 then Some (t ''board.producer.pulsar.countInvalid'')
           else if pulsar_MAX_COUNT < cnt then Some (t ''board.producer.pulsar.countTooLarge'')
           else None))"

record PulsarPublishInput =
  pu_topic :: jsstr
  pu_key :: jsstr
  pu_orderingKey :: jsstr
  pu_body :: jsstr
  pu_properties :: "(jsstr \<times> jsstr) list"
  pu_deliverAfterMs :: jsnum
  pu_eventTimeMs :: jsnum
  pu_count :: jsnum

definition pulsar_toInput :: "PulsarPublishForm \<Rightarrow> PulsarPublishInput" where
  "pulsar_toInput form =
    \<lparr>pu_topic = trim (pf_topic form), pu_key = trim (pf_key form), pu_orderingKey = trim (pf_orderingKey form), pu_body = pf_body form,
     pu_properties = nullish (read_box PulsarBox (pf_properties form)) [],
     pu_deliverAfterMs = num_mul (nullish (wholeNumber (pf_delaySeconds form)) (Fin 0)) (Fin 1000), pu_eventTimeMs = Fin 0,
     pu_count = nullish (wholeNumber (pf_count form)) (Fin 1)\<rparr>"

text \<open>\<open>Publish\<close>: the topic the producer is opened on is the parameter \<open>topicURL\<close> for a bare name.\<close>

definition milliseconds :: "int \<Rightarrow> 64 word" where
  "milliseconds n = word_of_int n * 1000000"

definition pulsar_Publish :: "(jsstr \<Rightarrow> jsstr) \<Rightarrow> int \<times> 64 word \<Rightarrow> PulsarPublishInput
    \<Rightarrow> broker_refusal + (jsstr \<times> (jsstr \<times> jsstr \<times> jsstr \<times> 64 word) list)" where
  "pulsar_Publish topicURL decoded i = (let n = at_least_one (fst decoded) in
     if \<not> includes_str (pu_topic i) (u ''://'') \<and> TrimSpace (pu_topic i) = [] then Inl NoTarget
     else if 1000 < n then Inl TooManyCopies
     else Inr (if includes_str (pu_topic i) (u ''://'') then pu_topic i else topicURL (pu_topic i),
       replicate (nat n) (pu_key i, pu_orderingKey i, pu_body i, snd decoded)))"

section \<open>Kafka\<close>

datatype KafkaAcks = AcksNone | AcksLeader | AcksAll

record KafkaSendDraft =
  kd_topic :: jsstr
  kd_partition :: jsstr
  kd_withKey :: bool
  kd_key :: jsstr
  kd_value :: jsstr
  kd_headers :: jsstr
  kd_acks :: KafkaAcks
  kd_count :: jsstr

definition emptyKafkaSendDraft :: KafkaSendDraft where
  "emptyKafkaSendDraft = \<lparr>kd_topic = [], kd_partition = [], kd_withKey = True, kd_key = [], kd_value = [], kd_headers = [],
     kd_acks = AcksAll, kd_count = u ''1''\<rparr>"

definition validateKafkaSendDraft :: "KafkaSendDraft \<Rightarrow> string option" where
  "validateKafkaSendDraft draft = (let parsed = parse_int (kd_partition draft); cnt = parse_int (kd_count draft) in
     if trim (kd_topic draft) = [] then Some ''topicRequired''
     else if trim (kd_partition draft) \<noteq> [] \<and> (parsed = NaN \<or> parsed < Fin 0) then Some ''partitionInvalid''
     else if cnt = NaN \<or> cnt < Fin 1 \<or> Fin 10000 < cnt then Some ''countInvalid''
     else if read_box KafkaBox (kd_headers draft) = None then Some ''headerLine''
     else None)"

record KafkaRecordInput =
  kr_topic :: jsstr
  kr_partition :: jsnum
  kr_hasKey :: bool
  kr_key :: jsstr
  kr_value :: jsstr
  kr_headers :: "(jsstr \<times> jsstr) list"
  kr_timestamp :: jsnum
  kr_acks :: KafkaAcks
  kr_count :: jsnum

definition toKafkaRecordInput :: "KafkaSendDraft \<Rightarrow> KafkaRecordInput" where
  "toKafkaRecordInput draft = (let cnt = parse_int (kd_count draft) in
    \<lparr>kr_topic = trim (kd_topic draft),
     kr_partition = (if trim (kd_partition draft) = [] then Fin (- 1) else parse_int (kd_partition draft)),
     kr_hasKey = kd_withKey draft, kr_key = (if kd_withKey draft then kd_key draft else []), kr_value = kd_value draft,
     kr_headers = nullish (read_box KafkaBox (kd_headers draft)) [], kr_timestamp = Fin 0, kr_acks = kd_acks draft,
     kr_count = (if cnt = NaN \<or> cnt = Fin 0 then Fin 1 else cnt)\<rparr>)"

text \<open>\<open>SendRecord\<close>: the records, their partition when pinned, and the key when there is one.\<close>

definition kafka_bridge :: "KafkaRecordInput \<Rightarrow> (int \<times> int) option" where
  "kafka_bridge i = (case (json_sized (- (2 ^ 31)) (2 ^ 31) (kr_partition i), json_int (kr_count i)) of
     (Some p, Some n) \<Rightarrow> Some (p, n) | _ \<Rightarrow> None)"

fun kafka_SendRecord :: "int \<times> int \<Rightarrow> KafkaRecordInput \<Rightarrow> broker_refusal + (int option \<times> jsstr option \<times> jsstr) list" where
  "kafka_SendRecord (p, n) i =
    (if TrimSpace (kr_topic i) = [] then Inl NoTarget
     else Inr (replicate (nat (at_least_one n)) (if 0 \<le> p then Some p else None, if kr_hasKey i then Some (kr_key i) else None, kr_value i)))"

section \<open>ActiveMQ\<close>

record ActiveMQProducerDraft =
  aq_destination :: jsstr
  aq_body :: jsstr
  aq_persistent :: bool
  aq_priority :: jsnum
  aq_correlationId :: jsstr
  aq_replyTo :: jsstr
  aq_jmsType :: jsstr
  aq_headers :: jsstr
  aq_copies :: jsnum

definition emptyActiveMQProducerDraft :: ActiveMQProducerDraft where
  "emptyActiveMQProducerDraft = \<lparr>aq_destination = [], aq_body = [], aq_persistent = True, aq_priority = Fin 4, aq_correlationId = [],
     aq_replyTo = [], aq_jmsType = [], aq_headers = [], aq_copies = Fin 1\<rparr>"

record ActiveMQPublishInput =
  aj_destination :: jsstr
  aj_body :: jsstr
  aj_persistent :: bool
  aj_priority :: jsnum
  aj_correlationId :: jsstr
  aj_replyTo :: jsstr
  aj_jmsType :: jsstr
  aj_headers :: "(jsstr \<times> jsstr) list"
  aj_count :: jsnum

definition activemq_toPublishInput :: "ActiveMQProducerDraft \<Rightarrow> ActiveMQPublishInput option" where
  "activemq_toPublishInput draft = (if trim (aq_destination draft) = [] then None
     else (case read_box ActiveMQBox (aq_headers draft) of None \<Rightarrow> None
       | Some headers \<Rightarrow> Some \<lparr>aj_destination = trim (aq_destination draft), aj_body = aq_body draft, aj_persistent = aq_persistent draft,
           aj_priority = aq_priority draft, aj_correlationId = trim (aq_correlationId draft), aj_replyTo = trim (aq_replyTo draft),
           aj_jmsType = trim (aq_jmsType draft), aj_headers = headers,
           aj_count = (if Fin 0 < aq_copies draft then aq_copies draft else Fin 1)\<rparr>))"

text \<open>
  \<open>publishHeaders\<close>: the typed headers and, over them, the fields of the form; the bridge leaves the
  application id and the expiration empty.
\<close>

definition put_if :: "bool \<Rightarrow> string \<Rightarrow> jsstr \<Rightarrow> (jsstr \<rightharpoonup> jsstr) \<Rightarrow> (jsstr \<rightharpoonup> jsstr)" where
  "put_if b k v m = (if b then m(u k \<mapsto> v) else m)"

definition activemq_publishHeaders :: "int \<Rightarrow> ActiveMQPublishInput \<Rightarrow> (jsstr \<rightharpoonup> jsstr)" where
  "activemq_publishHeaders priority i =
     put_if (0 < priority) ''JMSPriority'' (int_to_str priority)
      (put_if (aj_jmsType i \<noteq> []) ''JMSType'' (aj_jmsType i)
       (put_if (aj_replyTo i \<noteq> []) ''JMSReplyTo'' (aj_replyTo i)
        (put_if (aj_correlationId i \<noteq> []) ''JMSCorrelationID'' (aj_correlationId i) (map_of (aj_headers i)))))"

definition activemq_Publish :: "(jsstr \<Rightarrow> bool option) \<Rightarrow> int \<times> int \<Rightarrow> ActiveMQPublishInput
    \<Rightarrow> broker_refusal + (jsstr \<times> (jsstr \<rightharpoonup> jsstr)) list" where
  "activemq_Publish multicast decoded i = (let n = at_least_one (fst decoded) in
     if aj_destination i = [] then Inl NoTarget
     else if 500 < n then Inl TooManyCopies
     else (case multicast (aj_destination i) of None \<Rightarrow> Inl LookupFailed
       | Some m \<Rightarrow> if m then Inl IsTopic
           else Inr (replicate (nat n) (aj_body i, activemq_publishHeaders (snd decoded) i))))"

section \<open>Redis\<close>

record EntryForm =
  ef_stream :: jsstr
  ef_fields :: "(jsstr \<times> jsstr) list"
  ef_id :: jsstr
  ef_count :: jsstr

definition emptyEntryDraft :: "jsstr \<Rightarrow> EntryForm" where
  "emptyEntryDraft stream = \<lparr>ef_stream = stream, ef_fields = [([], [])], ef_id = [], ef_count = u ''1''\<rparr>"

definition usableFields :: "EntryForm \<Rightarrow> (jsstr \<times> jsstr) list" where
  "usableFields form = filter (\<lambda>(name, _). trim name \<noteq> []) (ef_fields form)"

text \<open>\<open>/^\d+$/\<close> and \<open>/^\d+(-\d+)?$/\<close>, the second shared with the driver.\<close>

definition all_digits :: "jsstr \<Rightarrow> bool" where
  "all_digits s \<longleftrightarrow> s \<noteq> [] \<and> list_all is_digit s"

definition is_entry_id :: "jsstr \<Rightarrow> bool" where
  "is_entry_id s \<longleftrightarrow> takeWhile is_digit s \<noteq> [] \<and>
     (case dropWhile is_digit s of [] \<Rightarrow> True | c # cs \<Rightarrow> c = 45 \<and> all_digits cs)"

definition redis_validate :: "EntryForm \<Rightarrow> (string \<Rightarrow> jsstr) \<Rightarrow> jsstr option" where
  "redis_validate form t = (let cnt = trim (ef_count form); ident = trim (ef_id form) in
     if trim (ef_stream form) = [] then Some (t ''board.producer.redis.streamRequired'')
     else if length (usableFields form) = 0 then Some (t ''board.producer.redis.fieldRequired'')
     else if cnt = [] then Some (t ''board.producer.redis.countRequired'')
     else if \<not> all_digits cnt \<or> to_number cnt < Fin 1 then Some (t ''board.producer.redis.countInvalid'')
     else if ident = [] then None
     else if \<not> is_entry_id ident then Some (t ''board.producer.redis.idInvalid'')
     else if Fin 1 < to_number cnt then Some (t ''board.producer.redis.idWithCount'')
     else None)"

record EntryDraft =
  ed_stream :: jsstr
  ed_fields :: "(jsstr \<times> jsstr) list"
  ed_id :: jsstr
  ed_count :: jsnum

definition redis_toDraft :: "EntryForm \<Rightarrow> EntryDraft" where
  "redis_toDraft form = \<lparr>ed_stream = trim (ef_stream form), ed_fields = map (\<lambda>(name, val). (trim name, val)) (usableFields form),
     ed_id = trim (ef_id form), ed_count = to_number (trim (ef_count form))\<rparr>"

text \<open>\<open>AddEntry\<close>: the stream, the fields and the id of each \<open>XADD\<close>.\<close>

definition redis_AddEntry :: "int \<Rightarrow> EntryDraft \<Rightarrow> broker_refusal + (jsstr \<times> (jsstr \<times> jsstr) list \<times> jsstr) list" where
  "redis_AddEntry decoded d =
    (let stream = TrimSpace (ed_stream d); n = at_least_one decoded; ident = TrimSpace (ed_id d);
       vals = map (\<lambda>(name, val). (TrimSpace name, val)) (filter (\<lambda>(name, _). TrimSpace name \<noteq> []) (ed_fields d)) in
     if stream = [] then Inl NoTarget
     else if vals = [] then Inl NoFields
     else if 1000 < n then Inl TooManyCopies
     else if ident \<noteq> [] \<and> \<not> is_entry_id ident then Inl BadEntryId
     else if ident \<noteq> [] \<and> 1 < n then Inl IdWithCount
     else Inr (replicate (nat n) (stream, vals, if ident = [] then u ''*'' else ident)))"

section \<open>What is sent\<close>

lemma to_number_digits:
  assumes "all_digits s"
  shows "to_number s = to_num (of_int (digits_val s))"
proof -
  obtain c cs where s: "s = c # cs" "is_digit c" "list_all is_digit cs" using assms by (cases s) (auto simp: all_digits_def)
  have "last s \<in> set s" by (simp add: s(1))
  then have "is_digit (last s)" using assms by (simp add: all_digits_def list_all_iff)
  then have t: "trim s = s" using s(1,2) digit_plain by (intro trim_idle) simp
  have r: "radix_of s = None" using s(3) by (cases cs) (auto simp: radix_of_def s(1) is_digit_def)
  have g: "sign_of s = (1, s)" using digit_plain [OF s(2)] by (simp add: s(1))
  have i: "s \<noteq> infinity_str" using s(1,2) by (auto simp: infinity_str_def u_def is_digit_def)
  have w: "takeWhile is_digit s = s" "dropWhile is_digit s = []"
    using assms by (simp_all add: all_digits_def list_all_iff)
  have "scan_decimal s = Some (of_int (digits_val s), [])"
    using assms by (simp add: scan_decimal_def w pow10_def all_digits_def Let_def)
  moreover have "s \<noteq> []" by (simp add: s(1))
  ultimately show ?thesis by (simp add: to_number_def t r g i Let_def)
qed

lemma digits_val_nonneg: "list_all is_digit s \<Longrightarrow> 0 \<le> digits_val s"
proof (induction s rule: rev_induct)
  case (snoc c s)
  then show ?case by (auto simp: digits_val_snoc is_digit_def)
qed (simp add: digits_val_def)

text \<open>
  What the Redis console accepts is what the driver writes: each of the copies carries the rows
  that have a name, in their order, the name trimmed and the value as typed, under the typed id or
  one the server assigns; more than a thousand copies the driver alone refuses.
\<close>

lemma redis_send_exact:
  assumes "redis_validate form t = None" and "to_number (trim (ef_count form)) \<le> Fin 9007199254740991"
    and "133 \<notin> set (ef_stream form)" "133 \<notin> set (ef_id form)" "\<forall>(name, val) \<in> set (ef_fields form). 133 \<notin> set name"
  shows "\<exists>n. ed_count (redis_toDraft form) = Fin (of_int n) \<and> 1 \<le> n \<and> json_int (ed_count (redis_toDraft form)) = Some n
    \<and> redis_AddEntry n (redis_toDraft form) =
        (if 1000 < n then Inl TooManyCopies
         else Inr (replicate (nat n) (trim (ef_stream form),
           map (\<lambda>(name, val). (trim name, val)) (filter (\<lambda>(name, val). trim name \<noteq> []) (ef_fields form)),
           if trim (ef_id form) = [] then u ''*'' else trim (ef_id form))))
    \<and> (trim (ef_id form) \<noteq> [] \<longrightarrow> n = 1)"
proof -
  let ?c = "trim (ef_count form)" and ?i = "trim (ef_id form)"
  have p: "trim (ef_stream form) \<noteq> []" "usableFields form \<noteq> []" "all_digits ?c" "\<not> to_number ?c < Fin 1"
      "?i \<noteq> [] \<Longrightarrow> is_entry_id ?i \<and> \<not> Fin 1 < to_number ?c"
    using assms(1) by (auto simp: redis_validate_def Let_def split: if_splits)
  have c: "to_number ?c = to_num (of_int (digits_val ?c))" by (rule to_number_digits [OF p(3)])
  have "Fin 0 \<le> to_num (of_int (digits_val ?c))"
    using p(3) digits_val_nonneg by (intro to_num_nonneg) (simp add: all_digits_def)
  from to_num_small(1) [OF this, of 9007199254740991] assms(2) obtain n where n: "to_number ?c = Fin (of_int n)" "n \<le> 9007199254740991"
    unfolding c by auto
  have one: "1 \<le> n" using p(4) n(1) by simp
  then have j: "json_int (to_number ?c) = Some n" "at_least_one n = n" unfolding n(1) json_int_of_int using n(2)
    by (simp_all add: at_least_one_def)
  have names: "TrimSpace (trim name) = trim name" if "(name, val) \<in> set (ef_fields form)" for name val
    using that assms(5) by (intro TrimSpace_trim) auto
  let ?fs = "map (\<lambda>(name, val). (trim name, val)) (usableFields form)"
  have keep: "filter (\<lambda>(name, _). TrimSpace name \<noteq> []) ?fs = ?fs"
    using names by (auto simp: filter_id_conv usableFields_def)
  have fs: "map (\<lambda>(name, val). (TrimSpace name, val)) ?fs = ?fs"
    using names by (intro map_idI) (auto simp: usableFields_def)
  have idn: "?i \<noteq> [] \<Longrightarrow> n = 1" using p(5) one n(1) by fastforce
  have "redis_AddEntry n (redis_toDraft form) = (if 1000 < n then Inl TooManyCopies
         else Inr (replicate (nat n) (trim (ef_stream form), ?fs, if ?i = [] then u ''*'' else ?i)))"
    using p(1,2,5) idn TrimSpace_trim [OF assms(3)] TrimSpace_trim [OF assms(4)]
    unfolding redis_AddEntry_def redis_toDraft_def Let_def EntryDraft.simps keep fs j(2) by auto
  then show ?thesis using n(1) one j(1) idn by (intro exI [of _ n]) (simp add: redis_toDraft_def usableFields_def)
qed

definition abandoned_row :: EntryForm where
  "abandoned_row = \<lparr>ef_stream = u ''s'', ef_fields = [(u '' k '', u '' v ''), ([], u ''x'')], ef_id = u ''5-1'', ef_count = u ''1''\<rparr>"

text \<open>
  A whole number field takes a number exactly when it is written as it would be printed: what it
  reads is the number printed.
\<close>

lemma wholeNumber_prints:
  assumes "0 \<le> n" and "n < 10 ^ 15"
  shows "wholeNumber (num_to_str (Fin (of_int n))) = Some (Fin (of_int n))"
proof -
  let ?s = "num_to_str (Fin (of_int n))"
  have d: "?s \<noteq> []" "list_all is_digit ?s" using num_to_str_digits [OF assms] by simp_all
  have "hd ?s \<in> set ?s" "last ?s \<in> set ?s" using d(1) by simp_all
  then have "is_digit (hd ?s)" "is_digit (last ?s)" using d(2) by (simp_all only: list_all_iff)
  then have "trim ?s = ?s" using digit_plain by (intro trim_idle) blast
  then show ?thesis
    using d(1) parse_int_num_to_str [OF assms] assms(1) unfolding wholeNumber_def Let_def by (simp del: num_to_str.simps)
qed

lemma wholeNumber_whole:
  assumes "wholeNumber raw = Some x" and "x \<le> Fin (of_int b)" and "0 \<le> b" and "b < 2 ^ 53"
  shows "\<exists>n. x = Fin (of_int n) \<and> 0 \<le> n \<and> n \<le> b"
proof (cases "trim raw = []")
  case True
  then show ?thesis using assms by (intro exI [of _ 0]) (simp add: wholeNumber_def Let_def)
next
  case False
  then have x: "x = parse_int (trim raw)" "x \<noteq> NaN" "\<not> x < Fin 0"
    using assms(1) by (auto simp: wholeNumber_def Let_def split: if_splits)
  then have "Fin 0 \<le> x" by (simp add: jsnum_not_less)
  then show ?thesis using parse_int_small [of "trim raw" b] assms(2,4) x(1) by simp
qed

text \<open>
  A form the Pulsar console takes sends as many copies as it counts, and each is held back for
  the typed seconds: the seconds survive the milliseconds of the bridge and the nanoseconds of
  the driver, up to some two hundred and ninety-two years.
\<close>

lemma pulsar_send_exact:
  assumes "pulsar_validate form t = None" and "133 \<notin> set (pf_topic form)"
    and "wholeNumber (pf_delaySeconds form) = Some x" and "x \<le> Fin 9223372036"
  shows "\<exists>n s. wholeNumber (pf_count form) = Some (Fin (of_int n)) \<and> 1 \<le> n \<and> n \<le> 1000 \<and> x = Fin (of_int s)
    \<and> json_int (pu_count (pulsar_toInput form)) = Some n
    \<and> json_int (pu_deliverAfterMs (pulsar_toInput form)) = Some (s * 1000)
    \<and> sint (milliseconds (s * 1000)) = s * 1000000000
    \<and> (\<exists>url. pulsar_Publish topicURL (n, milliseconds (s * 1000)) (pulsar_toInput form) =
        Inr (url, replicate (nat n) (trim (pf_key form), trim (pf_orderingKey form), pf_body form, milliseconds (s * 1000))))"
proof -
  obtain cnt where p: "trim (pf_topic form) \<noteq> []" "wholeNumber (pf_count form) = Some cnt" "\<not> cnt < Fin 1" "\<not> Fin 1000 < cnt"
    using assms(1) by (auto simp: pulsar_validate_def pulsar_MAX_COUNT_def split: if_splits option.splits)
  have nan: "cnt \<noteq> NaN" using p(2) by (auto simp: wholeNumber_def Let_def split: if_splits)
  then have "cnt \<le> Fin (of_int 1000)" using p(4) by (simp add: jsnum_not_less)
  from wholeNumber_whole [OF p(2) this] obtain n where n: "cnt = Fin (of_int n)" "n \<le> 1000" by auto
  have one: "1 \<le> n" using p(3) n(1) by simp
  have jn: "json_int (Fin (of_int n)) = Some n" "at_least_one n = n" using one n(2)
    by (simp_all only: json_int_of_int) (simp_all add: at_least_one_def)
  from wholeNumber_whole [OF assms(3), of 9223372036] assms(4) obtain s where s: "x = Fin (of_int s)" "0 \<le> s" "s \<le> 9223372036" by auto
  have "\<bar>s * 1000\<bar> \<le> 2 ^ 53" using s by simp
  from to_num_of_int [OF this] have mul: "num_mul x (Fin 1000) = Fin (of_int (s * 1000))" by (simp add: s(1))
  have js: "json_int (Fin (of_int (s * 1000))) = Some (s * 1000)" unfolding json_int_of_int using s(2,3) by simp
  have "milliseconds (s * 1000) = word_of_int (s * 1000000000)" by (simp add: milliseconds_def wi_hom_mult)
  then have "sint (milliseconds (s * 1000)) = signed_take_bit 63 (s * 1000000000)" by (simp only: sint_sbintrunc') simp
  also have "\<dots> = s * 1000000000" using s(2,3) by (intro signed_take_bit_int_eq_self) simp_all
  finally have ns: "sint (milliseconds (s * 1000)) = s * 1000000000" .
  have fields: "pu_count (pulsar_toInput form) = Fin (of_int n)" "pu_deliverAfterMs (pulsar_toInput form) = Fin (of_int (s * 1000))"
    using p(2) n(1) mul assms(3) by (simp_all add: pulsar_toInput_def)
  have "\<exists>url. pulsar_Publish topicURL (n, milliseconds (s * 1000)) (pulsar_toInput form) =
        Inr (url, replicate (nat n) (trim (pf_key form), trim (pf_orderingKey form), pf_body form, milliseconds (s * 1000)))"
    using p(1) n(2) jn(2) TrimSpace_trim [OF assms(2)] by (simp add: pulsar_Publish_def pulsar_toInput_def Let_def)
  then show ?thesis using p(2) n one s(1) jn(1) js ns unfolding fields by blast
qed

definition held_message :: PulsarPublishForm where
  "held_message = (pulsar_emptyPublishForm (u ''orders''))\<lparr>pf_body := u ''x'', pf_delaySeconds := u ''60''\<rparr>"

text \<open>
  Kafka: the typed partition pins every record and a blank one leaves the choice to the key; the
  leftover text of a switched off key does not leave the form.
\<close>

lemma kafka_send_exact:
  assumes "validateKafkaSendDraft d = None" and "133 \<notin> set (kd_topic d)"
    and "trim (kd_partition d) \<noteq> [] \<longrightarrow> parse_int (kd_partition d) \<le> Fin 2147483647"
  shows "\<exists>p n. kafka_bridge (toKafkaRecordInput d) = Some (p, n) \<and> parse_int (kd_count d) = Fin (of_int n) \<and> 1 \<le> n \<and> n \<le> 10000
    \<and> kafka_SendRecord (p, n) (toKafkaRecordInput d) =
        Inr (replicate (nat n) (if trim (kd_partition d) = [] then None else Some p, if kd_withKey d then Some (kd_key d) else None, kd_value d))
    \<and> (trim (kd_partition d) \<noteq> [] \<longrightarrow> parse_int (kd_partition d) = Fin (of_int p))"
proof -
  have q: "trim (kd_topic d) \<noteq> []" "parse_int (kd_count d) \<noteq> NaN" "\<not> parse_int (kd_count d) < Fin 1"
      "\<not> Fin (of_int 10000) < parse_int (kd_count d)"
      "trim (kd_partition d) \<noteq> [] \<Longrightarrow> parse_int (kd_partition d) \<noteq> NaN \<and> \<not> parse_int (kd_partition d) < Fin 0"
    using assms(1) by (auto simp: validateKafkaSendDraft_def Let_def split: if_splits)
  from text_count [OF q(2,3,4)] obtain n where n: "parse_int (kd_count d) = Fin (of_int n)" "1 \<le> n" "n \<le> 10000"
    "json_int (parse_int (kd_count d)) = Some n" "at_least_one n = n" by auto
  have cnt: "kr_count (toKafkaRecordInput d) = parse_int (kd_count d)" using n(2) by (auto simp: toKafkaRecordInput_def n(1) Let_def)
  show ?thesis
  proof (cases "trim (kd_partition d) = []")
    case True
    then have p: "json_sized (- (2 ^ 31)) (2 ^ 31) (kr_partition (toKafkaRecordInput d)) = Some (- 1)"
      using json_int_of_int [of "- 1"] by (simp add: toKafkaRecordInput_def json_sized_def Let_def)
    show ?thesis
      using q(1) n True p cnt TrimSpace_trim [OF assms(2)]
      by (intro exI [of _ "- 1"] exI [of _ n]) (simp add: kafka_bridge_def, simp add: toKafkaRecordInput_def Let_def)
  next
    case False
    have le: "parse_int (kd_partition d) \<le> Fin (of_int 2147483647)" using assms(3) False by simp
    have "Fin 0 \<le> parse_int (kd_partition d)" using q(5) [OF False] jsnum_not_less [of "parse_int (kd_partition d)" "Fin 0"] by simp
    from parse_int_small [OF this le] obtain p where p: "parse_int (kd_partition d) = Fin (of_int p)" "0 \<le> p" "p \<le> 2147483647" by auto
    have "json_sized (- (2 ^ 31)) (2 ^ 31) (kr_partition (toKafkaRecordInput d)) = Some p"
      using p False json_int_of_int [of p] by (simp add: toKafkaRecordInput_def json_sized_def Let_def)
    then show ?thesis
      using q(1) n False p cnt TrimSpace_trim [OF assms(2)]
      by (intro exI [of _ p] exI [of _ n]) (simp add: kafka_bridge_def, simp add: toKafkaRecordInput_def Let_def)
  qed
qed

text \<open>
  ActiveMQ: a field of the form that is filled in wins over a header of its name, an empty one leaves
  it; a priority of zero, the lowest, is not sent, so the message has the broker's default.
\<close>

lemma activemq_headers:
  "activemq_publishHeaders priority i (u ''JMSCorrelationID'') =
     (if aj_correlationId i \<noteq> [] then Some (aj_correlationId i) else map_of (aj_headers i) (u ''JMSCorrelationID''))"
  "activemq_publishHeaders priority i (u ''JMSReplyTo'') =
     (if aj_replyTo i \<noteq> [] then Some (aj_replyTo i) else map_of (aj_headers i) (u ''JMSReplyTo''))"
  "activemq_publishHeaders priority i (u ''JMSType'') =
     (if aj_jmsType i \<noteq> [] then Some (aj_jmsType i) else map_of (aj_headers i) (u ''JMSType''))"
  "activemq_publishHeaders priority i (u ''JMSPriority'') =
     (if 0 < priority then Some (int_to_str priority) else map_of (aj_headers i) (u ''JMSPriority''))"
  by (simp_all add: activemq_publishHeaders_def put_if_def)

lemma activemq_priority_zero:
  "activemq_toPublishInput (emptyActiveMQProducerDraft\<lparr>aq_destination := [113], aq_priority := Fin 0\<rparr>) = Some i \<Longrightarrow>
     aj_priority i = Fin 0 \<and> activemq_publishHeaders 0 i = Map.empty"
proof -
  have "read_box ActiveMQBox [] = Some []" by (simp add: box_defs activemq_line_def Let_def)
  moreover have "trim [113] \<noteq> []" by (simp add: trim_def trim_start_def trim_end_def is_ws_def)
  ultimately show "activemq_toPublishInput (emptyActiveMQProducerDraft\<lparr>aq_destination := [113], aq_priority := Fin 0\<rparr>) = Some i \<Longrightarrow>
      aj_priority i = Fin 0 \<and> activemq_publishHeaders 0 i = Map.empty"
    by (auto simp: activemq_toPublishInput_def emptyActiveMQProducerDraft_def activemq_publishHeaders_def put_if_def simp del: read_box.simps)
qed

end
