(* ===== verification/Object_Names.thy ===== *)
theory Object_Names
  imports Send_Cloud
begin

text \<open>
  What a hosted service, NSQ, IBM MQ, Solace or Kafka will accept as a name: the rules the create
  dialogs apply (\<open>mq/<family>/names.ts\<close>, \<open>TopicDialogKafka.tsx\<close>) and those the drivers apply again
  before they call the service (\<open>internal/driver/<family>\<close>). A length is in UTF-16 code units on
  the renderer's side and in bytes on the driver's.
\<close>

section \<open>Characters\<close>

definition is_alnum :: "int \<Rightarrow> bool" where
  "is_alnum c \<longleftrightarrow> is_alpha c \<or> is_digit c"

section \<open>The renderer's rules\<close>

text \<open>Azure Service Bus; a subscription or a rule is a child.\<close>

datatype name_problem = NameEmpty | TooShort | TooLong | Charset | Reserved | Separator

definition azure_ENTITY_MAX :: nat where "azure_ENTITY_MAX = 260"
definition azure_CHILD_MAX :: nat where "azure_CHILD_MAX = 50"

text \<open>\<open>/^[A-Za-z0-9][A-Za-z0-9._\-~/]*$/\<close>\<close>

definition azure_VALID :: "jsstr \<Rightarrow> bool" where
  "azure_VALID s = (case s of [] \<Rightarrow> False
     | c # cs \<Rightarrow> is_alnum c \<and> list_all (\<lambda>x. is_alnum x \<or> x \<in> set (u ''._-~/'')) cs)"

definition azure_nameProblem :: "jsstr \<Rightarrow> bool \<Rightarrow> name_problem option" where
  "azure_nameProblem typd child = (let name = trim typd in
     if name = [] then Some NameEmpty
     else if (if child then azure_CHILD_MAX else azure_ENTITY_MAX) < length name then Some TooLong
     else if starts_with name (u ''$'') \<or> includes_str name (u ''/$'') then Some Reserved
     else if starts_with name (u ''/'') \<or> ends_with name (u ''/'') \<or> includes_str name (u ''//'') then Some Separator
     else if \<not> azure_VALID name then Some Charset
     else if child \<and> includes_str name (u ''/'') then Some Charset
     else None)"

definition azure_submittableName :: "jsstr \<Rightarrow> bool \<Rightarrow> jsstr option" where
  "azure_submittableName typd child = (if azure_nameProblem typd child = None then Some (trim typd) else None)"

text \<open>Google Pub/Sub: \<open>/^[a-zA-Z][a-zA-Z0-9\-_.~+%]*$/\<close> and not \<open>/^goog/i\<close>.\<close>

definition pubsub_NAME_MIN :: nat where "pubsub_NAME_MIN = 3"
definition pubsub_NAME_MAX :: nat where "pubsub_NAME_MAX = 255"

definition pubsub_VALID :: "jsstr \<Rightarrow> bool" where
  "pubsub_VALID s = (case s of [] \<Rightarrow> False
     | c # cs \<Rightarrow> is_alpha c \<and> list_all (\<lambda>x. is_alnum x \<or> x \<in> set (u ''-_.~+%'')) cs)"

definition pubsub_RESERVED_PREFIX :: "jsstr \<Rightarrow> bool" where
  "pubsub_RESERVED_PREFIX s \<longleftrightarrow> starts_with (map ascii_lower s) (u ''goog'')"

definition pubsub_nameProblem :: "jsstr \<Rightarrow> name_problem option" where
  "pubsub_nameProblem typd = (let name = trim typd in
     if name = [] then Some NameEmpty
     else if length name < pubsub_NAME_MIN then Some TooShort
     else if pubsub_NAME_MAX < length name then Some TooLong
     else if \<not> pubsub_VALID name then Some Charset
     else if pubsub_RESERVED_PREFIX name then Some Reserved
     else None)"

definition pubsub_submittableName :: "jsstr \<Rightarrow> jsstr option" where
  "pubsub_submittableName typd = (if pubsub_nameProblem typd = None then Some (trim typd) else None)"

text \<open>IBM MQ: \<open>/^[A-Za-z0-9._/%]+$/\<close>. The upper case of a string is the parameter \<open>upper\<close>.\<close>

definition MAX_OBJECT_NAME :: nat where "MAX_OBJECT_NAME = 48"

definition objectNameProblem :: "jsstr \<Rightarrow> name_problem option" where
  "objectNameProblem name = (let trimmed = trim name in
     if trimmed = [] then Some NameEmpty
     else if MAX_OBJECT_NAME < length trimmed then Some TooLong
     else if \<not> list_all (\<lambda>x. is_alnum x \<or> x \<in> set (u ''._/%'')) trimmed then Some Charset
     else None)"

definition submittableObjectName :: "jsstr \<Rightarrow> jsstr option" where
  "submittableObjectName name = (if objectNameProblem name = None then Some (trim name) else None)"

definition ibmmq_reservedName :: "(jsstr \<Rightarrow> jsstr) \<Rightarrow> jsstr \<Rightarrow> bool" where
  "ibmmq_reservedName upper name \<longleftrightarrow> starts_with (upper (trim name)) (u ''SYSTEM.'')"

text \<open>Kinesis: \<open>/^[a-zA-Z0-9_.-]+$/\<close>.\<close>

definition kinesis_NAME_MAX :: nat where "kinesis_NAME_MAX = 128"
definition MIN_RETENTION_HOURS :: jsnum where "MIN_RETENTION_HOURS = Fin 24"
definition MAX_RETENTION_HOURS :: jsnum where "MAX_RETENTION_HOURS = Fin 8760"

definition kinesis_nameProblem :: "jsstr \<Rightarrow> name_problem option" where
  "kinesis_nameProblem typd = (let name = trim typd in
     if name = [] then Some NameEmpty
     else if kinesis_NAME_MAX < length name then Some TooLong
     else if \<not> list_all (\<lambda>x. is_alnum x \<or> x \<in> set (u ''_.-'')) name then Some Charset
     else None)"

definition kinesis_submittableName :: "jsstr \<Rightarrow> jsstr option" where
  "kinesis_submittableName typd = (if kinesis_nameProblem typd = None then Some (trim typd) else None)"

definition retentionProblem :: "jsnum \<Rightarrow> name_problem option" where
  "retentionProblem hours = (if hours < MIN_RETENTION_HOURS then Some TooShort
     else if MAX_RETENTION_HOURS < hours then Some TooLong else None)"

definition is_whole :: "jsnum \<Rightarrow> bool" where
  "is_whole x = (case x of Fin q \<Rightarrow> q = of_int \<lfloor>q\<rfloor> | _ \<Rightarrow> False)"

text \<open>True is \<open>tooFew\<close>.\<close>

definition shardsProblem :: "jsnum \<Rightarrow> bool" where
  "shardsProblem shards \<longleftrightarrow> \<not> (is_whole shards \<and> Fin 1 \<le> shards)"

text \<open>
  NSQ: \<open>/^[.a-zA-Z0-9_-]+(#ephemeral)?$/\<close>; the class does not hold the hash, so the suffix starts
  where the run ends.
\<close>

definition nsq_NAME_MAX :: nat where "nsq_NAME_MAX = 64"

definition nsq_char :: "int \<Rightarrow> bool" where
  "nsq_char x \<longleftrightarrow> is_alnum x \<or> x \<in> set (u ''._-'')"

definition nsq_VALID :: "jsstr \<Rightarrow> bool" where
  "nsq_VALID s \<longleftrightarrow> takeWhile nsq_char s \<noteq> [] \<and> dropWhile nsq_char s \<in> {[], u ''#ephemeral''}"

definition nsq_nameProblem :: "jsstr \<Rightarrow> name_problem option" where
  "nsq_nameProblem typd = (let name = trim typd in
     if name = [] then Some NameEmpty
     else if nsq_NAME_MAX < length name then Some TooLong
     else if \<not> nsq_VALID name then Some Charset
     else None)"

definition nsq_submittableName :: "jsstr \<Rightarrow> jsstr option" where
  "nsq_submittableName typd = (if nsq_nameProblem typd = None then Some (trim typd) else None)"

definition nsq_isEphemeral :: "jsstr \<Rightarrow> bool" where
  "nsq_isEphemeral typd \<longleftrightarrow> ends_with (trim typd) (u ''#ephemeral'')"

text \<open>Solace: anything but \<open>/[*?'<>&;]/\<close>.\<close>

definition MAX_QUEUE_NAME :: nat where "MAX_QUEUE_NAME = 200"

definition solace_FORBIDDEN :: "int \<Rightarrow> bool" where
  "solace_FORBIDDEN x \<longleftrightarrow> x \<in> {42, 63, 39, 60, 62, 38, 59}"

definition queueNameProblem :: "jsstr \<Rightarrow> name_problem option" where
  "queueNameProblem name = (let trimmed = trim name in
     if trimmed = [] then Some NameEmpty
     else if MAX_QUEUE_NAME < length trimmed then Some TooLong
     else if list_ex solace_FORBIDDEN trimmed then Some Charset
     else None)"

definition submittableQueueName :: "jsstr \<Rightarrow> jsstr option" where
  "submittableQueueName name = (if queueNameProblem name = None then Some (trim name) else None)"

definition solace_reservedName :: "jsstr \<Rightarrow> bool" where
  "solace_reservedName name \<longleftrightarrow> starts_with (trim name) (u ''#'')"

definition sharesConsumers :: "jsstr \<Rightarrow> bool" where
  "sharesConsumers accessType \<longleftrightarrow> accessType = u ''non-exclusive''"

text \<open>SQS: \<open>/^[a-zA-Z0-9_-]+$/\<close>, the suffix taken off first; \<open>slice(0, -5)\<close> is all but the last five.\<close>

definition sqs_NAME_MAX :: nat where "sqs_NAME_MAX = 80"

definition cut_suffix :: "jsstr \<Rightarrow> jsstr" where
  "cut_suffix name = take (length name - length FIFO_SUFFIX) name"

definition sqs_nameProblem :: "jsstr \<Rightarrow> name_problem option" where
  "sqs_nameProblem typd = (let name = trim typd; stem = (if isFifoName name then cut_suffix name else name) in
     if name = [] then Some NameEmpty
     else if sqs_NAME_MAX < length name then Some TooLong
     else if stem = [] then Some NameEmpty
     else if \<not> list_all (\<lambda>x. is_alnum x \<or> x \<in> set (u ''_-'')) stem then Some Charset
     else None)"

definition sqs_submittableName :: "jsstr \<Rightarrow> jsstr option" where
  "sqs_submittableName typd = (if sqs_nameProblem typd = None then Some (trim typd) else None)"

definition withFifo :: "jsstr \<Rightarrow> bool \<Rightarrow> jsstr" where
  "withFifo typd fifo = (let name = trim typd in
     if fifo then (if isFifoName name then name else name @ FIFO_SUFFIX)
     else (if isFifoName name then cut_suffix name else name))"

section \<open>The drivers' rules\<close>

definition ibmmq_validObjectName :: "jsstr \<Rightarrow> bool" where
  "ibmmq_validObjectName name \<longleftrightarrow> length (encode name) \<le> 48 \<and>
     list_all (\<lambda>x. (65 \<le> x \<and> x \<le> 90) \<or> (97 \<le> x \<and> x \<le> 122) \<or> (48 \<le> x \<and> x \<le> 57) \<or> x = 46 \<or> x = 95 \<or> x = 47 \<or> x = 37) name"

definition solace_validQueueName :: "jsstr \<Rightarrow> bool" where
  "solace_validQueueName name \<longleftrightarrow> name \<noteq> [] \<and> length (encode name) \<le> 200
     \<and> list_all (\<lambda>x. x \<notin> {42, 63, 39, 60, 62, 38, 59}) name"

text \<open>
  What the driver's \<open>CreateDestination\<close> makes of the name it is given: the name it goes on with, or
  nothing when it refuses. For SQS the dialog also says
  whether the queue is FIFO, which it reads from the name, and the driver checks that.
\<close>

datatype named = AzureEntity | AzureChild | PubSubName | IbmMqObject | KinesisStream | NsqName | SolaceQueue | SqsQueue

definition accept_if :: "(jsstr \<Rightarrow> bool) \<Rightarrow> jsstr \<Rightarrow> jsstr option" where
  "accept_if rule name = (if TrimSpace name \<noteq> [] \<and> rule (TrimSpace name) then Some (TrimSpace name) else None)"

fun driver_takes :: "named \<Rightarrow> jsstr \<Rightarrow> jsstr option" where
  "driver_takes AzureEntity name = (case azure_requiredName name of Inl e \<Rightarrow> None | Inr n \<Rightarrow> Some n)"
| "driver_takes AzureChild name = (case azure_requiredName name of Inl e \<Rightarrow> None | Inr n \<Rightarrow> Some n)"
| "driver_takes PubSubName name = (case pubsub_requiredName name of Inl e \<Rightarrow> None | Inr n \<Rightarrow> Some n)"
| "driver_takes IbmMqObject name = accept_if ibmmq_validObjectName name"
| "driver_takes KinesisStream name = accept_if (\<lambda>_. True) name"
| "driver_takes NsqName name = (if name = [] then None else Some name)"
| "driver_takes SolaceQueue name = accept_if solace_validQueueName name"
| "driver_takes SqsQueue name = accept_if (\<lambda>n. isFifoName name = ends_with n (u ''.fifo'')) name"

fun submit_name :: "named \<Rightarrow> jsstr \<Rightarrow> jsstr option" where
  "submit_name AzureEntity typd = azure_submittableName typd False"
| "submit_name AzureChild typd = azure_submittableName typd True"
| "submit_name PubSubName typd = pubsub_submittableName typd"
| "submit_name IbmMqObject typd = submittableObjectName typd"
| "submit_name KinesisStream typd = kinesis_submittableName typd"
| "submit_name NsqName typd = nsq_submittableName typd"
| "submit_name SolaceQueue typd = submittableQueueName typd"
| "submit_name SqsQueue typd = sqs_submittableName typd"

section \<open>The two sides together\<close>

text \<open>Visible ASCII is neither trimmed nor widened.\<close>

definition is_visible :: "int \<Rightarrow> bool" where
  "is_visible c \<longleftrightarrow> 33 \<le> c \<and> c \<le> 126"

lemma visible_text:
  assumes "list_all is_visible n"
  shows "trim n = n" "TrimSpace n = n" "encode n = n"
proof -
  have ends: "n = [] \<or> (is_visible (hd n) \<and> is_visible (last n))" using assms by (cases "n = []") (simp_all add: list_all_iff)
  then show "trim n = n" by (intro trim_idle) (auto simp: is_visible_def is_ws_def)
  show "TrimSpace n = n" using ends unfolding TrimSpace_def
    by (intro trim_by_idle) (auto simp: is_visible_def go_space_def is_ws_def)
  show "encode n = n" using assms
    by (induction n rule: encode.induct) (simp_all add: is_visible_def is_high_def is_low_def utf8_def)
qed

lemma alnum_visible: "is_alnum x \<Longrightarrow> is_visible x"
  by (auto simp: is_alnum_def is_alpha_def is_digit_def is_visible_def)

lemma class_visible:
  assumes "list_all is_visible (u p)" and "list_all (\<lambda>x. is_alnum x \<or> x \<in> set (u p)) cs"
  shows "list_all is_visible cs"
  unfolding list_all_iff
proof
  fix x assume "x \<in> set cs"
  then have "is_alnum x \<or> x \<in> set (u p)" using assms(2) by (simp add: list_all_iff)
  then show "is_visible x" using assms(1) alnum_visible by (auto simp: list_all_iff)
qed

lemma punctuation_visible [simp]:
  "list_all is_visible (u ''._-~/'')" "list_all is_visible (u ''-_.~+%'')" "list_all is_visible (u ''._/%'')"
  "list_all is_visible (u ''_.-'')" "list_all is_visible (u ''._-'')" "list_all is_visible (u ''_-'')"
  "list_all is_visible (u ''#ephemeral'')" "list_all is_visible (u ''.fifo'')"
  by (simp_all add: u_def is_visible_def)

lemma isFifoName_trim [simp]: "isFifoName (trim s) = isFifoName s"
  by (simp add: isFifoName_def)

lemma fifo_parts: "isFifoName n \<Longrightarrow> trim n = n \<Longrightarrow> n = cut_suffix n @ FIFO_SUFFIX"
proof -
  assume "isFifoName n" "trim n = n"
  then have "take (length FIFO_SUFFIX) (rev n) = rev FIFO_SUFFIX" by (simp add: isFifoName_def ends_with_def starts_with_def)
  then have "drop (length n - length FIFO_SUFFIX) n = FIFO_SUFFIX" by (metis rev_drop rev_rev_ident rev_swap take_rev)
  then show ?thesis unfolding cut_suffix_def by (metis append_take_drop_id)
qed

lemma accepted_visible:
  "azure_VALID n \<Longrightarrow> list_all is_visible n"
  "pubsub_VALID n \<Longrightarrow> list_all is_visible n"
  "nsq_VALID n \<Longrightarrow> list_all is_visible n"
proof -
  show "azure_VALID n \<Longrightarrow> list_all is_visible n"
    by (cases n) (simp_all add: azure_VALID_def alnum_visible class_visible [OF punctuation_visible(1)])
  show "pubsub_VALID n \<Longrightarrow> list_all is_visible n"
    by (cases n) (simp_all add: pubsub_VALID_def alnum_visible is_alnum_def class_visible [OF punctuation_visible(2)])
  assume n: "nsq_VALID n"
  have "list_all (\<lambda>x. is_alnum x \<or> x \<in> set (u ''._-'')) (takeWhile nsq_char n)"
    by (auto simp: list_all_iff nsq_char_def dest!: set_takeWhileD)
  then have "list_all is_visible (takeWhile nsq_char n)" by (rule class_visible [OF punctuation_visible(5)])
  moreover have "dropWhile nsq_char n = [] \<or> dropWhile nsq_char n = u ''#ephemeral''" using n unfolding nsq_VALID_def by blast
  then have "list_all is_visible (dropWhile nsq_char n)" by (metis (full_types) list.pred_inject(1) punctuation_visible(7))
  ultimately show "list_all is_visible n"
    using takeWhile_dropWhile_id [of nsq_char n] by (metis list_all_append)
qed

lemma sqs_stem:
  assumes "sqs_nameProblem s = None"
  shows "list_all (\<lambda>x. is_alnum x \<or> x \<in> set (u ''_-'')) (if isFifoName s then cut_suffix (trim s) else trim s)"
    and "(if isFifoName s then cut_suffix (trim s) else trim s) \<noteq> []" and "length (trim s) \<le> 80"
  using assms by (auto simp: sqs_nameProblem_def sqs_NAME_MAX_def Let_def split: if_splits)

lemma sqs_visible: "sqs_nameProblem s = None \<Longrightarrow> list_all is_visible (trim s)"
proof -
  assume s: "sqs_nameProblem s = None"
  note stem = class_visible [OF punctuation_visible(6) sqs_stem(1) [OF s]]
  show ?thesis
  proof (cases "isFifoName s")
    case True
    moreover have "list_all is_visible FIFO_SUFFIX" by (simp add: FIFO_SUFFIX_def)
    ultimately show ?thesis using stem fifo_parts [of "trim s"] by (metis isFifoName_trim list_all_append trim_trim)
  qed (use stem in simp)
qed

text \<open>A name without a dot is no FIFO name; with the suffix it is one, and its stem is itself.\<close>

lemma dotless:
  assumes "46 \<notin> set n" and "n \<noteq> []" and "trim n = n"
  shows "\<not> isFifoName n" "isFifoName (n @ FIFO_SUFFIX)" "cut_suffix (n @ FIFO_SUFFIX) = n" "trim (n @ FIFO_SUFFIX) = n @ FIFO_SUFFIX"
proof -
  have dot: "46 \<in> set FIFO_SUFFIX" "FIFO_SUFFIX \<noteq> []" "\<not> is_ws (last FIFO_SUFFIX)" by (simp_all add: FIFO_SUFFIX_def u_def is_ws_def)
  show "\<not> isFifoName n"
  proof
    assume "isFifoName n"
    from fifo_parts [OF this assms(3)] have "set FIFO_SUFFIX \<subseteq> set n" by (metis le_sup_iff set_append subset_refl)
    then show False using dot assms(1) by auto
  qed
  show t: "trim (n @ FIFO_SUFFIX) = n @ FIFO_SUFFIX"
    using assms(2,3) dot trim_nonblank [of n] by (intro trim_idle) simp
  show "isFifoName (n @ FIFO_SUFFIX)" by (simp add: isFifoName_def t ends_with_def starts_with_def)
  show "cut_suffix (n @ FIFO_SUFFIX) = n" by (simp add: cut_suffix_def)
qed

text \<open>
  The FIFO switch of the SQS dialog does what it says to a name the service takes: the name
  becomes, or stops being, that of a FIFO queue, stays acceptable unless the suffix makes it too
  long, and switching back restores it.
\<close>

lemma fifo_switch:
  assumes "sqs_nameProblem s = None"
  shows "isFifoName (withFifo s fifo) = fifo
    \<and> (sqs_nameProblem (withFifo s fifo) = None \<or> sqs_nameProblem (withFifo s fifo) = Some TooLong \<and> 75 < length (trim s))
    \<and> withFifo (withFifo s fifo) (isFifoName s) = trim s"
proof -
  define stem where "stem = (if isFifoName s then cut_suffix (trim s) else trim s)"
  have chars: "list_all (\<lambda>x. is_alnum x \<or> x \<in> set (u ''_-'')) stem" "stem \<noteq> []"
    using sqs_stem [OF assms] by (simp_all add: stem_def)
  have dot: "46 \<notin> set stem" using chars(1) by (auto simp: list_all_iff u_def is_alnum_def is_alpha_def is_digit_def)
  have stem_trim: "trim stem = stem" using class_visible [OF punctuation_visible(6) chars(1)] by (rule visible_text)
  note fifo_stem = dotless [OF dot chars(2) stem_trim]
  have n: "trim s = (if isFifoName s then stem @ FIFO_SUFFIX else stem)"
    using fifo_parts [of "trim s"] by (simp add: stem_def)
  have w: "withFifo s b = (if b then stem @ FIFO_SUFFIX else stem)" for b
    using fifo_stem by (cases b; cases "isFifoName s") (simp_all add: withFifo_def Let_def n)
  have again: "withFifo (withFifo s b) c = (if c then stem @ FIFO_SUFFIX else stem)" for b c :: bool
    unfolding w using fifo_stem stem_trim by (cases b; cases c) (simp_all add: withFifo_def Let_def)
  have problem: "sqs_nameProblem (withFifo s b) =
      (if 80 < length (withFifo s b) then Some TooLong else None)" for b
    unfolding w using fifo_stem stem_trim chars
    by (cases b) (simp_all add: sqs_nameProblem_def sqs_NAME_MAX_def Let_def FIFO_SUFFIX_def)
  have len: "length (trim s) \<le> 80" by (rule sqs_stem(3) [OF assms])
  have "80 < length (withFifo s fifo) \<Longrightarrow> 75 < length (trim s)"
    using len by (auto simp: w n FIFO_SUFFIX_def u_def split: if_splits)
  moreover have "isFifoName (withFifo s fifo) = fifo" unfolding w using fifo_stem by simp
  moreover have "withFifo (withFifo s fifo) (isFifoName s) = trim s" unfolding again n ..
  ultimately show ?thesis using problem [of fifo] by auto
qed

text \<open>
  A second suffix defeats the switch: turned off, it leaves a name that is still a FIFO queue's, and
  acceptable.
\<close>

lemma double_suffix:
  "isFifoName (withFifo (u ''a.fifo.fifo'') False)" "sqs_submittableName (withFifo (u ''a.fifo.fifo'') False) = Some (u ''a.fifo'')"
proof -
  have w: "withFifo (u ''a.fifo.fifo'') False = u ''a.fifo''"
    by (simp add: withFifo_def Let_def isFifoName_def cut_suffix_def FIFO_SUFFIX_def)
      (simp add: u_def trim_def trim_start_def trim_end_def is_ws_def ends_with_def starts_with_def)
  have t: "trim (u ''a.fifo'') = u ''a.fifo''" by (simp add: u_def trim_def trim_start_def trim_end_def is_ws_def)
  show f: "isFifoName (withFifo (u ''a.fifo.fifo'') False)"
    unfolding w isFifoName_def t by (simp add: FIFO_SUFFIX_def u_def ends_with_def starts_with_def)
  have "cut_suffix (u ''a.fifo'') = u ''a''" by (simp add: cut_suffix_def FIFO_SUFFIX_def u_def)
  then have "sqs_nameProblem (u ''a.fifo'') = None"
    using f unfolding w by (simp add: sqs_nameProblem_def t sqs_NAME_MAX_def Let_def) (simp add: u_def is_alnum_def is_alpha_def)
  then show "sqs_submittableName (withFifo (u ''a.fifo.fifo'') False) = Some (u ''a.fifo'')"
    unfolding w by (simp add: sqs_submittableName_def t)
qed

lemma accepted_facts:
  "submit_name k s = Some n \<Longrightarrow> n = trim s \<and> n \<noteq> []"
  by (cases k)
    (auto simp: azure_submittableName_def azure_nameProblem_def pubsub_submittableName_def pubsub_nameProblem_def
      submittableObjectName_def objectNameProblem_def kinesis_submittableName_def kinesis_nameProblem_def
      nsq_submittableName_def nsq_nameProblem_def submittableQueueName_def queueNameProblem_def
      sqs_submittableName_def sqs_nameProblem_def Let_def split: if_splits)

lemma accepted_ascii:
  assumes "submit_name k s = Some n" and "k \<noteq> SolaceQueue"
  shows "list_all is_visible n"
proof (cases k)
  case AzureEntity
  then show ?thesis using assms(1)
    by (auto simp: azure_submittableName_def azure_nameProblem_def Let_def accepted_visible split: if_splits)
next
  case AzureChild
  then show ?thesis using assms(1)
    by (auto simp: azure_submittableName_def azure_nameProblem_def Let_def accepted_visible split: if_splits)
next
  case PubSubName
  then show ?thesis using assms(1)
    by (auto simp: pubsub_submittableName_def pubsub_nameProblem_def Let_def accepted_visible split: if_splits)
next
  case IbmMqObject
  then show ?thesis using assms(1) class_visible [OF punctuation_visible(3)]
    by (auto simp: submittableObjectName_def objectNameProblem_def Let_def split: if_splits)
next
  case KinesisStream
  then show ?thesis using assms(1) class_visible [OF punctuation_visible(4)]
    by (auto simp: kinesis_submittableName_def kinesis_nameProblem_def Let_def split: if_splits)
next
  case NsqName
  then show ?thesis using assms(1)
    by (auto simp: nsq_submittableName_def nsq_nameProblem_def Let_def accepted_visible split: if_splits)
next
  case SqsQueue
  then show ?thesis using assms(1) sqs_visible by (auto simp: sqs_submittableName_def split: if_splits)
qed (use assms in simp)

lemma submit_again: "submit_name k s = Some n \<Longrightarrow> submit_name k n = Some n"
proof -
  assume s: "submit_name k s = Some n"
  then have "n = trim s" using accepted_facts by blast
  moreover have "submit_name k (trim s) = submit_name k s"
    by (cases k) (simp_all add: azure_submittableName_def azure_nameProblem_def pubsub_submittableName_def pubsub_nameProblem_def
      submittableObjectName_def objectNameProblem_def kinesis_submittableName_def kinesis_nameProblem_def
      nsq_submittableName_def nsq_nameProblem_def submittableQueueName_def queueNameProblem_def
      sqs_submittableName_def sqs_nameProblem_def Let_def)
  ultimately show ?thesis using s by simp
qed

text \<open>
  C28: A name a create dialog submits stands as typed but for the space around it, is submitted
  again unchanged, and is taken by the driver as it is; for Solace exactly when Go's trimming
  leaves it and its UTF-8 has no more than two hundred bytes.
\<close>

theorem names_pass_the_driver:
  assumes "submit_name k s = Some n"
  shows "n = trim s \<and> submit_name k n = Some n
    \<and> (driver_takes k n = Some n \<longleftrightarrow> k \<noteq> SolaceQueue \<or> TrimSpace n = n \<and> length (encode n) \<le> 200)"
proof -
  note n = accepted_facts [OF assms]
  have taken: "driver_takes k n = Some n" if "k \<noteq> SolaceQueue"
  proof -
    note v = visible_text [OF accepted_ascii [OF assms that]]
    show ?thesis
    proof (cases k)
      case AzureEntity
      then show ?thesis using assms n v
        by (auto simp: azure_submittableName_def azure_nameProblem_def azure_requiredName_def Let_def split: if_splits)
    next
      case AzureChild
      then show ?thesis using assms n v
        by (auto simp: azure_submittableName_def azure_nameProblem_def azure_requiredName_def Let_def split: if_splits)
    next
      case PubSubName
      then have "pubsub_VALID n" using assms
        by (auto simp: pubsub_submittableName_def pubsub_nameProblem_def Let_def split: if_splits)
      then have "slash \<notin> set n"
        by (cases n) (auto simp: pubsub_VALID_def list_all_iff is_alnum_def is_alpha_def is_digit_def u_def)
      then show ?thesis using PubSubName n v by (auto simp: pubsub_requiredName_def Let_def)
    next
      case IbmMqObject
      then have "list_all (\<lambda>x. is_alnum x \<or> x \<in> set (u ''._/%'')) n" "length n \<le> 48" using assms
        by (auto simp: submittableObjectName_def objectNameProblem_def MAX_OBJECT_NAME_def Let_def split: if_splits)
      then have "ibmmq_validObjectName n" using v(3)
        by (auto simp: ibmmq_validObjectName_def list_all_iff is_alnum_def is_alpha_def is_digit_def u_def)
      then show ?thesis using IbmMqObject n v by (auto simp: accept_if_def)
    qed (use that n v in \<open>auto simp: accept_if_def isFifoName_def FIFO_SUFFIX_def\<close>)
  qed
  have "driver_takes k n = Some n \<longleftrightarrow> TrimSpace n = n \<and> length (encode n) \<le> 200" if k: "k = SolaceQueue"
  proof -
    have "\<not> list_ex solace_FORBIDDEN n" using assms k
      by (auto simp: submittableQueueName_def queueNameProblem_def Let_def split: if_splits)
    then have "list_all (\<lambda>x. x \<notin> {42, 63, 39, 60, 62, 38, 59}) n" by (auto simp: list_ex_iff list_all_iff solace_FORBIDDEN_def)
    then show ?thesis using k n by (auto simp: accept_if_def solace_validQueueName_def)
  qed
  then show ?thesis using taken n submit_again [OF assms] by blast
qed

theorem names_pass_the_driver_witness: "driver_takes NsqName (u ''a#ephemeral'') = Some (u ''a#ephemeral'')"
proof -
  have t: "trim (u ''a#ephemeral'') = u ''a#ephemeral''" by (simp add: u_def trim_def trim_start_def trim_end_def is_ws_def)
  have "nsq_VALID (u ''a#ephemeral'')"
    by (simp add: nsq_VALID_def nsq_char_def is_alnum_def is_alpha_def is_digit_def u_def)
  then have "submit_name NsqName (u ''a#ephemeral'') = Some (u ''a#ephemeral'')"
    by (simp add: nsq_submittableName_def nsq_nameProblem_def t nsq_NAME_MAX_def Let_def) (simp add: u_def)
  from names_pass_the_driver [OF this] show ?thesis by simp
qed

text \<open>
  The two length rules for a Solace queue differ: sixty-seven CJK characters pass the dialog, whose
  comment says the driver applies the same rule, and are two hundred and one bytes for the driver.
\<close>

lemma solace_bytes_not_characters:
  "submit_name SolaceQueue (replicate 67 38431) = Some (replicate 67 38431)"
  "driver_takes SolaceQueue (replicate 67 38431) = None"
proof -
  let ?n = "replicate 67 38431 :: jsstr"
  have plain: "\<not> is_ws 38431" "\<not> go_space 38431" "\<not> solace_FORBIDDEN 38431"
    by (simp_all add: is_ws_def go_space_def solace_FORBIDDEN_def)
  have t: "trim ?n = ?n" "TrimSpace ?n = ?n"
    unfolding TrimSpace_def using plain by (intro trim_idle trim_by_idle; simp)+
  have e: "length (encode (replicate k 38431)) = 3 * k" for k
  proof (induction k rule: less_induct)
    case (less k)
    show ?case
    proof (cases k)
      case (Suc j)
      then show ?thesis using less [of j] by (cases j) (simp_all add: is_high_def is_low_def utf8_def)
    qed simp
  qed
  show "submit_name SolaceQueue ?n = Some ?n"
    using plain by (simp add: submittableQueueName_def queueNameProblem_def t MAX_QUEUE_NAME_def Let_def list_ex_iff)
  show "driver_takes SolaceQueue ?n = None"
    using e [of 67] by (simp add: accept_if_def t solace_validQueueName_def)
qed

end
