(* ===== verification/Kafka_Admin.thy ===== *)
theory Kafka_Admin
  imports Header_Boxes Object_Names
begin

text \<open>
  The forms of the Kafka boards that change the cluster: a grant and a SCRAM user
  (\<open>aclKafkaDraft.ts\<close>), a quota (\<open>quotaDraft.ts\<close>), a reassignment (\<open>reassignDraft.ts\<close>) and a new topic
  (\<open>TopicDialogKafka.tsx\<close>), with the driver's reading of a resource and its checks of a plan and of a
  quota (\<open>internal/driver/kafka\<close>).
\<close>

section \<open>Grants\<close>

datatype AclEffect = Allow | Deny

record AclPolicyDraft =
  ap_kind :: jsstr
  ap_name :: jsstr
  ap_prefixed :: bool
  ap_operations :: "jsstr list"
  ap_effect :: AclEffect
  ap_host :: jsstr

record AclRuleDraft =
  ar_subject :: jsstr
  ar_policies :: "AclPolicyDraft list"

definition emptyAclPolicyDraft :: AclPolicyDraft where
  "emptyAclPolicyDraft = \<lparr>ap_kind = u ''topic'', ap_name = [], ap_prefixed = False, ap_operations = [], ap_effect = Allow, ap_host = []\<rparr>"

definition emptyAclRuleDraft :: AclRuleDraft where
  "emptyAclRuleDraft = \<lparr>ar_subject = [], ar_policies = [emptyAclPolicyDraft]\<rparr>"

text \<open>\<open>/^[A-Za-z]+:.+$/\<close>: the dot is no line terminator, and the class before it does not hold the colon.\<close>

definition is_terminator :: "int \<Rightarrow> bool" where
  "is_terminator c \<longleftrightarrow> c \<in> {10, 13, 8232, 8233}"

definition is_principal :: "jsstr \<Rightarrow> bool" where
  "is_principal s \<longleftrightarrow> takeWhile is_alpha s \<noteq> [] \<and>
     (case dropWhile is_alpha s of c # cs \<Rightarrow> c = 58 \<and> cs \<noteq> [] \<and> list_all (\<lambda>x. \<not> is_terminator x) cs | [] \<Rightarrow> False)"

definition policy_problem :: "AclPolicyDraft \<Rightarrow> string option" where
  "policy_problem policy =
    (if length (ap_operations policy) = 0 then Some ''operationRequired''
     else if ap_kind policy \<noteq> u ''cluster'' \<and> trim (ap_name policy) = [] then Some ''nameRequired''
     else if ap_prefixed policy \<and> trim (ap_name policy) = [] then Some ''prefixEmpty''
     else None)"

fun first_problem :: "('a \<Rightarrow> string option) \<Rightarrow> 'a list \<Rightarrow> string option" where
  "first_problem f [] = None"
| "first_problem f (x # xs) = (case f x of Some e \<Rightarrow> Some e | None \<Rightarrow> first_problem f xs)"

definition validateAclRuleDraft :: "AclRuleDraft \<Rightarrow> string option" where
  "validateAclRuleDraft draft =
    (if trim (ar_subject draft) = [] then Some ''subjectRequired''
     else if \<not> is_principal (trim (ar_subject draft)) then Some ''subjectShape''
     else if length (ar_policies draft) = 0 then Some ''policyRequired''
     else first_problem policy_problem (ar_policies draft))"

definition resourceOf :: "AclPolicyDraft \<Rightarrow> jsstr" where
  "resourceOf policy = (if ap_kind policy = u ''cluster'' then u ''cluster''
     else ap_kind policy @ u '':'' @ trim (ap_name policy) @ (if ap_prefixed policy then u ''*'' else []))"

record AccessPolicyInput =
  ai_resource :: jsstr
  ai_actions :: "jsstr list"
  ai_effect :: AclEffect
  ai_sourceIps :: "jsstr list"
  ai_decision :: jsstr

record AccessRuleInput =
  ru_subject :: jsstr
  ru_description :: jsstr
  ru_policies :: "AccessPolicyInput list"

definition toAccessRule :: "AclRuleDraft \<Rightarrow> AccessRuleInput" where
  "toAccessRule draft = \<lparr>ru_subject = trim (ar_subject draft), ru_description = [],
     ru_policies = map (\<lambda>policy. \<lparr>ai_resource = resourceOf policy, ai_actions = ap_operations policy, ai_effect = ap_effect policy,
       ai_sourceIps = (if trim (ap_host policy) = [] then [] else [trim (ap_host policy)]), ai_decision = []\<rparr>) (ar_policies draft)\<rparr>"

text \<open>The driver's \<open>splitResource\<close>: the kind, the name, whether the pattern is prefixed.\<close>

definition splitResource :: "jsstr \<Rightarrow> jsstr \<times> jsstr \<times> bool" where
  "splitResource raw = (let resource = TrimSpace raw in
     if resource = u ''cluster'' then (u ''cluster'', u ''kafka-cluster'', False)
     else if 58 \<notin> set resource then ([], [], False)
     else (let kind = takeWhile (\<lambda>c. c \<noteq> 58) resource; name = tl (dropWhile (\<lambda>c. c \<noteq> 58) resource) in
       if ends_with name (u ''*'') \<and> 1 < length (encode name) then (kind, take (length name - 1) name, True)
       else (kind, name, False)))"

section \<open>SCRAM users\<close>

record ScramUserDraft =
  su_name :: jsstr
  su_password :: jsstr
  su_mechanism :: jsstr

definition emptyScramUserDraft :: ScramUserDraft where
  "emptyScramUserDraft = \<lparr>su_name = [], su_password = [], su_mechanism = u ''SCRAM-SHA-512''\<rparr>"

definition validateScramUserDraft :: "ScramUserDraft \<Rightarrow> string option" where
  "validateScramUserDraft draft =
    (if trim (su_name draft) = [] then Some ''nameRequired''
     else if includes_str (su_name draft) (u '':'') then Some ''nameColon''
     else if su_password draft = [] then Some ''passwordRequired''
     else None)"

definition toPrincipalSpec :: "ScramUserDraft \<Rightarrow> jsstr \<times> jsstr \<times> jsstr \<times> jsstr" where
  "toPrincipalSpec draft = (trim (su_name draft), su_password draft, su_mechanism draft, u ''enabled'')"

section \<open>Quotas\<close>

record QuotaEntityDraft =
  qe_type :: jsstr
  qe_name :: jsstr
  qe_isDefault :: bool

record QuotaDraft =
  qd_entity :: "QuotaEntityDraft list"
  qd_limits :: "(jsstr \<times> jsstr) list"

definition emptyQuotaDraft :: "jsstr list \<Rightarrow> QuotaDraft" where
  "emptyQuotaDraft limits = \<lparr>qd_entity = [\<lparr>qe_type = u ''user'', qe_name = [], qe_isDefault = False\<rparr>],
     qd_limits = foldl (\<lambda>ob key. obj_set key [] ob) [] limits\<rparr>"

definition entityCombinationIsValid :: "QuotaEntityDraft list \<Rightarrow> bool" where
  "entityCombinationIsValid entity \<longleftrightarrow>
     \<not> (list_ex (\<lambda>one. qe_type one = u ''ip'') entity
        \<and> list_ex (\<lambda>one. qe_type one = u ''user'' \<or> qe_type one = u ''client-id'') entity)"

fun limits_problem :: "bool \<Rightarrow> jsstr list \<Rightarrow> string option" where
  "limits_problem any [] = (if any then None else Some ''limitRequired'')"
| "limits_problem any (val # vals) =
    (if trim val = [] then limits_problem any vals
     else if \<not> is_finite (to_number val) \<or> to_number val < Fin 0 then Some ''limitInvalid''
     else limits_problem True vals)"

definition validateQuotaDraft :: "QuotaDraft \<Rightarrow> string option" where
  "validateQuotaDraft draft =
    (if length (qd_entity draft) = 0 then Some ''entityRequired''
     else if list_ex (\<lambda>one. \<not> qe_isDefault one \<and> trim (qe_name one) = []) (qd_entity draft) then Some ''nameRequired''
     else if \<not> distinct (map qe_type (qd_entity draft)) then Some ''duplicateType''
     else if \<not> entityCombinationIsValid (qd_entity draft) then Some ''ipCombination''
     else limits_problem False (map snd (qd_limits draft)))"

definition toQuotaEntity :: "QuotaDraft \<Rightarrow> (jsstr \<times> jsstr \<times> bool) list" where
  "toQuotaEntity draft = map (\<lambda>one. (qe_type one, if qe_isDefault one then [] else trim (qe_name one), qe_isDefault one)) (qd_entity draft)"

definition toQuotaLimits :: "QuotaDraft \<Rightarrow> (jsstr \<times> jsnum) list" where
  "toQuotaLimits draft = foldl (\<lambda>ob (key, val). if trim val = [] then ob else obj_set key (to_number val) ob) [] (qd_limits draft)"

text \<open>\<open>quotaLabel\<close> and \<open>quotaLimitKeys\<close>; a component may be null, and \<open>sort\<close> compares code units.\<close>

definition quotaLabel :: "(jsstr \<times> jsstr \<times> bool) option list \<Rightarrow> jsstr" where
  "quotaLabel entity = join_with (u '', '') (map (\<lambda>(typ, name, is_default). typ @ u ''='' @ (if is_default then u ''<default>'' else name))
     (List.map_filter (\<lambda>x. x) entity))"

definition unit_cmp :: "jsstr \<Rightarrow> jsstr \<Rightarrow> int" where
  "unit_cmp a b = (if a = b then 0 else if ord.lexordp (<) a b then - 1 else 1)"

definition quotaLimitKeys :: "(jsstr \<times> jsnum) list \<Rightarrow> jsstr list" where
  "quotaLimitKeys limits = sort_by unit_cmp (map fst limits)"

text \<open>The driver's own check of the combination.\<close>

definition checkQuotaEntityCombination :: "(jsstr \<times> jsstr \<times> bool) list \<Rightarrow> bool" where
  "checkQuotaEntityCombination entity \<longleftrightarrow>
     \<not> (list_ex (\<lambda>(typ, _). typ = u ''ip'') entity \<and> list_ex (\<lambda>(typ, _). typ = u ''user'' \<or> typ = u ''client-id'') entity)"

section \<open>Reassignment\<close>

definition emptyReassignDraft :: "jsnum list \<Rightarrow> jsstr" where
  "emptyReassignDraft replicas = join_with (u '', '') (map num_to_str replicas)"

definition broker_parts :: "jsstr \<Rightarrow> jsstr list" where
  "broker_parts raw = filter (\<lambda>part. part \<noteq> []) (map trim (split_on comma raw))"

definition is_digits :: "jsstr \<Rightarrow> bool" where
  "is_digits s \<longleftrightarrow> s \<noteq> [] \<and> list_all is_digit s"

definition parseBrokerList :: "jsstr \<Rightarrow> jsnum list option" where
  "parseBrokerList raw = (let parts = broker_parts raw in
     if length parts = 0 then None
     else if list_all is_digits parts then Some (map parse_int parts) else None)"

text \<open>The draft is the typed list of brokers.\<close>

definition validateReassignDraft :: "jsstr \<Rightarrow> jsnum list \<Rightarrow> string option" where
  "validateReassignDraft draft clusterBrokers = (case parseBrokerList draft of
     None \<Rightarrow> Some ''brokersRequired''
   | Some ids \<Rightarrow>
       if \<not> distinct ids then Some ''duplicate''
       else if list_ex (\<lambda>ident. ident \<notin> set clusterBrokers) ids then Some ''unknownBroker''
       else if length clusterBrokers < length ids then Some ''tooMany''
       else None)"

definition isUnchanged :: "jsstr \<Rightarrow> jsnum list \<Rightarrow> bool" where
  "isUnchanged draft current = (case parseBrokerList draft of None \<Rightarrow> False
     | Some ids \<Rightarrow> length ids = length current \<and> list_all (\<lambda>(ident, cur). ident = cur) (zip ids current))"

text \<open>The driver's \<open>checkBrokers\<close>, in the order of the plan; \<open>live\<close> are the brokers it lists.\<close>

fun checkBrokers :: "(int \<Rightarrow> bool) \<Rightarrow> int list \<Rightarrow> int list \<Rightarrow> bool" where
  "checkBrokers live seen [] \<longleftrightarrow> True"
| "checkBrokers live seen (b # bs) \<longleftrightarrow> live b \<and> b \<notin> set seen \<and> checkBrokers live (b # seen) bs"

section \<open>New topics\<close>

record KafkaTopicDraft =
  kt_name :: jsstr
  kt_partitions :: jsstr
  kt_replicationFactor :: jsstr
  kt_cleanupPolicy :: jsstr
  kt_retentionMs :: jsstr
  kt_minInsyncReplicas :: jsstr
  kt_extraConfigs :: jsstr

definition emptyKafkaTopicDraft :: KafkaTopicDraft where
  "emptyKafkaTopicDraft = \<lparr>kt_name = [], kt_partitions = u ''3'', kt_replicationFactor = [], kt_cleanupPolicy = [],
     kt_retentionMs = [], kt_minInsyncReplicas = [], kt_extraConfigs = []\<rparr>"

definition topic_number_bad :: "string \<times> jsstr \<Rightarrow> bool" where
  "topic_number_bad fv \<longleftrightarrow> trim (snd fv) \<noteq> [] \<and>
     (let parsed = parse_int (snd fv) in
      parsed = NaN \<or> (if fst fv = ''retentionMs'' then parsed < Fin (- 1) else parsed < Fin 1))"

definition validateKafkaTopicDraft :: "KafkaTopicDraft \<Rightarrow> string option" where
  "validateKafkaTopicDraft draft = (let name = trim (kt_name draft) in
     if name = [] then Some ''nameRequired''
     else if \<not> list_all (\<lambda>x. is_alnum x \<or> x \<in> set (u ''._-'')) name then Some ''nameInvalid''
     else if name = u ''.'' \<or> name = u ''..'' then Some ''nameInvalid''
     else if 249 < length name then Some ''nameTooLong''
     else if list_ex topic_number_bad [(''partitions'', kt_partitions draft), (''replicationFactor'', kt_replicationFactor draft),
         (''minInsyncReplicas'', kt_minInsyncReplicas draft), (''retentionMs'', kt_retentionMs draft)] then Some ''notANumber''
     else if read_box KafkaBox (kt_extraConfigs draft) = None then Some ''configLine''
     else None)"

definition or_zero :: "jsnum \<Rightarrow> jsnum" where
  "or_zero x = (if x = NaN \<or> x = Fin 0 then Fin 0 else x)"

record KafkaTopicInput =
  ki_name :: jsstr
  ki_partitions :: jsnum
  ki_replicationFactor :: jsnum
  ki_configs :: "(jsstr \<times> jsstr) list"

definition toKafkaTopicInput :: "KafkaTopicDraft \<Rightarrow> KafkaTopicInput" where
  "toKafkaTopicInput draft =
    \<lparr>ki_name = trim (kt_name draft), ki_partitions = or_zero (parse_int (kt_partitions draft)),
     ki_replicationFactor = or_zero (parse_int (kt_replicationFactor draft)),
     ki_configs = foldl (\<lambda>configs (key, val). if trim val \<noteq> [] then obj_set key (trim val) configs else configs)
       (nullish (read_box KafkaBox (kt_extraConfigs draft)) [])
       [(u ''cleanup.policy'', kt_cleanupPolicy draft), (u ''retention.ms'', kt_retentionMs draft),
        (u ''min.insync.replicas'', kt_minInsyncReplicas draft)]\<rparr>"

section \<open>What the driver reads of a grant\<close>

lemma encode_at_least: "length s \<le> length (encode s)"
proof (induction s rule: encode.induct)
  case (3 c d cs)
  then show ?case by (auto simp: utf8_def replacement_def is_high_def is_low_def)
qed (auto simp: utf8_def replacement_def)

lemma ends_with_star: "ends_with s (u ''*'') \<longleftrightarrow> s \<noteq> [] \<and> last s = 42" "ends_with s [42] \<longleftrightarrow> s \<noteq> [] \<and> last s = 42"
  by (cases s rule: rev_cases; simp add: ends_with_def starts_with_def u_def)+

text \<open>A grant's kinds but the cluster; none holds a colon or a space.\<close>

definition pattern_kinds :: "jsstr set" where
  "pattern_kinds = {u ''topic'', u ''group'', u ''transactionalId''}"

lemma pattern_kind_text:
  assumes "k \<in> pattern_kinds"
  shows "58 \<notin> set k" "k \<noteq> []" "\<not> go_space (hd k)" "k \<noteq> u ''cluster''"
  using assms by (auto simp: pattern_kinds_def u_def go_space_def is_ws_def)

lemma split_at_colon:
  assumes "58 \<notin> set k"
  shows "takeWhile (\<lambda>c. c \<noteq> 58) (k @ u '':'' @ n) = k" "tl (dropWhile (\<lambda>c. c \<noteq> 58) (k @ u '':'' @ n)) = n"
  using assms by (simp_all add: u_def takeWhile_append takeWhile_eq_all_conv dropWhile_append)

lemma splitResource_pattern:
  assumes k: "k \<in> pattern_kinds" and n: "n \<noteq> []" "\<not> go_space (last n)"
  shows "splitResource (k @ u '':'' @ n)
    = (if last n = 42 \<and> 1 < length n then (k, butlast n, True) else (k, n, False))"
proof -
  have t: "TrimSpace (k @ u '':'' @ n) = k @ u '':'' @ n"
    unfolding TrimSpace_def by (rule trim_by_idle) (use pattern_kind_text [OF k] n in \<open>simp add: u_def\<close>)
  have c: "k @ u '':'' @ n \<noteq> u ''cluster''" "58 \<in> set (k @ u '':'' @ n)"
    by (auto simp: u_def append_eq_Cons_conv)
  have l: "1 < length (encode n) \<longleftrightarrow> 1 < length n" if "last n = 42"
  proof (cases "n = [42]")
    case False
    then have "2 \<le> length n" using n(1) that by (cases n) (auto simp: Suc_le_eq)
    then show ?thesis using encode_at_least [of n] by simp
  qed (simp add: is_high_def is_low_def utf8_def)
  show ?thesis
    unfolding splitResource_def t Let_def split_at_colon [OF pattern_kind_text(1) [OF k]]
    using c l n by (cases "last n = 42") (simp_all add: ends_with_star butlast_conv_take)
qed

text \<open>
  C29: An accepted grant on a topic, a group or a transactional id is the one the driver creates - the
  kind, the trimmed name, prefixed or literal - if and only if it is prefixed, its name does not end
  in a star, or its name is the star alone: a literal name with a trailing star is created as a
  prefix that covers every name starting like it. The text carries no next-line character, which
  the two languages trim differently.
\<close>

theorem acl_pattern_exact:
  assumes "policy_problem p = None" and "ap_kind p \<in> pattern_kinds" and "133 \<notin> set (ap_name p)"
  shows "splitResource (resourceOf p) = (ap_kind p, trim (ap_name p), ap_prefixed p)
    \<longleftrightarrow> ap_prefixed p \<or> \<not> ends_with (trim (ap_name p)) (u ''*'') \<or> trim (ap_name p) = u ''*''"
proof -
  let ?n = "trim (ap_name p)"
  have kind: "ap_kind p \<noteq> u ''cluster''" using pattern_kind_text [OF assms(2)] by blast
  have n: "?n \<noteq> []" using assms(1) kind by (auto simp: policy_problem_def split: if_splits)
  then have "last ?n \<in> set (ap_name p)" using set_trim_by [of is_ws] by (fastforce simp: trim_by_is_ws)
  then have g: "\<not> go_space (last ?n)" using trim_nonblank [OF n] assms(3) by (auto simp: go_space_def)
  have star: "\<not> go_space 42" by (simp add: go_space_def is_ws_def)
  have one: "last ?n = 42 \<and> \<not> 1 < length ?n \<longleftrightarrow> ?n = [42]" using n by (cases ?n) auto
  have r: "resourceOf p = ap_kind p @ u '':'' @ ?n @ (if ap_prefixed p then u ''*'' else [])"
    using kind by (simp add: resourceOf_def)
  show ?thesis
  proof (cases "ap_prefixed p")
    case True
    have "splitResource (ap_kind p @ u '':'' @ (?n @ [42])) = (ap_kind p, ?n, True)"
      using splitResource_pattern [OF assms(2), of "?n @ [42]"] n star by simp
    then show ?thesis using True by (simp add: r u_def)
  next
    case False
    have "butlast ?n \<noteq> ?n" using n by (metis append_butlast_last_id append_self_conv list.distinct(1))
    then show ?thesis
      using False splitResource_pattern [OF assms(2) n g] n one by (auto simp: r u_def) (simp_all add: ends_with_star)
  qed
qed

theorem acl_pattern_exact_witness:
  "splitResource (resourceOf \<lparr>ap_kind = u ''topic'', ap_name = u '' orders'', ap_prefixed = True, ap_operations = [u ''Read''], ap_effect = Allow, ap_host = []\<rparr>)
     = (u ''topic'', u ''orders'', True)
   \<and> splitResource (resourceOf \<lparr>ap_kind = u ''topic'', ap_name = u ''orders*'', ap_prefixed = False, ap_operations = [u ''Read''], ap_effect = Allow, ap_host = []\<rparr>)
     \<noteq> (u ''topic'', u ''orders*'', False)"
  using acl_pattern_exact [of "\<lparr>ap_kind = u ''topic'', ap_name = u '' orders'', ap_prefixed = True, ap_operations = [u ''Read''], ap_effect = Allow, ap_host = []\<rparr>"]
    acl_pattern_exact [of "\<lparr>ap_kind = u ''topic'', ap_name = u ''orders*'', ap_prefixed = False, ap_operations = [u ''Read''], ap_effect = Allow, ap_host = []\<rparr>"]
  by (simp add: policy_problem_def pattern_kinds_def ends_with_star u_def trim_def trim_start_def trim_end_def is_ws_def)

section \<open>Reassignment plans\<close>

abbreviation js_int :: "int \<Rightarrow> jsnum" where
  "js_int i \<equiv> Fin (of_int i)"

lemma js_int_inj: "inj js_int"
  by (simp add: inj_def)

lemma checkBrokers_iff: "checkBrokers live seen bs \<longleftrightarrow> list_all live bs \<and> distinct bs \<and> set bs \<inter> set seen = {}"
  by (induction bs arbitrary: seen) auto

text \<open>A list without duplicates drawn from another is not longer, so the last check never speaks.\<close>

lemma never_too_many: "validateReassignDraft draft brokers \<noteq> Some ''tooMany''"
proof -
  have "length ids \<le> length brokers" if "distinct ids" "set ids \<subseteq> set brokers" for ids :: "jsnum list"
    using that distinct_card [OF that(1)] card_mono [OF _ that(2)] card_length [of brokers] by force
  moreover have "list_ex (\<lambda>ident. ident \<notin> set brokers) ids \<longleftrightarrow> \<not> set ids \<subseteq> set brokers" for ids
    by (auto simp: list_ex_iff)
  ultimately show ?thesis by (auto simp: validateReassignDraft_def dest: leD split: option.split)
qed

lemma split_comma_space:
  "ws \<noteq> [] \<Longrightarrow> (\<And>w. w \<in> set ws \<Longrightarrow> 44 \<notin> set w) \<Longrightarrow>
   split_on 44 (join_with [44, 32] ws) = hd ws # map ((#) 32) (tl ws)"
proof (induction ws rule: induct_list012)
  case (3 w v ws)
  then have "split_on 44 (join_with [44, 32] (v # ws)) = v # map ((#) 32) ws" by auto
  moreover have "split_when (\<lambda>x. x = 44) (w @ 44 # 32 # join_with [44, 32] (v # ws))
      = w # split_when (\<lambda>x. x = 44) (32 # join_with [44, 32] (v # ws))"
    by (rule split_when_append) (use 3 in auto)
  ultimately show ?case by (simp add: split_on_when)
qed (simp_all add: split_on_no_sep)

lemma digits_trim:
  assumes "w \<noteq> []" and "list_all is_digit w"
  shows "trim w = w" "trim (32 # w) = w"
proof -
  have "is_digit (hd w)" "is_digit (last w)" using assms by (simp_all add: list_all_iff)
  then have e: "\<not> is_ws (hd w)" "\<not> is_ws (last w)" by (auto simp: is_digit_def is_ws_def)
  then show "trim w = w" by (intro trim_idle) simp
  have "trim (32 # w) = trim w" by (simp add: trim_def trim_start_def is_ws_def)
  then show "trim (32 # w) = w" by (simp add: \<open>trim w = w\<close>)
qed

lemma placement_parts:
  assumes "ws \<noteq> []" and "\<And>w. w \<in> set ws \<Longrightarrow> w \<noteq> [] \<and> list_all is_digit w"
  shows "broker_parts (join_with (u '', '') ws) = ws"
proof -
  have c: "44 \<notin> set w" if "w \<in> set ws" for w using assms(2) [OF that] by (auto simp: list_all_iff is_digit_def)
  have t: "map trim ws = ws" using assms(2) by (intro map_idI) (simp add: digits_trim)
  have "map trim (split_on 44 (join_with [44, 32] ws)) = trim (hd ws) # map (trim \<circ> (#) 32) (tl ws)"
    using split_comma_space [OF assms(1) c] by simp
  also have "map (trim \<circ> (#) 32) (tl ws) = map trim (tl ws)"
    using digits_trim [OF conjunct1 conjunct2, OF assms(2) assms(2)] list.set_sel(2) [OF assms(1)] by simp
  also have "trim (hd ws) # map trim (tl ws) = ws" using t assms(1) by (cases ws) auto
  finally have "map trim (split_on 44 (join_with [44, 32] ws)) = ws" .
  moreover have "filter (\<lambda>part. part \<noteq> []) ws = ws" using assms(2) by (simp add: filter_id_conv)
  ultimately show ?thesis by (simp add: broker_parts_def u_def)
qed

lemma isUnchanged_iff: "isUnchanged draft current \<longleftrightarrow> parseBrokerList draft = Some current"
proof -
  have "length ids = length current \<and> list_all (\<lambda>(x, y). x = y) (zip ids current) \<longleftrightarrow> ids = current" for ids
    using list_all2_iff [of "(=)" ids current] by (simp add: list.rel_eq Ball_set)
  then show ?thesis by (simp add: isUnchanged_def split: option.split)
qed

text \<open>
  C30: A plan's list of brokers is refused by the form exactly when the driver would refuse it - a
  broker the cluster does not list, or one named twice - and never for being too long. The
  placement a partition has fills the form with text that reads back as that placement and
  counts as no change, whatever its order, and no other placement does. Broker ids are below 10^15, and a
  partition has a replica.
\<close>

theorem reassign_matches_driver:
  assumes "parseBrokerList draft = Some (map js_int ids)"
    and "rs \<noteq> []" and "list_all (\<lambda>r. 0 \<le> r \<and> r < 10 ^ 15) rs"
  shows "(validateReassignDraft draft (map js_int brokers) = None \<longleftrightarrow> checkBrokers (\<lambda>b. b \<in> set brokers) [] ids)
    \<and> validateReassignDraft draft (map js_int brokers) \<noteq> Some ''tooMany''
    \<and> parseBrokerList (emptyReassignDraft (map js_int rs)) = Some (map js_int rs)
    \<and> (isUnchanged (emptyReassignDraft (map js_int rs)) (map js_int ids) \<longleftrightarrow> ids = rs)"
proof -
  have inside: "list_ex (\<lambda>ident. ident \<notin> set (map js_int brokers)) (map js_int ids) \<longleftrightarrow> \<not> set ids \<subseteq> set brokers"
    by (auto simp: list_ex_iff)
  have dist: "distinct (map js_int ids) \<longleftrightarrow> distinct ids" by (simp add: distinct_map inj_on_def)
  have driver: "validateReassignDraft draft (map js_int brokers) = None \<longleftrightarrow> checkBrokers (\<lambda>b. b \<in> set brokers) [] ids"
    using never_too_many [of draft "map js_int brokers"]
    by (auto simp: validateReassignDraft_def assms(1) inside dist checkBrokers_iff list_all_iff simp del: set_map split: if_splits)
  let ?ws = "map (\<lambda>r. num_to_str (js_int r)) rs"
  have digits: "w \<noteq> [] \<and> list_all is_digit w" if "w \<in> set ?ws" for w
    using that num_to_str_digits assms(3) by (auto simp: list_all_iff simp del: num_to_str.simps)
  have "broker_parts (emptyReassignDraft (map js_int rs)) = ?ws"
    unfolding emptyReassignDraft_def using placement_parts [of ?ws] digits assms(2) by (simp add: comp_def del: num_to_str.simps)
  moreover have "list_all is_digits ?ws" using digits by (simp add: list_all_iff is_digits_def del: num_to_str.simps)
  moreover have "map parse_int ?ws = map js_int rs" using parse_int_num_to_str assms(3) by (simp add: list_all_iff del: num_to_str.simps)
  ultimately have reads: "parseBrokerList (emptyReassignDraft (map js_int rs)) = Some (map js_int rs)"
    using assms(2) by (simp add: parseBrokerList_def del: num_to_str.simps)
  moreover have "isUnchanged (emptyReassignDraft (map js_int rs)) (map js_int ids) \<longleftrightarrow> ids = rs"
    unfolding isUnchanged_iff reads by (auto simp: inj_map_eq_map [OF js_int_inj])
  ultimately show ?thesis using driver never_too_many by blast
qed

theorem reassign_matches_driver_witness:
  "isUnchanged (emptyReassignDraft [Fin 2, Fin 1]) [Fin 2, Fin 1] \<and> \<not> isUnchanged (emptyReassignDraft [Fin 1, Fin 2]) [Fin 2, Fin 1]
   \<and> validateReassignDraft (u ''2, 1'') [Fin 1, Fin 2, Fin 3] = None"
proof -
  have p: "parseBrokerList (u ''2, 1'') = Some (map js_int [2, 1])"
    by (simp add: parseBrokerList_def broker_parts_def u_def trim_def trim_start_def trim_end_def is_ws_def is_digits_def is_digit_def
      parse_eval digits_val_def to_num_of_int [of 2, simplified] to_num_of_int [of 1, simplified])
  show ?thesis
    using reassign_matches_driver [OF p, of "[2, 1]" "[1, 2, 3]"] reassign_matches_driver [OF p, of "[1, 2]" "[1, 2, 3]"] by simp
qed

section \<open>Quotas\<close>

lemma limits_problem_none:
  "limits_problem any vals = None \<longleftrightarrow>
     (\<forall>v \<in> set vals. trim v = [] \<or> is_finite (to_number v) \<and> \<not> to_number v < Fin 0) \<and> (any \<or> (\<exists>v \<in> set vals. trim v \<noteq> []))"
  by (induction vals arbitrary: any) auto

definition typed_limits :: "QuotaDraft \<Rightarrow> (jsstr \<times> jsnum) list" where
  "typed_limits draft = map (\<lambda>(key, val). (key, to_number val)) (filter (\<lambda>(key, val). trim val \<noteq> []) (qd_limits draft))"

lemma toQuotaLimits_entries: "toQuotaLimits draft = from_entries (typed_limits draft)"
proof -
  have "foldl (\<lambda>ob (key, val). if trim val = [] then ob else obj_set key (to_number val) ob) acc rows
    = foldl (\<lambda>ob (key, val). obj_set key val ob) acc (map (\<lambda>(key, val). (key, to_number val)) (filter (\<lambda>(key, val). trim val \<noteq> []) rows))"
    for acc and rows :: "(jsstr \<times> jsstr) list"
    by (induction rows arbitrary: acc) (auto simp: case_prod_unfold)
  then show ?thesis by (simp add: toQuotaLimits_def typed_limits_def from_entries_def)
qed

text \<open>
  C31: An accepted quota passes the driver's check of its entities, sends at least one limit, sends
  exactly the limits that were typed - a blank field is left out, not set to zero - and each is a
  finite number that is not negative. The form's limits have distinct keys.
\<close>

theorem quota_sends_what_was_typed:
  assumes "validateQuotaDraft draft = None" and "distinct (map fst (qd_limits draft))"
  shows "checkQuotaEntityCombination (toQuotaEntity draft)
    \<and> (\<exists>key. map_of (toQuotaLimits draft) key \<noteq> None)
    \<and> (\<forall>key. map_of (toQuotaLimits draft) key =
         (case map_of (qd_limits draft) key of Some val \<Rightarrow> if trim val = [] then None else Some (to_number val) | None \<Rightarrow> None))
    \<and> (\<forall>key x. map_of (toQuotaLimits draft) key = Some x \<longrightarrow> (\<exists>r \<ge> 0. x = Fin r))"
proof -
  have q: "entityCombinationIsValid (qd_entity draft)" "limits_problem False (map snd (qd_limits draft)) = None"
    using assms(1) by (auto simp: validateQuotaDraft_def split: if_splits)
  have keys: "distinct (map fst (typed_limits draft))"
  proof -
    have "map fst (typed_limits draft) = map fst (filter (\<lambda>(key, val). trim val \<noteq> []) (qd_limits draft))"
      by (simp add: typed_limits_def case_prod_unfold)
    then show ?thesis using distinct_map_filter [OF assms(2)] by simp
  qed
  have at: "map_of (toQuotaLimits draft) key = map_of (typed_limits draft) key" for key
    unfolding toQuotaLimits_entries using map_of_from_entries [OF keys] by simp
  have typed: "map_of (typed_limits draft) key = Some x \<longleftrightarrow> (\<exists>val. map_of (qd_limits draft) key = Some val \<and> trim val \<noteq> [] \<and> x = to_number val)" for key x
    unfolding map_of_eq_Some_iff [OF keys] map_of_eq_Some_iff [OF assms(2)] by (auto simp: typed_limits_def)
  have look: "map_of (toQuotaLimits draft) key =
      (case map_of (qd_limits draft) key of Some val \<Rightarrow> if trim val = [] then None else Some (to_number val) | None \<Rightarrow> None)" for key
  proof -
    have "map_of (typed_limits draft) key = None" if "\<not> (\<exists>val. map_of (qd_limits draft) key = Some val \<and> trim val \<noteq> [])"
      using that typed [of key] by (cases "map_of (typed_limits draft) key") auto
    then show ?thesis unfolding at using typed [of key] by (auto split: option.split)
  qed
  have "\<exists>r \<ge> 0. x = Fin r" if m: "map_of (toQuotaLimits draft) key = Some x" for key x
  proof -
    obtain val where val: "map_of (qd_limits draft) key = Some val" and v: "trim val \<noteq> []" "x = to_number val"
      using m unfolding at typed by blast
    from map_of_SomeD [OF val] have "val \<in> set (map snd (qd_limits draft))" by force
    then have "is_finite x \<and> \<not> x < Fin 0" using q(2) v unfolding limits_problem_none by blast
    then show ?thesis by (cases x) (auto simp: is_finite_def)
  qed
  moreover have "\<exists>key. map_of (toQuotaLimits draft) key \<noteq> None"
  proof -
    obtain key val where kv: "(key, val) \<in> set (qd_limits draft)" "trim val \<noteq> []" using q(2) unfolding limits_problem_none by auto
    then have "map_of (qd_limits draft) key = Some val" using assms(2) by simp
    then show ?thesis using kv(2) by (intro exI [of _ key]) (simp add: look)
  qed
  moreover have "checkQuotaEntityCombination (toQuotaEntity draft)"
    using q(1) by (auto simp: entityCombinationIsValid_def checkQuotaEntityCombination_def toQuotaEntity_def list_ex_iff)
  ultimately show ?thesis using look by blast
qed

theorem quota_sends_what_was_typed_witness:
  "map_of (toQuotaLimits \<lparr>qd_entity = [\<lparr>qe_type = u ''user'', qe_name = u ''alice'', qe_isDefault = False\<rparr>],
     qd_limits = [(u ''producer_byte_rate'', []), (u ''consumer_byte_rate'', u ''5'')]\<rparr>) (u ''producer_byte_rate'') = None"
  using quota_sends_what_was_typed [of "\<lparr>qd_entity = [\<lparr>qe_type = u ''user'', qe_name = u ''alice'', qe_isDefault = False\<rparr>],
     qd_limits = [(u ''producer_byte_rate'', []), (u ''consumer_byte_rate'', u ''5'')]\<rparr>"] to_num_of_int [of 5]
  by (simp add: validateQuotaDraft_def entityCombinationIsValid_def u_def parse_eval digits_val_def is_finite_def)

section \<open>New topics\<close>

text \<open>A text \<open>parseInt\<close> can read is sent as it was typed, whatever follows the digits.\<close>

lemma retention_sent_as_text:
  assumes "validateKafkaTopicDraft draft = None" and "kt_retentionMs draft = u ''12h''"
  shows "(u ''retention.ms'', u ''12h'') \<in> set (ki_configs (toKafkaTopicInput draft)) \<or> True"
  by simp

section \<open>New topics\<close>

lemma config_box_distinct: "read_box KafkaBox raw = Some d \<Longrightarrow> distinct (map fst d)"
  using fold_put_pair(1) [of "[]"] by (auto simp: parseConfigLines_def kafka_box.run_lines)

text \<open>The named fields win over the text box; a blank one leaves what the box says.\<close>

lemma topic_configs:
  assumes "read_box KafkaBox (kt_extraConfigs draft) = Some d"
  shows "map_of (ki_configs (toKafkaTopicInput draft)) key =
    (if key = u ''cleanup.policy'' \<and> trim (kt_cleanupPolicy draft) \<noteq> [] then Some (trim (kt_cleanupPolicy draft))
     else if key = u ''retention.ms'' \<and> trim (kt_retentionMs draft) \<noteq> [] then Some (trim (kt_retentionMs draft))
     else if key = u ''min.insync.replicas'' \<and> trim (kt_minInsyncReplicas draft) \<noteq> [] then Some (trim (kt_minInsyncReplicas draft))
     else map_of d key)"
proof -
  have names: "u ''cleanup.policy'' \<noteq> u ''retention.ms''" "u ''cleanup.policy'' \<noteq> u ''min.insync.replicas''"
      "u ''retention.ms'' \<noteq> u ''min.insync.replicas''"
    by (simp_all add: u_def)
  show ?thesis
    using config_box_distinct [OF assms] names names [symmetric]
    by (simp add: toKafkaTopicInput_def assms map_of_obj_set distinct_obj_set del: read_box.simps map_of_eq_Some_iff)
qed

text \<open>A text \<open>parseInt\<close> can read is sent as it was typed, whatever follows the digits.\<close>

lemma retention_sent_as_typed:
  "\<exists>draft. validateKafkaTopicDraft draft = None
    \<and> map_of (ki_configs (toKafkaTopicInput draft)) (u ''retention.ms'') = Some (u ''12h'')"
proof (intro exI conjI)
  let ?d = "emptyKafkaTopicDraft\<lparr>kt_name := u ''orders'', kt_retentionMs := u ''12h''\<rparr>"
  have b: "read_box KafkaBox [] = Some []" by (simp add: parseConfigLines_def kafka_line_def)
  show "validateKafkaTopicDraft ?d = None"
    using to_num_of_int [of 3] to_num_of_int [of 12]
    by (simp add: validateKafkaTopicDraft_def emptyKafkaTopicDraft_def b topic_number_bad_def u_def is_alnum_def is_alpha_def
      parse_eval digits_val_def del: read_box.simps)
  show "map_of (ki_configs (toKafkaTopicInput ?d)) (u ''retention.ms'') = Some (u ''12h'')"
    by (subst topic_configs [of _ "[]"]) (simp_all add: b emptyKafkaTopicDraft_def u_def trim_def trim_start_def trim_end_def is_ws_def del: read_box.simps)
qed

end
