(* ===== verification/Producer_Drafts.thy ===== *)
theory Producer_Drafts
  imports Stored_Files Send_Text Message_Body
begin

text \<open>
  The memory of what was last sent to a topic (\<open>lib/producerDrafts.ts\<close>): the drafts of each
  connection, sanitised as they are read from local storage, cut to thirty topics of ten
  connections. \<open>Date.now()\<close> is the parameter \<open>now\<close>; an assignment to \<open>__proto__\<close> leaves no entry.
\<close>

record ProducerDraft =
  pd_tag :: jsstr
  pd_key :: jsstr
  pd_delay :: jsnum
  pd_body :: jsstr

record StoredDraft = ProducerDraft +
  pd_savedAt :: jsnum

record 'a draft_scope =
  ds_lastTopic :: jsstr
  ds_drafts :: "(jsstr \<times> 'a) list"

type_synonym ProducerScope = "ProducerDraft draft_scope"
type_synonym StoredDraftScope = "StoredDraft draft_scope"
type_synonym StoredDraftFile = "(jsstr \<times> StoredDraftScope) list"

definition MAX_BODY_BYTES :: nat where "MAX_BODY_BYTES = 256 * 1024"
definition MAX_TOPICS_PER_SCOPE :: nat where "MAX_TOPICS_PER_SCOPE = 30"
definition MAX_DRAFT_SCOPES :: nat where "MAX_DRAFT_SCOPES = 10"
definition MAX_DELAY_LEVEL :: jsnum where "MAX_DELAY_LEVEL = Fin 18"

section \<open>Reading\<close>

text \<open>\<open>Math.trunc\<close> of a finite number, and \<open>clampDelay\<close> of a number.\<close>

definition num_trunc :: "jsnum \<Rightarrow> jsnum" where
  "num_trunc x = (case x of Fin r \<Rightarrow> Fin (of_int (if r < 0 then \<lceil>r\<rceil> else \<lfloor>r\<rfloor>)) | _ \<Rightarrow> x)"

definition clamp_level :: "jsnum \<Rightarrow> jsnum" where
  "clamp_level x = (if \<not> is_finite x then Fin 0 else num_min (num_max (num_trunc x) (Fin 0)) MAX_DELAY_LEVEL)"

definition clampDelay :: "json option \<Rightarrow> jsnum" where
  "clampDelay value = (case value of Some (JNum x) \<Rightarrow> clamp_level x | _ \<Rightarrow> Fin 0)"

definition stamp_or_zero :: "json option \<Rightarrow> jsnum" where
  "stamp_or_zero value = (case value of Some (JNum x) \<Rightarrow> if is_finite x then x else Fin 0 | _ \<Rightarrow> Fin 0)"

fun sanitizeDraft :: "json \<Rightarrow> StoredDraft option" where
  "sanitizeDraft (JObj fs) = (case (map_of fs (u ''tag''), map_of fs (u ''key''), map_of fs (u ''body'')) of
     (Some (JStr tag), Some (JStr key), Some (JStr body)) \<Rightarrow>
       Some \<lparr>pd_tag = tag, pd_key = key, pd_delay = clampDelay (map_of fs (u ''delay'')), pd_body = body,
         pd_savedAt = stamp_or_zero (map_of fs (u ''savedAt''))\<rparr>
   | _ \<Rightarrow> None)"
| "sanitizeDraft _ = None"

fun sanitize_into :: "(json \<Rightarrow> 'a option) \<Rightarrow> (jsstr \<times> 'a) list \<Rightarrow> (jsstr \<times> json) list \<Rightarrow> (jsstr \<times> 'a) list" where
  "sanitize_into f ob [] = ob"
| "sanitize_into f ob ((k, value) # rest) =
     sanitize_into f (case f value of Some x \<Rightarrow> put_own k x ob | None \<Rightarrow> ob) rest"

fun sanitizeDraftScope :: "json \<Rightarrow> StoredDraftScope option" where
  "sanitizeDraftScope (JObj fs) = Some
     \<lparr>ds_lastTopic = (case map_of fs (u ''lastTopic'') of Some (JStr s) \<Rightarrow> s | _ \<Rightarrow> []),
      ds_drafts = (case map_of fs (u ''drafts'') of Some (JObj ds) \<Rightarrow> sanitize_into sanitizeDraft [] ds | _ \<Rightarrow> [])\<rparr>"
| "sanitizeDraftScope _ = None"

definition readDraftFile :: "cell \<Rightarrow> StoredDraftFile" where
  "readDraftFile c = (case c of Holds (JObj fs) \<Rightarrow> sanitize_into sanitizeDraftScope [] fs | _ \<Rightarrow> [])"

section \<open>Cutting and writing\<close>

definition newestSavedAt :: "StoredDraftScope \<Rightarrow> jsnum" where
  "newestSavedAt scope = foldl (\<lambda>mx (_, draft). num_max mx (pd_savedAt draft)) (Fin 0) (ds_drafts scope)"

definition trim_drafts :: "StoredDraftScope \<Rightarrow> StoredDraftScope" where
  "trim_drafts scope = scope\<lparr>ds_drafts := keep_newest pd_savedAt MAX_TOPICS_PER_SCOPE (ds_drafts scope)\<rparr>"

definition trim_file :: "StoredDraftFile \<Rightarrow> StoredDraftFile" where
  "trim_file file = keep_newest newestSavedAt MAX_DRAFT_SCOPES (map (\<lambda>(k, scope). (k, trim_drafts scope)) file)"

definition draft_json :: "StoredDraft \<Rightarrow> json" where
  "draft_json d = JObj [(u ''tag'', JStr (pd_tag d)), (u ''key'', JStr (pd_key d)), (u ''body'', JStr (pd_body d)),
     (u ''delay'', JNum (pd_delay d)), (u ''savedAt'', JNum (pd_savedAt d))]"

definition draft_scope_json :: "StoredDraftScope \<Rightarrow> json" where
  "draft_scope_json s = JObj [(u ''lastTopic'', JStr (ds_lastTopic s)),
     (u ''drafts'', JObj (map (\<lambda>(k, d). (k, draft_json d)) (ds_drafts s)))]"

definition writeDraftFile :: "StoredDraftFile \<Rightarrow> bool \<Rightarrow> cell \<Rightarrow> cell" where
  "writeDraftFile file full c = (if full then c else Holds (JObj (map (\<lambda>(k, s). (k, draft_scope_json s)) file)))"

definition toScope :: "StoredDraftScope option \<Rightarrow> ProducerScope" where
  "toScope stored = (case stored of None \<Rightarrow> \<lparr>ds_lastTopic = [], ds_drafts = []\<rparr>
   | Some s \<Rightarrow> \<lparr>ds_lastTopic = ds_lastTopic s,
       ds_drafts = foldl (\<lambda>ob (topic, d). put_own topic (ProducerDraft.truncate d) ob) [] (ds_drafts s)\<rparr>)"

definition loadProducerScope :: "cell \<Rightarrow> jsstr \<Rightarrow> ProducerScope" where
  "loadProducerScope c scopeKey = toScope (map_of (readDraftFile c) scopeKey)"

definition stored_draft :: "ProducerDraft \<Rightarrow> jsnum \<Rightarrow> StoredDraft" where
  "stored_draft draft now = \<lparr>pd_tag = pd_tag draft, pd_key = pd_key draft, pd_delay = clamp_level (pd_delay draft),
     pd_body = pd_body draft, pd_savedAt = now\<rparr>"

definition saved_scope :: "StoredDraftScope option \<Rightarrow> jsstr \<Rightarrow> ProducerDraft \<Rightarrow> jsnum \<Rightarrow> StoredDraftScope" where
  "saved_scope before topic draft now = (let scope = (nullish before \<lparr>ds_lastTopic = [], ds_drafts = []\<rparr>)\<lparr>ds_lastTopic := topic\<rparr> in
     if length (encode (pd_body draft)) \<le> MAX_BODY_BYTES
     then scope\<lparr>ds_drafts := put_own topic (stored_draft draft now) (ds_drafts scope)\<rparr> else scope)"

definition saved_file :: "cell \<Rightarrow> jsstr \<Rightarrow> jsstr \<Rightarrow> ProducerDraft \<Rightarrow> jsnum \<Rightarrow> StoredDraftFile" where
  "saved_file c scopeKey topic draft now = (let file = readDraftFile c in
     trim_file (put_own scopeKey (saved_scope (map_of file scopeKey) topic draft now) file))"

text \<open>The new storage and the scope returned.\<close>

definition saveProducerDraft :: "cell \<Rightarrow> bool \<Rightarrow> jsstr \<Rightarrow> jsstr \<Rightarrow> ProducerDraft \<Rightarrow> jsnum \<Rightarrow> cell \<times> ProducerScope" where
  "saveProducerDraft c full scopeKey topic draft now =
    (if topic = [] then (c, loadProducerScope c scopeKey)
     else let trimmed = saved_file c scopeKey topic draft now in
       (writeDraftFile trimmed full c, toScope (map_of trimmed scopeKey)))"

text \<open>
  \<open>topic in scope.drafts\<close> also holds of a name every object inherits; deleting such a name removes
  nothing.
\<close>

definition inherited :: "jsstr \<Rightarrow> bool" where
  "inherited k \<longleftrightarrow> k \<in> {u ''constructor'', proto, u ''__defineGetter__'', u ''__defineSetter__'', u ''__lookupGetter__'',
     u ''__lookupSetter__'', u ''hasOwnProperty'', u ''isPrototypeOf'', u ''propertyIsEnumerable'', u ''toLocaleString'',
     u ''toString'', u ''valueOf''}"

definition clearProducerDraft :: "cell \<Rightarrow> bool \<Rightarrow> jsstr \<Rightarrow> jsstr \<Rightarrow> cell \<times> ProducerScope" where
  "clearProducerDraft c full scopeKey topic = (let file = readDraftFile c in
     case map_of file scopeKey of None \<Rightarrow> (c, toScope None)
     | Some scope \<Rightarrow>
         if \<not> (topic \<in> fst ` set (ds_drafts scope) \<or> inherited topic) then (c, toScope (Some scope))
         else let cleared = scope\<lparr>ds_drafts := filter (\<lambda>e. fst e \<noteq> topic) (ds_drafts scope)\<rparr> in
           (writeDraftFile (AList.update scopeKey cleared file) full c, toScope (Some cleared)))"

section \<open>What is kept\<close>

definition own_keys :: "(jsstr \<times> 'a) list \<Rightarrow> bool" where
  "own_keys ob \<longleftrightarrow> distinct (map fst ob) \<and> proto \<notin> fst ` set ob"

lemma own_keys_names: "own_keys ob \<longleftrightarrow> distinct (map fst ob) \<and> proto \<notin> set (map fst ob)"
  by (simp add: own_keys_def)

lemma own_keys_put: "own_keys ob \<Longrightarrow> own_keys (put_own k v ob)"
  using set_obj_set [of k v ob] by (auto simp: own_keys_def put_own_def distinct_obj_set)

lemma own_keys_Nil [simp]: "own_keys []"
  by (simp add: own_keys_def)

lemma set_put_own: "set (put_own k v ob) \<subseteq> insert (k, v) (set ob)"
  using set_obj_set [of k v ob] by (auto simp: put_own_def)

lemma map_of_put_own: "own_keys ob \<Longrightarrow> k \<noteq> proto \<Longrightarrow> map_of (put_own k v ob) = (map_of ob)(k \<mapsto> v)"
  by (simp add: own_keys_def put_own_facts)

lemma sanitize_into_own: "own_keys ob \<Longrightarrow> own_keys (sanitize_into f ob fs)"
  by (induction f ob fs rule: sanitize_into.induct) (simp_all add: own_keys_put split: option.split)

lemma sanitize_into_all:
  "(\<And>j x. f j = Some x \<Longrightarrow> P x) \<Longrightarrow> (\<And>e. e \<in> set ob \<Longrightarrow> P (snd e)) \<Longrightarrow> e \<in> set (sanitize_into f ob fs) \<Longrightarrow> P (snd e)"
proof (induction f ob fs rule: sanitize_into.induct)
  case (2 f ob k v rest)
  show ?case
  proof (rule 2(1) [OF 2(2)])
    show "e \<in> set (sanitize_into f (case f v of Some x \<Rightarrow> put_own k x ob | None \<Rightarrow> ob) rest)" using 2(4) by simp
    show "P (snd e)" if e: "e \<in> set (case f v of Some x \<Rightarrow> put_own k x ob | None \<Rightarrow> ob)" for e
    proof (cases "f v")
      case None
      then show ?thesis using e 2(3) by simp
    next
      case (Some x)
      then have "e = (k, x) \<or> e \<in> set ob" using e set_put_own [of k x ob] by auto
      then show ?thesis using 2(2) [OF Some] 2(3) [of e] by (elim disjE) simp_all
    qed
  qed
qed simp

text \<open>A stored object read back: each entry what \<open>f\<close> makes of what \<open>g\<close> wrote.\<close>

lemma sanitize_into_written:
  assumes "own_keys fl" and "own_keys acc" and "\<And>e. e \<in> set fl \<Longrightarrow> f (g (snd e)) = Some (h (snd e))"
  shows "map_of (sanitize_into f acc (map (\<lambda>(k, x). (k, g x)) fl)) = map_of acc ++ (map_option h \<circ> map_of fl)"
  using assms
proof (induction fl arbitrary: acc)
  case (Cons e fl)
  obtain k x where e: "e = (k, x)" by (cases e)
  have k: "map_of fl k = None" "k \<noteq> proto" using Cons.prems(1) by (auto simp: e own_keys_def map_of_eq_None_iff)
  have "map_of (sanitize_into f (put_own k (h x) acc) (map (\<lambda>(k, x). (k, g x)) fl))
    = map_of (put_own k (h x) acc) ++ (map_option h \<circ> map_of fl)"
    using Cons.prems by (intro Cons.IH own_keys_put) (auto simp: own_keys_def)
  moreover have "f (g x) = Some (h x)" using Cons.prems(3) [of e] by (simp add: e)
  ultimately show ?case
    using Cons.prems(2) k by (simp add: e map_of_put_own map_add_def fun_eq_iff split: option.split)
qed simp

definition good_draft :: "StoredDraft \<Rightarrow> bool" where
  "good_draft d \<longleftrightarrow> is_finite (pd_savedAt d) \<and> (\<exists>n. pd_delay d = Fin (of_int n) \<and> 0 \<le> n \<and> n \<le> 18)"

definition good_draft_scope :: "StoredDraftScope \<Rightarrow> bool" where
  "good_draft_scope s \<longleftrightarrow> own_keys (ds_drafts s) \<and> (\<forall>e \<in> set (ds_drafts s). good_draft (snd e))"

definition good_draft_file :: "StoredDraftFile \<Rightarrow> bool" where
  "good_draft_file fl \<longleftrightarrow> own_keys fl \<and> (\<forall>e \<in> set fl. good_draft_scope (snd e))"

lemma clamp_level_whole: "\<exists>n. clamp_level x = Fin (of_int n) \<and> 0 \<le> n \<and> n \<le> 18"
proof (cases x)
  case (Fin r)
  define m where "m = (if r < 0 then \<lceil>r\<rceil> else \<lfloor>r\<rfloor>)"
  have "clamp_level x = num_min (num_max (Fin (of_int m)) (Fin 0)) (Fin 18)"
    by (simp add: clamp_level_def Fin is_finite_def num_trunc_def MAX_DELAY_LEVEL_def m_def)
  also have "\<dots> = Fin (of_int (min (max m 0) 18))"
    by (auto simp: num_min_def num_max_def min_def max_def)
  finally show ?thesis by (intro exI [of _ "min (max m 0) 18"]) auto
qed (auto simp: clamp_level_def is_finite_def intro: exI [of _ 0])

lemma clamp_level_idle:
  assumes "good_draft d"
  shows "clamp_level (pd_delay d) = pd_delay d"
proof -
  obtain n where n: "pd_delay d = Fin (of_int n)" "0 \<le> n" "n \<le> 18" using assms by (auto simp: good_draft_def)
  then have "clamp_level (pd_delay d) = num_min (num_max (Fin (of_int n)) (Fin 0)) (Fin 18)"
    by (simp add: clamp_level_def is_finite_def num_trunc_def MAX_DELAY_LEVEL_def)
  then show ?thesis using n by (auto simp: num_min_def num_max_def)
qed

lemma sanitizeDraft_good: "sanitizeDraft j = Some d \<Longrightarrow> good_draft d"
  using clamp_level_whole
  by (cases j) (auto simp: good_draft_def clampDelay_def stamp_or_zero_def is_finite_def split: option.splits json.splits if_splits
    intro: exI [of _ 0])

lemma sanitizeDraftScope_good: "sanitizeDraftScope j = Some s \<Longrightarrow> good_draft_scope s"
proof (cases j)
  case (JObj fs)
  have "good_draft_scope \<lparr>ds_lastTopic = x, ds_drafts = sanitize_into sanitizeDraft [] ds\<rparr>" for x ds
    using sanitize_into_own [of "[]" sanitizeDraft ds] sanitize_into_all [of sanitizeDraft good_draft "[]"] sanitizeDraft_good
    by (auto simp: good_draft_scope_def)
  moreover have "good_draft_scope \<lparr>ds_lastTopic = x, ds_drafts = []\<rparr>" for x by (simp add: good_draft_scope_def)
  moreover assume "sanitizeDraftScope j = Some s"
  ultimately show ?thesis by (auto simp: JObj split: option.splits json.splits)
qed simp_all

text \<open>Whatever the storage holds, what is read is well-formed.\<close>

lemma readDraftFile_good: "good_draft_file (readDraftFile c)"
proof -
  have "good_draft_file (sanitize_into sanitizeDraftScope [] fs)" for fs
    using sanitize_into_own [of "[]" sanitizeDraftScope fs] sanitize_into_all [of sanitizeDraftScope good_draft_scope "[]"] sanitizeDraftScope_good
    by (auto simp: good_draft_file_def)
  moreover have "good_draft_file []" by (simp add: good_draft_file_def)
  ultimately show ?thesis by (auto simp: readDraftFile_def split: cell.split json.split)
qed

section \<open>Reading back what was written\<close>

lemma sanitizeDraft_json: "good_draft d \<Longrightarrow> sanitizeDraft (draft_json d) = Some d"
  using clamp_level_idle [of d]
  by (cases d) (simp add: draft_json_def u_def clampDelay_def stamp_or_zero_def good_draft_def)

definition normal_scope :: "StoredDraftScope \<Rightarrow> StoredDraftScope" where
  "normal_scope s = s\<lparr>ds_drafts := sanitize_into sanitizeDraft [] (map (\<lambda>(k, d). (k, draft_json d)) (ds_drafts s))\<rparr>"

lemma sanitizeDraftScope_json: "sanitizeDraftScope (draft_scope_json s) = Some (normal_scope s)"
  by (cases s) (simp add: draft_scope_json_def normal_scope_def u_def)

lemma normal_scope_same:
  assumes "good_draft_scope s"
  shows "map_of (ds_drafts (normal_scope s)) = map_of (ds_drafts s)"
proof -
  have "map_of (ds_drafts (normal_scope s)) = map_of [] ++ (map_option (\<lambda>d. d) \<circ> map_of (ds_drafts s))"
    using assms sanitize_into_written [of "ds_drafts s" "[]" sanitizeDraft draft_json "\<lambda>d. d"]
    by (auto simp: normal_scope_def good_draft_scope_def sanitizeDraft_json)
  then show ?thesis by (simp add: comp_def option.map_ident)
qed

lemma read_written_drafts:
  assumes "good_draft_file fl"
  shows "map_of (readDraftFile (writeDraftFile fl False c)) = map_option normal_scope \<circ> map_of fl"
  using assms sanitize_into_written [of fl "[]" sanitizeDraftScope draft_scope_json normal_scope]
  by (simp add: readDraftFile_def writeDraftFile_def good_draft_file_def sanitizeDraftScope_json)

lemma length_le_dom:
  assumes "own_keys a" and "dom (map_of a) \<subseteq> dom (map_of b)"
  shows "length a \<le> length b"
proof -
  have "length a = card (dom (map_of a))"
    using assms(1) distinct_card [of "map fst a"] by (simp add: own_keys_def dom_map_of_conv_image_fst)
  also have "\<dots> \<le> card (dom (map_of b))" by (rule card_mono [OF _ assms(2)]) (simp add: finite_dom_map_of)
  also have "\<dots> \<le> length b" using card_length [of "map fst b"] by (simp add: dom_map_of_conv_image_fst)
  finally show ?thesis .
qed

lemma foldl_put_own:
  assumes "own_keys fl" and "own_keys acc"
  shows "map_of (foldl (\<lambda>ob (k, d). put_own k (h d) ob) acc fl) = map_of acc ++ (map_option h \<circ> map_of fl)"
  using assms
proof (induction fl arbitrary: acc)
  case (Cons e fl)
  obtain k x where e: "e = (k, x)" by (cases e)
  have k: "map_of fl k = None" "k \<noteq> proto" using Cons.prems(1) by (auto simp: e own_keys_def map_of_eq_None_iff)
  have "map_of (foldl (\<lambda>ob (k, d). put_own k (h d) ob) (put_own k (h x) acc) fl)
    = map_of (put_own k (h x) acc) ++ (map_option h \<circ> map_of fl)"
    using Cons.prems by (intro Cons.IH own_keys_put) (auto simp: own_keys_def)
  then show ?case
    using Cons.prems(2) k by (auto simp: e map_of_put_own map_add_def fun_eq_iff split: option.splits)
qed simp

lemma foldl_own: "own_keys acc \<Longrightarrow> own_keys (foldl (\<lambda>ob (k, d). put_own k (h d) ob) acc fl)"
  by (induction fl arbitrary: acc) (auto intro: own_keys_put)

lemma toScope_drafts:
  "good_draft_scope s \<Longrightarrow> map_of (ds_drafts (toScope (Some s))) = map_option ProducerDraft.truncate \<circ> map_of (ds_drafts s)"
  using foldl_put_own [of "ds_drafts s" "[]" ProducerDraft.truncate] by (simp add: toScope_def good_draft_scope_def)

section \<open>What outlives the cut\<close>

lemma keep_newest_own: "own_keys fl \<Longrightarrow> own_keys (keep_newest stamp n fl)"
  using keep_newest_sub [of fl stamp n] by (auto simp: own_keys_def)

lemma trim_drafts_good: "good_draft_scope s \<Longrightarrow> good_draft_scope (trim_drafts s)"
  using keep_newest_own [of "ds_drafts s"] keep_newest_sub(1) [of "ds_drafts s"]
  by (fastforce simp: good_draft_scope_def trim_drafts_def own_keys_def)

lemma trim_file_good: "good_draft_file fl \<Longrightarrow> good_draft_file (trim_file fl)"
proof -
  assume g: "good_draft_file fl"
  let ?m = "map (\<lambda>(k, scope). (k, trim_drafts scope)) fl"
  have f: "map fst ?m = map fst fl" by (simp add: case_prod_unfold)
  have "own_keys fl" using g by (simp add: good_draft_file_def)
  then have o: "own_keys ?m" unfolding own_keys_names f .
  then have "distinct (map fst ?m)" by (simp add: own_keys_def)
  from keep_newest_sub(1) [OF this] have "set (trim_file fl) \<subseteq> set ?m" by (simp add: trim_file_def)
  then show ?thesis
    using keep_newest_own [OF o] g trim_drafts_good by (fastforce simp: trim_file_def good_draft_file_def)
qed

lemma newest_fold:
  fixes now :: jsnum
  shows "acc < now \<Longrightarrow> (\<And>e. e \<in> set es \<Longrightarrow> pd_savedAt (snd e) < now) \<Longrightarrow>
    foldl (\<lambda>mx (_, draft). num_max mx (pd_savedAt draft)) acc es < now"
proof (induction es arbitrary: acc)
  case (Cons e es)
  have "num_max acc (pd_savedAt (snd e)) < now"
    using Cons.prems(1) Cons.prems(2) [of e] by (auto simp: num_max_def)
  then show ?case using Cons by (simp add: case_prod_unfold)
qed simp

lemma newest_fold_now:
  fixes now :: jsnum
  shows "is_finite now \<Longrightarrow> acc < now \<or> acc = now \<Longrightarrow> (\<And>e. e \<in> set es \<Longrightarrow> pd_savedAt (snd e) < now \<or> pd_savedAt (snd e) = now) \<Longrightarrow>
    acc = now \<or> (\<exists>e \<in> set es. pd_savedAt (snd e) = now) \<Longrightarrow>
    foldl (\<lambda>mx (_, draft). num_max mx (pd_savedAt draft)) acc es = now"
proof (induction es arbitrary: acc)
  case (Cons e es)
  let ?m = "num_max acc (pd_savedAt (snd e))"
  have asym: "\<not> y < x" if "x < y" for x y :: jsnum using that jsnum_less_trans jsnum_less_irrefl by blast
  have e: "pd_savedAt (snd e) < now \<or> pd_savedAt (snd e) = now" using Cons.prems(3) [of e] by simp
  have "?m < now \<or> ?m = now" "acc = now \<or> pd_savedAt (snd e) = now \<Longrightarrow> ?m = now"
    using Cons.prems(1,2) e asym by (auto simp: num_max_def is_finite_def)
  moreover have "\<And>e'. e' \<in> set es \<Longrightarrow> pd_savedAt (snd e') < now \<or> pd_savedAt (snd e') = now" using Cons.prems(3) by simp
  ultimately have "foldl (\<lambda>mx (_, draft). num_max mx (pd_savedAt draft)) ?m es = now"
    using Cons.prems(1,4) by (intro Cons.IH) auto
  then show ?case by (simp add: case_prod_unfold)
qed simp

section \<open>The property of the drafts\<close>

lemma saved_scope_good:
  assumes "good_draft_file fl" and "is_finite now"
  shows "good_draft_scope (saved_scope (map_of fl scopeKey) topic draft now)"
proof -
  define before where "before = nullish (map_of fl scopeKey) \<lparr>ds_lastTopic = [], ds_drafts = []\<rparr>"
  have b: "good_draft_scope before"
    using assms(1) map_of_SomeD [of fl scopeKey] by (cases "map_of fl scopeKey") (auto simp: before_def good_draft_file_def good_draft_scope_def)
  have d: "good_draft (stored_draft draft now)"
    using assms(2) clamp_level_whole [of "pd_delay draft"] by (simp add: good_draft_def stored_draft_def)
  have "good_draft (snd e)" if "e \<in> set (put_own topic (stored_draft draft now) (ds_drafts before))" for e
    using that set_put_own [of topic "stored_draft draft now" "ds_drafts before"] b d by (auto simp: good_draft_scope_def)
  then show ?thesis
    using b by (simp add: saved_scope_def before_def [symmetric] good_draft_scope_def own_keys_put Let_def)
qed

lemma good_draft_file_put:
  "good_draft_file fl \<Longrightarrow> good_draft_scope s \<Longrightarrow> good_draft_file (put_own k s fl)"
  using set_put_own [of k s fl] by (auto simp: good_draft_file_def own_keys_put)

lemma trimmed_scope:
  assumes "good_draft_file fl" and "scopeKey \<noteq> proto" and "topic \<noteq> proto" and "is_finite now" and "Fin 0 < now"
    and "\<And>e d. e \<in> set fl \<Longrightarrow> d \<in> set (ds_drafts (snd e)) \<Longrightarrow> pd_savedAt (snd d) < now"
    and "length (encode (pd_body draft)) \<le> MAX_BODY_BYTES"
  defines "s \<equiv> saved_scope (map_of fl scopeKey) topic draft now"
  shows "map_of (trim_file (put_own scopeKey s fl)) scopeKey = Some (trim_drafts s)"
    "map_of (ds_drafts (trim_drafts s)) topic = Some (stored_draft draft now)"
proof -
  define olds where "olds = ds_drafts (nullish (map_of fl scopeKey) \<lparr>ds_lastTopic = [], ds_drafts = []\<rparr>)"
  have older: "pd_savedAt (snd d) < now" if "d \<in> set olds" for d
    using that assms(6) [of "(scopeKey, the (map_of fl scopeKey))" d] map_of_SomeD [of fl scopeKey]
    by (cases "map_of fl scopeKey") (auto simp: olds_def)
  have ds: "ds_drafts s = put_own topic (stored_draft draft now) olds"
    using assms(7) by (simp add: s_def saved_scope_def olds_def Let_def)
  have good: "good_draft_scope s" unfolding s_def by (rule saved_scope_good [OF assms(1,4)])
  have own: "own_keys (ds_drafts s)" using good by (simp add: good_draft_scope_def)
  have "own_keys olds"
    using assms(1) map_of_SomeD [of fl scopeKey] by (cases "map_of fl scopeKey") (auto simp: olds_def good_draft_file_def good_draft_scope_def)
  then have at: "map_of (ds_drafts s) topic = Some (stored_draft draft now)" by (simp add: ds map_of_put_own assms(3))
  have each: "pd_savedAt (snd d) < now \<or> pd_savedAt (snd d) = now" if "d \<in> set (ds_drafts s)" for d
  proof -
    have "d = (topic, stored_draft draft now) \<or> d \<in> set olds" using that set_put_own [of topic "stored_draft draft now" olds] by (auto simp: ds)
    then show ?thesis using older [of d] by (elim disjE) (simp_all add: stored_draft_def)
  qed
  show kept: "map_of (ds_drafts (trim_drafts s)) topic = Some (stored_draft draft now)"
  proof -
    have "map_of (keep_newest pd_savedAt MAX_TOPICS_PER_SCOPE (ds_drafts s)) topic = Some (stored_draft draft now)"
    proof (rule keep_newest_keeps)
      show "distinct (map fst (ds_drafts s))" using own by (simp add: own_keys_def)
      show "(topic, stored_draft draft now) \<in> set (ds_drafts s)" using at by (rule map_of_SomeD)
      show "0 < MAX_TOPICS_PER_SCOPE" by (simp add: MAX_TOPICS_PER_SCOPE_def)
      fix k' d assume m: "(k', d) \<in> set (ds_drafts s)" "k' \<noteq> topic"
      then have "(k', d) \<in> set olds" using set_put_own [of topic "stored_draft draft now" olds] by (auto simp: ds)
      then show "pd_savedAt d < pd_savedAt (stored_draft draft now)" using older by (force simp: stored_draft_def)
    qed
    then show ?thesis by (simp add: trim_drafts_def)
  qed
  have sub: "set (ds_drafts (trim_drafts x)) \<subseteq> set (ds_drafts x)" if "good_draft_scope x" for x
    using keep_newest_sub(1) [of "ds_drafts x"] that by (auto simp: trim_drafts_def good_draft_scope_def own_keys_def)
  have newest: "newestSavedAt (trim_drafts s) = now"
    unfolding newestSavedAt_def
  proof (rule newest_fold_now [OF assms(4)])
    show "Fin 0 < now \<or> Fin 0 = now" using assms(5) by simp
    show "pd_savedAt (snd e) < now \<or> pd_savedAt (snd e) = now" if "e \<in> set (ds_drafts (trim_drafts s))" for e
      using that sub [OF good] each by blast
    show "Fin 0 = now \<or> (\<exists>e \<in> set (ds_drafts (trim_drafts s)). pd_savedAt (snd e) = now)"
      using map_of_SomeD [OF kept] by (force simp: stored_draft_def)
  qed
  let ?m = "map (\<lambda>(k, scope). (k, trim_drafts scope)) (put_own scopeKey s fl)"
  have f: "map fst ?m = map fst (put_own scopeKey s fl)" by (simp add: case_prod_unfold)
  have fileown: "own_keys fl" using assms(1) by (simp add: good_draft_file_def)
  show "map_of (trim_file (put_own scopeKey s fl)) scopeKey = Some (trim_drafts s)"
    unfolding trim_file_def
  proof (rule keep_newest_keeps)
    show "distinct (map fst ?m)" unfolding f using own_keys_put [OF fileown] by (simp add: own_keys_def)
    have "map_of (put_own scopeKey s fl) scopeKey = Some s" by (simp add: map_of_put_own [OF fileown assms(2)])
    from map_of_SomeD [OF this] show "(scopeKey, trim_drafts s) \<in> set ?m" by force
    show "0 < MAX_DRAFT_SCOPES" by (simp add: MAX_DRAFT_SCOPES_def)
    fix k' x assume "(k', x) \<in> set ?m" "k' \<noteq> scopeKey"
    then obtain y where y: "(k', y) \<in> set fl" "x = trim_drafts y" using set_put_own [of scopeKey s fl] by auto
    have "good_draft_scope y" using y(1) assms(1) by (auto simp: good_draft_file_def)
    then have "pd_savedAt (snd e) < now" if "e \<in> set (ds_drafts x)" for e
      using that sub [of y] assms(6) [OF y(1), of e] by (auto simp: y(2))
    then show "newestSavedAt x < newestSavedAt (trim_drafts s)"
      unfolding newest unfolding newestSavedAt_def by (intro newest_fold [OF assms(5)])
  qed
qed

text \<open>
  C40: What was sent to a named topic comes back when the page is opened again: the form selects that
  topic and holds the same tag, key and body and the delay brought between 0 and 18; storage then
  holds at most ten connections of at most thirty topics, and while a connection has fewer than
  thirty, or had the topic already, the drafts of its other topics are kept. The clock reads later
  than zero and every stored stamp, the body has at most 256 KB, neither the topic nor the connection's
  key is \<open>__proto__\<close>, and storage takes the write.
\<close>

theorem saved_draft_comes_back:
  assumes "topic \<noteq> []" and "topic \<noteq> proto" and "scopeKey \<noteq> proto" and "is_finite now" and "Fin 0 < now"
    and "\<forall>e \<in> set (readDraftFile c). \<forall>d \<in> set (ds_drafts (snd e)). pd_savedAt (snd d) < now"
    and "length (encode (pd_body draft)) \<le> MAX_BODY_BYTES"
    and "saveProducerDraft c False scopeKey topic draft now = (c', view)"
  shows "ds_lastTopic view = topic
    \<and> map_of (ds_drafts view) topic = Some (draft\<lparr>pd_delay := clamp_level (pd_delay draft)\<rparr>)
    \<and> ds_lastTopic (loadProducerScope c' scopeKey) = topic
    \<and> map_of (ds_drafts (loadProducerScope c' scopeKey)) = map_of (ds_drafts view)
    \<and> length (readDraftFile c') \<le> 10 \<and> (\<forall>e \<in> set (readDraftFile c'). length (ds_drafts (snd e)) \<le> 30)
    \<and> (length (put_own topic draft (ds_drafts (loadProducerScope c scopeKey))) \<le> 30 \<longrightarrow>
         (\<forall>t. t \<noteq> topic \<longrightarrow> map_of (ds_drafts view) t = map_of (ds_drafts (loadProducerScope c scopeKey)) t))"
proof -
  define fl where "fl = readDraftFile c"
  define s where "s = saved_scope (map_of fl scopeKey) topic draft now"
  define fl' where "fl' = trim_file (put_own scopeKey s fl)"
  have good: "good_draft_file fl" unfolding fl_def by (rule readDraftFile_good)
  have gs: "good_draft_scope s" unfolding s_def by (rule saved_scope_good [OF good assms(4)])
  note gt = trim_drafts_good [OF gs]
  have gf: "good_draft_file fl'" unfolding fl'_def by (intro trim_file_good good_draft_file_put good gs)
  have at: "map_of fl' scopeKey = Some (trim_drafts s)" "map_of (ds_drafts (trim_drafts s)) topic = Some (stored_draft draft now)"
    using trimmed_scope [OF good assms(3,2,4,5) _ assms(7)] assms(6) unfolding fl'_def s_def fl_def by blast+
  have c': "c' = writeDraftFile fl' False c" and view: "view = toScope (Some (trim_drafts s))"
    using assms(1,8) at(1) by (simp_all add: saveProducerDraft_def saved_file_def fl'_def s_def fl_def Let_def)
  have lastT: "ds_lastTopic s = topic" by (simp add: s_def saved_scope_def Let_def)
  have look: "map_of (ds_drafts view) = map_option ProducerDraft.truncate \<circ> map_of (ds_drafts (trim_drafts s))"
    unfolding view by (rule toScope_drafts [OF gt])
  have reread: "map_of (readDraftFile c') = map_option normal_scope \<circ> map_of fl'" unfolding c' by (rule read_written_drafts [OF gf])
  have loaded: "loadProducerScope c' scopeKey = toScope (Some (normal_scope (trim_drafts s)))"
    by (simp add: loadProducerScope_def reread at(1))
  have gn: "good_draft_scope (normal_scope x)" for x by (rule sanitizeDraftScope_good [OF sanitizeDraftScope_json])
  have same: "map_of (ds_drafts (loadProducerScope c' scopeKey)) = map_of (ds_drafts view)"
    unfolding loaded look toScope_drafts [OF gn] normal_scope_same [OF gt] ..
  have len: "length (readDraftFile c') \<le> 10"
  proof -
    have "length (readDraftFile c') \<le> length fl'"
      using readDraftFile_good [of c'] by (intro length_le_dom) (auto simp: good_draft_file_def reread)
    also have "\<dots> \<le> 10"
      using keep_newest_sub(3) [of "map (\<lambda>(k, scope). (k, trim_drafts scope)) (put_own scopeKey s fl)" newestSavedAt MAX_DRAFT_SCOPES]
        good_draft_file_put [OF good gs]
      by (simp add: fl'_def trim_file_def MAX_DRAFT_SCOPES_def good_draft_file_def own_keys_def case_prod_unfold comp_def)
    finally show ?thesis .
  qed
  have few: "length (ds_drafts (trim_drafts x)) \<le> 30" if "good_draft_scope x" for x
    using keep_newest_sub(3) [of "ds_drafts x" pd_savedAt MAX_TOPICS_PER_SCOPE] that
    by (simp add: trim_drafts_def good_draft_scope_def own_keys_def MAX_TOPICS_PER_SCOPE_def)
  have topics: "length (ds_drafts (snd e)) \<le> 30" if "e \<in> set (readDraftFile c')" for e
  proof -
    have ge: "good_draft_file (readDraftFile c')" by (rule readDraftFile_good)
    then have "map_of (readDraftFile c') (fst e) = Some (snd e)" using that by (simp add: good_draft_file_def own_keys_def)
    then obtain x where x: "map_of fl' (fst e) = Some x" "snd e = normal_scope x" by (auto simp: reread)
    have "set fl' \<subseteq> set (map (\<lambda>(k, scope). (k, trim_drafts scope)) (put_own scopeKey s fl))"
      unfolding fl'_def trim_file_def using good_draft_file_put [OF good gs]
      by (intro keep_newest_sub(1)) (simp add: good_draft_file_def own_keys_def case_prod_unfold comp_def)
    then obtain y where y: "y \<in> snd ` set (put_own scopeKey s fl)" "x = trim_drafts y" using map_of_SomeD [OF x(1)] by force
    have gy: "good_draft_scope y" using y(1) good_draft_file_put [OF good gs] by (auto simp: good_draft_file_def)
    have "length (ds_drafts (normal_scope x)) \<le> length (ds_drafts x)"
      using gn [of x] trim_drafts_good [OF gy] by (intro length_le_dom) (simp_all add: good_draft_scope_def y(2) normal_scope_same [OF trim_drafts_good [OF gy]])
    then show ?thesis using few [OF gy] by (simp add: x(2) y(2))
  qed
  define olds where "olds = ds_drafts (nullish (map_of fl scopeKey) \<lparr>ds_lastTopic = [], ds_drafts = []\<rparr>)"
  let ?now = "loadProducerScope c scopeKey"
  have go: "own_keys olds" and was: "map_of (ds_drafts ?now) = map_option ProducerDraft.truncate \<circ> map_of olds" and gn': "own_keys (ds_drafts ?now)"
  proof -
    have gx: "good_draft_scope x" if "map_of fl scopeKey = Some x" for x using good map_of_SomeD [OF that] by (auto simp: good_draft_file_def)
    show "own_keys olds" using gx by (cases "map_of fl scopeKey") (auto simp: olds_def good_draft_scope_def)
    show "map_of (ds_drafts ?now) = map_option ProducerDraft.truncate \<circ> map_of olds"
      using gx toScope_drafts by (cases "map_of fl scopeKey") (auto simp: loadProducerScope_def fl_def [symmetric] olds_def toScope_def)
    show "own_keys (ds_drafts ?now)"
      using foldl_own [of "[]" ProducerDraft.truncate] by (cases "map_of fl scopeKey") (simp_all add: loadProducerScope_def fl_def [symmetric] toScope_def)
  qed
  have ds: "ds_drafts s = put_own topic (stored_draft draft now) olds"
    using assms(7) by (simp add: s_def saved_scope_def olds_def Let_def)
  have others: "map_of (ds_drafts view) t = map_of (ds_drafts ?now) t"
    if room: "length (put_own topic draft (ds_drafts ?now)) \<le> 30" and t: "t \<noteq> topic" for t
  proof -
    have "length (ds_drafts s) \<le> length (put_own topic draft (ds_drafts ?now))"
      unfolding ds by (intro length_le_dom own_keys_put go) (simp add: map_of_put_own go gn' assms(2) was)
    then have "ds_drafts (trim_drafts s) = ds_drafts s"
      using room by (simp add: trim_drafts_def keep_newest_def MAX_TOPICS_PER_SCOPE_def)
    then show ?thesis using t by (simp add: look ds map_of_put_own go assms(2) was)
  qed
  show ?thesis
    using lastT at(2) same len topics others unfolding look loaded
    by (simp add: view toScope_def trim_drafts_def normal_scope_def stored_draft_def ProducerDraft.defs)
qed

theorem saved_draft_comes_back_witness:
  "map_of (ds_drafts (loadProducerScope (fst (saveProducerDraft NoItem False (u ''7'') (u ''orders'')
     \<lparr>pd_tag = u ''paid'', pd_key = [], pd_delay = Fin 99, pd_body = u ''x''\<rparr> (Fin 5))) (u ''7''))) (u ''orders'')
   = Some \<lparr>pd_tag = u ''paid'', pd_key = [], pd_delay = Fin 18, pd_body = u ''x''\<rparr>"
proof -
  let ?d = "\<lparr>pd_tag = u ''paid'', pd_key = [], pd_delay = Fin 99, pd_body = u ''x''\<rparr>"
  obtain c' view where r: "saveProducerDraft NoItem False (u ''7'') (u ''orders'') ?d (Fin 5) = (c', view)" by fastforce
  have k: "u ''orders'' \<noteq> []" "u ''orders'' \<noteq> proto" "u ''7'' \<noteq> proto" by (simp_all add: u_def proto_def)
  have b: "length (encode (pd_body ?d)) \<le> MAX_BODY_BYTES"
    by (simp add: u_def is_high_def is_low_def utf8_def MAX_BODY_BYTES_def)
  have l: "clamp_level (Fin 99) = Fin 18"
    by (simp add: clamp_level_def is_finite_def num_trunc_def num_min_def num_max_def MAX_DELAY_LEVEL_def)
  show ?thesis
    using saved_draft_comes_back [OF k _ _ _ b r] by (simp add: r readDraftFile_def is_finite_def l)
qed

text \<open>
  A body that is too large is not kept but the one kept before is: the page reopens on the topic
  with an older message.
\<close>

lemma oversized_keeps_older:
  assumes "MAX_BODY_BYTES < length (encode (pd_body draft))" and "map_of fl scopeKey = Some before"
  shows "saved_scope (map_of fl scopeKey) topic draft now = before\<lparr>ds_lastTopic := topic\<rparr>"
  using assms by (simp add: saved_scope_def Let_def)

text \<open>Clearing a topic removes its draft and no other, and leaves the topic selected.\<close>

lemma cleared_draft_is_gone:
  assumes "clearProducerDraft c False scopeKey topic = (c', view)" and "map_of (readDraftFile c) scopeKey = Some s"
  shows "ds_lastTopic view = ds_lastTopic s"
    "map_of (ds_drafts view) = (map_option ProducerDraft.truncate \<circ> map_of (ds_drafts s)) |` (- {topic})"
proof -
  have g: "good_draft_scope s"
    using readDraftFile_good [of c] map_of_SomeD [OF assms(2)] by (auto simp: good_draft_file_def)
  let ?c = "s\<lparr>ds_drafts := filter (\<lambda>e. fst e \<noteq> topic) (ds_drafts s)\<rparr>"
  have gc: "good_draft_scope ?c"
    using g by (auto simp: good_draft_scope_def own_keys_def distinct_map_filter)
  have restrict: "map_of (filter (\<lambda>e. fst e \<noteq> topic) l) = map_of l |` (- {topic})" for l :: "(jsstr \<times> StoredDraft) list"
    by (induction l) (auto simp: restrict_map_def fun_eq_iff)
  have idle: "m |` (- {topic}) = m" if "m topic = None" for m :: "jsstr \<Rightarrow> ProducerDraft option"
    using that by (auto simp: restrict_map_def fun_eq_iff)
  have comm: "(map_option h \<circ> (m |` A)) = (map_option h \<circ> m) |` A" for h :: "StoredDraft \<Rightarrow> ProducerDraft" and m A
    by (auto simp: restrict_map_def fun_eq_iff)
  consider "view = toScope (Some s)" "topic \<notin> fst ` set (ds_drafts s)" | "view = toScope (Some ?c)"
    using assms by (auto simp: clearProducerDraft_def Let_def split: if_splits)
  then have "ds_lastTopic view = ds_lastTopic s
    \<and> map_of (ds_drafts view) = (map_option ProducerDraft.truncate \<circ> map_of (ds_drafts s)) |` (- {topic})"
  proof cases
    case 1
    have "map_of (ds_drafts view) topic = None"
      unfolding 1(1) toScope_drafts [OF g] using 1(2) by (simp add: map_of_eq_None_iff)
    then show ?thesis using idle [of "map_of (ds_drafts view)"] unfolding 1(1) toScope_drafts [OF g] by (simp add: toScope_def)
  next
    case 2
    show ?thesis unfolding 2 toScope_drafts [OF gc] by (simp add: toScope_def restrict comm)
  qed
  then show "ds_lastTopic view = ds_lastTopic s"
    "map_of (ds_drafts view) = (map_option ProducerDraft.truncate \<circ> map_of (ds_drafts s)) |` (- {topic})" by simp_all
qed

end
