(* ===== verification/Protocols.thy ===== *)
theory Protocols
  imports Navigation
begin

text \<open>
  The protocol registry of the shell (\<open>design/data/protocols.ts\<close>): for each of the fifteen families its
  names and the groups of its sidebar, the three families of families, and the kinds a stored
  profile may have (\<open>design/data/connections.ts\<close>). A label is the key of its translation.
\<close>

datatype ProtocolId =
    ProtoRocketMQ | ProtoKafka | ProtoRabbitMQ | ProtoPulsar | ProtoRedis
  | ProtoMqtt | ProtoNats | ProtoActiveMQ | ProtoNsq | ProtoSqs
  | ProtoGooglePubSub | ProtoAzureServiceBus | ProtoKinesis | ProtoIbmMq | ProtoSolace

datatype PageId =
    OnOverview | OnTopics | OnShards | OnChannels | OnExchanges | OnVhosts | OnPolicies
  | OnDefinitions | OnReplication | OnQuotas | OnConsumers | OnMessages | OnDlq | OnProducer
  | OnSubscribe | OnClients | OnCluster | OnAlerts | OnAcl

datatype Icon =
    IconBellRing | IconBoxes | IconCable | IconFileJson | IconGauge | IconHouse
  | IconLayers | IconMail | IconPlug | IconRadio | IconScrollText | IconSend
  | IconServer | IconShield | IconSplit | IconTriangleAlert | IconUsers | IconWaypoints

fun protocol_str :: "ProtocolId \<Rightarrow> string" where
  "protocol_str ProtoRocketMQ = ''rocketmq''"
| "protocol_str ProtoKafka = ''kafka''"
| "protocol_str ProtoRabbitMQ = ''rabbitmq''"
| "protocol_str ProtoPulsar = ''pulsar''"
| "protocol_str ProtoRedis = ''redis''"
| "protocol_str ProtoMqtt = ''mqtt''"
| "protocol_str ProtoNats = ''nats''"
| "protocol_str ProtoActiveMQ = ''activemq''"
| "protocol_str ProtoNsq = ''nsq''"
| "protocol_str ProtoSqs = ''sqs''"
| "protocol_str ProtoGooglePubSub = ''google-pubsub''"
| "protocol_str ProtoAzureServiceBus = ''azure-servicebus''"
| "protocol_str ProtoKinesis = ''kinesis''"
| "protocol_str ProtoIbmMq = ''ibmmq''"
| "protocol_str ProtoSolace = ''solace''"

fun page_str :: "PageId \<Rightarrow> string" where
  "page_str OnOverview = ''overview''"
| "page_str OnTopics = ''topics''"
| "page_str OnShards = ''shards''"
| "page_str OnChannels = ''channels''"
| "page_str OnExchanges = ''exchanges''"
| "page_str OnVhosts = ''vhosts''"
| "page_str OnPolicies = ''policies''"
| "page_str OnDefinitions = ''definitions''"
| "page_str OnReplication = ''replication''"
| "page_str OnQuotas = ''quotas''"
| "page_str OnConsumers = ''consumers''"
| "page_str OnMessages = ''messages''"
| "page_str OnDlq = ''dlq''"
| "page_str OnProducer = ''producer''"
| "page_str OnSubscribe = ''subscribe''"
| "page_str OnClients = ''clients''"
| "page_str OnCluster = ''cluster''"
| "page_str OnAlerts = ''alerts''"
| "page_str OnAcl = ''acl''"

record NavEntry =
  ne_id :: PageId
  ne_icon :: Icon
  ne_label :: string

record NavGroup =
  ng_label :: "string option"
  ng_items :: "NavEntry list"

record Protocol =
  pr_id :: ProtocolId
  pr_name :: string
  pr_badge :: string
  pr_badgeClass :: string
  pr_nav :: "NavGroup list"

definition BROWSE :: string where "BROWSE = ''shell.nav.browse''"
definition OPS :: string where "OPS = ''shell.nav.ops''"

abbreviation entry :: "PageId \<Rightarrow> Icon \<Rightarrow> string \<Rightarrow> NavEntry" where
  "entry page icon label \<equiv> \<lparr>ne_id = page, ne_icon = icon, ne_label = label\<rparr>"

definition registry_rocketmq :: Protocol where
  "registry_rocketmq = \<lparr>pr_id = ProtoRocketMQ, pr_name = ''RocketMQ'', pr_badge = ''RMQ 4/5'', pr_badgeClass = ''pRMQ'',
     pr_nav = [\<lparr>ng_label = None, ng_items = [entry OnOverview IconHouse ''shell.nav.rocketmq.overview'']\<rparr>,
      \<lparr>ng_label = Some BROWSE, ng_items = [entry OnTopics IconLayers ''shell.nav.rocketmq.topics'',
        entry OnConsumers IconUsers ''shell.nav.rocketmq.consumers'',
        entry OnMessages IconMail ''shell.nav.rocketmq.messages'',
        entry OnDlq IconTriangleAlert ''shell.nav.rocketmq.dlq'',
        entry OnProducer IconSend ''shell.nav.rocketmq.producer'']\<rparr>,
      \<lparr>ng_label = Some OPS, ng_items = [entry OnCluster IconServer ''shell.nav.rocketmq.cluster'',
        entry OnAlerts IconBellRing ''shell.nav.rocketmq.alerts'',
        entry OnAcl IconShield ''shell.nav.rocketmq.acl'']\<rparr>]\<rparr>"

definition registry_kafka :: Protocol where
  "registry_kafka = \<lparr>pr_id = ProtoKafka, pr_name = ''Kafka'', pr_badge = ''KAFKA'', pr_badgeClass = ''pKFK'',
     pr_nav = [\<lparr>ng_label = None, ng_items = [entry OnOverview IconHouse ''shell.nav.kafka.overview'']\<rparr>,
      \<lparr>ng_label = Some BROWSE, ng_items = [entry OnTopics IconLayers ''shell.nav.kafka.topics'',
        entry OnConsumers IconUsers ''shell.nav.kafka.consumers'',
        entry OnMessages IconMail ''shell.nav.kafka.messages'',
        entry OnProducer IconSend ''shell.nav.kafka.producer'']\<rparr>,
      \<lparr>ng_label = Some OPS, ng_items = [entry OnCluster IconServer ''shell.nav.kafka.cluster'',
        entry OnAcl IconShield ''shell.nav.kafka.acl'',
        entry OnQuotas IconGauge ''shell.nav.kafka.quotas'',
        entry OnAlerts IconBellRing ''shell.nav.kafka.alerts'']\<rparr>]\<rparr>"

definition registry_rabbitmq :: Protocol where
  "registry_rabbitmq = \<lparr>pr_id = ProtoRabbitMQ, pr_name = ''RabbitMQ'', pr_badge = ''RABBIT'', pr_badgeClass = ''pAMQ'',
     pr_nav = [\<lparr>ng_label = None, ng_items = [entry OnOverview IconHouse ''shell.nav.rabbitmq.overview'']\<rparr>,
      \<lparr>ng_label = Some BROWSE, ng_items = [entry OnTopics IconLayers ''shell.nav.rabbitmq.topics'',
        entry OnExchanges IconWaypoints ''shell.nav.rabbitmq.exchanges'',
        entry OnConsumers IconUsers ''shell.nav.rabbitmq.consumers'',
        entry OnMessages IconMail ''shell.nav.rabbitmq.messages'',
        entry OnDlq IconTriangleAlert ''shell.nav.rabbitmq.dlq'',
        entry OnProducer IconSend ''shell.nav.rabbitmq.producer'']\<rparr>,
      \<lparr>ng_label = Some OPS, ng_items = [entry OnCluster IconServer ''shell.nav.rabbitmq.cluster'',
        entry OnVhosts IconBoxes ''shell.nav.rabbitmq.vhosts'',
        entry OnPolicies IconScrollText ''shell.nav.rabbitmq.policies'',
        entry OnReplication IconCable ''shell.nav.rabbitmq.replication'',
        entry OnDefinitions IconFileJson ''shell.nav.rabbitmq.definitions'',
        entry OnAlerts IconBellRing ''shell.nav.rabbitmq.alerts'',
        entry OnAcl IconShield ''shell.nav.rabbitmq.acl'']\<rparr>]\<rparr>"

definition registry_pulsar :: Protocol where
  "registry_pulsar = \<lparr>pr_id = ProtoPulsar, pr_name = ''Pulsar'', pr_badge = ''PULSAR'', pr_badgeClass = ''pPLS'',
     pr_nav = [\<lparr>ng_label = None, ng_items = [entry OnOverview IconHouse ''shell.nav.pulsar.overview'']\<rparr>,
      \<lparr>ng_label = Some BROWSE, ng_items = [entry OnVhosts IconBoxes ''shell.nav.pulsar.vhosts'',
        entry OnTopics IconLayers ''shell.nav.pulsar.topics'',
        entry OnConsumers IconUsers ''shell.nav.pulsar.consumers'',
        entry OnMessages IconMail ''shell.nav.pulsar.messages'',
        entry OnDlq IconTriangleAlert ''shell.nav.pulsar.dlq'',
        entry OnProducer IconSend ''shell.nav.pulsar.producer'']\<rparr>,
      \<lparr>ng_label = Some OPS, ng_items = [entry OnCluster IconServer ''shell.nav.pulsar.cluster'',
        entry OnAlerts IconBellRing ''shell.nav.pulsar.alerts'',
        entry OnAcl IconShield ''shell.nav.pulsar.acl'']\<rparr>]\<rparr>"

definition registry_redis :: Protocol where
  "registry_redis = \<lparr>pr_id = ProtoRedis, pr_name = ''Redis Stream'', pr_badge = ''REDIS'', pr_badgeClass = ''pRDS'',
     pr_nav = [\<lparr>ng_label = None, ng_items = [entry OnOverview IconHouse ''shell.nav.redis.overview'']\<rparr>,
      \<lparr>ng_label = Some BROWSE, ng_items = [entry OnTopics IconLayers ''shell.nav.redis.topics'',
        entry OnConsumers IconUsers ''shell.nav.redis.consumers'',
        entry OnMessages IconMail ''shell.nav.redis.messages'',
        entry OnDlq IconTriangleAlert ''shell.nav.redis.dlq'',
        entry OnProducer IconSend ''shell.nav.redis.producer'']\<rparr>,
      \<lparr>ng_label = Some OPS, ng_items = [entry OnCluster IconServer ''shell.nav.redis.cluster'',
        entry OnClients IconPlug ''shell.nav.redis.clients'',
        entry OnAlerts IconBellRing ''shell.nav.redis.alerts'',
        entry OnAcl IconShield ''shell.nav.redis.acl'']\<rparr>]\<rparr>"

definition registry_mqtt :: Protocol where
  "registry_mqtt = \<lparr>pr_id = ProtoMqtt, pr_name = ''MQTT'', pr_badge = ''MQTT'', pr_badgeClass = ''pMQT'',
     pr_nav = [\<lparr>ng_label = None, ng_items = [entry OnOverview IconHouse ''shell.nav.mqtt.overview'']\<rparr>,
      \<lparr>ng_label = Some BROWSE, ng_items = [entry OnTopics IconLayers ''shell.nav.mqtt.topics'',
        entry OnSubscribe IconRadio ''shell.nav.mqtt.subscribe'',
        entry OnProducer IconSend ''shell.nav.mqtt.producer'',
        entry OnClients IconPlug ''shell.nav.mqtt.clients'']\<rparr>,
      \<lparr>ng_label = Some OPS, ng_items = [entry OnCluster IconServer ''shell.nav.mqtt.cluster'',
        entry OnAlerts IconBellRing ''shell.nav.mqtt.alerts'']\<rparr>]\<rparr>"

definition registry_nats :: Protocol where
  "registry_nats = \<lparr>pr_id = ProtoNats, pr_name = ''NATS'', pr_badge = ''NATS 2.x'', pr_badgeClass = ''pNAT'',
     pr_nav = [\<lparr>ng_label = None, ng_items = [entry OnOverview IconHouse ''shell.nav.nats.overview'']\<rparr>,
      \<lparr>ng_label = Some BROWSE, ng_items = [entry OnTopics IconLayers ''shell.nav.nats.topics'',
        entry OnConsumers IconUsers ''shell.nav.nats.consumers'',
        entry OnMessages IconMail ''shell.nav.nats.messages'',
        entry OnProducer IconSend ''shell.nav.nats.producer'',
        entry OnSubscribe IconRadio ''shell.nav.nats.subscribe'']\<rparr>,
      \<lparr>ng_label = Some OPS, ng_items = [entry OnCluster IconServer ''shell.nav.nats.cluster'',
        entry OnClients IconPlug ''shell.nav.nats.clients'',
        entry OnVhosts IconBoxes ''shell.nav.nats.vhosts'',
        entry OnAlerts IconBellRing ''shell.nav.nats.alerts'']\<rparr>]\<rparr>"

definition registry_activemq :: Protocol where
  "registry_activemq = \<lparr>pr_id = ProtoActiveMQ, pr_name = ''ActiveMQ'', pr_badge = ''AMQ'', pr_badgeClass = ''pAMQ'',
     pr_nav = [\<lparr>ng_label = None, ng_items = [entry OnOverview IconHouse ''shell.nav.activemq.overview'']\<rparr>,
      \<lparr>ng_label = Some BROWSE, ng_items = [entry OnTopics IconLayers ''shell.nav.activemq.topics'',
        entry OnConsumers IconUsers ''shell.nav.activemq.consumers'',
        entry OnMessages IconMail ''shell.nav.activemq.messages'',
        entry OnDlq IconTriangleAlert ''shell.nav.activemq.dlq'',
        entry OnProducer IconSend ''shell.nav.activemq.producer'',
        entry OnSubscribe IconRadio ''shell.nav.activemq.subscribe'']\<rparr>,
      \<lparr>ng_label = Some OPS, ng_items = [entry OnCluster IconServer ''shell.nav.activemq.cluster'',
        entry OnClients IconPlug ''shell.nav.activemq.clients'',
        entry OnAlerts IconBellRing ''shell.nav.activemq.alerts'']\<rparr>]\<rparr>"

definition registry_nsq :: Protocol where
  "registry_nsq = \<lparr>pr_id = ProtoNsq, pr_name = ''NSQ'', pr_badge = ''NSQ'', pr_badgeClass = ''pNSQ'',
     pr_nav = [\<lparr>ng_label = None, ng_items = [entry OnOverview IconHouse ''shell.nav.nsq.overview'']\<rparr>,
      \<lparr>ng_label = Some BROWSE, ng_items = [entry OnTopics IconLayers ''shell.nav.nsq.topics'',
        entry OnConsumers IconUsers ''shell.nav.nsq.consumers'',
        entry OnProducer IconSend ''shell.nav.nsq.producer'']\<rparr>,
      \<lparr>ng_label = Some OPS, ng_items = [entry OnCluster IconServer ''shell.nav.nsq.cluster'',
        entry OnClients IconPlug ''shell.nav.nsq.clients'',
        entry OnAlerts IconBellRing ''shell.nav.nsq.alerts'']\<rparr>]\<rparr>"

definition registry_sqs :: Protocol where
  "registry_sqs = \<lparr>pr_id = ProtoSqs, pr_name = ''Amazon SQS'', pr_badge = ''SQS'', pr_badgeClass = ''pSQS'',
     pr_nav = [\<lparr>ng_label = None, ng_items = [entry OnOverview IconHouse ''shell.nav.sqs.overview'']\<rparr>,
      \<lparr>ng_label = Some BROWSE, ng_items = [entry OnTopics IconLayers ''shell.nav.sqs.topics'',
        entry OnMessages IconMail ''shell.nav.sqs.messages'',
        entry OnDlq IconTriangleAlert ''shell.nav.sqs.dlq'',
        entry OnProducer IconSend ''shell.nav.sqs.producer'']\<rparr>,
      \<lparr>ng_label = Some OPS, ng_items = [entry OnAlerts IconBellRing ''shell.nav.sqs.alerts'']\<rparr>]\<rparr>"

definition registry_google_pubsub :: Protocol where
  "registry_google_pubsub = \<lparr>pr_id = ProtoGooglePubSub, pr_name = ''Google Pub/Sub'', pr_badge = ''PUB/SUB'', pr_badgeClass = ''pGPS'',
     pr_nav = [\<lparr>ng_label = None, ng_items = [entry OnOverview IconHouse ''shell.nav.google-pubsub.overview'']\<rparr>,
      \<lparr>ng_label = Some BROWSE, ng_items = [entry OnTopics IconLayers ''shell.nav.google-pubsub.topics'',
        entry OnConsumers IconUsers ''shell.nav.google-pubsub.consumers'',
        entry OnMessages IconMail ''shell.nav.google-pubsub.messages'',
        entry OnDlq IconTriangleAlert ''shell.nav.google-pubsub.dlq'',
        entry OnProducer IconSend ''shell.nav.google-pubsub.producer'']\<rparr>,
      \<lparr>ng_label = Some OPS, ng_items = [entry OnAlerts IconBellRing ''shell.nav.google-pubsub.alerts'']\<rparr>]\<rparr>"

definition registry_azure_servicebus :: Protocol where
  "registry_azure_servicebus = \<lparr>pr_id = ProtoAzureServiceBus, pr_name = ''Azure Service Bus'', pr_badge = ''SB'', pr_badgeClass = ''pASB'',
     pr_nav = [\<lparr>ng_label = None, ng_items = [entry OnOverview IconHouse ''shell.nav.azure-servicebus.overview'']\<rparr>,
      \<lparr>ng_label = Some BROWSE, ng_items = [entry OnTopics IconLayers ''shell.nav.azure-servicebus.topics'',
        entry OnConsumers IconUsers ''shell.nav.azure-servicebus.consumers'',
        entry OnExchanges IconWaypoints ''shell.nav.azure-servicebus.exchanges'',
        entry OnMessages IconMail ''shell.nav.azure-servicebus.messages'',
        entry OnDlq IconTriangleAlert ''shell.nav.azure-servicebus.dlq'',
        entry OnProducer IconSend ''shell.nav.azure-servicebus.producer'']\<rparr>,
      \<lparr>ng_label = Some OPS, ng_items = [entry OnAlerts IconBellRing ''shell.nav.azure-servicebus.alerts'']\<rparr>]\<rparr>"

definition registry_kinesis :: Protocol where
  "registry_kinesis = \<lparr>pr_id = ProtoKinesis, pr_name = ''Amazon Kinesis'', pr_badge = ''KDS'', pr_badgeClass = ''pKDS'',
     pr_nav = [\<lparr>ng_label = None, ng_items = [entry OnOverview IconHouse ''shell.nav.kinesis.overview'']\<rparr>,
      \<lparr>ng_label = Some BROWSE, ng_items = [entry OnTopics IconLayers ''shell.nav.kinesis.topics'',
        entry OnShards IconSplit ''shell.nav.kinesis.shards'',
        entry OnConsumers IconUsers ''shell.nav.kinesis.consumers'',
        entry OnMessages IconMail ''shell.nav.kinesis.messages'',
        entry OnProducer IconSend ''shell.nav.kinesis.producer'']\<rparr>,
      \<lparr>ng_label = Some OPS, ng_items = [entry OnAlerts IconBellRing ''shell.nav.kinesis.alerts'']\<rparr>]\<rparr>"

definition registry_ibmmq :: Protocol where
  "registry_ibmmq = \<lparr>pr_id = ProtoIbmMq, pr_name = ''IBM MQ'', pr_badge = ''IMQ'', pr_badgeClass = ''pIMQ'',
     pr_nav = [\<lparr>ng_label = None, ng_items = [entry OnOverview IconHouse ''shell.nav.ibmmq.overview'']\<rparr>,
      \<lparr>ng_label = Some BROWSE, ng_items = [entry OnTopics IconLayers ''shell.nav.ibmmq.topics'',
        entry OnChannels IconCable ''shell.nav.ibmmq.channels'',
        entry OnConsumers IconUsers ''shell.nav.ibmmq.consumers'',
        entry OnMessages IconMail ''shell.nav.ibmmq.messages'',
        entry OnProducer IconSend ''shell.nav.ibmmq.producer'']\<rparr>,
      \<lparr>ng_label = Some OPS, ng_items = [entry OnDlq IconTriangleAlert ''shell.nav.ibmmq.dlq'',
        entry OnAlerts IconBellRing ''shell.nav.ibmmq.alerts'']\<rparr>]\<rparr>"

definition registry_solace :: Protocol where
  "registry_solace = \<lparr>pr_id = ProtoSolace, pr_name = ''Solace PubSub+'', pr_badge = ''SOL'', pr_badgeClass = ''pSOL'',
     pr_nav = [\<lparr>ng_label = None, ng_items = [entry OnOverview IconHouse ''shell.nav.solace.overview'']\<rparr>,
      \<lparr>ng_label = Some BROWSE, ng_items = [entry OnTopics IconLayers ''shell.nav.solace.topics'',
        entry OnExchanges IconSplit ''shell.nav.solace.exchanges'',
        entry OnMessages IconMail ''shell.nav.solace.messages'',
        entry OnProducer IconSend ''shell.nav.solace.producer'',
        entry OnClients IconPlug ''shell.nav.solace.clients'']\<rparr>,
      \<lparr>ng_label = Some OPS, ng_items = [entry OnDlq IconTriangleAlert ''shell.nav.solace.dlq'',
        entry OnCluster IconServer ''shell.nav.solace.cluster'',
        entry OnAlerts IconBellRing ''shell.nav.solace.alerts'']\<rparr>]\<rparr>"

fun PROTOCOLS :: "ProtocolId \<Rightarrow> Protocol" where
  "PROTOCOLS ProtoRocketMQ = registry_rocketmq"
| "PROTOCOLS ProtoKafka = registry_kafka"
| "PROTOCOLS ProtoRabbitMQ = registry_rabbitmq"
| "PROTOCOLS ProtoPulsar = registry_pulsar"
| "PROTOCOLS ProtoRedis = registry_redis"
| "PROTOCOLS ProtoMqtt = registry_mqtt"
| "PROTOCOLS ProtoNats = registry_nats"
| "PROTOCOLS ProtoActiveMQ = registry_activemq"
| "PROTOCOLS ProtoNsq = registry_nsq"
| "PROTOCOLS ProtoSqs = registry_sqs"
| "PROTOCOLS ProtoGooglePubSub = registry_google_pubsub"
| "PROTOCOLS ProtoAzureServiceBus = registry_azure_servicebus"
| "PROTOCOLS ProtoKinesis = registry_kinesis"
| "PROTOCOLS ProtoIbmMq = registry_ibmmq"
| "PROTOCOLS ProtoSolace = registry_solace"

lemmas registry_defs = registry_rocketmq_def registry_kafka_def registry_rabbitmq_def registry_pulsar_def registry_redis_def
  registry_mqtt_def registry_nats_def registry_activemq_def registry_nsq_def registry_sqs_def
  registry_google_pubsub_def registry_azure_servicebus_def registry_kinesis_def registry_ibmmq_def registry_solace_def

definition PROTOCOL_ORDER :: "ProtocolId list" where
  "PROTOCOL_ORDER = [ProtoRocketMQ, ProtoKafka, ProtoRabbitMQ, ProtoPulsar, ProtoRedis,
     ProtoMqtt, ProtoNats, ProtoActiveMQ, ProtoNsq, ProtoSqs,
     ProtoGooglePubSub, ProtoAzureServiceBus, ProtoKinesis, ProtoIbmMq, ProtoSolace]"

definition pagesOf :: "ProtocolId \<Rightarrow> PageId list" where
  "pagesOf protocol = concat (map (\<lambda>g. map ne_id (ng_items g)) (pr_nav (PROTOCOLS protocol)))"

fun label_in :: "PageId \<Rightarrow> NavEntry list \<Rightarrow> string option" where
  "label_in page [] = None"
| "label_in page (item # items) = (if ne_id item = page then Some (ne_label item) else label_in page items)"

fun label_among :: "PageId \<Rightarrow> NavGroup list \<Rightarrow> string" where
  "label_among page [] = page_str page"
| "label_among page (g # gs) = (case label_in page (ng_items g) of Some l \<Rightarrow> l | None \<Rightarrow> label_among page gs)"

definition labelOf :: "ProtocolId \<Rightarrow> PageId \<Rightarrow> string" where
  "labelOf protocol page = label_among page (pr_nav (PROTOCOLS protocol))"

definition READY :: "ProtocolId list" where
  "READY = [ProtoRocketMQ, ProtoRabbitMQ, ProtoKafka, ProtoPulsar, ProtoRedis, ProtoMqtt, ProtoNats, ProtoActiveMQ, ProtoNsq,
     ProtoSqs, ProtoGooglePubSub, ProtoAzureServiceBus, ProtoKinesis, ProtoIbmMq, ProtoSolace]"

datatype ProtocolGroupId = SelfHosted | Hosted | Enterprise

definition groupOf :: "ProtocolId \<Rightarrow> ProtocolGroupId" where
  "groupOf protocol = (case protocol of ProtoSqs \<Rightarrow> Hosted | ProtoGooglePubSub \<Rightarrow> Hosted | ProtoAzureServiceBus \<Rightarrow> Hosted
     | ProtoKinesis \<Rightarrow> Hosted | ProtoIbmMq \<Rightarrow> Enterprise | ProtoSolace \<Rightarrow> Enterprise | _ \<Rightarrow> SelfHosted)"

definition PROTOCOL_GROUPS :: "(ProtocolGroupId \<times> string) list" where
  "PROTOCOL_GROUPS = [(SelfHosted, ''page.connections.group.selfHosted''), (Hosted, ''page.connections.group.hosted''),
     (Enterprise, ''page.connections.group.enterprise'')]"

definition protocolsIn :: "ProtocolGroupId \<Rightarrow> ProtocolId list" where
  "protocolsIn grp = filter (\<lambda>protocol. groupOf protocol = grp) PROTOCOL_ORDER"

definition isProtocolReady :: "ProtocolId \<Rightarrow> bool" where
  "isProtocolReady protocol \<longleftrightarrow> protocol \<in> set READY"

text \<open>\<open>protocolOfKind\<close> of \<open>design/data/connections.ts\<close>.\<close>

fun protocolOfKind :: "MQKind \<Rightarrow> ProtocolId option" where
  "protocolOfKind KindRocketMQ = Some ProtoRocketMQ"
| "protocolOfKind KindKafka = Some ProtoKafka"
| "protocolOfKind KindRabbitMQ = Some ProtoRabbitMQ"
| "protocolOfKind KindPulsar = Some ProtoPulsar"
| "protocolOfKind KindRedisStream = Some ProtoRedis"
| "protocolOfKind KindMQTT = Some ProtoMqtt"
| "protocolOfKind KindNATS = Some ProtoNats"
| "protocolOfKind KindActiveMQ = Some ProtoActiveMQ"
| "protocolOfKind KindNSQ = Some ProtoNsq"
| "protocolOfKind KindSQS = Some ProtoSqs"
| "protocolOfKind KindGooglePubSub = Some ProtoGooglePubSub"
| "protocolOfKind KindAzureServiceBus = Some ProtoAzureServiceBus"
| "protocolOfKind KindKinesis = Some ProtoKinesis"
| "protocolOfKind KindIBMMQ = Some ProtoIbmMq"
| "protocolOfKind KindSolace = Some ProtoSolace"
| "protocolOfKind KindZero = None"

text \<open>The page of the sidebar's table (\<open>mq/navigation.ts\<close>) an entry asks about; the overview is in no table.\<close>

fun nav_page :: "PageId \<Rightarrow> page option" where
  "nav_page OnOverview = None"
| "nav_page OnTopics = Some PageTopics"
| "nav_page OnShards = Some PageShards"
| "nav_page OnChannels = Some PageChannels"
| "nav_page OnExchanges = Some PageExchanges"
| "nav_page OnVhosts = Some PageVhosts"
| "nav_page OnPolicies = Some PagePolicies"
| "nav_page OnDefinitions = Some PageDefinitions"
| "nav_page OnReplication = Some PageReplication"
| "nav_page OnQuotas = Some PageQuotas"
| "nav_page OnConsumers = Some PageConsumers"
| "nav_page OnMessages = Some PageMessages"
| "nav_page OnDlq = Some PageDlq"
| "nav_page OnProducer = Some PageProducer"
| "nav_page OnSubscribe = Some PageSubscribe"
| "nav_page OnClients = Some PageClients"
| "nav_page OnCluster = Some PageCluster"
| "nav_page OnAlerts = Some PageAlerts"
| "nav_page OnAcl = Some PageAcl"

section \<open>The registry is sound\<close>

lemma pagesOf_distinct: "distinct (pagesOf protocol)"
  by (cases protocol) (simp_all add: pagesOf_def registry_defs)

lemma overview_listed: "hd (pagesOf protocol) = OnOverview" "OnOverview \<in> set (pagesOf protocol)"
  by (cases protocol; simp add: pagesOf_def registry_defs)+

lemma pages_need_something:
  "page \<in> set (pagesOf protocol) \<Longrightarrow> page \<noteq> OnOverview \<Longrightarrow> \<exists>pg caps. nav_page page = Some pg \<and> requires pg = Some caps \<and> caps \<noteq> []"
  by (cases page) simp_all

lemma label_is:
  "labelOf protocol page = (if page \<in> set (pagesOf protocol)
     then ''shell.nav.'' @ protocol_str protocol @ ''.'' @ page_str page else page_str page)"
  by (cases protocol; cases page; simp add: labelOf_def pagesOf_def registry_defs)

lemma protocols_partitioned: "distinct PROTOCOL_ORDER" "protocol \<in> set PROTOCOL_ORDER" "isProtocolReady protocol"
    "protocol \<in> set (protocolsIn grp) \<longleftrightarrow> groupOf protocol = grp"
  by (cases protocol; simp add: PROTOCOL_ORDER_def isProtocolReady_def READY_def protocolsIn_def)+

lemma protocolOfKind_inj: "protocolOfKind k = Some p \<Longrightarrow> protocolOfKind k' = Some p \<Longrightarrow> k = k'"
  by (cases k; cases k') auto

lemma protocolOfKind_some: "k \<noteq> KindZero \<Longrightarrow> \<exists>p. protocolOfKind k = Some p"
  by (cases k) simp_all

end
