(* ===== verification/Connection_Profiles.thy ===== *)
theory Connection_Profiles
  imports Protocols Connection_Drafts Runs
begin

text \<open>
  The list of connections (\<open>hooks/useConnectionProfiles.ts\<close>) and the row it draws of a stored profile
  (\<open>design/data/connections.ts\<close>). The hook's state is a record; each callback gives the new state and
  the calls it makes. Calls and answers travel on their own, so the hook and the service form a
  step relation in which any call may be served and any answer arrive next. The message of a
  failed call is what \<open>formatErrorMessage\<close> made of it; \<open>performance.now()\<close> is the time an answer carries.
\<close>

section \<open>The row of a profile\<close>

datatype RowStatus = RowOnline | RowOffline | RowFailed

record ConnectionRow =
  sc_key :: jsstr
  sc_id :: int
  sc_name :: jsstr
  sc_protocol :: "ProtocolId option"
  sc_kind :: MQKind
  sc_protocolLabel :: jsstr
  sc_address :: jsstr
  sc_scope :: "jsstr option"
  sc_status :: RowStatus
  sc_latency :: "jsstr option"
  sc_lastUsed :: jsstr
  sc_isDefault :: bool
  sc_remark :: jsstr

text \<open>\<open>replace(/\/+$/, "")\<close>, and what follows the first \<open>://\<close>.\<close>

definition strip_slashes :: "jsstr \<Rightarrow> jsstr" where
  "strip_slashes s = rev (dropWhile (\<lambda>c. c = 47) (rev s))"

fun after_scheme :: "jsstr \<Rightarrow> jsstr option" where
  "after_scheme [] = None"
| "after_scheme (c # s) = (if take 3 (c # s) = u ''://'' then Some (drop 3 (c # s)) else after_scheme s)"

definition under_server :: "jsstr \<Rightarrow> jsstr option \<Rightarrow> jsstr" where
  "under_server endpoints name = (let server = strip_slashes (trim endpoints); part = trim (nullish name []) in
     if server = [] \<or> part = [] then server else server @ u ''/'' @ part)"

definition queueManagerAddress :: "ConnectionView \<Rightarrow> jsstr" where
  "queueManagerAddress profile = under_server (cv_endpoints profile) (option_of profile ''queueManager'')"

definition msgVpnAddress :: "ConnectionView \<Rightarrow> jsstr" where
  "msgVpnAddress profile = under_server (cv_endpoints profile) (option_of profile ''msgVpn'')"

definition namespaceOf :: "jsstr \<Rightarrow> jsstr" where
  "namespaceOf endpoints = (let first = strip_slashes (trim (hd (split_when (\<lambda>c. c \<in> {44, 59, 10}) endpoints))) in
     nullish (after_scheme first) first)"

definition addressOf :: "ConnectionView \<Rightarrow> jsstr" where
  "addressOf profile =
    (if cv_kind profile = KindSQS then nullish (option_of profile ''region'') []
     else if cv_kind profile = KindKinesis then nullish (option_of profile ''region'') []
     else if cv_kind profile = KindGooglePubSub then nullish (option_of profile ''projectId'') []
     else if cv_kind profile = KindAzureServiceBus then namespaceOf (cv_endpoints profile)
     else if cv_kind profile = KindIBMMQ then queueManagerAddress profile
     else if cv_kind profile = KindSolace then msgVpnAddress profile
     else cv_endpoints profile)"

definition scopeOf :: "ConnectionView \<Rightarrow> jsstr option" where
  "scopeOf profile = (let scope = nullish (if cv_kind profile = KindRocketMQ then option_of profile ''namespace''
       else if cv_kind profile = KindSolace then option_of profile ''msgVpn'' else None) [] in
     if scope = [] then None else Some scope)"

definition toShellConnection :: "ConnectionView \<Rightarrow> ConnectionRow" where
  "toShellConnection profile = (let protocol = protocolOfKind (cv_kind profile) in
     \<lparr>sc_key = int_to_str (cv_id profile), sc_id = cv_id profile, sc_name = cv_name profile, sc_protocol = protocol,
      sc_kind = cv_kind profile,
      sc_protocolLabel = (case protocol of Some p \<Rightarrow> u (pr_name (PROTOCOLS p)) | None \<Rightarrow> kind_str (cv_kind profile)),
      sc_address = addressOf profile, sc_scope = scopeOf profile,
      sc_status = (if cv_status profile = StatusOnline then RowOnline else RowOffline), sc_latency = None,
      sc_lastUsed = cv_lastCheck profile, sc_isDefault = cv_isDefault profile, sc_remark = cv_remark profile\<rparr>)"

section \<open>The hook\<close>

datatype ConnectionOp = Connecting | Disconnecting | Testing

text \<open>\<open>toFixed(1)\<close>: the nearest tenth, a tie going up.\<close>

definition to_fixed1 :: "jsnum \<Rightarrow> jsstr" where
  "to_fixed1 x = (case x of
     Fin r \<Rightarrow> if 10 ^ 21 \<le> \<bar>r\<bar> then num_to_str x
       else let n = \<lfloor>\<bar>r\<bar> * 10 + 1 / 2\<rfloor> in
         (if r < 0 then u ''-'' else []) @ int_to_str (n div 10) @ u ''.'' @ int_to_str (n mod 10)
   | _ \<Rightarrow> num_to_str x)"

definition latencyLabel :: "jsnum \<Rightarrow> jsstr" where
  "latencyLabel milliseconds = (if milliseconds < Fin 1000 then num_to_str (num_round milliseconds) @ u ''ms''
     else to_fixed1 (num_div milliseconds (Fin 1000)) @ u ''s'')"

record profiles_hook =
  hp_profiles :: "ConnectionView list"
  hp_loading :: bool
  hp_loadFailed :: bool
  hp_pending :: "int \<Rightarrow> ConnectionOp option"
  hp_errors :: "int \<Rightarrow> jsstr option"
  hp_latency :: "int \<Rightarrow> jsstr option"

definition setOp :: "int \<Rightarrow> ConnectionOp option \<Rightarrow> profiles_hook \<Rightarrow> profiles_hook" where
  "setOp i op h = h\<lparr>hp_pending := (hp_pending h)(i := op)\<rparr>"

definition setError :: "int \<Rightarrow> jsstr option \<Rightarrow> profiles_hook \<Rightarrow> profiles_hook" where
  "setError i message h = h\<lparr>hp_errors := (hp_errors h)(i := message)\<rparr>"

definition forget_latency :: "int option \<Rightarrow> profiles_hook \<Rightarrow> profiles_hook" where
  "forget_latency who h = (case who of None \<Rightarrow> h | Some i \<Rightarrow> h\<lparr>hp_latency := (hp_latency h)(i := None)\<rparr>)"

text \<open>
  The calls: the list at mount; a list afterwards, with the connection whose round trip is then
  forgotten; a dial; a change. Each answer repeats its call: \<open>None\<close> is a list that could not be
  read, \<open>Inl\<close> a failed dial, \<open>Inr\<close> the time a good one took.
\<close>

datatype mutation = Remove int | MakeDefault int | Create | Update int

datatype profile_call = FirstList | ListCall "int option" | DialCall int ConnectionOp | MutateCall mutation

datatype profile_answer =
    FirstListed "ConnectionView list option"
  | Listed "int option" "ConnectionView list option"
  | Dialed int ConnectionOp "jsstr + jsnum"
  | Mutated mutation bool

definition mounted_hook :: profiles_hook where
  "mounted_hook = \<lparr>hp_profiles = [], hp_loading = True, hp_loadFailed = False, hp_pending = Map.empty, hp_errors = Map.empty,
     hp_latency = Map.empty\<rparr>"

definition load_list :: "ConnectionView list \<Rightarrow> profiles_hook \<Rightarrow> profiles_hook" where
  "load_list xs h = h\<lparr>hp_profiles := xs, hp_loadFailed := False\<rparr>"

definition first_listed :: "ConnectionView list option \<Rightarrow> profiles_hook \<Rightarrow> profiles_hook" where
  "first_listed reply h = (case reply of Some loaded \<Rightarrow> h\<lparr>hp_profiles := loaded\<rparr> | None \<Rightarrow> h\<lparr>hp_loadFailed := True\<rparr>)
     \<lparr>hp_loading := False\<rparr>"

definition dial :: "int \<Rightarrow> ConnectionOp \<Rightarrow> profiles_hook \<Rightarrow> profiles_hook \<times> profile_call list" where
  "dial i op h = (setOp i (Some op) h, [DialCall i op])"

definition dialed :: "int \<Rightarrow> ConnectionOp \<Rightarrow> jsstr + jsnum \<Rightarrow> profiles_hook \<Rightarrow> profiles_hook \<times> profile_call list" where
  "dialed i op result h =
    (setOp i None (case result of
         Inr latencyMs \<Rightarrow> (let h = setError i None h in h\<lparr>hp_latency := (hp_latency h)(i \<mapsto> latencyLabel latencyMs)\<rparr>)
       | Inl message \<Rightarrow> setError i (Some message) h),
     [ListCall (if op = Disconnecting then Some i else None)])"

definition mutated :: "mutation \<Rightarrow> profiles_hook \<Rightarrow> profiles_hook \<times> profile_call list" where
  "mutated m h = (case m of Remove i \<Rightarrow> setError i None h | Update i \<Rightarrow> setError i None h | _ \<Rightarrow> h, [ListCall None])"

text \<open>What an answer does: a change that failed throws to its caller and leaves the hook alone.\<close>

fun hook_reply :: "profile_answer \<Rightarrow> profiles_hook \<Rightarrow> profiles_hook \<times> profile_call list" where
  "hook_reply (FirstListed reply) h = (first_listed reply h, [])"
| "hook_reply (Listed who reply) h = (forget_latency who (case reply of Some xs \<Rightarrow> load_list xs h | None \<Rightarrow> h), [])"
| "hook_reply (Dialed i op result) h = dialed i op result h"
| "hook_reply (Mutated m done) h = (if done then mutated m h else (h, []))"

text \<open>What the user asks: \<open>connect\<close>, \<open>disconnect\<close>, \<open>test\<close> and \<open>switchScope\<close> dial; the others change or reload.\<close>

datatype profile_ask = AskDial int ConnectionOp | AskMutate mutation | AskReload

fun hook_ask :: "profile_ask \<Rightarrow> profiles_hook \<Rightarrow> profiles_hook \<times> profile_call list" where
  "hook_ask (AskDial i op) h = dial i op h"
| "hook_ask (AskMutate m) h = (h, [MutateCall m])"
| "hook_ask AskReload h = (h, [ListCall None])"

text \<open>The rows: a profile that is not online but could not be reached in this session has failed.\<close>

definition shell_row :: "profiles_hook \<Rightarrow> ConnectionView \<Rightarrow> ConnectionRow" where
  "shell_row h profile = (let shell = toShellConnection profile in
     if sc_status shell = RowOnline then shell\<lparr>sc_latency := hp_latency h (cv_id profile)\<rparr>
     else if hp_errors h (cv_id profile) \<noteq> None then shell\<lparr>sc_status := RowFailed\<rparr> else shell)"

definition connections :: "profiles_hook \<Rightarrow> ConnectionRow list" where
  "connections h = map (shell_row h) (hp_profiles h)"

section \<open>The hook and the service\<close>

record profiles_sys =
  ps_hook :: profiles_hook
  ps_service :: "ConnectionView list"
  ps_calls :: "profile_call list"
  ps_answers :: "profile_answer list"

definition mounted_sys :: "ConnectionView list \<Rightarrow> profiles_sys" where
  "mounted_sys service = \<lparr>ps_hook = mounted_hook, ps_service = service, ps_calls = [FirstList], ps_answers = []\<rparr>"

definition without :: "nat \<Rightarrow> 'a list \<Rightarrow> 'a list" where
  "without i xs = take i xs @ drop (Suc i) xs"

text \<open>What the service may answer, and what it holds afterwards: a list is what it holds, or an error.\<close>

fun answers_call :: "profile_call \<Rightarrow> ConnectionView list \<Rightarrow> ConnectionView list \<Rightarrow> profile_answer \<Rightarrow> bool" where
  "answers_call FirstList held held' ans \<longleftrightarrow> held' = held \<and> ans \<in> {FirstListed (Some held), FirstListed None}"
| "answers_call (ListCall who) held held' ans \<longleftrightarrow> held' = held \<and> ans \<in> {Listed who (Some held), Listed who None}"
| "answers_call (DialCall i op) held held' ans \<longleftrightarrow> (\<exists>result. ans = Dialed i op result)"
| "answers_call (MutateCall m) held held' ans \<longleftrightarrow> (\<exists>done. ans = Mutated m done)"

datatype profile_action = Ask profile_ask | Serve nat "ConnectionView list" profile_answer | Deliver nat

inductive profiles_step :: "profile_action \<Rightarrow> profiles_sys \<Rightarrow> profiles_sys \<Rightarrow> bool" where
  ask: "hook_ask q (ps_hook s) = (h, calls) \<Longrightarrow>
     profiles_step (Ask q) s (s\<lparr>ps_hook := h, ps_calls := ps_calls s @ calls\<rparr>)"
| serve: "i < length (ps_calls s) \<Longrightarrow> answers_call (ps_calls s ! i) (ps_service s) held ans \<Longrightarrow>
     profiles_step (Serve i held ans) s
       (s\<lparr>ps_service := held, ps_calls := without i (ps_calls s), ps_answers := ps_answers s @ [ans]\<rparr>)"
| deliver: "j < length (ps_answers s) \<Longrightarrow> hook_reply (ps_answers s ! j) (ps_hook s) = (h, calls) \<Longrightarrow>
     profiles_step (Deliver j) s (s\<lparr>ps_hook := h, ps_calls := ps_calls s @ calls, ps_answers := without j (ps_answers s)\<rparr>)"

inductive_cases profiles_stepE: "profiles_step a s s'"

text \<open>
  An orderly run: a row that is busy is not dialled again, which the buttons see to; the list can
  be read and its answers arrive in the order they were given; a change that fails changes nothing.
\<close>

fun is_list :: "profile_answer \<Rightarrow> bool" where
  "is_list (FirstListed _) \<longleftrightarrow> True"
| "is_list (Listed _ _) \<longleftrightarrow> True"
| "is_list _ \<longleftrightarrow> False"

definition idle_dials :: "profile_action \<Rightarrow> profiles_sys \<Rightarrow> bool" where
  "idle_dials a s \<longleftrightarrow> (case a of Ask (AskDial i op) \<Rightarrow> hp_pending (ps_hook s) i = None | _ \<Rightarrow> True)"

definition lists_in_order :: "profile_action \<Rightarrow> profiles_sys \<Rightarrow> bool" where
  "lists_in_order a s \<longleftrightarrow> (case a of
     Deliver j \<Rightarrow> is_list (ps_answers s ! j) \<longrightarrow> list_all (\<lambda>ans. \<not> is_list ans) (take j (ps_answers s))
   | Serve i held ans \<Rightarrow> ans \<noteq> FirstListed None \<and> (\<forall>who. ans \<noteq> Listed who None)
       \<and> ((\<exists>m. ans = Mutated m False) \<longrightarrow> held = ps_service s)
   | Ask _ \<Rightarrow> True)"

definition orderly_profiles :: "profile_action \<Rightarrow> profiles_sys \<Rightarrow> bool" where
  "orderly_profiles a s \<longleftrightarrow> idle_dials a s \<and> lists_in_order a s"

section \<open>A row is busy exactly while its dial is under way\<close>

definition dial_at :: "int \<Rightarrow> profile_call \<Rightarrow> ConnectionOp multiset" where
  "dial_at i c = (case c of DialCall j op \<Rightarrow> if j = i then {#op#} else {#} | _ \<Rightarrow> {#})"

definition dialed_at :: "int \<Rightarrow> profile_answer \<Rightarrow> ConnectionOp multiset" where
  "dialed_at i ans = (case ans of Dialed j op _ \<Rightarrow> if j = i then {#op#} else {#} | _ \<Rightarrow> {#})"

definition dials_of :: "int \<Rightarrow> profiles_sys \<Rightarrow> ConnectionOp multiset" where
  "dials_of i s = (\<Sum>c\<in>#mset (ps_calls s). dial_at i c) + (\<Sum>ans\<in>#mset (ps_answers s). dialed_at i ans)"

definition busy_rows :: "profiles_sys \<Rightarrow> bool" where
  "busy_rows s \<longleftrightarrow> (\<forall>i. dials_of i s = (case hp_pending (ps_hook s) i of None \<Rightarrow> {#} | Some op \<Rightarrow> {#op#}))"

lemma mset_without: "i < length xs \<Longrightarrow> mset xs = add_mset (xs ! i) (mset (without i xs))"
  using id_take_nth_drop [of i xs] by (metis mset.simps(2) mset_append union_mset_add_mset_right without_def)

lemma in_without: "x \<in> set xs \<Longrightarrow> x \<noteq> xs ! i \<Longrightarrow> i < length xs \<Longrightarrow> x \<in> set (without i xs)"
  using mset_without [of i xs] by (metis insert_iff set_mset_add_mset_insert set_mset_mset)

lemma without_sub: "x \<in> set (without i xs) \<Longrightarrow> x \<in> set xs"
  by (auto simp: without_def dest: in_set_takeD in_set_dropD)

lemma filter_without:
  assumes "j < length xs"
  shows "\<not> P (xs ! j) \<Longrightarrow> filter P (without j xs) = filter P xs"
    "P (xs ! j) \<Longrightarrow> list_all (\<lambda>x. \<not> P x) (take j xs) \<Longrightarrow> filter P xs = xs ! j # filter P (without j xs)"
proof -
  have f: "filter P xs = filter P (take j xs) @ filter P [xs ! j] @ filter P (drop (Suc j) xs)"
    using id_take_nth_drop [OF assms] by (metis append_Cons append_Nil filter_append)
  show "\<not> P (xs ! j) \<Longrightarrow> filter P (without j xs) = filter P xs" by (simp add: f without_def)
  assume "P (xs ! j)" and n: "list_all (\<lambda>x. \<not> P x) (take j xs)"
  moreover have "filter P (take j xs) = []" using n by (simp add: list_all_iff filter_empty_conv)
  ultimately show "filter P xs = xs ! j # filter P (without j xs)" by (simp add: f without_def)
qed

lemma hook_reply_pending:
  "hook_reply ans h = (h', calls) \<Longrightarrow>
     hp_pending h' = (case ans of Dialed i _ _ \<Rightarrow> (hp_pending h)(i := None) | _ \<Rightarrow> hp_pending h)
     \<and> (\<forall>i. (\<Sum>c\<in>#mset calls. dial_at i c) = {#})"
  by (cases ans) (auto simp: first_listed_def dialed_def mutated_def setOp_def setError_def forget_latency_def load_list_def
    dial_at_def Let_def split: option.splits sum.splits if_splits mutation.splits)

lemma answer_keeps_dial: "answers_call c held held' ans \<Longrightarrow> dialed_at i ans = dial_at i c"
  by (cases c) (auto simp: dial_at_def dialed_at_def)

lemma busy_rows_kept:
  assumes "profiles_step a s s'" and "idle_dials a s" and "busy_rows s"
  shows "busy_rows s'"
  using assms(1)
proof (cases rule: profiles_step.cases)
  case (ask q h calls)
  then show ?thesis
    using assms(2,3) by (cases q) (auto simp: busy_rows_def dials_of_def idle_dials_def dial_def setOp_def dial_at_def)
next
  case (serve i held ans)
  have "dials_of k s' = dials_of k s" for k
    using mset_without [OF serve(3)] answer_keeps_dial [OF serve(4), of k] by (simp add: serve(2) dials_of_def)
  then show ?thesis using assms(3) by (simp add: busy_rows_def serve(2))
next
  case (deliver j h calls)
  note r = hook_reply_pending [OF deliver(4)]
  have d: "dials_of k s = dialed_at k (ps_answers s ! j) + dials_of k s'" for k
    using mset_without [OF deliver(3)] r by (simp add: deliver(2) dials_of_def)
  show ?thesis
    unfolding busy_rows_def
  proof
    fix k
    have b: "dialed_at k (ps_answers s ! j) + dials_of k s' = (case hp_pending (ps_hook s) k of None \<Rightarrow> {#} | Some op \<Rightarrow> {#op#})"
      using assms(3) d [of k] by (simp add: busy_rows_def)
    show "dials_of k s' = (case hp_pending (ps_hook s') k of None \<Rightarrow> {#} | Some op \<Rightarrow> {#op#})"
      using b r by (cases "ps_answers s ! j") (auto simp: deliver(2) dialed_at_def split: option.splits if_splits)
  qed
qed

section \<open>When nothing is under way the list is the service's\<close>

fun listed :: "profile_answer \<Rightarrow> ConnectionView list option" where
  "listed (FirstListed reply) = reply"
| "listed (Listed _ reply) = reply"
| "listed _ = None"

fun asks_list :: "profile_call \<Rightarrow> bool" where
  "asks_list FirstList \<longleftrightarrow> True"
| "asks_list (ListCall _) \<longleftrightarrow> True"
| "asks_list _ \<longleftrightarrow> False"

fun reloads :: "profile_answer \<Rightarrow> bool" where
  "reloads (Dialed _ _ _) \<longleftrightarrow> True"
| "reloads (Mutated _ done) \<longleftrightarrow> done"
| "reloads _ \<longleftrightarrow> False"

definition up_to_date :: "profiles_sys \<Rightarrow> bool" where
  "up_to_date s \<longleftrightarrow> list_ex asks_list (ps_calls s) \<or> list_ex reloads (ps_answers s)
     \<or> (if filter is_list (ps_answers s) = [] then hp_profiles (ps_hook s) = ps_service s
         else listed (last (filter is_list (ps_answers s))) = Some (ps_service s))"

definition lists_read :: "profiles_sys \<Rightarrow> bool" where
  "lists_read s \<longleftrightarrow> \<not> hp_loadFailed (ps_hook s) \<and> (\<forall>ans \<in> set (ps_answers s). is_list ans \<longrightarrow> listed ans \<noteq> None)"

definition first_read :: "profiles_sys \<Rightarrow> bool" where
  "first_read s \<longleftrightarrow> (hp_loading (ps_hook s) \<longrightarrow> FirstList \<in> set (ps_calls s) \<or> (\<exists>reply. FirstListed reply \<in> set (ps_answers s)))"

lemma served:
  assumes "answers_call c held held' ans" and "lists_in_order (Serve i held' ans) s" and "held = ps_service s"
  shows "asks_list c \<Longrightarrow> is_list ans \<and> listed ans = Some held' \<and> held' = held"
    "\<not> asks_list c \<Longrightarrow> \<not> is_list ans \<and> (reloads ans \<or> held' = held)"
  using assms by (cases c; auto simp: lists_in_order_def)+

lemmas reply_defs = first_listed_def dialed_def mutated_def forget_latency_def load_list_def setOp_def setError_def Let_def

lemma hook_reply_reloads: "hook_reply ans h = (h', calls) \<Longrightarrow> reloads ans \<Longrightarrow> list_ex asks_list calls"
  by (cases ans) (auto simp: dialed_def mutated_def)

lemma hook_reply_profiles:
  "hook_reply ans h = (h', calls) \<Longrightarrow> hp_profiles h' = nullish (listed ans) (hp_profiles h) \<and> (is_list ans \<longrightarrow> calls = [])"
  by (cases ans) (auto simp: reply_defs split: option.split sum.split mutation.split if_splits)

lemma hook_reply_failed:
  "hook_reply ans h = (h', calls) \<Longrightarrow> hp_loadFailed h' \<Longrightarrow> hp_loadFailed h \<or> is_list ans \<and> listed ans = None"
  by (cases ans) (auto simp: reply_defs split: option.splits sum.splits mutation.splits if_splits)

lemma hook_reply_loading:
  "hook_reply ans h = (h', calls) \<Longrightarrow> hp_loading h' \<Longrightarrow> hp_loading h \<and> (\<forall>reply. ans \<noteq> FirstListed reply)"
  by (cases ans) (auto simp: reply_defs split: option.splits sum.splits mutation.splits if_splits)

lemma not_listed: "\<not> is_list ans \<Longrightarrow> listed ans = None"
  by (cases ans) simp_all

lemma hook_ask_keeps:
  "hook_ask q h = (h', calls) \<Longrightarrow> hp_profiles h' = hp_profiles h \<and> hp_loadFailed h' = hp_loadFailed h \<and> hp_loading h' = hp_loading h"
  by (cases q) (auto simp: dial_def setOp_def)

lemma up_to_date_kept:
  assumes "profiles_step a s s'" and "lists_in_order a s" and "lists_read s" and "up_to_date s"
  shows "up_to_date s'"
  using assms(1)
proof (cases rule: profiles_step.cases)
  case (ask q h calls)
  then show ?thesis using assms(4) hook_ask_keeps [OF ask(3)] by (auto simp: up_to_date_def)
next
  case (serve i held ans)
  note sv = served [OF serve(4) assms(2) [unfolded serve(1)] refl]
  show ?thesis
  proof (cases "asks_list (ps_calls s ! i)")
    case True
    then show ?thesis using sv(1) by (simp add: up_to_date_def serve(2))
  next
    case False
    have "list_ex asks_list (without i (ps_calls s))" if "list_ex asks_list (ps_calls s)"
      using that False in_without [OF _ _ serve(3)] by (auto simp: list_ex_iff)
    then show ?thesis using sv(2) [OF False] assms(4) by (auto simp: up_to_date_def serve(2))
  qed
next
  case (deliver j h calls)
  let ?ans = "ps_answers s ! j"
  have keep: "list_ex reloads (without j (ps_answers s))" if "list_ex reloads (ps_answers s)" "\<not> reloads ?ans"
    using that in_without [OF _ _ deliver(3)] by (auto simp: list_ex_iff)
  show ?thesis
  proof (cases "is_list ?ans")
    case True
    then obtain xs where xs: "listed ?ans = Some xs"
      using assms(3) nth_mem [OF deliver(3)] by (auto simp: lists_read_def)
    have nr: "\<not> reloads ?ans" using True by (cases ?ans) auto
    have f: "filter is_list (ps_answers s) = ?ans # filter is_list (without j (ps_answers s))"
      using filter_without(2) [OF deliver(3), of is_list] True assms(2) by (simp add: lists_in_order_def deliver(1))
    show ?thesis
      using assms(4) keep nr hook_reply_profiles [OF deliver(4)] xs True
      by (auto simp: up_to_date_def deliver(2) f split: if_splits)
  next
    case False
    show ?thesis
      using assms(4) keep False filter_without(1) [OF deliver(3), of is_list] hook_reply_reloads [OF deliver(4)] hook_reply_profiles [OF deliver(4)] not_listed [OF False]
      by (auto simp: up_to_date_def deliver(2) split: if_splits)
  qed
qed

lemma lists_read_kept:
  assumes "profiles_step a s s'" and "lists_in_order a s" and "lists_read s"
  shows "lists_read s'"
  using assms(1)
proof (cases rule: profiles_step.cases)
  case (ask q h calls)
  then show ?thesis using assms(3) hook_ask_keeps [OF ask(3)] by (auto simp: lists_read_def)
next
  case (serve i held ans)
  note sv = served [OF serve(4) assms(2) [unfolded serve(1)] refl]
  show ?thesis using sv assms(3) by (cases "asks_list (ps_calls s ! i)") (auto simp: lists_read_def serve(2))
next
  case (deliver j h calls)
  then show ?thesis
    using assms(3) hook_reply_failed [OF deliver(4)] nth_mem [OF deliver(3)] without_sub [of _ j "ps_answers s"]
    by (auto simp: lists_read_def)
qed

lemma first_read_kept:
  assumes "profiles_step a s s'" and "first_read s"
  shows "first_read s'"
  using assms(1)
proof (cases rule: profiles_step.cases)
  case (ask q h calls)
  then show ?thesis using assms(2) hook_ask_keeps [OF ask(3)] by (auto simp: first_read_def)
next
  case (serve i held ans)
  have "FirstList \<in> set (without i (ps_calls s)) \<or> (\<exists>reply. ans = FirstListed reply)" if "FirstList \<in> set (ps_calls s)"
    using that in_without [OF that _ serve(3)] serve(4) by (cases "ps_calls s ! i") auto
  then show ?thesis using assms(2) by (auto simp: first_read_def serve(2))
next
  case (deliver j h calls)
  then show ?thesis
    using assms(2) hook_reply_loading [OF deliver(4)] in_without [OF _ _ deliver(3)]
    by (auto simp: first_read_def) metis
qed

lemma orderly_profiles_invariant:
  assumes "run profiles_step orderly_profiles (mounted_sys service) s"
  shows "busy_rows s \<and> up_to_date s \<and> lists_read s \<and> first_read s"
  using assms
proof (rule run_invariant)
  show "busy_rows (mounted_sys service) \<and> up_to_date (mounted_sys service) \<and> lists_read (mounted_sys service) \<and> first_read (mounted_sys service)"
    by (simp add: busy_rows_def up_to_date_def lists_read_def first_read_def mounted_sys_def mounted_hook_def dials_of_def dial_at_def)
qed (auto simp: orderly_profiles_def intro: busy_rows_kept up_to_date_kept lists_read_kept first_read_kept)

text \<open>A dial is under way from the click until its answer is delivered.\<close>

definition dialling :: "int \<Rightarrow> ConnectionOp \<Rightarrow> profiles_sys \<Rightarrow> bool" where
  "dialling i op s \<longleftrightarrow> DialCall i op \<in> set (ps_calls s) \<or> (\<exists>result. Dialed i op result \<in> set (ps_answers s))"

lemma dialling_iff: "dialling i op s \<longleftrightarrow> op \<in># dials_of i s"
proof -
  have "op \<in># dial_at i c \<longleftrightarrow> c = DialCall i op" for c by (auto simp: dial_at_def split: profile_call.splits)
  moreover have "op \<in># dialed_at i ans \<longleftrightarrow> (\<exists>result. ans = Dialed i op result)" for ans
    by (auto simp: dialed_at_def split: profile_answer.splits)
  ultimately show ?thesis by (auto simp: dialling_def dials_of_def in_Union_mset_iff)
qed

text \<open>
  C11: On an orderly run - no row is dialled while it is busy, every list can be read and the answered
  lists arrive in the order they were given, and a change that fails changes nothing - a row is marked busy
  with an operation exactly while that connect, disconnect or test is under way; and once every call
  has been answered no row is busy, the list is what the service holds, and it is neither loading nor
  failed, whatever was asked and in whatever order calls were served and dials answered. (With lists that
  cross, the list may stay behind: \<open>crossed_lists_stay_behind\<close>.)
\<close>

theorem settled_list_is_current:
  assumes "run profiles_step orderly_profiles (mounted_sys service) s"
  shows "(\<forall>i op. hp_pending (ps_hook s) i = Some op \<longleftrightarrow> dialling i op s)
    \<and> (ps_calls s = [] \<and> ps_answers s = [] \<longrightarrow>
        connections (ps_hook s) = map (shell_row (ps_hook s)) (ps_service s) \<and> hp_pending (ps_hook s) = Map.empty
        \<and> \<not> hp_loading (ps_hook s) \<and> \<not> hp_loadFailed (ps_hook s))"
proof -
  note i = orderly_profiles_invariant [OF assms]
  have busy: "hp_pending (ps_hook s) i = Some op \<longleftrightarrow> dialling i op s" for i op
    using i unfolding dialling_iff by (auto simp: busy_rows_def split: option.splits)
  moreover have "hp_pending (ps_hook s) k = None" if "ps_calls s = [] \<and> ps_answers s = []" for k
    using busy [of k] that by (cases "hp_pending (ps_hook s) k") (auto simp: dialling_def)
  ultimately show ?thesis
    using i by (auto simp: up_to_date_def lists_read_def first_read_def connections_def)
qed

text \<open>Runs that are played out, for concrete inputs.\<close>

fun act :: "profile_action \<Rightarrow> profiles_sys \<Rightarrow> profiles_sys" where
  "act (Ask q) s = s\<lparr>ps_hook := fst (hook_ask q (ps_hook s)), ps_calls := ps_calls s @ snd (hook_ask q (ps_hook s))\<rparr>"
| "act (Serve i held ans) s = s\<lparr>ps_service := held, ps_calls := without i (ps_calls s), ps_answers := ps_answers s @ [ans]\<rparr>"
| "act (Deliver j) s = (let r = hook_reply (ps_answers s ! j) (ps_hook s) in
     s\<lparr>ps_hook := fst r, ps_calls := ps_calls s @ snd r, ps_answers := without j (ps_answers s)\<rparr>)"

fun can_act :: "profile_action \<Rightarrow> profiles_sys \<Rightarrow> bool" where
  "can_act (Ask q) s \<longleftrightarrow> True"
| "can_act (Serve i held ans) s \<longleftrightarrow> i < length (ps_calls s) \<and> answers_call (ps_calls s ! i) (ps_service s) held ans"
| "can_act (Deliver j) s \<longleftrightarrow> j < length (ps_answers s)"

lemma act_step: "can_act a s \<Longrightarrow> profiles_step a s (act a s)"
  by (cases a) (auto simp: Let_def intro: profiles_step.intros)

fun playable :: "(profile_action \<Rightarrow> profiles_sys \<Rightarrow> bool) \<Rightarrow> profile_action list \<Rightarrow> profiles_sys \<Rightarrow> bool" where
  "playable ok [] s \<longleftrightarrow> True"
| "playable ok (a # as) s \<longleftrightarrow> can_act a s \<and> ok a s \<and> playable ok as (act a s)"

lemma played_run: "playable ok as s \<Longrightarrow> run profiles_step ok s (fold act as s)"
proof (induction as arbitrary: s)
  case (Cons a as)
  have "run profiles_step ok s (act a s)"
    using Cons.prems act_step by (auto intro: run_step [OF run_refl])
  then show ?case using Cons run_trans by fastforce
qed (simp add: run_refl)

definition sample_row_profile :: "ConnectionStatus \<Rightarrow> ConnectionView" where
  "sample_row_profile status = \<lparr>cv_id = 7, cv_name = u ''orders'', cv_group = [], cv_kind = KindAzureServiceBus,
     cv_endpoints = u ''sb://orders.servicebus.windows.net/'', cv_timeoutSec = Fin 5, cv_authMechanism = AuthNone,
     cv_options = None, cv_secretsConfigured = [], cv_status = status, cv_lastCheck = [], cv_isDefault = False, cv_remark = []\<rparr>"

definition dial_run :: "profile_action list" where
  "dial_run = (let off = [sample_row_profile StatusOffline]; on = [sample_row_profile StatusOnline] in
     [Serve 0 off (FirstListed (Some off)), Deliver 0, Ask (AskDial 7 Connecting), Serve 0 on (Dialed 7 Connecting (Inr (Fin 12))),
      Deliver 0, Serve 0 on (Listed None (Some on)), Deliver 0])"

lemmas play_simps = dial_run_def mounted_sys_def mounted_hook_def orderly_profiles_def idle_dials_def lists_in_order_def without_def
  dial_def setOp_def dialed_def setError_def first_listed_def load_list_def forget_latency_def Let_def

theorem settled_list_is_current_witness:
  "map sc_status (connections (ps_hook (fold act dial_run (mounted_sys [sample_row_profile StatusOffline])))) = [RowOnline]"
proof -
  let ?s = "fold act dial_run (mounted_sys [sample_row_profile StatusOffline])"
  have "run profiles_step orderly_profiles (mounted_sys [sample_row_profile StatusOffline]) ?s"
    by (rule played_run) (simp add: play_simps)
  moreover have "ps_calls ?s = []" "ps_answers ?s = []" "ps_service ?s = [sample_row_profile StatusOnline]"
    by (simp_all add: play_simps)
  ultimately show ?thesis
    using settled_list_is_current [of "[sample_row_profile StatusOffline]" ?s]
    by (simp add: shell_row_def toShellConnection_def sample_row_profile_def Let_def)
qed

text \<open>
  Without the order: a reload asked before a connection is made may be answered after the
  connection's own, and the row then stays offline although the service holds it open.
\<close>

definition crossed_run :: "profile_action list" where
  "crossed_run = (let off = [sample_row_profile StatusOffline]; on = [sample_row_profile StatusOnline] in
     [Serve 0 off (FirstListed (Some off)), Deliver 0, Ask AskReload, Ask (AskDial 7 Connecting), Serve 0 off (Listed None (Some off)),
      Serve 0 on (Dialed 7 Connecting (Inr (Fin 12))), Deliver 1, Serve 0 on (Listed None (Some on)), Deliver 1, Deliver 0])"

lemma crossed_lists_stay_behind:
  "run profiles_step idle_dials (mounted_sys [sample_row_profile StatusOffline]) (fold act crossed_run (mounted_sys [sample_row_profile StatusOffline]))"
  "ps_calls (fold act crossed_run (mounted_sys [sample_row_profile StatusOffline])) = []"
  "ps_answers (fold act crossed_run (mounted_sys [sample_row_profile StatusOffline])) = []"
  "hp_profiles (ps_hook (fold act crossed_run (mounted_sys [sample_row_profile StatusOffline]))) = [sample_row_profile StatusOffline]"
  "ps_service (fold act crossed_run (mounted_sys [sample_row_profile StatusOffline])) = [sample_row_profile StatusOnline]"
  by (rule played_run; simp add: play_simps crossed_run_def) (simp_all add: play_simps crossed_run_def)

section \<open>Rows\<close>

text \<open>A row has failed exactly when the stored status is not online and the last dial failed.\<close>

lemma failed_row_iff:
  "sc_status (shell_row h profile) = RowFailed \<longleftrightarrow> cv_status profile \<noteq> StatusOnline \<and> hp_errors h (cv_id profile) \<noteq> None"
  by (simp add: shell_row_def toShellConnection_def Let_def)

text \<open>The spellings of a Service Bus namespace give one row.\<close>

lemma after_scheme_plain: "list_all (\<lambda>c. c \<noteq> 47) s \<Longrightarrow> after_scheme s = None"
proof (induction s)
  case (Cons c s)
  have "47 \<notin> set (take 3 (c # s))" using Cons.prems in_set_takeD [of 47 3 "c # s"] by (auto simp: list_all_iff)
  then have "take 3 (c # s) \<noteq> u ''://''" by (auto simp: u_def)
  then show ?case using Cons by simp
qed simp

lemma strip_slashes_end: "s \<noteq> [] \<Longrightarrow> last s \<noteq> 47 \<Longrightarrow> strip_slashes s = s \<and> strip_slashes (s @ [47]) = s"
  by (cases s rule: rev_cases) (simp_all add: strip_slashes_def)

lemma namespace_first:
  assumes "s \<noteq> []" and "list_all (\<lambda>c. \<not> is_ws c \<and> c \<notin> {44, 59, 10}) s" and "last s \<noteq> 47"
  shows "namespaceOf s = nullish (after_scheme s) s" "namespaceOf (s @ [47]) = nullish (after_scheme s) s"
proof -
  have w: "split_when (\<lambda>c. c \<in> {44, 59, 10}) x = [x]" if "list_all (\<lambda>c. c \<notin> {44, 59, 10}) x" for x :: jsstr
    using that by (intro split_when_word) (simp add: list_all_iff)
  have t: "trim x = x" if "list_all (\<lambda>c. \<not> is_ws c) x" for x
    using that by (intro trim_idle) (cases "x = []"; simp add: list_all_iff)
  have l: "list_all (\<lambda>c. c \<notin> {44, 59, 10}) s" "list_all (\<lambda>c. \<not> is_ws c) s" using assms(2) by (simp_all add: list_all_iff)
  have n: "\<not> is_ws 47" by (simp add: is_ws_def)
  show "namespaceOf s = nullish (after_scheme s) s" "namespaceOf (s @ [47]) = nullish (after_scheme s) s"
    using w [of s] w [of "s @ [47]"] t [of s] t [of "s @ [47]"] l n strip_slashes_end [OF assms(1,3)]
    by (simp_all add: namespaceOf_def Let_def)
qed

lemma namespace_spellings:
  assumes "host \<noteq> []" and "list_all (\<lambda>c. c \<noteq> 47 \<and> \<not> is_ws c \<and> c \<notin> {44, 59, 10}) host"
  shows "namespaceOf host = host" "namespaceOf (host @ u ''/'') = host" "namespaceOf (u ''sb://'' @ host @ u ''/'') = host"
proof -
  have l: "last host \<noteq> 47" using assms by (simp add: list_all_iff)
  have sch: "list_all (\<lambda>c. \<not> is_ws c \<and> c \<notin> {44, 59, 10}) (u ''sb://'')" by (simp add: u_def is_ws_def)
  have all: "list_all (\<lambda>c. \<not> is_ws c \<and> c \<notin> {44, 59, 10}) host" using assms(2) by (simp add: list_all_iff)
  have after: "after_scheme (u ''sb://'' @ host) = Some host" by (simp add: u_def)
  have slash: "u ''/'' = [47]" by (simp add: u_def)
  have none: "after_scheme host = None" using assms(2) by (intro after_scheme_plain) (simp add: list_all_iff)
  show "namespaceOf host = host" "namespaceOf (host @ u ''/'') = host"
    using namespace_first [OF assms(1) all l] none by (simp_all add: slash)
  have "namespaceOf ((u ''sb://'' @ host) @ [47]) = host"
    using namespace_first(2) [of "u ''sb://'' @ host"] assms(1) sch all l after by (simp add: last_append)
  then show "namespaceOf (u ''sb://'' @ host @ u ''/'') = host" by (simp add: slash)
qed

end
