(* ===== verification/Shell_Tabs.thy ===== *)
theory Shell_Tabs
  imports Connection_Profiles
begin

text \<open>
  The tabs of the shell (\<open>design/DesignApp.tsx\<close>) and the session that outlives the window
  (\<open>design/data/session.ts\<close>). A page is the text the session or the tray names it with; \<open>'f\<close> is the
  focus a jump carries. After each action the two effects run until nothing changes: \<open>commit\<close>.
\<close>

section \<open>The stored session\<close>

record ShellSession =
  ss_openTabs :: "jsstr list"
  ss_activeTab :: "jsstr option"
  ss_pageByTab :: "(jsstr \<times> jsstr) list"
  ss_navCollapsed :: bool

record StoredSession =
  so_openTabs :: "jsstr list option"
  so_activeTab :: "jsstr option"
  so_pageByTab :: "(jsstr \<times> jsstr) list option"
  so_navCollapsed :: "bool option"

definition no_session :: StoredSession where
  "no_session = \<lparr>so_openTabs = None, so_activeTab = None, so_pageByTab = None, so_navCollapsed = None\<rparr>"

fun text_of :: "json \<Rightarrow> jsstr option" where
  "text_of (JStr s) = Some s"
| "text_of _ = None"

text \<open>\<open>Object.entries\<close> of an object or an array, the entries that are strings.\<close>

definition text_entries :: "(jsstr \<times> json) list \<Rightarrow> (jsstr \<times> jsstr) list" where
  "text_entries es = from_entries (concat (map (\<lambda>(k, page). case text_of page of Some s \<Rightarrow> [(k, s)] | None \<Rightarrow> []) es))"

fun pages_read :: "json option \<Rightarrow> (jsstr \<times> jsstr) list option" where
  "pages_read (Some (JObj es)) = Some (text_entries es)"
| "pages_read (Some (JArr js)) = Some (text_entries (zip (map (\<lambda>i. int_to_str (int i)) [0..<length js]) js))"
| "pages_read _ = None"

text \<open>\<open>None\<close> is the exception of reading a field of \<open>null\<close>, which is outside the \<open>try\<close>.\<close>

definition readSession :: "cell \<Rightarrow> StoredSession option" where
  "readSession c = (case c of
     Holds JNull \<Rightarrow> None
   | Holds (JObj fs) \<Rightarrow> Some
       \<lparr>so_openTabs = (case map_of fs (u ''openTabs'') of Some (JArr js) \<Rightarrow> Some (List.map_filter text_of js) | _ \<Rightarrow> None),
        so_activeTab = Option.bind (map_of fs (u ''activeTab'')) text_of,
        so_pageByTab = pages_read (map_of fs (u ''pageByTab'')),
        so_navCollapsed = (case map_of fs (u ''navCollapsed'') of Some (JBool b) \<Rightarrow> Some b | _ \<Rightarrow> None)\<rparr>
   | _ \<Rightarrow> Some no_session)"

record reopening =
  op_openTabs :: "jsstr list"
  op_activeTab :: "jsstr option"
  op_pageByTab :: "(jsstr \<times> jsstr) list"

definition first_tab :: "jsstr list \<Rightarrow> jsstr option" where
  "first_tab tabs = (case tabs of [] \<Rightarrow> None | t # _ \<Rightarrow> Some t)"

definition restoreSession :: "StoredSession \<Rightarrow> jsstr list \<Rightarrow> reopening" where
  "restoreSession stored known = (let openTabs = filter (\<lambda>key. key \<in> set known) (nullish (so_openTabs stored) []) in
     \<lparr>op_openTabs = openTabs,
      op_activeTab = (case so_activeTab stored of
          Some t \<Rightarrow> if t \<in> set openTabs then Some t else first_tab openTabs | None \<Rightarrow> first_tab openTabs),
      op_pageByTab = from_entries (filter (\<lambda>e. fst e \<in> set openTabs) (nullish (so_pageByTab stored) []))\<rparr>)"

definition session_json :: "ShellSession \<Rightarrow> json" where
  "session_json s = JObj [(u ''openTabs'', JArr (map JStr (ss_openTabs s))),
     (u ''activeTab'', case ss_activeTab s of Some t \<Rightarrow> JStr t | None \<Rightarrow> JNull),
     (u ''pageByTab'', JObj (map (\<lambda>(k, page). (k, JStr page)) (ss_pageByTab s))),
     (u ''navCollapsed'', JBool (ss_navCollapsed s))]"

definition writeSession :: "ShellSession \<Rightarrow> bool \<Rightarrow> cell \<Rightarrow> cell" where
  "writeSession session full c = (if full then c else Holds (session_json session))"

section \<open>The window\<close>

datatype view = ViewTab | ViewConnections | ViewSettings "jsstr option"

text \<open>
  \<open>sh_dirty\<close>: something the write effect depends on is new since it last wrote. A list or an object
  that was rebuilt is new even when it is equal.
\<close>

record 'f shell =
  sh_session :: StoredSession
  sh_openTabs :: "jsstr list"
  sh_activeTab :: "jsstr option"
  sh_pageByTab :: "(jsstr \<times> jsstr) list"
  sh_focus :: "(nat \<times> 'f) option"
  sh_restored :: bool
  sh_view :: view
  sh_previousView :: view
  sh_navCollapsed :: bool
  sh_profiles :: profiles_hook
  sh_dirty :: bool
  sh_storage :: cell
  sh_full :: bool

definition new_shell :: "cell \<Rightarrow> bool \<Rightarrow> 'f shell option" where
  "new_shell c full = map_option (\<lambda>session. \<lparr>sh_session = session, sh_openTabs = [], sh_activeTab = None, sh_pageByTab = [],
     sh_focus = None, sh_restored = False, sh_view = ViewConnections, sh_previousView = ViewTab,
     sh_navCollapsed = nullish (so_navCollapsed session) False, sh_profiles = mounted_hook, sh_dirty = True,
     sh_storage = c, sh_full = full\<rparr>) (readSession c)"

definition setOpenTabs :: "jsstr list \<Rightarrow> 'f shell \<Rightarrow> 'f shell" where
  "setOpenTabs tabs s = s\<lparr>sh_openTabs := tabs, sh_dirty := True\<rparr>"

definition setActiveTab :: "jsstr option \<Rightarrow> 'f shell \<Rightarrow> 'f shell" where
  "setActiveTab tab s = s\<lparr>sh_activeTab := tab, sh_dirty := sh_dirty s \<or> tab \<noteq> sh_activeTab s\<rparr>"

definition setPageByTab :: "(jsstr \<times> jsstr) list \<Rightarrow> 'f shell \<Rightarrow> 'f shell" where
  "setPageByTab pages s = s\<lparr>sh_pageByTab := pages, sh_dirty := True\<rparr>"

definition restore_effect :: "'f shell \<Rightarrow> 'f shell" where
  "restore_effect s =
    (if hp_loading (sh_profiles s) \<or> hp_loadFailed (sh_profiles s) \<or> sh_restored s then s
     else let reopening = restoreSession (sh_session s) (map sc_key (connections (sh_profiles s)));
              s = setPageByTab (op_pageByTab reopening) (s\<lparr>sh_restored := True\<rparr>) in
       if op_openTabs reopening = [] then s
       else (setActiveTab (op_activeTab reopening) (setOpenTabs (op_openTabs reopening) s))\<lparr>sh_view := ViewTab\<rparr>)"

definition session_of :: "'f shell \<Rightarrow> ShellSession" where
  "session_of s = \<lparr>ss_openTabs = sh_openTabs s, ss_activeTab = sh_activeTab s, ss_pageByTab = sh_pageByTab s,
     ss_navCollapsed = sh_navCollapsed s\<rparr>"

definition write_effect :: "'f shell \<Rightarrow> 'f shell" where
  "write_effect s = (if sh_restored s \<and> sh_dirty s
     then s\<lparr>sh_storage := writeSession (session_of s) (sh_full s) (sh_storage s), sh_dirty := False\<rparr> else s)"

definition commit :: "'f shell \<Rightarrow> 'f shell" where
  "commit s = write_effect (restore_effect s)"

section \<open>Callbacks\<close>

definition goto :: "view \<Rightarrow> 'f shell \<Rightarrow> 'f shell" where
  "goto next s = s\<lparr>sh_view := next, sh_previousView := (if sh_view s = ViewTab then sh_view s else sh_previousView s)\<rparr>"

definition openTab :: "jsstr \<Rightarrow> 'f shell \<Rightarrow> 'f shell" where
  "openTab key s = (setActiveTab (Some key)
     (if key \<in> set (sh_openTabs s) then s else setOpenTabs (sh_openTabs s @ [key]) s))\<lparr>sh_view := ViewTab\<rparr>"

definition closeTab :: "jsstr \<Rightarrow> 'f shell \<Rightarrow> 'f shell" where
  "closeTab key s = (let next = filter (\<lambda>t. t \<noteq> key) (sh_openTabs s);
       s' = setActiveTab (if sh_activeTab s = Some key then first_tab next else sh_activeTab s) (setOpenTabs next s) in
     if next = [] then s'\<lparr>sh_view := ViewConnections\<rparr> else s')"

definition put_page :: "jsstr \<Rightarrow> jsstr \<Rightarrow> 'f shell \<Rightarrow> 'f shell" where
  "put_page key page s = setPageByTab (obj_set key page (sh_pageByTab s)) s"

definition trayNavigate :: "jsstr \<Rightarrow> jsstr \<Rightarrow> 'f shell \<Rightarrow> 'f shell" where
  "trayNavigate conn page s =
    (if page = u ''settings'' then goto (ViewSettings None) s
     else case (if conn \<noteq> [] then Some conn else sh_activeTab s) of
       None \<Rightarrow> goto ViewConnections s
     | Some key \<Rightarrow> if page = u ''connections'' then goto ViewConnections s
         else let s = openTab key s in if page \<noteq> [] then put_page key page s else s)"

text \<open>What \<open>deleteConnection\<close> and \<open>disconnectConnection\<close> do to the tabs once the service has agreed.\<close>

definition drop_tab :: "jsstr \<Rightarrow> 'f shell \<Rightarrow> 'f shell" where
  "drop_tab key s = setActiveTab (if sh_activeTab s = Some key then None else sh_activeTab s)
     (setOpenTabs (filter (\<lambda>t. t \<noteq> key) (sh_openTabs s)) s)"

definition selectPage :: "jsstr \<Rightarrow> 'f option \<Rightarrow> 'f shell \<Rightarrow> 'f shell" where
  "selectPage next focus s = (case sh_activeTab s of None \<Rightarrow> s
   | Some key \<Rightarrow> put_page key next (s\<lparr>sh_focus := (case focus of None \<Rightarrow> None
        | Some f \<Rightarrow> Some ((case sh_focus s of Some (seq, _) \<Rightarrow> seq | None \<Rightarrow> 0) + 1, f))\<rparr>))"

definition toggleNav :: "'f shell \<Rightarrow> 'f shell" where
  "toggleNav s = s\<lparr>sh_navCollapsed := \<not> sh_navCollapsed s, sh_dirty := True\<rparr>"

definition closeSettings :: "'f shell \<Rightarrow> 'f shell" where
  "closeSettings s = s\<lparr>sh_view := sh_previousView s\<rparr>"

text \<open>A row that is not open is dialled as its tab is opened.\<close>

definition openConnectionTab :: "ConnectionRow \<Rightarrow> 'f shell \<Rightarrow> 'f shell \<times> profile_ask list" where
  "openConnectionTab connection s = (openTab (sc_key connection) s,
     if sc_status connection \<noteq> RowOnline \<and> hp_pending (sh_profiles s) (sc_id connection) = None
     then [AskDial (sc_id connection) Connecting] else [])"

section \<open>What is drawn\<close>

definition front :: "'f shell \<Rightarrow> ConnectionRow option" where
  "front s = find (\<lambda>c. Some (sc_key c) = sh_activeTab s) (connections (sh_profiles s))"

definition page_of :: "'f shell \<Rightarrow> jsstr" where
  "page_of s = nullish (Option.bind (sh_activeTab s) (map_of (sh_pageByTab s))) (u ''overview'')"

definition board_page :: "ProtocolId \<Rightarrow> jsstr \<Rightarrow> PageId" where
  "board_page protocol page = nullish (find (\<lambda>p. u (page_str p) = page) (pagesOf protocol)) OnOverview"

text \<open>What fills the window.\<close>

datatype content = EmptyList | ConnectionList | SettingsPage "jsstr option" | Board ProtocolId PageId

definition list_content :: "'f shell \<Rightarrow> content" where
  "list_content s = (if connections (sh_profiles s) = [] then EmptyList else ConnectionList)"

definition content_of :: "'f shell \<Rightarrow> content" where
  "content_of s = (case sh_view s of
     ViewConnections \<Rightarrow> list_content s
   | ViewSettings sec \<Rightarrow> SettingsPage sec
   | ViewTab \<Rightarrow> (case Option.bind (front s) sc_protocol of
       None \<Rightarrow> list_content s | Some protocol \<Rightarrow> Board protocol (board_page protocol (page_of s))))"

section \<open>Runs\<close>

text \<open>
  The actions; \<open>Rendered\<close> is any new state of the list of connections, \<open>Quota\<close> the storage filling up or
  becoming writable again.
\<close>

datatype 'f shell_action =
    OpenTab jsstr | CloseTab jsstr | Tray jsstr jsstr | DropTab jsstr | SelectPage jsstr "'f option" | Goto view
  | ToggleNav | CloseSettings | OpenConnection ConnectionRow | Rendered profiles_hook | Quota bool

fun shell_act :: "'f shell_action \<Rightarrow> 'f shell \<Rightarrow> 'f shell" where
  "shell_act (OpenTab key) s = openTab key s"
| "shell_act (CloseTab key) s = closeTab key s"
| "shell_act (Tray conn page) s = trayNavigate conn page s"
| "shell_act (DropTab key) s = drop_tab key s"
| "shell_act (SelectPage page focus) s = selectPage page focus s"
| "shell_act (Goto v) s = goto v s"
| "shell_act ToggleNav s = toggleNav s"
| "shell_act CloseSettings s = closeSettings s"
| "shell_act (OpenConnection c) s = fst (openConnectionTab c s)"
| "shell_act (Rendered h) s = s\<lparr>sh_profiles := h\<rparr>"
| "shell_act (Quota full) s = s\<lparr>sh_full := full\<rparr>"

definition shell_step :: "'f shell_action \<Rightarrow> 'f shell \<Rightarrow> 'f shell \<Rightarrow> bool" where
  "shell_step a s s' \<longleftrightarrow> s' = commit (shell_act a s)"

definition anything :: "'f shell_action \<Rightarrow> 'f shell \<Rightarrow> bool" where
  "anything a s \<longleftrightarrow> True"

definition storage_works :: "'f shell_action \<Rightarrow> 'f shell \<Rightarrow> bool" where
  "storage_works a s \<longleftrightarrow> a \<noteq> Quota True"

section \<open>Every window is consistent\<close>

lemmas shell_setters = setOpenTabs_def setActiveTab_def setPageByTab_def
lemmas shell_callbacks = openTab_def closeTab_def put_page_def goto_def drop_tab_def toggleNav_def closeSettings_def shell_setters

lemma first_tab_Nil [simp]: "first_tab [] = None"
  by (simp add: first_tab_def)

lemma first_tab_in: "first_tab tabs = Some t \<Longrightarrow> t \<in> set tabs"
  by (cases tabs) (simp_all add: first_tab_def)

lemma restoreSession_facts:
  "op_activeTab (restoreSession stored known) = Some t \<Longrightarrow> t \<in> set (op_openTabs (restoreSession stored known))"
  "distinct (nullish (so_openTabs stored) []) \<Longrightarrow> distinct (op_openTabs (restoreSession stored known))"
  "distinct (map fst (op_pageByTab (restoreSession stored known)))"
  by (auto simp: restoreSession_def Let_def dest!: first_tab_in split: option.splits if_splits)

definition tabs_ok :: "StoredSession \<Rightarrow> 'f shell \<Rightarrow> bool" where
  "tabs_ok session s \<longleftrightarrow> sh_session s = session \<and> (\<forall>key. sh_activeTab s = Some key \<longrightarrow> key \<in> set (sh_openTabs s))
     \<and> (distinct (nullish (so_openTabs session) []) \<longrightarrow> distinct (sh_openTabs s))
     \<and> distinct (map fst (sh_pageByTab s)) \<and> sh_previousView s = ViewTab"

lemma tabs_ok_openTab: "tabs_ok session s \<Longrightarrow> tabs_ok session (openTab key s)"
  by (auto simp: tabs_ok_def shell_callbacks)

lemma tabs_ok_put_page: "tabs_ok session s \<Longrightarrow> tabs_ok session (put_page key page s)"
  by (simp add: tabs_ok_def shell_callbacks distinct_obj_set)

lemma tabs_ok_goto: "tabs_ok session s \<Longrightarrow> tabs_ok session (goto v s)"
  by (simp add: tabs_ok_def shell_callbacks)

lemma tabs_ok_closeTab: "tabs_ok session s \<Longrightarrow> tabs_ok session (closeTab key s)"
  by (cases "sh_activeTab s") (auto simp: tabs_ok_def shell_callbacks Let_def filter_empty_conv dest: first_tab_in)

lemma tabs_ok_act: "tabs_ok session s \<Longrightarrow> tabs_ok session (shell_act a s)"
proof (cases a)
  case (Tray conn page)
  then show "tabs_ok session s \<Longrightarrow> ?thesis"
    by (simp add: trayNavigate_def Let_def tabs_ok_goto tabs_ok_openTab tabs_ok_put_page split: option.split)
next
  case (SelectPage page focus)
  have "tabs_ok session s \<Longrightarrow> tabs_ok session (s\<lparr>sh_focus := f\<rparr>)" for f by (simp add: tabs_ok_def)
  then show "tabs_ok session s \<Longrightarrow> ?thesis"
    by (simp add: SelectPage selectPage_def tabs_ok_put_page split: option.split)
qed (simp_all add: tabs_ok_openTab tabs_ok_goto tabs_ok_closeTab openConnectionTab_def,
     auto simp: tabs_ok_def shell_callbacks)

lemma tabs_ok_restore: "tabs_ok session s \<Longrightarrow> tabs_ok session (restore_effect s)"
  using restoreSession_facts [of session] by (auto simp: tabs_ok_def restore_effect_def shell_setters Let_def)

lemma tabs_ok_commit: "tabs_ok session s \<Longrightarrow> tabs_ok session (commit s)"
  using tabs_ok_restore [of session s] by (simp add: commit_def write_effect_def tabs_ok_def)

lemma tabs_ok_new: "new_shell c full = Some s \<Longrightarrow> tabs_ok (sh_session s) s"
  by (auto simp: new_shell_def tabs_ok_def)

lemma tabs_ok_run:
  assumes "new_shell c full = Some s0" and "run shell_step ok s0 s"
  shows "tabs_ok (sh_session s0) s"
  using assms(2) tabs_ok_new [OF assms(1)]
  by (rule run_invariant) (simp add: shell_step_def tabs_ok_commit tabs_ok_act)

lemma board_page_listed: "board_page protocol page \<in> set (pagesOf protocol)"
proof (cases "find (\<lambda>p. u (page_str p) = page) (pagesOf protocol)")
  case None
  then show ?thesis using overview_listed(2) by (simp add: board_page_def)
next
  case (Some p)
  then have "p \<in> set (pagesOf protocol)" by (auto simp: find_Some_iff)
  then show ?thesis by (simp add: board_page_def Some)
qed

text \<open>
  C8: whatever the user, the tray, the service and the storage do, the tab in front is one of the open tabs, no
  tab is open twice (unless the session read at the start said so), and the board that is drawn is a page of the
  sidebar of that connection's family.
\<close>

theorem tabs_always_consistent:
  assumes "new_shell c full = Some s0" and "run shell_step anything s0 s"
  shows "(\<forall>key. sh_activeTab s = Some key \<longrightarrow> key \<in> set (sh_openTabs s))
    \<and> (distinct (nullish (so_openTabs (sh_session s0)) []) \<longrightarrow> distinct (sh_openTabs s))
    \<and> (\<forall>protocol page. content_of s = Board protocol page \<longrightarrow> page \<in> set (pagesOf protocol))"
  using tabs_ok_run [OF assms] board_page_listed
  by (auto simp: tabs_ok_def content_of_def list_content_def split: view.splits option.splits if_splits)

section \<open>The session is not lost to a list that could not be read\<close>

definition list_unread :: "profiles_hook \<Rightarrow> bool" where
  "list_unread h \<longleftrightarrow> hp_loading h \<or> hp_loadFailed h"

definition never_read :: "'f shell_action \<Rightarrow> 'f shell \<Rightarrow> bool" where
  "never_read a s \<longleftrightarrow> (case a of Rendered h \<Rightarrow> list_unread h | _ \<Rightarrow> True)"

definition unread_ok :: "cell \<Rightarrow> 'f shell \<Rightarrow> bool" where
  "unread_ok c s \<longleftrightarrow> \<not> sh_restored s \<and> list_unread (sh_profiles s) \<and> sh_storage s = c"

lemma act_keeps:
  "sh_restored (shell_act a s) = sh_restored s" "sh_storage (shell_act a s) = sh_storage s"
  by (cases a; simp add: shell_callbacks trayNavigate_def selectPage_def openConnectionTab_def Let_def split: option.split)+

lemma act_profiles: "sh_profiles (shell_act a s) = (case a of Rendered h \<Rightarrow> h | _ \<Rightarrow> sh_profiles s)"
  by (cases a; simp add: shell_callbacks trayNavigate_def selectPage_def openConnectionTab_def Let_def split: option.split)

text \<open>
  C9: as long as the list of connections is loading or could not be read, the stored session stays as it was
  whatever the user and the tray do meanwhile, so a start without the service loses no tab.
\<close>

theorem unread_list_keeps_session:
  assumes "new_shell c full = Some s0" and "run shell_step never_read s0 s"
  shows "sh_storage s = c"
proof -
  have "unread_ok c s"
    using assms(2)
  proof (rule run_invariant)
    show "unread_ok c s0" using assms(1) by (auto simp: unread_ok_def new_shell_def list_unread_def mounted_hook_def)
    show "unread_ok c s'" if "shell_step a s s'" and "never_read a s" and "unread_ok c s" for a and s s' :: "'a shell"
    proof -
      have "list_unread (sh_profiles (shell_act a s))"
        using that(2,3) unfolding act_profiles by (cases a) (simp_all add: unread_ok_def never_read_def)
      then show ?thesis
        using that act_keeps [of a s]
        by (auto simp: unread_ok_def shell_step_def commit_def write_effect_def restore_effect_def list_unread_def)
    qed
  qed
  then show ?thesis by (simp add: unread_ok_def)
qed

section \<open>The next window opens as the last one closed\<close>

definition stored_ok :: "'f shell \<Rightarrow> bool" where
  "stored_ok s \<longleftrightarrow> \<not> sh_full s \<and> (sh_restored s \<and> \<not> sh_dirty s \<longrightarrow> sh_storage s = Holds (session_json (session_of s)))"

lemma openTab_clean: "\<not> sh_dirty (openTab key s) \<Longrightarrow> \<not> sh_dirty s \<and> session_of (openTab key s) = session_of s"
  by (simp add: openTab_def shell_setters session_of_def split: if_splits)

lemma put_page_dirty: "sh_dirty (put_page key page s)"
  by (simp add: put_page_def shell_setters)

lemma goto_keeps: "sh_dirty (goto v s) = sh_dirty s" "session_of (goto v s) = session_of s"
  by (simp_all add: goto_def session_of_def)

lemma closed_dirty: "sh_dirty (closeTab key s)" "sh_dirty (drop_tab key s)" "sh_dirty (toggleNav s)"
  by (simp_all add: shell_callbacks Let_def)

lemma act_clean: "\<not> sh_dirty (shell_act a s) \<Longrightarrow> \<not> sh_dirty s \<and> session_of (shell_act a s) = session_of s"
proof (cases a)
  case (Tray conn page)
  then show "\<not> sh_dirty (shell_act a s) \<Longrightarrow> ?thesis"
    by (auto simp: trayNavigate_def Let_def goto_keeps put_page_dirty dest: openTab_clean split: option.splits if_splits)
next
  case (SelectPage page focus)
  then show "\<not> sh_dirty (shell_act a s) \<Longrightarrow> ?thesis"
    by (simp add: selectPage_def put_page_dirty split: option.splits)
next
  case (OpenTab key)
  then show "\<not> sh_dirty (shell_act a s) \<Longrightarrow> ?thesis" using openTab_clean [of key s] by simp
next
  case (OpenConnection c)
  then show "\<not> sh_dirty (shell_act a s) \<Longrightarrow> ?thesis" using openTab_clean [of "sc_key c" s] by (simp add: openConnectionTab_def)
qed (simp_all add: closed_dirty goto_def closeSettings_def session_of_def)

lemma act_full: "a \<noteq> Quota True \<Longrightarrow> sh_full (shell_act a s) \<Longrightarrow> sh_full s"
  by (cases a; simp add: shell_callbacks trayNavigate_def selectPage_def openConnectionTab_def Let_def split: option.splits if_splits)

lemma act_stored: "a \<noteq> Quota True \<Longrightarrow> stored_ok s \<Longrightarrow> stored_ok (shell_act a s)"
  using act_clean [of a s] act_full [of a s] act_keeps [of a s] by (auto simp: stored_ok_def)

lemma commit_stored: "stored_ok s \<Longrightarrow> stored_ok (commit s) \<and> (sh_restored (commit s) \<longrightarrow> \<not> sh_dirty (commit s))"
  by (auto simp: stored_ok_def commit_def write_effect_def restore_effect_def shell_setters session_of_def writeSession_def Let_def)

lemma read_written_session:
  "readSession (Holds (session_json s)) = Some \<lparr>so_openTabs = Some (ss_openTabs s), so_activeTab = ss_activeTab s,
     so_pageByTab = Some (from_entries (ss_pageByTab s)), so_navCollapsed = Some (ss_navCollapsed s)\<rparr>"
proof -
  have tabs: "List.map_filter text_of (map JStr ts) = ts" for ts by (induction ts) (simp_all add: map_filter_simps)
  have "concat (map ((\<lambda>(k, page). case text_of page of Some s \<Rightarrow> [(k, s)] | None \<Rightarrow> []) \<circ> (\<lambda>(k, page). (k, JStr page))) es) = es" for es :: "(jsstr \<times> jsstr) list"
    by (induction es) auto
  then show ?thesis
    by (simp add: readSession_def session_json_def u_def tabs text_entries_def split: option.split)
qed

lemma map_of_filter_key: "map_of (filter (\<lambda>e. P (fst e)) al) k = (if P k then map_of al k else None)"
  by (induction al) auto

lemma stored_run:
  assumes "new_shell c False = Some s0" and "run shell_step storage_works s0 s" and "sh_restored s"
  shows "sh_storage s = Holds (session_json (session_of s))"
proof -
  have "stored_ok s \<and> (sh_restored s \<longrightarrow> \<not> sh_dirty s)"
    using assms(2)
  proof (rule run_invariant)
    show "stored_ok s0 \<and> (sh_restored s0 \<longrightarrow> \<not> sh_dirty s0)" using assms(1) by (auto simp: stored_ok_def new_shell_def)
    show "stored_ok s' \<and> (sh_restored s' \<longrightarrow> \<not> sh_dirty s')"
      if "shell_step a s s'" and "storage_works a s" and "stored_ok s \<and> (sh_restored s \<longrightarrow> \<not> sh_dirty s)" for a and s s' :: "'a shell"
      using that commit_stored [OF act_stored, of a s] by (simp add: shell_step_def storage_works_def)
  qed
  then show ?thesis using assms(3) by (simp add: stored_ok_def)
qed

text \<open>
  C10: the session round trip: a window whose session was restored, closed at any moment while its storage could be
  written, and opened again on a list that still has its connections, has the same tabs open, the
  same one in front, the same page on each and the sidebar as it was left.
\<close>

theorem session_reopens:
  fixes s t :: "'f shell"
  assumes "new_shell c False = Some s0" and "run shell_step storage_works s0 s" and "sh_restored s"
    and "new_shell (sh_storage s) full = Some t0" and "\<not> hp_loading h" and "\<not> hp_loadFailed h"
    and "list_all (\<lambda>key. key \<in> set (map sc_key (connections h))) (sh_openTabs s)"
  defines "t \<equiv> commit (shell_act (Rendered h) t0)"
  shows "sh_openTabs t = sh_openTabs s \<and> (sh_activeTab s \<noteq> None \<longrightarrow> sh_activeTab t = sh_activeTab s)
    \<and> sh_navCollapsed t = sh_navCollapsed s
    \<and> (\<forall>key \<in> set (sh_openTabs s). map_of (sh_pageByTab t) key = map_of (sh_pageByTab s) key)"
proof -
  have ok: "tabs_ok (sh_session s0) s" using assms(1,2) by (rule tabs_ok_run)
  have fs: "filter (\<lambda>key. key \<in> set (map sc_key (connections h))) (sh_openTabs s) = sh_openTabs s"
    using assms(7) by (simp add: list_all_iff filter_id_conv)
  have d: "distinct (map fst (sh_pageByTab s))" using ok by (simp add: tabs_ok_def)
  note t0 = assms(4) [unfolded stored_run [OF assms(1-3)] new_shell_def read_written_session]
  let ?o = "restoreSession (sh_session t0) (map sc_key (connections h))"
  have tabs: "op_openTabs ?o = sh_openTabs s" using t0 fs by (auto simp: restoreSession_def session_of_def Let_def)
  have active: "op_activeTab ?o = (case sh_activeTab s of Some k \<Rightarrow> Some k | None \<Rightarrow> first_tab (sh_openTabs s))"
    using t0 fs ok by (cases "sh_activeTab s") (auto simp: restoreSession_def session_of_def tabs_ok_def Let_def)
  have pages: "map_of (op_pageByTab ?o) key = map_of (sh_pageByTab s) key" if "key \<in> set (sh_openTabs s)" for key
  proof -
    have "map_of (op_pageByTab ?o) key = map_of (filter (\<lambda>e. fst e \<in> set (sh_openTabs s)) (from_entries (sh_pageByTab s))) key"
      using t0 tabs by (auto simp: restoreSession_def session_of_def Let_def map_of_from_entries distinct_map_filter)
    then show ?thesis using that d by (simp add: map_of_filter_key [where P = "\<lambda>k. k \<in> set (sh_openTabs s)"] map_of_from_entries)
  qed
  have none: "sh_activeTab s = None" if "sh_openTabs s = []" using ok that by (auto simp: tabs_ok_def)
  have new: "\<not> sh_restored t0" "sh_openTabs t0 = []" "sh_activeTab t0 = None" "sh_navCollapsed t0 = sh_navCollapsed s"
    using t0 by (auto simp: session_of_def)
  have known: "map sc_key (connections (sh_profiles (t0\<lparr>sh_profiles := h\<rparr>))) = map sc_key (connections h)" by simp
  let ?r = "restore_effect (t0\<lparr>sh_profiles := h\<rparr>)"
  have r: "sh_openTabs ?r = sh_openTabs s" "sh_navCollapsed ?r = sh_navCollapsed s" "sh_pageByTab ?r = op_pageByTab ?o"
    "sh_openTabs s \<noteq> [] \<Longrightarrow> sh_activeTab ?r = op_activeTab ?o"
    using new tabs assms(5,6) by (simp_all add: restore_effect_def shell_setters Let_def)
  have "sh_openTabs t = sh_openTabs ?r" "sh_navCollapsed t = sh_navCollapsed ?r" "sh_pageByTab t = sh_pageByTab ?r"
    "sh_activeTab t = sh_activeTab ?r"
    by (simp_all add: t_def commit_def write_effect_def)
  then show ?thesis using r active none pages by (cases "sh_activeTab s") auto
qed

section \<open>Concrete windows\<close>

definition two_rows :: profiles_hook where
  "two_rows = mounted_hook\<lparr>hp_profiles := [sample_row_profile StatusOnline, (sample_row_profile StatusOffline)\<lparr>cv_id := 8\<rparr>], hp_loading := False\<rparr>"

definition day_run :: "nat shell_action list" where
  "day_run = [Rendered two_rows, OpenTab (u ''7''), OpenTab (u ''8''), SelectPage (u ''topics'') None, CloseTab (u ''7'')]"

definition day :: "nat shell_action list \<Rightarrow> nat shell" where
  "day as = fold (\<lambda>a s. commit (shell_act a s)) as (the (new_shell NoItem False))"

lemma folded_run:
  "list_all (\<lambda>a. \<forall>s. ok a s) as \<Longrightarrow> run shell_step ok s (fold (\<lambda>a s. commit (shell_act a s)) as s)"
proof (induction as arbitrary: s)
  case (Cons a as)
  have "run shell_step ok s (commit (shell_act a s))"
    using Cons.prems by (auto simp: shell_step_def intro: run_step [OF run_refl])
  then show ?case using Cons run_trans by fastforce
qed (simp add: run_refl)

lemma new_day: "new_shell NoItem False = Some (the (new_shell NoItem False))"
  by (simp add: new_shell_def readSession_def)

lemma two_rows_read: "\<not> hp_loading two_rows" "\<not> hp_loadFailed two_rows" "map sc_key (connections two_rows) = [u ''7'', u ''8'']"
  by (simp_all add: two_rows_def mounted_hook_def connections_def shell_row_def toShellConnection_def sample_row_profile_def Let_def
    int_to_str_def nat_digits.simps [of 7] nat_digits.simps [of 8] u_def)

lemma keys_differ: "u ''7'' \<noteq> u ''8''" "u ''8'' \<noteq> u ''7''"
  by (simp_all add: u_def)

lemmas shell_simps = day_def day_run_def new_shell_def readSession_def no_session_def two_rows_read keys_differ commit_def
  restore_effect_def write_effect_def restoreSession_def shell_callbacks selectPage_def first_tab_def Let_def

theorem tabs_always_consistent_witness:
  "sh_activeTab (day day_run) = Some (u ''8'') \<and> u ''8'' \<in> set (sh_openTabs (day day_run))"
proof -
  have "run shell_step anything (the (new_shell NoItem False)) (day day_run)"
    unfolding day_def by (rule folded_run) (simp add: anything_def list_all_iff)
  moreover have "sh_activeTab (day day_run) = Some (u ''8'')" by (simp add: shell_simps)
  ultimately show ?thesis using tabs_always_consistent [OF new_day] by blast
qed

theorem unread_list_keeps_session_witness:
  "sh_openTabs (day [Rendered (mounted_hook\<lparr>hp_loading := False, hp_loadFailed := True\<rparr>), Tray (u ''7'') []]) = [u ''7'']
   \<and> sh_storage (day [Rendered (mounted_hook\<lparr>hp_loading := False, hp_loadFailed := True\<rparr>), Tray (u ''7'') []]) = NoItem"
proof -
  let ?as = "[Rendered (mounted_hook\<lparr>hp_loading := False, hp_loadFailed := True\<rparr>), Tray (u ''7'') []] :: nat shell_action list"
  have "run shell_step never_read (the (new_shell NoItem False)) (day ?as)"
    unfolding day_def by (rule folded_run) (simp add: never_read_def list_unread_def)
  moreover have "sh_openTabs (day ?as) = [u ''7'']"
    by (simp add: shell_simps trayNavigate_def mounted_hook_def u_def)
  ultimately show ?thesis using unread_list_keeps_session [OF new_day] by blast
qed

text \<open>What a window wrote can be read.\<close>

lemma reopens_at_all:
  assumes "new_shell c False = Some s0" and "run shell_step storage_works s0 s" and "sh_restored s"
  shows "new_shell (sh_storage s) full = Some (the (new_shell (sh_storage s) full))"
  using stored_run [OF assms] by (simp add: new_shell_def read_written_session)

theorem session_reopens_witness:
  "let t = commit (shell_act (Rendered two_rows) (the (new_shell (sh_storage (day day_run)) False) :: nat shell)) in
     sh_openTabs t = [u ''8''] \<and> sh_activeTab t = Some (u ''8'') \<and> map_of (sh_pageByTab t) (u ''8'') = Some (u ''topics'')"
proof -
  have run: "run shell_step storage_works (the (new_shell NoItem False)) (day day_run)"
    unfolding day_def by (rule folded_run) (simp add: storage_works_def day_run_def)
  have d: "sh_restored (day day_run)" "sh_openTabs (day day_run) = [u ''8'']" "sh_activeTab (day day_run) = Some (u ''8'')"
    "sh_pageByTab (day day_run) = [(u ''8'', u ''topics'')]"
    by (simp_all add: shell_simps obj_set_def own_order_def from_entries_def)
  show ?thesis
    using session_reopens [OF new_day run d(1) reopens_at_all [OF new_day run d(1)] two_rows_read(1,2), of False]
    by (simp add: d two_rows_read Let_def)
qed

section \<open>Where the window surprises\<close>

text \<open>
  \<open>goto\<close> remembers the view it leaves only when that is a tab, so closing the settings always shows
  the tabs, also when they were opened from the list of connections.
\<close>

lemma settings_close_on_tabs:
  assumes "new_shell c full = Some s0" and "run shell_step ok s0 s"
  shows "sh_view (closeSettings (goto (ViewSettings sec) s)) = ViewTab"
  using tabs_ok_run [OF assms] by (simp add: tabs_ok_def closeSettings_def goto_def)

text \<open>The palette's pages go through \<open>selectPage\<close>, which never leaves the settings or the list.\<close>

lemma selected_page_unseen: "sh_view s \<noteq> ViewTab \<Longrightarrow> content_of (selectPage page focus s) = content_of s"
  by (cases "sh_view s") (simp_all add: selectPage_def put_page_def shell_setters content_of_def list_content_def split: option.split)

text \<open>A tab the tray opened before the list was read is dropped when the session is restored over it.\<close>

lemma early_tab_lost:
  assumes "\<not> sh_restored s" and "\<not> hp_loading h" and "\<not> hp_loadFailed h"
    and "op_openTabs (restoreSession (sh_session s) (map sc_key (connections h))) \<noteq> []"
  shows "sh_openTabs (commit (shell_act (Rendered h) (openTab key s)))
    = op_openTabs (restoreSession (sh_session s) (map sc_key (connections h)))"
proof -
  have k: "sh_session (openTab key s) = sh_session s" "\<not> sh_restored (openTab key s)"
    using assms(1) by (simp_all add: openTab_def shell_setters)
  show ?thesis using assms(2-4) k by (simp add: commit_def write_effect_def restore_effect_def shell_setters Let_def)
qed

text \<open>A stored \<open>null\<close> is read outside the \<open>try\<close>, so the window cannot open.\<close>

lemma null_session_throws: "new_shell (Holds JNull) full = None"
  by (simp add: new_shell_def readSession_def)

end
