(* ===== verification/Shell_Pages.thy ===== *)
theory Shell_Pages
  imports Connection_Profiles Option_Filter
begin

text \<open>
  What the shell offers to go to: the entries of the sidebar (\<open>design/shell/Sidebar.tsx\<close>), the hits of
  the command palette (\<open>design/shell/CommandPalette.tsx\<close>) and the options of the scope switcher
  (\<open>design/shell/scopeOptions.ts\<close>). The translation \<open>t\<close> and \<open>toLowerCase\<close> are parameters.
\<close>

section \<open>The sidebar\<close>

text \<open>The overview asks for nothing, so it is never hidden or disabled.\<close>

definition entry_visible :: "CapabilityState \<Rightarrow> bool \<Rightarrow> PageId \<Rightarrow> bool" where
  "entry_visible cs online page = (case nav_page page of None \<Rightarrow> True | Some pg \<Rightarrow> nav_visible cs online pg)"

definition entry_disabled :: "CapabilityState \<Rightarrow> bool \<Rightarrow> PageId \<Rightarrow> bool" where
  "entry_disabled cs online page = (case nav_page page of None \<Rightarrow> False | Some pg \<Rightarrow> nav_disabled cs online pg)"

definition entry_reason :: "CapabilityState \<Rightarrow> PageId \<Rightarrow> jsstr option" where
  "entry_reason cs page = (case nav_page page of None \<Rightarrow> None | Some pg \<Rightarrow> nav_reason cs pg)"

record side_entry =
  se_id :: PageId
  se_disabled :: bool
  se_current :: bool
  se_text :: jsstr
  se_hint :: jsstr

text \<open>\<open>t\<close> translates a key given as text.\<close>

definition entry_hint :: "(jsstr \<Rightarrow> jsstr) \<Rightarrow> bool \<Rightarrow> jsstr \<Rightarrow> jsstr option \<Rightarrow> jsstr" where
  "entry_hint t collapsed label reason = (let parts = filter (\<lambda>s. s \<noteq> [])
       ((if collapsed then [t label] else []) @ (case reason of None \<Rightarrow> [] | Some r \<Rightarrow> [t r])) in
     case parts of [] \<Rightarrow> [] | p # ps \<Rightarrow> foldl (\<lambda>s q. s @ [32, 183, 32] @ q) p ps)"

definition draw_entry :: "(jsstr \<Rightarrow> jsstr) \<Rightarrow> CapabilityState \<Rightarrow> bool \<Rightarrow> PageId \<Rightarrow> bool \<Rightarrow> NavEntry \<Rightarrow> side_entry" where
  "draw_entry t cs online active collapsed item = (let disabled = entry_disabled cs online (ne_id item);
       reason = (if disabled then entry_reason cs (ne_id item) else None) in
     \<lparr>se_id = ne_id item, se_disabled = disabled, se_current = (ne_id item = active), se_text = t (u (ne_label item)),
      se_hint = entry_hint t collapsed (u (ne_label item)) reason\<rparr>)"

fun side_groups :: "(jsstr \<Rightarrow> jsstr) \<Rightarrow> CapabilityState \<Rightarrow> bool \<Rightarrow> PageId \<Rightarrow> bool \<Rightarrow> NavGroup list \<Rightarrow> (jsstr option \<times> side_entry list) list" where
  "side_groups t cs online active collapsed [] = []"
| "side_groups t cs online active collapsed (grp # groups) =
    (let items = filter (\<lambda>item. entry_visible cs online (ne_id item)) (ng_items grp);
         rest = side_groups t cs online active collapsed groups in
     if items = [] then rest
     else (map_option (\<lambda>l. t (u l)) (ng_label grp), map (draw_entry t cs online active collapsed) items) # rest)"

definition Sidebar :: "(jsstr \<Rightarrow> jsstr) \<Rightarrow> CapabilityState \<Rightarrow> bool \<Rightarrow> ProtocolId \<Rightarrow> PageId \<Rightarrow> bool \<Rightarrow> (jsstr option \<times> side_entry list) list" where
  "Sidebar t cs online protocol active collapsed = side_groups t cs online active collapsed (pr_nav (PROTOCOLS protocol))"

text \<open>A click on an entry: a disabled one does nothing.\<close>

definition side_click :: "side_entry \<Rightarrow> PageId option" where
  "side_click e = (if se_disabled e then None else Some (se_id e))"

section \<open>The palette\<close>

datatype palette_run = RunConnection jsstr | RunPage PageId | RunNewConnection | RunOpenSettings | RunCheckUpdate

datatype HitIcon = PageIcon Icon | PlusIcon | SettingsIcon | RefreshIcon

record Hit =
  hit_key :: jsstr
  hit_group :: jsstr
  hit_name :: jsstr
  hit_meta :: jsstr
  hit_icon :: "HitIcon option"
  hit_protocol :: "ProtocolId option"
  hit_run :: palette_run

definition palette_matches :: "(jsstr \<Rightarrow> jsstr) \<Rightarrow> jsstr \<Rightarrow> jsstr list \<Rightarrow> bool" where
  "palette_matches lower needle texts \<longleftrightarrow> needle = [] \<or> list_ex (\<lambda>x. includes_str (lower x) needle) texts"

definition connection_hits :: "(jsstr \<Rightarrow> jsstr) \<Rightarrow> (jsstr \<Rightarrow> jsstr) \<Rightarrow> jsstr \<Rightarrow> ConnectionRow \<Rightarrow> Hit list" where
  "connection_hits t lower needle c = (case sc_protocol c of None \<Rightarrow> []
   | Some protocol \<Rightarrow> if \<not> palette_matches lower needle [sc_name c, sc_address c, sc_protocolLabel c] then []
       else [\<lparr>hit_key = u ''connection:'' @ sc_key c, hit_group = t (u ''shell.palette.connections''), hit_name = sc_name c,
         hit_meta = sc_protocolLabel c @ [32, 183, 32] @ sc_address c, hit_icon = None, hit_protocol = Some protocol,
         hit_run = RunConnection (sc_key c)\<rparr>])"

definition page_hits :: "(jsstr \<Rightarrow> jsstr) \<Rightarrow> (jsstr \<Rightarrow> jsstr) \<Rightarrow> jsstr \<Rightarrow> CapabilityState \<Rightarrow> bool \<Rightarrow> NavGroup \<Rightarrow> NavEntry \<Rightarrow> Hit list" where
  "page_hits t lower needle cs online grp item =
    (if \<not> entry_visible cs online (ne_id item) \<or> entry_disabled cs online (ne_id item) then []
     else let label = t (u (ne_label item)) in
       if \<not> palette_matches lower needle [label, u (page_str (ne_id item))] then []
       else [\<lparr>hit_key = u ''page:'' @ u (page_str (ne_id item)), hit_group = t (u ''shell.palette.pages''), hit_name = label,
         hit_meta = (case ng_label grp of Some l \<Rightarrow> t (u l) | None \<Rightarrow> t (u ''shell.palette.navigation'')),
         hit_icon = Some (PageIcon (ne_icon item)), hit_protocol = None, hit_run = RunPage (ne_id item)\<rparr>])"

definition command_list :: "(string \<times> HitIcon \<times> palette_run) list" where
  "command_list = [(''newConnection'', PlusIcon, RunNewConnection), (''openSettings'', SettingsIcon, RunOpenSettings), (''checkUpdate'', RefreshIcon, RunCheckUpdate)]"

definition command_hits :: "(jsstr \<Rightarrow> jsstr) \<Rightarrow> (jsstr \<Rightarrow> jsstr) \<Rightarrow> jsstr \<Rightarrow> string \<times> HitIcon \<times> palette_run \<Rightarrow> Hit list" where
  "command_hits t lower needle cmd = (case cmd of (key, icon, what) \<Rightarrow>
     let name = t (u ''shell.palette.'' @ u key) in
     if \<not> palette_matches lower needle [name] then []
     else [\<lparr>hit_key = u ''command:'' @ u key, hit_group = t (u ''shell.palette.commands''), hit_name = name,
       hit_meta = t (u ''shell.palette.window''), hit_icon = Some icon, hit_protocol = None, hit_run = what\<rparr>])"

definition palette_hits :: "(jsstr \<Rightarrow> jsstr) \<Rightarrow> (jsstr \<Rightarrow> jsstr) \<Rightarrow> CapabilityState \<Rightarrow> bool \<Rightarrow> ProtocolId option \<Rightarrow> ConnectionRow list \<Rightarrow> jsstr \<Rightarrow> Hit list" where
  "palette_hits t lower cs online protocol conns query = (let needle = lower (trim query) in
     concat (map (connection_hits t lower needle) conns)
     @ (case protocol of None \<Rightarrow> []
        | Some p \<Rightarrow> concat (map (\<lambda>grp. concat (map (page_hits t lower needle cs online grp) (ng_items grp))) (pr_nav (PROTOCOLS p))))
     @ concat (map (command_hits t lower needle) command_list))"

text \<open>The groups, in the order their first hit comes.\<close>

fun put_hit :: "Hit \<Rightarrow> (jsstr \<times> Hit list) list \<Rightarrow> (jsstr \<times> Hit list) list" where
  "put_hit hit [] = [(hit_group hit, [hit])]"
| "put_hit hit ((name, bucket) # gs) =
     (if name = hit_group hit then (name, bucket @ [hit]) # gs else (name, bucket) # put_hit hit gs)"

definition palette_groups :: "Hit list \<Rightarrow> (jsstr \<times> Hit list) list" where
  "palette_groups hits = foldl (\<lambda>gs hit. put_hit hit gs) [] hits"

section \<open>The palette offers what the sidebar lets through\<close>

definition offered_pages :: "Hit list \<Rightarrow> PageId list" where
  "offered_pages hits = concat (map (\<lambda>h. case hit_run h of RunPage p \<Rightarrow> [p] | _ \<Rightarrow> []) hits)"

definition open_entries :: "(jsstr option \<times> side_entry list) list \<Rightarrow> side_entry list" where
  "open_entries groups = filter (\<lambda>e. side_click e \<noteq> None) (concat (map snd groups))"

lemma offered_append [simp]: "offered_pages (a @ b) = offered_pages a @ offered_pages b"
  by (simp add: offered_pages_def)

lemma offered_none: "(\<And>h p. h \<in> set hits \<Longrightarrow> hit_run h \<noteq> RunPage p) \<Longrightarrow> offered_pages hits = []"
  by (auto simp: offered_pages_def split: palette_run.split)

lemma offered_connections: "offered_pages (concat (map (connection_hits t lower needle) conns)) = []"
  by (rule offered_none) (auto simp: connection_hits_def split: option.splits if_splits)

lemma offered_commands: "offered_pages (concat (map (command_hits t lower needle) command_list)) = []"
  by (rule offered_none) (auto simp: command_hits_def command_list_def Let_def split: if_splits)

lemma offered_group:
  "offered_pages (concat (map (page_hits t lower needle cs online grp) items)) =
     map se_id (filter (\<lambda>e. side_click e \<noteq> None \<and> palette_matches lower needle [se_text e, u (page_str (se_id e))])
       (map (draw_entry t cs online active collapsed) (filter (\<lambda>item. entry_visible cs online (ne_id item)) items)))"
  by (induction items) (auto simp: page_hits_def draw_entry_def side_click_def offered_pages_def Let_def)

lemma offered_groups:
  "offered_pages (concat (map (\<lambda>grp. concat (map (page_hits t lower needle cs online grp) (ng_items grp))) groups)) =
     map se_id (filter (\<lambda>e. palette_matches lower needle [se_text e, u (page_str (se_id e))])
       (open_entries (side_groups t cs online active collapsed groups)))"
proof (induction groups)
  case (Cons grp groups)
  then show ?case
    using offered_group [where active = active and collapsed = collapsed]
    by (auto simp: open_entries_def Let_def conj_commute)
qed (simp add: offered_pages_def open_entries_def)

text \<open>
  C14: the palette and the sidebar agree: in the sidebar's order, the pages the palette offers are exactly the entries
  a click would open - visible ones that are not disabled - whose label or id contains what was typed.
\<close>

theorem palette_agrees_with_sidebar:
  "offered_pages (palette_hits t lower cs online (Some protocol) conns query) =
     map se_id (filter (\<lambda>e. palette_matches lower (lower (trim query)) [se_text e, u (page_str (se_id e))])
       (open_entries (Sidebar t cs online protocol active collapsed)))"
  using offered_groups [where active = active and collapsed = collapsed]
  by (simp add: palette_hits_def Sidebar_def offered_connections offered_commands Let_def)

text \<open>Grouping loses no hit.\<close>

lemma put_hit_all: "mset (concat (map snd (put_hit hit gs))) = add_mset hit (mset (concat (map snd gs)))"
  by (induction hit gs rule: put_hit.induct) auto

lemma grouped_all: "mset (concat (map snd (palette_groups hits))) = mset hits"
proof -
  have "mset (concat (map snd (foldl (\<lambda>gs hit. put_hit hit gs) acc hits))) = mset (concat (map snd acc)) + mset hits" for acc
    by (induction hits arbitrary: acc) (simp_all add: put_hit_all)
  from this [of "[]"] show ?thesis by (simp add: palette_groups_def)
qed

section \<open>The scope switcher\<close>

record Scope =
  scp_name :: jsstr
  scp_destinations :: jsnum
  scp_subscriptions :: jsnum

record ScopeOptions =
  so_matched :: "Scope list"
  so_hidden :: nat
  so_typed :: jsstr

text \<open>\<open>new Map\<close> keeps the last entry of a name.\<close>

definition by_name :: "Scope list \<Rightarrow> jsstr \<Rightarrow> Scope option" where
  "by_name scopes = map_of (rev (map (\<lambda>s. (scp_name s, s)) scopes))"

definition scopeOptions :: "(jsstr \<Rightarrow> jsstr) \<Rightarrow> Scope list \<Rightarrow> jsstr \<Rightarrow> ScopeOptions" where
  "scopeOptions lower scopes query = (let filtered = filterOptions lower (map scp_name scopes) query DEFAULT_LIMIT; typed = trim query in
     \<lparr>so_matched = concat (map (\<lambda>name. case by_name scopes name of Some s \<Rightarrow> [s] | None \<Rightarrow> []) (fr_items filtered)),
      so_hidden = fr_hidden filtered,
      so_typed = (if typed \<noteq> [] \<and> by_name scopes typed = None then typed else [])\<rparr>)"

definition scopeKeys :: "jsstr \<Rightarrow> jsstr \<Rightarrow> jsstr list" where
  "scopeKeys kind key = (let shared = u ''shell.scope.'' @ key in
     if kind = [] then [shared] else [u ''mq.'' @ kind @ u ''.scope.'' @ key, shared])"

text \<open>The typed name is offered on its own exactly when no scope has it; what matched are scopes of the listing.\<close>

lemma typed_is_new:
  "so_typed (scopeOptions lower scopes query) = (if trim query \<notin> scp_name ` set scopes then trim query else [])"
proof -
  have "by_name scopes x = None \<longleftrightarrow> x \<notin> scp_name ` set scopes" for x
    by (simp add: by_name_def map_of_eq_None_iff image_image)
  then show ?thesis by (simp add: scopeOptions_def Let_def)
qed

lemma matched_listed: "set (so_matched (scopeOptions lower scopes query)) \<subseteq> set scopes"
proof -
  have "by_name scopes x = Some s \<Longrightarrow> s \<in> set scopes" for x s
    using map_of_SomeD [of "rev (map (\<lambda>s. (scp_name s, s)) scopes)" x s] by (auto simp: by_name_def)
  then show ?thesis by (auto simp: scopeOptions_def Let_def split: option.splits)
qed

end
