(* ===== verification/Board_Data.thy ===== *)
theory Board_Data
  imports Navigation Runs
begin

text \<open>
  How a page reads its connection (\<open>hooks/useBrokerData.ts\<close>, which ninety hooks are made of) and how
  the shell learns what a connection can do (the request of \<open>mq/capabilities.ts\<close>). \<open>'q\<close> is what a
  request is for - the connection and the stable \<open>load\<close> - and \<open>None\<close> that the page asks nothing (it is
  disabled, offline or on no connection). \<open>answers q d\<close>: the service may answer \<open>d\<close> to \<open>q\<close>.
\<close>

section \<open>One page\<close>

record ('q, 'd) board =
  bd_query :: "'q option"
  bd_data :: "'d option"
  bd_loading :: bool
  bd_refreshing :: bool
  bd_error :: "jsstr option"
  bd_generation :: nat

text \<open>A request carries the generation it was sent in.\<close>

definition run_query :: "bool \<Rightarrow> 'q option \<Rightarrow> ('q, 'd) board \<Rightarrow> ('q, 'd) board \<times> (nat \<times> 'q) list" where
  "run_query silent q b = (case q of None \<Rightarrow> (b, [])
   | Some c \<Rightarrow> (let b = b\<lparr>bd_generation := bd_generation b + 1\<rparr>; b = (if silent then b\<lparr>bd_refreshing := True\<rparr> else b) in
       (b, [(bd_generation b, c)])))"

definition query_effect :: "'q option \<Rightarrow> ('q, 'd) board \<Rightarrow> ('q, 'd) board \<times> (nat \<times> 'q) list" where
  "query_effect q b = (let b = b\<lparr>bd_query := q, bd_generation := bd_generation b + 1, bd_data := None, bd_error := None,
       bd_refreshing := False\<rparr> in
     if q = None then (b\<lparr>bd_loading := False\<rparr>, []) else run_query False q (b\<lparr>bd_loading := True\<rparr>))"

definition board_reply :: "nat \<Rightarrow> jsstr + 'd \<Rightarrow> ('q, 'd) board \<Rightarrow> ('q, 'd) board" where
  "board_reply current result b =
    (if current \<noteq> bd_generation b then b
     else (case result of Inr next \<Rightarrow> b\<lparr>bd_data := Some next, bd_error := None\<rparr>
         | Inl failure \<Rightarrow> b\<lparr>bd_error := Some failure, bd_data := None\<rparr>)
       \<lparr>bd_loading := False, bd_refreshing := False\<rparr>)"

definition mounted_board :: "('q, 'd) board" where
  "mounted_board = \<lparr>bd_query = None, bd_data = None, bd_loading = True, bd_refreshing = False, bd_error = None, bd_generation = 0\<rparr>"

section \<open>The page and its requests\<close>

record ('q, 'd) board_sys =
  bs_board :: "('q, 'd) board"
  bs_requests :: "(nat \<times> 'q) list"

definition open_board :: "'q option \<Rightarrow> ('q, 'd) board_sys" where
  "open_board q = (case query_effect q mounted_board of (b, reqs) \<Rightarrow> \<lparr>bs_board = b, bs_requests = reqs\<rparr>)"

text \<open>
  \<open>Refresh q\<close> is a call of a \<open>refresh\<close> that was made in a render for \<open>q\<close>, which need not be the last one;
  the timer always runs the last.
\<close>

datatype 'q board_action = Query "'q option" | Refresh "'q option" | RefreshTimer | Reply nat

inductive board_step :: "('q \<Rightarrow> 'd \<Rightarrow> bool) \<Rightarrow> 'q board_action \<Rightarrow> ('q, 'd) board_sys \<Rightarrow> ('q, 'd) board_sys \<Rightarrow> bool"
  for answers where
  query: "query_effect q (bs_board s) = (b, reqs) \<Longrightarrow>
     board_step answers (Query q) s (s\<lparr>bs_board := b, bs_requests := bs_requests s @ reqs\<rparr>)"
| refresh: "run_query True q (bs_board s) = (b, reqs) \<Longrightarrow>
     board_step answers (Refresh q) s (s\<lparr>bs_board := b, bs_requests := bs_requests s @ reqs\<rparr>)"
| timer: "run_query True (bd_query (bs_board s)) (bs_board s) = (b, reqs) \<Longrightarrow>
     board_step answers RefreshTimer s (s\<lparr>bs_board := b, bs_requests := bs_requests s @ reqs\<rparr>)"
| reply: "i < length (bs_requests s) \<Longrightarrow> bs_requests s ! i = (g, q) \<Longrightarrow> (case result of Inr d \<Rightarrow> answers q d | Inl _ \<Rightarrow> True) \<Longrightarrow>
     board_step answers (Reply i) s (s\<lparr>bs_board := board_reply g result (bs_board s),
       bs_requests := take i (bs_requests s) @ drop (Suc i) (bs_requests s)\<rparr>)"

definition current_refresh :: "'q board_action \<Rightarrow> ('q, 'd) board_sys \<Rightarrow> bool" where
  "current_refresh a s \<longleftrightarrow> (case a of Refresh q \<Rightarrow> q = bd_query (bs_board s) | _ \<Rightarrow> True)"

text \<open>Requests of the current generation are for the current query, and what is waited for is under way.\<close>

definition board_ok :: "('q \<Rightarrow> 'd \<Rightarrow> bool) \<Rightarrow> ('q, 'd) board_sys \<Rightarrow> bool" where
  "board_ok answers s \<longleftrightarrow> (let b = bs_board s in
     (\<forall>(g, q) \<in> set (bs_requests s). g \<le> bd_generation b \<and> (g = bd_generation b \<longrightarrow> bd_query b = Some q))
     \<and> (\<forall>d. bd_data b = Some d \<longrightarrow> (\<exists>q. bd_query b = Some q \<and> answers q d))
     \<and> (bd_query b = None \<longrightarrow> bd_data b = None \<and> bd_error b = None \<and> \<not> bd_loading b \<and> \<not> bd_refreshing b)
     \<and> (bd_loading b \<or> bd_refreshing b \<or> bd_query b \<noteq> None \<and> bd_data b = None \<and> bd_error b = None
         \<longrightarrow> bd_generation b \<in> fst ` set (bs_requests s)))"

lemma run_query_ok:
  assumes "board_ok answers s" and "run_query True (bd_query (bs_board s)) (bs_board s) = (b, reqs)"
  shows "board_ok answers (s\<lparr>bs_board := b, bs_requests := bs_requests s @ reqs\<rparr>)"
  using assms by (cases "bd_query (bs_board s)") (fastforce simp: board_ok_def run_query_def Let_def)+

lemma query_effect_ok:
  assumes "\<forall>(g, q) \<in> set (bs_requests s). g \<le> bd_generation (bs_board s)" and "query_effect q (bs_board s) = (b, reqs)"
  shows "board_ok answers (s\<lparr>bs_board := b, bs_requests := bs_requests s @ reqs\<rparr>)"
  using assms by (cases q) (fastforce simp: board_ok_def query_effect_def run_query_def Let_def)+

lemma without_others:
  "(g', q') \<in> set (take i xs @ drop (Suc i) xs) \<Longrightarrow> (g', q') \<in> set xs"
  "i < length xs \<Longrightarrow> x \<in> set xs \<Longrightarrow> x \<noteq> xs ! i \<Longrightarrow> x \<in> set (take i xs @ drop (Suc i) xs)"
proof -
  show "(g', q') \<in> set (take i xs @ drop (Suc i) xs) \<Longrightarrow> (g', q') \<in> set xs" by (auto dest: in_set_takeD in_set_dropD)
  assume i: "i < length xs" and x: "x \<in> set xs" and d: "x \<noteq> xs ! i"
  have "x \<in> set (take i xs @ xs ! i # drop (Suc i) xs)" using x by (simp only: id_take_nth_drop [OF i, symmetric])
  then show "x \<in> set (take i xs @ drop (Suc i) xs)" using d by simp
qed

lemma reply_ok:
  assumes "board_ok answers s" and "i < length (bs_requests s)" and "bs_requests s ! i = (g, q)"
    and "case result of Inr d \<Rightarrow> answers q d | Inl _ \<Rightarrow> True"
  shows "board_ok answers (s\<lparr>bs_board := board_reply g result (bs_board s),
     bs_requests := take i (bs_requests s) @ drop (Suc i) (bs_requests s)\<rparr>)"
proof -
  let ?b = "bs_board s" and ?r = "take i (bs_requests s) @ drop (Suc i) (bs_requests s)"
  have mem: "(g, q) \<in> set (bs_requests s)" using nth_mem [OF assms(2)] assms(3) by simp
  have old: "\<forall>(g, q) \<in> set (bs_requests s). g \<le> bd_generation ?b \<and> (g = bd_generation ?b \<longrightarrow> bd_query ?b = Some q)"
    using assms(1) by (simp add: board_ok_def Let_def)
  have sub: "\<forall>(g, q) \<in> set ?r. g \<le> bd_generation ?b \<and> (g = bd_generation ?b \<longrightarrow> bd_query ?b = Some q)"
    using old without_others(1) [of _ _ i "bs_requests s"] by blast
  show ?thesis
  proof (cases "g = bd_generation ?b")
    case True
    then have "bd_query ?b = Some q" using assms(1) mem by (auto simp: board_ok_def Let_def)
    then show ?thesis using True sub assms(4) by (cases result) (auto simp: board_ok_def board_reply_def Let_def)
  next
    case False
    have "bd_generation ?b \<in> fst ` set ?r" if m: "bd_generation ?b \<in> fst ` set (bs_requests s)"
    proof -
      obtain q' where "(bd_generation ?b, q') \<in> set (bs_requests s)" using m by auto
      then have "(bd_generation ?b, q') \<in> set ?r" using False assms(3) by (intro without_others(2) [OF assms(2)]) auto
      then show ?thesis by force
    qed
    then show ?thesis using assms(1) sub False by (auto simp: board_ok_def board_reply_def Let_def)
  qed
qed

lemma board_ok_step:
  assumes "board_step answers a s s'" and "current_refresh a s" and "board_ok answers s"
  shows "board_ok answers s'"
  using assms(1)
proof (cases rule: board_step.cases)
  case (query q b reqs)
  have "\<forall>(g, q) \<in> set (bs_requests s). g \<le> bd_generation (bs_board s)" using assms(3) by (auto simp: board_ok_def Let_def)
  then show ?thesis unfolding query(2) using query(3) by (rule query_effect_ok)
next
  case (refresh q b reqs)
  then show ?thesis using run_query_ok [OF assms(3)] assms(2) by (simp add: current_refresh_def)
next
  case (timer b reqs)
  then show ?thesis using run_query_ok [OF assms(3)] by simp
next
  case (reply i g q result)
  then show ?thesis using reply_ok [OF assms(3)] by blast
qed

text \<open>
  C12: As long as every \<open>refresh\<close> that is called is the one of the render for the query the page now has, what a
  page shows was answered to what it now asks, whatever the order of the answers and however often the
  connection, the query or the timer intervene; and once every request is answered it no longer loads or
  refreshes, and shows data or an error exactly when it asks for something. (A \<open>refresh\<close> kept from an
  earlier render shows another query's answer: \<open>kept_refresh_shows_other\<close>.)
\<close>

theorem shown_data_is_current:
  assumes "run (board_step answers) current_refresh (open_board q0) s"
  shows "(\<forall>d. bd_data (bs_board s) = Some d \<longrightarrow> (\<exists>q. bd_query (bs_board s) = Some q \<and> answers q d))
    \<and> (bs_requests s = [] \<longrightarrow> \<not> bd_loading (bs_board s) \<and> \<not> bd_refreshing (bs_board s)
        \<and> (bd_query (bs_board s) \<noteq> None \<longleftrightarrow> bd_data (bs_board s) \<noteq> None \<or> bd_error (bs_board s) \<noteq> None))"
proof -
  obtain b reqs where e: "query_effect q0 (mounted_board :: ('a, 'b) board) = (b, reqs)" by fastforce
  have "board_ok answers (open_board q0)"
    using query_effect_ok [of "\<lparr>bs_board = mounted_board, bs_requests = []\<rparr>" q0 b reqs answers] e by (simp add: open_board_def)
  with assms have "board_ok answers s"
    by (rule run_invariant) (rule board_ok_step)
  then show ?thesis by (auto simp: board_ok_def Let_def)
qed

text \<open>Played out on concrete steps: the service answers to each query its own number.\<close>

definition replied :: "nat \<Rightarrow> ('q, 'd) board_sys \<Rightarrow> jsstr + 'd \<Rightarrow> ('q, 'd) board_sys" where
  "replied i s result = s\<lparr>bs_board := board_reply (fst (bs_requests s ! i)) result (bs_board s),
     bs_requests := take i (bs_requests s) @ drop (Suc i) (bs_requests s)\<rparr>"

lemma replied_step:
  "i < length (bs_requests s) \<Longrightarrow> (case result of Inr d \<Rightarrow> answers (snd (bs_requests s ! i)) d | Inl _ \<Rightarrow> True) \<Longrightarrow>
     board_step answers (Reply i) s (replied i s result)"
  unfolding replied_def by (rule board_step.reply [where q = "snd (bs_requests s ! i)"]) auto

lemma mounted_one: "open_board (Some (10 :: nat)) =
  \<lparr>bs_board = \<lparr>bd_query = Some 10, bd_data = (None :: nat option), bd_loading = True, bd_refreshing = False, bd_error = None, bd_generation = 2\<rparr>,
   bs_requests = [(2, 10)]\<rparr>"
  by (simp add: open_board_def query_effect_def run_query_def mounted_board_def Let_def)

definition two_shown :: "(nat, nat) board_sys" where
  "two_shown = \<lparr>bs_board = \<lparr>bd_query = Some 20, bd_data = Some 20, bd_loading = False, bd_refreshing = False, bd_error = None, bd_generation = 4\<rparr>,
     bs_requests = []\<rparr>"

text \<open>The query changes from ten to twenty, and the answers arrive the wrong way round.\<close>

lemma two_shown_run: "run (board_step (=)) current_refresh (open_board (Some 10)) two_shown"
proof -
  let ?s1 = "\<lparr>bs_board = \<lparr>bd_query = Some 20, bd_data = None, bd_loading = True, bd_refreshing = False, bd_error = None, bd_generation = 4\<rparr>,
     bs_requests = [(2, 10), (4, 20)]\<rparr> :: (nat, nat) board_sys"
  have "board_step (=) (Query (Some 20)) (open_board (Some 10)) ?s1"
    using board_step.query [of "Some 20" "open_board (Some 10)" "bs_board ?s1" "[(4, 20)]" "(=)"]
    by (simp add: mounted_one query_effect_def run_query_def Let_def)
  moreover have "board_step (=) (Reply 1) ?s1 (replied 1 ?s1 (Inr 20))" by (rule replied_step) auto
  moreover have "board_step (=) (Reply 0) (replied 1 ?s1 (Inr 20)) (replied 0 (replied 1 ?s1 (Inr 20)) (Inr 10))"
    by (rule replied_step) (auto simp: replied_def)
  moreover have "replied 0 (replied 1 ?s1 (Inr 20)) (Inr 10) = two_shown"
    by (simp add: replied_def board_reply_def two_shown_def)
  ultimately show ?thesis
    by (auto intro!: run_step [OF run_step [OF run_step [OF run_refl]]] simp: current_refresh_def)
qed

theorem shown_data_is_current_witness:
  "bs_requests two_shown = [] \<and> bd_data (bs_board two_shown) = Some 20 \<and> \<not> bd_loading (bs_board two_shown)"
proof -
  have "bs_requests two_shown = []" "bd_data (bs_board two_shown) = Some 20" by (simp_all add: two_shown_def)
  then show ?thesis using shown_data_is_current [OF two_shown_run] by simp
qed

text \<open>
  A \<open>refresh\<close> kept from an earlier render - a board that awaits a change and then refreshes - asks the
  earlier query in the newest generation, so the page ends up showing what it no longer asks for.
\<close>

lemma kept_refresh_shows_other:
  assumes "run_query True (Some 10) (bs_board two_shown) = (b, reqs)"
  shows "bd_query (board_reply 5 (Inr 10) b) = Some 20 \<and> bd_data (board_reply 5 (Inr 10) b) = Some 10 \<and> reqs = [(5, 10)]"
  using assms by (auto simp: run_query_def two_shown_def board_reply_def Let_def)

section \<open>What the connection can do\<close>

text \<open>
  \<open>cancelled\<close> is one flag for all effects: the cleanup of an effect sets it and the next effect clears it
  again, so an answer to an earlier connection finds it cleared.
\<close>

record capability_hook =
  ch_scope :: "int \<times> bool"
  ch_capabilities :: Capabilities
  ch_loading :: bool
  ch_cancelled :: bool

definition capability_cleanup :: "capability_hook \<Rightarrow> capability_hook" where
  "capability_cleanup h = h\<lparr>ch_cancelled := True\<rparr>"

definition capability_effect :: "int \<times> bool \<Rightarrow> capability_hook \<Rightarrow> capability_hook \<times> int list" where
  "capability_effect scope h = (let h = h\<lparr>ch_scope := scope, ch_cancelled := False, ch_loading := True\<rparr> in
     if fst scope = 0 \<or> \<not> snd scope then (h\<lparr>ch_capabilities := empty_capabilities, ch_loading := False\<rparr>, [])
     else (h, [fst scope]))"

definition capability_answer :: "Capabilities option \<Rightarrow> capability_hook \<Rightarrow> capability_hook" where
  "capability_answer reply h = (if ch_cancelled h then h
     else h\<lparr>ch_capabilities := nullish reply empty_capabilities, ch_loading := False\<rparr>)"

definition new_capability_hook :: capability_hook where
  "new_capability_hook = \<lparr>ch_scope = (0, False), ch_capabilities = empty_capabilities, ch_loading = True, ch_cancelled = False\<rparr>"

definition switch_scope :: "int \<times> bool \<Rightarrow> capability_hook \<Rightarrow> capability_hook \<times> int list" where
  "switch_scope scope h = capability_effect scope (capability_cleanup h)"

definition hook_state :: "capability_hook \<Rightarrow> CapabilityState" where
  "hook_state h = useCapabilityState (ch_capabilities h) (ch_loading h)"

lemma capability_answered:
  "fst scope \<noteq> 0 \<Longrightarrow> snd scope \<Longrightarrow>
     ch_capabilities (capability_answer (Some caps) (fst (switch_scope scope h))) = caps
     \<and> \<not> ch_loading (capability_answer (Some caps) (fst (switch_scope scope h)))"
  by (simp add: switch_scope_def capability_effect_def capability_answer_def Let_def)

text \<open>
  After a switch from connection 1 to 2, the answer for 1 arriving last leaves 2 with what 1 can do: a
  page only 2 has is hidden.
\<close>

lemma late_capabilities_win:
  assumes "two = capability_answer (Some caps2) (fst (switch_scope (2, True) (fst (switch_scope (1, True) new_capability_hook))))"
    and "shown = capability_answer (Some caps1) two"
  shows "ch_scope shown = (2, True) \<and> ch_capabilities two = caps2 \<and> ch_capabilities shown = caps1"
  using assms by (simp add: switch_scope_def capability_effect_def capability_answer_def capability_cleanup_def Let_def)

lemma late_capabilities_hide:
  assumes "two = capability_answer (Some \<lparr>cap_supported = [CapDLQ], cap_degraded = [], cap_caveats = []\<rparr>)
      (fst (switch_scope (2, True) (fst (switch_scope (1, True) new_capability_hook))))"
    and "shown = capability_answer (Some \<lparr>cap_supported = [], cap_degraded = [], cap_caveats = []\<rparr>) two"
  shows "nav_visible (hook_state two) True PageDlq \<and> \<not> nav_visible (hook_state shown) True PageDlq"
  using assms
  by (simp add: switch_scope_def capability_effect_def capability_answer_def capability_cleanup_def hook_state_def nav_visible_def
    alwaysAvailable_def asked_def known_cap_def Let_def)

end
