(* ===== verification/Message_Tail.thy ===== *)
theory Message_Tail
  imports Message_Body Runs
begin

text \<open>
  The live tail of a topic: the hook that polls (\<open>hooks/useMessageTail.ts\<close>) and the driver that answers
  (\<open>TailMessages\<close> of \<open>internal/driver/rocketmq/message_tail.go\<close>, the family whose board has the switch).
  A broker keeps one log per queue; \<open>tp_min\<close> is the oldest offset it still has. The calls to the broker
  are parameters: which queues the route names, where each ends, and what \<open>PullMessage\<close> of
  \<open>rocketmq-admin-go\<close> brings, with what it is documented to bring as \<open>pull_ok\<close>. Offsets are in the range of
  \<open>int64\<close>.
\<close>

type_synonym queue_key = "jsstr \<times> int"

record 'm stored =
  sm_queue :: queue_key
  sm_offset :: int
  sm_time :: int
  sm_body :: 'm

record 'm topic =
  tp_log :: "queue_key \<Rightarrow> (int \<times> 'm) list"
  tp_min :: "queue_key \<Rightarrow> int"

definition stored_at :: "'m topic \<Rightarrow> queue_key \<Rightarrow> int \<Rightarrow> 'm stored" where
  "stored_at tp q i = \<lparr>sm_queue = q, sm_offset = i, sm_time = fst (tp_log tp q ! nat i), sm_body = snd (tp_log tp q ! nat i)\<rparr>"

text \<open>The messages of a queue from one offset up to, but not at, another.\<close>

definition slice_of :: "'m topic \<Rightarrow> queue_key \<Rightarrow> int \<Rightarrow> int \<Rightarrow> 'm stored list" where
  "slice_of tp q a b = map (stored_at tp q) [a..b - 1]"

section \<open>The driver\<close>

record QueuePosition =
  qp_node :: jsstr
  qp_queueId :: int
  qp_offset :: int

type_synonym TailCursor = "QueuePosition list"

record 'm TailBatch =
  tb_messages :: "'m stored list"
  tb_cursor :: TailCursor
  tb_dropped :: int

record 'm pulled =
  pl_messages :: "'m stored list"
  pl_next :: int
  pl_min :: int

definition position_key :: "QueuePosition \<Rightarrow> queue_key" where
  "position_key p = (qp_node p, qp_queueId p)"

definition position_at :: "queue_key \<Rightarrow> int \<Rightarrow> QueuePosition" where
  "position_at q offset = \<lparr>qp_node = fst q, qp_queueId = snd q, qp_offset = offset\<rparr>"

definition known_offsets :: "TailCursor \<Rightarrow> queue_key \<Rightarrow> int option" where
  "known_offsets cursor = map_of (map (\<lambda>p. (position_key p, qp_offset p)) (rev cursor))"

text \<open>Go compares strings by their bytes.\<close>

fun bytes_less :: "int list \<Rightarrow> int list \<Rightarrow> bool" where
  "bytes_less _ [] \<longleftrightarrow> False"
| "bytes_less [] (b # bs) \<longleftrightarrow> True"
| "bytes_less (a # as) (b # bs) \<longleftrightarrow> a < b \<or> a = b \<and> bytes_less as bs"

definition position_cmp :: "QueuePosition \<Rightarrow> QueuePosition \<Rightarrow> int" where
  "position_cmp a b = (if qp_node a \<noteq> qp_node b then (if bytes_less (encode (qp_node a)) (encode (qp_node b)) then - 1 else 1)
     else qp_queueId a - qp_queueId b)"

definition sortPositions :: "QueuePosition list \<Rightarrow> QueuePosition list" where
  "sortPositions positions = sort_by position_cmp positions"

text \<open>Where a queue stands: its place in the new cursor, or that it has to be pulled from an offset.\<close>

datatype queue_place = NotListed | Stays int | Behind int

definition place_of :: "TailCursor \<Rightarrow> (queue_key \<Rightarrow> int option) \<Rightarrow> queue_key \<Rightarrow> queue_place" where
  "place_of cursor ends q = (case (if cursor = [] then None else known_offsets cursor q) of
     None \<Rightarrow> (case ends q of None \<Rightarrow> NotListed | Some e \<Rightarrow> Stays e)
   | Some from \<Rightarrow> if nullish (ends q) 0 \<le> from then Stays from else Behind from)"

definition stay_positions :: "TailCursor \<Rightarrow> (queue_key \<Rightarrow> int option) \<Rightarrow> queue_key list \<Rightarrow> QueuePosition list" where
  "stay_positions cursor ends queues = concat (map (\<lambda>q. case place_of cursor ends q of Stays i \<Rightarrow> [position_at q i] | _ \<Rightarrow> []) queues)"

definition queues_behind :: "TailCursor \<Rightarrow> (queue_key \<Rightarrow> int option) \<Rightarrow> queue_key list \<Rightarrow> (queue_key \<times> int) list" where
  "queues_behind cursor ends queues = concat (map (\<lambda>q. case place_of cursor ends q of Behind i \<Rightarrow> [(q, i)] | _ \<Rightarrow> []) queues)"

text \<open>One pull: the messages, the next offset, what was dropped; a failed one keeps its place.\<close>

definition pull_result :: "'m pulled option \<Rightarrow> int \<Rightarrow> 'm stored list \<times> int \<times> int" where
  "pull_result returned i = (case returned of None \<Rightarrow> ([], i, 0)
   | Some r \<Rightarrow> (pl_messages r, if pl_next r < i then i else pl_next r, if i < pl_min r then pl_min r - i else 0))"

definition TailMessages :: "queue_key list \<Rightarrow> (queue_key \<Rightarrow> int option) \<Rightarrow> (queue_key \<Rightarrow> int \<Rightarrow> int \<Rightarrow> 'm pulled option)
    \<Rightarrow> TailCursor \<Rightarrow> int \<Rightarrow> 'm TailBatch option" where
  "TailMessages queues ends pull cursor limit0 =
    (let limit = (if limit0 \<le> 0 then 64 else limit0); behind = queues_behind cursor ends queues; stay = stay_positions cursor ends queues in
     if behind = [] then Some \<lparr>tb_messages = [], tb_cursor = sortPositions stay, tb_dropped = 0\<rparr>
     else let perQueue = max 1 (limit div int (length behind));
              results = map (\<lambda>(q, i). (q, pull q i perQueue, pull_result (pull q i perQueue) i)) behind in
       if list_all (\<lambda>(q, returned, r). returned = None) results then None
       else Some \<lparr>tb_messages = sort_key sm_time (concat (map (\<lambda>(q, returned, ms, i, d). ms) results)),
         tb_cursor = sortPositions (stay @ map (\<lambda>(q, returned, ms, i, d). position_at q i) results),
         tb_dropped = sum_list (map (\<lambda>(q, returned, ms, i, d). d) results)\<rparr>)"

text \<open>
  What \<open>PullMessage\<close> brings: from the offset asked, or the oldest there is, a stretch of the log no
  longer than asked, the offset after it and the oldest offset.
\<close>

definition pull_ok :: "'m topic \<Rightarrow> (queue_key \<Rightarrow> int \<Rightarrow> int \<Rightarrow> 'm pulled option) \<Rightarrow> bool" where
  "pull_ok tp pull \<longleftrightarrow> (\<forall>q i n r. pull q i n = Some r \<longrightarrow> (\<exists>k. 0 \<le> k \<and> k \<le> n
     \<and> r = \<lparr>pl_messages = slice_of tp q (max i (tp_min tp q)) (max i (tp_min tp q) + k),
           pl_next = max i (tp_min tp q) + k, pl_min = tp_min tp q\<rparr>
     \<and> max i (tp_min tp q) + k \<le> int (length (tp_log tp q))))"

definition ends_ok :: "'m topic \<Rightarrow> (queue_key \<Rightarrow> int option) \<Rightarrow> bool" where
  "ends_ok tp ends \<longleftrightarrow> (\<forall>q e. ends q = Some e \<longrightarrow> e = int (length (tp_log tp q)))"

section \<open>The hook\<close>

definition TAIL_BUFFER :: nat where "TAIL_BUFFER = 500"

record 'm tail =
  tl_messages :: "'m stored list"
  tl_dropped :: int
  tl_running :: bool
  tl_error :: "jsstr option"
  tl_cursor :: TailCursor
  tl_inFlight :: bool
  tl_connID :: int
  tl_online :: bool
  tl_topic :: jsstr
  tl_effect :: nat

text \<open>A poll carries the number of the effect it belongs to; \<open>cancelled\<close> is that the effect is no longer the last.\<close>

record poll =
  po_effect :: nat
  po_connID :: int
  po_topic :: jsstr
  po_cursor :: TailCursor

definition new_tail :: "int \<Rightarrow> bool \<Rightarrow> jsstr \<Rightarrow> 'm tail" where
  "new_tail connID online topic = \<lparr>tl_messages = [], tl_dropped = 0, tl_running = False, tl_error = None, tl_cursor = [],
     tl_inFlight = False, tl_connID = connID, tl_online = online, tl_topic = topic, tl_effect = 0\<rparr>"

definition tail_clear :: "'m tail \<Rightarrow> 'm tail" where
  "tail_clear t = t\<lparr>tl_cursor := [], tl_messages := [], tl_dropped := 0, tl_error := None\<rparr>"

definition tail_poll :: "'m tail \<Rightarrow> 'm tail \<times> poll list" where
  "tail_poll t = (if tl_inFlight t then (t, [])
     else (t\<lparr>tl_inFlight := True\<rparr>,
       [\<lparr>po_effect = tl_effect t, po_connID = tl_connID t, po_topic = tl_topic t, po_cursor = tl_cursor t\<rparr>]))"

definition tail_active :: "'m tail \<Rightarrow> bool" where
  "tail_active t \<longleftrightarrow> tl_running t \<and> tl_topic t \<noteq> [] \<and> tl_online t"

definition poll_effect :: "'m tail \<Rightarrow> 'm tail \<times> poll list" where
  "poll_effect t = (let t = t\<lparr>tl_effect := tl_effect t + 1\<rparr> in if tail_active t then tail_poll t else (t, []))"

definition tail_timer :: "'m tail \<Rightarrow> 'm tail \<times> poll list" where
  "tail_timer t = (if tail_active t then tail_poll t else (t, []))"

definition tail_stop :: "'m tail \<Rightarrow> 'm tail \<times> poll list" where
  "tail_stop t = (if tl_running t then poll_effect (t\<lparr>tl_running := False\<rparr>) else (t, []))"

definition tail_start :: "'m tail \<Rightarrow> 'm tail \<times> poll list" where
  "tail_start t = (let t = tail_clear t in if tl_running t then (t, []) else poll_effect (t\<lparr>tl_running := True\<rparr>))"

text \<open>
  A new scope. When the topic or the connection changed the first effect clears and asks to stop; the
  second still sees the tail running, and is torn down by the render that follows.
\<close>

definition tail_scope :: "int \<Rightarrow> bool \<Rightarrow> jsstr \<Rightarrow> 'm tail \<Rightarrow> 'm tail \<times> poll list" where
  "tail_scope connID online topic t = (let t' = t\<lparr>tl_connID := connID, tl_online := online, tl_topic := topic\<rparr> in
     if (connID, topic) \<noteq> (tl_connID t, tl_topic t)
     then (let r = poll_effect (tail_clear t') in (fst (tail_stop (fst r)), snd r))
     else if online \<noteq> tl_online t then poll_effect t' else (t', []))"

definition tail_answer :: "poll \<Rightarrow> jsstr + 'm TailBatch \<Rightarrow> 'm tail \<Rightarrow> 'm tail" where
  "tail_answer p result t =
    (if po_effect p \<noteq> tl_effect t then t
     else case result of
       Inl failure \<Rightarrow> t\<lparr>tl_error := Some failure\<rparr>
     | Inr batch \<Rightarrow> t\<lparr>tl_cursor := tb_cursor batch, tl_error := None,
         tl_dropped := (if 0 < tb_dropped batch then tl_dropped t + tb_dropped batch else tl_dropped t),
         tl_messages := (if tb_messages batch = [] then tl_messages t
           else take TAIL_BUFFER (rev (tb_messages batch) @ tl_messages t))\<rparr>)\<lparr>tl_inFlight := False\<rparr>"

section \<open>What one batch brings\<close>

definition cursor_ok :: "'m topic \<Rightarrow> TailCursor \<Rightarrow> bool" where
  "cursor_ok tp cursor \<longleftrightarrow> distinct (map position_key cursor)
     \<and> (\<forall>p \<in> set cursor. 0 \<le> qp_offset p \<and> qp_offset p \<le> int (length (tp_log tp (position_key p))))"

definition of_queue :: "queue_key \<Rightarrow> 'm stored list \<Rightarrow> 'm stored multiset" where
  "of_queue q ms = mset (filter (\<lambda>m. sm_queue m = q) ms)"

text \<open>
  A batch for a cursor: each queue of the cursor moves forward, and brings exactly the stretch it moved
  over unless something was dropped; a queue the cursor did not know brings nothing.
\<close>

definition tail_batch_ok :: "'m topic \<Rightarrow> TailCursor \<Rightarrow> 'm TailBatch \<Rightarrow> bool" where
  "tail_batch_ok tp cursor b \<longleftrightarrow> cursor_ok tp (tb_cursor b) \<and> 0 \<le> tb_dropped b
     \<and> (\<forall>q. known_offsets cursor q = None \<longrightarrow> of_queue q (tb_messages b) = {#})
     \<and> (\<forall>q c. known_offsets cursor q = Some c \<longrightarrow> (\<exists>c'. known_offsets (tb_cursor b) q = Some c' \<and> c \<le> c'
          \<and> (tb_dropped b = 0 \<longrightarrow> of_queue q (tb_messages b) = mset (slice_of tp q c c'))))"

lemma slice_of_empty [simp]: "slice_of tp q c c = []"
  by (simp add: slice_of_def)

lemma slice_of_queue: "m \<in> set (slice_of tp q a b) \<Longrightarrow> sm_queue m = q"
  by (auto simp: slice_of_def stored_at_def)

lemma of_queue_slice: "of_queue q (slice_of tp q' a b) = (if q = q' then mset (slice_of tp q' a b) else {#})"
proof -
  have "filter (\<lambda>m. sm_queue m = q) (slice_of tp q' a b) = (if q = q' then slice_of tp q' a b else [])"
    using slice_of_queue [of _ tp q' a b] by (auto simp: filter_empty_conv intro!: filter_True)
  then show ?thesis by (cases "q = q'") (simp_all add: of_queue_def del: mset_filter)
qed

lemma of_queue_append: "of_queue q (a @ b) = of_queue q a + of_queue q b"
  by (simp add: of_queue_def)

lemma of_queue_rev: "of_queue q (rev a) = of_queue q a"
  by (simp add: of_queue_def rev_filter [symmetric])

lemma of_queue_sort: "of_queue q (sort_key f a) = of_queue q a"
  by (simp add: of_queue_def mset_filter)

lemma slice_of_join:
  assumes "a \<le> b" and "b \<le> c"
  shows "slice_of tp q a c = slice_of tp q a b @ slice_of tp q b c"
proof -
  have "[a..c - 1] = [a..b - 1] @ [b..c - 1]" using assms upto_split1 [of a b "c - 1"] by (cases "b \<le> c - 1") auto
  then show ?thesis by (simp add: slice_of_def)
qed

lemma known_offsets_distinct:
  "distinct (map position_key cursor) \<Longrightarrow> known_offsets cursor = map_of (map (\<lambda>p. (position_key p, qp_offset p)) cursor)"
  unfolding known_offsets_def by (subst map_of_inject_set) (simp_all add: comp_def rev_map [symmetric])

text \<open>The places of a list of queues, gathered the way the two loops gather them.\<close>

definition placed :: "TailCursor \<Rightarrow> (queue_key \<Rightarrow> int option) \<Rightarrow> (queue_key \<Rightarrow> int \<Rightarrow> int) \<Rightarrow> queue_key \<Rightarrow> int option" where
  "placed cursor ends after q = (case place_of cursor ends q of NotListed \<Rightarrow> None | Stays i \<Rightarrow> Some i | Behind i \<Rightarrow> Some (after q i))"

definition placed_all :: "TailCursor \<Rightarrow> (queue_key \<Rightarrow> int option) \<Rightarrow> (queue_key \<Rightarrow> int \<Rightarrow> int) \<Rightarrow> queue_key list \<Rightarrow> QueuePosition list" where
  "placed_all cursor ends after queues =
     concat (map (\<lambda>q. case placed cursor ends after q of None \<Rightarrow> [] | Some i \<Rightarrow> [position_at q i]) queues)"

lemma position_key_at [simp]: "position_key (position_at q i) = q" "qp_offset (position_at q i) = i"
  by (simp_all add: position_key_def position_at_def)

lemma placed_mset:
  "mset (stay_positions cursor ends queues @ map (\<lambda>(q, i). position_at q (after q i)) (queues_behind cursor ends queues))
     = mset (placed_all cursor ends after queues)"
  by (induction queues) (simp_all add: stay_positions_def queues_behind_def placed_all_def placed_def split: queue_place.split)

lemma placed_keys: "set (map position_key (placed_all cursor ends after queues)) \<subseteq> set queues"
  by (auto simp: placed_all_def split: option.splits)

lemma placed_distinct: "distinct queues \<Longrightarrow> distinct (map position_key (placed_all cursor ends after queues))"
proof (induction queues)
  case (Cons q queues)
  then show ?case using placed_keys [of cursor ends after queues] by (auto simp: placed_all_def split: option.split)
qed (simp add: placed_all_def)

lemma placed_known:
  "distinct queues \<Longrightarrow> q \<in> set queues \<Longrightarrow>
     map_of (map (\<lambda>p. (position_key p, qp_offset p)) (placed_all cursor ends after queues)) q = placed cursor ends after q"
proof (induction queues)
  case (Cons x queues)
  have none: "map_of (map (\<lambda>p. (position_key p, qp_offset p)) (placed_all cursor ends after queues)) x = None"
    using Cons.prems(1) placed_keys [of cursor ends after queues] by (auto simp: map_of_eq_None_iff image_image)
  show ?case
    using Cons none by (cases "x = q") (auto simp: placed_all_def map_add_def split: option.split)
qed simp

lemma sorted_positions:
  assumes "mset P = mset (placed_all cursor ends after queues)" and "distinct queues"
  shows "distinct (map position_key (sortPositions P))" "set (sortPositions P) = set (placed_all cursor ends after queues)"
    "q \<in> set queues \<Longrightarrow> known_offsets (sortPositions P) q = placed cursor ends after q"
proof -
  have m: "mset (sortPositions P) = mset (placed_all cursor ends after queues)" using assms(1) by (simp add: sortPositions_def)
  then have "mset (map position_key (sortPositions P)) = mset (map position_key (placed_all cursor ends after queues))" by simp
  then show d: "distinct (map position_key (sortPositions P))" using placed_distinct [OF assms(2)] mset_eq_imp_distinct_iff by blast
  show st: "set (sortPositions P) = set (placed_all cursor ends after queues)" using m by (rule mset_eq_setD)
  have "map_of (map (\<lambda>p. (position_key p, qp_offset p)) (sortPositions P))
    = map_of (map (\<lambda>p. (position_key p, qp_offset p)) (placed_all cursor ends after queues))"
    using d placed_distinct [OF assms(2)] st by (subst map_of_inject_set) (simp_all add: comp_def)
  then show "q \<in> set queues \<Longrightarrow> known_offsets (sortPositions P) q = placed cursor ends after q"
    using placed_known [OF assms(2)] by (simp add: known_offsets_distinct [OF d])
qed

text \<open>What the pulls of the queues that are behind bring, queue by queue.\<close>

lemma of_queue_concat:
  assumes "distinct (map fst behind)" and "\<And>q i m. (q, i) \<in> set behind \<Longrightarrow> m \<in> set (f q i) \<Longrightarrow> sm_queue m = q"
  shows "of_queue q (concat (map (\<lambda>(q, i). f q i) behind)) = (case map_of behind q of None \<Rightarrow> {#} | Some i \<Rightarrow> mset (f q i))"
  using assms
proof (induction behind)
  case (Cons e behind)
  obtain x i where e: "e = (x, i)" by (cases e)
  have "filter (\<lambda>m. sm_queue m = q) (f x i) = (if q = x then f x i else [])"
    using Cons.prems(2) [of x i] by (auto simp: e filter_empty_conv intro!: filter_True)
  then have f: "of_queue q (f x i) = (if q = x then mset (f x i) else {#})" by (cases "q = x") (simp_all add: of_queue_def del: mset_filter)
  have "map_of behind x = None" using Cons.prems(1) by (auto simp: e map_of_eq_None_iff)
  moreover have "of_queue q (concat (map (\<lambda>(q, i). f q i) behind)) = (case map_of behind q of None \<Rightarrow> {#} | Some i \<Rightarrow> mset (f q i))"
    using Cons.prems by (intro Cons.IH) auto
  ultimately show ?case using f by (auto simp: e of_queue_append split: option.split)
qed (simp add: of_queue_def)

lemma behind_map: "distinct queues \<Longrightarrow>
  distinct (map fst (queues_behind cursor ends queues))
  \<and> (\<forall>q. map_of (queues_behind cursor ends queues) q
        = (if q \<in> set queues then (case place_of cursor ends q of Behind i \<Rightarrow> Some i | _ \<Rightarrow> None) else None))"
proof (induction queues)
  case (Cons x queues)
  have "fst ` set (queues_behind cursor ends queues) \<subseteq> set queues"
    by (auto simp: queues_behind_def split: queue_place.splits)
  then show ?case using Cons by (auto simp: queues_behind_def map_add_def split: queue_place.split option.split)
qed (simp add: queues_behind_def)

lemma pulled_facts:
  assumes "pull_ok tp pull" and "0 \<le> i" and "i \<le> int (length (tp_log tp q))" and "pull_result (pull q i n) i = (ms, j, d)"
  shows "i \<le> j \<and> j \<le> int (length (tp_log tp q)) \<and> 0 \<le> d \<and> (\<forall>m \<in> set ms. sm_queue m = q) \<and> (d = 0 \<longrightarrow> ms = slice_of tp q i j)"
proof (cases "pull q i n")
  case None
  then show ?thesis using assms by (simp add: pull_result_def)
next
  case (Some r)
  then obtain k where k: "0 \<le> k" "r = \<lparr>pl_messages = slice_of tp q (max i (tp_min tp q)) (max i (tp_min tp q) + k),
      pl_next = max i (tp_min tp q) + k, pl_min = tp_min tp q\<rparr>" "max i (tp_min tp q) + k \<le> int (length (tp_log tp q))"
    using assms(1) unfolding pull_ok_def by blast
  then have e: "ms = slice_of tp q (max i (tp_min tp q)) (max i (tp_min tp q) + k)" "j = max i (tp_min tp q) + k"
    "d = (if i < tp_min tp q then tp_min tp q - i else 0)"
    using assms(4) by (auto simp: pull_result_def Some split: if_splits)
  then show ?thesis using k slice_of_queue [of _ tp q] by (auto simp: max_def)
qed

lemma place_facts:
  assumes "place_of cursor ends q = place" and "cursor_ok tp cursor" and "ends_ok tp ends"
  shows "known_offsets cursor q = None \<Longrightarrow> (\<nexists>i. place = Behind i) \<and> (\<forall>i. place = Stays i \<longrightarrow> i = int (length (tp_log tp q)))"
    "known_offsets cursor q = Some c \<Longrightarrow> place \<in> {Stays c, Behind c}"
    "known_offsets cursor q = Some c \<Longrightarrow> 0 \<le> c \<and> c \<le> int (length (tp_log tp q))"
proof -
  have e: "ends q = Some x \<Longrightarrow> x = int (length (tp_log tp q))" for x using assms(3) unfolding ends_ok_def by blast
  have "known_offsets [] q = None" by (simp add: known_offsets_def)
  then show "known_offsets cursor q = None \<Longrightarrow> (\<nexists>i. place = Behind i) \<and> (\<forall>i. place = Stays i \<longrightarrow> i = int (length (tp_log tp q)))"
    "known_offsets cursor q = Some c \<Longrightarrow> place \<in> {Stays c, Behind c}"
    using assms(1) e by (auto simp: place_of_def split: option.splits if_splits)
  assume "known_offsets cursor q = Some c"
  then have "(q, c) \<in> set (map (\<lambda>p. (position_key p, qp_offset p)) cursor)"
    using assms(2) by (intro map_of_SomeD) (simp add: known_offsets_distinct cursor_ok_def)
  then show "0 \<le> c \<and> c \<le> int (length (tp_log tp q))" using assms(2) by (auto simp: cursor_ok_def)
qed

lemma TailMessages_ok:
  assumes "TailMessages queues ends pull cursor limit = Some b" and "pull_ok tp pull" and "ends_ok tp ends"
    and "distinct queues" and "set (map position_key cursor) \<subseteq> set queues" and "cursor_ok tp cursor"
  shows "tail_batch_ok tp cursor b"
proof -
  define behind where "behind = queues_behind cursor ends queues"
  define n where "n = max 1 ((if limit \<le> 0 then 64 else limit) div int (length behind))"
  define got where "got q i = pull_result (pull q i n) i" for q i
  define after where "after q i = fst (snd (got q i))" for q i
  have facts: "i \<le> after q i \<and> after q i \<le> int (length (tp_log tp q)) \<and> 0 \<le> snd (snd (got q i)) \<and> (\<forall>m \<in> set (fst (got q i)). sm_queue m = q)
      \<and> (snd (snd (got q i)) = 0 \<longrightarrow> fst (got q i) = slice_of tp q i (after q i))" if m: "place_of cursor ends q = Behind i" for q i
  proof -
    obtain c where "known_offsets cursor q = Some c" using place_facts(1) [OF m assms(6,3)] by (cases "known_offsets cursor q") auto
    then have "c = i" "0 \<le> i" "i \<le> int (length (tp_log tp q))"
      using place_facts(2,3) [OF m assms(6,3)] by auto
    then show ?thesis
      using pulled_facts [OF assms(2), of i q n "fst (got q i)" "after q i" "snd (snd (got q i))"] by (simp add: after_def got_def)
  qed
  note bm = behind_map [OF assms(4), of cursor ends, folded behind_def]
  have in_behind: "place_of cursor ends q = Behind i" if m: "(q, i) \<in> set behind" for q i
  proof -
    have "map_of behind q = Some i" using bm m by simp
    then show ?thesis using bm by (auto split: if_splits queue_place.splits)
  qed
  have b: "tb_messages b = sort_key sm_time (concat (map (\<lambda>(q, i). fst (got q i)) behind))"
    "tb_cursor b = sortPositions (stay_positions cursor ends queues @ map (\<lambda>(q, i). position_at q (after q i)) behind)"
    "tb_dropped b = sum_list (map (\<lambda>(q, i). snd (snd (got q i))) behind)"
    using assms(1) unfolding TailMessages_def behind_def [symmetric] Let_def n_def [symmetric]
    by (auto simp: got_def after_def case_prod_unfold comp_def split: if_splits)
  have pm: "mset (stay_positions cursor ends queues @ map (\<lambda>(q, i). position_at q (after q i)) behind) = mset (placed_all cursor ends after queues)"
    unfolding behind_def by (rule placed_mset)
  note sp = sorted_positions [OF pm assms(4), folded b(2)]
  have range: "0 \<le> i \<and> i \<le> int (length (tp_log tp q))" if "placed cursor ends after q = Some i" for q i
  proof (cases "place_of cursor ends q")
    case (Stays j)
    then show ?thesis using that place_facts [OF Stays assms(6,3)] by (cases "known_offsets cursor q") (auto simp: placed_def)
  next
    case (Behind j)
    then have "0 \<le> j" using place_facts [OF Behind assms(6,3)] by (cases "known_offsets cursor q") auto
    then show ?thesis using that facts [OF Behind] by (simp add: placed_def Behind)
  qed (use that in \<open>simp add: placed_def\<close>)
  have cur: "cursor_ok tp (tb_cursor b)"
    using sp(1,2) range by (auto simp: cursor_ok_def placed_all_def split: option.splits)
  have nonneg: "0 \<le> snd (snd (got q i))" if "(q, i) \<in> set behind" for q i using facts [OF in_behind [OF that]] by simp
  have dropped: "0 \<le> tb_dropped b" unfolding b(3) by (rule sum_list_nonneg) (auto simp: nonneg)
  have each: "snd (snd (got q i)) = 0" if "tb_dropped b = 0" "(q, i) \<in> set behind" for q i
  proof -
    have "\<forall>x \<in> set (map (\<lambda>(q, i). snd (snd (got q i))) behind). x = 0"
      using that(1) unfolding b(3) by (subst sum_list_nonneg_eq_0_iff [symmetric]) (auto simp: nonneg)
    then show ?thesis using that(2) by fastforce
  qed
  have msgs: "of_queue q (tb_messages b) = (case map_of behind q of None \<Rightarrow> {#} | Some i \<Rightarrow> mset (fst (got q i)))" for q
    unfolding b(1) of_queue_sort using bm facts in_behind by (intro of_queue_concat) blast+
  show ?thesis
    unfolding tail_batch_ok_def
  proof (intro conjI allI impI)
    fix q assume k: "known_offsets cursor q = None"
    then have "map_of behind q = None"
      using place_facts(1) [OF refl assms(6,3) k] conjunct2 [OF bm, THEN spec, of q] by (auto split: queue_place.split)
    then show "of_queue q (tb_messages b) = {#}" by (simp add: msgs)
  next
    fix q c assume k: "known_offsets cursor q = Some c"
    have q: "q \<in> set queues"
    proof -
      have "q \<in> fst ` set (map (\<lambda>p. (position_key p, qp_offset p)) cursor)"
        using k assms(6) by (force simp: known_offsets_distinct cursor_ok_def dest: map_of_SomeD)
      then show ?thesis using assms(5) by auto
    qed
    note pf = place_facts(2) [OF refl assms(6,3) k]
    show "\<exists>c'. known_offsets (tb_cursor b) q = Some c' \<and> c \<le> c' \<and> (tb_dropped b = 0 \<longrightarrow> of_queue q (tb_messages b) = mset (slice_of tp q c c'))"
    proof (cases "place_of cursor ends q")
      case (Behind i)
      then have "i = c" using pf by simp
      moreover have "map_of behind q = Some i" using conjunct2 [OF bm, THEN spec, of q] q Behind by simp
      ultimately show ?thesis
        using sp(3) [OF q] facts [OF Behind] each [of q i] map_of_SomeD [of behind q i] by (simp add: placed_def Behind msgs)
    qed (use pf conjunct2 [OF bm, THEN spec, of q] q sp(3) [OF q] in \<open>auto simp: placed_def msgs\<close>)
  qed (use cur dropped in simp_all)
qed

section \<open>What is shown\<close>

text \<open>
  Unless something was dropped, what was received of a queue is one stretch of its log, up to the cursor:
  no hole and no message twice.
\<close>

definition view_ok :: "'m topic \<Rightarrow> TailCursor \<Rightarrow> int \<Rightarrow> 'm stored list \<Rightarrow> bool" where
  "view_ok tp cursor dropped received \<longleftrightarrow> cursor_ok tp cursor \<and> 0 \<le> dropped \<and> (dropped = 0 \<longrightarrow>
     (\<forall>q. case known_offsets cursor q of None \<Rightarrow> of_queue q received = {#}
        | Some c \<Rightarrow> \<exists>base. 0 \<le> base \<and> base \<le> c \<and> of_queue q received = mset (slice_of tp q base c)))"

lemma cursor_ok_known:
  "cursor_ok tp cursor \<Longrightarrow> known_offsets cursor q = Some c \<Longrightarrow> 0 \<le> c \<and> c \<le> int (length (tp_log tp q))"
  using map_of_SomeD [of "map (\<lambda>p. (position_key p, qp_offset p)) cursor" q c] by (auto simp: known_offsets_distinct cursor_ok_def)

lemma view_ok_fresh: "cursor_ok tp cursor \<Longrightarrow> view_ok tp cursor 0 []"
  using cursor_ok_known [of tp cursor]
  by (auto simp: view_ok_def of_queue_def split: option.split) (metis order_refl slice_of_empty)

lemma take_take_append: "take n (xs @ take n ys) = take n (xs @ ys)"
  by simp

lemma view_ok_batch:
  assumes "view_ok tp cursor dropped received" and "tail_batch_ok tp cursor b"
  shows "view_ok tp (tb_cursor b) (dropped + tb_dropped b) (rev (tb_messages b) @ received)"
proof -
  have nn: "0 \<le> dropped" "0 \<le> tb_dropped b" "cursor_ok tp (tb_cursor b)" using assms by (simp_all add: view_ok_def tail_batch_ok_def)
  have "case known_offsets (tb_cursor b) q of None \<Rightarrow> of_queue q (rev (tb_messages b) @ received) = {#}
        | Some c \<Rightarrow> \<exists>base. 0 \<le> base \<and> base \<le> c \<and> of_queue q (rev (tb_messages b) @ received) = mset (slice_of tp q base c)"
    if z: "dropped + tb_dropped b = 0" for q
  proof -
    have d: "dropped = 0" "tb_dropped b = 0" using z nn by auto
    have all: "case known_offsets cursor q of None \<Rightarrow> of_queue q received = {#}
        | Some c \<Rightarrow> \<exists>base. 0 \<le> base \<and> base \<le> c \<and> of_queue q received = mset (slice_of tp q base c)"
      using assms(1) d(1) unfolding view_ok_def by blast
    show ?thesis
    proof (cases "known_offsets cursor q")
      case None
      then have "of_queue q (tb_messages b) = {#}" using assms(2) unfolding tail_batch_ok_def by blast
      moreover have "of_queue q received = {#}" using all None by simp
      ultimately show ?thesis
        using cursor_ok_known [OF nn(3), of q]
        by (auto simp: of_queue_append of_queue_rev split: option.split intro: exI [of _ "the (known_offsets (tb_cursor b) q)"])
    next
      case (Some c)
      then obtain c' where c': "known_offsets (tb_cursor b) q = Some c'" "c \<le> c'" "of_queue q (tb_messages b) = mset (slice_of tp q c c')"
        using assms(2) d(2) unfolding tail_batch_ok_def by blast
      obtain base where base: "0 \<le> base" "base \<le> c" "of_queue q received = mset (slice_of tp q base c)"
        using all Some by auto
      have "of_queue q (rev (tb_messages b) @ received) = mset (slice_of tp q base c')"
        using slice_of_join [OF base(2) c'(2), of tp q] base(3) c'(3) by (simp add: of_queue_append of_queue_rev)
      then show ?thesis using base c' by (auto intro!: exI [of _ base])
    qed
  qed
  then show ?thesis using nn by (simp add: view_ok_def)
qed

text \<open>Logs only grow at their end, which changes no stretch that was read.\<close>

definition log_grows :: "'m topic \<Rightarrow> 'm topic \<Rightarrow> bool" where
  "log_grows tp tp' \<longleftrightarrow> (\<forall>q. \<exists>new. tp_log tp' q = tp_log tp q @ new)"

lemma grows_length: "log_grows tp tp' \<Longrightarrow> length (tp_log tp q) \<le> length (tp_log tp' q)"
  by (metis log_grows_def length_append le_add1)

lemma grows_slice:
  assumes "log_grows tp tp'" and "0 \<le> a" and "b \<le> int (length (tp_log tp q))"
  shows "slice_of tp' q a b = slice_of tp q a b"
proof -
  obtain new where n: "tp_log tp' q = tp_log tp q @ new" using assms(1) unfolding log_grows_def by blast
  have "stored_at tp' q i = stored_at tp q i" if "i \<in> set [a..b - 1]" for i
    using that assms(2,3) by (simp add: stored_at_def n nth_append) linarith
  then show ?thesis by (simp add: slice_of_def)
qed

lemma grows_cursor: "log_grows tp tp' \<Longrightarrow> cursor_ok tp cursor \<Longrightarrow> cursor_ok tp' cursor"
  unfolding cursor_ok_def using grows_length [of tp tp'] by (meson of_nat_mono order_trans)

lemma grows_view:
  assumes "log_grows tp tp'" and "view_ok tp cursor dropped received"
  shows "view_ok tp' cursor dropped received"
proof -
  have c: "cursor_ok tp cursor" using assms(2) by (simp add: view_ok_def)
  have same: "(case known_offsets cursor q of None \<Rightarrow> M = {#} | Some c \<Rightarrow> \<exists>base. 0 \<le> base \<and> base \<le> c \<and> M = mset (slice_of tp' q base c))
    \<longleftrightarrow> (case known_offsets cursor q of None \<Rightarrow> M = {#} | Some c \<Rightarrow> \<exists>base. 0 \<le> base \<and> base \<le> c \<and> M = mset (slice_of tp q base c))" for q M
  proof (cases "known_offsets cursor q")
    case (Some c)
    then have "0 \<le> base \<Longrightarrow> slice_of tp' q base c = slice_of tp q base c" for base
      using grows_slice [OF assms(1)] cursor_ok_known [OF c Some] by blast
    then show ?thesis using Some by (simp cong: conj_cong)
  qed simp
  show ?thesis using assms(2) grows_cursor [OF assms(1) c] unfolding view_ok_def same by blast
qed

lemma grows_batch:
  assumes "log_grows tp tp'" and "tail_batch_ok tp cursor b" and "cursor_ok tp cursor"
  shows "tail_batch_ok tp' cursor b"
proof -
  have c: "cursor_ok tp (tb_cursor b)" using assms(2) by (simp add: tail_batch_ok_def)
  have "slice_of tp' q x y = slice_of tp q x y" if "known_offsets cursor q = Some x" "known_offsets (tb_cursor b) q = Some y" for q x y
    using grows_slice [OF assms(1), of x y q] cursor_ok_known [OF c that(2)] cursor_ok_known [OF assms(3) that(1)] by simp
  then show ?thesis using assms(2) grows_cursor [OF assms(1) c] unfolding tail_batch_ok_def by metis
qed

section \<open>The hook, the driver and the broker\<close>

text \<open>\<open>ts_received\<close> is a history: every message received since the list was last cleared, the newest first.\<close>

record 'm tail_sys =
  ts_tail :: "'m tail"
  ts_received :: "'m stored list"
  ts_topics :: "int \<times> jsstr \<Rightarrow> 'm topic"
  ts_polls :: "poll list"
  ts_answers :: "(poll \<times> (jsstr + 'm TailBatch)) list"

definition poll_key :: "poll \<Rightarrow> int \<times> jsstr" where
  "poll_key p = (po_connID p, po_topic p)"

definition tail_key :: "'m tail \<Rightarrow> int \<times> jsstr" where
  "tail_key t = (tl_connID t, tl_topic t)"

text \<open>The user and the page; a topic changes by its log growing or its oldest messages going.\<close>

datatype tail_action = Start | Stop | Clear | Timer | Scope int bool jsstr | World | ServePoll nat | FailPoll nat jsstr | AnswerPoll nat

fun tail_event :: "tail_action \<Rightarrow> 'm tail \<Rightarrow> 'm tail \<times> poll list" where
  "tail_event Start t = tail_start t"
| "tail_event Stop t = tail_stop t"
| "tail_event Clear t = (tail_clear t, [])"
| "tail_event Timer t = tail_timer t"
| "tail_event (Scope connID online topic) t = tail_scope connID online topic t"
| "tail_event _ t = (t, [])"

definition received_after :: "tail_action \<Rightarrow> 'm tail \<Rightarrow> 'm stored list \<Rightarrow> 'm stored list" where
  "received_after a t received = (case a of
     Start \<Rightarrow> [] | Clear \<Rightarrow> [] | Scope connID online topic \<Rightarrow> if (connID, topic) = tail_key t then received else [] | _ \<Rightarrow> received)"

definition received_answer :: "poll \<Rightarrow> jsstr + 'm TailBatch \<Rightarrow> 'm tail \<Rightarrow> 'm stored list \<Rightarrow> 'm stored list" where
  "received_answer p result t received =
     (case result of Inr b \<Rightarrow> if po_effect p = tl_effect t then rev (tb_messages b) @ received else received | Inl _ \<Rightarrow> received)"

definition drop_at :: "nat \<Rightarrow> 'a list \<Rightarrow> 'a list" where
  "drop_at i xs = take i xs @ drop (Suc i) xs"

text \<open>
  A poll that is served reads the broker as it is then: the route names every queue the cursor knows,
  once each.
\<close>

inductive tail_step :: "tail_action \<Rightarrow> 'm tail_sys \<Rightarrow> 'm tail_sys \<Rightarrow> bool" where
  event: "tail_event a (ts_tail s) = (t, reqs) \<Longrightarrow> tail_step a s
     (s\<lparr>ts_tail := t, ts_received := received_after a (ts_tail s) (ts_received s), ts_polls := ts_polls s @ reqs\<rparr>)"
| world: "(\<forall>k. log_grows (ts_topics s k) (topics k)) \<Longrightarrow> tail_step World s (s\<lparr>ts_topics := topics\<rparr>)"
| serve_poll: "i < length (ts_polls s) \<Longrightarrow> p = ts_polls s ! i \<Longrightarrow> tp = ts_topics s (poll_key p) \<Longrightarrow> pull_ok tp pull \<Longrightarrow> ends_ok tp ends \<Longrightarrow>
     distinct queues \<Longrightarrow> set (map position_key (po_cursor p)) \<subseteq> set queues \<Longrightarrow>
     TailMessages queues ends pull (po_cursor p) limit = Some b \<Longrightarrow>
     tail_step (ServePoll i) s (s\<lparr>ts_polls := drop_at i (ts_polls s), ts_answers := ts_answers s @ [(p, Inr b)]\<rparr>)"
| fail_poll: "i < length (ts_polls s) \<Longrightarrow>
     tail_step (FailPoll i failure) s (s\<lparr>ts_polls := drop_at i (ts_polls s), ts_answers := ts_answers s @ [(ts_polls s ! i, Inl failure)]\<rparr>)"
| answer_poll: "i < length (ts_answers s) \<Longrightarrow> ts_answers s ! i = (p, result) \<Longrightarrow>
     tail_step (AnswerPoll i) s (s\<lparr>ts_tail := tail_answer p result (ts_tail s),
       ts_received := received_answer p result (ts_tail s) (ts_received s), ts_answers := drop_at i (ts_answers s)\<rparr>)"

definition any_tail :: "tail_action \<Rightarrow> 'm tail_sys \<Rightarrow> bool" where
  "any_tail a s \<longleftrightarrow> True"

definition open_tail :: "int \<Rightarrow> bool \<Rightarrow> jsstr \<Rightarrow> (int \<times> jsstr \<Rightarrow> 'm topic) \<Rightarrow> 'm tail_sys" where
  "open_tail connID online topic topics = \<lparr>ts_tail = new_tail connID online topic, ts_received = [], ts_topics = topics, ts_polls = [], ts_answers = []\<rparr>"

section \<open>The invariant\<close>

text \<open>
  One poll at a time, over all effects; a poll of the current effect asks from the cursor the hook has, or from one it
  has thrown away together with the list.
\<close>

definition view_of :: "(int \<times> jsstr \<Rightarrow> 'm topic) \<Rightarrow> 'm stored list \<Rightarrow> 'm tail \<Rightarrow> bool" where
  "view_of topics received t \<longleftrightarrow> view_ok (topics (tail_key t)) (tl_cursor t) (tl_dropped t) received
     \<and> tl_messages t = take TAIL_BUFFER received"

definition tail_weak :: "(int \<times> jsstr \<Rightarrow> 'm topic) \<Rightarrow> poll list \<Rightarrow> 'm stored list \<Rightarrow> 'm tail \<Rightarrow> bool" where
  "tail_weak topics ps received t \<longleftrightarrow> view_of topics received t \<and> length ps = (if tl_inFlight t then 1 else 0)
     \<and> (\<forall>p \<in> set ps. po_effect p \<le> tl_effect t \<and> cursor_ok (topics (poll_key p)) (po_cursor p))"

definition poll_fits :: "'m stored list \<Rightarrow> 'm tail \<Rightarrow> poll \<Rightarrow> bool" where
  "poll_fits received t p \<longleftrightarrow> poll_key p = tail_key t
     \<and> (po_cursor p = tl_cursor t \<or> tl_cursor t = [] \<and> received = [] \<and> tl_dropped t = 0)"

definition tail_inv :: "(int \<times> jsstr \<Rightarrow> 'm topic) \<Rightarrow> poll list \<Rightarrow> 'm stored list \<Rightarrow> 'm tail \<Rightarrow> bool" where
  "tail_inv topics ps received t \<longleftrightarrow> tail_weak topics ps received t \<and> (\<forall>p \<in> set ps. po_effect p = tl_effect t \<longrightarrow> poll_fits received t p)"

lemma tail_poll_inv:
  assumes "tail_inv topics ps received t" and "tail_poll t = (t', reqs)"
  shows "tail_inv topics (ps @ reqs) received t'"
proof (cases "tl_inFlight t")
  case True
  then show ?thesis using assms by (simp add: tail_poll_def)
next
  case False
  then have "ps = []" using assms(1) by (simp add: tail_inv_def tail_weak_def)
  moreover have "cursor_ok (topics (tail_key t)) (tl_cursor t)"
    using assms(1) by (simp add: tail_inv_def tail_weak_def view_of_def view_ok_def)
  ultimately show ?thesis
    using assms False by (auto simp: tail_poll_def tail_inv_def tail_weak_def view_of_def poll_fits_def poll_key_def tail_key_def)
qed

lemma poll_effect_inv:
  assumes "tail_weak topics ps received t" and "poll_effect t = (t', reqs)"
  shows "tail_inv topics (ps @ reqs) received t'"
proof -
  let ?t = "t\<lparr>tl_effect := tl_effect t + 1\<rparr>"
  have i: "tail_inv topics ps received ?t"
    using assms(1) by (fastforce simp: tail_inv_def tail_weak_def view_of_def tail_key_def)
  show ?thesis
  proof (cases "tail_active ?t")
    case True
    then show ?thesis using tail_poll_inv [OF i] assms(2) by (simp add: poll_effect_def Let_def)
  next
    case False
    then show ?thesis using i assms(2) by (simp add: poll_effect_def Let_def)
  qed
qed

lemma clear_view: "view_of topics [] (tail_clear t)"
  by (simp add: view_of_def tail_clear_def view_ok_fresh cursor_ok_def)

lemma clear_weak: "tail_weak topics ps received t \<Longrightarrow> tail_weak topics ps [] (tail_clear t)"
  using clear_view [of topics t] by (simp add: tail_weak_def) (simp add: tail_clear_def)

lemma clear_inv: "tail_inv topics ps received t \<Longrightarrow> tail_inv topics ps [] (tail_clear t)"
  using clear_weak [of topics ps received t] by (simp add: tail_inv_def) (simp add: tail_clear_def poll_fits_def tail_key_def)

lemma running_weak: "tail_weak topics ps received t \<Longrightarrow> tail_weak topics ps received (t\<lparr>tl_running := b\<rparr>)"
  by (simp add: tail_weak_def view_of_def tail_key_def)

lemma inv_weak: "tail_inv topics ps received t \<Longrightarrow> tail_weak topics ps received t"
  by (simp add: tail_inv_def)

lemma tail_stop_inv: "tail_inv topics ps received t \<Longrightarrow> tail_stop t = (t', reqs) \<Longrightarrow> tail_inv topics (ps @ reqs) received t'"
  using poll_effect_inv [OF running_weak [OF inv_weak], of topics ps received t False] by (simp add: tail_stop_def split: if_splits)

lemma tail_stop_quiet: "snd (tail_stop t) = []"
  by (simp add: tail_stop_def poll_effect_def tail_active_def Let_def)

lemma tail_event_inv:
  assumes "tail_inv topics ps received t" and "tail_event a t = (t', reqs)"
  shows "tail_inv topics (ps @ reqs) (received_after a t received) t'"
proof (cases a)
  case Start
  show ?thesis
  proof (cases "tl_running (tail_clear t)")
    case True
    then show ?thesis using assms clear_inv [OF assms(1)] by (simp add: Start tail_start_def received_after_def Let_def)
  next
    case False
    then show ?thesis
      using assms(2) poll_effect_inv [OF running_weak [OF clear_weak [OF inv_weak [OF assms(1)]]], of True]
      by (simp add: Start tail_start_def received_after_def Let_def)
  qed
next
  case (Scope connID online topic)
  let ?t = "t\<lparr>tl_connID := connID, tl_online := online, tl_topic := topic\<rparr>"
  show ?thesis
  proof (cases "(connID, topic) = tail_key t")
    case True
    then have w: "tail_inv topics ps received ?t"
      using assms(1) by (auto simp: tail_inv_def tail_weak_def view_of_def tail_key_def poll_fits_def)
    show ?thesis
      using assms(2) True w poll_effect_inv [OF inv_weak [OF w]]
      by (auto simp: Scope tail_scope_def received_after_def Let_def tail_key_def split: if_splits)
  next
    case False
    have "tail_weak topics ps [] (tail_clear ?t)"
      using assms(1) clear_view [of topics ?t] by (simp add: tail_inv_def tail_weak_def) (simp add: tail_clear_def)
    then have "tail_inv topics (ps @ snd (poll_effect (tail_clear ?t))) [] (fst (poll_effect (tail_clear ?t)))"
      using poll_effect_inv by (metis prod.collapse)
    then have "tail_inv topics (ps @ snd (poll_effect (tail_clear ?t))) [] (fst (tail_stop (fst (poll_effect (tail_clear ?t)))))"
      using tail_stop_inv tail_stop_quiet by (metis append.right_neutral prod.collapse)
    then show ?thesis using assms(2) False by (auto simp: Scope tail_scope_def received_after_def Let_def tail_key_def)
  qed
next
  case Timer
  then show ?thesis using assms tail_poll_inv [OF assms(1)] by (simp add: received_after_def tail_timer_def split: if_splits)
qed (use assms tail_stop_inv clear_inv in \<open>auto simp: received_after_def\<close>)

definition outstanding :: "'m tail_sys \<Rightarrow> poll list" where
  "outstanding s = ts_polls s @ map fst (ts_answers s)"

definition tail_sys_ok :: "'m tail_sys \<Rightarrow> bool" where
  "tail_sys_ok s \<longleftrightarrow> tail_inv (ts_topics s) (outstanding s) (ts_received s) (ts_tail s)
     \<and> (\<forall>(p, result) \<in> set (ts_answers s). \<forall>b. result = Inr b \<longrightarrow> tail_batch_ok (ts_topics s (poll_key p)) (po_cursor p) b)"

lemma tail_inv_mset:
  assumes "tail_inv topics ps received t" and "mset ps = mset ps'"
  shows "tail_inv topics ps' received t"
  using assms mset_eq_setD [OF assms(2)] mset_eq_length [OF assms(2)] by (simp add: tail_inv_def tail_weak_def)

lemma drop_at_mset: "i < length xs \<Longrightarrow> mset xs = add_mset (xs ! i) (mset (drop_at i xs))"
  using id_take_nth_drop [of i xs] by (metis drop_at_def mset.simps(2) mset_append union_mset_add_mset_right)

lemma drop_at_sub: "x \<in> set (drop_at i xs) \<Longrightarrow> x \<in> set xs"
  by (auto simp: drop_at_def dest: in_set_takeD in_set_dropD)

lemma tail_answer_inv:
  assumes "tail_inv topics (p # ps) received t" and "\<And>b. result = Inr b \<Longrightarrow> tail_batch_ok (topics (poll_key p)) (po_cursor p) b"
  shows "tail_inv topics ps (received_answer p result t received) (tail_answer p result t)"
proof -
  have w: "tail_weak topics (p # ps) received t" and fit: "po_effect p = tl_effect t \<Longrightarrow> poll_fits received t p"
    using assms(1) by (simp_all add: tail_inv_def)
  have ps: "ps = []" "tl_inFlight t" using w by (auto simp: tail_weak_def split: if_splits)
  have v: "view_of topics received t" using w by (simp add: tail_weak_def)
  have key: "tail_key (tail_answer p result t) = tail_key t"
    by (simp add: tail_answer_def tail_key_def split: sum.split)
  have "view_of topics (received_answer p result t received) (tail_answer p result t)"
  proof (cases "po_effect p = tl_effect t \<and> (\<exists>b. result = Inr b)")
    case False
    then show ?thesis using v by (auto simp: tail_answer_def received_answer_def view_of_def tail_key_def split: sum.split)
  next
    case True
    then obtain b where b: "result = Inr b" "po_effect p = tl_effect t" by auto
    note f = fit [OF b(2), unfolded poll_fits_def]
    have bo: "tail_batch_ok (topics (tail_key t)) (po_cursor p) b" using assms(2) [OF b(1)] f by simp
    have "cursor_ok (topics (tail_key t)) (po_cursor p)" using w f by (auto simp: tail_weak_def)
    then have "view_ok (topics (tail_key t)) (po_cursor p) (tl_dropped t) received"
      using f v view_ok_fresh [of "topics (tail_key t)" "po_cursor p"] by (auto simp: view_of_def)
    then have r: "view_ok (topics (tail_key t)) (tb_cursor b) (tl_dropped t + tb_dropped b) (rev (tb_messages b) @ received)"
      using view_ok_batch bo by blast
    have d: "(if 0 < tb_dropped b then tl_dropped t + tb_dropped b else tl_dropped t) = tl_dropped t + tb_dropped b"
      using bo by (auto simp: tail_batch_ok_def)
    have m: "tl_messages t = take TAIL_BUFFER received" using v by (simp add: view_of_def)
    show ?thesis using b r by (simp add: view_of_def tail_key_def tail_answer_def received_answer_def d m)
  qed
  then show ?thesis
    using ps by (simp add: tail_inv_def tail_weak_def) (simp add: tail_answer_def split: sum.split)
qed

lemma grows_inv:
  assumes "\<forall>k. log_grows (topics k) (topics' k)" and "tail_inv topics ps received t"
  shows "tail_inv topics' ps received t"
proof -
  have "view_of topics' received t"
    using assms(2) grows_view [OF assms(1) [THEN spec]] by (simp add: tail_inv_def tail_weak_def view_of_def)
  moreover have "cursor_ok (topics' (poll_key p)) (po_cursor p)" if "p \<in> set ps" for p
    using that assms(2) grows_cursor [OF assms(1) [THEN spec]] by (simp add: tail_inv_def tail_weak_def)
  ultimately show ?thesis using assms(2) by (simp add: tail_inv_def tail_weak_def)
qed

lemma tail_sys_ok_step:
  assumes "tail_step a s s'" and "tail_sys_ok s"
  shows "tail_sys_ok s'"
  using assms(1)
proof (cases rule: tail_step.cases)
  case (event t reqs)
  have "tail_inv (ts_topics s) (outstanding s @ reqs) (received_after a (ts_tail s) (ts_received s)) t"
    using tail_event_inv [OF _ event(2)] assms(2) by (simp add: tail_sys_ok_def)
  then have "tail_inv (ts_topics s) (outstanding s') (received_after a (ts_tail s) (ts_received s)) t"
    by (rule tail_inv_mset) (simp add: outstanding_def event(1))
  then show ?thesis using assms(2) by (simp add: tail_sys_ok_def event(1))
next
  case (world topics)
  have "tail_inv topics (outstanding s) (ts_received s) (ts_tail s)"
    using assms(2) by (intro grows_inv [OF world(3)]) (simp add: tail_sys_ok_def)
  moreover have "tail_batch_ok (topics (poll_key p)) (po_cursor p) b" if m: "(p, Inr b) \<in> set (ts_answers s)" for p b
  proof -
    have "p \<in> set (outstanding s)" using m by (force simp: outstanding_def)
    then have "cursor_ok (ts_topics s (poll_key p)) (po_cursor p)" using assms(2) by (simp add: tail_sys_ok_def tail_inv_def tail_weak_def)
    moreover have "tail_batch_ok (ts_topics s (poll_key p)) (po_cursor p) b" using assms(2) m by (auto simp: tail_sys_ok_def)
    ultimately show ?thesis using grows_batch world(3) by blast
  qed
  ultimately show ?thesis by (auto simp: tail_sys_ok_def outstanding_def world(2))
next
  case (serve_poll i p tp pull ends queues limit b)
  have m: "mset (ts_polls s) = add_mset p (mset (drop_at i (ts_polls s)))" using drop_at_mset [OF serve_poll(3)] serve_poll(4) by simp
  have inv: "tail_inv (ts_topics s) (outstanding s) (ts_received s) (ts_tail s)" using assms(2) by (simp add: tail_sys_ok_def)
  have "p \<in> set (outstanding s)" using serve_poll(3,4) by (simp add: outstanding_def)
  then have "cursor_ok tp (po_cursor p)" using inv serve_poll(5) by (simp add: tail_inv_def tail_weak_def)
  then have "tail_batch_ok tp (po_cursor p) b" using serve_poll by (intro TailMessages_ok) auto
  moreover have "tail_inv (ts_topics s) (outstanding s') (ts_received s) (ts_tail s)"
    by (rule tail_inv_mset [OF inv]) (simp add: outstanding_def serve_poll(2) m)
  ultimately show ?thesis using assms(2) serve_poll(5) by (auto simp: tail_sys_ok_def serve_poll(2))
next
  case (fail_poll i failure)
  have inv: "tail_inv (ts_topics s) (outstanding s) (ts_received s) (ts_tail s)" using assms(2) by (simp add: tail_sys_ok_def)
  have "tail_inv (ts_topics s) (outstanding s') (ts_received s) (ts_tail s)"
    by (rule tail_inv_mset [OF inv]) (simp add: outstanding_def fail_poll(2) drop_at_mset [OF fail_poll(3)])
  then show ?thesis using assms(2) by (auto simp: tail_sys_ok_def fail_poll(2))
next
  case (answer_poll i p result)
  have a: "mset (ts_answers s) = add_mset (p, result) (mset (drop_at i (ts_answers s)))"
    using drop_at_mset [OF answer_poll(3)] unfolding answer_poll(4) .
  have "tail_inv (ts_topics s) (outstanding s) (ts_received s) (ts_tail s)" using assms(2) by (simp add: tail_sys_ok_def)
  then have "tail_inv (ts_topics s) (p # outstanding s') (ts_received s) (ts_tail s)"
    by (rule tail_inv_mset) (simp add: outstanding_def answer_poll(2) a)
  moreover have "tail_batch_ok (ts_topics s (poll_key p)) (po_cursor p) b" if "result = Inr b" for b
    using assms(2) nth_mem [OF answer_poll(3)] answer_poll(4) that by (auto simp: tail_sys_ok_def)
  ultimately have "tail_inv (ts_topics s) (outstanding s') (received_answer p result (ts_tail s) (ts_received s)) (tail_answer p result (ts_tail s))" by (rule tail_answer_inv)
  then show ?thesis
    using assms(2) drop_at_sub [of _ i "ts_answers s"] by (auto simp: tail_sys_ok_def answer_poll(2))
qed

text \<open>
  C13: As long as the route of every poll names each queue the cursor knows, once, the tail shows the last
  five hundred messages it received since it was last cleared (by its own controls, or by a new topic or
  connection), newest first; and unless it reports messages that aged out, what it received of each
  queue is one stretch of that queue's log up to the cursor, each message once - whatever the order of
  polls and answers, and across stops, starts, lost connections, failed polls and changes of topic. (A
  queue that a route leaves out is forgotten and opens at its end again: \<open>forgotten_queue_skips\<close>.)
\<close>

theorem tail_without_holes:
  assumes "run tail_step any_tail (open_tail connID online topic topics) s"
  shows "tl_messages (ts_tail s) = take TAIL_BUFFER (ts_received s)
    \<and> (tl_dropped (ts_tail s) = 0 \<longrightarrow>
        (\<forall>q. case known_offsets (tl_cursor (ts_tail s)) q of None \<Rightarrow> of_queue q (ts_received s) = {#}
        | Some c \<Rightarrow> \<exists>base. 0 \<le> base \<and> base \<le> c
            \<and> of_queue q (ts_received s) = mset (slice_of (ts_topics s (tail_key (ts_tail s))) q base c)))"
proof -
  have "tail_sys_ok (open_tail connID online topic topics)"
    by (simp add: tail_sys_ok_def open_tail_def tail_inv_def tail_weak_def outstanding_def view_of_def new_tail_def view_ok_fresh cursor_ok_def)
  with assms have "tail_sys_ok s" by (rule run_invariant) (rule tail_sys_ok_step)
  then show ?thesis by (simp add: tail_sys_ok_def tail_inv_def tail_weak_def view_of_def view_ok_def)
qed

text \<open>A topic of one queue: the tail opens at its end, a message arrives, the next poll brings it.\<close>

definition one_queue :: queue_key where
  "one_queue = (u ''a'', 0)"

definition topic_of :: "(int \<times> nat) list \<Rightarrow> nat topic" where
  "topic_of entries = \<lparr>tp_log = (\<lambda>q. if q = one_queue then entries else []), tp_min = (\<lambda>q. 0)\<rparr>"

definition opening_poll :: poll where
  "opening_poll = \<lparr>po_effect = 1, po_connID = 1, po_topic = u ''t'', po_cursor = []\<rparr>"

definition second_poll :: poll where
  "second_poll = opening_poll\<lparr>po_cursor := [position_at one_queue 1]\<rparr>"

definition brought :: "nat TailBatch" where
  "brought = \<lparr>tb_messages = [\<lparr>sm_queue = one_queue, sm_offset = 1, sm_time = 9, sm_body = 7\<rparr>], tb_cursor = [position_at one_queue 2], tb_dropped = 0\<rparr>"

definition opened :: "nat TailBatch" where
  "opened = \<lparr>tb_messages = [], tb_cursor = [position_at one_queue 1], tb_dropped = 0\<rparr>"

definition pull_one :: "queue_key \<Rightarrow> int \<Rightarrow> int \<Rightarrow> nat pulled option" where
  "pull_one q i n = (if q = one_queue \<and> i = 1 \<and> 1 \<le> n then Some \<lparr>pl_messages = tb_messages brought, pl_next = 2, pl_min = 0\<rparr> else None)"

definition tailing :: "nat tail" where
  "tailing = \<lparr>tl_messages = [], tl_dropped = 0, tl_running = True, tl_error = None, tl_cursor = [], tl_inFlight = True,
     tl_connID = 1, tl_online = True, tl_topic = u ''t'', tl_effect = 1\<rparr>"

definition shows_one :: "nat tail_sys" where
  "shows_one = \<lparr>ts_tail = tailing\<lparr>tl_messages := tb_messages brought, tl_cursor := tb_cursor brought, tl_inFlight := False\<rparr>,
     ts_received = tb_messages brought, ts_topics = (\<lambda>k. topic_of [(5, 3), (9, 7)]), ts_polls = [], ts_answers = []\<rparr>"

lemma second_batch:
  "TailMessages [one_queue] (\<lambda>q. if q = one_queue then Some 2 else Some 0) pull_one [position_at one_queue 1] 0 = Some brought"
proof -
  have "known_offsets [position_at one_queue 1] one_queue = Some 1" by (simp add: known_offsets_def)
  then show ?thesis
    by (simp add: TailMessages_def queues_behind_def stay_positions_def place_of_def sortPositions_def sort_by_def pull_result_def pull_one_def
      brought_def)
qed

lemma pull_one_ok: "pull_ok (topic_of [(5, 3), (9, 7)]) pull_one"
proof -
  have "tb_messages brought = slice_of (topic_of [(5, 3), (9, 7)]) one_queue 1 2"
    by (simp add: brought_def slice_of_def stored_at_def topic_of_def)
  then show ?thesis by (auto simp: pull_ok_def pull_one_def topic_of_def intro!: exI [of _ 1])
qed

lemma pull_none_ok: "pull_ok tp (\<lambda>q i n. None)"
  by (simp add: pull_ok_def)

lemma opening_batch_none: "TailMessages [one_queue] (\<lambda>q. if q = one_queue then Some 1 else Some 0) (\<lambda>q i n. None) [] 0 = Some opened"
  by (simp add: TailMessages_def queues_behind_def stay_positions_def place_of_def sortPositions_def sort_by_def opened_def)

lemma ends_one:
  "ends_ok (topic_of [(5, 3)]) (\<lambda>q. if q = one_queue then Some 1 else Some 0)"
  "ends_ok (topic_of [(5, 3), (9, 7)]) (\<lambda>q. if q = one_queue then Some 2 else Some 0)"
  by (auto simp: ends_ok_def topic_of_def split: if_splits)

lemma shows_one_run: "run tail_step any_tail (open_tail 1 True (u ''t'') (\<lambda>k. topic_of [(5, 3)])) shows_one"
proof -
  let ?before = "\<lambda>k :: int \<times> jsstr. topic_of [(5, 3)]" and ?after = "\<lambda>k :: int \<times> jsstr. topic_of [(5, 3), (9, 7)]"
  let ?s1 = "\<lparr>ts_tail = tailing, ts_received = [], ts_topics = ?before, ts_polls = [opening_poll], ts_answers = []\<rparr>"
  let ?s2 = "\<lparr>ts_tail = tailing, ts_received = [], ts_topics = ?before, ts_polls = [], ts_answers = [(opening_poll, Inr opened)]\<rparr>"
  let ?t3 = "tailing\<lparr>tl_cursor := [position_at one_queue 1], tl_inFlight := False\<rparr>"
  let ?s3 = "\<lparr>ts_tail = ?t3, ts_received = [], ts_topics = ?before, ts_polls = [], ts_answers = []\<rparr>"
  let ?s4 = "?s3\<lparr>ts_topics := ?after\<rparr>"
  let ?s5 = "?s4\<lparr>ts_tail := ?t3\<lparr>tl_inFlight := True\<rparr>, ts_polls := [second_poll]\<rparr>"
  let ?s6 = "?s5\<lparr>ts_polls := [], ts_answers := [(second_poll, Inr brought)]\<rparr>"
  have t: "u ''t'' \<noteq> []" by (simp add: u_def)
  have a1: "tail_step Start (open_tail 1 True (u ''t'') ?before) ?s1"
    using tail_step.event [of Start "open_tail 1 True (u ''t'') ?before" tailing "[opening_poll]"] t
    by (simp add: open_tail_def new_tail_def received_after_def tail_start_def tail_clear_def poll_effect_def tail_active_def tail_poll_def tailing_def opening_poll_def Let_def)
  have a2: "tail_step (ServePoll 0) ?s1 ?s2"
    using tail_step.serve_poll [of 0 ?s1 opening_poll "topic_of [(5, 3)]" "\<lambda>q i n. None" "\<lambda>q. if q = one_queue then Some 1 else Some 0" "[one_queue]" 0 opened]
      opening_batch_none ends_one
    by (simp add: opening_poll_def drop_at_def pull_none_ok)
  have a3: "tail_step (AnswerPoll 0) ?s2 ?s3"
    using tail_step.answer_poll [of 0 ?s2 opening_poll "Inr opened"]
    by (simp add: tail_answer_def received_answer_def opening_poll_def tailing_def opened_def drop_at_def)
  have a4: "tail_step World ?s3 ?s4"
    using tail_step.world [of ?s3 ?after] by (simp add: log_grows_def topic_of_def)
  have a5: "tail_step Timer ?s4 ?s5"
    using tail_step.event [of Timer ?s4 "?t3\<lparr>tl_inFlight := True\<rparr>" "[second_poll]"] t
    by (simp add: tail_timer_def received_after_def tail_active_def tail_poll_def tailing_def second_poll_def opening_poll_def)
  have a6: "tail_step (ServePoll 0) ?s5 ?s6"
    using tail_step.serve_poll [of 0 ?s5 second_poll "topic_of [(5, 3), (9, 7)]" pull_one "\<lambda>q. if q = one_queue then Some 2 else Some 0" "[one_queue]" 0 brought]
      second_batch pull_one_ok ends_one
    by (simp add: second_poll_def opening_poll_def drop_at_def position_key_at)
  have a7: "tail_step (AnswerPoll 0) ?s6 shows_one"
    using tail_step.answer_poll [of 0 ?s6 second_poll "Inr brought"]
    by (simp add: tail_answer_def received_answer_def second_poll_def opening_poll_def tailing_def brought_def shows_one_def drop_at_def TAIL_BUFFER_def)
  have step_on: "run tail_step any_tail (open_tail 1 True (u ''t'') ?before) s'"
    if "run tail_step any_tail (open_tail 1 True (u ''t'') ?before) s" and "tail_step a s s'" for a s s'
    using run_step [of tail_step any_tail _ s a s'] that by (simp add: any_tail_def)
  show ?thesis by (rule step_on [OF step_on [OF step_on [OF step_on [OF step_on [OF step_on [OF step_on [OF run_refl a1] a2] a3] a4] a5] a6] a7])
qed

theorem tail_without_holes_witness:
  "length (tl_messages (ts_tail shows_one)) = 1
    \<and> (\<exists>base. 0 \<le> base \<and> base \<le> 2 \<and> of_queue one_queue (ts_received shows_one) = mset (slice_of (topic_of [(5, 3), (9, 7)]) one_queue base 2))"
proof -
  have "length (ts_received shows_one) = 1" and d: "tl_dropped (ts_tail shows_one) = 0"
    and k: "known_offsets (tl_cursor (ts_tail shows_one)) one_queue = Some 2"
    and tp: "ts_topics shows_one (tail_key (ts_tail shows_one)) = topic_of [(5, 3), (9, 7)]"
    by (simp_all add: shows_one_def tailing_def brought_def known_offsets_def)
  note t = tail_without_holes [OF shows_one_run]
  have "\<forall>q. case known_offsets (tl_cursor (ts_tail shows_one)) q of None \<Rightarrow> of_queue q (ts_received shows_one) = {#}
      | Some c \<Rightarrow> \<exists>base. 0 \<le> base \<and> base \<le> c
          \<and> of_queue q (ts_received shows_one) = mset (slice_of (ts_topics shows_one (tail_key (ts_tail shows_one))) q base c)"
    using conjunct2 [OF t] d by blast
  from spec [OF this, of one_queue] show ?thesis
    using conjunct1 [OF t] \<open>length (ts_received shows_one) = 1\<close> by (simp add: k tp TAIL_BUFFER_def)
qed

text \<open>
  A route that leaves a queue out for one poll makes the cursor forget it: when the queue is back it
  opens at its end, and what arrived meanwhile is neither shown nor counted as dropped.
\<close>

lemma unlisted_queue_forgotten:
  assumes "TailMessages [] ends pull cursor limit = Some b"
  shows "tb_cursor b = []" "tb_dropped b = 0"
  using assms by (auto simp: TailMessages_def queues_behind_def stay_positions_def sortPositions_def sort_by_def Let_def)

lemma forgotten_queue_skips:
  assumes "known_offsets cursor q = None" and "ends q = Some e"
  shows "place_of cursor ends q = Stays e"
  using assms by (simp add: place_of_def)

end
