(* ===== verification/Spec2Isabelle.thy ===== *)
theory Spec2Isabelle
  imports Alert_Poll Navigation Option_Filter Recent_Picks Connection_Edit Json_Tokens Throughput_History
    Live_Panel Settings_Store Send_Records Kafka_Admin Producer_Drafts Shell_Tabs
    Shell_Pages Board_Data Message_Tail
begin

text \<open>
  A verification library for the renderer of Rocket Leaf (\<open>src/frontend/src\<close>), the desktop client
  for fifteen message brokers. The Go side reaches the brokers and hands the renderer rows of one
  shape whatever the family - nodes, destinations, subscriptions, connections - each with a
  dictionary of family-specific attributes, all strings. The renderer's own logic is what happens to those
  rows: reading numbers and flags out of attributes, deciding what is wrong with a broker, remembering
  what the user has seen of it, and deciding which pages and options to offer. This library models
  that logic as it is written.

  \<^bold>\<open>Parts and theories.\<close>

  \<^item> \<open>Js_Base\<close>: the strings, numbers, sorting, dictionaries and parsed JSON of JavaScript as the code
    uses them. A string is a list of UTF-16 code units; a number is NaN, an infinity or a rational
    rounded to binary64 after each operation; \<open>null\<close> and \<open>undefined\<close> are \<open>None\<close>; local storage is a
    \<open>cell\<close>, which may be unavailable, empty, hold text that is no JSON, or hold a value.
  \<^item> \<open>Broker_Model\<close>: the rows as the bindings declare them (records of the same fields), the
    attribute readers every family repeats, and two locales for them: a numeric reader never
    answers NaN and answers nothing for a missing attribute, a counting reader falls back. Each
    family interprets them on its own readers.
  \<^item> \<open>Alert_Rules\<close> (\<open>lib/alertRules.ts\<close>): the rules, the rules each family offers, the listings the
    sweep needs, and the switches with their store, whose snapshot carries its object identity.
  \<^item> \<open>Alert_Family\<close> (\<open>lib/alertDerive.ts\<close>, \<open>sweepConnection\<close> of \<open>hooks/useAlertCenter.tsx\<close>): facts,
    thresholds, alerts, the sweep, and the contract of a rule set as five locales: only rules that
    are on speak; only rules the page offers; the sweep fetches what the rules read; a zero
    threshold silences the backlog rules; every sentence finds its words.
  \<^item> Fifteen theories \<open>..._Alerts\<close> (\<open>mq/<family>/alerts.ts\<close> with the readers of \<open>nodes.ts\<close>,
    \<open>destinations.ts\<close>, \<open>subscriptions.ts\<close>, \<open>cluster.ts\<close> and others they call): the family's rows, its rule
    set as one function per loop body, and the interpretations of the locales it keeps. MQTT
    keeps two of the five, Redis four, the others all.
  \<^item> \<open>Alert_Derive\<close> (\<open>deriveAlerts\<close>): the dispatch by family and the stable sort by severity.
  \<^item> \<open>Alert_Center\<close> (\<open>lib/alertCenter.ts\<close> and the read actions of the hook): the records, the merge of a round into
    them, the seen ids and their storage; and \<open>merge_abs\<close>, the merge said of one id, for alerts that may share it.
  \<^item> \<open>Alert_Poll\<close> (\<open>hooks/useAlertCenter.tsx\<close>): one polling round, and the centre as a step relation:
    rounds with any answers, the read actions, reloads of the window.
  \<^item> \<open>Navigation\<close> (\<open>mq/navigation.ts\<close>, \<open>mq/capabilities.ts\<close>), \<open>Option_Filter\<close> (\<open>lib/optionFilter.ts\<close>),
    \<open>Recent_Picks\<close> (\<open>lib/recentPicks.ts\<close>): the sidebar, the dropdowns and their memory.
  \<^item> \<open>Js_Text\<close>: trimming, splitting, the round trip of numbers through text, pieces of regular
    expressions.
  \<^item> \<open>Connection_Forms\<close> (\<open>ConnectionForms.tsx\<close>), \<open>Connection_Drafts\<close> (\<open>connectionDraft.ts\<close>),
    \<open>Connection_Validation\<close> (\<open>connectionValidation.ts\<close>): what the fifteen connection forms hold, what
    they submit, how a stored profile is read back, and which drafts are refused. \<open>Connection_Store\<close>
    is the Go service a submission meets (\<open>internal/bridge/connection.go\<close>,
    \<open>internal/service/connection\<close>), with the contract of a table of secrets as a locale;
    \<open>Connection_Reopen\<close> and \<open>Connection_Edit\<close> put the two halves together.
  \<^item> \<open>Json_Tokens\<close> (\<open>lib/jsonTokens.ts\<close>), \<open>Throughput_History\<close> (\<open>lib/throughputHistory.ts\<close>): the colouring
    scanner and the throughput chart. \<open>Message_Body\<close> (\<open>lib/time.ts\<close>, \<open>messageBody.ts\<close>): the kind of a body,
    UTF-8, the cap and the hex dump.
  \<^item> \<open>Runs\<close>: a run of steps and the induction over it. \<open>Live_Stream\<close> (the \<open>subscribe.go\<close> of MQTT, NATS and
    ActiveMQ): the buffers behind a live subscription, each refining one stream of numbered
    messages. \<open>Live_Panel\<close> (\<open>useMqttStream.ts\<close> and its two likes): the panel that polls one, with the
    requests under way as part of the state.
  \<^item> \<open>Settings_Model\<close> (\<open>useSettings.ts\<close>, \<open>internal/bridge/settings.go\<close>, \<open>internal/service/settings\<close>): the settings of both
    halves and the translation between them. \<open>Settings_Store\<close>: edits, the chain of saves, reloads
    and the service's events as steps.
  \<^item> \<open>Send_Text\<close>: what the send consoles share - the loop over the lines of a box with the contract of
    its body as a locale, typed counts, batches. \<open>Header_Boxes\<close>: the six readers of such boxes,
    interpreted. \<open>Send_Cloud\<close>, \<open>Send_Brokers\<close>, \<open>Send_Records\<close> (\<open>mq/<family>/publish.ts\<close> and the drafts under
    \<open>boards/producer\<close>, with \<open>publish.go\<close> of each driver): every family's draft, its problems, the input,
    and what the driver makes of it. \<open>Object_Names\<close> (\<open>mq/<family>/names.ts\<close>): which names a dialog takes.
  \<^item> \<open>Kafka_Admin\<close> (\<open>aclKafkaDraft.ts\<close>, \<open>quotaDraft.ts\<close>, \<open>reassignDraft.ts\<close>, \<open>TopicDialogKafka.tsx\<close>): the forms that
    change a Kafka cluster, with the driver's checks.
  \<^item> \<open>Stored_Files\<close>: the cut that bounds a stored dictionary to its newest entries, which \<open>Recent_Picks\<close> and
    \<open>Producer_Drafts\<close> (\<open>lib/producerDrafts.ts\<close>, what was last sent to each topic) share.
  \<^item> \<open>Protocols\<close> (\<open>design/data/protocols.ts\<close>): the registry of the fifteen families and the pages of each.
  \<^item> \<open>Connection_Profiles\<close> (\<open>useConnectionProfiles.ts\<close>, \<open>design/data/connections.ts\<close>): the rows of the connection list and the
    hook behind it, with calls and answers travelling on their own. \<open>Shell_Tabs\<close> (\<open>DesignApp.tsx\<close>, \<open>session.ts\<close>): the tabs,
    the views and the session that outlives the window. \<open>Shell_Pages\<close> (\<open>Sidebar.tsx\<close>, \<open>CommandPalette.tsx\<close>,
    \<open>scopeOptions.ts\<close>): what the sidebar, the palette and the scope switcher offer.
  \<^item> \<open>Board_Data\<close> (\<open>useBrokerData.ts\<close>, the request of \<open>mq/capabilities.ts\<close>): how every page reads its connection.
    \<open>Message_Tail\<close> (\<open>useMessageTail.ts\<close> and \<open>TailMessages\<close> of the RocketMQ driver): the live tail of a topic.

  \<^bold>\<open>How the state corresponds.\<close> A \<open>Record<string, AlertRecord>\<close> is an association list in insertion order (a
    record id has a colon, so it is never an index); the hook's refs and its storage key are the
    record \<open>center\<close>; the object of facts, whose keys are numbers, is read in ascending order. A
    write to storage that throws leaves the cell, as the \<open>catch\<close> does.

  \<^bold>\<open>What the groups of lemmas show.\<close> Per family: the alerts are sound (switched on, offered,
    worded) by case analysis over the loop bodies, and discharge the locales. The merge: lookups
    after each loop, up to \<open>mergeAlerts_refines\<close>, from which the properties of the merge are read. The
    centre: an invariant kept by every step. Connections: a submission read back gives its draft,
    family by family (\<open>same_draft\<close>), and the update in normal form (\<open>UpdateConnection_iff\<close>); together
    the round trip of an untouched edit and the exact fate of each secret. The send consoles: what
    a form accepts passes the driver's checks, and the copies that go out are the ones asked for;
    where the two halves differ, a lemma shows the input. The scanner: every
    match is inside the text and not empty. The chart: binary64 is exact on its minutes. The hooks (live
    panel, settings store, connection list, page data, message tail) and the shell: a step
    relation over calls and answers that may cross, an invariant kept by every step a stated schedule
    allows, the property at rest, and a run outside the schedule that breaks it. The rest: the
    reference the routine equals, or what it keeps.

  \<^bold>\<open>Parameters and bounds.\<close> What a request answers is a parameter (\<open>replies\<close>), as are the locale's
    comparison of strings, \<open>toLowerCase\<close> and the clock. All recursion is structural or has a
    termination measure, so there is no fuel; the scanner's loop is a partial function, whose
    return is proved. The retention of a recovery is thirty minutes, two
    hundred ids are remembered, ten picks of ten connections, and five hundred messages of a tail, as in the
    code. U+0085, which Go counts as white space and JavaScript does not, is a premise where a text crosses
    from one to the other. What is documented of the broker's client libraries is a named premise
    (\<open>pull_ok\<close>, \<open>ends_ok\<close>); the history \<open>ts_received\<close> of the tail is the specification's, not the code's.

  \<^bold>\<open>Not modelled.\<close> The Go backend but for what it makes of a connection form, of the settings and of a send, the
    live buffers, the tail of RocketMQ, and the checks of names, plans, quotas and grants; the updater, whose state Go
    owns; the website; the React components and their
    layout; the API wrappers, which only forward to the bindings; translation strings beyond the
    placeholders of \<open>detail_params\<close>; the notification that \<open>fired\<close> records lead to; \<open>JSON.parse\<close> and
    \<open>JSON.stringify\<close> of a message body, which are parameters; the readers only the boards use.
\<close>

section \<open>Properties that span the families\<close>

lemma num_div_not_NaN: "is_finite x \<Longrightarrow> \<not> y \<le> Fin 0 \<Longrightarrow> y \<noteq> NaN \<Longrightarrow> num_div x y \<noteq> NaN"
  by (cases x; cases y) (auto simp: is_finite_def less_eq_jsnum_def)

text \<open>
  A percentage the watermark rules compare never exceeds one hundred.
\<close>

lemma percentages_bounded:
  assumes "is_finite (rabbit_memoryUsed n)" and "is_finite (rabbit_diskFreeLimit n)"
    and "Some v \<in> {rabbit_memoryUsage n, rabbit_diskHeadroomUsage n, redis_memoryUsagePercent n}"
  shows "v \<le> Fin 100"
proof -
  have nan: "rabbit_memoryLimit n \<noteq> NaN" "rabbit_diskFree n \<noteq> NaN"
    by (simp_all add: rabbit_memoryLimit_def rabbit_diskFree_def rabbit_node_count_def or_fallback_not_NaN)
  consider "rabbit_memoryUsage n = Some v" | "rabbit_diskHeadroomUsage n = Some v"
    | "redis_memoryUsagePercent n = Some v" using assms(3) by auto
  then show ?thesis
  proof cases
    case 1
    then show ?thesis
      using assms(1) nan(1) by (auto simp: rabbit_memoryUsage_def Let_def num_div_not_NaN num_min_cap split: if_splits)
  next
    case 2
    then show ?thesis
      using assms(2) nan(2) by (auto simp: rabbit_diskHeadroomUsage_def Let_def num_div_not_NaN num_min_cap
          intro!: num_max_le split: if_splits)
  next
    case 3
    then show ?thesis by (rule redis_usage_le_100)
  qed
qed

lemma kinesis_settling_iff:
  "(\<exists>a \<in> set (kinesis_stream_alerts e). al_rule a = r) \<longleftrightarrow> kinesis_stream_settling e \<and> r = streamNotActive"
  "(\<exists>a \<in> set (kinesis_consumer_alerts c). al_rule a = r) \<longleftrightarrow> kinesis_consumer_settling c \<and> r = consumerNotActive"
  by (cases "ks_status e"; cases "kc_status c";
      auto simp: kinesis_stream_alerts_def kinesis_stream_settling_def kinesis_consumer_alerts_def
        kinesis_consumer_settling_def)+

lemma azure_alert_iff:
  "(\<exists>a \<in> set (azure_entity_alerts rules e). al_rule a = topicUnsubscribed)
     \<longleftrightarrow> enabled rules topicUnsubscribed \<and> azure_discardsEverything e"
  "(\<exists>a \<in> set (azure_sub_alerts rules s). al_rule a = subscriptionUnroutable)
     \<longleftrightarrow> enabled rules subscriptionUnroutable \<and> azure_receivesNothing s"
  "\<not> (\<exists>a \<in> set (azure_sub_alerts rules s). al_rule a = topicUnsubscribed)"
  "\<not> (\<exists>a \<in> set (azure_entity_alerts rules e). al_rule a = subscriptionUnroutable)"
  by (auto simp: azure_alert_defs azure_discardsEverything_def azure_receivesNothing_def)

lemma bex_append: "(\<exists>a \<in> set (xs @ ys). P a) \<longleftrightarrow> (\<exists>a \<in> set xs. P a) \<or> (\<exists>a \<in> set ys. P a)"
  by auto

lemma bex_for_each: "(\<exists>a \<in> set (for_each xs body). P a) \<longleftrightarrow> (\<exists>x \<in> set xs. \<exists>a \<in> set (body x). P a)"
  by (simp only: Bex_def set_for_each) blast

text \<open>
  The alerts and the boards agree: an alert of these rules is raised exactly when its
  switch is on and the board's own predicate holds of some row.
\<close>

lemma boards_and_alerts_agree:
  "((\<exists>a \<in> set (deriveKinesisAlerts f rules th). al_rule a = streamNotActive) \<longleftrightarrow>
      enabled rules streamNotActive \<and> list_ex kinesis_stream_settling (map kinesis_stream (destinations f)))
   \<and> ((\<exists>a \<in> set (deriveKinesisAlerts f rules th). al_rule a = consumerNotActive) \<longleftrightarrow>
      enabled rules consumerNotActive \<and> list_ex kinesis_consumer_settling (map kinesis_consumer (consumerGroups f)))
   \<and> ((\<exists>a \<in> set (deriveAzureServiceBusAlerts f rules th). al_rule a = topicUnsubscribed) \<longleftrightarrow>
      enabled rules topicUnsubscribed \<and> list_ex azure_discardsEverything (map azure_entity (destinations f)))
   \<and> ((\<exists>a \<in> set (deriveAzureServiceBusAlerts f rules th). al_rule a = subscriptionUnroutable) \<longleftrightarrow>
      enabled rules subscriptionUnroutable \<and> list_ex azure_receivesNothing (map azure_subscription (consumerGroups f)))"
  by (cases "enabled rules streamNotActive"; cases "enabled rules consumerNotActive")
   (simp_all add: deriveKinesisAlerts_def deriveAzureServiceBusAlerts_def bex_append bex_for_each
      kinesis_settling_iff azure_alert_iff list_ex_iff del: set_append set_for_each in_set_if)

section \<open>Where the code and its comments part\<close>

definition sample_session :: ClientConnection where
  "sample_session = \<lparr>conn_name = u ''s'', conn_clientName = [], conn_namespace = [], conn_user = [], conn_node = [],
     conn_peerHost = [], conn_peerPort = Fin 0, conn_protocol = [], conn_state = [], conn_channels = Fin 0,
     conn_tls = False, conn_cipher = [], conn_heartbeatSec = Fin 0, conn_recvBytes = Fin 0, conn_sendBytes = Fin 0,
     conn_recvByteRate = Fin 0, conn_sendByteRate = Fin 0, conn_connectedAtMs = Fin 0, conn_blockedBy = [],
     conn_attributes = [(u ''queueDropped'', u ''2'')]\<rparr>"

text \<open>
  MQTT has no entry of its own in the table of rules, so the alerts page offers RocketMQ's
  switches for it; a session that loses messages raises an alert of a rule that is not among
  them, and a lag threshold of zero does not silence it.
\<close>

lemma mqtt_rules_not_offered:
  "{a \<in> set (deriveMqttAlerts (NO_FACTS\<lparr>connections := [sample_session]\<rparr>) DEFAULT_ALERT_RULES
      \<lparr>lag = Fin 0, disk = Fin 75\<rparr>). al_rule a = queueBacklog \<and> al_rule a \<notin> set (rulesFor (Some KindMQTT))} \<noteq> {}"
proof -
  have "ms_queueDropped (mqtt_clientSession sample_session) = Some (Fin 2)"
    by (simp add: mqtt_clientSession_def sample_session_def mqtt_count_def mqtt_attr_def attr_str_def
        parse_literals or_null_def Let_def)
  then have "alert (u ''session-dropped-'' @ mqtt_sessionLabel sample_session) queueBacklog Crit
      [(''queue'', PStr (mqtt_sessionLabel sample_session)), (''lag'', PNum (Fin 2)), (''threshold'', PNum (Fin 0))]
    \<in> set (deriveMqttAlerts (NO_FACTS\<lparr>connections := [sample_session]\<rparr>) DEFAULT_ALERT_RULES \<lparr>lag = Fin 0, disk = Fin 75\<rparr>)"
    (is "?a \<in> set ?as")
    by (simp add: deriveMqttAlerts_def mqtt_session_alerts_def Let_def)
  moreover have "al_rule ?a = queueBacklog" "queueBacklog \<notin> set (rulesFor (Some KindMQTT))"
    by (simp_all add: rulesFor_def ROCKETMQ_RULES_def)
  ultimately have "?a \<in> {a \<in> set ?as. al_rule a = queueBacklog \<and> al_rule a \<notin> set (rulesFor (Some KindMQTT))}"
    by (simp only: mem_Collect_eq simp_thms)
  then show ?thesis by blast
qed

text \<open>The Redis alerts bind other names than the sentences print.\<close>

lemma redis_unworded:
  "\<exists>a \<in> set (deriveRedisAlerts (NO_FACTS\<lparr>nodes := [sample_node]\<rparr>) DEFAULT_ALERT_RULES th). \<not> worded a"
  by (simp add: deriveRedisAlerts_def redis_node_alerts_def sample_node_def Let_def)

text \<open>
  Records of connections that no longer exist are said to be forgotten: one that is still
  observed is recorded and announced anew.
\<close>

lemma unknown_connection_announced:
  "map rec_id (snd (mergeAlerts rs [(1, [sample_alert ''a''])] {} {} now)) = [recordId 1 (u ''a'')]"
proof -
  have c: "carry_forward {} now vs acc = acc" for vs acc
    by (induction vs arbitrary: acc) (simp_all add: carried_def)
  show ?thesis
    by (simp add: mergeAlerts_def observe_connection_def observe_alert_def c newly_firing_def sample_alert_def Let_def)
qed

text \<open>Two queues with one label, so with one key between their alerts.\<close>

lemma rabbit_label_collision:
  "rabbit_queueLabel (u ''/'') (u ''a/b'') = rabbit_queueLabel (u ''a'') (u ''b'')"
  by (simp add: rabbit_queueLabel_def u_def)

text \<open>
  The user acknowledged the earlier episode, not this one - says the comment. Once the record of
  the earlier episode has been dropped, the acknowledgement of its id still counts.
\<close>

lemma forgotten_recovery_stays_read:
  "mergeAlerts [(recordId 1 (u ''a''), sample_record ''a'' True (Some 0))] [(1, [sample_alert ''a''])] {1}
     {recordId 1 (u ''a'')} 1800001 =
   ([(recordId 1 (u ''a''), newly_firing 1 1800001 (sample_alert ''a'') True)], [])
   \<and> map rec_id (snd (mergeAlerts [(recordId 1 (u ''a''), sample_record ''a'' True (Some 0))]
     [(1, [sample_alert ''a''])] {1} {recordId 1 (u ''a'')} 1800000)) = [recordId 1 (u ''a'')]"
  by (simp add: mergeAlerts_def observe_connection_def observe_alert_def newly_firing_def sample_alert_def
      sample_record_def carried_def RESOLVED_RETENTION_MS_def recovers_def Let_def)

text \<open>
  A request that did not answer is said not to be evidence that anything cleared. The
  request for the consumer groups that did not answer reads as no groups at all in a sweep that
  otherwise succeeds, so the rules find nothing wrong with any group, and the merge will mark
  the group alerts of a RocketMQ connection as recovered.
\<close>

lemma failed_groups_clear_alerts:
  assumes "prof_status p = StatusOnline" and "prof_kind p = KindRocketMQ"
    and "re_cluster re = Answered ns" and "re_groups re = Rejected"
  shows "\<exists>f. sweepConnection p re = (prof_id p, Some f)
    \<and> {a \<in> set (deriveAlerts cmp (Some (prof_kind p)) f rules th).
         al_rule a = groupOffline \<or> al_rule a = groupLag \<or> al_rule a = dlqGrowth} = {}"
  using assms
  by (auto simp: sweepConnection_def Let_def derive_by_kind_def deriveRocketMQAlerts_def
      rocket_offline_alerts_def rocket_disk_alerts_def)

end
